(* ===== verification/Prelude.thy ===== *)
theory Prelude
  imports Main "HOL-Library.Word" "HOL-Library.Multiset" "HOL-Library.Char_ord"
    "HOL-Library.List_Lexorder"
begin

text \<open>
  What every component of the ticketing backend shares: the base types (identifiers, instants,
  amounts), tables as lists of rows with the three statement shapes of the generated queries
  (select one row, update where, count where), Go's insertion sort behind \<open>sort.Slice\<close>, and
  decimal strings.
\<close>

section \<open>Base types and collections\<close>

text \<open>
  A \<open>uuid.UUID\<close> is its 128 bits read as a big-endian number, so \<open>uuid.Nil\<close> is 0 and
  Postgres' \<open>ORDER BY id\<close> is the numeric order. A \<open>time.Time\<close> or \<open>timestamptz\<close> is an
  instant in nanoseconds since the Unix epoch.
\<close>

type_synonym uuid = nat
type_synonym time = int

abbreviation (input) nil_uuid :: uuid where
  "nil_uuid \<equiv> 0"

named_theorems sql "equations of the statement combinators"
named_theorems frame "tables an operation leaves alone"

section \<open>Tables\<close>

text \<open>
  A table is the list of its rows in insertion order. \<open>sel\<close> is a \<open>:one\<close> select (the first
  matching row, \<open>None\<close> for \<open>pgx.ErrNoRows\<close>), \<open>upd\<close> is \<open>UPDATE .. SET .. WHERE\<close>,
  \<open>cnt\<close> is \<open>SELECT count(*) .. WHERE\<close>.
\<close>

definition sel :: "('r \<Rightarrow> bool) \<Rightarrow> 'r list \<Rightarrow> 'r option" where
  "sel P t = find P t"

definition upd :: "('r \<Rightarrow> bool) \<Rightarrow> ('r \<Rightarrow> 'r) \<Rightarrow> 'r list \<Rightarrow> 'r list" where
  "upd P f t = map (\<lambda>r. if P r then f r else r) t"

definition cnt :: "('r \<Rightarrow> bool) \<Rightarrow> 'r list \<Rightarrow> nat" where
  "cnt P t = length (filter P t)"

text \<open>\<open>UPDATE .. WHERE .. RETURNING\<close> read with \<open>QueryRow\<close>: the first changed row, and no
  change at all when nothing matches.\<close>

definition upd_one :: "('r \<Rightarrow> bool) \<Rightarrow> ('r \<Rightarrow> 'r) \<Rightarrow> 'r list \<Rightarrow> ('r \<times> 'r list) option" where
  "upd_one P f t = (case sel P t of None \<Rightarrow> None | Some r \<Rightarrow> Some (f r, upd P f t))"

text \<open>A nullable foreign key holds when it is NULL or names a row.\<close>

definition references :: "'k option \<Rightarrow> 'k set \<Rightarrow> bool" where
  "references x ks = (case x of None \<Rightarrow> True | Some k \<Rightarrow> k \<in> ks)"

lemma references_simps [simp]: "references None ks" "references (Some k) ks \<longleftrightarrow> k \<in> ks"
  by (simp_all add: references_def)

lemma sel_Nil [simp]: "sel P [] = None"
  by (simp add: sel_def)

lemma sel_Cons [simp]: "sel P (r # t) = (if P r then Some r else sel P t)"
  by (simp add: sel_def)

lemma sel_SomeD: "sel P t = Some r \<Longrightarrow> r \<in> set t \<and> P r"
  by (induction t) (auto split: if_splits)

lemma sel_NoneD: "sel P t = None \<Longrightarrow> r \<in> set t \<Longrightarrow> \<not> P r"
  by (induction t) (auto split: if_splits)

lemma sel_None_iff: "sel P t = None \<longleftrightarrow> (\<forall>r \<in> set t. \<not> P r)"
  by (induction t) auto

lemma sel_append: "sel P (t @ u) = (case sel P t of None \<Rightarrow> sel P u | Some r \<Rightarrow> Some r)"
  by (induction t) auto

lemma sel_strengthen: "sel P t = Some r \<Longrightarrow> Q r \<Longrightarrow> sel (\<lambda>x. P x \<and> Q x) t = Some r"
  by (induction t) (auto split: if_splits)

lemma upd_Nil [simp]: "upd P f [] = []"
  by (simp add: upd_def)

lemma upd_Cons [simp]: "upd P f (r # t) = (if P r then f r else r) # upd P f t"
  by (simp add: upd_def)

lemma set_upd: "set (upd P f t) = (\<lambda>r. if P r then f r else r) ` set t"
  by (simp add: upd_def)

text \<open>A changed row that has a property the change never gives was not changed at all.\<close>

lemma upd_unchanged:
  "r \<in> set (upd P f t) \<Longrightarrow> (\<And>x. P x \<Longrightarrow> \<not> Q (f x)) \<Longrightarrow> Q r \<Longrightarrow> r \<in> set t \<and> \<not> P r"
  by (auto simp: set_upd split: if_splits)

lemma upd_keeps: "r \<in> set t \<Longrightarrow> \<not> P r \<Longrightarrow> r \<in> set (upd P f t)"
  by (force simp: set_upd image_iff)

lemma ball_upd: "(\<forall>r \<in> set (upd P f t). Q r) \<longleftrightarrow> (\<forall>r \<in> set t. if P r then Q (f r) else Q r)"
  by (auto simp: set_upd)

lemma upd_changed: "r \<in> set t \<Longrightarrow> P r \<Longrightarrow> f r \<in> set (upd P f t)"
  by (force simp: set_upd image_iff)

lemma bex_changed: "sel P t = Some r \<Longrightarrow> Q (f r) \<Longrightarrow> \<exists>x \<in> set (upd P f t). Q x"
  by (blast dest: sel_SomeD intro: upd_changed)

lemma upd_cases:
  assumes "r \<in> set (upd P f t)"
  obtains (kept) "r \<in> set t" "\<not> P r" | (changed) x where "x \<in> set t" "P x" "r = f x"
  using assms by (auto simp: set_upd split: if_splits)

lemma sel_upd_key: "(\<And>x. P (f x) = P x) \<Longrightarrow> sel P t = Some r \<Longrightarrow> sel P (upd P f t) = Some (f r)"
  by (induction t) (auto split: if_splits)

lemma length_upd [simp]: "length (upd P f t) = length t"
  by (simp add: upd_def)

lemma map_upd [sql]: "(\<And>r. k (f r) = k r) \<Longrightarrow> map k (upd P f t) = map k t"
  by (simp add: upd_def)

lemma upd_no_match: "(\<forall>r \<in> set t. \<not> P r) \<Longrightarrow> upd P f t = t"
  by (induction t) auto

lemma upd_one_Some: "upd_one P f t = Some (r', t') \<longleftrightarrow>
    (\<exists>r. sel P t = Some r \<and> r' = f r \<and> t' = upd P f t)"
  by (auto simp: upd_one_def split: option.splits)

lemma upd_one_None: "upd_one P f t = None \<longleftrightarrow> (\<forall>r \<in> set t. \<not> P r)"
  by (auto simp: upd_one_def sel_None_iff split: option.splits dest: sel_SomeD)

lemma cnt_Nil [simp]: "cnt P [] = 0"
  by (simp add: cnt_def)

lemma cnt_Cons [simp]: "cnt P (r # t) = of_bool (P r) + cnt P t"
  by (simp add: cnt_def)

lemma cnt_append [simp]: "cnt P (t @ u) = cnt P t + cnt P u"
  by (simp add: cnt_def)

lemma cnt_0_iff: "cnt P t = 0 \<longleftrightarrow> (\<forall>r \<in> set t. \<not> P r)"
  by (induction t) auto

lemma cnt_mono: "(\<And>r. r \<in> set t \<Longrightarrow> P r \<Longrightarrow> Q r) \<Longrightarrow> cnt P t \<le> cnt Q t"
  by (induction t) (auto simp: of_bool_def)

lemma cnt_cong: "(\<And>r. r \<in> set t \<Longrightarrow> P r = Q r) \<Longrightarrow> cnt P t = cnt Q t"
  by (induction t) auto

lemma cnt_upd: "cnt Q (upd P f t) = cnt (\<lambda>r. if P r then Q (f r) else Q r) t"
  by (induction t) auto

lemma cnt_upd_same [sql]:
  "(\<And>r. r \<in> set t \<Longrightarrow> P r \<Longrightarrow> Q (f r) = Q r) \<Longrightarrow> cnt Q (upd P f t) = cnt Q t"
  by (induction t) auto

lemma cnt_upd_le:
  "(\<And>r. r \<in> set t \<Longrightarrow> P r \<Longrightarrow> Q (f r) \<Longrightarrow> Q r) \<Longrightarrow> cnt Q (upd P f t) \<le> cnt Q t"
  by (induction t) (auto simp: of_bool_def)

text \<open>Updating the one row with a given key moves one unit between counts.\<close>

lemma cnt_upd_key:
  assumes "distinct (map k t)" and "r \<in> set t" and "P r"
    and "\<And>x. x \<in> set t \<Longrightarrow> P x \<Longrightarrow> k x = k r"
  shows "cnt Q (upd P f t) + of_bool (Q r) = cnt Q t + of_bool (Q (f r))"
  using assms
proof (induction t)
  case Nil
  then show ?case by simp
next
  case (Cons y t)
  show ?case
  proof (cases "y = r")
    case True
    have "\<not> P x" if "x \<in> set t" for x
    proof
      assume "P x"
      with that have "k x = k r" by (intro Cons.prems(4)) auto
      with that True Cons.prems(1) show False by (auto simp: image_iff)
    qed
    then have "upd P f t = t" by (simp add: upd_no_match)
    with True Cons.prems(3) show ?thesis by simp
  next
    case False
    with Cons.prems(1,2) have r: "r \<in> set t" and ky: "k y \<noteq> k r" by auto
    have "\<not> P y" using Cons.prems(4) [of y] ky by auto
    moreover have "cnt Q (upd P f t) + of_bool (Q r) = cnt Q t + of_bool (Q (f r))"
    proof (rule Cons.IH)
      show "distinct (map k t)" using Cons.prems(1) by simp
      show "k x = k r" if "x \<in> set t" "P x" for x
        by (rule Cons.prems(4)) (use that in auto)
    qed (use r Cons.prems(3) in auto)
    ultimately show ?thesis by simp
  qed
qed

lemma distinct_key_unique:
  "distinct (map k t) \<Longrightarrow> x \<in> set t \<Longrightarrow> y \<in> set t \<Longrightarrow> k x = k y \<Longrightarrow> x = y"
  by (auto simp: distinct_map inj_on_def)

lemma sel_key:
  assumes "distinct (map k t)" and "r \<in> set t"
  shows "sel (\<lambda>x. k x = k r) t = Some r"
  using assms by (induction t) (auto simp: image_iff)

lemma cnt_key_one:
  assumes "distinct (map k t)" and "v \<in> k ` set t"
  shows "cnt (\<lambda>x. k x = v) t = 1"
  using assms
proof (induction t)
  case (Cons y t)
  show ?case
  proof (cases "k y = v")
    case True
    with Cons.prems have "v \<notin> k ` set t" by simp
    then have "cnt (\<lambda>x. k x = v) t = 0" unfolding cnt_0_iff by blast
    with True show ?thesis by simp
  next
    case False
    with Cons show ?thesis by auto
  qed
qed simp

section \<open>Tables opened and closed together\<close>

text \<open>Rows of two tables that are open together: every open row of one has its open partner, with
  the same key, in the other.\<close>

definition linked :: "('a \<Rightarrow> 'k) \<Rightarrow> ('a \<Rightarrow> bool) \<Rightarrow> ('b \<Rightarrow> 'k) \<Rightarrow> ('b \<Rightarrow> bool) \<Rightarrow> ('a \<Rightarrow> 'b \<Rightarrow> bool) \<Rightarrow>
    'a list \<Rightarrow> 'b list \<Rightarrow> bool" where
  "linked pk oa fk ob mt as bs \<longleftrightarrow>
     (\<forall>b \<in> set bs. ob b \<longrightarrow> (\<exists>a \<in> set as. pk a = fk b \<and> oa a \<and> mt a b)) \<and>
     (\<forall>a \<in> set as. oa a \<longrightarrow> (\<exists>b \<in> set bs. fk b = pk a \<and> ob b \<and> mt a b))"

lemma linked_close:
  assumes l: "linked pk oa fk ob mt as bs" and "\<And>a. \<not> oa (fa a)" "\<And>b. \<not> ob (fb b)"
  shows "linked pk oa fk ob mt (upd (\<lambda>a. pk a = k \<and> oa a) fa as) (upd (\<lambda>b. fk b = k \<and> ob b) fb bs)"
    (is "linked _ _ _ _ _ ?as ?bs")
proof -
  have "\<exists>a \<in> set ?as. pk a = fk b \<and> oa a \<and> mt a b" if "b \<in> set ?bs" "ob b" for b
  proof -
    have b: "b \<in> set bs \<and> \<not> (fk b = k \<and> ob b)"
      using that(1) by (rule upd_unchanged [where Q = ob]) (use that assms(3) in auto)
    with l that(2) obtain a where a: "a \<in> set as" "pk a = fk b" "oa a" "mt a b"
      unfolding linked_def by blast
    with b that(2) show ?thesis by (intro bexI [of _ a] upd_keeps) auto
  qed
  moreover have "\<exists>b \<in> set ?bs. fk b = pk a \<and> ob b \<and> mt a b" if "a \<in> set ?as" "oa a" for a
  proof -
    have a: "a \<in> set as \<and> \<not> (pk a = k \<and> oa a)"
      using that(1) by (rule upd_unchanged [where Q = oa]) (use that assms(2) in auto)
    with l that(2) obtain b where b: "b \<in> set bs" "fk b = pk a" "ob b" "mt a b"
      unfolding linked_def by blast
    with a that(2) show ?thesis by (intro bexI [of _ b] upd_keeps) auto
  qed
  ultimately show ?thesis unfolding linked_def by blast
qed

lemma linked_open:
  assumes l: "linked pk oa fk ob mt as bs" and P: "\<And>a. P a \<Longrightarrow> \<not> oa a" "sel P as = Some a0"
    and b: "ob b" and f: "\<And>a. a \<in> set as \<Longrightarrow> P a \<Longrightarrow> pk (f a) = fk b \<and> oa (f a) \<and> mt (f a) b"
  shows "linked pk oa fk ob mt (upd P f as) (bs @ [b])"
proof -
  have "\<exists>a \<in> set (upd P f as). pk a = fk y \<and> oa a \<and> mt a y" if "y \<in> set (bs @ [b])" "ob y" for y
  proof (cases "y = b")
    case True
    from P(2) f sel_SomeD [OF P(2)] show ?thesis unfolding True by (intro bex_changed) auto
  next
    case False
    with that l obtain a where a: "a \<in> set as" "pk a = fk y" "oa a" "mt a y"
      unfolding linked_def by auto
    with P(1) show ?thesis by (intro bexI [of _ a] upd_keeps) auto
  qed
  moreover have "\<exists>y \<in> set (bs @ [b]). fk y = pk a \<and> ob y \<and> mt a y" if "a \<in> set (upd P f as)" "oa a" for a
    using that(1)
  proof (cases rule: upd_cases)
    case kept
    with l that(2) show ?thesis unfolding linked_def by auto
  next
    case (changed x)
    with f b show ?thesis by auto
  qed
  ultimately show ?thesis unfolding linked_def by blast
qed

lemma linked_append_left:
  "linked pk oa fk ob mt as bs \<Longrightarrow> \<not> oa a \<Longrightarrow> linked pk oa fk ob mt (as @ [a]) bs"
  unfolding linked_def by fastforce

section \<open>Go's \<open>sort.Slice\<close>\<close>

text \<open>
  For up to twelve elements \<open>sort.Slice\<close> runs \<open>insertionSort_func\<close>: element \<open>i\<close> is
  swapped left while it is \<open>less\<close> than its left neighbour. \<open>go_ins\<close> works on the reversed
  prefix. For a comparison that leaves no ties every sorting algorithm gives this result.
\<close>

fun go_ins :: "('a \<Rightarrow> 'a \<Rightarrow> bool) \<Rightarrow> 'a \<Rightarrow> 'a list \<Rightarrow> 'a list" where
  "go_ins lt x [] = [x]"
| "go_ins lt x (y # ys) = (if lt x y then y # go_ins lt x ys else x # y # ys)"

definition go_sort :: "('a \<Rightarrow> 'a \<Rightarrow> bool) \<Rightarrow> 'a list \<Rightarrow> 'a list" where
  "go_sort lt xs = rev (fold (go_ins lt) xs [])"

text \<open>What \<open>sort.Slice\<close> asks of \<open>less\<close>: a strict weak ordering, here on a set.\<close>

definition swo_on :: "'a set \<Rightarrow> ('a \<Rightarrow> 'a \<Rightarrow> bool) \<Rightarrow> bool" where
  "swo_on A lt \<longleftrightarrow> (\<forall>x \<in> A. \<forall>y \<in> A. lt x y \<longrightarrow> \<not> lt y x) \<and>
     (\<forall>x \<in> A. \<forall>y \<in> A. \<forall>z \<in> A. \<not> lt y x \<longrightarrow> \<not> lt z y \<longrightarrow> \<not> lt z x)"

lemma mset_go_ins [simp]: "mset (go_ins lt x ys) = add_mset x (mset ys)"
  by (induction ys) auto

lemma set_go_ins [simp]: "set (go_ins lt x ys) = insert x (set ys)"
  by (induction ys) auto

lemma mset_fold_go_ins: "mset (fold (go_ins lt) xs acc) = mset xs + mset acc"
  by (induction xs arbitrary: acc) auto

lemma mset_go_sort [simp]: "mset (go_sort lt xs) = mset xs"
  by (simp add: go_sort_def mset_fold_go_ins)

lemma set_go_sort [simp]: "set (go_sort lt xs) = set xs"
  by (metis mset_go_sort set_mset_mset)

lemma length_go_sort [simp]: "length (go_sort lt xs) = length xs"
  by (metis mset_go_sort size_mset)

lemma sorted_go_ins:
  assumes "swo_on A lt" and "insert x (set ys) \<subseteq> A"
    and "sorted_wrt (\<lambda>a b. \<not> lt a b) ys"
  shows "sorted_wrt (\<lambda>a b. \<not> lt a b) (go_ins lt x ys)"
  using assms(2,3)
proof (induction ys)
  case Nil
  then show ?case by simp
next
  case (Cons y ys)
  show ?case
  proof (cases "lt x y")
    case True
    with assms(1) Cons.prems have "\<not> lt y x" by (auto simp: swo_on_def)
    with True Cons show ?thesis by auto
  next
    case False
    have "\<not> lt x z" if "z \<in> set ys" for z
    proof -
      from Cons.prems that have "\<not> lt y z" and "z \<in> A" "y \<in> A" "x \<in> A" by auto
      with False assms(1) show ?thesis unfolding swo_on_def by blast
    qed
    with False Cons.prems show ?thesis by auto
  qed
qed

lemma sorted_fold_go_ins:
  assumes "swo_on A lt"
  shows "set xs \<union> set acc \<subseteq> A \<Longrightarrow> sorted_wrt (\<lambda>a b. \<not> lt a b) acc \<Longrightarrow>
    sorted_wrt (\<lambda>a b. \<not> lt a b) (fold (go_ins lt) xs acc)"
proof (induction xs arbitrary: acc)
  case Nil
  then show ?case by simp
next
  case (Cons x xs)
  from Cons.prems have "sorted_wrt (\<lambda>a b. \<not> lt a b) (go_ins lt x acc)"
    by (intro sorted_go_ins [OF assms]) auto
  with Cons show ?case by auto
qed

lemma sorted_go_sort:
  "swo_on (set xs) lt \<Longrightarrow> sorted_wrt (\<lambda>a b. \<not> lt b a) (go_sort lt xs)"
  unfolding go_sort_def sorted_wrt_rev by (rule sorted_fold_go_ins) auto

text \<open>The interface the ranking code relies on, and what follows from it alone.\<close>

locale slice_sort =
  fixes srt :: "('a \<Rightarrow> 'a \<Rightarrow> bool) \<Rightarrow> 'a list \<Rightarrow> 'a list"
  assumes srt_perm: "mset (srt lt xs) = mset xs"
    and srt_sorted: "swo_on (set xs) lt \<Longrightarrow> sorted_wrt (\<lambda>a b. \<not> lt b a) (srt lt xs)"
begin

lemma srt_set: "set (srt lt xs) = set xs"
  by (metis srt_perm set_mset_mset)

lemma srt_length: "length (srt lt xs) = length xs"
  by (metis srt_perm size_mset)

lemma srt_nth_order:
  assumes "swo_on (set xs) lt" and "i < j" and "j < length xs"
  shows "\<not> lt (srt lt xs ! j) (srt lt xs ! i)"
  using sorted_wrt_nth_less [OF srt_sorted [OF assms(1)] assms(2)] assms(3) by (simp add: srt_length)

end

interpretation gosort: slice_sort go_sort
  by unfold_locales (auto intro: sorted_go_sort)

section \<open>Decimal strings\<close>

definition digit_char :: "nat \<Rightarrow> char" where
  "digit_char d = char_of (48 + d)"

definition digit_val :: "char \<Rightarrow> nat option" where
  "digit_val c = (let n = of_char c in if 48 \<le> n \<and> n \<le> 57 then Some (n - 48) else None)"

function dec :: "nat \<Rightarrow> string" where
  "dec n = (if n < 10 then [digit_char n] else dec (n div 10) @ [digit_char (n mod 10)])"
  by pat_completeness auto
termination
  by (relation "measure id") auto

declare dec.simps [simp del]

fun dec_val_acc :: "nat \<Rightarrow> string \<Rightarrow> nat option" where
  "dec_val_acc a [] = Some a"
| "dec_val_acc a (c # cs) =
     (case digit_val c of None \<Rightarrow> None | Some d \<Rightarrow> dec_val_acc (10 * a + d) cs)"

text \<open>The value of a non-empty string of decimal digits (\<open>'^[0-9]+$'\<close>), \<open>None\<close> otherwise.\<close>

definition dec_val :: "string \<Rightarrow> nat option" where
  "dec_val s = (if s = [] then None else dec_val_acc 0 s)"

definition zero_pad :: "nat \<Rightarrow> string \<Rightarrow> string" where
  "zero_pad w s = replicate (w - length s) (digit_char 0) @ s"

lemma digit_val_char [simp]: "d < 10 \<Longrightarrow> digit_val (digit_char d) = Some d"
  by (simp add: digit_val_def digit_char_def)

lemma dec_nonempty [simp]: "dec n \<noteq> []"
  by (subst dec.simps) simp

lemma dec_val_acc_append:
  "dec_val_acc a (s @ t) = (case dec_val_acc a s of None \<Rightarrow> None | Some b \<Rightarrow> dec_val_acc b t)"
  by (induction s arbitrary: a) (auto split: option.splits)

lemma dec_val_acc_dec: "dec_val_acc 0 (dec n) = Some n"
proof (induction n rule: dec.induct)
  case (1 n)
  show ?case
  proof (cases "n < 10")
    case True
    then show ?thesis by (subst dec.simps) simp
  next
    case False
    with 1 have "dec_val_acc 0 (dec (n div 10)) = Some (n div 10)" by simp
    with False show ?thesis by (subst dec.simps) (simp add: dec_val_acc_append)
  qed
qed

lemma dec_val_dec [simp]: "dec_val (dec n) = Some n"
  by (simp add: dec_val_def dec_val_acc_dec)

lemma dec_inj: "dec m = dec n \<Longrightarrow> m = n"
  by (metis dec_val_dec option.inject)

lemma dec_val_acc_zeros: "dec_val_acc 0 (replicate k (digit_char 0) @ s) = dec_val_acc 0 s"
  by (induction k) simp_all

lemma dec_val_zero_pad_dec [simp]: "dec_val (zero_pad w (dec n)) = Some n"
  by (simp add: dec_val_def zero_pad_def dec_val_acc_zeros dec_val_acc_dec)

section \<open>ASCII case folding\<close>

text \<open>\<open>strings.ToLower\<close> and \<open>strings.ToUpper\<close> on the ASCII letters; other bytes are kept.\<close>

definition lower_char :: "char \<Rightarrow> char" where
  "lower_char c = (let n = (of_char c :: nat) in if 65 \<le> n \<and> n \<le> 90 then char_of (n + 32) else c)"

definition upper_char :: "char \<Rightarrow> char" where
  "upper_char c = (let n = (of_char c :: nat) in if 97 \<le> n \<and> n \<le> 122 then char_of (n - 32) else c)"

abbreviation lower :: "string \<Rightarrow> string" where
  "lower s \<equiv> map lower_char s"

abbreviation upper :: "string \<Rightarrow> string" where
  "upper s \<equiv> map upper_char s"

section \<open>Words over A-Z0-9\<close>

text \<open>The alphabet of order, ticket and payment numbers; a random byte picks the letter at its
  remainder modulo 36.\<close>

definition number_alphabet :: string where
  "number_alphabet = ''ABCDEFGHIJKLMNOPQRSTUVWXYZ0123456789''"

definition random_number :: "string \<Rightarrow> string \<Rightarrow> nat list \<Rightarrow> string" where
  "random_number prefix day rnd =
     prefix @ day @ ''-'' @ map (\<lambda>b. number_alphabet ! (b mod length number_alphabet)) rnd"

definition is_alnum :: "char \<Rightarrow> bool" where
  "is_alnum c = (let n = (of_char c :: nat) in
     48 \<le> n \<and> n \<le> 57 \<or> 65 \<le> n \<and> n \<le> 90 \<or> 97 \<le> n \<and> n \<le> 122)"

text \<open>\<open>strings.TrimSpace\<close> on ASCII text.\<close>

definition is_space :: "char \<Rightarrow> bool" where
  "is_space c = (let n = (of_char c :: nat) in 9 \<le> n \<and> n \<le> 13 \<or> n = 32)"

definition trim_space :: "string \<Rightarrow> string" where
  "trim_space s = rev (dropWhile is_space (rev (dropWhile is_space s)))"

lemma length_random_number:
  "length (random_number prefix day rnd) = length prefix + length day + 1 + length rnd"
  by (simp add: random_number_def)

lemma number_alphabet_set: "c \<in> set number_alphabet \<Longrightarrow> is_alnum c"
  unfolding number_alphabet_def by (auto simp: is_alnum_def)

lemma number_alphabet_nth: "is_alnum (number_alphabet ! (b mod length number_alphabet))"
proof -
  have "length number_alphabet \<noteq> 0" by (simp add: number_alphabet_def)
  then have "b mod length number_alphabet < length number_alphabet" by simp
  then show ?thesis by (intro number_alphabet_set nth_mem)
qed

lemma is_alnum_not_space: "is_alnum c \<Longrightarrow> \<not> is_space c"
  by (auto simp: is_alnum_def is_space_def Let_def)

lemma digit_is_alnum: "digit_val c = Some d \<Longrightarrow> is_alnum c"
  by (auto simp: digit_val_def is_alnum_def Let_def split: if_splits)

lemma dropWhile_none: "\<forall>c \<in> set s. \<not> P c \<Longrightarrow> dropWhile P s = s"
  by (induction s) auto

lemma trim_space_alnum: "\<forall>c \<in> set s. is_alnum c \<Longrightarrow> trim_space s = s"
  by (simp add: trim_space_def dropWhile_none is_alnum_not_space)

lemma trim_space_set: "set (trim_space s) \<subseteq> set s"
  unfolding trim_space_def by (metis set_dropWhileD set_rev subsetI)

section \<open>Wrap-around\<close>

text \<open>An \<open>int64\<close> is its value; Go's arithmetic wraps.\<close>

definition int64 :: "int \<Rightarrow> int" where
  "int64 x = signed_take_bit 63 x"

lemma int64_id: "- (2 ^ 63) \<le> x \<Longrightarrow> x < 2 ^ 63 \<Longrightarrow> int64 x = x"
  by (simp add: int64_def signed_take_bit_int_eq_self)

lemma int64_bounds: "- (2 ^ 63) \<le> int64 x" "int64 x < 2 ^ 63"
  unfolding int64_def by (rule signed_take_bit_int_greater_eq_minus_exp, rule signed_take_bit_int_less_exp)

lemma int64_le: "0 \<le> x \<Longrightarrow> int64 x \<le> x"
  unfolding int64_def by (simp add: signed_take_bit_int_less_eq_self_iff)

lemma int64_add: "int64 (int64 x + y) = int64 (x + y)"
  unfolding int64_def by (metis signed_take_bit_add signed_take_bit_signed_take_bit min.idem)

lemma int64_diff: "int64 (int64 x - y) = int64 (x - y)" "int64 (x - int64 y) = int64 (x - y)"
  unfolding int64_def by (metis signed_take_bit_diff signed_take_bit_signed_take_bit min.idem)+

end
