(* ===== verification/Schema.thy ===== *)
theory Schema
  imports Prelude
begin

text \<open>
  The database the backend works on: one record per row type of
  \<open>services/api/internal/db/models.go\<close> (the status columns, text with a CHECK constraint, as
  datatypes), the record of all tables, the errors of the services, and the two ways a
  repository runs statements: directly on the pool, or inside \<open>ExecTx\<close>.
  The bookkeeping columns \<open>created_at\<close> and \<open>updated_at\<close> are left out: rows are kept in
  insertion order, and only \<open>ORDER BY created_at\<close> reads them.
\<close>

section \<open>Errors\<close>

text \<open>
  \<open>apperr.New(status, code, message)\<close> is \<open>AppErr status code\<close>, \<open>errors.New\<close> and
  \<open>fmt.Errorf\<close> are \<open>PlainErr\<close>; the others are \<open>pgx.ErrNoRows\<close> and what Postgres reports:
  a violated constraint by name, or a number out of its type's range.
\<close>

datatype app_error =
    AppErr nat string
  | PlainErr string
  | NoRows
  | UniqueViolation string
  | ForeignKeyViolation string
  | CheckViolation string
  | NotNullViolation string
  | NumericOutOfRange

abbreviation ErrSoldOut :: app_error where
  "ErrSoldOut \<equiv> AppErr 409 ''SOLD_OUT''"
abbreviation ErrCategory :: app_error where
  "ErrCategory \<equiv> AppErr 404 ''CATEGORY_NOT_FOUND''"
abbreviation ErrOrderNotFound :: app_error where
  "ErrOrderNotFound \<equiv> AppErr 404 ''ORDER_NOT_FOUND''"
abbreviation ErrCategoryNotFound :: app_error where
  "ErrCategoryNotFound \<equiv> AppErr 404 ''CATEGORY_NOT_FOUND''"
abbreviation ErrInvalidMode :: app_error where
  "ErrInvalidMode \<equiv> AppErr 400 ''INVALID_REGISTRATION_MODE''"
abbreviation ErrEventNotPublished :: app_error where
  "ErrEventNotPublished \<equiv> AppErr 409 ''EVENT_NOT_PUBLISHED''"
abbreviation ErrRegistrationClosed :: app_error where
  "ErrRegistrationClosed \<equiv> AppErr 409 ''REGISTRATION_CLOSED''"
abbreviation ErrMaxOrderExceeded :: app_error where
  "ErrMaxOrderExceeded \<equiv> AppErr 409 ''MAX_ORDER_EXCEEDED''"
abbreviation ErrInvalidState :: app_error where
  "ErrInvalidState \<equiv> AppErr 409 ''INVALID_ORDER_STATE''"
abbreviation ErrOrderNumberGen :: app_error where
  "ErrOrderNumberGen \<equiv> AppErr 500 ''ORDER_NUMBER_GENERATION_FAILED''"
abbreviation ErrTermsRequired :: app_error where
  "ErrTermsRequired \<equiv> AppErr 400 ''TERMS_REQUIRED''"
abbreviation ErrGuestEmailRequired :: app_error where
  "ErrGuestEmailRequired \<equiv> AppErr 400 ''GUEST_EMAIL_REQUIRED''"
abbreviation ErrOrderAlreadyClaimed :: app_error where
  "ErrOrderAlreadyClaimed \<equiv> AppErr 409 ''ORDER_ALREADY_CLAIMED''"
abbreviation ErrGrantAlreadyConsumed :: app_error where
  "ErrGrantAlreadyConsumed \<equiv> AppErr 409 ''GRANT_ALREADY_CONSUMED''"
abbreviation ErrGrantNotFound :: app_error where
  "ErrGrantNotFound \<equiv> AppErr 404 ''GRANT_NOT_FOUND''"
abbreviation ErrGrantExpired :: app_error where
  "ErrGrantExpired \<equiv> AppErr 403 ''GRANT_EXPIRED''"
abbreviation ErrPaymentNotFound :: app_error where
  "ErrPaymentNotFound \<equiv> AppErr 404 ''PAYMENT_NOT_FOUND''"
abbreviation ErrOrderNotPayable :: app_error where
  "ErrOrderNotPayable \<equiv> AppErr 409 ''ORDER_NOT_PAYABLE''"
abbreviation ErrPaymentActive :: app_error where
  "ErrPaymentActive \<equiv> AppErr 409 ''PAYMENT_ALREADY_ACTIVE''"
abbreviation ErrGatewayNotAvail :: app_error where
  "ErrGatewayNotAvail \<equiv> AppErr 400 ''GATEWAY_NOT_AVAILABLE''"
abbreviation ErrUnsupportedMethod :: app_error where
  "ErrUnsupportedMethod \<equiv> AppErr 400 ''UNSUPPORTED_METHOD''"
abbreviation ErrGatewayError :: app_error where
  "ErrGatewayError \<equiv> AppErr 502 ''GATEWAY_ERROR''"
abbreviation ErrAmountMismatch :: app_error where
  "ErrAmountMismatch \<equiv> AppErr 400 ''PAYMENT_AMOUNT_MISMATCH''"
abbreviation ErrInvalidSignature :: app_error where
  "ErrInvalidSignature \<equiv> AppErr 401 ''INVALID_SIGNATURE''"
abbreviation ErrReconcileFailed :: app_error where
  "ErrReconcileFailed \<equiv> AppErr 502 ''RECONCILE_FAILED''"
abbreviation ErrMerchantRefGen :: app_error where
  "ErrMerchantRefGen \<equiv> AppErr 500 ''MERCHANT_REF_GENERATION_FAILED''"
abbreviation ErrPaymentChannelDisabled :: app_error where
  "ErrPaymentChannelDisabled \<equiv> AppErr 400 ''PAYMENT_CHANNEL_DISABLED''"
abbreviation ErrEventNotFound :: app_error where
  "ErrEventNotFound \<equiv> AppErr 404 ''EVENT_NOT_FOUND''"
abbreviation ErrTicketNotFound :: app_error where
  "ErrTicketNotFound \<equiv> AppErr 404 ''TICKET_NOT_FOUND''"
abbreviation ErrInvoiceNotAvailable :: app_error where
  "ErrInvoiceNotAvailable \<equiv> AppErr 409 ''INVOICE_NOT_AVAILABLE''"
abbreviation ErrPoolExhausted :: app_error where
  "ErrPoolExhausted \<equiv> AppErr 409 ''POOL_EXHAUSTED''"
abbreviation ErrCodeNotFound :: app_error where
  "ErrCodeNotFound \<equiv> AppErr 404 ''CODE_NOT_FOUND''"
abbreviation ErrCodeExpired :: app_error where
  "ErrCodeExpired \<equiv> AppErr 403 ''CODE_EXPIRED''"
abbreviation ErrCodeExhausted :: app_error where
  "ErrCodeExhausted \<equiv> AppErr 409 ''CODE_EXHAUSTED''"
abbreviation ErrNotEligible :: app_error where
  "ErrNotEligible \<equiv> AppErr 403 ''NOT_ELIGIBLE''"
abbreviation ErrModeNotAvailable :: app_error where
  "ErrModeNotAvailable \<equiv> AppErr 409 ''REGISTRATION_MODE_NOT_AVAILABLE''"
abbreviation ErrClosed :: app_error where
  "ErrClosed \<equiv> AppErr 409 ''REGISTRATION_CLOSED''"
abbreviation ErrRegistrationWindowClosed :: app_error where
  "ErrRegistrationWindowClosed \<equiv> AppErr 409 ''REGISTRATION_WINDOW_CLOSED''"
abbreviation ErrBallotClosed :: app_error where
  "ErrBallotClosed \<equiv> AppErr 409 ''BALLOT_CLOSED''"
abbreviation ErrAlreadyApplied :: app_error where
  "ErrAlreadyApplied \<equiv> AppErr 409 ''BALLOT_ALREADY_APPLIED''"
abbreviation ErrNotWinner :: app_error where
  "ErrNotWinner \<equiv> AppErr 403 ''BALLOT_NOT_WINNER''"
abbreviation ErrPackageNotFound :: app_error where
  "ErrPackageNotFound \<equiv> AppErr 404 ''PACKAGE_NOT_FOUND''"
abbreviation ErrSubscriptionNotFound :: app_error where
  "ErrSubscriptionNotFound \<equiv> AppErr 404 ''SUBSCRIPTION_NOT_FOUND''"
abbreviation ErrInvoiceNotFound :: app_error where
  "ErrInvoiceNotFound \<equiv> AppErr 404 ''INVOICE_NOT_FOUND''"
abbreviation ErrInvalidPackage :: app_error where
  "ErrInvalidPackage \<equiv> AppErr 400 ''INVALID_PACKAGE''"
abbreviation ErrEventLimitReached :: app_error where
  "ErrEventLimitReached \<equiv> AppErr 403 ''EVENT_LIMIT_REACHED''"
abbreviation ErrNotOnWaitlist :: app_error where
  "ErrNotOnWaitlist \<equiv> AppErr 404 ''NOT_ON_WAITLIST''"
abbreviation ErrDrawNotFound :: app_error where
  "ErrDrawNotFound \<equiv> AppErr 404 ''BALLOT_DRAW_NOT_FOUND''"
abbreviation ErrDrawNotAnnounced :: app_error where
  "ErrDrawNotAnnounced \<equiv> AppErr 409 ''BALLOT_DRAW_NOT_ANNOUNCED''"
abbreviation ErrDrawAlreadyRun :: app_error where
  "ErrDrawAlreadyRun \<equiv> AppErr 409 ''BALLOT_DRAW_ALREADY_RUN''"
abbreviation ErrBallotWithdrawNotAllowed :: app_error where
  "ErrBallotWithdrawNotAllowed \<equiv> AppErr 409 ''BALLOT_WITHDRAW_NOT_ALLOWED''"
abbreviation ErrNotEnabled :: app_error where
  "ErrNotEnabled \<equiv> AppErr 409 ''QUEUE_NOT_ENABLED''"
abbreviation ErrTokenNotFound :: app_error where
  "ErrTokenNotFound \<equiv> AppErr 404 ''QUEUE_TOKEN_NOT_FOUND''"
abbreviation ErrNotAllowed :: app_error where
  "ErrNotAllowed \<equiv> AppErr 403 ''QUEUE_NOT_ALLOWED''"
abbreviation ErrAdmissionRequired :: app_error where
  "ErrAdmissionRequired \<equiv> AppErr 403 ''ADMISSION_REQUIRED''"
abbreviation ErrAdmissionExpired :: app_error where
  "ErrAdmissionExpired \<equiv> AppErr 403 ''ADMISSION_EXPIRED''"
abbreviation ErrPriorityWindowClosed :: "string \<Rightarrow> app_error" where
  "ErrPriorityWindowClosed reason \<equiv> AppErr 409 (''PRIORITY_WINDOW_CLOSED: '' @ reason)"
abbreviation ErrDuplicateDedupe :: app_error where
  "ErrDuplicateDedupe \<equiv> PlainErr ''duplicate_dedupe_key''"
abbreviation ErrParseCallback :: app_error where
  "ErrParseCallback \<equiv> PlainErr ''parse_callback''"
abbreviation ErrTicketNumberGen :: app_error where
  "ErrTicketNumberGen \<equiv> PlainErr ''ticket_number''"
abbreviation ErrBibInvalidFormat :: app_error where
  "ErrBibInvalidFormat \<equiv> PlainErr ''bib_invalid_format''"
abbreviation ErrBibAssignExhausted :: app_error where
  "ErrBibAssignExhausted \<equiv> PlainErr ''bib_assign_exhausted''"
abbreviation ErrBibTicketNotFound :: app_error where
  "ErrBibTicketNotFound \<equiv> PlainErr ''bib_ticket_not_found''"
abbreviation ErrBibConflict :: app_error where
  "ErrBibConflict \<equiv> PlainErr ''bib_conflict''"

type_synonym 'a res = "app_error + 'a"

section \<open>Catalog rows\<close>

record user =
  u_id :: uuid
  u_full_name :: string
  u_email :: string
  u_membership :: "string option"

record event =
  e_id :: uuid
  e_org :: uuid
  e_name :: string
  e_status :: string

record category =
  c_id :: uuid
  c_org :: uuid
  c_event :: uuid
  c_name :: string
  c_price :: int
  c_capacity :: int
  c_opens_at :: "time option"
  c_closes_at :: "time option"
  c_max_order_per_user :: int

section \<open>Orders, reservations, tickets\<close>

datatype order_status = OrdDraft | OrdPendingPayment | OrdPaid | OrdExpired | OrdCancelled | OrdRefunded

record order_base =
  o_id :: uuid
  o_org :: uuid
  o_event :: uuid
  o_category :: uuid
  o_participant :: "uuid option"
  o_number :: string
  o_status :: order_status
  o_subtotal :: int
  o_fee :: int
  o_discount :: int
  o_total :: int
  o_expired_at :: "time option"

text \<open>The guest, consent, form and refund columns that later migrations added.\<close>

record order = order_base +
  o_guest_email :: "string option"
  o_guest_name :: "string option"
  o_guest_phone :: "string option"
  o_terms_accepted_at :: "time option"
  o_terms_version :: "string option"
  o_waiver_accepted_at :: "time option"
  o_waiver_version :: "string option"
  o_form_answers :: string
  o_refunded_amount :: int
  o_refund_reason :: "string option"
  o_refunded_at :: "time option"

datatype reservation_status = ResActive | ResExpired | ResCompleted | ResReleased

record reservation =
  r_id :: uuid
  r_org :: uuid
  r_event :: uuid
  r_category :: uuid
  r_order :: uuid
  r_participant :: uuid
  r_status :: reservation_status
  r_expires_at :: time

datatype ticket_status = TixValid | TixUsed | TixCancelled

datatype bib_method = BibAuto | BibManual | BibOverride

record ticket_base =
  t_id :: uuid
  t_org :: uuid
  t_event :: uuid
  t_category :: uuid
  t_order :: uuid
  t_participant :: "uuid option"
  t_number :: string
  t_status :: ticket_status
  t_holder_name :: string
  t_holder_email :: string
  t_event_title :: string
  t_category_name :: string
  t_qr_version :: int
  t_form_answers :: string
  t_used_at :: "time option"

text \<open>The BIB columns of migration 49.\<close>

record ticket = ticket_base +
  t_bib :: "string option"
  t_bib_assigned_at :: "time option"
  t_bib_assigned_by :: "uuid option"
  t_bib_method :: "bib_method option"

section \<open>Payments\<close>

datatype payment_status = PayPending | PayPaid | PayExpired | PayFailed | PayRefunded

record payment_base =
  p_id :: uuid
  p_org :: uuid
  p_event :: uuid
  p_order :: uuid
  p_participant :: uuid
  p_gateway :: string
  p_method :: string
  p_channel :: "string option"
  p_status :: payment_status
  p_amount :: int
  p_currency :: string

text \<open>What the gateway answered.\<close>

record payment = payment_base +
  p_gateway_reference :: "string option"
  p_merchant_reference :: string
  p_pay_url :: "string option"
  p_qr_string :: "string option"
  p_va_number :: "string option"
  p_expires_at :: "time option"
  p_paid_at :: "time option"

datatype webhook_status = WhReceived | WhProcessed | WhRejected | WhDuplicate | WhFailed

record webhook =
  w_id :: uuid
  w_gateway :: string
  w_event_type :: "string option"
  w_merchant_reference :: "string option"
  w_gateway_reference :: "string option"
  w_signature :: "string option"
  w_signature_valid :: bool
  w_payload :: string
  w_dedupe_key :: "string option"
  w_status :: webhook_status
  w_payment :: "uuid option"
  w_error :: "string option"

record payment_channel =
  ch_event :: uuid
  ch_code :: string
  ch_enabled :: bool

section \<open>Access pools, grants, codes\<close>

datatype pool_type = PoolReserved | PoolCommunity | PoolCorporate | PoolSponsor | PoolVIP
  | PoolPartner | PoolPriority | PoolElite

text \<open>An eligibility rule is a JSON object: its keys with their values, in the order Go's map
  iteration visits them; \<open>InvalidRule\<close> is text that does not parse as an object.\<close>

datatype rule_value = RuleBool bool | RuleNumber int | RuleString string | RuleOther

datatype elig_rule = InvalidRule | Rule "(string \<times> rule_value) list"

record access_pool =
  pl_id :: uuid
  pl_org :: uuid
  pl_event :: uuid
  pl_category :: uuid
  pl_type :: pool_type
  pl_name :: string
  pl_total :: int
  pl_reserved :: int
  pl_used :: int
  pl_released :: int
  pl_visible :: bool
  pl_rule :: "elig_rule option"
  pl_valid_until :: "time option"

datatype grant_status = GrantActive | GrantConsumed | GrantExpired

record access_grant =
  g_id :: uuid
  g_pool :: "uuid option"
  g_participant :: uuid
  g_event :: uuid
  g_category :: uuid
  g_code :: "uuid option"
  g_status :: grant_status
  g_expires_at :: time
  g_consumed_at :: "time option"
  g_order :: "uuid option"

record access_code =
  ac_id :: uuid
  ac_org :: uuid
  ac_event :: uuid
  ac_category :: "uuid option"
  ac_hash :: string
  ac_max_uses :: int
  ac_use_count :: int
  ac_valid_from :: "time option"
  ac_valid_until :: "time option"
  ac_pool :: "uuid option"
  ac_rule :: "elig_rule option"

section \<open>Registration modes and lifecycles\<close>

datatype mode = ModeNormal | ModeWarQueue | ModeRandomizedQueue | ModeHybridQueue | ModeBallot
  | ModeInvitationOnly | ModePriorityAccess | ModeWaitlistOnly | ModeClosed

record event_settings =
  es_event :: uuid
  es_default_mode :: mode
  es_queue_enabled :: bool
  es_ballot_enabled :: bool
  es_priority_enabled :: bool
  es_waitlist_enabled :: bool

record category_settings =
  cs_category :: uuid
  cs_mode :: "mode option"
  cs_override :: bool

datatype lifecycle_status = LcDraft | LcActive | LcPaused | LcCompleted | LcCancelled

record lifecycle =
  lc_id :: uuid
  lc_event :: uuid
  lc_category :: uuid
  lc_status :: lifecycle_status

datatype phase_status = PhPending | PhActive | PhCompleted | PhSkipped

record phase =
  ph_id :: uuid
  ph_lifecycle :: uuid
  ph_index :: int
  ph_mode :: mode
  ph_opens_at :: "time option"
  ph_closes_at :: "time option"
  ph_auto_advance :: bool
  ph_status :: phase_status
  ph_activated_at :: "time option"
  ph_completed_at :: "time option"

section \<open>Queue\<close>

datatype token_status = TokWaiting | TokAllowed | TokExpired | TokCompleted | TokBlocked

datatype queue_pool = PoolPresale | PoolFifo

record queue_token =
  q_id :: uuid
  q_org :: uuid
  q_event :: uuid
  q_participant :: uuid
  q_status :: token_status
  q_pool :: queue_pool
  q_score :: int

datatype admission_status = AdmActive | AdmConsumed | AdmExpired

record admission =
  a_id :: uuid
  a_token :: uuid
  a_event :: uuid
  a_participant :: uuid
  a_expires_at :: time
  a_status :: admission_status

datatype queue_state = QRunning | QPaused

record queue_control =
  qc_event :: uuid
  qc_state :: queue_state
  qc_rate :: int
  qc_seed :: "string option"
  qc_sale_start :: "time option"
  qc_presale_open :: "time option"

section \<open>Ballots and waitlists\<close>

datatype draw_status = DrawPending | DrawOpen | DrawClosed | DrawDrawn | DrawAnnounced

record ballot_draw =
  d_id :: uuid
  d_org :: uuid
  d_event :: uuid
  d_category :: uuid
  d_status :: draw_status
  d_quota :: int
  d_waitlist_size :: "int option"
  d_window_hours :: int
  d_opens_at :: "time option"
  d_closes_at :: "time option"
  d_draw_at :: "time option"
  d_announced_at :: "time option"
  d_seed :: "string option"
  d_nonce :: "uuid option"
  d_pool :: "uuid option"
  d_waitlist :: "uuid option"

datatype entry_status = BalApplied | BalWinner | BalWaitlisted | BalNotSelected | BalLapsed
  | BalConverted | BalWithdrawn

record ballot_entry =
  b_id :: uuid
  b_draw :: uuid
  b_org :: uuid
  b_event :: uuid
  b_category :: uuid
  b_participant :: uuid
  b_status :: entry_status
  b_deadline :: "time option"
  b_grant :: "uuid option"

datatype outcome = OutWinner | OutWaitlisted | OutNotSelected

record draw_result =
  dr_draw :: uuid
  dr_entry :: uuid
  dr_outcome :: outcome
  dr_rank :: int
  dr_hash :: string

datatype waitlist_mode = WlFifo | WlRandomized | WlHybrid

datatype waitlist_state = WlActive | WlPaused | WlClosed

record waitlist =
  wl_id :: uuid
  wl_org :: uuid
  wl_event :: uuid
  wl_category :: uuid
  wl_pool :: "uuid option"
  wl_mode :: waitlist_mode
  wl_state :: waitlist_state
  wl_max_batch :: nat
  wl_window_hours :: int
  wl_auto_promote :: bool
  wl_seed :: "string option"

datatype waitlist_status = WlWaiting | WlPromoted | WlExpired | WlWithdrawn

datatype waitlist_source = SrcBallot | SrcQuotaRelease | SrcManual

record waitlist_entry =
  we_id :: uuid
  we_waitlist :: uuid
  we_participant :: uuid
  we_event :: uuid
  we_category :: uuid
  we_source :: waitlist_source
  we_source_ref :: "uuid option"
  we_rank :: int
  we_status :: waitlist_status
  we_promoted_at :: "time option"
  we_grant :: "uuid option"

section \<open>Billing\<close>

text \<open>Prices, fees and totals are \<open>bigint\<close>; the \<open>jsonb\<close> feature list of a package is kept decoded,
  dates of invoices as their text.\<close>

datatype subscription_status = SubActive | SubCancelled | SubExpired
datatype invoice_status = InvDraft | InvIssued | InvPaid | InvVoid
datatype payout_status = PoPending | PoApproved | PoProcessing | PoCompleted | PoRejected

record package =
  pk_id :: uuid
  pk_slug :: string
  pk_name :: string
  pk_description :: string
  pk_price :: int
  pk_max_events :: "int option"
  pk_fee_bps :: int
  pk_features :: "string list"
  pk_active :: bool
  pk_sort_order :: int

record subscription =
  sb_id :: uuid
  sb_org :: uuid
  sb_package :: uuid
  sb_status :: subscription_status
  sb_started_at :: time
  sb_expires_at :: "time option"

record fee_entry =
  fe_id :: uuid
  fe_org :: uuid
  fe_order :: uuid
  fe_total :: int
  fe_bps :: int
  fe_amount :: int

record platform_invoice =
  iv_id :: uuid
  iv_org :: uuid
  iv_number :: string
  iv_start :: string
  iv_end :: string
  iv_subscription :: int
  iv_fee :: int
  iv_total :: int
  iv_status :: invoice_status
  iv_issued_at :: "time option"
  iv_paid_at :: "time option"

record payout_account =
  pa_id :: uuid
  pa_org :: uuid
  pa_bank :: string
  pa_code :: string
  pa_number :: string
  pa_name :: string
  pa_verified :: bool

record payout_request =
  po_id :: uuid
  po_org :: uuid
  po_event :: "uuid option"
  po_account :: "uuid option"
  po_amount :: int
  po_currency :: string
  po_status :: payout_status
  po_notes :: "string option"
  po_requested_by :: uuid

section \<open>The database\<close>

text \<open>The audit log is kept as the pairs of action and target id that \<open>audit.Logger.Record\<close>
  appends.\<close>

record commerce_db =
  users :: "user list"
  events :: "event list"
  categories :: "category list"
  orders :: "order list"
  reservations :: "reservation list"
  tickets :: "ticket list"
  payments :: "payment list"
  webhooks :: "webhook list"
  channels :: "payment_channel list"
  audit_log :: "(string \<times> uuid) list"

record access_db = commerce_db +
  pools :: "access_pool list"
  grants :: "access_grant list"
  codes :: "access_code list"
  event_modes :: "event_settings list"
  category_modes :: "category_settings list"
  lifecycles :: "lifecycle list"
  phases :: "phase list"

record db = access_db +
  tokens :: "queue_token list"
  admissions :: "admission list"
  controls :: "queue_control list"
  draws :: "ballot_draw list"
  entries :: "ballot_entry list"
  draw_results :: "draw_result list"
  waitlists :: "waitlist list"
  wl_entries :: "waitlist_entry list"
  packages :: "package list"
  subscriptions :: "subscription list"
  fees :: "fee_entry list"
  platform_invoices :: "platform_invoice list"
  payout_accounts :: "payout_account list"
  payouts :: "payout_request list"

definition empty_db :: db where
  "empty_db = \<lparr> users = [], events = [], categories = [], orders = [], reservations = [],
     tickets = [], payments = [], webhooks = [], channels = [], audit_log = [], pools = [], grants = [],
     codes = [], event_modes = [], category_modes = [], lifecycles = [], phases = [],
     tokens = [], admissions = [], controls = [], draws = [], entries = [], draw_results = [],
     waitlists = [], wl_entries = [], packages = [], subscriptions = [], fees = [],
     platform_invoices = [], payout_accounts = [], payouts = [] \<rparr>"

text \<open>
  \<open>ExecTx\<close> commits what the closure did when it returns nil and rolls back when it returns an
  error. The audit log and the webhook rows are written on the pool, outside the transaction
  (\<open>s.audit\<close>, \<open>p.repo.MarkWebhookProcessed\<close>), so a rollback keeps them.
\<close>

definition rollback :: "db \<Rightarrow> db \<Rightarrow> db" where
  "rollback s s' = s\<lparr>webhooks := webhooks s', audit_log := audit_log s'\<rparr>"

definition exec_tx :: "(db \<Rightarrow> 'a res \<times> db) \<Rightarrow> db \<Rightarrow> 'a res \<times> db" where
  "exec_tx f s = (case f s of (Inl e, s') \<Rightarrow> (Inl e, rollback s s') | (Inr a, s') \<Rightarrow> (Inr a, s'))"

definition audit :: "string \<Rightarrow> uuid \<Rightarrow> db \<Rightarrow> db" where
  "audit action target s = s\<lparr>audit_log := audit_log s @ [(action, target)]\<rparr>"

lemma audit_frame [simp]:
  "orders (audit x y s) = orders s" "reservations (audit x y s) = reservations s"
  "tickets (audit x y s) = tickets s" "payments (audit x y s) = payments s"
  "categories (audit x y s) = categories s" "events (audit x y s) = events s"
  "users (audit x y s) = users s" "grants (audit x y s) = grants s"
  "webhooks (audit x y s) = webhooks s" "entries (audit x y s) = entries s"
  "tokens (audit x y s) = tokens s" "admissions (audit x y s) = admissions s"
  "pools (audit x y s) = pools s" "channels (audit x y s) = channels s"
  "controls (audit x y s) = controls s" "fees (audit x y s) = fees s"
  "subscriptions (audit x y s) = subscriptions s" "packages (audit x y s) = packages s"
  "payouts (audit x y s) = payouts s"
  by (simp_all add: audit_def)

lemma rollback_frame [simp]:
  "orders (rollback s s') = orders s" "reservations (rollback s s') = reservations s"
  "tickets (rollback s s') = tickets s" "payments (rollback s s') = payments s"
  "categories (rollback s s') = categories s" "events (rollback s s') = events s"
  "users (rollback s s') = users s" "grants (rollback s s') = grants s"
  "entries (rollback s s') = entries s" "webhooks (rollback s s') = webhooks s'"
  "audit_log (rollback s s') = audit_log s'" "pools (rollback s s') = pools s"
  "tokens (rollback s s') = tokens s" "admissions (rollback s s') = admissions s"
  "fees (rollback s s') = fees s" "subscriptions (rollback s s') = subscriptions s"
  by (simp_all add: rollback_def)

lemma exec_tx_Inr: "exec_tx f s = (Inr a, s') \<longleftrightarrow> f s = (Inr a, s')"
  by (auto simp: exec_tx_def split: prod.splits sum.splits)

lemma exec_tx_Inl: "exec_tx f s = (Inl e, s') \<longleftrightarrow> (\<exists>s1. f s = (Inl e, s1) \<and> s' = rollback s s1)"
  by (auto simp: exec_tx_def split: prod.splits sum.splits)

text \<open>
  The shapes of Go's error handling: \<open>and_then\<close> is a call followed by
  \<open>if err != nil { return err }\<close>, \<open>on_no_rows\<close> is the \<open>errors.Is(err, pgx.ErrNoRows)\<close>
  translation, \<open>on_error\<close> returns an error of its own for any error, \<open>require\<close> is an early return on a failed condition, \<open>found\<close> a \<open>:one\<close> select with
  its not-found error.
\<close>

definition and_then :: "'a res \<times> 's \<Rightarrow> ('a \<Rightarrow> 's \<Rightarrow> 'b res \<times> 's) \<Rightarrow> 'b res \<times> 's" where
  "and_then m k = (case m of (Inl e, s) \<Rightarrow> (Inl e, s) | (Inr a, s) \<Rightarrow> k a s)"

definition on_no_rows :: "app_error \<Rightarrow> 'a res \<times> 's \<Rightarrow> 'a res \<times> 's" where
  "on_no_rows x m = (case m of (Inl e, s) \<Rightarrow> (Inl (if e = NoRows then x else e), s) | (Inr a, s) \<Rightarrow> (Inr a, s))"

definition on_error :: "app_error \<Rightarrow> 'a res \<times> 's \<Rightarrow> 'a res \<times> 's" where
  "on_error x m = (case m of (Inl e, s) \<Rightarrow> (Inl x, s) | (Inr a, s) \<Rightarrow> (Inr a, s))"

definition require :: "bool \<Rightarrow> app_error \<Rightarrow> 's \<Rightarrow> unit res \<times> 's" where
  "require b e s = (if b then Inr () else Inl e, s)"

definition found :: "app_error \<Rightarrow> 'a option \<Rightarrow> 's \<Rightarrow> 'a res \<times> 's" where
  "found e x s = (case x of None \<Rightarrow> Inl e | Some a \<Rightarrow> Inr a, s)"

lemma and_then_Inr:
  "and_then m k = (Inr b, s') \<longleftrightarrow> (\<exists>a s1. m = (Inr a, s1) \<and> k a s1 = (Inr b, s'))"
  by (auto simp: and_then_def split: prod.splits sum.splits)

lemma and_then_Inl:
  "and_then m k = (Inl e, s') \<longleftrightarrow>
     m = (Inl e, s') \<or> (\<exists>a s1. m = (Inr a, s1) \<and> k a s1 = (Inl e, s'))"
  by (auto simp: and_then_def split: prod.splits sum.splits)

lemma and_then_inv:
  "I (snd m) \<Longrightarrow> (\<And>a s1. m = (Inr a, s1) \<Longrightarrow> I s1 \<Longrightarrow> I (snd (k a s1))) \<Longrightarrow> I (snd (and_then m k))"
  by (auto simp: and_then_def split: prod.split sum.split)

lemma and_then_simps [simp]:
  "and_then (Inl e, s) k = (Inl e, s)" "and_then (Inr a, s) k = k a s"
  by (simp_all add: and_then_def)

lemma on_no_rows_Inr [simp]: "on_no_rows x m = (Inr a, s') \<longleftrightarrow> m = (Inr a, s')"
  by (auto simp: on_no_rows_def split: prod.splits sum.splits)

lemma snd_on_no_rows [simp]: "snd (on_no_rows x m) = snd m"
  by (simp add: on_no_rows_def split: prod.split sum.split)

lemma on_no_rows_simps [simp]:
  "on_no_rows x (Inl e, s) = (Inl (if e = NoRows then x else e), s)"
  "on_no_rows x (Inr a, s) = (Inr a, s)"
  by (simp_all add: on_no_rows_def)

lemma on_error_Inr [simp]: "on_error x m = (Inr a, s') \<longleftrightarrow> m = (Inr a, s')"
  by (auto simp: on_error_def split: prod.splits sum.splits)

lemma on_error_simps [simp]:
  "on_error x (Inl e, s) = (Inl x, s)" "on_error x (Inr a, s) = (Inr a, s)"
  "snd (on_error x m) = snd m"
  by (simp_all add: on_error_def split: prod.split sum.split)

lemma require_Inr [simp]: "require b e s = (Inr u, s') \<longleftrightarrow> b \<and> s' = s"
  by (auto simp: require_def)

lemma require_Inl [simp]: "require b e s = (Inl e', s') \<longleftrightarrow> \<not> b \<and> e' = e \<and> s' = s"
  by (auto simp: require_def)

lemma require_simps [simp]: "require True e s = (Inr (), s)" "require False e s = (Inl e, s)"
  "snd (require b e s) = s"
  by (simp_all add: require_def)

lemma found_Inr [simp]: "found e x s = (Inr a, s') \<longleftrightarrow> x = Some a \<and> s' = s"
  by (auto simp: found_def split: option.splits)

lemma found_Inl [simp]: "found e x s = (Inl e', s') \<longleftrightarrow> x = None \<and> e' = e \<and> s' = s"
  by (auto simp: found_def split: option.splits)

lemma found_simps [simp]: "found e None s = (Inl e, s)" "found e (Some a) s = (Inr a, s)"
  "snd (found e x s) = s"
  by (simp_all add: found_def)

text \<open>\<open>nullText\<close> and \<open>pgText\<close>: the empty string is stored as NULL.\<close>

definition null_text :: "string \<Rightarrow> string option" where
  "null_text s = (if s = [] then None else Some s)"

text \<open>\<open>citext\<close> columns compare case-insensitively; a comparison with NULL is not true.\<close>

definition ci_eq :: "string option \<Rightarrow> string \<Rightarrow> bool" where
  "ci_eq c s = (case c of None \<Rightarrow> False | Some x \<Rightarrow> lower x = lower s)"

end
