(* ===== verification/Inventory.thy ===== *)
theory Inventory
  imports Schema
begin

text \<open>
  Stock of a category (\<open>services/api/internal/modules/inventory\<close> and its queries): the capacity
  of a category is taken up by its ACTIVE reservations and its PAID orders. Here are the queries,
  \<open>CheckAndLock\<close>, \<open>Reserve\<close>, \<open>Release\<close>, the number of places held, and the invariant that
  ties reservations to orders.
\<close>

section \<open>Arithmetic of the stock\<close>

definition remaining :: "int \<Rightarrow> int \<Rightarrow> int \<Rightarrow> int" where
  "remaining capacity reserved paid =
     (let r = capacity - reserved - paid in if r < 0 then 0 else r)"

definition has_capacity :: "int \<Rightarrow> int \<Rightarrow> int \<Rightarrow> bool" where
  "has_capacity capacity reserved paid \<longleftrightarrow> capacity - reserved - paid > 0"

section \<open>Queries\<close>

definition lock_category_for_update :: "uuid \<Rightarrow> db \<Rightarrow> category option" where
  "lock_category_for_update cid s = sel (\<lambda>c. c_id c = cid) (categories s)"

definition count_active_reservations_by_category :: "uuid \<Rightarrow> db \<Rightarrow> nat" where
  "count_active_reservations_by_category cid s =
     cnt (\<lambda>r. r_category r = cid \<and> r_status r = ResActive) (reservations s)"

definition count_paid_by_category :: "uuid \<Rightarrow> db \<Rightarrow> nat" where
  "count_paid_by_category cid s =
     cnt (\<lambda>x. o_category x = cid \<and> o_status x = OrdPaid) (orders s)"

text \<open>\<open>INSERT INTO inventory_reservations\<close> with the primary key, the unique \<open>order_id\<close> and the
  foreign keys of migration 13 (the organizations table is not modelled).\<close>

definition create_reservation ::
  "uuid \<Rightarrow> uuid \<Rightarrow> uuid \<Rightarrow> uuid \<Rightarrow> uuid \<Rightarrow> uuid \<Rightarrow> time \<Rightarrow> db \<Rightarrow> reservation res \<times> db" where
  "create_reservation rid org ev cat ord participant expires s =
     (if rid \<in> r_id ` set (reservations s) then
        (Inl (UniqueViolation ''inventory_reservations_pkey''), s)
      else if ord \<in> r_order ` set (reservations s) then
        (Inl (UniqueViolation ''inventory_reservations_order_id_key''), s)
      else if ev \<notin> e_id ` set (events s) then
        (Inl (ForeignKeyViolation ''inventory_reservations_event_id_fkey''), s)
      else if cat \<notin> c_id ` set (categories s) then
        (Inl (ForeignKeyViolation ''inventory_reservations_category_id_fkey''), s)
      else if ord \<notin> o_id ` set (orders s) then
        (Inl (ForeignKeyViolation ''inventory_reservations_order_id_fkey''), s)
      else if participant \<notin> u_id ` set (users s) then
        (Inl (ForeignKeyViolation ''inventory_reservations_participant_id_fkey''), s)
      else
        let r = \<lparr> r_id = rid, r_org = org, r_event = ev, r_category = cat, r_order = ord,
                  r_participant = participant, r_status = ResActive, r_expires_at = expires \<rparr>
        in (Inr r, s\<lparr>reservations := reservations s @ [r]\<rparr>))"

definition expire_reservations_for_order :: "uuid \<Rightarrow> db \<Rightarrow> db" where
  "expire_reservations_for_order ord s = s\<lparr>reservations :=
     upd (\<lambda>r. r_order r = ord \<and> r_status r = ResActive) (\<lambda>r. r\<lparr>r_status := ResExpired\<rparr>)
       (reservations s)\<rparr>"

definition get_reservation_by_order :: "uuid \<Rightarrow> db \<Rightarrow> reservation option" where
  "get_reservation_by_order ord s = sel (\<lambda>r. r_order r = ord) (reservations s)"

definition update_reservation_status_by_order ::
  "uuid \<Rightarrow> reservation_status \<Rightarrow> db \<Rightarrow> db" where
  "update_reservation_status_by_order ord st s = s\<lparr>reservations :=
     upd (\<lambda>r. r_order r = ord \<and> r_status r = ResActive) (\<lambda>r. r\<lparr>r_status := st\<rparr>)
       (reservations s)\<rparr>"

section \<open>Operations\<close>

record check_result =
  chk_category :: category
  chk_reserved :: int
  chk_paid :: int
  chk_remaining :: int

text \<open>
  \<open>CheckAndLock\<close> runs three statements of a READ COMMITTED transaction, each on a snapshot of
  its own: the locked category row, then the active reservations, then the paid orders. Other
  transactions may commit between them; \<open>check_and_lock_at\<close> takes the three snapshots.
\<close>

definition check_and_lock_at :: "db \<Rightarrow> db \<Rightarrow> db \<Rightarrow> uuid \<Rightarrow> check_result res" where
  "check_and_lock_at s0 s1 s2 cid =
     (case lock_category_for_update cid s0 of
        None \<Rightarrow> Inl ErrCategory
      | Some cat \<Rightarrow>
          let reserved = int (count_active_reservations_by_category cid s1);
              paid = int (count_paid_by_category cid s2);
              rem = remaining (c_capacity cat) reserved paid
          in if rem \<le> 0 then Inl ErrSoldOut
             else Inr \<lparr> chk_category = cat, chk_reserved = reserved, chk_paid = paid,
                        chk_remaining = rem \<rparr>)"

definition check_and_lock :: "uuid \<Rightarrow> db \<Rightarrow> check_result res" where
  "check_and_lock cid s = check_and_lock_at s s s cid"

definition reserve ::
  "uuid \<Rightarrow> uuid \<Rightarrow> uuid \<Rightarrow> uuid \<Rightarrow> uuid \<Rightarrow> uuid \<Rightarrow> time \<Rightarrow> db \<Rightarrow> reservation res \<times> db" where
  "reserve = create_reservation"

definition release :: "uuid \<Rightarrow> reservation_status \<Rightarrow> db \<Rightarrow> db" where
  "release = update_reservation_status_by_order"

section \<open>Places held, and the tie between reservations and orders\<close>

definition held :: "uuid \<Rightarrow> db \<Rightarrow> nat" where
  "held cid s = count_active_reservations_by_category cid s + count_paid_by_category cid s"

definition within_capacity :: "db \<Rightarrow> bool" where
  "within_capacity s \<longleftrightarrow> (\<forall>c \<in> set (categories s). int (held (c_id c) s) \<le> c_capacity c)"

definition pending_for :: "order list \<Rightarrow> reservation \<Rightarrow> bool" where
  "pending_for os r \<longleftrightarrow> (\<exists>x \<in> set os. o_id x = r_order r \<and> o_status x = OrdPendingPayment \<and>
     o_category x = r_category r)"

definition active_for :: "reservation list \<Rightarrow> order \<Rightarrow> bool" where
  "active_for rs x \<longleftrightarrow> (\<exists>r \<in> set rs. r_order r = o_id x \<and> r_status r = ResActive \<and>
     r_category r = o_category x)"

text \<open>Keys are unique (the database's own constraints), an ACTIVE reservation belongs to a
  PENDING_PAYMENT order of its category, and such an order has an ACTIVE reservation.\<close>

definition stock_inv :: "db \<Rightarrow> bool" where
  "stock_inv s \<longleftrightarrow> distinct (map o_id (orders s)) \<and> distinct (map r_order (reservations s)) \<and>
     distinct (map c_id (categories s)) \<and>
     (\<forall>r \<in> set (reservations s). r_status r = ResActive \<longrightarrow> pending_for (orders s) r) \<and>
     (\<forall>x \<in> set (orders s). o_status x = OrdPendingPayment \<longrightarrow> active_for (reservations s) x)"

lemmas stock_queries = lock_category_for_update_def count_active_reservations_by_category_def
  count_paid_by_category_def get_reservation_by_order_def

lemma remaining_pos_iff: "0 < remaining c r p \<longleftrightarrow> has_capacity c r p"
  by (simp add: remaining_def has_capacity_def Let_def)

lemma check_and_lock_at_Inr:
  "check_and_lock_at s0 s1 s2 cid = Inr k \<longleftrightarrow>
     (\<exists>cat. lock_category_for_update cid s0 = Some cat \<and>
        int (count_active_reservations_by_category cid s1 + count_paid_by_category cid s2)
          < c_capacity cat \<and>
        k = \<lparr> chk_category = cat,
              chk_reserved = int (count_active_reservations_by_category cid s1),
              chk_paid = int (count_paid_by_category cid s2),
              chk_remaining = c_capacity cat
                - int (count_active_reservations_by_category cid s1)
                - int (count_paid_by_category cid s2) \<rparr>)"
  by (auto simp: check_and_lock_at_def remaining_def Let_def split: option.splits if_splits)

lemma check_and_lock_Inr:
  assumes "check_and_lock cid s = Inr k"
  shows "chk_category k \<in> set (categories s)" and "c_id (chk_category k) = cid"
    and "int (held cid s) < c_capacity (chk_category k)"
  using assms by (auto simp: check_and_lock_def check_and_lock_at_Inr held_def
      lock_category_for_update_def dest: sel_SomeD)

lemma create_reservation_Inr:
  "create_reservation rid org ev cat ord pid ex s = (Inr r, s') \<Longrightarrow>
     ord \<notin> r_order ` set (reservations s) \<and> ord \<in> o_id ` set (orders s) \<and>
     pid \<in> u_id ` set (users s) \<and> cat \<in> c_id ` set (categories s) \<and>
     r = \<lparr> r_id = rid, r_org = org, r_event = ev, r_category = cat, r_order = ord,
           r_participant = pid, r_status = ResActive, r_expires_at = ex \<rparr> \<and>
     s' = s\<lparr>reservations := reservations s @ [r]\<rparr>"
  by (auto simp: create_reservation_def Let_def split: if_splits)

lemma create_reservation_Inl:
  "create_reservation rid org ev cat ord pid ex s = (Inl e, s') \<Longrightarrow> s' = s"
  by (auto simp: create_reservation_def Let_def split: if_splits)

lemma release_frame [frame]:
  "orders (release ord st s) = orders s" "categories (release ord st s) = categories s"
  "events (release ord st s) = events s" "users (release ord st s) = users s"
  "tickets (release ord st s) = tickets s" "grants (release ord st s) = grants s"
  "webhooks (release ord st s) = webhooks s" "payments (release ord st s) = payments s"
  "audit_log (release ord st s) = audit_log s" "entries (release ord st s) = entries s"
  by (simp_all add: release_def update_reservation_status_by_order_def)

lemma reservations_release:
  "reservations (release ord st s) =
     upd (\<lambda>r. r_order r = ord \<and> r_status r = ResActive) (\<lambda>r. r\<lparr>r_status := st\<rparr>) (reservations s)"
  by (simp add: release_def update_reservation_status_by_order_def)

lemma held_cong:
  "reservations s' = reservations s \<Longrightarrow> orders s' = orders s \<Longrightarrow> held c s' = held c s"
  by (simp add: held_def stock_queries)

lemma stock_inv_cong:
  "reservations s' = reservations s \<Longrightarrow> orders s' = orders s \<Longrightarrow> categories s' = categories s \<Longrightarrow>
     stock_inv s' = stock_inv s \<and> within_capacity s' = within_capacity s"
  by (simp add: stock_inv_def within_capacity_def held_def stock_queries)

text \<open>Leaving PENDING_PAYMENT together with the reservation: the tie is kept, and the places held
  change only by what the new order status adds.\<close>

definition settle :: "uuid \<Rightarrow> order_status \<Rightarrow> reservation_status \<Rightarrow> order list \<Rightarrow> reservation list \<Rightarrow>
    order list \<times> reservation list" where
  "settle oid ost rst os rs =
     (upd (\<lambda>x. o_id x = oid \<and> o_status x = OrdPendingPayment) (\<lambda>x. x\<lparr>o_status := ost\<rparr>) os,
      upd (\<lambda>r. r_order r = oid \<and> r_status r = ResActive) (\<lambda>r. r\<lparr>r_status := rst\<rparr>) rs)"

lemma stock_inv_settle:
  assumes inv: "stock_inv s" and st: "ost \<noteq> OrdPendingPayment" "rst \<noteq> ResActive"
    and s': "orders s' = fst (settle oid ost rst (orders s) (reservations s))"
      "reservations s' = snd (settle oid ost rst (orders s) (reservations s))"
      "categories s' = categories s"
  shows "stock_inv s'"
proof -
  have "distinct (map o_id (orders s'))" "distinct (map r_order (reservations s'))"
    using inv by (simp_all add: s' settle_def map_upd stock_inv_def)
  moreover have "distinct (map c_id (categories s'))"
    using inv by (simp add: s' stock_inv_def)
  moreover have "pending_for (orders s') r"
    if "r \<in> set (reservations s')" "r_status r = ResActive" for r
  proof -
    have r: "r \<in> set (reservations s) \<and> \<not> (r_order r = oid \<and> r_status r = ResActive)"
      using that(1) unfolding s' settle_def snd_conv
      by (rule upd_unchanged [where Q = "\<lambda>r. r_status r = ResActive"]) (use that st in simp_all)
    with inv that(2) obtain x where "x \<in> set (orders s)" "o_id x = r_order r"
      "o_status x = OrdPendingPayment" "o_category x = r_category r"
      unfolding stock_inv_def pending_for_def by blast
    with r that(2) show ?thesis unfolding pending_for_def s' settle_def fst_conv
      by (intro bexI [of _ x] upd_keeps) auto
  qed
  moreover have "active_for (reservations s') x"
    if "x \<in> set (orders s')" "o_status x = OrdPendingPayment" for x
  proof -
    have x: "x \<in> set (orders s) \<and> \<not> (o_id x = oid \<and> o_status x = OrdPendingPayment)"
      using that(1) unfolding s' settle_def fst_conv
      by (rule upd_unchanged [where Q = "\<lambda>x. o_status x = OrdPendingPayment"]) (use that st in simp_all)
    with inv that(2) obtain r where "r \<in> set (reservations s)" "r_order r = o_id x"
      "r_status r = ResActive" "r_category r = o_category x"
      unfolding stock_inv_def active_for_def by blast
    with x that(2) show ?thesis unfolding active_for_def s' settle_def snd_conv
      by (intro bexI [of _ r] upd_keeps) auto
  qed
  ultimately show ?thesis by (simp add: stock_inv_def)
qed

lemma settle_counts:
  assumes inv: "stock_inv s" and rst: "rst \<noteq> ResActive"
    and x: "x \<in> set (orders s)" "o_id x = oid" "o_status x = OrdPendingPayment"
    and s': "orders s' = fst (settle oid ost rst (orders s) (reservations s))"
      "reservations s' = snd (settle oid ost rst (orders s) (reservations s))"
  shows "count_active_reservations_by_category c s' + of_bool (o_category x = c)
      = count_active_reservations_by_category c s"
    and "count_paid_by_category c s' = count_paid_by_category c s + of_bool (o_category x = c \<and> ost = OrdPaid)"
proof -
  from inv x obtain r where r: "r \<in> set (reservations s)" "r_order r = oid"
    "r_status r = ResActive" "r_category r = o_category x"
    by (auto simp: stock_inv_def active_for_def)
  show "count_active_reservations_by_category c s' + of_bool (o_category x = c)
      = count_active_reservations_by_category c s"
    using cnt_upd_key [of r_order "reservations s" r
        "\<lambda>r. r_order r = oid \<and> r_status r = ResActive"
        "\<lambda>r. r_category r = c \<and> r_status r = ResActive" "\<lambda>r. r\<lparr>r_status := rst\<rparr>"] inv r rst
    by (simp add: stock_inv_def s' settle_def count_active_reservations_by_category_def)
  show "count_paid_by_category c s' = count_paid_by_category c s + of_bool (o_category x = c \<and> ost = OrdPaid)"
    using cnt_upd_key [of o_id "orders s" x
        "\<lambda>x. o_id x = oid \<and> o_status x = OrdPendingPayment"
        "\<lambda>x. o_category x = c \<and> o_status x = OrdPaid" "\<lambda>x. x\<lparr>o_status := ost\<rparr>"] inv x
    by (simp add: stock_inv_def s' settle_def count_paid_by_category_def)
qed

lemma held_settle:
  assumes "stock_inv s" "rst \<noteq> ResActive"
    and "x \<in> set (orders s)" "o_id x = oid" "o_status x = OrdPendingPayment"
    and "orders s' = fst (settle oid ost rst (orders s) (reservations s))"
      "reservations s' = snd (settle oid ost rst (orders s) (reservations s))"
  shows "held c s' + of_bool (o_category x = c) = held c s + of_bool (o_category x = c \<and> ost = OrdPaid)"
  using settle_counts [OF assms, of c] by (simp add: held_def)

lemma held_settle_le:
  assumes "stock_inv s" "rst \<noteq> ResActive"
    and "x \<in> set (orders s)" "o_id x = oid" "o_status x = OrdPendingPayment"
    and "orders s' = fst (settle oid ost rst (orders s) (reservations s))"
      "reservations s' = snd (settle oid ost rst (orders s) (reservations s))"
  shows "held c s' \<le> held c s"
  using held_settle [OF assms, of c] by (auto simp: of_bool_def split: if_splits)

section \<open>The abstract seat counter\<close>

text \<open>What a category promises, without rows: a number of reserved and of paid places. A place is
  reserved only while there is room, and is then paid or freed; a paid place can be refunded.\<close>

inductive seat_step :: "int \<Rightarrow> nat \<times> nat \<Rightarrow> nat \<times> nat \<Rightarrow> bool" for cap where
  reserved: "int (r + p) < cap \<Longrightarrow> seat_step cap (r, p) (Suc r, p)"
| taken: "seat_step cap (Suc r, p) (r, Suc p)"
| freed: "seat_step cap (Suc r, p) (r, p)"
| returned: "seat_step cap (r, Suc p) (r, p)"

inductive_cases seat_step_cases: "seat_step cap a b"

definition seats :: "uuid \<Rightarrow> db \<Rightarrow> nat \<times> nat" where
  "seats cid s = (count_active_reservations_by_category cid s, count_paid_by_category cid s)"

lemma held_seats: "held cid s = fst (seats cid s) + snd (seats cid s)"
  by (simp add: held_def seats_def)

lemma seats_bound: "(seat_step cap)\<^sup>*\<^sup>* a b \<Longrightarrow> int (fst a + snd a) \<le> cap \<Longrightarrow> int (fst b + snd b) \<le> cap"
  by (induction rule: rtranclp_induct) (auto elim!: seat_step_cases)

lemma seats_return: "p' \<le> p \<Longrightarrow> (seat_step cap)\<^sup>*\<^sup>* (r, p) (r, p')"
proof (induction p)
  case (Suc p)
  show ?case
  proof (cases "p' = Suc p")
    case False
    with Suc have "(seat_step cap)\<^sup>*\<^sup>* (r, p) (r, p')" by simp
    with seat_step.returned [of cap r p] show ?thesis by (rule converse_rtranclp_into_rtranclp)
  qed simp
qed simp

lemma seats_settle:
  assumes "stock_inv s" "rst \<noteq> ResActive"
    and "x \<in> set (orders s)" "o_id x = oid" "o_status x = OrdPendingPayment"
    and "orders s' = fst (settle oid ost rst (orders s) (reservations s))"
      "reservations s' = snd (settle oid ost rst (orders s) (reservations s))"
  shows "(seat_step cap)\<^sup>*\<^sup>* (seats c s) (seats c s')"
proof -
  obtain r p where rp: "seats c s' = (r, p)" by fastforce
  with settle_counts [OF assms, of c] have "seats c s = (r, p) \<or> seats c s = (Suc r, p) \<or>
      (\<exists>q. p = Suc q \<and> seats c s = (Suc r, q))"
    by (cases "o_category x = c"; cases "ost = OrdPaid") (auto simp: seats_def)
  moreover have "(seat_step cap)\<^sup>*\<^sup>* (Suc r, p) (r, p)" using seat_step.freed by (rule r_into_rtranclp)
  moreover have "(seat_step cap)\<^sup>*\<^sup>* (Suc r, q) (r, Suc q)" for q
    using seat_step.taken by (rule r_into_rtranclp)
  ultimately show ?thesis using rp by auto
qed

text \<open>A new PENDING_PAYMENT order with its ACTIVE reservation.\<close>

lemma stock_inv_insert:
  assumes inv: "stock_inv s"
    and fresh: "o_id x \<notin> o_id ` set (orders s)" "r_order r \<notin> r_order ` set (reservations s)"
    and tie: "r_order r = o_id x" "r_category r = o_category x" "r_status r = ResActive"
      "o_status x = OrdPendingPayment"
    and s': "orders s' = orders s @ [x]" "reservations s' = reservations s @ [r]"
      "categories s' = categories s"
  shows "stock_inv s'"
    and "seats c s' = (fst (seats c s) + of_bool (o_category x = c), snd (seats c s))"
proof -
  show "stock_inv s'"
    using assms unfolding stock_inv_def pending_for_def active_for_def s' by auto
  show "seats c s' = (fst (seats c s) + of_bool (o_category x = c), snd (seats c s))"
    by (simp add: seats_def stock_queries s' tie)
qed

end
