(* ===== verification/Access.thy ===== *)
theory Access
  imports Schema
begin

text \<open>
  Access pools, grants and codes (\<open>services/api/internal/modules/access\<close>): slot accounting of
  a pool, the life of a grant from issue to consumption or expiry, redemption of codes, the
  eligibility rules, and admission through a PRIORITY pool.
\<close>

section \<open>Pool queries\<close>

definition pool_ok :: "access_pool \<Rightarrow> bool" where
  "pool_ok p \<longleftrightarrow> 0 < pl_total p \<and> pl_reserved p + pl_used p \<le> pl_total p \<and>
     0 \<le> pl_reserved p \<and> 0 \<le> pl_used p \<and> 0 \<le> pl_released p"

text \<open>An UPDATE fails as a whole, changing nothing, when a new row violates a CHECK.\<close>

definition update_pools :: "(access_pool \<Rightarrow> bool) \<Rightarrow> (access_pool \<Rightarrow> access_pool) \<Rightarrow> db \<Rightarrow> unit res \<times> db" where
  "update_pools P f s =
     (if \<forall>p \<in> set (pools s). P p \<longrightarrow> pool_ok (f p) then (Inr (), s\<lparr>pools := upd P f (pools s)\<rparr>)
      else (Inl (CheckViolation ''access_pools''), s))"

definition get_access_pool :: "uuid \<Rightarrow> db \<Rightarrow> access_pool option" where
  "get_access_pool pid s = sel (\<lambda>p. pl_id p = pid) (pools s)"

definition create_access_pool ::
  "uuid \<Rightarrow> uuid \<Rightarrow> uuid \<Rightarrow> uuid \<Rightarrow> pool_type \<Rightarrow> string \<Rightarrow> int \<Rightarrow> db \<Rightarrow> access_pool res \<times> db" where
  "create_access_pool pid org ev cat ptype name slots s =
     (if pid \<in> pl_id ` set (pools s) then (Inl (UniqueViolation ''access_pools_pkey''), s)
      else if ev \<notin> e_id ` set (events s) then
        (Inl (ForeignKeyViolation ''access_pools_event_id_fkey''), s)
      else if cat \<notin> c_id ` set (categories s) then
        (Inl (ForeignKeyViolation ''access_pools_category_id_fkey''), s)
      else if slots \<le> 0 then (Inl (CheckViolation ''access_pools_total_slots_check''), s)
      else
        let p = \<lparr> pl_id = pid, pl_org = org, pl_event = ev, pl_category = cat, pl_type = ptype,
                  pl_name = name, pl_total = slots, pl_reserved = 0, pl_used = 0, pl_released = 0,
                  pl_visible = False, pl_rule = None, pl_valid_until = None \<rparr>
        in (Inr p, s\<lparr>pools := pools s @ [p]\<rparr>))"

definition reserve_pool_slot :: "uuid \<Rightarrow> db \<Rightarrow> access_pool res \<times> db" where
  "reserve_pool_slot pid s =
     (case upd_one (\<lambda>p. pl_id p = pid \<and> pl_reserved p + pl_used p < pl_total p)
             (\<lambda>p. p\<lparr>pl_reserved := pl_reserved p + 1\<rparr>) (pools s) of
        None \<Rightarrow> (Inl NoRows, s)
      | Some (p, ps) \<Rightarrow> (Inr p, s\<lparr>pools := ps\<rparr>))"

definition consume_pool_slot :: "uuid \<Rightarrow> db \<Rightarrow> unit res \<times> db" where
  "consume_pool_slot pid =
     update_pools (\<lambda>p. pl_id p = pid)
       (\<lambda>p. p\<lparr>pl_reserved := pl_reserved p - 1, pl_used := pl_used p + 1\<rparr>)"

definition release_pool_slot :: "uuid \<Rightarrow> db \<Rightarrow> unit res \<times> db" where
  "release_pool_slot pid =
     update_pools (\<lambda>p. pl_id p = pid)
       (\<lambda>p. p\<lparr>pl_reserved := pl_reserved p - 1, pl_released := pl_released p + 1\<rparr>)"

text \<open>\<open>total_slots\<close> is an int4: a sum above its range fails the statement.\<close>

definition transfer_pool_slots :: "uuid \<Rightarrow> int \<Rightarrow> db \<Rightarrow> unit res \<times> db" where
  "transfer_pool_slots pid delta s =
     (case sel (\<lambda>p. pl_id p = pid) (pools s) of
        None \<Rightarrow> (Inl NoRows, s)
      | Some p \<Rightarrow>
          if delta \<le> 0 \<and> pl_total p + delta < pl_reserved p + pl_used p then (Inl NoRows, s)
          else if 2147483647 < pl_total p + delta then (Inl NumericOutOfRange, s)
          else update_pools (\<lambda>p. pl_id p = pid) (\<lambda>p. p\<lparr>pl_total := pl_total p + delta\<rparr>) s)"

text \<open>\<open>COALESCE($n, column)\<close> keeps the column on NULL. The Go parameter of
  \<open>is_visible_to_participants\<close> is a plain \<open>bool\<close> and never NULL. \<open>owner_account_id\<close> is not
  modelled (no caller sets it).\<close>

definition update_access_pool_columns ::
  "uuid \<Rightarrow> bool \<Rightarrow> elig_rule option \<Rightarrow> db \<Rightarrow> unit res \<times> db" where
  "update_access_pool_columns pid visible rule s =
     (case upd_one (\<lambda>p. pl_id p = pid)
             (\<lambda>p. p\<lparr>pl_visible := visible,
                    pl_rule := (case rule of None \<Rightarrow> pl_rule p | Some r \<Rightarrow> Some r)\<rparr>) (pools s) of
        None \<Rightarrow> (Inl NoRows, s)
      | Some (p, ps) \<Rightarrow> (Inr (), s\<lparr>pools := ps\<rparr>))"

definition list_visible_pools_by_category :: "uuid \<Rightarrow> uuid \<Rightarrow> time \<Rightarrow> db \<Rightarrow> access_pool list" where
  "list_visible_pools_by_category ev cat now s =
     filter (\<lambda>p. pl_event p = ev \<and> pl_category p = cat \<and> pl_visible p \<and>
       (case pl_valid_until p of None \<Rightarrow> True | Some u \<Rightarrow> now < u)) (pools s)"

section \<open>Grant queries\<close>

definition create_access_grant ::
  "uuid \<Rightarrow> uuid option \<Rightarrow> uuid \<Rightarrow> uuid \<Rightarrow> uuid \<Rightarrow> uuid option \<Rightarrow> time \<Rightarrow> db \<Rightarrow>
    access_grant res \<times> db" where
  "create_access_grant gid pool participant ev cat code expires s =
     (if gid \<in> g_id ` set (grants s) then (Inl (UniqueViolation ''access_grants_pkey''), s)
      else if (case pool of None \<Rightarrow> False | Some pid \<Rightarrow> pid \<notin> pl_id ` set (pools s)) then
        (Inl (ForeignKeyViolation ''access_grants_pool_id_fkey''), s)
      else if participant \<notin> u_id ` set (users s) then
        (Inl (ForeignKeyViolation ''access_grants_participant_id_fkey''), s)
      else if ev \<notin> e_id ` set (events s) then
        (Inl (ForeignKeyViolation ''access_grants_event_id_fkey''), s)
      else if cat \<notin> c_id ` set (categories s) then
        (Inl (ForeignKeyViolation ''access_grants_category_id_fkey''), s)
      else
        let g = \<lparr> g_id = gid, g_pool = pool, g_participant = participant, g_event = ev,
                  g_category = cat, g_code = code, g_status = GrantActive, g_expires_at = expires,
                  g_consumed_at = None, g_order = None \<rparr>
        in (Inr g, s\<lparr>grants := grants s @ [g]\<rparr>))"

definition get_access_grant :: "uuid \<Rightarrow> db \<Rightarrow> access_grant option" where
  "get_access_grant gid s = sel (\<lambda>g. g_id g = gid) (grants s)"

text \<open>\<open>ORDER BY granted_at DESC LIMIT 1\<close>: the latest of the ACTIVE ones.\<close>

definition get_active_grant_for_participant :: "uuid \<Rightarrow> uuid \<Rightarrow> db \<Rightarrow> access_grant option" where
  "get_active_grant_for_participant participant cat s =
     sel (\<lambda>g. g_participant g = participant \<and> g_category g = cat \<and> g_status g = GrantActive)
       (rev (grants s))"

definition consume_grant_row :: "uuid \<Rightarrow> uuid option \<Rightarrow> time \<Rightarrow> db \<Rightarrow> access_grant res \<times> db" where
  "consume_grant_row gid ord now s =
     (case upd_one (\<lambda>g. g_id g = gid \<and> g_status g = GrantActive)
             (\<lambda>g. g\<lparr>g_status := GrantConsumed, g_consumed_at := Some now, g_order := ord\<rparr>)
             (grants s) of
        None \<Rightarrow> (Inl NoRows, s)
      | Some (g, gs) \<Rightarrow> (Inr g, s\<lparr>grants := gs\<rparr>))"

definition expire_grant :: "uuid \<Rightarrow> db \<Rightarrow> db" where
  "expire_grant gid s =
     s\<lparr>grants := upd (\<lambda>g. g_id g = gid) (\<lambda>g. g\<lparr>g_status := GrantExpired\<rparr>) (grants s)\<rparr>"

definition list_expired_active_grants :: "nat \<Rightarrow> time \<Rightarrow> db \<Rightarrow> access_grant list" where
  "list_expired_active_grants batch now s =
     take batch (filter (\<lambda>g. g_status g = GrantActive \<and> g_expires_at g < now) (grants s))"

section \<open>PoolManager\<close>

definition reserve_slot :: "uuid \<Rightarrow> db \<Rightarrow> unit res \<times> db" where
  "reserve_slot pid s =
     and_then (on_no_rows ErrPoolExhausted (reserve_pool_slot pid s)) (\<lambda>_ s. (Inr (), s))"

text \<open>\<open>int32(totalSlots)\<close> keeps the low 32 bits.\<close>

definition create_pool ::
  "uuid \<Rightarrow> uuid \<Rightarrow> uuid \<Rightarrow> uuid \<Rightarrow> pool_type \<Rightarrow> string \<Rightarrow> int \<Rightarrow> db \<Rightarrow> uuid res \<times> db" where
  "create_pool pid org ev cat ptype name slots s =
     and_then (create_access_pool pid org ev cat ptype name (signed_take_bit 31 slots) s)
       (\<lambda>p s. (Inr (pl_id p), s))"

definition create_grant ::
  "uuid \<Rightarrow> uuid \<Rightarrow> uuid \<Rightarrow> uuid \<Rightarrow> uuid \<Rightarrow> time \<Rightarrow> db \<Rightarrow> uuid res \<times> db" where
  "create_grant gid pid participant ev cat expires s =
     and_then (create_access_grant gid (Some pid) participant ev cat None expires s) (\<lambda>g s.
     and_then (consume_pool_slot pid s) (\<lambda>_ s.
     (Inr (g_id g), s)))"

text \<open>\<open>uuid.Parse\<close> is a library function and stays a parameter.\<close>

definition check_grant ::
  "(string \<Rightarrow> uuid option) \<Rightarrow> time \<Rightarrow> uuid \<Rightarrow> uuid \<Rightarrow> string \<Rightarrow> db \<Rightarrow> unit res" where
  "check_grant parse_uuid now participant cat token s =
     (case parse_uuid token of
        None \<Rightarrow> Inl ErrGrantNotFound
      | Some gid \<Rightarrow>
          (case get_access_grant gid s of
             None \<Rightarrow> Inl ErrGrantNotFound
           | Some g \<Rightarrow>
               if g_participant g \<noteq> participant \<or> g_category g \<noteq> cat then Inl ErrGrantNotFound
               else if g_status g = GrantConsumed then Inl ErrGrantAlreadyConsumed
               else if g_status g = GrantExpired then Inl ErrGrantExpired
               else if g_expires_at g < now then Inl ErrGrantExpired
               else Inr ()))"

definition consume_grant :: "uuid \<Rightarrow> uuid \<Rightarrow> time \<Rightarrow> db \<Rightarrow> unit res \<times> db" where
  "consume_grant gid oid now s =
     and_then (on_no_rows ErrGrantAlreadyConsumed
       (consume_grant_row gid (if oid \<noteq> nil_uuid then Some oid else None) now s)) (\<lambda>_ s. (Inr (), s))"

text \<open>One round of \<open>ExpireStaleGrants\<close>: the error of \<open>ReleasePoolSlot\<close> is dropped.\<close>

definition expire_stale_grant :: "access_grant \<Rightarrow> db \<Rightarrow> db" where
  "expire_stale_grant g s =
     (let s' = expire_grant (g_id g) s
      in case g_pool g of None \<Rightarrow> s' | Some pid \<Rightarrow> snd (release_pool_slot pid s'))"

definition expire_stale_grants :: "nat \<Rightarrow> time \<Rightarrow> db \<Rightarrow> db" where
  "expire_stale_grants batch now s =
     fold expire_stale_grant (list_expired_active_grants batch now s) s"

section \<open>PoolService\<close>

definition set_visible :: "uuid \<Rightarrow> bool \<Rightarrow> db \<Rightarrow> unit res \<times> db" where
  "set_visible pid visible = update_access_pool_columns pid visible None"

text \<open>\<open>UpdateAccessPoolColumnsParams{ID, EligibilityRule}\<close> leaves the \<open>bool\<close> field at its zero
  value, which is not NULL.\<close>

definition set_eligibility_rule :: "uuid \<Rightarrow> elig_rule \<Rightarrow> db \<Rightarrow> unit res \<times> db" where
  "set_eligibility_rule pid rule = update_access_pool_columns pid False (Some rule)"

text \<open>\<open>int32(delta)\<close> keeps the low 32 bits.\<close>

definition adjust_total_slots :: "uuid \<Rightarrow> int \<Rightarrow> db \<Rightarrow> unit res \<times> db" where
  "adjust_total_slots pid delta s =
     (if delta = 0 then (Inr (), s) else transfer_pool_slots pid (signed_take_bit 31 delta) s)"

section \<open>Eligibility\<close>

definition count_paid_orders_by_user_in_org :: "uuid \<Rightarrow> uuid \<Rightarrow> db \<Rightarrow> nat" where
  "count_paid_orders_by_user_in_org usr org s =
     cnt (\<lambda>x. o_participant x = Some usr \<and> o_org x = org \<and> o_status x = OrdPaid) (orders s)"

definition get_user_membership_id :: "uuid \<Rightarrow> db \<Rightarrow> string res" where
  "get_user_membership_id usr s =
     (case sel (\<lambda>u. u_id u = usr) (users s) of
        None \<Rightarrow> Inl NoRows
      | Some u \<Rightarrow> Inr (case u_membership u of None \<Rightarrow> [] | Some m \<Rightarrow> m))"

definition has_paid_order_for_event :: "uuid \<Rightarrow> uuid \<Rightarrow> db \<Rightarrow> bool" where
  "has_paid_order_for_event usr ev s \<longleftrightarrow>
     (\<exists>x \<in> set (orders s). o_participant x = Some usr \<and> o_event x = ev \<and> o_status x = OrdPaid)"

definition has_prefix :: "string \<Rightarrow> string \<Rightarrow> bool" where
  "has_prefix str pre \<longleftrightarrow> take (length pre) str = pre"

text \<open>One key of a rule: \<open>None\<close> lets the loop go on, \<open>Some\<close> is the early return.\<close>

definition check_key ::
  "(string \<Rightarrow> uuid option) \<Rightarrow> uuid \<Rightarrow> uuid \<Rightarrow> db \<Rightarrow> string \<times> rule_value \<Rightarrow> (bool \<times> string) res option" where
  "check_key parse_uuid usr org s kv =
     (case kv of (key, val) \<Rightarrow>
        if key = ''returning_runner'' then
          (if val = RuleBool True \<and> count_paid_orders_by_user_in_org usr org s < 1
           then Some (Inr (False, ''not_returning_runner'')) else None)
        else if key = ''min_completions'' then
          (if int (count_paid_orders_by_user_in_org usr org s)
                < (case val of RuleNumber n \<Rightarrow> n | _ \<Rightarrow> 0)
           then Some (Inr (False, ''insufficient_completions'')) else None)
        else if key = ''membership_id_prefix'' then
          (case get_user_membership_id usr s of
             Inl e \<Rightarrow> Some (Inl e)
           | Inr mid \<Rightarrow>
               if has_prefix mid (case val of RuleString p \<Rightarrow> p | _ \<Rightarrow> []) then None
               else Some (Inr (False, ''membership_id_mismatch'')))
        else if key = ''event_completed'' then
          (case parse_uuid (case val of RuleString p \<Rightarrow> p | _ \<Rightarrow> []) of
             None \<Rightarrow> Some (Inr (False, ''invalid_event_id''))
           | Some ev \<Rightarrow>
               if has_paid_order_for_event usr ev s then None
               else Some (Inr (False, ''event_not_completed'')))
        else None)"

fun check_keys ::
  "(string \<Rightarrow> uuid option) \<Rightarrow> uuid \<Rightarrow> uuid \<Rightarrow> db \<Rightarrow> (string \<times> rule_value) list \<Rightarrow> (bool \<times> string) res" where
  "check_keys parse_uuid usr org s [] = Inr (True, [])"
| "check_keys parse_uuid usr org s (kv # kvs) =
     (case check_key parse_uuid usr org s kv of
        Some r \<Rightarrow> r
      | None \<Rightarrow> check_keys parse_uuid usr org s kvs)"

definition eligibility_check ::
  "(string \<Rightarrow> uuid option) \<Rightarrow> uuid \<Rightarrow> uuid \<Rightarrow> elig_rule option \<Rightarrow> db \<Rightarrow> (bool \<times> string) res" where
  "eligibility_check parse_uuid usr org rule s =
     (case rule of
        None \<Rightarrow> Inr (True, [])
      | Some InvalidRule \<Rightarrow> Inr (False, ''invalid_rule'')
      | Some (Rule kvs) \<Rightarrow> check_keys parse_uuid usr org s kvs)"

section \<open>CodeService\<close>

definition get_access_code_by_hash :: "uuid \<Rightarrow> string \<Rightarrow> db \<Rightarrow> access_code option" where
  "get_access_code_by_hash ev h s = sel (\<lambda>c. ac_event c = ev \<and> ac_hash c = h) (codes s)"

definition increment_code_use_count :: "uuid \<Rightarrow> db \<Rightarrow> access_code res \<times> db" where
  "increment_code_use_count cid s =
     (case upd_one (\<lambda>c. ac_id c = cid \<and> ac_use_count c < ac_max_uses c)
             (\<lambda>c. c\<lparr>ac_use_count := ac_use_count c + 1\<rparr>) (codes s) of
        None \<Rightarrow> (Inl NoRows, s)
      | Some (c, cs) \<Rightarrow> (Inr c, s\<lparr>codes := cs\<rparr>))"

text \<open>The zero \<open>time.Time\<close>, 1 January of year 1.\<close>

definition zero_time :: time where
  "zero_time = - 62135596800000000000"

text \<open>
  \<open>Redeem\<close> is not run in a transaction: it reads the code row, then works on whatever the
  database holds by then. \<open>redeem_read\<close> is what follows the read, with the row as argument.
\<close>

definition redeem_read ::
  "(string \<Rightarrow> uuid option) \<Rightarrow> time \<Rightarrow> uuid \<Rightarrow> uuid \<Rightarrow> uuid \<Rightarrow> uuid \<Rightarrow> access_code \<Rightarrow> db \<Rightarrow>
    access_grant res \<times> db" where
  "redeem_read parse_uuid now gid participant ev cat code s =
     and_then (require (case ac_valid_from code of None \<Rightarrow> True | Some f \<Rightarrow> f \<le> now)
       ErrCodeExpired s) (\<lambda>_ s.
     and_then (require (case ac_valid_until code of None \<Rightarrow> True | Some u \<Rightarrow> now \<le> u)
       ErrCodeExpired s) (\<lambda>_ s.
     and_then (require (ac_use_count code < ac_max_uses code) ErrCodeExhausted s) (\<lambda>_ s.
     and_then (eligibility_check parse_uuid participant (ac_org code) (ac_rule code) s, s) (\<lambda>ok s.
     and_then (require (fst ok) ErrNotEligible s) (\<lambda>_ s.
     and_then (case ac_pool code of
         None \<Rightarrow> (Inr (), s)
       | Some pid \<Rightarrow> and_then (on_error ErrPoolExhausted (reserve_pool_slot pid s)) (\<lambda>_ s. (Inr (), s)))
       (\<lambda>_ s.
     and_then (create_access_grant gid (ac_pool code) participant ev cat (Some (ac_id code))
         (case ac_valid_until code of None \<Rightarrow> zero_time | Some u \<Rightarrow> u) s) (\<lambda>g s.
     and_then (on_no_rows ErrCodeExhausted (increment_code_use_count (ac_id code) s)) (\<lambda>_ s.
     (Inr g, s)))))))))"

definition redeem ::
  "(string \<Rightarrow> string) \<Rightarrow> (string \<Rightarrow> uuid option) \<Rightarrow> time \<Rightarrow> uuid \<Rightarrow> uuid \<Rightarrow> uuid \<Rightarrow> uuid \<Rightarrow> string \<Rightarrow>
    db \<Rightarrow> access_grant res \<times> db" where
  "redeem hash_code parse_uuid now gid participant ev cat plain s =
     and_then (found ErrCodeNotFound (get_access_code_by_hash ev (hash_code plain) s) s) (\<lambda>code s.
     redeem_read parse_uuid now gid participant ev cat code s)"

text \<open>\<open>valid_until = now()\<close> has to respect \<open>CHECK (valid_from < valid_until)\<close>.\<close>

definition revoke_access_code :: "uuid \<Rightarrow> time \<Rightarrow> db \<Rightarrow> unit res \<times> db" where
  "revoke_access_code cid now s =
     (if \<exists>c \<in> set (codes s). ac_id c = cid \<and>
           (case ac_valid_from c of None \<Rightarrow> False | Some f \<Rightarrow> now \<le> f)
      then (Inl (CheckViolation ''access_codes_dates_check''), s)
      else (Inr (), s\<lparr>codes := upd (\<lambda>c. ac_id c = cid) (\<lambda>c. c\<lparr>ac_valid_until := Some now\<rparr>) (codes s)\<rparr>))"

section \<open>PriorityChecker\<close>

text \<open>The answer of \<open>IsWindowOpen(category, PRIORITY_ACCESS)\<close> is the argument \<open>window\<close>; the
  reason of an ineligible answer is wrapped into the message of \<open>ErrNotEligible\<close>.\<close>

definition check_priority_admission ::
  "(string \<Rightarrow> uuid option) \<Rightarrow> time \<Rightarrow> uuid \<Rightarrow> (db \<Rightarrow> (bool \<times> string) res) \<Rightarrow> uuid \<Rightarrow> uuid \<Rightarrow> uuid \<Rightarrow>
    string \<Rightarrow> db \<Rightarrow> unit res \<times> db" where
  "check_priority_admission parse_uuid now gid window participant ev cat token s =
     (if token \<noteq> [] then (check_grant parse_uuid now participant cat token s, s)
      else
        and_then (window s, s) (\<lambda>w s.
        and_then (require (fst w) (ErrPriorityWindowClosed (snd w)) s) (\<lambda>_ s.
        and_then (found ErrPoolExhausted (find (\<lambda>p. pl_type p = PoolPriority)
          (list_visible_pools_by_category ev cat now s)) s) (\<lambda>p s.
        and_then (eligibility_check parse_uuid participant (pl_org p) (pl_rule p) s, s) (\<lambda>ok s.
        and_then (require (fst ok) ErrNotEligible s) (\<lambda>_ s.
        if get_active_grant_for_participant participant cat s \<noteq> None then (Inr (), s)
        else
          and_then (on_no_rows ErrPoolExhausted (reserve_pool_slot (pl_id p) s)) (\<lambda>_ s.
          and_then (create_access_grant gid (Some (pl_id p)) participant (pl_event p) cat None
            (case pl_valid_until p of None \<Rightarrow> now + 86400000000000 | Some u \<Rightarrow> u) s) (\<lambda>_ s.
          (Inr (), s)))))))))"

section \<open>Slot accounting\<close>

text \<open>The constraints of migration 35 as an invariant, and the free places of a pool.\<close>

definition pools_ok :: "db \<Rightarrow> bool" where
  "pools_ok s \<longleftrightarrow> distinct (map pl_id (pools s)) \<and> (\<forall>p \<in> set (pools s). pool_ok p)"

definition free_slots :: "uuid \<Rightarrow> db \<Rightarrow> int" where
  "free_slots pid s = (case get_access_pool pid s of
     None \<Rightarrow> 0 | Some p \<Rightarrow> pl_total p - pl_reserved p - pl_used p)"

lemmas and_then_pools_ok = and_then_inv [where I = pools_ok]

lemma pools_ok_cong: "pools s' = pools s \<Longrightarrow> pools_ok s' = pools_ok s"
  by (simp add: pools_ok_def)

lemma pools_ok_upd:
  assumes "pools_ok s" "pools s' = upd P f (pools s)" "\<And>p. pl_id (f p) = pl_id p"
    "\<And>p. p \<in> set (pools s) \<Longrightarrow> P p \<Longrightarrow> pool_ok (f p)"
  shows "pools_ok s'"
  using assms by (auto simp: pools_ok_def map_upd set_upd)

lemma update_pools_cases:
  assumes "update_pools P f s = (r, s')"
  obtains (changed) "r = Inr ()" "s' = s\<lparr>pools := upd P f (pools s)\<rparr>"
      "\<forall>p \<in> set (pools s). P p \<longrightarrow> pool_ok (f p)"
    | (refused) "r = Inl (CheckViolation ''access_pools'')" "s' = s"
  using assms by (auto simp: update_pools_def split: if_splits)

lemma pools_ok_update:
  "pools_ok s \<Longrightarrow> (\<And>p. pl_id (f p) = pl_id p) \<Longrightarrow> pools_ok (snd (update_pools P f s))"
  by (auto simp: update_pools_def intro: pools_ok_upd)

lemma pools_ok_reserve_pool_slot:
  "pools_ok s \<Longrightarrow> pools_ok (snd (reserve_pool_slot pid s))"
  by (auto simp: reserve_pool_slot_def upd_one_Some pool_ok_def pools_ok_def map_upd set_upd
      split: option.splits)

lemma pools_ok_consume_pool_slot: "pools_ok s \<Longrightarrow> pools_ok (snd (consume_pool_slot pid s))"
  unfolding consume_pool_slot_def by (rule pools_ok_update) simp_all

lemma pools_ok_release_pool_slot: "pools_ok s \<Longrightarrow> pools_ok (snd (release_pool_slot pid s))"
  unfolding release_pool_slot_def by (rule pools_ok_update) simp_all

lemma pools_create_access_grant [frame]:
  "pools (snd (create_access_grant gid pool participant ev cat code expires s)) = pools s"
  by (simp add: create_access_grant_def Let_def)

lemma pools_ok_create_access_grant:
  "pools_ok s \<Longrightarrow> pools_ok (snd (create_access_grant gid pool participant ev cat code expires s))"
  by (simp add: pools_ok_def frame)

lemma pools_increment_code_use_count [frame]:
  "pools (snd (increment_code_use_count cid s)) = pools s"
  by (simp add: increment_code_use_count_def split: option.split)

lemma pools_expire_grant [frame]: "pools (expire_grant gid s) = pools s"
  by (simp add: expire_grant_def)

lemma pools_consume_grant [frame]: "pools (snd (consume_grant gid oid now s)) = pools s"
  by (simp add: consume_grant_def consume_grant_row_def split: option.split prod.split)

text \<open>Composed operations, by the lemma of each step.\<close>

lemma pools_ok_reserve_slot: "pools_ok s \<Longrightarrow> pools_ok (snd (reserve_slot pid s))"
  unfolding reserve_slot_def by (rule and_then_pools_ok) (simp_all add: pools_ok_reserve_pool_slot)

lemma pools_ok_create_grant:
  "pools_ok s \<Longrightarrow> pools_ok (snd (create_grant gid pid participant ev cat expires s))"
  unfolding create_grant_def
  by (intro and_then_pools_ok)
    (simp_all add: pools_ok_create_access_grant pools_ok_consume_pool_slot)

lemma pools_ok_expire_stale_grant: "pools_ok s \<Longrightarrow> pools_ok (expire_stale_grant g s)"
  by (auto simp: expire_stale_grant_def Let_def pools_ok_cong [OF pools_expire_grant]
      split: option.split intro: pools_ok_release_pool_slot)

lemma pools_ok_expire_stale_grants: "pools_ok s \<Longrightarrow> pools_ok (expire_stale_grants batch now s)"
proof -
  have "pools_ok s \<Longrightarrow> pools_ok (fold expire_stale_grant gs s)" for gs
    by (induction gs arbitrary: s) (simp_all add: pools_ok_expire_stale_grant)
  then show "pools_ok s \<Longrightarrow> ?thesis" by (simp add: expire_stale_grants_def)
qed

lemma pools_ok_adjust_total_slots: "pools_ok s \<Longrightarrow> pools_ok (snd (adjust_total_slots pid delta s))"
  unfolding adjust_total_slots_def transfer_pool_slots_def
  by (simp split: option.split) (intro impI allI pools_ok_update; simp)

lemma pools_ok_increment_code_use_count:
  "pools_ok s \<Longrightarrow> pools_ok (snd (increment_code_use_count c s))"
  by (simp add: pools_ok_def frame)

lemmas pools_ok_steps = pools_ok_reserve_pool_slot pools_ok_create_access_grant
  pools_ok_consume_pool_slot pools_ok_release_pool_slot pools_ok_increment_code_use_count

lemma pools_ok_redeem_read:
  assumes "pools_ok s"
  shows "pools_ok (snd (redeem_read parse_uuid now gid participant ev cat code s))"
proof -
  have reserve: "pools_ok (snd (case ac_pool code of None \<Rightarrow> (Inr (), s)
     | Some pid \<Rightarrow> and_then (on_error ErrPoolExhausted (reserve_pool_slot pid s)) (\<lambda>_ s. (Inr (), s))))"
    if "pools_ok s" for s
    using that by (auto split: option.split intro!: and_then_pools_ok pools_ok_reserve_pool_slot)
  show ?thesis unfolding redeem_read_def
    by (intro and_then_pools_ok) (simp_all add: assms pools_ok_steps reserve)
qed

lemma pools_ok_redeem:
  "pools_ok s \<Longrightarrow> pools_ok (snd (redeem hash_code parse_uuid now gid participant ev cat plain s))"
  unfolding redeem_def by (rule and_then_pools_ok) (simp_all add: pools_ok_redeem_read)

lemma pools_ok_check_priority_admission:
  assumes "pools_ok s"
  shows "pools_ok (snd (check_priority_admission parse_uuid now gid window participant ev cat token s))"
proof (cases "token = []")
  case True
  have grant: "pools_ok (snd (if b then (Inr (), s) else m))"
    if "pools_ok s" "pools_ok (snd m)" for b s and m :: "unit res \<times> db"
    using that by simp
  from True show ?thesis unfolding check_priority_admission_def
    by simp (intro and_then_pools_ok grant, simp_all add: assms pools_ok_steps)
qed (simp add: check_priority_admission_def assms)

section \<open>Slots and grants\<close>

text \<open>What \<open>CreateGrant\<close> needs to find, and the row it writes.\<close>

definition grantable :: "uuid \<Rightarrow> uuid \<Rightarrow> uuid \<Rightarrow> uuid \<Rightarrow> db \<Rightarrow> bool" where
  "grantable gid p ev cat s \<longleftrightarrow> gid \<notin> g_id ` set (grants s) \<and> p \<in> u_id ` set (users s) \<and>
     ev \<in> e_id ` set (events s) \<and> cat \<in> c_id ` set (categories s)"

definition grant_row :: "uuid \<Rightarrow> uuid \<Rightarrow> uuid \<Rightarrow> uuid \<Rightarrow> uuid \<Rightarrow> time \<Rightarrow> access_grant" where
  "grant_row gid pool p ev cat t =
     \<lparr> g_id = gid, g_pool = Some pool, g_participant = p, g_event = ev, g_category = cat,
       g_code = None, g_status = GrantActive, g_expires_at = t, g_consumed_at = None, g_order = None \<rparr>"

lemma grant_row_fields [simp]:
  "g_id (grant_row gid pool p ev cat t) = gid" "g_status (grant_row gid pool p ev cat t) = GrantActive"
  "g_participant (grant_row gid pool p ev cat t) = p" "g_category (grant_row gid pool p ev cat t) = cat"
  "g_pool (grant_row gid pool p ev cat t) = Some pool" "g_expires_at (grant_row gid pool p ev cat t) = t"
  by (simp_all add: grant_row_def)

type_synonym reserver = "uuid \<Rightarrow> db \<Rightarrow> unit res \<times> db"
type_synonym issuer = "uuid \<Rightarrow> uuid \<Rightarrow> uuid \<Rightarrow> uuid \<Rightarrow> uuid \<Rightarrow> time \<Rightarrow> db \<Rightarrow> uuid res \<times> db"

text \<open>
  The interface \<open>PoolReserver\<close> of the waitlist and \<open>GrantIssuer\<close> of the ballot, with what both
  rely on: neither operation touches another table or breaks the slot accounting, a slot is refused
  exactly when none is free, and a grant issued on a reserved slot costs one free slot.
\<close>

locale slot_issuer =
  fixes reserve :: reserver and issue :: issuer and free :: "uuid \<Rightarrow> db \<Rightarrow> int"
  assumes reserve_only: "\<exists>ps. snd (reserve pool s) = s\<lparr>pools := ps\<rparr>"
    and issue_only: "\<exists>ps gs. snd (issue gid pool p ev cat t s) = s\<lparr>pools := ps, grants := grants s @ gs\<rparr>"
    and reserve_pools: "pools_ok s \<Longrightarrow> pools_ok (snd (reserve pool s))"
    and issue_pools: "pools_ok s \<Longrightarrow> pools_ok (snd (issue gid pool p ev cat t s))"
    and free_pools: "pools s' = pools s \<Longrightarrow> free pool s' = free pool s"
    and reserve_full: "pools_ok s \<Longrightarrow> free pool s \<le> 0 \<Longrightarrow> \<exists>e. reserve pool s = (Inl e, s)"
    and reserve_issue: "pools_ok s \<Longrightarrow> 0 < free pool s \<Longrightarrow> grantable gid p ev cat s \<Longrightarrow>
      \<exists>s1 ps. reserve pool s = (Inr (), s1) \<and>
        issue gid pool p ev cat t s1 =
          (Inr gid, s\<lparr>pools := ps, grants := grants s @ [grant_row gid pool p ev cat t]\<rparr>) \<and>
        pools_ok (s\<lparr>pools := ps\<rparr>) \<and> free pool (s\<lparr>pools := ps\<rparr>) = free pool s - 1"
begin

end

lemma pools_ok_unique:
  "pools_ok s \<Longrightarrow> sel (\<lambda>p. pl_id p = pid) (pools s) = Some p \<Longrightarrow>
    q \<in> set (pools s) \<Longrightarrow> pl_id q = pid \<Longrightarrow> q = p"
  by (auto simp: pools_ok_def distinct_map inj_on_def dest!: sel_SomeD)

lemma free_slots_pools: "pools s' = pools s \<Longrightarrow> free_slots pid s' = free_slots pid s"
  by (simp add: free_slots_def get_access_pool_def)

lemma reserve_slot_full:
  assumes "pools_ok s" "free_slots pid s \<le> 0"
  shows "reserve_slot pid s = (Inl ErrPoolExhausted, s)"
proof -
  have "\<not> (pl_id q = pid \<and> pl_reserved q + pl_used q < pl_total q)" if "q \<in> set (pools s)" for q
  proof (cases "sel (\<lambda>p. pl_id p = pid) (pools s)")
    case None
    with that show ?thesis by (auto dest: sel_NoneD)
  next
    case (Some p)
    with assms pools_ok_unique [OF assms(1) Some that] show ?thesis
      by (auto simp: free_slots_def get_access_pool_def)
  qed
  then have "upd_one (\<lambda>p. pl_id p = pid \<and> pl_reserved p + pl_used p < pl_total p)
      (\<lambda>p. p\<lparr>pl_reserved := pl_reserved p + 1\<rparr>) (pools s) = None"
    by (simp add: upd_one_None)
  then show ?thesis by (simp add: reserve_slot_def reserve_pool_slot_def)
qed

text \<open>Reserving and issuing together move one place of the pool from free to used.\<close>

lemma reserve_then_issue:
  assumes ok: "pools_ok s" and free: "0 < free_slots pid s" and "grantable gid p ev cat s"
  shows "\<exists>s1 ps. reserve_slot pid s = (Inr (), s1) \<and>
    create_grant gid pid p ev cat t s1 =
      (Inr gid, s\<lparr>pools := ps, grants := grants s @ [grant_row gid pid p ev cat t]\<rparr>) \<and>
    pools_ok (s\<lparr>pools := ps\<rparr>) \<and> free_slots pid (s\<lparr>pools := ps\<rparr>) = free_slots pid s - 1"
proof -
  from free obtain q where q: "sel (\<lambda>p. pl_id p = pid) (pools s) = Some q"
    and room: "pl_reserved q + pl_used q < pl_total q"
    by (auto simp: free_slots_def get_access_pool_def split: option.splits)
  note same = pools_ok_unique [OF ok q]
  from q have q': "q \<in> set (pools s)" "pl_id q = pid" by (auto dest: sel_SomeD)
  let ?f = "\<lambda>p. p\<lparr>pl_reserved := pl_reserved p + 1\<rparr>"
  let ?g = "\<lambda>p. p\<lparr>pl_reserved := pl_reserved p - 1, pl_used := pl_used p + 1\<rparr>"
  let ?ps = "upd (\<lambda>p. pl_id p = pid) ?f (pools s)"
  let ?qs = "upd (\<lambda>p. pl_id p = pid) ?g ?ps"
  have "upd (\<lambda>p. pl_id p = pid \<and> pl_reserved p + pl_used p < pl_total p) ?f (pools s) = ?ps"
    using same room by (auto simp: upd_def)
  moreover have "sel (\<lambda>p. pl_id p = pid \<and> pl_reserved p + pl_used p < pl_total p) (pools s) = Some q"
    using q room by (rule sel_strengthen)
  ultimately have r: "reserve_slot pid s = (Inr (), s\<lparr>pools := ?ps\<rparr>)"
    by (simp add: reserve_slot_def reserve_pool_slot_def upd_one_def)
  have qs: "?qs = upd (\<lambda>p. pl_id p = pid) (\<lambda>p. p\<lparr>pl_used := pl_used p + 1\<rparr>) (pools s)"
    by (auto simp: upd_def)
  have fit: "pool_ok (?g (?f x))" if "x \<in> set (pools s)" "pl_id x = pid" for x
    using same [OF that] room ok q' by (auto simp: pools_ok_def pool_ok_def)
  have ok': "pools_ok (s\<lparr>pools := ?qs\<rparr>)"
    using ok fit by (auto simp: pools_ok_def qs map_upd ball_upd pool_ok_def)
  have "map pl_id ?ps = map pl_id (pools s)" by (simp add: map_upd)
  then have "pl_id ` set ?ps = pl_id ` set (pools s)" by (metis list.set_map)
  with q' have "pid \<in> pl_id ` set ?ps" by (metis image_eqI)
  then have g: "create_access_grant gid (Some pid) p ev cat None t (s\<lparr>pools := ?ps\<rparr>) =
      (Inr (grant_row gid pid p ev cat t), s\<lparr>pools := ?ps, grants := grants s @ [grant_row gid pid p ev cat t]\<rparr>)"
    using assms(3) by (simp add: create_access_grant_def Let_def grantable_def grant_row_def)
  have "\<forall>x \<in> set ?ps. pl_id x = pid \<longrightarrow> pool_ok (?g x)"
    unfolding ball_upd using fit by simp
  with g have i: "create_grant gid pid p ev cat t (s\<lparr>pools := ?ps\<rparr>) =
      (Inr gid, s\<lparr>pools := ?qs, grants := grants s @ [grant_row gid pid p ev cat t]\<rparr>)"
    by (simp add: create_grant_def consume_pool_slot_def update_pools_def)
  have "sel (\<lambda>p. pl_id p = pid) ?qs = Some (?g (?f q))"
    unfolding qs using q by (simp add: sel_upd_key)
  then have "free_slots pid (s\<lparr>pools := ?qs\<rparr>) = free_slots pid s - 1"
    using q by (simp add: free_slots_def get_access_pool_def)
  with r i ok' show ?thesis by blast
qed

interpretation pool_manager: slot_issuer reserve_slot create_grant free_slots
proof
  have "snd (reserve_slot pool s) = s\<lparr>pools := pools (snd (reserve_slot pool s))\<rparr>" for pool s
    by (simp add: reserve_slot_def reserve_pool_slot_def split: option.split)
  then show "\<exists>ps. snd (reserve_slot pool s) = s\<lparr>pools := ps\<rparr>" for pool s by blast
  have "snd (create_grant gid pool p ev cat t s) = s\<lparr>pools := pools (snd (create_grant gid pool p ev cat t s)),
      grants := grants s @ drop (length (grants s)) (grants (snd (create_grant gid pool p ev cat t s)))\<rparr>"
    for gid pool p ev cat t s
    by (simp add: create_grant_def create_access_grant_def consume_pool_slot_def update_pools_def Let_def)
  then show "\<exists>ps gs. snd (create_grant gid pool p ev cat t s) = s\<lparr>pools := ps, grants := grants s @ gs\<rparr>"
    for gid pool p ev cat t s by blast
  show "pools_ok s \<Longrightarrow> free_slots pool s \<le> 0 \<Longrightarrow> \<exists>e. reserve_slot pool s = (Inl e, s)" for pool s
    using reserve_slot_full by blast
qed (fact pools_ok_reserve_slot pools_ok_create_grant free_slots_pools reserve_then_issue)+

section \<open>Properties\<close>


definition demo_pool :: access_pool where
  "demo_pool = \<lparr> pl_id = 7, pl_org = 1, pl_event = 2, pl_category = 3, pl_type = PoolPriority,
     pl_name = ''early'', pl_total = 2, pl_reserved = 1, pl_used = 1, pl_released = 0,
     pl_visible = True, pl_rule = None, pl_valid_until = None \<rparr>"

definition demo_pools :: db where
  "demo_pools = empty_db\<lparr>pools := [demo_pool]\<rparr>"


lemma consume_grant_Inr:
  assumes "consume_grant gid oid now s = (Inr u, s')"
  obtains g where "sel (\<lambda>g. g_id g = gid \<and> g_status g = GrantActive) (grants s) = Some g"
    "s' = s\<lparr>grants := upd (\<lambda>g. g_id g = gid \<and> g_status g = GrantActive)
       (\<lambda>g. g\<lparr>g_status := GrantConsumed, g_consumed_at := Some now,
              g_order := (if oid \<noteq> nil_uuid then Some oid else None)\<rparr>) (grants s)\<rparr>"
  using assms
  by (auto simp: consume_grant_def consume_grant_row_def and_then_Inr upd_one_Some
      split: option.splits prod.splits)

text \<open>A grant is used at most once: after a successful \<open>ConsumeGrant\<close> the grant is CONSUMED and
  linked to the order, every other grant is as before, and consuming it again, for whatever order,
  fails with GRANT_ALREADY_CONSUMED and changes nothing.\<close>

theorem consume_grant_once:
  assumes "consume_grant gid oid now s = (Inr u, s')" and "oid \<noteq> nil_uuid"
  shows "consume_grant gid oid2 now2 s' = (Inl ErrGrantAlreadyConsumed, s') \<and>
    (\<exists>g \<in> set (grants s'). g_id g = gid \<and> g_status g = GrantConsumed \<and> g_order g = Some oid) \<and>
    filter (\<lambda>g. g_id g \<noteq> gid) (grants s') = filter (\<lambda>g. g_id g \<noteq> gid) (grants s)"
proof -
  let ?P = "\<lambda>g. g_id g = gid \<and> g_status g = GrantActive"
  let ?f = "\<lambda>g. g\<lparr>g_status := GrantConsumed, g_consumed_at := Some now, g_order := Some oid\<rparr>"
  from assms obtain g where g: "sel ?P (grants s) = Some g"
    and s': "s' = s\<lparr>grants := upd ?P ?f (grants s)\<rparr>"
    by (elim consume_grant_Inr) simp
  then have gs: "grants s' = upd ?P ?f (grants s)" by simp
  have "upd_one ?P h (grants s') = None" for h
    by (simp add: upd_one_None gs ball_upd)
  then have "consume_grant gid oid2 now2 s' = (Inl ErrGrantAlreadyConsumed, s')"
    by (simp add: consume_grant_def consume_grant_row_def)
  moreover have "\<exists>g \<in> set (grants s'). g_id g = gid \<and> g_status g = GrantConsumed \<and> g_order g = Some oid"
    unfolding gs by (rule bex_changed [OF g]) (use sel_SomeD [OF g] in simp)
  moreover have "filter (\<lambda>g. g_id g \<noteq> gid) (upd ?P ?f gs) = filter (\<lambda>g. g_id g \<noteq> gid) gs" for gs
    by (induction gs) auto
  ultimately show ?thesis by (simp add: gs)
qed

definition demo_grant :: access_grant where
  "demo_grant = \<lparr> g_id = 9, g_pool = Some 7, g_participant = 5, g_event = 2, g_category = 3,
     g_code = None, g_status = GrantActive, g_expires_at = 100, g_consumed_at = None,
     g_order = None \<rparr>"

theorem consume_grant_once_witness:
  "\<exists>s'. consume_grant 9 4 50 (demo_pools\<lparr>grants := [demo_grant]\<rparr>) = (Inr (), s') \<and>
     consume_grant 9 6 51 s' = (Inl ErrGrantAlreadyConsumed, s')"
proof -
  let ?s = "demo_pools\<lparr>grants := [demo_grant]\<rparr>"
  have run: "consume_grant 9 4 50 ?s = (Inr (), snd (consume_grant 9 4 50 ?s))"
    by (simp add: consume_grant_def consume_grant_row_def upd_one_def demo_grant_def)
  from consume_grant_once [OF run, of 6 51] run show ?thesis by auto
qed

lemma check_keys_eligible:
  "check_keys parse_uuid usr org s kvs = Inr (True, r) \<longleftrightarrow>
     r = [] \<and> (\<forall>kv \<in> set kvs. check_key parse_uuid usr org s kv = None)"
proof (induction kvs)
  case Nil
  then show ?case by auto
next
  case (Cons kv kvs)
  have "check_key parse_uuid usr org s kv \<noteq> Some (Inr (True, r))"
    by (auto simp: check_key_def split: prod.splits if_splits sum.splits option.splits)
  with Cons show ?case by (auto split: option.split)
qed

text \<open>Who is eligible does not depend on the order in which Go's map iteration visits the keys
  of a rule, although the reported reason does: two orders of the same keys accept the same
  participants.\<close>

theorem eligibility_order_independent:
  assumes "mset kvs = mset kvs'"
  shows "(\<exists>r. eligibility_check parse_uuid usr org (Some (Rule kvs)) s = Inr (True, r)) \<longleftrightarrow>
    (\<exists>r. eligibility_check parse_uuid usr org (Some (Rule kvs')) s = Inr (True, r))"
  using mset_eq_setD [OF assms] by (simp add: eligibility_check_def check_keys_eligible)

theorem eligibility_order_independent_witness:
  "(\<exists>r. eligibility_check (\<lambda>_. None) 5 1
      (Some (Rule [(''min_completions'', RuleNumber 0), (''colour'', RuleOther)])) demo_pools = Inr (True, r)) \<and>
   (\<exists>r. eligibility_check (\<lambda>_. None) 5 1
      (Some (Rule [(''colour'', RuleOther), (''min_completions'', RuleNumber 0)])) demo_pools = Inr (True, r))"
  using eligibility_order_independent [of "[(''min_completions'', RuleNumber 0), (''colour'', RuleOther)]"
      "[(''colour'', RuleOther), (''min_completions'', RuleNumber 0)]" "\<lambda>_. None" 5 1 demo_pools]
  by (simp add: eligibility_check_def check_key_def add_mset_commute)

text \<open>\<open>SetEligibilityRule\<close> takes a pool out of the participants' sight: its UPDATE writes the
  zero value of the Go \<open>bool\<close> into \<open>is_visible_to_participants\<close>, so no pool with that id is
  listed for a category afterwards, whatever it was before.\<close>

theorem set_eligibility_rule_hides_pool:
  assumes "set_eligibility_rule pid rule s = (Inr (), s')"
  shows "pid \<notin> pl_id ` set (list_visible_pools_by_category ev cat now s') \<and>
    (\<exists>p \<in> set (pools s'). pl_id p = pid \<and> pl_rule p = Some rule)"
proof -
  let ?f = "\<lambda>p. p\<lparr>pl_visible := False, pl_rule := Some rule\<rparr>"
  from assms obtain p where p: "sel (\<lambda>p. pl_id p = pid) (pools s) = Some p"
    and s': "pools s' = upd (\<lambda>p. pl_id p = pid) ?f (pools s)"
    by (auto simp: set_eligibility_rule_def update_access_pool_columns_def upd_one_Some
        split: option.splits prod.splits)
  have "pid \<notin> pl_id ` set (list_visible_pools_by_category ev cat now s')"
  proof -
    have "\<forall>p \<in> set (pools s'). pl_id p = pid \<longrightarrow> \<not> pl_visible p"
      by (simp add: s' ball_upd)
    then show ?thesis by (auto simp: list_visible_pools_by_category_def)
  qed
  moreover have "\<exists>p \<in> set (pools s'). pl_id p = pid \<and> pl_rule p = Some rule"
    unfolding s' by (rule bex_changed [OF p]) (use sel_SomeD [OF p] in simp)
  ultimately show ?thesis ..
qed

theorem set_eligibility_rule_hides_pool_witness:
  "7 \<in> pl_id ` set (list_visible_pools_by_category 2 3 0 demo_pools) \<and>
   7 \<notin> pl_id ` set (list_visible_pools_by_category 2 3 0 (snd (set_eligibility_rule 7 (Rule []) demo_pools)))"
proof -
  have run: "set_eligibility_rule 7 (Rule []) demo_pools
      = (Inr (), snd (set_eligibility_rule 7 (Rule []) demo_pools))"
    by (simp add: set_eligibility_rule_def update_access_pool_columns_def upd_one_def
        demo_pools_def demo_pool_def)
  from set_eligibility_rule_hides_pool [OF run, of 2 3 0] show ?thesis
    by (simp add: list_visible_pools_by_category_def demo_pools_def demo_pool_def)
qed

lemma create_access_grant_Inr:
  "create_access_grant gid pool participant ev cat code expires s = (Inr g, s') \<Longrightarrow>
     gid \<notin> g_id ` set (grants s) \<and> participant \<in> u_id ` set (users s) \<and>
     ev \<in> e_id ` set (events s) \<and> cat \<in> c_id ` set (categories s) \<and>
     g = \<lparr> g_id = gid, g_pool = pool, g_participant = participant, g_event = ev,
           g_category = cat, g_code = code, g_status = GrantActive, g_expires_at = expires,
           g_consumed_at = None, g_order = None \<rparr> \<and>
     s' = s\<lparr>grants := grants s @ [g]\<rparr>"
  by (simp add: create_access_grant_def Let_def split: if_splits) blast

lemma reserve_pool_slot_frame [frame]:
  "grants (snd (reserve_pool_slot pid s)) = grants s" "codes (snd (reserve_pool_slot pid s)) = codes s"
  by (simp_all add: reserve_pool_slot_def split: option.split)

lemma reserve_code_pool_frame:
  assumes "(case pool of None \<Rightarrow> (Inr (), s)
     | Some pid \<Rightarrow> and_then (on_error e (reserve_pool_slot pid s)) (\<lambda>_ s. (Inr (), s))) = (r, s1)"
  shows "grants s1 = grants s" "codes s1 = codes s"
  using assms by (auto simp: and_then_def on_error_def reserve_pool_slot_def
      split: option.splits prod.splits sum.splits)

lemma redeem_read_Inr:
  assumes "redeem_read parse_uuid now gid participant ev cat code s = (Inr g, s')"
  shows "ac_use_count code < ac_max_uses code"
    and "case ac_valid_until code of None \<Rightarrow> True | Some u \<Rightarrow> now \<le> u"
    and "g_participant g = participant" "g_category g = cat" "g_event g = ev"
    and "g_status g = GrantActive" "g_code g = Some (ac_id code)"
    and "grants s' = grants s @ [g]"
    and "\<exists>c. sel (\<lambda>c. ac_id c = ac_id code \<and> ac_use_count c < ac_max_uses c) (codes s) = Some c"
    and "codes s' = upd (\<lambda>c. ac_id c = ac_id code \<and> ac_use_count c < ac_max_uses c)
           (\<lambda>c. c\<lparr>ac_use_count := ac_use_count c + 1\<rparr>) (codes s)"
proof -
  from assms obtain s1 r s2 u s3 where
    c: "ac_use_count code < ac_max_uses code"
      "case ac_valid_until code of None \<Rightarrow> True | Some u \<Rightarrow> now \<le> u" and
    r: "(case ac_pool code of None \<Rightarrow> (Inr (), s)
     | Some pid \<Rightarrow> and_then (on_error ErrPoolExhausted (reserve_pool_slot pid s)) (\<lambda>_ s. (Inr (), s)))
     = (Inr (), s1)" and
    g: "create_access_grant gid (ac_pool code) participant ev cat (Some (ac_id code)) u s1 = (Inr g, s2)" and
    i: "increment_code_use_count (ac_id code) s2 = (Inr r, s3)" and s': "s' = s3"
    unfolding redeem_read_def and_then_Inr require_Inr on_no_rows_Inr by auto
  note frames = reserve_code_pool_frame [OF r]
  note g = create_access_grant_Inr [OF g]
  from i g have "(\<exists>c. sel (\<lambda>c. ac_id c = ac_id code \<and> ac_use_count c < ac_max_uses c) (codes s) = Some c) \<and>
      codes s3 = upd (\<lambda>c. ac_id c = ac_id code \<and> ac_use_count c < ac_max_uses c)
        (\<lambda>c. c\<lparr>ac_use_count := ac_use_count c + 1\<rparr>) (codes s) \<and> grants s3 = grants s @ [g]"
    by (simp add: increment_code_use_count_def upd_one_def frames split: option.splits) auto
  with c g s' show "ac_use_count code < ac_max_uses code"
    and "case ac_valid_until code of None \<Rightarrow> True | Some u \<Rightarrow> now \<le> u"
    and "g_participant g = participant" "g_category g = cat" "g_event g = ev"
    and "g_status g = GrantActive" "g_code g = Some (ac_id code)"
    and "grants s' = grants s @ [g]"
    and "\<exists>c. sel (\<lambda>c. ac_id c = ac_id code \<and> ac_use_count c < ac_max_uses c) (codes s) = Some c"
    and "codes s' = upd (\<lambda>c. ac_id c = ac_id code \<and> ac_use_count c < ac_max_uses c)
           (\<lambda>c. c\<lparr>ac_use_count := ac_use_count c + 1\<rparr>) (codes s)"
    by simp_all
qed

text \<open>A redeemed code yields one ACTIVE grant for the redeeming participant, in the category the
  participant asks for, and counts one use of a code that was neither expired nor used up. The
  category the code was created for plays no part: the witness redeems a code of category 8 for a
  place in category 3.\<close>

theorem redeem_issues_grant:
  assumes "redeem hash_code parse_uuid now gid participant ev cat plain s = (Inr g, s')"
  shows "\<exists>code \<in> set (codes s). ac_event code = ev \<and> ac_hash code = hash_code plain \<and>
     ac_use_count code < ac_max_uses code \<and>
     (case ac_valid_until code of None \<Rightarrow> True | Some u \<Rightarrow> now \<le> u) \<and>
     g_code g = Some (ac_id code) \<and> g_participant g = participant \<and> g_category g = cat \<and>
     g_status g = GrantActive \<and> grants s' = grants s @ [g] \<and>
     (\<exists>c \<in> set (codes s'). ac_id c = ac_id code \<and> ac_use_count c \<le> ac_max_uses c)"
proof -
  from assms obtain code where code: "get_access_code_by_hash ev (hash_code plain) s = Some code"
    and run: "redeem_read parse_uuid now gid participant ev cat code s = (Inr g, s')"
    by (auto simp: redeem_def and_then_Inr)
  note facts = redeem_read_Inr [OF run]
  from facts(9) obtain c where c: "sel (\<lambda>c. ac_id c = ac_id code \<and> ac_use_count c < ac_max_uses c)
      (codes s) = Some c" ..
  have "\<exists>c \<in> set (codes s'). ac_id c = ac_id code \<and> ac_use_count c \<le> ac_max_uses c"
    unfolding facts(10) by (rule bex_changed [OF c]) (use sel_SomeD [OF c] in simp)
  moreover have "code \<in> set (codes s)" "ac_event code = ev" "ac_hash code = hash_code plain"
    using code by (auto simp: get_access_code_by_hash_def dest: sel_SomeD)
  ultimately show ?thesis using facts(1-8) by blast
qed

definition demo_code :: access_code where
  "demo_code = \<lparr> ac_id = 11, ac_org = 1, ac_event = 2, ac_category = Some 8, ac_hash = ''SPEED'',
     ac_max_uses = 1, ac_use_count = 0, ac_valid_from = Some 0, ac_valid_until = Some 1000,
     ac_pool = None, ac_rule = None \<rparr>"

definition demo_code_db :: db where
  "demo_code_db = empty_db\<lparr>users := [\<lparr>u_id = 5, u_full_name = [], u_email = [], u_membership = None\<rparr>,
       \<lparr>u_id = 6, u_full_name = [], u_email = [], u_membership = None\<rparr>],
     events := [\<lparr>e_id = 2, e_org = 1, e_name = [], e_status = []\<rparr>],
     categories := [\<lparr>c_id = 3, c_org = 1, c_event = 2, c_name = [], c_price = 0, c_capacity = 1,
       c_opens_at = None, c_closes_at = None, c_max_order_per_user = 1\<rparr>],
     codes := [demo_code]\<rparr>"

theorem redeem_issues_grant_witness:
  "\<exists>g s'. redeem (\<lambda>x. x) (\<lambda>_. None) 10 9 5 2 3 ''SPEED'' demo_code_db = (Inr g, s') \<and>
     ac_category demo_code = Some 8 \<and> g_category g = 3 \<and> grants s' = [g]"
proof -
  let ?r = "redeem (\<lambda>x. x) (\<lambda>_. None) 10 9 5 2 3 ''SPEED'' demo_code_db"
  have "\<not> isl (fst ?r)" by code_simp
  then obtain g s' where run: "?r = (Inr g, s')" by (cases ?r; cases "fst ?r") auto
  have "grants demo_code_db = []" "ac_category demo_code = Some 8" by code_simp+
  with redeem_issues_grant [OF run] run show ?thesis by auto
qed

text \<open>\<open>Redeem\<close> reads the use count in one statement and raises it in another, outside a
  transaction, with the grant inserted in between. Of two redemptions that read the same last use
  of a code, the second returns CODE_EXHAUSTED, yet its grant stays in the table, ACTIVE: the
  code has granted one more place than \<open>max_uses\<close>.\<close>

theorem redeem_race_overissues:
  assumes "redeem_read parse_uuid now gid1 p1 ev cat code s = (Inr g1, s1)"
    and "redeem_read parse_uuid now gid2 p2 ev cat code s1 = (Inl ErrCodeExhausted, s2)"
    and "sel (\<lambda>c. ac_id c = ac_id code) (codes s) = Some code"
    and "cnt (\<lambda>g. g_code g = Some (ac_id code)) (grants s) = nat (ac_use_count code)"
    and "0 \<le> ac_use_count code" "ac_use_count code + 1 = ac_max_uses code"
    and "ac_pool code = None"
    and "eligibility_check parse_uuid p2 (ac_org code) (ac_rule code) s1 = Inr (True, [])"
    and "ac_valid_from code = None \<or> ac_valid_from code = Some f \<and> f \<le> now"
  shows "int (cnt (\<lambda>g. g_code g = Some (ac_id code) \<and> g_status g = GrantActive) (grants s2)) \<ge> 2 \<and>
    int (cnt (\<lambda>g. g_code g = Some (ac_id code)) (grants s2)) = ac_max_uses code + 1"
proof -
  note facts = redeem_read_Inr [OF assms(1)]
  have from_until: "(case ac_valid_from code of None \<Rightarrow> True | Some f \<Rightarrow> f \<le> now)"
    using assms(9) by auto
  from assms(2) obtain u g2 s3 where g2:
    "create_access_grant gid2 None p2 ev cat (Some (ac_id code)) u s1 = (Inr g2, s3)"
    and inc: "on_no_rows ErrCodeExhausted (increment_code_use_count (ac_id code) s3)
      = (Inl ErrCodeExhausted, s2)"
    using facts(1,2) from_until assms(7,8)
    unfolding redeem_read_def
    by (auto simp: and_then_Inl create_access_grant_def Let_def split: if_splits)
  note g2 = create_access_grant_Inr [OF g2]
  have "grants s2 = grants s @ [g1, g2]"
    using inc g2 facts(8)
    by (auto simp: on_no_rows_def increment_code_use_count_def split: option.splits prod.splits)
  then show ?thesis using facts(6,7) g2 assms(4-6) by simp
qed

theorem redeem_race_overissues_witness:
  "\<exists>g1 s1 s2. redeem_read (\<lambda>_. None) 10 9 5 2 3 demo_code demo_code_db = (Inr g1, s1) \<and>
     redeem_read (\<lambda>_. None) 10 10 6 2 3 demo_code s1 = (Inl ErrCodeExhausted, s2) \<and>
     2 \<le> int (cnt (\<lambda>g. g_code g = Some 11 \<and> g_status g = GrantActive) (grants s2)) \<and>
     ac_max_uses demo_code = 1"
proof -
  let ?r1 = "redeem_read (\<lambda>_. None) 10 9 5 2 3 demo_code demo_code_db"
  let ?r2 = "redeem_read (\<lambda>_. None) 10 10 6 2 3 demo_code (snd ?r1)"
  have "\<not> isl (fst ?r1)" by code_simp
  then obtain g1 where r1: "?r1 = (Inr g1, snd ?r1)" by (cases ?r1; cases "fst ?r1") auto
  have "fst ?r2 = Inl ErrCodeExhausted" by code_simp
  then have r2: "?r2 = (Inl ErrCodeExhausted, snd ?r2)" by (cases ?r2) simp
  have init: "sel (\<lambda>c. ac_id c = ac_id demo_code) (codes demo_code_db) = Some demo_code"
    "cnt (\<lambda>g. g_code g = Some (ac_id demo_code)) (grants demo_code_db) = nat (ac_use_count demo_code)"
    "0 \<le> ac_use_count demo_code" "ac_use_count demo_code + 1 = ac_max_uses demo_code"
    "ac_pool demo_code = None"
    "eligibility_check (\<lambda>_. None) 6 (ac_org demo_code) (ac_rule demo_code) (snd ?r1) = Inr (True, [])"
    "ac_valid_from demo_code = None \<or> ac_valid_from demo_code = Some 0 \<and> (0::int) \<le> 10"
    by (simp_all add: demo_code_def demo_code_db_def empty_db_def eligibility_check_def)
  have "ac_id demo_code = 11" "ac_max_uses demo_code = 1" by (simp_all add: demo_code_def)
  with redeem_race_overissues [OF r1 r2 init] r1 r2 show ?thesis by auto
qed

lemma release_pool_slot_other:
  assumes "\<forall>p \<in> set (pools s). pl_id p = pid \<longrightarrow> pl_reserved p = 0"
  shows "filter (\<lambda>p. pl_id p = pid) (pools (snd (release_pool_slot q s)))
    = filter (\<lambda>p. pl_id p = pid) (pools s)"
proof (cases "update_pools (\<lambda>p. pl_id p = q)
    (\<lambda>p. p\<lparr>pl_reserved := pl_reserved p - 1, pl_released := pl_released p + 1\<rparr>) s" rule: prod.exhaust)
  case (Pair r s')
  then show ?thesis
  proof (cases rule: update_pools_cases)
    case changed
    have "filter (\<lambda>p. pl_id p = pid) (upd (\<lambda>p. pl_id p = q)
        (\<lambda>p. p\<lparr>pl_reserved := pl_reserved p - 1, pl_released := pl_released p + 1\<rparr>) ps)
        = filter (\<lambda>p. pl_id p = pid) ps"
      if "q \<noteq> pid \<or> (\<forall>p \<in> set ps. pl_id p \<noteq> pid)" for ps
      using that by (induction ps) auto
    moreover have "q \<noteq> pid \<or> (\<forall>p \<in> set (pools s). pl_id p \<noteq> pid)"
      using changed(3) assms by (fastforce simp: pool_ok_def)
    ultimately show ?thesis using Pair changed(2) by (simp add: release_pool_slot_def)
  qed (simp add: release_pool_slot_def Pair)
qed

lemma filter_same_set: "filter P xs = filter P ys \<Longrightarrow>
    (\<forall>x \<in> set xs. P x \<longrightarrow> Q x) = (\<forall>y \<in> set ys. P y \<longrightarrow> Q y)"
  by (metis (mono_tags, lifting) mem_Collect_eq set_filter)

text \<open>A slot that \<open>CreateGrant\<close> has moved from \<open>reserved\<close> to \<open>used\<close> is never given back: the
  expiry job marks the grant EXPIRED, but its \<open>ReleasePoolSlot\<close> lowers \<open>reserved\<close>, and for a pool
  with nothing reserved the CHECK refuses that UPDATE and the job drops the error. The pool keeps
  its counters, and a pool that was full stays full.\<close>

theorem expire_stale_grants_keeps_used:
  assumes "\<forall>p \<in> set (pools s). pl_id p = pid \<longrightarrow> pl_reserved p = 0"
  shows "filter (\<lambda>p. pl_id p = pid) (pools (expire_stale_grants batch now s))
      = filter (\<lambda>p. pl_id p = pid) (pools s)"
proof -
  have step: "filter (\<lambda>p. pl_id p = pid) (pools (expire_stale_grant g s)) = filter (\<lambda>p. pl_id p = pid) (pools s)"
    if "\<forall>p \<in> set (pools s). pl_id p = pid \<longrightarrow> pl_reserved p = 0" for g s
    using release_pool_slot_other [of "expire_grant (g_id g) s" pid] that
    by (simp add: expire_stale_grant_def Let_def frame split: option.split)
  have "filter (\<lambda>p. pl_id p = pid) (pools (fold expire_stale_grant gs s)) = filter (\<lambda>p. pl_id p = pid) (pools s)"
    if "\<forall>p \<in> set (pools s). pl_id p = pid \<longrightarrow> pl_reserved p = 0" for gs s
    using that
  proof (induction gs arbitrary: s)
    case (Cons g gs)
    have "\<forall>p \<in> set (pools (expire_stale_grant g s)). pl_id p = pid \<longrightarrow> pl_reserved p = 0"
      by (rule iffD2 [OF filter_same_set [OF step [OF Cons.prems]] Cons.prems])
    from Cons.IH [OF this] step [OF Cons.prems] show ?case by simp
  qed simp
  from this [OF assms] show ?thesis by (simp add: expire_stale_grants_def)
qed

definition demo_full_pool :: db where
  "demo_full_pool = demo_pools\<lparr>pools := [demo_pool\<lparr>pl_reserved := 0, pl_used := 2\<rparr>],
     grants := [demo_grant]\<rparr>"

theorem expire_stale_grants_keeps_used_witness:
  "map g_status (grants (expire_stale_grants 10 200 demo_full_pool)) = [GrantExpired] \<and>
   map pl_used (filter (\<lambda>p. pl_id p = 7) (pools (expire_stale_grants 10 200 demo_full_pool))) = [2] \<and>
   fst (reserve_slot 7 (expire_stale_grants 10 200 demo_full_pool)) = Inl ErrPoolExhausted"
proof -
  have "\<forall>p \<in> set (pools demo_full_pool). pl_id p = 7 \<longrightarrow> pl_reserved p = 0"
    by code_simp
  from expire_stale_grants_keeps_used [OF this, of 10 200]
  moreover have "map pl_used (filter (\<lambda>p. pl_id p = 7) (pools demo_full_pool)) = [2]"
    by code_simp
  ultimately
  have "map pl_used (filter (\<lambda>p. pl_id p = 7) (pools (expire_stale_grants 10 200 demo_full_pool))) = [2]"
    by (simp only:)
  moreover have "map g_status (grants (expire_stale_grants 10 200 demo_full_pool)) = [GrantExpired]"
    by code_simp
  moreover have "fst (reserve_slot 7 (expire_stale_grants 10 200 demo_full_pool)) = Inl ErrPoolExhausted"
    by code_simp
  ultimately show ?thesis by simp
qed

end
