(* ===== verification/Registration.thy ===== *)
theory Registration
  imports Schema
begin

text \<open>
  Registration modes (\<open>services/api/internal/modules/registration\<close>): the settings of events and
  categories, how they resolve to one mode, and the gate in front of every checkout. The gate
  talks to the queue, the ballot, the pools, the lifecycle and the priority checker through
  interfaces that may be nil; they are its arguments.
\<close>

section \<open>Modes and settings\<close>

definition mode_strings :: "(string \<times> mode) list" where
  "mode_strings = [(''NORMAL'', ModeNormal), (''WAR_QUEUE'', ModeWarQueue),
     (''RANDOMIZED_QUEUE'', ModeRandomizedQueue), (''HYBRID_QUEUE'', ModeHybridQueue),
     (''BALLOT'', ModeBallot), (''INVITATION_ONLY'', ModeInvitationOnly),
     (''PRIORITY_ACCESS'', ModePriorityAccess), (''WAITLIST_ONLY'', ModeWaitlistOnly),
     (''CLOSED'', ModeClosed)]"

definition is_queue_mode :: "mode \<Rightarrow> bool" where
  "is_queue_mode m \<longleftrightarrow> m = ModeWarQueue \<or> m = ModeRandomizedQueue \<or> m = ModeHybridQueue"

definition valid_mode :: "string \<Rightarrow> bool" where
  "valid_mode m \<longleftrightarrow> map_of mode_strings m \<noteq> None"

definition get_event_registration_settings :: "uuid \<Rightarrow> db \<Rightarrow> event_settings option" where
  "get_event_registration_settings ev s = sel (\<lambda>r. es_event r = ev) (event_modes s)"

definition get_category_registration_settings :: "uuid \<Rightarrow> db \<Rightarrow> category_settings option" where
  "get_category_registration_settings cat s = sel (\<lambda>r. cs_category r = cat) (category_modes s)"

text \<open>\<open>INSERT .. ON CONFLICT (key) DO UPDATE\<close>\<close>

definition upsert_event_registration_settings :: "event_settings \<Rightarrow> db \<Rightarrow> db" where
  "upsert_event_registration_settings r s = s\<lparr>event_modes :=
     (if es_event r \<in> es_event ` set (event_modes s)
      then upd (\<lambda>x. es_event x = es_event r) (\<lambda>_. r) (event_modes s)
      else event_modes s @ [r])\<rparr>"

definition upsert_category_registration_settings :: "category_settings \<Rightarrow> db \<Rightarrow> db" where
  "upsert_category_registration_settings r s = s\<lparr>category_modes :=
     (if cs_category r \<in> cs_category ` set (category_modes s)
      then upd (\<lambda>x. cs_category x = cs_category r) (\<lambda>_. r) (category_modes s)
      else category_modes s @ [r])\<rparr>"

section \<open>Resolution\<close>

record mode_input =
  mi_event_mode :: "mode option"
  mi_category_override :: bool
  mi_category_mode :: "mode option"

definition resolve_mode :: "mode_input \<Rightarrow> mode" where
  "resolve_mode i =
     (case (mi_category_override i, mi_category_mode i) of
        (True, Some m) \<Rightarrow> m
      | _ \<Rightarrow> (case mi_event_mode i of Some m \<Rightarrow> m | None \<Rightarrow> ModeNormal))"

definition resolve_for_checkout :: "uuid \<Rightarrow> uuid \<Rightarrow> db \<Rightarrow> mode" where
  "resolve_for_checkout ev cat s = resolve_mode
     \<lparr> mi_event_mode = map_option es_default_mode (get_event_registration_settings ev s),
       mi_category_override =
         (case get_category_registration_settings cat s of None \<Rightarrow> False | Some c \<Rightarrow> cs_override c),
       mi_category_mode = Option.bind (get_category_registration_settings cat s) cs_mode \<rparr>"

definition resolve_event_mode :: "uuid \<Rightarrow> db \<Rightarrow> mode" where
  "resolve_event_mode ev s =
     (case get_event_registration_settings ev s of None \<Rightarrow> ModeNormal | Some r \<Rightarrow> es_default_mode r)"

section \<open>Changing the settings\<close>

definition assert_event :: "uuid \<Rightarrow> uuid \<Rightarrow> db \<Rightarrow> unit res" where
  "assert_event org ev s =
     (case sel (\<lambda>e. e_id e = ev) (events s) of
        None \<Rightarrow> Inl ErrEventNotFound
      | Some e \<Rightarrow> if org \<noteq> nil_uuid \<and> e_org e \<noteq> org then Inl ErrEventNotFound else Inr ())"

definition set_event_settings ::
  "uuid \<Rightarrow> uuid \<Rightarrow> string \<Rightarrow> bool \<Rightarrow> bool \<Rightarrow> bool \<Rightarrow> bool \<Rightarrow> db \<Rightarrow> unit res \<times> db" where
  "set_event_settings org ev m queue ballot priority waitlist s =
     and_then (assert_event org ev s, s) (\<lambda>_ s.
     case map_of mode_strings m of
       None \<Rightarrow> (Inl ErrInvalidMode, s)
     | Some d \<Rightarrow> (Inr (), upsert_event_registration_settings
         \<lparr> es_event = ev, es_default_mode = d, es_queue_enabled = queue, es_ballot_enabled = ballot,
           es_priority_enabled = priority, es_waitlist_enabled = waitlist \<rparr> s))"

definition set_category_settings ::
  "uuid \<Rightarrow> uuid \<Rightarrow> uuid \<Rightarrow> string option \<Rightarrow> bool \<Rightarrow> db \<Rightarrow> unit res \<times> db" where
  "set_category_settings org ev cat m override s =
     and_then (assert_event org ev s, s) (\<lambda>_ s.
     case sel (\<lambda>c. c_id c = cat) (categories s) of
       None \<Rightarrow> (Inl ErrCategoryNotFound, s)
     | Some c \<Rightarrow>
         if c_event c \<noteq> ev then (Inl ErrCategoryNotFound, s)
         else if (case m of None \<Rightarrow> False | Some x \<Rightarrow> \<not> valid_mode x) then (Inl ErrInvalidMode, s)
         else (Inr (), upsert_category_registration_settings
           \<lparr> cs_category = cat, cs_mode = Option.bind m (map_of mode_strings),
             cs_override = override \<rparr> s))"

section \<open>The gate\<close>

text \<open>The collaborators of \<open>Gate\<close>, \<open>None\<close> for a nil interface. Only the priority checker writes.\<close>

record gate_deps =
  gd_queue :: "(uuid \<Rightarrow> uuid \<Rightarrow> string \<Rightarrow> db \<Rightarrow> unit res) option"
  gd_lifecycle :: "(uuid \<Rightarrow> mode \<Rightarrow> db \<Rightarrow> (bool \<times> string) res) option"
  gd_ballot :: "(uuid \<Rightarrow> uuid \<Rightarrow> string \<Rightarrow> db \<Rightarrow> unit res) option"
  gd_grant :: "(uuid \<Rightarrow> uuid \<Rightarrow> string \<Rightarrow> db \<Rightarrow> unit res) option"
  gd_priority :: "(uuid \<Rightarrow> uuid \<Rightarrow> uuid \<Rightarrow> string \<Rightarrow> db \<Rightarrow> unit res \<times> db) option"

definition check_window :: "gate_deps \<Rightarrow> uuid \<Rightarrow> mode \<Rightarrow> db \<Rightarrow> unit res" where
  "check_window d cat m s =
     (case gd_lifecycle d of
        None \<Rightarrow> Inr ()
      | Some is_open \<Rightarrow>
          if m = ModeNormal \<or> m = ModeClosed then Inr ()
          else (case is_open cat m s of
             Inl e \<Rightarrow> Inl e
           | Inr (b, _) \<Rightarrow> if b then Inr () else Inl ErrRegistrationWindowClosed))"

definition admit :: "gate_deps \<Rightarrow> uuid \<Rightarrow> uuid \<Rightarrow> uuid \<Rightarrow> string \<Rightarrow> db \<Rightarrow> unit res \<times> db" where
  "admit d participant ev cat token s =
     (let m = resolve_for_checkout ev cat s in
      and_then (check_window d cat m s, s) (\<lambda>_ s.
      case m of
        ModeNormal \<Rightarrow> (Inr (), s)
      | ModeClosed \<Rightarrow> (Inl ErrClosed, s)
      | ModeBallot \<Rightarrow>
          (case gd_ballot d of
             None \<Rightarrow> Inl ErrModeNotAvailable | Some f \<Rightarrow> f participant cat token s, s)
      | ModeInvitationOnly \<Rightarrow>
          (case gd_grant d of
             None \<Rightarrow> Inl ErrModeNotAvailable | Some f \<Rightarrow> f participant cat token s, s)
      | ModeWaitlistOnly \<Rightarrow>
          (case gd_grant d of
             None \<Rightarrow> Inl ErrModeNotAvailable | Some f \<Rightarrow> f participant cat token s, s)
      | ModePriorityAccess \<Rightarrow>
          (case gd_priority d of
             None \<Rightarrow> (Inl ErrModeNotAvailable, s) | Some f \<Rightarrow> f participant ev cat token s)
      | _ \<Rightarrow>
          (case gd_queue d of
             None \<Rightarrow> Inl ErrModeNotAvailable | Some f \<Rightarrow> f participant ev token s, s)))"

section \<open>Lemmas\<close>

lemma check_window_Inr:
  "check_window d cat m s = Inr () \<longleftrightarrow>
     gd_lifecycle d = None \<or> m = ModeNormal \<or> m = ModeClosed \<or>
     (\<exists>f r. gd_lifecycle d = Some f \<and> f cat m s = Inr (True, r))"
  by (auto simp: check_window_def split: option.splits sum.splits prod.splits)

text \<open>What the gate may change is what its priority checker may change.\<close>

lemma admit_frame:
  assumes "\<And>f p e c tok s. gd_priority d = Some f \<Longrightarrow> I s (snd (f p e c tok s))" and "\<And>s. I s s"
  shows "I s (snd (admit d participant ev cat token s))"
proof (cases "check_window d cat (resolve_for_checkout ev cat s) s")
  case (Inl e)
  with assms(2) show ?thesis by (simp add: admit_def Let_def)
next
  case (Inr u)
  then show ?thesis
    by (cases "resolve_for_checkout ev cat s") (auto simp: admit_def Let_def assms split: option.split)
qed

lemma sel_upsert:
  "sel (\<lambda>x. k x = k r) (if k r \<in> k ` set t then upd (\<lambda>x. k x = k r) (\<lambda>_. r) t else t @ [r]) = Some r"
proof (cases "k r \<in> k ` set t")
  case True
  then have "sel (\<lambda>x. k x = k r) (upd (\<lambda>x. k x = k r) (\<lambda>_. r) t) = Some r"
    by (induction t) auto
  with True show ?thesis by simp
next
  case False
  then have "sel (\<lambda>x. k x = k r) t = None" unfolding sel_None_iff by (metis imageI)
  with False show ?thesis by (simp add: sel_append)
qed

section \<open>Properties\<close>

text \<open>What passing the gate means: the category is not CLOSED, and unless the mode is NORMAL
  its window is open and the checker of that very mode accepted the participant: the queue for the
  three queue modes, the ballot for BALLOT, a grant for INVITATION_ONLY and WAITLIST_ONLY, the
  priority checker for PRIORITY_ACCESS. A checker that is not wired refuses.\<close>

theorem admit_only_through_mode:
  assumes "admit d participant ev cat token s = (Inr (), s')"
    and "resolve_for_checkout ev cat s = m"
  shows "m \<noteq> ModeClosed \<and> (m \<noteq> ModeNormal \<longrightarrow> check_window d cat m s = Inr ()) \<and>
    (is_queue_mode m \<longrightarrow> s' = s \<and> (\<exists>f. gd_queue d = Some f \<and> f participant ev token s = Inr ())) \<and>
    (m = ModeBallot \<longrightarrow> s' = s \<and> (\<exists>f. gd_ballot d = Some f \<and> f participant cat token s = Inr ())) \<and>
    (m = ModeInvitationOnly \<or> m = ModeWaitlistOnly \<longrightarrow>
       s' = s \<and> (\<exists>f. gd_grant d = Some f \<and> f participant cat token s = Inr ())) \<and>
    (m = ModePriorityAccess \<longrightarrow>
       (\<exists>f. gd_priority d = Some f \<and> f participant ev cat token s = (Inr (), s')))"
  using assms unfolding admit_def Let_def and_then_Inr
  by (cases m) (auto simp: is_queue_mode_def split: option.splits)

definition demo_deps :: gate_deps where
  "demo_deps = \<lparr> gd_queue = None, gd_lifecycle = Some (\<lambda>_ _ _. Inr (True, [])), gd_ballot = None,
     gd_grant = Some (\<lambda>_ _ tok _. if tok = ''G'' then Inr () else Inl ErrGrantNotFound),
     gd_priority = None \<rparr>"

definition demo_modes :: db where
  "demo_modes = empty_db\<lparr>event_modes := [\<lparr>es_event = 2, es_default_mode = ModeWarQueue,
       es_queue_enabled = True, es_ballot_enabled = False, es_priority_enabled = False,
       es_waitlist_enabled = False\<rparr>],
     category_modes := [\<lparr>cs_category = 3, cs_mode = Some ModeInvitationOnly, cs_override = True\<rparr>]\<rparr>"

theorem admit_only_through_mode_witness:
  "admit demo_deps 5 2 3 ''G'' demo_modes = (Inr (), demo_modes) \<and>
   (\<exists>f. gd_grant demo_deps = Some f \<and> f 5 3 ''G'' demo_modes = Inr ()) \<and>
   admit demo_deps 5 2 4 ''G'' demo_modes = (Inl ErrModeNotAvailable, demo_modes)"
proof -
  have mode: "resolve_for_checkout 2 3 demo_modes = ModeInvitationOnly"
    "resolve_for_checkout 2 4 demo_modes = ModeWarQueue"
    by (simp_all add: resolve_for_checkout_def resolve_mode_def demo_modes_def
        get_event_registration_settings_def get_category_registration_settings_def)
  have "admit demo_deps 5 2 3 ''G'' demo_modes = (Inr (), demo_modes)"
    "admit demo_deps 5 2 4 ''G'' demo_modes = (Inl ErrModeNotAvailable, demo_modes)"
    by (simp_all add: admit_def mode demo_deps_def check_window_def)
  with admit_only_through_mode [OF _ mode(1), of demo_deps 5 "''G''" demo_modes] show ?thesis by simp
qed

text \<open>Settings are read back by the next checkout: a mode set for a category with the override
  enabled decides for that category whatever the event says, and a category without override takes
  the mode set for the event.\<close>

theorem settings_resolve_back:
  assumes "set_category_settings org ev cat (Some m) True s = (Inr (), s1)"
    and "set_event_settings org ev m' q b p w s = (Inr (), s2)"
    and "\<forall>c. get_category_registration_settings cat' s = Some c \<longrightarrow> \<not> cs_override c"
  shows "map_of mode_strings m = Some (resolve_for_checkout ev cat s1) \<and>
    map_of mode_strings m' = Some (resolve_for_checkout ev cat' s2)"
proof
  from assms(1) obtain d where d: "map_of mode_strings m = Some d"
    and s1: "s1 = upsert_category_registration_settings
        \<lparr> cs_category = cat, cs_mode = Some d, cs_override = True \<rparr> s"
    by (auto simp: set_category_settings_def and_then_Inr valid_mode_def split: option.splits if_splits)
  have "get_category_registration_settings cat s1 = Some \<lparr> cs_category = cat, cs_mode = Some d, cs_override = True \<rparr>"
    using sel_upsert [of cs_category "\<lparr> cs_category = cat, cs_mode = Some d, cs_override = True \<rparr>"]
    by (simp add: get_category_registration_settings_def s1 upsert_category_registration_settings_def)
  with d show "map_of mode_strings m = Some (resolve_for_checkout ev cat s1)"
    by (simp add: resolve_for_checkout_def resolve_mode_def)
  from assms(2) obtain d' where d': "map_of mode_strings m' = Some d'"
    and s2: "s2 = upsert_event_registration_settings
         \<lparr> es_event = ev, es_default_mode = d', es_queue_enabled = q, es_ballot_enabled = b,
           es_priority_enabled = p, es_waitlist_enabled = w \<rparr> s"
    by (auto simp: set_event_settings_def and_then_Inr split: option.splits)
  let ?r = "\<lparr> es_event = ev, es_default_mode = d', es_queue_enabled = q, es_ballot_enabled = b,
           es_priority_enabled = p, es_waitlist_enabled = w \<rparr>"
  have "get_event_registration_settings ev s2 = Some ?r"
    using sel_upsert [of es_event ?r]
    by (simp add: get_event_registration_settings_def s2 upsert_event_registration_settings_def)
  moreover have "get_category_registration_settings cat' s2 = get_category_registration_settings cat' s"
    by (simp add: get_category_registration_settings_def s2 upsert_event_registration_settings_def)
  ultimately show "map_of mode_strings m' = Some (resolve_for_checkout ev cat' s2)"
    using d' assms(3)
    by (auto simp: resolve_for_checkout_def resolve_mode_def split: option.splits bool.splits)
qed

definition demo_settings :: db where
  "demo_settings = demo_modes\<lparr>events := [\<lparr>e_id = 2, e_org = 1, e_name = [], e_status = []\<rparr>],
     categories := [\<lparr>c_id = 3, c_org = 1, c_event = 2, c_name = [], c_price = 0, c_capacity = 1,
       c_opens_at = None, c_closes_at = None, c_max_order_per_user = 1\<rparr>]\<rparr>"

theorem settings_resolve_back_witness:
  "resolve_for_checkout 2 3 (snd (set_category_settings 1 2 3 (Some ''CLOSED'') True demo_settings)) = ModeClosed \<and>
   resolve_for_checkout 2 9 (snd (set_event_settings 1 2 ''BALLOT'' False True False False demo_settings)) = ModeBallot"
proof -
  let ?r1 = "set_category_settings 1 2 3 (Some ''CLOSED'') True demo_settings"
  let ?r2 = "set_event_settings 1 2 ''BALLOT'' False True False False demo_settings"
  have "fst ?r1 = Inr ()" "fst ?r2 = Inr ()" by code_simp+
  then have runs: "?r1 = (Inr (), snd ?r1)" "?r2 = (Inr (), snd ?r2)"
    by (metis prod.collapse)+
  have "\<forall>c. get_category_registration_settings 9 demo_settings = Some c \<longrightarrow> \<not> cs_override c"
    by (simp add: get_category_registration_settings_def demo_settings_def demo_modes_def)
  from settings_resolve_back [OF runs this] show ?thesis by (simp add: mode_strings_def)
qed

end
