(* ===== verification/Lifecycle.thy ===== *)
theory Lifecycle
  imports Schema
begin

text \<open>
  Registration lifecycles (\<open>services/api/internal/modules/lifecycle\<close>): the phases of a category,
  the window check the gate asks, and the job that advances from one phase to the next.
\<close>

section \<open>Queries\<close>

definition live_lifecycle :: "lifecycle \<Rightarrow> bool" where
  "live_lifecycle lc \<longleftrightarrow> lc_status lc \<noteq> LcCompleted \<and> lc_status lc \<noteq> LcCancelled"

definition get_lifecycle_by_category_id :: "uuid \<Rightarrow> db \<Rightarrow> lifecycle option" where
  "get_lifecycle_by_category_id cat s = sel (\<lambda>lc. lc_category lc = cat \<and> live_lifecycle lc) (lifecycles s)"

definition lifecycle_active :: "uuid \<Rightarrow> db \<Rightarrow> bool" where
  "lifecycle_active lid s \<longleftrightarrow> (\<exists>lc \<in> set (lifecycles s). lc_id lc = lid \<and> lc_status lc = LcActive)"

definition get_active_phase_for_mode :: "uuid \<Rightarrow> mode \<Rightarrow> db \<Rightarrow> phase option" where
  "get_active_phase_for_mode lid m s =
     sel (\<lambda>p. ph_lifecycle p = lid \<and> ph_mode p = m \<and> ph_status p = PhActive \<and> lifecycle_active lid s)
       (phases s)"

text \<open>\<open>ORDER BY phase_index ASC LIMIT 1\<close>; the index is unique within a lifecycle.\<close>

definition get_next_pending_phase :: "uuid \<Rightarrow> db \<Rightarrow> phase option" where
  "get_next_pending_phase lid s =
     (case filter (\<lambda>p. ph_lifecycle p = lid \<and> ph_status p = PhPending) (phases s) of
        [] \<Rightarrow> None
      | p # ps \<Rightarrow> Some (arg_min_list ph_index (p # ps)))"

definition list_phases_for_auto_advance :: "time \<Rightarrow> db \<Rightarrow> phase list" where
  "list_phases_for_auto_advance now s =
     filter (\<lambda>p. ph_status p = PhActive \<and> ph_auto_advance p \<and>
       (case ph_closes_at p of None \<Rightarrow> False | Some c \<Rightarrow> c < now) \<and>
       lifecycle_active (ph_lifecycle p) s) (phases s)"

definition update_lifecycle_phase_status :: "uuid \<Rightarrow> phase_status \<Rightarrow> time \<Rightarrow> db \<Rightarrow> phase res \<times> db" where
  "update_lifecycle_phase_status pid st now s =
     (case upd_one (\<lambda>p. ph_id p = pid)
             (\<lambda>p. p\<lparr>ph_status := st,
                    ph_activated_at := (if st = PhActive then Some now else ph_activated_at p),
                    ph_completed_at := (if st = PhCompleted \<or> st = PhSkipped then Some now
                                        else ph_completed_at p)\<rparr>) (phases s) of
        None \<Rightarrow> (Inl NoRows, s)
      | Some (p, ps) \<Rightarrow> (Inr p, s\<lparr>phases := ps\<rparr>))"

text \<open>The partial unique index allows one live lifecycle per event and category.\<close>

definition update_lifecycle_status :: "uuid \<Rightarrow> lifecycle_status \<Rightarrow> db \<Rightarrow> lifecycle res \<times> db" where
  "update_lifecycle_status lid st s =
     (case sel (\<lambda>lc. lc_id lc = lid) (lifecycles s) of
        None \<Rightarrow> (Inl NoRows, s)
      | Some lc \<Rightarrow>
          let lc' = lc\<lparr>lc_status := st\<rparr>
          in if live_lifecycle lc' \<and> (\<exists>x \<in> set (lifecycles s). lc_id x \<noteq> lid \<and>
                 lc_event x = lc_event lc \<and> lc_category x = lc_category lc \<and> live_lifecycle x)
             then (Inl (UniqueViolation ''registration_lifecycles_active_idx''), s)
             else (Inr lc', s\<lparr>lifecycles :=
                     upd (\<lambda>lc. lc_id lc = lid) (\<lambda>lc. lc\<lparr>lc_status := st\<rparr>) (lifecycles s)\<rparr>))"

section \<open>Service\<close>

definition reason_mode_not_in_lifecycle :: string where
  "reason_mode_not_in_lifecycle = ''MODE_NOT_IN_LIFECYCLE''"

definition reason_lifecycle_paused :: string where
  "reason_lifecycle_paused = ''LIFECYCLE_PAUSED''"

definition is_window_open :: "uuid \<Rightarrow> mode \<Rightarrow> db \<Rightarrow> (bool \<times> string) res" where
  "is_window_open cat m s =
     (case get_lifecycle_by_category_id cat s of
        None \<Rightarrow> Inr (True, [])
      | Some lc \<Rightarrow>
          if lc_status lc = LcPaused then Inr (False, reason_lifecycle_paused)
          else if lc_status lc \<noteq> LcActive then Inr (False, reason_mode_not_in_lifecycle)
          else (case get_active_phase_for_mode (lc_id lc) m s of
             None \<Rightarrow> Inr (False, reason_mode_not_in_lifecycle)
           | Some _ \<Rightarrow> Inr (True, [])))"

definition pause_lifecycle :: "uuid \<Rightarrow> db \<Rightarrow> unit res \<times> db" where
  "pause_lifecycle lid s = and_then (update_lifecycle_status lid LcPaused s) (\<lambda>_ s. (Inr (), s))"

definition resume_lifecycle :: "uuid \<Rightarrow> db \<Rightarrow> unit res \<times> db" where
  "resume_lifecycle lid s = and_then (update_lifecycle_status lid LcActive s) (\<lambda>_ s. (Inr (), s))"

definition complete_phase :: "uuid \<Rightarrow> time \<Rightarrow> db \<Rightarrow> unit res \<times> db" where
  "complete_phase pid now s =
     and_then (update_lifecycle_phase_status pid PhCompleted now s) (\<lambda>_ s. (Inr (), s))"

definition advance_to_next_phase :: "uuid \<Rightarrow> time \<Rightarrow> db \<Rightarrow> unit res \<times> db" where
  "advance_to_next_phase lid now s =
     (case get_next_pending_phase lid s of
        None \<Rightarrow> and_then (update_lifecycle_status lid LcCompleted s) (\<lambda>_ s. (Inr (), s))
      | Some p \<Rightarrow>
          and_then (update_lifecycle_phase_status (ph_id p) PhActive now s) (\<lambda>_ s. (Inr (), s)))"

text \<open>\<open>Advancer.Run\<close> goes over the phases it listed at the start and skips over errors.\<close>

definition advance_one :: "time \<Rightarrow> phase \<Rightarrow> db \<Rightarrow> db" where
  "advance_one now p s =
     (case complete_phase (ph_id p) now s of
        (Inl _, s') \<Rightarrow> s'
      | (Inr _, s') \<Rightarrow> snd (advance_to_next_phase (ph_lifecycle p) now s'))"

definition advancer_run :: "time \<Rightarrow> db \<Rightarrow> db" where
  "advancer_run now s = fold (advance_one now) (list_phases_for_auto_advance now s) s"

section \<open>One active phase\<close>

definition one_active_phase :: "db \<Rightarrow> bool" where
  "one_active_phase s \<longleftrightarrow> distinct (map ph_id (phases s)) \<and>
     (\<forall>l. cnt (\<lambda>p. ph_lifecycle p = l \<and> ph_status p = PhActive) (phases s) \<le> 1)"

definition with_status :: "phase_status \<Rightarrow> time \<Rightarrow> phase \<Rightarrow> phase" where
  "with_status st now p = p\<lparr>ph_status := st,
     ph_activated_at := (if st = PhActive then Some now else ph_activated_at p),
     ph_completed_at := (if st = PhCompleted \<or> st = PhSkipped then Some now else ph_completed_at p)\<rparr>"

lemma with_status_simps [simp]:
  "ph_id (with_status st now p) = ph_id p" "ph_lifecycle (with_status st now p) = ph_lifecycle p"
  "ph_status (with_status st now p) = st" "ph_mode (with_status st now p) = ph_mode p"
  by (simp_all add: with_status_def)

lemma phases_update_lifecycle_phase_status:
  "phases (snd (update_lifecycle_phase_status pid st now s))
     = upd (\<lambda>p. ph_id p = pid) (with_status st now) (phases s)"
proof (cases "sel (\<lambda>p. ph_id p = pid) (phases s)")
  case None
  then have "upd (\<lambda>p. ph_id p = pid) f (phases s) = phases s" for f
    by (intro upd_no_match) (auto dest: sel_NoneD)
  with None show ?thesis by (simp add: update_lifecycle_phase_status_def upd_one_def)
next
  case (Some p)
  then show ?thesis
    by (simp add: update_lifecycle_phase_status_def upd_one_def with_status_def [abs_def])
qed

lemma phases_update_lifecycle_status [frame]:
  "phases (snd (update_lifecycle_status lid st s)) = phases s"
  by (simp add: update_lifecycle_status_def Let_def split: option.split)

lemma phases_complete_phase:
  "phases (snd (complete_phase pid now s)) = upd (\<lambda>p. ph_id p = pid) (with_status PhCompleted now) (phases s)"
  using phases_update_lifecycle_phase_status [of pid PhCompleted now s]
  by (cases "update_lifecycle_phase_status pid PhCompleted now s")
    (auto simp: complete_phase_def and_then_def split: sum.split)

lemma phases_advance_to_next_phase:
  "phases (snd (advance_to_next_phase lid now s)) =
     (case get_next_pending_phase lid s of None \<Rightarrow> phases s
      | Some p \<Rightarrow> upd (\<lambda>q. ph_id q = ph_id p) (with_status PhActive now) (phases s))"
proof (cases "get_next_pending_phase lid s")
  case None
  then show ?thesis using phases_update_lifecycle_status [of lid LcCompleted s]
    by (cases "update_lifecycle_status lid LcCompleted s")
      (auto simp: advance_to_next_phase_def and_then_def split: sum.split)
next
  case (Some p)
  then show ?thesis using phases_update_lifecycle_phase_status [of "ph_id p" PhActive now s]
    by (cases "update_lifecycle_phase_status (ph_id p) PhActive now s")
      (auto simp: advance_to_next_phase_def and_then_def split: sum.split)
qed

lemma get_next_pending_phase_in:
  assumes "get_next_pending_phase lid s = Some p"
  shows "p \<in> set (phases s)" "ph_lifecycle p = lid" "ph_status p = PhPending"
    and "\<forall>q \<in> set (phases s). ph_lifecycle q = lid \<and> ph_status q = PhPending \<longrightarrow> ph_index p \<le> ph_index q"
proof -
  let ?ps = "filter (\<lambda>p. ph_lifecycle p = lid \<and> ph_status p = PhPending) (phases s)"
  from assms have p: "?ps \<noteq> []" "p = arg_min_list ph_index ?ps"
    by (auto simp: get_next_pending_phase_def split: list.splits)
  have "p \<in> set ?ps" using p arg_min_list_in by metis
  then show "p \<in> set (phases s)" "ph_lifecycle p = lid" "ph_status p = PhPending" by auto
  have "ph_index p \<le> ph_index q" if "q \<in> set ?ps" for q
    using p that by (simp add: f_arg_min_list_f Min_le_iff)
  then show "\<forall>q \<in> set (phases s). ph_lifecycle q = lid \<and> ph_status q = PhPending \<longrightarrow> ph_index p \<le> ph_index q"
    by auto
qed

text \<open>One step of the advancer on a lifecycle whose active phase is \<open>p\<close>.\<close>

definition active_in :: "uuid \<Rightarrow> phase \<Rightarrow> bool" where
  "active_in l p \<longleftrightarrow> ph_lifecycle p = l \<and> ph_status p = PhActive"

lemma one_active_phase_iff: "one_active_phase s \<longleftrightarrow> distinct (map ph_id (phases s)) \<and>
    (\<forall>l. cnt (active_in l) (phases s) \<le> 1)"
  by (simp add: one_active_phase_def active_in_def [abs_def])

lemma advance_one_step:
  assumes inv: "one_active_phase s" and p: "p0 \<in> set (phases s)" "ph_id p0 = ph_id p"
    "ph_lifecycle p0 = ph_lifecycle p" "ph_status p0 = PhActive"
  shows "one_active_phase (advance_one now p s)"
    and "q \<in> set (phases s) \<Longrightarrow> ph_lifecycle q \<noteq> ph_lifecycle p \<Longrightarrow> q \<in> set (phases (advance_one now p s))"
    and "with_status PhCompleted now p0 \<in> set (phases (advance_one now p s))"
proof -
  define s1 where "s1 = snd (complete_phase (ph_id p) now s)"
  let ?l = "ph_lifecycle p"
  have ph1: "phases s1 = upd (\<lambda>r. ph_id r = ph_id p) (with_status PhCompleted now) (phases s)"
    unfolding s1_def by (rule phases_complete_phase)
  have "sel (\<lambda>r. ph_id r = ph_id p) (phases s) \<noteq> None"
    using p(1,2) by (auto simp: sel_None_iff)
  then have "complete_phase (ph_id p) now s = (Inr (), s1)"
    by (auto simp: s1_def complete_phase_def update_lifecycle_phase_status_def upd_one_def)
  then have step: "advance_one now p s = snd (advance_to_next_phase ?l now s1)"
    by (simp add: advance_one_def)
  have ids: "distinct (map ph_id (phases s))" and le: "cnt (active_in l) (phases s) \<le> 1" for l
    using inv by (auto simp: one_active_phase_iff)
  have same: "r = p0" if "r \<in> set (phases s)" "ph_id r = ph_id p" for r
    using distinct_key_unique [OF ids that(1) p(1)] that(2) p(2) by simp
  have count1: "cnt (active_in l) (phases s1) + of_bool (active_in l p0) = cnt (active_in l) (phases s)" for l
    using cnt_upd_key [OF ids p(1), of "\<lambda>r. ph_id r = ph_id p" "active_in l" "with_status PhCompleted now"]
      p(2) by (simp add: ph1 active_in_def)
  then have none: "cnt (active_in ?l) (phases s1) = 0"
    using le [of ?l] count1 [of ?l] p(3,4) by (simp add: active_in_def)
  have le1: "cnt (active_in l) (phases s1) \<le> 1" for l
    using count1 [of l] le [of l] by linarith
  have ids1: "distinct (map ph_id (phases s1))" using ids by (simp add: ph1 map_upd)
  have keep1: "q \<in> set (phases s1)" if "q \<in> set (phases s)" "ph_lifecycle q \<noteq> ?l" for q
    unfolding ph1 using same that p(3) by (intro upd_keeps) auto
  have done1: "with_status PhCompleted now p0 \<in> set (phases s1)"
    unfolding ph1 using p by (intro upd_changed) auto
  have "one_active_phase (advance_one now p s) \<and>
    (\<forall>q \<in> set (phases s1). q = with_status PhCompleted now p0 \<or> ph_lifecycle q \<noteq> ?l \<longrightarrow>
       q \<in> set (phases (advance_one now p s)))"
  proof (cases "get_next_pending_phase ?l s1")
    case None
    then have "phases (advance_one now p s) = phases s1"
      by (simp add: step phases_advance_to_next_phase)
    with ids1 le1 show ?thesis by (simp add: one_active_phase_iff)
  next
    case (Some n)
    note n = get_next_pending_phase_in [OF Some]
    have ph2: "phases (advance_one now p s) = upd (\<lambda>r. ph_id r = ph_id n) (with_status PhActive now) (phases s1)"
      using Some by (simp add: step phases_advance_to_next_phase)
    have "cnt (active_in l) (phases (advance_one now p s)) + of_bool (active_in l n)
        = cnt (active_in l) (phases s1) + of_bool (ph_lifecycle n = l)" for l
      using cnt_upd_key [OF ids1 n(1), of "\<lambda>r. ph_id r = ph_id n" "active_in l" "with_status PhActive now"]
      by (simp add: ph2 active_in_def)
    then have "cnt (active_in l) (phases (advance_one now p s)) \<le> 1" for l
      using n(2,3) none le1 [of l] by (cases "l = ?l") (force simp: active_in_def)+
    moreover have "distinct (map ph_id (phases (advance_one now p s)))"
      using ids1 by (simp add: ph2 map_upd)
    moreover have "q \<in> set (phases (advance_one now p s))"
      if "q \<in> set (phases s1)" "q = with_status PhCompleted now p0 \<or> ph_lifecycle q \<noteq> ?l" for q
    proof -
      have "ph_id q \<noteq> ph_id n"
        using distinct_key_unique [OF ids1 that(1) n(1)] that(2) n(2,3) by auto
      then show ?thesis unfolding ph2 using that(1) by (intro upd_keeps) auto
    qed
    ultimately show ?thesis by (simp add: one_active_phase_iff)
  qed
  then show "one_active_phase (advance_one now p s)"
    and "q \<in> set (phases s) \<Longrightarrow> ph_lifecycle q \<noteq> ph_lifecycle p \<Longrightarrow> q \<in> set (phases (advance_one now p s))"
    and "with_status PhCompleted now p0 \<in> set (phases (advance_one now p s))"
    using keep1 done1 by blast+
qed

lemma advance_fold:
  assumes "one_active_phase s" and "distinct (map ph_lifecycle ps)"
    and "\<forall>p \<in> set ps. p \<in> set (phases s) \<and> ph_status p = PhActive"
  shows "one_active_phase (fold (advance_one now) ps s) \<and>
    (\<forall>p \<in> set ps. with_status PhCompleted now p \<in> set (phases (fold (advance_one now) ps s))) \<and>
    (\<forall>q \<in> set (phases s). ph_lifecycle q \<notin> ph_lifecycle ` set ps \<longrightarrow>
       q \<in> set (phases (fold (advance_one now) ps s)))"
  using assms
proof (induction ps arbitrary: s)
  case Nil
  then show ?case by simp
next
  case (Cons p ps)
  have p: "p \<in> set (phases s)" "ph_id p = ph_id p" "ph_lifecycle p = ph_lifecycle p" "ph_status p = PhActive"
    using Cons.prems(3) by simp_all
  note step = advance_one_step [OF Cons.prems(1) p, where now = now]
  have "\<forall>q \<in> set ps. ph_lifecycle q \<noteq> ph_lifecycle p" using Cons.prems(2) by (auto simp: image_iff)
  then have "\<forall>q \<in> set ps. q \<in> set (phases (advance_one now p s)) \<and> ph_status q = PhActive"
    using Cons.prems(3) step(2) by simp
  from Cons.IH [OF step(1) _ this] Cons.prems(2) step(2,3) show ?case
    by (auto simp: image_iff)
qed

section \<open>Properties\<close>


definition demo_phase :: "uuid \<Rightarrow> int \<Rightarrow> mode \<Rightarrow> phase_status \<Rightarrow> phase" where
  "demo_phase i n m st = \<lparr> ph_id = i, ph_lifecycle = 1, ph_index = n, ph_mode = m, ph_opens_at = Some 900,
     ph_closes_at = Some 10, ph_auto_advance = True, ph_status = st, ph_activated_at = None,
     ph_completed_at = None \<rparr>"

definition demo_lifecycle :: db where
  "demo_lifecycle = empty_db\<lparr>lifecycles := [\<lparr>lc_id = 1, lc_event = 2, lc_category = 3, lc_status = LcActive\<rparr>],
     phases := [demo_phase 11 2 ModePriorityAccess PhPending, demo_phase 10 1 ModeBallot PhActive,
       demo_phase 12 3 ModeWaitlistOnly PhPending]\<rparr>"

lemma demo_lifecycle_ok: "one_active_phase demo_lifecycle"
  by (simp add: one_active_phase_def demo_lifecycle_def demo_phase_def of_bool_def)


text \<open>When a lifecycle is over its category is open again to every mode: the advance past the last
  phase sets COMPLETED, the lookup ignores completed lifecycles, and a category without one fails
  open. (A lifecycle that is cancelled reopens the category in the same way.)\<close>

theorem completed_lifecycle_reopens:
  assumes "get_lifecycle_by_category_id cat s = Some lc"
    and "\<forall>x \<in> set (lifecycles s). lc_category x = cat \<and> live_lifecycle x \<longrightarrow> lc_id x = lc_id lc"
    and "get_next_pending_phase (lc_id lc) s = None"
  shows "is_window_open cat m (snd (advance_to_next_phase (lc_id lc) now s)) = Inr (True, [])"
proof -
  have "sel (\<lambda>x. lc_id x = lc_id lc) (lifecycles s) \<noteq> None"
    using assms(1) by (auto simp: sel_None_iff get_lifecycle_by_category_id_def dest: sel_SomeD)
  then obtain y where "sel (\<lambda>x. lc_id x = lc_id lc) (lifecycles s) = Some y" by auto
  then have new: "lifecycles (snd (advance_to_next_phase (lc_id lc) now s))
      = upd (\<lambda>x. lc_id x = lc_id lc) (\<lambda>x. x\<lparr>lc_status := LcCompleted\<rparr>) (lifecycles s)"
    using assms(3)
    by (simp add: advance_to_next_phase_def update_lifecycle_status_def live_lifecycle_def)
  have "get_lifecycle_by_category_id cat (snd (advance_to_next_phase (lc_id lc) now s)) = None"
    unfolding get_lifecycle_by_category_id_def sel_None_iff new ball_upd
    using assms(2) by (auto simp: live_lifecycle_def)
  then show ?thesis by (simp add: is_window_open_def)
qed

theorem completed_lifecycle_reopens_witness:
  "is_window_open 3 ModeWarQueue (demo_lifecycle\<lparr>phases := []\<rparr>) = Inr (False, reason_mode_not_in_lifecycle) \<and>
   is_window_open 3 ModeWarQueue (snd (advance_to_next_phase 1 20 (demo_lifecycle\<lparr>phases := []\<rparr>))) = Inr (True, [])"
proof -
  let ?s = "demo_lifecycle\<lparr>phases := []\<rparr>"
  have "get_lifecycle_by_category_id 3 ?s = Some \<lparr>lc_id = 1, lc_event = 2, lc_category = 3, lc_status = LcActive\<rparr>"
    "get_next_pending_phase 1 ?s = None"
    by (simp_all add: get_lifecycle_by_category_id_def demo_lifecycle_def live_lifecycle_def
        get_next_pending_phase_def)
  with completed_lifecycle_reopens [OF this(1), of ModeWarQueue 20]
  show ?thesis
    by (simp add: is_window_open_def get_active_phase_for_mode_def demo_lifecycle_def)
qed

text \<open>For a live lifecycle the window of a mode is open exactly while the lifecycle is ACTIVE and
  has an ACTIVE phase of that mode. The dates of the phase play no part, and the two reasons about
  dates that the module declares are never given: the witness opens a window after \<open>closes_at\<close> and
  before \<open>opens_at\<close>.\<close>

theorem window_open_iff_active_phase:
  assumes "get_lifecycle_by_category_id cat s = Some lc"
  shows "((\<exists>r. is_window_open cat m s = Inr (True, r)) \<longleftrightarrow>
      lc_status lc = LcActive \<and>
      (\<exists>p \<in> set (phases s). ph_lifecycle p = lc_id lc \<and> ph_mode p = m \<and> ph_status p = PhActive)) \<and>
    (\<exists>b r. is_window_open cat m s = Inr (b, r) \<and>
      r \<in> {[], reason_lifecycle_paused, reason_mode_not_in_lifecycle})"
proof -
  have "lc \<in> set (lifecycles s)"
    using assms by (auto simp: get_lifecycle_by_category_id_def dest: sel_SomeD)
  then have "lc_status lc = LcActive \<Longrightarrow> lifecycle_active (lc_id lc) s"
    by (auto simp: lifecycle_active_def)
  then show ?thesis
    using assms sel_None_iff [of "\<lambda>p. ph_lifecycle p = lc_id lc \<and> ph_mode p = m \<and> ph_status p = PhActive \<and>
        lifecycle_active (lc_id lc) s" "phases s"]
    by (auto simp: is_window_open_def get_active_phase_for_mode_def split: option.split)
qed

theorem window_open_iff_active_phase_witness:
  "\<exists>r. is_window_open 3 ModeBallot demo_lifecycle = Inr (True, r) \<and>
     map ph_closes_at (phases demo_lifecycle) = [Some 10, Some 10, Some 10] \<and>
     map ph_opens_at (phases demo_lifecycle) = [Some 900, Some 900, Some 900]"
proof -
  have "get_lifecycle_by_category_id 3 demo_lifecycle
      = Some \<lparr>lc_id = 1, lc_event = 2, lc_category = 3, lc_status = LcActive\<rparr>"
    by (simp add: get_lifecycle_by_category_id_def demo_lifecycle_def live_lifecycle_def)
  from window_open_iff_active_phase [OF this, of ModeBallot] show ?thesis
    by (simp add: demo_lifecycle_def demo_phase_def)
qed

end
