(* ===== verification/WarQueue.thy ===== *)
theory WarQueue
  imports Registration "HOL-Library.Product_Lexorder"
begin

text \<open>
  The waiting room (\<open>services/api/internal/modules/queue\<close>): joining, the release of waiting tokens,
  admissions and their expiry, and the operator's controls. The Redis mirror of the queue, which
  answers positions and caches statuses, is not modelled: every decision is taken on the database.
\<close>

section \<open>Scores and the release order\<close>

text \<open>\<open>ORDER BY pool DESC\<close> puts \<open>'PRESALE'\<close> before \<open>'FIFO'\<close>; \<open>queue_pool\<close> is ordered by its place
  in the line.\<close>

instantiation queue_pool :: linorder
begin

definition less_eq_queue_pool :: "queue_pool \<Rightarrow> queue_pool \<Rightarrow> bool" where
  "less_eq_queue_pool p q \<longleftrightarrow> p = PoolPresale \<or> q = PoolFifo"

definition less_queue_pool :: "queue_pool \<Rightarrow> queue_pool \<Rightarrow> bool" where
  "less_queue_pool p q \<longleftrightarrow> p = PoolPresale \<and> q = PoolFifo"

instance
  by standard (auto simp: less_eq_queue_pool_def less_queue_pool_def, (metis queue_pool.exhaust)+)

end

definition fifo_score :: "time \<Rightarrow> int" where
  "fifo_score now = now"

text \<open>The first eight bytes of SHA-256 over the seed and the participant's id, big-endian, are the
  argument \<open>digest\<close>; \<open>v >> 1\<close> clears the sign.\<close>

definition presale_score :: "(string \<Rightarrow> uuid \<Rightarrow> 64 word) \<Rightarrow> string \<Rightarrow> uuid \<Rightarrow> int" where
  "presale_score digest seed participant = sint (drop_bit 1 (digest seed participant))"

section \<open>Queries\<close>

definition get_token_by_event_participant :: "uuid \<Rightarrow> uuid \<Rightarrow> db \<Rightarrow> queue_token option" where
  "get_token_by_event_participant ev p s = sel (\<lambda>t. q_event t = ev \<and> q_participant t = p) (tokens s)"

definition create_queue_token ::
  "uuid \<Rightarrow> uuid \<Rightarrow> uuid \<Rightarrow> uuid \<Rightarrow> queue_pool \<Rightarrow> int \<Rightarrow> db \<Rightarrow> queue_token res \<times> db" where
  "create_queue_token tid org ev p pool score s =
     (if get_token_by_event_participant ev p s \<noteq> None then (Inl NoRows, s)
      else if tid \<in> q_id ` set (tokens s) then (Inl (UniqueViolation ''queue_tokens_pkey''), s)
      else if ev \<notin> e_id ` set (events s) then
        (Inl (ForeignKeyViolation ''queue_tokens_event_id_fkey''), s)
      else if p \<notin> u_id ` set (users s) then
        (Inl (ForeignKeyViolation ''queue_tokens_participant_id_fkey''), s)
      else
        let t = \<lparr> q_id = tid, q_org = org, q_event = ev, q_participant = p, q_status = TokWaiting,
                  q_pool = pool, q_score = score \<rparr>
        in (Inr t, s\<lparr>tokens := tokens s @ [t]\<rparr>))"

definition list_waiting_tokens :: "uuid \<Rightarrow> nat \<Rightarrow> db \<Rightarrow> queue_token list" where
  "list_waiting_tokens ev n s = take n (sort_key (\<lambda>t. (q_pool t, q_score t))
     (filter (\<lambda>t. q_event t = ev \<and> q_status t = TokWaiting) (tokens s)))"

definition mark_token_allowed :: "uuid \<Rightarrow> db \<Rightarrow> queue_token res \<times> db" where
  "mark_token_allowed tid s =
     (case upd_one (\<lambda>t. q_id t = tid \<and> q_status t = TokWaiting) (\<lambda>t. t\<lparr>q_status := TokAllowed\<rparr>)
             (tokens s) of
        None \<Rightarrow> (Inl NoRows, s)
      | Some (t, ts) \<Rightarrow> (Inr t, s\<lparr>tokens := ts\<rparr>))"

definition mark_token_completed :: "uuid \<Rightarrow> db \<Rightarrow> db" where
  "mark_token_completed tid s = s\<lparr>tokens :=
     upd (\<lambda>t. q_id t = tid \<and> q_status t = TokAllowed) (\<lambda>t. t\<lparr>q_status := TokCompleted\<rparr>) (tokens s)\<rparr>"

definition requeue_token :: "uuid \<Rightarrow> int \<Rightarrow> db \<Rightarrow> db" where
  "requeue_token tid score s = s\<lparr>tokens :=
     upd (\<lambda>t. q_id t = tid \<and> q_status t = TokAllowed)
       (\<lambda>t. t\<lparr>q_status := TokWaiting, q_score := score\<rparr>) (tokens s)\<rparr>"

text \<open>\<open>uq_admission_active\<close> allows one ACTIVE admission per token.\<close>

definition create_admission ::
  "uuid \<Rightarrow> uuid \<Rightarrow> uuid \<Rightarrow> uuid \<Rightarrow> time \<Rightarrow> db \<Rightarrow> admission res \<times> db" where
  "create_admission aid tid ev p expires s =
     (if aid \<in> a_id ` set (admissions s) then (Inl (UniqueViolation ''queue_admissions_pkey''), s)
      else if \<exists>a \<in> set (admissions s). a_token a = tid \<and> a_status a = AdmActive then
        (Inl (UniqueViolation ''uq_admission_active''), s)
      else if tid \<notin> q_id ` set (tokens s) then
        (Inl (ForeignKeyViolation ''queue_admissions_token_id_fkey''), s)
      else if ev \<notin> e_id ` set (events s) then
        (Inl (ForeignKeyViolation ''queue_admissions_event_id_fkey''), s)
      else if p \<notin> u_id ` set (users s) then
        (Inl (ForeignKeyViolation ''queue_admissions_participant_id_fkey''), s)
      else
        let a = \<lparr> a_id = aid, a_token = tid, a_event = ev, a_participant = p,
                  a_expires_at = expires, a_status = AdmActive \<rparr>
        in (Inr a, s\<lparr>admissions := admissions s @ [a]\<rparr>))"

definition get_active_admission :: "uuid \<Rightarrow> uuid \<Rightarrow> db \<Rightarrow> admission option" where
  "get_active_admission ev p s =
     sel (\<lambda>a. a_event a = ev \<and> a_participant a = p \<and> a_status a = AdmActive) (admissions s)"

definition set_admission_status :: "uuid \<Rightarrow> admission_status \<Rightarrow> db \<Rightarrow> db" where
  "set_admission_status aid st s = s\<lparr>admissions :=
     upd (\<lambda>a. a_id a = aid \<and> a_status a = AdmActive) (\<lambda>a. a\<lparr>a_status := st\<rparr>) (admissions s)\<rparr>"

definition consume_admission :: "uuid \<Rightarrow> db \<Rightarrow> db" where
  "consume_admission aid = set_admission_status aid AdmConsumed"

definition expire_admission :: "uuid \<Rightarrow> db \<Rightarrow> db" where
  "expire_admission aid = set_admission_status aid AdmExpired"

definition list_expired_active_admissions :: "nat \<Rightarrow> time \<Rightarrow> db \<Rightarrow> admission list" where
  "list_expired_active_admissions lim now s = take lim (sort_key a_expires_at
     (filter (\<lambda>a. a_status a = AdmActive \<and> a_expires_at a < now) (admissions s)))"

definition get_queue_control :: "uuid \<Rightarrow> db \<Rightarrow> queue_control option" where
  "get_queue_control ev s = sel (\<lambda>c. qc_event c = ev) (controls s)"

definition upsert_queue_control :: "queue_control \<Rightarrow> db \<Rightarrow> unit res \<times> db" where
  "upsert_queue_control c s =
     (if qc_event c \<notin> e_id ` set (events s) then
        (Inl (ForeignKeyViolation ''queue_control_event_id_fkey''), s)
      else if qc_rate c < 0 then (Inl (CheckViolation ''qc_rate_check''), s)
      else (Inr (), s\<lparr>controls :=
        (if qc_event c \<in> qc_event ` set (controls s)
         then upd (\<lambda>x. qc_event x = qc_event c) (\<lambda>_. c) (controls s)
         else controls s @ [c])\<rparr>))"

definition set_queue_state :: "uuid \<Rightarrow> queue_state \<Rightarrow> db \<Rightarrow> db" where
  "set_queue_state ev st s =
     s\<lparr>controls := upd (\<lambda>c. qc_event c = ev) (\<lambda>c. c\<lparr>qc_state := st\<rparr>) (controls s)\<rparr>"

definition set_release_rate :: "uuid \<Rightarrow> int \<Rightarrow> db \<Rightarrow> unit res \<times> db" where
  "set_release_rate ev rate s =
     (if rate < 0 \<and> ev \<in> qc_event ` set (controls s) then (Inl (CheckViolation ''qc_rate_check''), s)
      else (Inr (), s\<lparr>controls := upd (\<lambda>c. qc_event c = ev) (\<lambda>c. c\<lparr>qc_rate := rate\<rparr>) (controls s)\<rparr>))"

definition list_events_with_running_queue :: "db \<Rightarrow> uuid list" where
  "list_events_with_running_queue s = map qc_event (filter (\<lambda>c. qc_state c = QRunning) (controls s))"

section \<open>Join\<close>

text \<open>Which pool and score a participant gets; \<open>None\<close> when the event's mode is no queue mode.\<close>

definition join_place ::
  "(string \<Rightarrow> uuid \<Rightarrow> 64 word) \<Rightarrow> time \<Rightarrow> uuid \<Rightarrow> uuid \<Rightarrow> db \<Rightarrow> (queue_pool \<times> int) option" where
  "join_place digest now ev p s =
     (case resolve_event_mode ev s of
        ModeWarQueue \<Rightarrow> Some (PoolFifo, fifo_score now)
      | m \<Rightarrow>
          if m = ModeRandomizedQueue \<or> m = ModeHybridQueue then
            (case get_queue_control ev s of
               None \<Rightarrow> Some (PoolFifo, fifo_score now)
             | Some c \<Rightarrow>
                 (case qc_sale_start c of
                    None \<Rightarrow> Some (PoolFifo, fifo_score now)
                  | Some start \<Rightarrow>
                      if now < start then
                        Some (PoolPresale, presale_score digest
                          (case qc_seed c of None \<Rightarrow> [] | Some sd \<Rightarrow> sd) p)
                      else Some (PoolFifo, fifo_score now)))
          else None)"

definition join ::
  "(string \<Rightarrow> uuid \<Rightarrow> 64 word) \<Rightarrow> time \<Rightarrow> uuid \<Rightarrow> uuid \<Rightarrow> uuid \<Rightarrow> uuid \<Rightarrow> db \<Rightarrow> queue_token res \<times> db" where
  "join digest now tid org ev p s =
     (case join_place digest now ev p s of
        None \<Rightarrow> (Inl ErrNotEnabled, s)
      | Some (pool, score) \<Rightarrow>
          (case create_queue_token tid org ev p pool score s of
             (Inl e, s1) \<Rightarrow>
               if e = NoRows then found NoRows (get_token_by_event_participant ev p s1) s1
               else (Inl e, s1)
           | (Inr t, s1) \<Rightarrow> (Inr t, audit ''QUEUE_TOKEN_ISSUED'' (q_id t) s1)))"

definition join_by_event ::
  "(string \<Rightarrow> uuid \<Rightarrow> 64 word) \<Rightarrow> time \<Rightarrow> uuid \<Rightarrow> uuid \<Rightarrow> uuid \<Rightarrow> db \<Rightarrow> queue_token res \<times> db" where
  "join_by_event digest now tid ev p s =
     and_then (found NoRows (sel (\<lambda>e. e_id e = ev) (events s)) s) (\<lambda>e s.
     join digest now tid (e_org e) ev p s)"

section \<open>Release\<close>

text \<open>One token of \<open>Release\<close>, in its own transaction: \<open>Inr True\<close> was promoted, \<open>Inr False\<close> was skipped
  because it was no longer WAITING. \<open>new_id\<close> draws the admission's id.\<close>

definition release_one ::
  "(uuid \<Rightarrow> uuid) \<Rightarrow> uuid \<Rightarrow> time \<Rightarrow> queue_token \<Rightarrow> db \<Rightarrow> bool res \<times> db" where
  "release_one new_id ev expires tok s = exec_tx (\<lambda>s.
     case mark_token_allowed (q_id tok) s of
       (Inl e, s1) \<Rightarrow> (if e = NoRows then Inr False else Inl e, s1)
     | (Inr t, s1) \<Rightarrow>
         and_then (create_admission (new_id (q_id tok)) (q_id t) ev (q_participant t) expires s1)
           (\<lambda>_ s2. (Inr True, s2))) s"

fun release_listed ::
  "(uuid \<Rightarrow> uuid) \<Rightarrow> uuid \<Rightarrow> time \<Rightarrow> queue_token list \<Rightarrow> db \<Rightarrow> nat \<times> db" where
  "release_listed new_id ev expires [] s = (0, s)"
| "release_listed new_id ev expires (tok # toks) s =
     (case release_one new_id ev expires tok s of
        (r, s1) \<Rightarrow>
          (case release_listed new_id ev expires toks s1 of
             (k, s2) \<Rightarrow> ((if r = Inr True then k + 1 else k), s2)))"

definition release ::
  "(uuid \<Rightarrow> uuid) \<Rightarrow> time \<Rightarrow> int \<Rightarrow> uuid \<Rightarrow> int \<Rightarrow> db \<Rightarrow> nat \<times> db" where
  "release new_id now window ev n s =
     (if n \<le> 0 then (0, s)
      else
        (case release_listed new_id ev (now + window) (list_waiting_tokens ev (nat n) s) s of
           (k, s1) \<Rightarrow> (k, if 0 < k then audit ''QUEUE_RELEASED'' ev s1 else s1)))"

text \<open>\<open>ReleaseJob\<close>: the rate of each running event, read again for each.\<close>

definition release_job_event :: "(uuid \<Rightarrow> uuid) \<Rightarrow> time \<Rightarrow> int \<Rightarrow> uuid \<Rightarrow> db \<Rightarrow> db" where
  "release_job_event new_id now window ev s =
     (case get_queue_control ev s of
        None \<Rightarrow> s
      | Some c \<Rightarrow>
          if qc_state c \<noteq> QRunning \<or> qc_rate c \<le> 0 then s
          else snd (release new_id now window ev (qc_rate c) s))"

definition release_job :: "(uuid \<Rightarrow> uuid) \<Rightarrow> time \<Rightarrow> int \<Rightarrow> db \<Rightarrow> db" where
  "release_job new_id now window s =
     fold (release_job_event new_id now window) (list_events_with_running_queue s) s"

section \<open>Admissions\<close>

definition check_admission ::
  "(uuid \<Rightarrow> string) \<Rightarrow> time \<Rightarrow> uuid \<Rightarrow> uuid \<Rightarrow> string \<Rightarrow> db \<Rightarrow> unit res" where
  "check_admission uuid_string now p ev token s =
     (case get_active_admission ev p s of
        None \<Rightarrow> Inl ErrAdmissionRequired
      | Some a \<Rightarrow>
          if token = [] \<or> uuid_string (a_id a) \<noteq> token then Inl ErrAdmissionRequired
          else if a_expires_at a < now then Inl ErrAdmissionExpired
          else Inr ())"

definition consume_on_checkout :: "uuid \<Rightarrow> uuid \<Rightarrow> db \<Rightarrow> unit res \<times> db" where
  "consume_on_checkout p ev s =
     and_then (found NoRows (get_active_admission ev p s) s) (\<lambda>a s.
     (Inr (), mark_token_completed (a_token a) (consume_admission (a_id a) s)))"

text \<open>\<open>ExpireDue\<close>: both statements of its transaction are \<open>:exec\<close> and do not fail.\<close>

definition expire_one :: "time \<Rightarrow> admission \<Rightarrow> db \<Rightarrow> db" where
  "expire_one now a s = audit ''QUEUE_ADMISSION_EXPIRED'' (a_id a)
     (requeue_token (a_token a) (fifo_score now) (expire_admission (a_id a) s))"

definition expire_due :: "nat \<Rightarrow> time \<Rightarrow> db \<Rightarrow> nat \<times> db" where
  "expire_due lim now s =
     (let due = list_expired_active_admissions lim now s
      in (length due, fold (expire_one now) due s))"

section \<open>Controls\<close>

definition assert_event_org :: "uuid option \<Rightarrow> uuid \<Rightarrow> db \<Rightarrow> unit res" where
  "assert_event_org org ev s =
     (case org of
        None \<Rightarrow> Inr ()
      | Some o' \<Rightarrow>
          if o' = nil_uuid then Inr ()
          else (case sel (\<lambda>e. e_id e = ev) (events s) of
             None \<Rightarrow> Inl ErrEventNotFound
           | Some e \<Rightarrow> if e_org e \<noteq> o' then Inl ErrEventNotFound else Inr ()))"

definition ensure_control :: "int \<Rightarrow> uuid \<Rightarrow> db \<Rightarrow> unit res \<times> db" where
  "ensure_control default_rate ev s =
     (case get_queue_control ev s of
        Some _ \<Rightarrow> (Inr (), s)
      | None \<Rightarrow> upsert_queue_control \<lparr> qc_event = ev, qc_state = QRunning, qc_rate = default_rate,
                  qc_seed = None, qc_sale_start = None, qc_presale_open = None \<rparr> s)"

definition pause :: "int \<Rightarrow> uuid option \<Rightarrow> uuid \<Rightarrow> db \<Rightarrow> unit res \<times> db" where
  "pause default_rate org ev s =
     and_then (assert_event_org org ev s, s) (\<lambda>_ s.
     and_then (ensure_control default_rate ev s) (\<lambda>_ s.
     (Inr (), audit ''QUEUE_PAUSED'' ev (set_queue_state ev QPaused s))))"

definition resume :: "int \<Rightarrow> uuid option \<Rightarrow> uuid \<Rightarrow> db \<Rightarrow> unit res \<times> db" where
  "resume default_rate org ev s =
     and_then (assert_event_org org ev s, s) (\<lambda>_ s.
     and_then (ensure_control default_rate ev s) (\<lambda>_ s.
     (Inr (), audit ''QUEUE_RESUMED'' ev (set_queue_state ev QRunning s))))"

definition set_rate :: "int \<Rightarrow> uuid option \<Rightarrow> uuid \<Rightarrow> int \<Rightarrow> db \<Rightarrow> unit res \<times> db" where
  "set_rate default_rate org ev rate s =
     and_then (assert_event_org org ev s, s) (\<lambda>_ s.
     and_then (ensure_control default_rate ev s) (\<lambda>_ s.
     and_then (set_release_rate ev rate s) (\<lambda>_ s.
     (Inr (), audit ''QUEUE_RATE_CHANGED'' ev s))))"

text \<open>An empty seed is replaced by sixteen random bytes in hex, the argument \<open>generated\<close>.\<close>

definition set_schedule ::
  "int \<Rightarrow> string \<Rightarrow> uuid option \<Rightarrow> uuid \<Rightarrow> string \<Rightarrow> time option \<Rightarrow> time option \<Rightarrow> db \<Rightarrow> unit res \<times> db" where
  "set_schedule default_rate generated org ev seed sale_start presale_open s =
     and_then (assert_event_org org ev s, s) (\<lambda>_ s.
     let seed' = (if seed = [] then generated else seed);
         st = (case get_queue_control ev s of None \<Rightarrow> QRunning | Some c \<Rightarrow> qc_state c);
         rate = (case get_queue_control ev s of None \<Rightarrow> default_rate | Some c \<Rightarrow> qc_rate c)
     in and_then (upsert_queue_control \<lparr> qc_event = ev, qc_state = st, qc_rate = rate,
          qc_seed = Some seed', qc_sale_start = sale_start, qc_presale_open = presale_open \<rparr> s) (\<lambda>_ s.
        (Inr (), audit ''QUEUE_SCHEDULE_SET'' ev s)))"

section \<open>The invariant\<close>

definition allowed :: "queue_token \<Rightarrow> bool" where
  "allowed t \<longleftrightarrow> q_status t = TokAllowed"

definition active_adm :: "admission \<Rightarrow> bool" where
  "active_adm a \<longleftrightarrow> a_status a = AdmActive"

definition same_person :: "queue_token \<Rightarrow> admission \<Rightarrow> bool" where
  "same_person t a \<longleftrightarrow> q_event t = a_event a \<and> q_participant t = a_participant a"

text \<open>An ALLOWED token has its ACTIVE admission, an ACTIVE admission its ALLOWED token, of the same
  event and participant; one token per event and participant, one ACTIVE admission per token.\<close>

definition queue_inv :: "db \<Rightarrow> bool" where
  "queue_inv s \<longleftrightarrow> distinct (map q_id (tokens s)) \<and> distinct (map a_id (admissions s)) \<and>
     distinct (map (\<lambda>t. (q_event t, q_participant t)) (tokens s)) \<and>
     distinct (map a_token (filter active_adm (admissions s))) \<and>
     linked q_id allowed a_token active_adm same_person (tokens s) (admissions s)"

lemma queue_inv_cong:
  "tokens s' = tokens s \<Longrightarrow> admissions s' = admissions s \<Longrightarrow> queue_inv s' = queue_inv s"
  by (simp add: queue_inv_def)

lemma queue_inv_audit [simp]: "queue_inv (audit x y s) = queue_inv s"
  by (rule queue_inv_cong) simp_all

lemma create_queue_token_Inr:
  "create_queue_token tid org ev p pool score s = (Inr t, s') \<Longrightarrow>
     get_token_by_event_participant ev p s = None \<and> tid \<notin> q_id ` set (tokens s) \<and>
     ev \<in> e_id ` set (events s) \<and> p \<in> u_id ` set (users s) \<and>
     t = \<lparr> q_id = tid, q_org = org, q_event = ev, q_participant = p, q_status = TokWaiting,
           q_pool = pool, q_score = score \<rparr> \<and> s' = s\<lparr>tokens := tokens s @ [t]\<rparr>"
  by (auto simp: create_queue_token_def Let_def split: if_splits)

lemma create_queue_token_Inl:
  "create_queue_token tid org ev p pool score s = (Inl e, s') \<Longrightarrow> s' = s"
  by (auto simp: create_queue_token_def Let_def split: if_splits)

lemma queue_inv_create_token:
  assumes "queue_inv s" "create_queue_token tid org ev p pool score s = (r, s')"
  shows "queue_inv s'"
proof (cases r)
  case (Inl e)
  with assms create_queue_token_Inl show ?thesis by blast
next
  case (Inr t)
  note new = create_queue_token_Inr [OF assms(2) [unfolded Inr]]
  have "(ev, p) \<notin> (\<lambda>t. (q_event t, q_participant t)) ` set (tokens s)"
    using new by (auto simp: get_token_by_event_participant_def sel_None_iff)
  moreover have "linked q_id allowed a_token active_adm same_person (tokens s @ [t]) (admissions s)"
    using assms(1) new by (intro linked_append_left) (auto simp: queue_inv_def allowed_def)
  ultimately show ?thesis using assms(1) new by (simp add: queue_inv_def)
qed

lemma queue_inv_join: "queue_inv s \<Longrightarrow> queue_inv (snd (join digest now tid org ev p s))"
proof -
  assume inv: "queue_inv s"
  show ?thesis
  proof (cases "join_place digest now ev p s")
    case None
    with inv show ?thesis by (simp add: join_def)
  next
    case (Some ps)
    obtain pool score where ps: "ps = (pool, score)" by fastforce
    obtain r s1 where run: "create_queue_token tid org ev p pool score s = (r, s1)" by fastforce
    from queue_inv_create_token [OF inv run] have "queue_inv s1" .
    with Some ps run show ?thesis
      by (cases r) (simp_all add: join_def queue_inv_def)
  qed
qed

text \<open>The one ACTIVE admission of a token: updating by its id is updating by its token.\<close>

lemma active_admission_by_token:
  assumes "queue_inv s" "a \<in> set (admissions s)" "a_status a = AdmActive"
  shows "upd (\<lambda>x. a_id x = a_id a \<and> a_status x = AdmActive) f (admissions s)
    = upd (\<lambda>x. a_token x = a_token a \<and> active_adm x) f (admissions s)"
proof -
  have "a_id x = a_id a \<longleftrightarrow> a_token x = a_token a" if "x \<in> set (admissions s)" "active_adm x" for x
  proof -
    have "x = a" if "a_token x = a_token a"
      using distinct_key_unique [of a_token "filter active_adm (admissions s)" x a] assms that
        \<open>x \<in> set (admissions s)\<close> \<open>active_adm x\<close> by (simp add: queue_inv_def active_adm_def)
    moreover have "x = a" if "a_id x = a_id a"
      using distinct_key_unique [of a_id "admissions s" x a] assms that \<open>x \<in> set (admissions s)\<close>
      by (simp add: queue_inv_def)
    ultimately show ?thesis by blast
  qed
  then show ?thesis unfolding upd_def by (auto simp: active_adm_def)
qed

lemma distinct_filter_upd:
  "distinct (map k (filter Q ts)) \<Longrightarrow> (\<And>x. \<not> Q (f x)) \<Longrightarrow> distinct (map k (filter Q (upd P f ts)))"
proof (induction ts)
  case (Cons t ts)
  have "set (filter Q (upd P f ts)) \<subseteq> set (filter Q ts)"
    using Cons.prems(2) by (auto simp: set_upd)
  with Cons show ?case by (cases "Q t") (auto dest: image_mono [of _ _ k])
qed simp

lemma queue_inv_close:
  assumes inv: "queue_inv s" and a: "a \<in> set (admissions s)" "a_status a = AdmActive"
    and st: "ast \<noteq> AdmActive" "\<And>t. q_status (f t) \<noteq> TokAllowed"
    and f: "\<And>t. q_id (f t) = q_id t" "\<And>t. q_event (f t) = q_event t"
      "\<And>t. q_participant (f t) = q_participant t"
    and s': "admissions s' = admissions (set_admission_status (a_id a) ast s)"
      "tokens s' = upd (\<lambda>t. q_id t = a_token a \<and> allowed t) f (tokens s)"
  shows "queue_inv s'"
proof -
  have adm: "admissions s' = upd (\<lambda>x. a_token x = a_token a \<and> active_adm x)
      (\<lambda>x. x\<lparr>a_status := ast\<rparr>) (admissions s)"
    using active_admission_by_token [OF inv a] s'(1) by (simp add: set_admission_status_def)
  have "linked q_id allowed a_token active_adm same_person (tokens s') (admissions s')"
    unfolding adm s'(2) using inv st
    by (intro linked_close) (simp_all add: queue_inv_def active_adm_def allowed_def)
  moreover have "distinct (map a_token (filter active_adm (admissions s')))"
    unfolding adm using inv st(1)
    by (intro distinct_filter_upd) (simp_all add: queue_inv_def active_adm_def)
  ultimately show ?thesis using inv f by (simp add: queue_inv_def s'(2) adm map_upd)
qed

lemma queue_inv_consume_on_checkout:
  assumes "queue_inv s" shows "queue_inv (snd (consume_on_checkout p ev s))"
proof (cases "get_active_admission ev p s")
  case None
  with assms show ?thesis by (simp add: consume_on_checkout_def)
next
  case (Some a)
  then have a: "a \<in> set (admissions s)" "a_status a = AdmActive"
    by (auto simp: get_active_admission_def dest: sel_SomeD)
  from Some have "snd (consume_on_checkout p ev s)
      = mark_token_completed (a_token a) (consume_admission (a_id a) s)"
    by (simp add: consume_on_checkout_def)
  then show ?thesis
    by (intro queue_inv_close [OF assms a, where f = "\<lambda>t. t\<lparr>q_status := TokCompleted\<rparr>"
          and ast = AdmConsumed])
      (simp_all add: mark_token_completed_def consume_admission_def set_admission_status_def allowed_def)
qed

lemma expire_one_step:
  assumes inv: "queue_inv s" and a: "a \<in> set (admissions s)" "a_status a = AdmActive"
  shows "queue_inv (expire_one now a s)"
    and "x \<in> set (admissions s) \<Longrightarrow> a_id x \<noteq> a_id a \<Longrightarrow> x \<in> set (admissions (expire_one now a s))"
proof -
  show "queue_inv (expire_one now a s)"
    by (intro queue_inv_close [OF assms, where ast = AdmExpired and
          f = "\<lambda>t. t\<lparr>q_status := TokWaiting, q_score := fifo_score now\<rparr>"])
      (simp_all add: expire_one_def requeue_token_def expire_admission_def set_admission_status_def
        allowed_def)
  show "x \<in> set (admissions s) \<Longrightarrow> a_id x \<noteq> a_id a \<Longrightarrow> x \<in> set (admissions (expire_one now a s))"
    by (auto simp: expire_one_def requeue_token_def expire_admission_def set_admission_status_def
        intro: upd_keeps)
qed

lemma queue_inv_expire_fold:
  "queue_inv s \<Longrightarrow> distinct (map a_id as) \<Longrightarrow>
     (\<forall>a \<in> set as. a \<in> set (admissions s) \<and> a_status a = AdmActive) \<Longrightarrow>
     queue_inv (fold (expire_one now) as s)"
proof (induction as arbitrary: s)
  case (Cons a as)
  then have a: "a \<in> set (admissions s)" "a_status a = AdmActive" by auto
  note step = expire_one_step [OF Cons.prems(1) a, where now = now]
  have "\<forall>x \<in> set as. x \<in> set (admissions (expire_one now a s)) \<and> a_status x = AdmActive"
    using Cons.prems(2,3) by (auto intro!: step(2) simp: image_iff)
  with Cons.IH [OF step(1)] Cons.prems(2) show ?case by simp
qed simp

lemma queue_inv_expire_due:
  assumes "queue_inv s" shows "queue_inv (snd (expire_due lim now s))"
proof -
  let ?fs = "filter (\<lambda>a. a_status a = AdmActive \<and> a_expires_at a < now) (admissions s)"
  have "distinct (map a_id ?fs)" using assms by (simp add: queue_inv_def distinct_map_filter)
  then have "distinct (map a_id (sort_key a_expires_at ?fs))"
    unfolding distinct_map by simp
  then have d: "distinct (map a_id (list_expired_active_admissions lim now s))"
    by (simp add: list_expired_active_admissions_def take_map [symmetric])
  have "set (list_expired_active_admissions lim now s) \<subseteq> set ?fs"
    unfolding list_expired_active_admissions_def by (auto dest: in_set_takeD)
  then have "\<forall>a \<in> set (list_expired_active_admissions lim now s). a \<in> set (admissions s) \<and> a_status a = AdmActive"
    by auto
  from queue_inv_expire_fold [OF assms d this] show ?thesis by (simp add: expire_due_def Let_def)
qed

lemma rollback_same: "webhooks s' = webhooks s \<Longrightarrow> audit_log s' = audit_log s \<Longrightarrow> rollback s s' = s"
  by (simp add: rollback_def)

lemma release_one_cases:
  assumes "release_one new_id ev expires tok s = (r, s')"
  obtains (promoted) t a where "r = Inr True"
      "sel (\<lambda>t. q_id t = q_id tok \<and> q_status t = TokWaiting) (tokens s) = Some t"
      "a = \<lparr> a_id = new_id (q_id tok), a_token = q_id tok, a_event = ev,
             a_participant = q_participant t, a_expires_at = expires, a_status = AdmActive \<rparr>"
      "new_id (q_id tok) \<notin> a_id ` set (admissions s)"
      "\<not> (\<exists>x \<in> set (admissions s). a_token x = q_id tok \<and> a_status x = AdmActive)"
      "s' = s\<lparr>tokens := upd (\<lambda>t. q_id t = q_id tok \<and> q_status t = TokWaiting)
               (\<lambda>t. t\<lparr>q_status := TokAllowed\<rparr>) (tokens s), admissions := admissions s @ [a]\<rparr>"
    | (skipped) "r = Inr False" "s' = s" "\<forall>t \<in> set (tokens s). q_id t = q_id tok \<longrightarrow> q_status t \<noteq> TokWaiting"
    | (failed) e where "r = Inl e" "s' = s"
proof (cases "sel (\<lambda>t. q_id t = q_id tok \<and> q_status t = TokWaiting) (tokens s)")
  case None
  then have "mark_token_allowed (q_id tok) s = (Inl NoRows, s)"
    by (simp add: mark_token_allowed_def upd_one_def)
  with assms None show thesis
    by (intro skipped) (auto simp: release_one_def exec_tx_def dest: sel_NoneD)
next
  case (Some t)
  let ?s1 = "s\<lparr>tokens := upd (\<lambda>t. q_id t = q_id tok \<and> q_status t = TokWaiting)
               (\<lambda>t. t\<lparr>q_status := TokAllowed\<rparr>) (tokens s)\<rparr>"
  have tid: "q_id t = q_id tok" using Some by (auto dest: sel_SomeD)
  have mark: "mark_token_allowed (q_id tok) s = (Inr (t\<lparr>q_status := TokAllowed\<rparr>), ?s1)"
    using Some by (simp add: mark_token_allowed_def upd_one_def)
  obtain c s2 where c: "create_admission (new_id (q_id tok)) (q_id tok) ev (q_participant t) expires ?s1 = (c, s2)"
    by fastforce
  show thesis
  proof (cases c)
    case (Inl e)
    with c have "s2 = ?s1" by (auto simp: create_admission_def Let_def split: if_splits)
    with assms mark c tid Inl show thesis
      by (intro failed) (auto simp: release_one_def exec_tx_def rollback_same)
  next
    case (Inr a)
    with c have a: "new_id (q_id tok) \<notin> a_id ` set (admissions s)"
      "\<not> (\<exists>x \<in> set (admissions s). a_token x = q_id tok \<and> a_status x = AdmActive)"
      "a = \<lparr> a_id = new_id (q_id tok), a_token = q_id tok, a_event = ev,
             a_participant = q_participant t, a_expires_at = expires, a_status = AdmActive \<rparr>"
      "s2 = ?s1\<lparr>admissions := admissions s @ [a]\<rparr>"
      by (auto simp: create_admission_def Let_def split: if_splits)
    show thesis
    proof (rule promoted [OF _ Some a(3,1,2)])
      show "r = Inr True" "s' = s\<lparr>tokens := upd (\<lambda>t. q_id t = q_id tok \<and> q_status t = TokWaiting)
               (\<lambda>t. t\<lparr>q_status := TokAllowed\<rparr>) (tokens s), admissions := admissions s @ [a]\<rparr>"
        using assms mark c tid Inr a(4) by (simp_all add: release_one_def exec_tx_def)
    qed
  qed
qed

lemma queue_inv_release_one:
  assumes inv: "queue_inv s" and run: "release_one new_id ev expires tok s = (r, s')"
    and ev: "\<forall>t \<in> set (tokens s). q_id t = q_id tok \<longrightarrow> q_event t = ev"
  shows "queue_inv s'"
  using run
proof (cases rule: release_one_cases)
  case (promoted t a)
  let ?P = "\<lambda>t. q_id t = q_id tok \<and> q_status t = TokWaiting"
  let ?f = "\<lambda>t. t\<lparr>q_status := TokAllowed\<rparr>"
  have t: "t \<in> set (tokens s)" "q_id t = q_id tok" using promoted(2) by (auto dest: sel_SomeD)
  have same: "u = t" if "u \<in> set (tokens s)" "q_id u = q_id tok" for u
    using distinct_key_unique [of q_id "tokens s" u t] inv that t by (simp add: queue_inv_def)
  have "linked q_id allowed a_token active_adm same_person (upd ?P ?f (tokens s)) (admissions s @ [a])"
  proof (rule linked_open [OF _ _ promoted(2)])
    show "linked q_id allowed a_token active_adm same_person (tokens s) (admissions s)"
      using inv by (simp add: queue_inv_def)
    show "q_id (?f u) = a_token a \<and> allowed (?f u) \<and> same_person (?f u) a"
      if "u \<in> set (tokens s)" "?P u" for u
      using that same [of u] ev by (simp add: promoted(3) allowed_def same_person_def)
  qed (auto simp: allowed_def active_adm_def promoted(3))
  moreover have "distinct (map a_token (filter active_adm (admissions s @ [a])))"
    using inv promoted(5) by (auto simp: queue_inv_def promoted(3) active_adm_def)
  moreover have "distinct (map a_id (admissions s @ [a]))"
    using inv promoted(4) by (auto simp: queue_inv_def promoted(3))
  ultimately show ?thesis using inv by (simp add: queue_inv_def promoted(6) map_upd)
qed (use inv in simp_all)

lemma release_one_frame:
  "release_one new_id ev expires tok s = (r, s') \<Longrightarrow>
     map q_id (tokens s') = map q_id (tokens s) \<and> map q_event (tokens s') = map q_event (tokens s) \<and>
     events s' = events s \<and> users s' = users s"
  by (erule release_one_cases) (simp_all add: map_upd)

lemma zip_map_mem: "map f xs' = map f xs \<Longrightarrow> map g xs' = map g xs \<Longrightarrow>
    (\<forall>x \<in> set xs. f x = k \<longrightarrow> g x = v) \<Longrightarrow> (\<forall>x \<in> set xs'. f x = k \<longrightarrow> g x = v)"
proof
  fix x assume m: "map f xs' = map f xs" "map g xs' = map g xs" "\<forall>x \<in> set xs. f x = k \<longrightarrow> g x = v"
    and "x \<in> set xs'"
  then obtain i where i: "i < length xs'" "x = xs' ! i" by (auto simp: in_set_conv_nth)
  moreover from m(1) have "length xs' = length xs" by (rule map_eq_imp_length_eq)
  ultimately have "i < length xs" by simp
  have "map f xs' ! i = map f xs ! i" "map g xs' ! i = map g xs ! i" by (simp_all only: m)
  with i \<open>i < length xs\<close> have "f x = f (xs ! i)" "g x = g (xs ! i)" by simp_all
  with m(3) \<open>i < length xs\<close> show "f x = k \<longrightarrow> g x = v" by simp
qed

lemma queue_inv_release_listed:
  "queue_inv s \<Longrightarrow> \<forall>tok \<in> set toks. \<forall>t \<in> set (tokens s). q_id t = q_id tok \<longrightarrow> q_event t = ev \<Longrightarrow>
     queue_inv (snd (release_listed new_id ev expires toks s))"
proof (induction toks arbitrary: s)
  case (Cons tok toks)
  obtain r s1 where run: "release_one new_id ev expires tok s = (r, s1)" by fastforce
  note frame = release_one_frame [OF run]
  have "queue_inv s1"
    by (rule queue_inv_release_one [OF Cons.prems(1) run bspec [OF Cons.prems(2)]]) simp
  moreover have "\<forall>tok \<in> set toks. \<forall>t \<in> set (tokens s1). q_id t = q_id tok \<longrightarrow> q_event t = ev"
    using zip_map_mem [of q_id "tokens s1" "tokens s" q_event] frame Cons.prems(2)
    by (meson list.set_intros(2))
  ultimately show ?case using Cons.IH [of s1] run
    by (cases "release_listed new_id ev expires toks s1") simp
qed simp

lemma list_waiting_tokens_in:
  "t \<in> set (list_waiting_tokens ev n s) \<Longrightarrow>
     t \<in> set (tokens s) \<and> q_event t = ev \<and> q_status t = TokWaiting"
  unfolding list_waiting_tokens_def by (auto dest: in_set_takeD)

lemma queue_inv_release:
  assumes inv: "queue_inv s" shows "queue_inv (snd (release new_id now window ev n s))"
proof -
  have "\<forall>tok \<in> set (list_waiting_tokens ev (nat n) s). \<forall>t \<in> set (tokens s). q_id t = q_id tok \<longrightarrow> q_event t = ev"
    using inv distinct_key_unique [of q_id "tokens s"]
    by (auto simp: queue_inv_def dest!: list_waiting_tokens_in)
  from queue_inv_release_listed [OF inv this, of new_id "now + window"] inv show ?thesis
    by (cases "release_listed new_id ev (now + window) (list_waiting_tokens ev (nat n) s) s")
      (simp add: release_def)
qed

lemma queue_inv_release_job: "queue_inv s \<Longrightarrow> queue_inv (release_job new_id now window s)"
proof -
  have step: "queue_inv s \<Longrightarrow> queue_inv (release_job_event new_id now window ev s)" for ev s
    by (simp add: release_job_event_def queue_inv_release split: option.split)
  have "queue_inv s \<Longrightarrow> queue_inv (fold (release_job_event new_id now window) evs s)" for evs
    by (induction evs arbitrary: s) (simp_all add: step)
  then show "queue_inv s \<Longrightarrow> ?thesis" by (simp add: release_job_def)
qed

section \<open>How many are released, and who\<close>

text \<open>What the foreign keys of a token guarantee, and ids that are really new.\<close>

definition queue_refs :: "db \<Rightarrow> bool" where
  "queue_refs s \<longleftrightarrow> (\<forall>t \<in> set (tokens s). q_event t \<in> e_id ` set (events s) \<and>
     q_participant t \<in> u_id ` set (users s))"

definition fresh_ids :: "(uuid \<Rightarrow> uuid) \<Rightarrow> db \<Rightarrow> bool" where
  "fresh_ids new_id s \<longleftrightarrow> inj_on new_id (q_id ` set (tokens s)) \<and>
     new_id ` q_id ` set (tokens s) \<inter> a_id ` set (admissions s) = {}"

lemma release_one_promotes:
  assumes inv: "queue_inv s" and refs: "queue_refs s"
    and t: "t \<in> set (tokens s)" "q_status t = TokWaiting" "q_event t = ev"
    and new: "new_id (q_id t) \<notin> a_id ` set (admissions s)"
  shows "release_one new_id ev expires t s = (Inr True, s\<lparr>tokens := upd (\<lambda>x. q_id x = q_id t \<and> q_status x = TokWaiting)
      (\<lambda>x. x\<lparr>q_status := TokAllowed\<rparr>) (tokens s),
    admissions := admissions s @ [\<lparr> a_id = new_id (q_id t), a_token = q_id t, a_event = ev,
      a_participant = q_participant t, a_expires_at = expires, a_status = AdmActive \<rparr>]\<rparr>)"
proof -
  let ?P = "\<lambda>x. q_id x = q_id t \<and> q_status x = TokWaiting"
  have same: "x = t" if "x \<in> set (tokens s)" "q_id x = q_id t" for x
    using distinct_key_unique [of q_id "tokens s" x t] inv that t(1) by (simp add: queue_inv_def)
  have sel: "sel ?P (tokens s) = Some t"
  proof (cases "sel ?P (tokens s)")
    case None
    with t show ?thesis by (auto dest: sel_NoneD)
  next
    case (Some x)
    with same show ?thesis by (auto dest: sel_SomeD)
  qed
  have "\<not> (\<exists>a \<in> set (admissions s). a_token a = q_id t \<and> a_status a = AdmActive)"
  proof
    assume "\<exists>a \<in> set (admissions s). a_token a = q_id t \<and> a_status a = AdmActive"
    then obtain x where "x \<in> set (tokens s)" "q_id x = q_id t" "allowed x"
      using inv unfolding queue_inv_def linked_def active_adm_def by fastforce
    with same [of x] t(2) show False by (simp add: allowed_def)
  qed
  moreover have "ev \<in> e_id ` set (events s)" "q_participant t \<in> u_id ` set (users s)"
    using refs t by (auto simp: queue_refs_def)
  moreover have "q_id t \<in> q_id ` set (upd ?P (\<lambda>x. x\<lparr>q_status := TokAllowed\<rparr>) (tokens s))"
  proof -
    have "map q_id (upd ?P (\<lambda>x. x\<lparr>q_status := TokAllowed\<rparr>) (tokens s)) = map q_id (tokens s)"
      by (rule map_upd) simp
    with t(1) show ?thesis by (metis imageI set_map)
  qed
  ultimately show ?thesis using sel new
    by (simp add: release_one_def exec_tx_def mark_token_allowed_def upd_one_def create_admission_def Let_def)
qed

lemma release_listed_promotes_all:
  assumes "queue_inv s" "queue_refs s" "distinct (map q_id toks)"
    and "\<forall>t \<in> set toks. t \<in> set (tokens s) \<and> q_status t = TokWaiting \<and> q_event t = ev"
    and "inj_on new_id (q_id ` set toks)" "new_id ` q_id ` set toks \<inter> a_id ` set (admissions s) = {}"
    and "release_listed new_id ev expires toks s = (k, s')"
  shows "k = length toks \<and> tokens s' = upd (\<lambda>t. q_id t \<in> q_id ` set toks \<and> q_status t = TokWaiting)
    (\<lambda>t. t\<lparr>q_status := TokAllowed\<rparr>) (tokens s)"
  using assms
proof (induction toks arbitrary: s k)
  case Nil
  then show ?case by (simp add: upd_no_match)
next
  case (Cons t toks)
  from Cons.prems(4) have t: "t \<in> set (tokens s)" "q_status t = TokWaiting" "q_event t = ev" by auto
  have "new_id (q_id t) \<notin> a_id ` set (admissions s)" using Cons.prems(6) by auto
  note run = release_one_promotes [where new_id = new_id and expires = expires, OF Cons.prems(1,2) t this]
  define s1 where "s1 = snd (release_one new_id ev expires t s)"
  have s1: "tokens s1 = upd (\<lambda>x. q_id x = q_id t \<and> q_status x = TokWaiting)
      (\<lambda>x. x\<lparr>q_status := TokAllowed\<rparr>) (tokens s)" "events s1 = events s" "users s1 = users s"
    "a_id ` set (admissions s1) = insert (new_id (q_id t)) (a_id ` set (admissions s))"
    and run1: "release_one new_id ev expires t s = (Inr True, s1)"
    unfolding s1_def by (simp_all add: run)
  have "queue_inv s1"
    using queue_inv_release_one [OF Cons.prems(1) run1] distinct_key_unique [of q_id "tokens s" _ t]
      Cons.prems(1) t by (auto simp: queue_inv_def)
  moreover have "queue_refs s1"
    using Cons.prems(2) unfolding queue_refs_def s1(1) ball_upd by (simp add: s1)
  moreover have "\<forall>x \<in> set toks. x \<in> set (tokens s1) \<and> q_status x = TokWaiting \<and> q_event x = ev"
    using Cons.prems(3,4) unfolding s1(1) by (auto intro!: upd_keeps simp: image_iff)
  moreover have "new_id ` q_id ` set toks \<inter> a_id ` set (admissions s1) = {}"
  proof -
    have "new_id (q_id t) \<notin> new_id ` q_id ` set toks"
      using Cons.prems(3,5) by (auto simp: inj_on_def)
    with Cons.prems(6) show ?thesis by (auto simp: s1(4))
  qed
  moreover obtain k1 where rest: "release_listed new_id ev expires toks s1 = (k1, s')"
    using Cons.prems(7) run1 by (auto split: prod.splits)
  ultimately have IH: "k1 = length toks \<and> tokens s' = upd (\<lambda>t. q_id t \<in> q_id ` set toks \<and> q_status t = TokWaiting)
    (\<lambda>t. t\<lparr>q_status := TokAllowed\<rparr>) (tokens s1)"
    using Cons.IH [of s1 k1] Cons.prems(3,5) by (auto simp: inj_on_def)
  have "upd (\<lambda>t. q_id t \<in> A \<and> q_status t = TokWaiting) (\<lambda>t. t\<lparr>q_status := TokAllowed\<rparr>)
      (upd (\<lambda>x. q_id x = j \<and> q_status x = TokWaiting) (\<lambda>x. x\<lparr>q_status := TokAllowed\<rparr>) ts)
      = upd (\<lambda>t. q_id t \<in> insert j A \<and> q_status t = TokWaiting) (\<lambda>t. t\<lparr>q_status := TokAllowed\<rparr>) ts"
    for A j ts by (induction ts) auto
  with IH s1(1) rest run1 Cons.prems(7) show ?case by auto
qed

section \<open>Properties\<close>

text \<open>C37: Every operation of the waiting room keeps tokens and admissions together: an ALLOWED token
  has exactly one ACTIVE admission, an ACTIVE admission belongs to the ALLOWED token of the same
  event and participant, and nobody has two tokens for an event. Joining, releasing, checking out
  and expiring all keep it, on every branch.\<close>

theorem queue_inv_preserved:
  assumes "queue_inv s"
  shows "queue_inv (snd (join digest now tid org ev p s)) \<and>
    queue_inv (snd (release new_id now window ev n s)) \<and>
    queue_inv (release_job new_id now window s) \<and>
    queue_inv (snd (consume_on_checkout p ev s)) \<and>
    queue_inv (snd (expire_due lim now s))"
  using assms by (simp add: queue_inv_join queue_inv_release queue_inv_release_job
      queue_inv_consume_on_checkout queue_inv_expire_due)

definition demo_token :: "uuid \<Rightarrow> queue_pool \<Rightarrow> int \<Rightarrow> queue_token" where
  "demo_token i pool sc = \<lparr> q_id = i, q_org = 1, q_event = 2, q_participant = 100 + i,
     q_status = TokWaiting, q_pool = pool, q_score = sc \<rparr>"

definition demo_queue :: db where
  "demo_queue = empty_db\<lparr>events := [\<lparr>e_id = 2, e_org = 1, e_name = [], e_status = []\<rparr>],
     users := map (\<lambda>i. \<lparr>u_id = i, u_full_name = [], u_email = [], u_membership = None\<rparr>) [101, 102, 103],
     tokens := [demo_token 1 PoolFifo 50, demo_token 2 PoolPresale 900, demo_token 3 PoolFifo 40]\<rparr>"

lemma demo_queue_ok: "queue_inv demo_queue" "queue_refs demo_queue" "fresh_ids (\<lambda>i. 10 + i) demo_queue"
  by (simp_all add: queue_inv_def queue_refs_def fresh_ids_def demo_queue_def demo_token_def empty_db_def
      linked_def allowed_def inj_on_def)

theorem queue_inv_preserved_witness:
  "queue_inv (snd (release (\<lambda>i. 10 + i) 0 60 2 2 demo_queue)) \<and>
   map a_token (admissions (snd (release (\<lambda>i. 10 + i) 0 60 2 2 demo_queue))) = [2, 3]"
proof -
  have "map a_token (admissions (snd (release (\<lambda>i. 10 + i) 0 60 2 2 demo_queue))) = [2, 3]" by code_simp
  with queue_inv_preserved [OF demo_queue_ok(1), of "\<lambda>_ _. 0" 0 1 1 2 1 "\<lambda>i. 10 + i" 60 2 1] show ?thesis
    by simp
qed

text \<open>\<open>Release\<close> lets in as many as it was asked for, or all who wait, and lets them in by turn: with
  ids that are new, exactly the first \<open>min n waiting\<close> tokens of the line (PRESALE before FIFO, then by
  score) become ALLOWED, so nobody who still waits was ahead of somebody who was let in.\<close>

theorem release_in_order:
  assumes "queue_inv s" and "queue_refs s" and "fresh_ids new_id s" and "0 < n"
    and "release new_id now window ev n s = (k, s')"
  shows "k = min (nat n) (cnt (\<lambda>t. q_event t = ev \<and> q_status t = TokWaiting) (tokens s)) \<and>
    (\<forall>t \<in> set (tokens s). \<forall>u \<in> set (tokens s'). q_event t = ev \<and> q_status t = TokWaiting \<and>
       (\<exists>t' \<in> set (tokens s'). q_id t' = q_id t \<and> q_status t' = TokAllowed) \<and>
       q_event u = ev \<and> q_status u = TokWaiting \<longrightarrow> (q_pool t, q_score t) \<le> (q_pool u, q_score u))"
proof -
  let ?key = "\<lambda>t. (q_pool t, q_score t)"
  let ?W = "filter (\<lambda>t. q_event t = ev \<and> q_status t = TokWaiting) (tokens s)"
  let ?L = "list_waiting_tokens ev (nat n) s"
  have L: "?L = take (nat n) (sort_key ?key ?W)" by (simp add: list_waiting_tokens_def)
  have ids: "distinct (map q_id (tokens s))" using assms(1) by (simp add: queue_inv_def)
  then have "distinct (map q_id ?W)" by (rule distinct_map_filter)
  then have "distinct (map q_id (sort_key ?key ?W))" unfolding distinct_map by simp
  then have dL: "distinct (map q_id ?L)" unfolding L take_map [symmetric] by (rule distinct_take)
  have mem: "\<forall>t \<in> set ?L. t \<in> set (tokens s) \<and> q_status t = TokWaiting \<and> q_event t = ev"
    using list_waiting_tokens_in by blast
  have sub: "q_id ` set ?L \<subseteq> q_id ` set (tokens s)" using mem by auto
  obtain s1 where run: "release_listed new_id ev (now + window) ?L s = (k, s1)" and s': "tokens s' = tokens s1"
    using assms(4,5) by (auto simp: release_def split: prod.splits if_splits)
  from release_listed_promotes_all [OF assms(1,2) dL mem _ _ run] assms(3) sub
  have rel: "k = length ?L" "tokens s' = upd (\<lambda>t. q_id t \<in> q_id ` set ?L \<and> q_status t = TokWaiting)
      (\<lambda>t. t\<lparr>q_status := TokAllowed\<rparr>) (tokens s)"
    unfolding fresh_ids_def s' by (blast intro: inj_on_subset)+
  have "k = min (nat n) (cnt (\<lambda>t. q_event t = ev \<and> q_status t = TokWaiting) (tokens s))"
    by (simp add: rel(1) L cnt_def min.commute)
  moreover have "?key t \<le> ?key u"
    if t: "t \<in> set (tokens s)" "q_event t = ev" "q_status t = TokWaiting"
      "\<exists>t' \<in> set (tokens s'). q_id t' = q_id t \<and> q_status t' = TokAllowed"
    and u: "u \<in> set (tokens s')" "q_event u = ev" "q_status u = TokWaiting" for t u
  proof -
    have "t \<in> set ?L"
    proof (rule ccontr)
      assume "t \<notin> set ?L"
      then have no: "q_id t \<notin> q_id ` set ?L"
        using mem distinct_key_unique [OF ids _ t(1)] by auto
      from t(4) obtain t' where t': "t' \<in> set (tokens s')" "q_id t' = q_id t" "q_status t' = TokAllowed" by blast
      from t'(1)[unfolded rel(2)] show False
      proof (cases rule: upd_cases)
        case kept
        with distinct_key_unique [OF ids kept(1) t(1)] t'(2,3) t(3) show False by simp
      next
        case (changed x)
        with t'(2) no show False by simp
      qed
    qed
    moreover have "u \<in> set ?W - set ?L"
    proof -
      from u(1)[unfolded rel(2)] show ?thesis
      proof (cases rule: upd_cases)
        case kept
        with u show ?thesis by auto
      next
        case (changed x)
        with u(3) show ?thesis by simp
      qed
    qed
    ultimately have "t \<in> set (take (nat n) (sort_key ?key ?W))" "u \<in> set (drop (nat n) (sort_key ?key ?W))"
      using set_append [of "take (nat n) (sort_key ?key ?W)" "drop (nat n) (sort_key ?key ?W)"]
      unfolding L by auto
    moreover have "sorted (map ?key (take (nat n) (sort_key ?key ?W) @ drop (nat n) (sort_key ?key ?W)))"
      by simp
    ultimately show ?thesis unfolding map_append sorted_append by auto
  qed
  ultimately show ?thesis by blast
qed

theorem release_in_order_witness:
  "fst (release (\<lambda>i. 10 + i) 0 60 2 2 demo_queue) = 2 \<and>
   map q_status (tokens (snd (release (\<lambda>i. 10 + i) 0 60 2 2 demo_queue))) = [TokWaiting, TokAllowed, TokAllowed]"
proof -
  have "cnt (\<lambda>t. q_event t = 2 \<and> q_status t = TokWaiting) (tokens demo_queue) = 3" by code_simp
  moreover have "map q_status (tokens (snd (release (\<lambda>i. 10 + i) 0 60 2 2 demo_queue)))
      = [TokWaiting, TokAllowed, TokAllowed]" by code_simp
  ultimately show ?thesis
    using release_in_order [OF demo_queue_ok _ surjective_pairing, of 2 0 60 2] by simp
qed

lemma join_place_mode: "join_place digest now ev p s \<noteq> None \<longleftrightarrow> is_queue_mode (resolve_event_mode ev s)"
  by (cases "resolve_event_mode ev s")
    (auto simp: join_place_def is_queue_mode_def split: option.split)

text \<open>Joining is idempotent: whoever has joined gets the same token on every later call, whatever
  fresh id, clock and schedule the call comes with, and nothing changes.\<close>

theorem join_idempotent:
  assumes "join digest now tid org ev p s = (Inr t, s1)"
  shows "join digest' now' tid' org' ev p s1 = (Inr t, s1) \<and> q_event t = ev \<and> q_participant t = p"
proof -
  from assms obtain pool score where pl: "join_place digest now ev p s = Some (pool, score)"
    by (auto simp: join_def split: option.splits)
  obtain r s2 where run: "create_queue_token tid org ev p pool score s = (r, s2)" by fastforce
  have "get_token_by_event_participant ev p s1 = Some t \<and> event_modes s1 = event_modes s"
  proof (cases r)
    case (Inl e)
    with create_queue_token_Inl run have "s2 = s" by blast
    with Inl run pl assms show ?thesis by (auto simp: join_def split: if_splits)
  next
    case (Inr t')
    note new = create_queue_token_Inr [OF run [unfolded Inr]]
    from Inr run pl assms have "t' = t" "s1 = audit ''QUEUE_TOKEN_ISSUED'' (q_id t) s2"
      by (auto simp: join_def)
    with new show ?thesis
      by (auto simp: get_token_by_event_participant_def sel_append audit_def)
  qed
  then have tok: "get_token_by_event_participant ev p s1 = Some t"
    and mode: "resolve_event_mode ev s1 = resolve_event_mode ev s"
    by (auto simp: resolve_event_mode_def get_event_registration_settings_def)
  from pl join_place_mode [of digest now ev p s] mode join_place_mode [of digest' now' ev p s1]
  obtain pool' score' where "join_place digest' now' ev p s1 = Some (pool', score')" by auto
  moreover have "create_queue_token tid' org' ev p pool' score' s1 = (Inl NoRows, s1)"
    by (simp add: create_queue_token_def tok)
  ultimately show ?thesis using tok
    by (auto simp: join_def get_token_by_event_participant_def dest: sel_SomeD)
qed

definition demo_join :: db where
  "demo_join = demo_queue\<lparr>event_modes := [\<lparr>es_event = 2, es_default_mode = ModeWarQueue,
     es_queue_enabled = True, es_ballot_enabled = False, es_priority_enabled = False,
     es_waitlist_enabled = False\<rparr>], users := \<lparr>u_id = 9, u_full_name = [], u_email = [],
     u_membership = None\<rparr> # users demo_queue\<rparr>"

theorem join_idempotent_witness:
  "\<exists>t s1. join (\<lambda>_ _. 0) 5 77 1 2 9 demo_join = (Inr t, s1) \<and>
     join (\<lambda>_ _. 0) 6 78 1 2 9 s1 = (Inr t, s1) \<and> q_id t = 77 \<and> length (tokens s1) = 4"
proof -
  let ?r = "join (\<lambda>_ _. 0) 5 77 1 2 9 demo_join"
  have "map_sum id q_id (fst ?r) = Inr 77" "length (tokens (snd ?r)) = 4" by code_simp+
  then obtain t where "?r = (Inr t, snd ?r)" "q_id t = 77"
    by (cases ?r; cases "fst ?r") auto
  with join_idempotent [OF this(1), of "\<lambda>_ _. 0" 6 78 1] \<open>length (tokens (snd ?r)) = 4\<close> show ?thesis by blast
qed

text \<open>A token that is not WAITING is skipped, and stays so.\<close>

definition not_waiting :: "uuid \<Rightarrow> db \<Rightarrow> bool" where
  "not_waiting tid s \<longleftrightarrow> (\<forall>t \<in> set (tokens s). q_id t = tid \<longrightarrow> q_status t \<noteq> TokWaiting)"

lemma release_one_not_waiting:
  assumes "not_waiting (q_id tok) s"
  shows "release_one new_id ev expires tok s = (Inr False, s)"
proof -
  have "sel (\<lambda>t. q_id t = q_id tok \<and> q_status t = TokWaiting) (tokens s) = None"
    using assms by (auto simp: sel_None_iff not_waiting_def)
  then show ?thesis
    by (simp add: release_one_def exec_tx_def mark_token_allowed_def upd_one_def)
qed

lemma not_waiting_release_one:
  assumes "release_one new_id ev expires tok s = (r, s1)"
  shows "not_waiting tid s \<Longrightarrow> not_waiting tid s1" and "r = Inr True \<Longrightarrow> not_waiting (q_id tok) s1"
  using assms by (cases rule: release_one_cases; simp add: not_waiting_def ball_upd)+

lemma not_waiting_release_listed:
  "release_listed new_id ev expires toks s = (k, s1) \<Longrightarrow>
     (not_waiting tid s \<longrightarrow> not_waiting tid s1) \<and> k \<le> length toks \<and>
     (k = length toks \<longrightarrow> (\<forall>tok \<in> set toks. not_waiting (q_id tok) s1))"
proof (induction toks arbitrary: s k tid)
  case (Cons tok toks)
  obtain r s2 where one: "release_one new_id ev expires tok s = (r, s2)" by fastforce
  obtain k2 where rest: "release_listed new_id ev expires toks s2 = (k2, s1)"
    and k: "k = (if r = Inr True then k2 + 1 else k2)"
    using Cons.prems one by (auto split: prod.splits)
  show ?case
    using Cons.IH [OF rest, of tid] Cons.IH [OF rest, of "q_id tok"] not_waiting_release_one [OF one] k
    by (auto split: if_splits)
qed simp

text \<open>Two workers that listed the same waiting tokens let each of them in once: after one worker has
  released all of its list, the other promotes none of them and changes nothing, whatever ids it
  draws.\<close>

theorem release_at_most_once:
  assumes "release_listed new_id ev expires toks s = (length toks, s1)"
  shows "release_listed new_id' ev' expires' toks s1 = (0, s1)"
proof -
  have "release_listed new_id' ev' expires' us s1 = (0, s1)" if "\<forall>tok \<in> set us. not_waiting (q_id tok) s1" for us
    using that by (induction us) (simp_all add: release_one_not_waiting)
  with not_waiting_release_listed [OF assms] show ?thesis by simp
qed

theorem release_at_most_once_witness:
  "\<exists>s1. release_listed (\<lambda>i. 10 + i) 2 60 (list_waiting_tokens 2 3 demo_queue) demo_queue = (3, s1) \<and>
     release_listed (\<lambda>i. 20 + i) 2 61 (list_waiting_tokens 2 3 demo_queue) s1 = (0, s1)"
proof -
  let ?L = "list_waiting_tokens 2 3 demo_queue"
  let ?r = "release_listed (\<lambda>i. 10 + i) 2 60 ?L demo_queue"
  have "fst ?r = length ?L" "length ?L = 3" by code_simp+
  then have "?r = (length ?L, snd ?r)" "?r = (3, snd ?r)" by (metis prod.collapse)+
  with release_at_most_once [OF this(1), of "\<lambda>i. 20 + i" 2 61] show ?thesis by blast
qed

text \<open>An admission that lapses does not always send its holder to the back of the line: the token
  keeps its pool, so a PRESALE token waits in front of every FIFO token again, although the service's
  comment promises the back of the WAITING line.\<close>

theorem expired_presale_token_goes_first:
  assumes "queue_inv s" and "a \<in> set (admissions s)" and "a_status a = AdmActive"
    and "t \<in> set (tokens s)" and "q_id t = a_token a" and "q_pool t = PoolPresale"
  shows "\<exists>t' \<in> set (tokens (expire_one now a s)). q_id t' = q_id t \<and> q_status t' = TokWaiting \<and>
    (\<forall>u \<in> set (tokens (expire_one now a s)). q_pool u = PoolFifo \<longrightarrow>
       (q_pool t', q_score t') < (q_pool u, q_score u))"
proof -
  let ?f = "\<lambda>t. t\<lparr>q_status := TokWaiting, q_score := fifo_score now\<rparr>"
  from assms(1-3) obtain x where x: "x \<in> set (tokens s)" "q_id x = a_token a" "allowed x"
    unfolding queue_inv_def linked_def active_adm_def by blast
  with assms distinct_key_unique [of q_id "tokens s" x t] have "allowed t" by (simp add: queue_inv_def)
  then have "?f t \<in> set (upd (\<lambda>t. q_id t = a_token a \<and> q_status t = TokAllowed) ?f (tokens s))"
    using assms(4,5) by (intro upd_changed) (auto simp: allowed_def)
  then have "?f t \<in> set (tokens (expire_one now a s))"
    by (simp add: expire_one_def requeue_token_def expire_admission_def set_admission_status_def)
  then show ?thesis using assms(6)
    by (intro bexI [of _ "?f t"]) (auto simp: less_prod_def less_queue_pool_def)
qed

theorem expired_presale_token_goes_first_witness:
  "map q_id (list_waiting_tokens 2 3
     (snd (expire_due 5 100 (snd (release (\<lambda>i. 10 + i) 0 60 2 1 demo_queue))))) = [2, 3, 1] \<and>
   (\<exists>t' \<in> set (tokens (expire_one 100 (hd (admissions (snd (release (\<lambda>i. 10 + i) 0 60 2 1 demo_queue))))
       (snd (release (\<lambda>i. 10 + i) 0 60 2 1 demo_queue)))). q_id t' = 2 \<and> q_status t' = TokWaiting)"
proof -
  let ?s = "snd (release (\<lambda>i. 10 + i) 0 60 2 1 demo_queue)"
  have "map q_id (list_waiting_tokens 2 3 (snd (expire_due 5 100 ?s))) = [2, 3, 1]" by code_simp
  moreover have inv: "queue_inv ?s" by (rule queue_inv_release [OF demo_queue_ok(1)])
  have a: "hd (admissions ?s) \<in> set (admissions ?s)" "a_status (hd (admissions ?s)) = AdmActive"
    "tokens ?s ! 1 \<in> set (tokens ?s)" "q_id (tokens ?s ! 1) = a_token (hd (admissions ?s))"
    "q_pool (tokens ?s ! 1) = PoolPresale" "q_id (tokens ?s ! 1) = 2" by code_simp+
  from expired_presale_token_goes_first [OF inv a(1-5), of 100] a(6)
  have "\<exists>t' \<in> set (tokens (expire_one 100 (hd (admissions ?s)) ?s)). q_id t' = 2 \<and> q_status t' = TokWaiting"
    by auto
  ultimately show ?thesis by simp
qed

text \<open>A seeded presale score is a non-negative int64, so it can be stored and ordered, for every
  digest the hash gives.\<close>

theorem presale_score_bounds:
  "0 \<le> presale_score digest seed p \<and> presale_score digest seed p < 2 ^ 63"
proof -
  have "uint (drop_bit 1 (digest seed p)) = uint (digest seed p) div 2"
    by (simp add: drop_bit_eq_div uint_div)
  moreover have "uint (digest seed p) < 2 ^ 64" using uint_lt2p [of "digest seed p"] by simp
  ultimately have small: "uint (drop_bit 1 (digest seed p)) < 2 ^ 63" by simp
  have "sint (drop_bit 1 (digest seed p)) = uint (drop_bit 1 (digest seed p))"
  proof -
    have "- (2 ^ 63) \<le> uint (drop_bit 1 (digest seed p))"
      by (rule order_trans [OF _ uint_ge_0]) simp
    then have "signed_take_bit 63 (uint (drop_bit 1 (digest seed p))) = uint (drop_bit 1 (digest seed p))"
      using small by (rule signed_take_bit_int_eq_self)
    then show ?thesis by (simp add: sint_uint)
  qed
  with small show ?thesis by (simp add: presale_score_def)
qed

end
