(* ===== verification/Tickets.thy ===== *)
theory Tickets
  imports Schema
begin

text \<open>
  Tickets (\<open>services/api/internal/modules/tickets\<close>): the queries, the issuer that turns a paid
  order into its ticket, BIB numbers (automatic, manual, bulk), and what a participant may read.
\<close>

section \<open>Queries\<close>

text \<open>\<open>INSERT INTO tickets .. ON CONFLICT (order_id) DO NOTHING RETURNING ..\<close>: no row comes back
  when the order has a ticket; the other constraints of migration 18 fail the statement.\<close>

definition create_ticket :: "ticket \<Rightarrow> db \<Rightarrow> ticket res \<times> db" where
  "create_ticket t s =
     (if t_order t \<in> t_order ` set (tickets s) then (Inl NoRows, s)
      else if t_id t \<in> t_id ` set (tickets s) then (Inl (UniqueViolation ''tickets_pkey''), s)
      else if t_number t \<in> t_number ` set (tickets s) then
        (Inl (UniqueViolation ''tickets_ticket_number_key''), s)
      else if t_event t \<notin> e_id ` set (events s) then
        (Inl (ForeignKeyViolation ''tickets_event_id_fkey''), s)
      else if t_category t \<notin> c_id ` set (categories s) then
        (Inl (ForeignKeyViolation ''tickets_category_id_fkey''), s)
      else if t_order t \<notin> o_id ` set (orders s) then
        (Inl (ForeignKeyViolation ''tickets_order_id_fkey''), s)
      else if (case t_participant t of None \<Rightarrow> False | Some u \<Rightarrow> u \<notin> u_id ` set (users s)) then
        (Inl (ForeignKeyViolation ''tickets_participant_id_fkey''), s)
      else (Inr t, s\<lparr>tickets := tickets s @ [t]\<rparr>))"

definition get_ticket_by_id :: "uuid \<Rightarrow> db \<Rightarrow> ticket option" where
  "get_ticket_by_id tid s = sel (\<lambda>t. t_id t = tid) (tickets s)"

definition get_ticket_by_order_id :: "uuid \<Rightarrow> db \<Rightarrow> ticket option" where
  "get_ticket_by_order_id oid s = sel (\<lambda>t. t_order t = oid) (tickets s)"

definition list_tickets_by_participant :: "uuid \<Rightarrow> db \<Rightarrow> ticket list" where
  "list_tickets_by_participant u s = rev (filter (\<lambda>t. t_participant t = Some u) (tickets s))"

definition list_tickets_by_event :: "uuid \<Rightarrow> uuid \<Rightarrow> db \<Rightarrow> ticket list" where
  "list_tickets_by_event org ev s =
     rev (filter (\<lambda>t. t_org t = org \<and> t_event t = ev) (tickets s))"

definition list_unassigned_tickets_by_event :: "uuid \<Rightarrow> db \<Rightarrow> ticket list" where
  "list_unassigned_tickets_by_event ev s =
     filter (\<lambda>t. t_event t = ev \<and> t_bib t = None \<and> t_status t = TixValid) (tickets s)"

text \<open>The partial unique index on \<open>(event_id, bib_number)\<close>, and the ticket row the UPDATE is for.\<close>

definition bib_taken :: "uuid \<Rightarrow> uuid \<Rightarrow> string \<Rightarrow> db \<Rightarrow> bool" where
  "bib_taken tid ev bib s \<longleftrightarrow> (\<exists>t \<in> set (tickets s). t_id t \<noteq> tid \<and> t_event t = ev \<and> t_bib t = Some bib)"

definition assign_bib_row ::
  "uuid \<Rightarrow> string \<Rightarrow> uuid \<Rightarrow> bib_method \<Rightarrow> time \<Rightarrow> db \<Rightarrow> ticket res \<times> db" where
  "assign_bib_row tid bib actor meth now s =
     (case get_ticket_by_id tid s of
        None \<Rightarrow> (Inl NoRows, s)
      | Some t \<Rightarrow>
          if bib_taken tid (t_event t) bib s then
            (Inl (UniqueViolation ''uniq_tickets_event_bib''), s)
          else if actor \<notin> u_id ` set (users s) then
            (Inl (ForeignKeyViolation ''tickets_bib_assigned_by_fkey''), s)
          else
            let f = (\<lambda>t. t\<lparr>t_bib := Some bib, t_bib_assigned_at := Some now,
                           t_bib_assigned_by := Some actor, t_bib_method := Some meth\<rparr>)
            in (Inr (f t), s\<lparr>tickets := upd (\<lambda>t. t_id t = tid) f (tickets s)\<rparr>))"

definition clear_bib_row :: "uuid \<Rightarrow> db \<Rightarrow> ticket res \<times> db" where
  "clear_bib_row tid s =
     (case upd_one (\<lambda>t. t_id t = tid)
             (\<lambda>t. t\<lparr>t_bib := None, t_bib_assigned_at := None, t_bib_assigned_by := None,
                    t_bib_method := None\<rparr>) (tickets s) of
        None \<Rightarrow> (Inl NoRows, s)
      | Some (t, ts) \<Rightarrow> (Inr t, s\<lparr>tickets := ts\<rparr>))"

text \<open>The values of the purely numeric BIBs of an event. \<open>::bigint\<close> fails on a value beyond
  63 bits, and with it the whole SELECT.\<close>

definition numeric_bibs :: "uuid \<Rightarrow> db \<Rightarrow> nat list" where
  "numeric_bibs ev s = List.map_filter
     (\<lambda>t. if t_event t = ev then Option.bind (t_bib t) dec_val else None) (tickets s)"

definition get_next_bib_numeric :: "uuid \<Rightarrow> db \<Rightarrow> int res" where
  "get_next_bib_numeric ev s =
     (if \<exists>n \<in> set (numeric_bibs ev s). 9223372036854775807 < int n then Inl NumericOutOfRange
      else Inr (int (fold max (numeric_bibs ev s) 0)))"

definition mark_ticket_used :: "uuid \<Rightarrow> time \<Rightarrow> db \<Rightarrow> ticket res \<times> db" where
  "mark_ticket_used tid at s =
     (case upd_one (\<lambda>t. t_id t = tid \<and> t_status t = TixValid)
             (\<lambda>t. t\<lparr>t_status := TixUsed, t_used_at := Some at\<rparr>) (tickets s) of
        None \<Rightarrow> (Inl NoRows, s)
      | Some (t, ts) \<Rightarrow> (Inr t, s\<lparr>tickets := ts\<rparr>))"

definition link_ticket_to_participant :: "uuid \<Rightarrow> uuid \<Rightarrow> db \<Rightarrow> ticket res \<times> db" where
  "link_ticket_to_participant oid u s =
     (case upd_one (\<lambda>t. t_order t = oid \<and> t_participant t = None)
             (\<lambda>t. t\<lparr>t_participant := Some u\<rparr>) (tickets s) of
        None \<Rightarrow> (Inl NoRows, s)
      | Some (t, ts) \<Rightarrow> (Inr t, s\<lparr>tickets := ts\<rparr>))"

definition update_ticket_participant ::
  "uuid \<Rightarrow> string \<Rightarrow> string \<Rightarrow> uuid \<Rightarrow> uuid \<Rightarrow> string option \<Rightarrow> db \<Rightarrow> ticket res \<times> db" where
  "update_ticket_participant tid name email org ev answers s =
     (case upd_one (\<lambda>t. t_id t = tid \<and> t_org t = org \<and> t_event t = ev)
             (\<lambda>t. t\<lparr>t_holder_name := name, t_holder_email := email,
                    t_form_answers := (case answers of None \<Rightarrow> t_form_answers t | Some a \<Rightarrow> a)\<rparr>)
             (tickets s) of
        None \<Rightarrow> (Inl NoRows, s)
      | Some (t, ts) \<Rightarrow> (Inr t, s\<lparr>tickets := ts\<rparr>))"

section \<open>Issuer\<close>

definition generate_ticket_number :: "string \<Rightarrow> nat list \<Rightarrow> string" where
  "generate_ticket_number day rnd = random_number ''TIX-'' day rnd"

text \<open>The holder is the participant, or the guest of the order.\<close>

definition ticket_holder :: "order \<Rightarrow> db \<Rightarrow> (string \<times> string) res" where
  "ticket_holder x s =
     (case o_participant x of
        Some u \<Rightarrow> (case sel (\<lambda>r. u_id r = u) (users s) of
           None \<Rightarrow> Inl NoRows
         | Some r \<Rightarrow> Inr (u_full_name r, u_email r))
      | None \<Rightarrow>
          let name = (case o_guest_name x of None \<Rightarrow> [] | Some n \<Rightarrow> n)
          in Inr (if name = [] then ''Guest'' else name,
                  case o_guest_email x of None \<Rightarrow> [] | Some e \<Rightarrow> e))"

definition new_ticket ::
  "uuid \<Rightarrow> string \<Rightarrow> nat list \<Rightarrow> order \<Rightarrow> string \<times> string \<Rightarrow> event \<Rightarrow> category \<Rightarrow> ticket" where
  "new_ticket tid day rnd x holder e c =
     \<lparr> t_id = tid, t_org = o_org x, t_event = o_event x, t_category = o_category x,
       t_order = o_id x, t_participant = o_participant x,
       t_number = generate_ticket_number day rnd, t_status = TixValid,
       t_holder_name = fst holder, t_holder_email = snd holder,
       t_event_title = e_name e, t_category_name = c_name c, t_qr_version = 1,
       t_form_answers = (if o_form_answers x = [] then ''{}'' else o_form_answers x),
       t_used_at = None, t_bib = None, t_bib_assigned_at = None, t_bib_assigned_by = None,
       t_bib_method = None \<rparr>"

definition issue_with :: "uuid \<Rightarrow> string \<Rightarrow> nat list \<Rightarrow> order \<Rightarrow> db \<Rightarrow> unit res \<times> db" where
  "issue_with tid day rnd x s =
     and_then (ticket_holder x s, s) (\<lambda>holder s.
     and_then (found NoRows (sel (\<lambda>e. e_id e = o_event x) (events s)) s) (\<lambda>e s.
     and_then (found NoRows (sel (\<lambda>c. c_id c = o_category x) (categories s)) s) (\<lambda>c s.
     case create_ticket (new_ticket tid day rnd x holder e c) s of
       (Inr t, s) \<Rightarrow> (Inr (), audit ''TICKET_ISSUED'' (t_id t) s)
     | (Inl err, s) \<Rightarrow> (if err = NoRows then Inr () else Inl err, s))))"

section \<open>BIB numbers\<close>

text \<open>\<open>fmt.Sprintf("%0*d", 5, n)\<close>: the sign counts towards the width.\<close>

definition format_numeric_bib :: "int \<Rightarrow> string" where
  "format_numeric_bib n =
     (if n < 0 then ''-'' @ zero_pad 4 (dec (nat (- n))) else zero_pad 5 (dec (nat n)))"

definition is_unique_violation :: "app_error \<Rightarrow> bool" where
  "is_unique_violation e = (case e of UniqueViolation _ \<Rightarrow> True | _ \<Rightarrow> False)"

definition max_assign_attempts :: nat where
  "max_assign_attempts = 5"

text \<open>
  The retry loop. The SELECT and the UPDATE are statements of their own on the pool;
  \<open>other k\<close> is what other transactions commit between them when \<open>k\<close> more attempts remain.
  \<open>curr + 1\<close> is Go's wrapping int64 addition.
\<close>

fun assign_attempts ::
  "(nat \<Rightarrow> db \<Rightarrow> db) \<Rightarrow> uuid \<Rightarrow> uuid \<Rightarrow> uuid \<Rightarrow> time \<Rightarrow> nat \<Rightarrow> db \<Rightarrow> ticket res \<times> db" where
  "assign_attempts other ev tid actor now 0 s = (Inl ErrBibAssignExhausted, s)"
| "assign_attempts other ev tid actor now (Suc k) s =
     and_then (get_next_bib_numeric ev s, s) (\<lambda>curr s.
     let candidate = format_numeric_bib (signed_take_bit 63 (curr + 1))
     in case assign_bib_row tid candidate actor BibAuto now (other k s) of
          (Inr t, s) \<Rightarrow> (Inr t, audit ''BIB_ASSIGNED'' tid s)
        | (Inl e, s) \<Rightarrow>
            if is_unique_violation e then assign_attempts other ev tid actor now k s
            else (Inl e, s))"

definition get_event_ticket :: "uuid \<Rightarrow> uuid \<Rightarrow> db \<Rightarrow> ticket res" where
  "get_event_ticket ev tid s =
     (case get_ticket_by_id tid s of
        None \<Rightarrow> Inl ErrBibTicketNotFound
      | Some t \<Rightarrow> if t_event t \<noteq> ev then Inl ErrBibTicketNotFound else Inr t)"

definition assign_next_bib ::
  "(nat \<Rightarrow> db \<Rightarrow> db) \<Rightarrow> uuid \<Rightarrow> uuid \<Rightarrow> uuid \<Rightarrow> time \<Rightarrow> db \<Rightarrow> ticket res \<times> db" where
  "assign_next_bib other ev tid actor now s =
     and_then (get_event_ticket ev tid s, s) (\<lambda>_ s.
     assign_attempts other ev tid actor now max_assign_attempts s)"

definition sanitize_bib :: "string \<Rightarrow> string res" where
  "sanitize_bib raw =
     (let v = trim_space raw
      in if v = [] then Inl ErrBibInvalidFormat
         else if 32 < length v then Inl ErrBibInvalidFormat
         else if \<not> list_all is_alnum v then Inl ErrBibInvalidFormat
         else Inr v)"

definition set_bib :: "uuid \<Rightarrow> uuid \<Rightarrow> uuid \<Rightarrow> time \<Rightarrow> string \<Rightarrow> db \<Rightarrow> ticket res \<times> db" where
  "set_bib ev tid actor now raw s =
     and_then (sanitize_bib raw, s) (\<lambda>bib s.
     and_then (get_event_ticket ev tid s, s) (\<lambda>t s.
     case assign_bib_row tid bib actor (if t_bib t = None then BibManual else BibOverride) now s of
       (Inr t, s) \<Rightarrow> (Inr t, audit ''BIB_ASSIGNED'' tid s)
     | (Inl e, s) \<Rightarrow> (Inl (if is_unique_violation e then ErrBibConflict else e), s)))"

definition clear_bib :: "uuid \<Rightarrow> uuid \<Rightarrow> db \<Rightarrow> ticket res \<times> db" where
  "clear_bib ev tid s =
     and_then (get_event_ticket ev tid s, s) (\<lambda>_ s.
     and_then (clear_bib_row tid s) (\<lambda>t s.
     (Inr t, audit ''BIB_REMOVED'' tid s)))"

record bulk_assign_result =
  ba_assigned :: nat
  ba_failed :: nat
  ba_last_bib :: string

fun bulk_assign_loop ::
  "uuid \<Rightarrow> uuid \<Rightarrow> time \<Rightarrow> uuid list \<Rightarrow> bulk_assign_result \<Rightarrow> db \<Rightarrow> bulk_assign_result \<times> db" where
  "bulk_assign_loop ev actor now [] r s = (r, s)"
| "bulk_assign_loop ev actor now (tid # tids) r s =
     (case assign_next_bib (\<lambda>_ s. s) ev tid actor now s of
        (Inl _, s') \<Rightarrow> bulk_assign_loop ev actor now tids (r\<lparr>ba_failed := ba_failed r + 1\<rparr>) s'
      | (Inr _, s') \<Rightarrow>
          let r' = r\<lparr>ba_assigned := ba_assigned r + 1\<rparr>;
              r'' = (case get_ticket_by_id tid s' of
                       None \<Rightarrow> r'
                     | Some t \<Rightarrow> (case t_bib t of None \<Rightarrow> r' | Some b \<Rightarrow> r'\<lparr>ba_last_bib := b\<rparr>))
          in bulk_assign_loop ev actor now tids r'' s')"

definition bulk_assign_bib :: "uuid \<Rightarrow> uuid \<Rightarrow> time \<Rightarrow> db \<Rightarrow> bulk_assign_result \<times> db" where
  "bulk_assign_bib ev actor now s =
     bulk_assign_loop ev actor now (map t_id (list_unassigned_tickets_by_event ev s))
       \<lparr> ba_assigned = 0, ba_failed = 0, ba_last_bib = [] \<rparr> s"

section \<open>Reads of the owner\<close>

definition get_ticket_for_user :: "(uuid \<Rightarrow> uuid \<Rightarrow> string) \<Rightarrow> uuid \<Rightarrow> uuid \<Rightarrow> db \<Rightarrow> (ticket \<times> string) res" where
  "get_ticket_for_user sign usr tid s =
     (case get_ticket_by_id tid s of
        None \<Rightarrow> Inl ErrTicketNotFound
      | Some t \<Rightarrow>
          if t_participant t \<noteq> Some usr then Inl ErrTicketNotFound
          else Inr (t, sign (t_id t) (t_event t)))"

definition get_ticket_by_order_for_user ::
  "(uuid \<Rightarrow> uuid \<Rightarrow> string) \<Rightarrow> uuid \<Rightarrow> uuid \<Rightarrow> db \<Rightarrow> (ticket \<times> string) res" where
  "get_ticket_by_order_for_user sign usr oid s =
     (case get_ticket_by_order_id oid s of
        None \<Rightarrow> Inl ErrTicketNotFound
      | Some t \<Rightarrow>
          if t_participant t \<noteq> Some usr then Inl ErrTicketNotFound
          else Inr (t, sign (t_id t) (t_event t)))"

record invoice =
  inv_order :: uuid
  inv_number :: string
  inv_status :: order_status
  inv_event_title :: string
  inv_category_name :: string
  inv_holder_name :: string
  inv_holder_email :: string
  inv_subtotal :: int
  inv_fee :: int
  inv_discount :: int
  inv_total :: int
  inv_currency :: string

definition get_invoice_for_user :: "uuid \<Rightarrow> uuid \<Rightarrow> db \<Rightarrow> invoice res" where
  "get_invoice_for_user usr oid s =
     (case sel (\<lambda>x. o_id x = oid) (orders s) of
        None \<Rightarrow> Inl ErrTicketNotFound
      | Some x \<Rightarrow>
          if o_participant x \<noteq> Some usr then Inl ErrTicketNotFound
          else if o_status x \<noteq> OrdPaid then Inl ErrInvoiceNotAvailable
          else (case get_ticket_by_order_id oid s of
             None \<Rightarrow> Inl NoRows
           | Some t \<Rightarrow> Inr \<lparr> inv_order = o_id x, inv_number = o_number x,
               inv_status = o_status x, inv_event_title = t_event_title t,
               inv_category_name = t_category_name t, inv_holder_name = t_holder_name t,
               inv_holder_email = t_holder_email t, inv_subtotal = o_subtotal x, inv_fee = o_fee x,
               inv_discount = o_discount x, inv_total = o_total x, inv_currency = ''IDR'' \<rparr>))"

section \<open>The constraints as an invariant\<close>

definition bibs_unique :: "ticket list \<Rightarrow> bool" where
  "bibs_unique ts \<longleftrightarrow> (\<forall>t \<in> set ts. \<forall>u \<in> set ts.
     t_bib t \<noteq> None \<longrightarrow> t_bib t = t_bib u \<longrightarrow> t_event t = t_event u \<longrightarrow> t_id t = t_id u)"

definition tickets_ok :: "db \<Rightarrow> bool" where
  "tickets_ok s \<longleftrightarrow> distinct (map t_id (tickets s)) \<and> distinct (map t_order (tickets s)) \<and>
     distinct (map t_number (tickets s)) \<and> bibs_unique (tickets s)"

lemma tickets_ok_cong: "tickets s' = tickets s \<Longrightarrow> tickets_ok s' = tickets_ok s"
  by (simp add: tickets_ok_def)

lemma create_ticket_Inr:
  "create_ticket t s = (Inr t', s') \<Longrightarrow> t' = t \<and> s' = s\<lparr>tickets := tickets s @ [t]\<rparr> \<and>
     t_order t \<notin> t_order ` set (tickets s) \<and> t_id t \<notin> t_id ` set (tickets s) \<and>
     t_number t \<notin> t_number ` set (tickets s)"
  by (auto simp: create_ticket_def split: if_splits)

lemma create_ticket_NoRows:
  "create_ticket t s = (Inl NoRows, s') \<longleftrightarrow> t_order t \<in> t_order ` set (tickets s) \<and> s' = s"
  by (auto simp: create_ticket_def)

lemma new_ticket_simps [simp]:
  "t_id (new_ticket tid day rnd x h e c) = tid" "t_order (new_ticket tid day rnd x h e c) = o_id x"
  "t_category (new_ticket tid day rnd x h e c) = o_category x"
  "t_event (new_ticket tid day rnd x h e c) = o_event x"
  "t_status (new_ticket tid day rnd x h e c) = TixValid" "t_bib (new_ticket tid day rnd x h e c) = None"
  "t_number (new_ticket tid day rnd x h e c) = generate_ticket_number day rnd"
  by (simp_all add: new_ticket_def)

lemma issue_with_Inr:
  assumes "issue_with tid day rnd x s = (Inr u, s')"
  obtains (duplicate) h e c where "ticket_holder x s = Inr h"
      "sel (\<lambda>e. e_id e = o_event x) (events s) = Some e"
      "sel (\<lambda>c. c_id c = o_category x) (categories s) = Some c"
      "o_id x \<in> t_order ` set (tickets s)" "s' = s"
    | (issued) h e c where "ticket_holder x s = Inr h"
      "sel (\<lambda>e. e_id e = o_event x) (events s) = Some e"
      "sel (\<lambda>c. c_id c = o_category x) (categories s) = Some c"
      "create_ticket (new_ticket tid day rnd x h e c) s
         = (Inr (new_ticket tid day rnd x h e c), s\<lparr>tickets := tickets s @ [new_ticket tid day rnd x h e c]\<rparr>)"
      "s' = audit ''TICKET_ISSUED'' tid (s\<lparr>tickets := tickets s @ [new_ticket tid day rnd x h e c]\<rparr>)"
proof -
  from assms obtain h e c where pre: "ticket_holder x s = Inr h"
    "sel (\<lambda>e. e_id e = o_event x) (events s) = Some e"
    "sel (\<lambda>c. c_id c = o_category x) (categories s) = Some c"
    and rest: "(case create_ticket (new_ticket tid day rnd x h e c) s of
       (Inr t, s) \<Rightarrow> (Inr (), audit ''TICKET_ISSUED'' (t_id t) s)
     | (Inl err, s) \<Rightarrow> (if err = NoRows then Inr () else Inl err, s)) = (Inr u, s')"
    by (auto simp: issue_with_def and_then_Inr)
  show thesis
  proof (cases "create_ticket (new_ticket tid day rnd x h e c) s")
    case (Pair r s1)
    show thesis
    proof (cases r)
      case (Inl err)
      with Pair rest have "create_ticket (new_ticket tid day rnd x h e c) s = (Inl NoRows, s')"
        by (simp split: if_splits)
      then show thesis using pre by (intro duplicate) (simp_all add: create_ticket_NoRows)
    next
      case (Inr t)
      with create_ticket_Inr [of "new_ticket tid day rnd x h e c" s t s1] Pair rest pre show thesis
        by (intro issued) auto
    qed
  qed
qed

lemma ticket_holder_cong: "users s' = users s \<Longrightarrow> ticket_holder x s' = ticket_holder x s"
  by (simp add: ticket_holder_def cong: option.case_cong)

lemma issue_with_duplicate:
  assumes "ticket_holder x s = Inr h" "sel (\<lambda>e. e_id e = o_event x) (events s) = Some e"
    "sel (\<lambda>c. c_id c = o_category x) (categories s) = Some c" "o_id x \<in> t_order ` set (tickets s)"
  shows "issue_with tid day rnd x s = (Inr (), s)"
proof -
  have "create_ticket (new_ticket tid day rnd x h e c) s = (Inl NoRows, s)"
    using assms(4) by (simp add: create_ticket_NoRows)
  with assms(1-3) show ?thesis by (simp add: issue_with_def)
qed

lemma create_ticket_Inl: "create_ticket t s = (Inl e, s') \<Longrightarrow> s' = s"
  by (simp add: create_ticket_def split: if_splits)

lemma tickets_ok_create_ticket:
  assumes "tickets_ok s" "create_ticket t s = (Inr t', s')" "t_bib t = None"
  shows "tickets_ok s'"
proof -
  have "bibs_unique (tickets s @ [t])"
  proof -
    have old: "x \<in> set (tickets s)" if "x \<in> set (tickets s @ [t])" "t_bib x \<noteq> None" for x
      using that assms(3) by auto
    have "bibs_unique (tickets s)" using assms(1) by (simp add: tickets_ok_def)
    then show ?thesis unfolding bibs_unique_def by (metis old)
  qed
  with create_ticket_Inr [OF assms(2)] assms(1) show ?thesis
    by (simp add: tickets_ok_def)
qed

text \<open>What \<open>AssignBib\<close> sets.\<close>

definition with_bib :: "string \<Rightarrow> uuid \<Rightarrow> bib_method \<Rightarrow> time \<Rightarrow> ticket \<Rightarrow> ticket" where
  "with_bib bib actor meth now t = t\<lparr>t_bib := Some bib, t_bib_assigned_at := Some now,
     t_bib_assigned_by := Some actor, t_bib_method := Some meth\<rparr>"

lemma with_bib_simps [simp]:
  "t_id (with_bib b a m n t) = t_id t" "t_order (with_bib b a m n t) = t_order t"
  "t_number (with_bib b a m n t) = t_number t" "t_event (with_bib b a m n t) = t_event t"
  "t_status (with_bib b a m n t) = t_status t" "t_bib (with_bib b a m n t) = Some b"
  by (simp_all add: with_bib_def)

lemma assign_bib_row_eq:
  "assign_bib_row tid bib actor meth now s =
     (case get_ticket_by_id tid s of
        None \<Rightarrow> (Inl NoRows, s)
      | Some t \<Rightarrow>
          if bib_taken tid (t_event t) bib s then
            (Inl (UniqueViolation ''uniq_tickets_event_bib''), s)
          else if actor \<notin> u_id ` set (users s) then
            (Inl (ForeignKeyViolation ''tickets_bib_assigned_by_fkey''), s)
          else (Inr (with_bib bib actor meth now t), s\<lparr>tickets :=
                  upd (\<lambda>t. t_id t = tid) (with_bib bib actor meth now) (tickets s)\<rparr>))"
  unfolding assign_bib_row_def with_bib_def Let_def ..

lemma assign_bib_row_Inr:
  assumes "assign_bib_row tid bib actor meth now s = (Inr t', s')"
  obtains t where "get_ticket_by_id tid s = Some t" "\<not> bib_taken tid (t_event t) bib s"
    "t' = with_bib bib actor meth now t"
    "s' = s\<lparr>tickets := upd (\<lambda>t. t_id t = tid) (with_bib bib actor meth now) (tickets s)\<rparr>"
  using assms by (auto simp: assign_bib_row_eq split: option.splits if_splits)

lemma assign_bib_row_Inl: "assign_bib_row tid bib actor meth now s = (Inl e, s') \<Longrightarrow> s' = s"
  by (auto simp: assign_bib_row_eq split: option.splits if_splits)

lemma bibs_unique_upd:
  assumes "bibs_unique ts" "distinct (map t_id ts)" "t \<in> set ts" "t_id t = tid"
    and "\<forall>u \<in> set ts. t_id u \<noteq> tid \<longrightarrow> t_event u = t_event t \<longrightarrow> t_bib u \<noteq> Some bib"
  shows "bibs_unique (upd (\<lambda>t. t_id t = tid) (with_bib bib actor meth now) ts)"
proof -
  let ?ts = "upd (\<lambda>t. t_id t = tid) (with_bib bib actor meth now) ts"
  have event: "t_event u = t_event t" if "u \<in> set ts" "t_id u = tid" for u
    using distinct_key_unique [OF assms(2) that(1) assms(3)] that assms(4) by simp
  have "t_id x = t_id y" if x: "x \<in> set ?ts" and y: "y \<in> set ?ts"
    and eq: "t_bib x \<noteq> None" "t_bib x = t_bib y" "t_event x = t_event y" for x y
    using x
  proof (cases rule: upd_cases)
    case kept
    from y show ?thesis
    proof (cases rule: upd_cases)
      case kept
      with \<open>x \<in> set ts\<close> eq assms(1) show ?thesis unfolding bibs_unique_def by blast
    next
      case (changed v)
      with kept eq event [of v] assms(5) show ?thesis by auto
    qed
  next
    case (changed u)
    from y show ?thesis
    proof (cases rule: upd_cases)
      case kept
      with changed eq event [of u] assms(5) show ?thesis by auto
    next
      case (changed v)
      with \<open>t_id u = tid\<close> \<open>x = with_bib bib actor meth now u\<close> show ?thesis by simp
    qed
  qed
  then show ?thesis unfolding bibs_unique_def by blast
qed

lemma tickets_ok_assign_bib_row:
  assumes ok: "tickets_ok s" and run: "assign_bib_row tid bib actor meth now s = (r, s')"
  shows "tickets_ok s'"
proof (cases r)
  case (Inl e)
  then show ?thesis using assign_bib_row_Inl [OF run [unfolded Inl]] ok by simp
next
  case (Inr t')
  from run [unfolded Inr] obtain t where t: "get_ticket_by_id tid s = Some t"
    "\<not> bib_taken tid (t_event t) bib s"
    and s': "s' = s\<lparr>tickets := upd (\<lambda>t. t_id t = tid) (with_bib bib actor meth now) (tickets s)\<rparr>"
    by (rule assign_bib_row_Inr)
  from t have "t \<in> set (tickets s)" "t_id t = tid"
    by (auto simp: get_ticket_by_id_def dest: sel_SomeD)
  moreover from t(2) have "\<forall>u \<in> set (tickets s). t_id u \<noteq> tid \<longrightarrow> t_event u = t_event t \<longrightarrow> t_bib u \<noteq> Some bib"
    by (auto simp: bib_taken_def)
  ultimately have "bibs_unique (tickets s')"
    using ok bibs_unique_upd [of "tickets s" t tid bib actor meth now]
    by (simp add: s' tickets_ok_def)
  with ok show ?thesis by (simp add: s' tickets_ok_def map_upd)
qed

lemma tickets_ok_upd:
  assumes "tickets_ok s" "tickets s' = upd P f (tickets s)"
    and "\<And>t. t_id (f t) = t_id t" "\<And>t. t_order (f t) = t_order t" "\<And>t. t_number (f t) = t_number t"
    and "\<And>t. t_event (f t) = t_event t" "\<And>t. t_bib (f t) = t_bib t \<or> t_bib (f t) = None"
  shows "tickets_ok s'"
proof -
  have old: "\<exists>u \<in> set (tickets s). t_id u = t_id x \<and> t_event u = t_event x \<and>
      (t_bib x = None \<or> t_bib x = t_bib u)" if "x \<in> set (upd P f (tickets s))" for x
    using that by (cases rule: upd_cases) (use assms(3,6,7) in \<open>blast, metis\<close>)
  have "bibs_unique (tickets s)" using assms(1) by (simp add: tickets_ok_def)
  then have "bibs_unique (upd P f (tickets s))"
    unfolding bibs_unique_def by (metis old)
  with assms show ?thesis by (simp add: tickets_ok_def map_upd)
qed

section \<open>The next number\<close>

lemma in_numeric_bibs:
  "n \<in> set (numeric_bibs ev s) \<longleftrightarrow>
     (\<exists>t \<in> set (tickets s). t_event t = ev \<and> (\<exists>b. t_bib t = Some b \<and> dec_val b = Some n))"
proof -
  have in_map_filter: "n \<in> set (List.map_filter f ts) \<longleftrightarrow> (\<exists>t \<in> set ts. f t = Some n)"
    for f :: "ticket \<Rightarrow> nat option" and ts
    by (induction ts) (auto simp: List.map_filter_def)
  have "(if t_event t = ev then Option.bind (t_bib t) dec_val else None) = Some n \<longleftrightarrow>
      t_event t = ev \<and> (\<exists>b. t_bib t = Some b \<and> dec_val b = Some n)" for t :: ticket
    by (simp add: bind_eq_Some_conv)
  then show ?thesis by (simp add: numeric_bibs_def in_map_filter)
qed

lemma le_fold_max: "n \<in> set ns \<Longrightarrow> n \<le> fold max ns a" "a \<le> fold max ns (a::nat)"
proof -
  have ge: "a \<le> fold max ns a" for a :: nat and ns
    by (induction ns arbitrary: a) (auto intro: max.boundedE)
  show "a \<le> fold max ns a" by (rule ge)
  show "n \<in> set ns \<Longrightarrow> n \<le> fold max ns a"
    by (induction ns arbitrary: a) (auto intro: le_trans [OF _ ge])
qed

lemma fold_max_in: "fold max ns (a::nat) \<in> insert a (set ns)"
proof (induction ns arbitrary: a)
  case (Cons n ns)
  from Cons.IH [of "max n a"] show ?case by (auto simp: max_def split: if_splits)
qed simp

definition max_bib :: "uuid \<Rightarrow> db \<Rightarrow> nat" where
  "max_bib ev s = fold max (numeric_bibs ev s) 0"

lemma max_bib_ge: "n \<in> set (numeric_bibs ev s) \<Longrightarrow> n \<le> max_bib ev s"
  by (simp add: max_bib_def le_fold_max)

lemma max_bib_le: "(\<And>n. n \<in> set (numeric_bibs ev s) \<Longrightarrow> n \<le> m) \<Longrightarrow> max_bib ev s \<le> m"
  using fold_max_in [of "numeric_bibs ev s" 0] by (auto simp: max_bib_def)

lemma get_next_bib_numeric_ok:
  "max_bib ev s < 2 ^ 63 \<Longrightarrow> get_next_bib_numeric ev s = Inr (int (max_bib ev s))"
  using max_bib_ge [of _ ev s] by (fastforce simp: get_next_bib_numeric_def max_bib_def)

lemma format_numeric_bib_val: "dec_val (format_numeric_bib (int n)) = Some n"
  by (simp add: format_numeric_bib_def)

lemma wrap_small: "n < 2 ^ 63 - 1 \<Longrightarrow> signed_take_bit 63 (int n + 1) = int (n + 1)"
  by (subst signed_take_bit_int_eq_self) auto

lemma next_bib_free:
  "\<not> bib_taken tid ev (format_numeric_bib (int (max_bib ev s + 1))) s"
proof
  assume "bib_taken tid ev (format_numeric_bib (int (max_bib ev s + 1))) s"
  then have "max_bib ev s + 1 \<in> set (numeric_bibs ev s)"
    unfolding bib_taken_def in_numeric_bibs using format_numeric_bib_val by blast
  from max_bib_ge [OF this] show False by simp
qed

text \<open>One attempt, when nobody interferes, succeeds.\<close>

lemma assign_next_bib_run:
  assumes t: "get_ticket_by_id tid s = Some t" "t_event t = ev" and actor: "actor \<in> u_id ` set (users s)"
    and small: "max_bib ev s < 2 ^ 63 - 1"
  shows "assign_next_bib (\<lambda>_ s. s) ev tid actor now s =
    (Inr (with_bib (format_numeric_bib (int (max_bib ev s + 1))) actor BibAuto now t),
     audit ''BIB_ASSIGNED'' tid (s\<lparr>tickets := upd (\<lambda>t. t_id t = tid)
       (with_bib (format_numeric_bib (int (max_bib ev s + 1))) actor BibAuto now) (tickets s)\<rparr>))"
proof -
  have "get_next_bib_numeric ev s = Inr (int (max_bib ev s))"
    using small by (intro get_next_bib_numeric_ok) simp
  moreover have "signed_take_bit 63 (int (max_bib ev s) + 1) = int (max_bib ev s + 1)"
    using small by (rule wrap_small)
  ultimately show ?thesis
    using t actor next_bib_free [of tid ev s]
    by (simp add: assign_next_bib_def get_event_ticket_def max_assign_attempts_def Let_def
        numeral_eq_Suc assign_bib_row_eq)
qed

lemma max_bib_assigned:
  assumes ok: "tickets_ok s" and t: "get_ticket_by_id tid s = Some t" "t_event t = ev"
    and s': "tickets s' = upd (\<lambda>t. t_id t = tid)
       (with_bib (format_numeric_bib (int (max_bib ev s + 1))) actor BibAuto now) (tickets s)"
  shows "max_bib ev s' \<le> max_bib ev s + 1"
proof (rule max_bib_le)
  fix n assume "n \<in> set (numeric_bibs ev s')"
  then obtain x b where x: "x \<in> set (tickets s')" "t_event x = ev" "t_bib x = Some b" "dec_val b = Some n"
    by (auto simp: in_numeric_bibs)
  from x(1)[unfolded s'] show "n \<le> max_bib ev s + 1"
  proof (cases rule: upd_cases)
    case kept
    with x have "n \<in> set (numeric_bibs ev s)" by (auto simp: in_numeric_bibs)
    from max_bib_ge [OF this] show ?thesis by simp
  next
    case (changed y)
    with x have "b = format_numeric_bib (int (max_bib ev s + 1))" by simp
    with x(4) format_numeric_bib_val show ?thesis by (metis option.inject order_refl)
  qed
qed

lemma assign_next_bib_step:
  assumes "tickets_ok s" and "get_ticket_by_id tid s = Some t" and "t_event t = ev"
    and "actor \<in> u_id ` set (users s)" and "max_bib ev s < 2 ^ 63 - 1"
  shows "\<exists>t' s' b. assign_next_bib (\<lambda>_ s. s) ev tid actor now s = (Inr t', s') \<and> tickets_ok s' \<and>
    t_bib t' = Some b \<and> dec_val b = Some (max_bib ev s + 1) \<and> 5 \<le> length b \<and>
    (\<forall>u \<in> set (tickets s). t_event u = ev \<and> t_id u \<noteq> tid \<longrightarrow> t_bib u \<noteq> Some b) \<and>
    filter (\<lambda>u. t_id u \<noteq> tid) (tickets s') = filter (\<lambda>u. t_id u \<noteq> tid) (tickets s) \<and>
    max_bib ev s' = max_bib ev s + 1 \<and> users s' = users s \<and>
    map (\<lambda>u. (t_id u, t_event u)) (tickets s') = map (\<lambda>u. (t_id u, t_event u)) (tickets s) \<and>
    list_unassigned_tickets_by_event ev s' =
      filter (\<lambda>u. t_id u \<noteq> tid) (list_unassigned_tickets_by_event ev s)"
proof -
  define b where "b = format_numeric_bib (int (max_bib ev s + 1))"
  have b: "dec_val b = Some (max_bib ev s + 1)" "5 \<le> length b"
    unfolding b_def by (rule format_numeric_bib_val, simp add: format_numeric_bib_def zero_pad_def)
  let ?f = "with_bib b actor BibAuto now"
  define s' where "s' = s\<lparr>tickets := upd (\<lambda>t. t_id t = tid) ?f (tickets s)\<rparr>"
  have run: "assign_next_bib (\<lambda>_ s. s) ev tid actor now s = (Inr (?f t), audit ''BIB_ASSIGNED'' tid s')"
    unfolding s'_def b_def using assms by (intro assign_next_bib_run)
  have free: "\<not> bib_taken tid ev b s" unfolding b_def by (rule next_bib_free)
  have "assign_bib_row tid b actor BibAuto now s = (Inr (?f t), s')"
    using assms free by (simp add: assign_bib_row_eq s'_def)
  from tickets_ok_assign_bib_row [OF assms(1) this] have ok: "tickets_ok (audit ''BIB_ASSIGNED'' tid s')"
    by (simp add: tickets_ok_def)
  have others: "filter (\<lambda>u. t_id u \<noteq> tid) (upd (\<lambda>t. t_id t = tid) ?f ts) = filter (\<lambda>u. t_id u \<noteq> tid) ts" for ts
    by (induction ts) auto
  have "t \<in> set (tickets s)" "t_id t = tid"
    using assms(2) by (auto simp: get_ticket_by_id_def dest: sel_SomeD)
  then have "?f t \<in> set (tickets s')" by (auto simp: s'_def intro: upd_changed)
  then have "max_bib ev s + 1 \<in> set (numeric_bibs ev (audit ''BIB_ASSIGNED'' tid s'))"
    unfolding in_numeric_bibs using assms(3) b(1) by (intro bexI [of _ "?f t"]) simp_all
  from max_bib_ge [OF this]
    max_bib_assigned [OF assms(1-3), of "audit ''BIB_ASSIGNED'' tid s'" actor now]
  have max: "max_bib ev (audit ''BIB_ASSIGNED'' tid s') = max_bib ev s + 1" by (simp add: s'_def b_def)
  have fresh: "\<forall>u \<in> set (tickets s). t_event u = ev \<and> t_id u \<noteq> tid \<longrightarrow> t_bib u \<noteq> Some b"
    using free by (auto simp: bib_taken_def)
  have rest: "filter (\<lambda>u. t_id u \<noteq> tid) (tickets (audit ''BIB_ASSIGNED'' tid s')) = filter (\<lambda>u. t_id u \<noteq> tid) (tickets s)"
    using others by (simp add: s'_def)
  have "filter (\<lambda>t. t_event t = ev \<and> t_bib t = None \<and> t_status t = TixValid)
      (upd (\<lambda>t. t_id t = tid) ?f ts) = filter (\<lambda>u. t_id u \<noteq> tid)
        (filter (\<lambda>t. t_event t = ev \<and> t_bib t = None \<and> t_status t = TixValid) ts)" for ts
    by (induction ts) auto
  then have unassigned: "list_unassigned_tickets_by_event ev (audit ''BIB_ASSIGNED'' tid s') =
      filter (\<lambda>u. t_id u \<noteq> tid) (list_unassigned_tickets_by_event ev s)"
    unfolding list_unassigned_tickets_by_event_def s'_def by simp
  have frames: "map (\<lambda>u. (t_id u, t_event u)) (tickets (audit ''BIB_ASSIGNED'' tid s')) = map (\<lambda>u. (t_id u, t_event u)) (tickets s)"
    "users (audit ''BIB_ASSIGNED'' tid s') = users s"
    by (simp_all add: s'_def map_upd)
  show ?thesis
    by (intro exI conjI) (fact run ok b(1) b(2) fresh rest max frames unassigned with_bib_simps(6))+
qed

section \<open>Properties\<close>

text \<open>C31: A paid order gets exactly one ticket: after \<open>IssueForOrder\<close> returned nil the order has one
  ticket row, the unique columns are still unique, and issuing again, with whatever fresh id and
  number, returns nil and changes nothing (ON CONFLICT DO NOTHING is the idempotence guard of the
  webhook path).\<close>

theorem issue_once:
  assumes "tickets_ok s" and "issue_with tid day rnd x s = (Inr (), s')"
  shows "tickets_ok s' \<and> cnt (\<lambda>t. t_order t = o_id x) (tickets s') = 1 \<and>
    issue_with tid2 day2 rnd2 x s' = (Inr (), s')"
  using assms(2)
proof (cases rule: issue_with_Inr)
  case (duplicate h e c)
  with duplicate assms(1) show ?thesis
    using issue_with_duplicate [OF duplicate(1-4)] by (simp add: tickets_ok_def cnt_key_one)
next
  case (issued h e c)
  note new = create_ticket_Inr [OF issued(4)]
  have "tickets_ok s'"
    using tickets_ok_create_ticket [OF assms(1) issued(4)] issued(5) by (simp add: tickets_ok_def)
  moreover have "cnt (\<lambda>t. t_order t = o_id x) (tickets s) = 0"
    using new by (force simp: cnt_0_iff)
  moreover have "issue_with tid2 day2 rnd2 x s' = (Inr (), s')"
    by (rule issue_with_duplicate [of _ _ h e c])
      (use issued ticket_holder_cong [of s' s x] in simp_all)
  ultimately show ?thesis using issued(5) by simp
qed

definition demo_order :: order where
  "demo_order = \<lparr> o_id = 40, o_org = 1, o_event = 2, o_category = 3, o_participant = Some 5,
     o_number = ''ORD-1'', o_status = OrdPaid, o_subtotal = 10, o_fee = 0, o_discount = 0,
     o_total = 10, o_expired_at = None, o_guest_email = None, o_guest_name = None,
     o_guest_phone = None, o_terms_accepted_at = None, o_terms_version = None,
     o_waiver_accepted_at = None, o_waiver_version = None, o_form_answers = [],
     o_refunded_amount = 0, o_refund_reason = None, o_refunded_at = None \<rparr>"

definition demo_tickets :: db where
  "demo_tickets = empty_db\<lparr>users := [\<lparr>u_id = 5, u_full_name = ''Ann'', u_email = ''a@x'', u_membership = None\<rparr>],
     events := [\<lparr>e_id = 2, e_org = 1, e_name = ''Run'', e_status = []\<rparr>],
     categories := [\<lparr>c_id = 3, c_org = 1, c_event = 2, c_name = ''10K'', c_price = 10, c_capacity = 1,
       c_opens_at = None, c_closes_at = None, c_max_order_per_user = 1\<rparr>],
     orders := [demo_order]\<rparr>"

theorem issue_once_witness:
  "\<exists>s'. issue_with 70 ''20250101'' [1, 2, 3, 4, 5, 6] demo_order demo_tickets = (Inr (), s') \<and>
     cnt (\<lambda>t. t_order t = 40) (tickets s') = 1 \<and>
     issue_with 71 ''20250102'' [0, 0, 0, 0, 0, 0] demo_order s' = (Inr (), s')"
proof -
  let ?r = "issue_with 70 ''20250101'' [1, 2, 3, 4, 5, 6] demo_order demo_tickets"
  have "tickets_ok demo_tickets"
    by (simp add: demo_tickets_def empty_db_def tickets_ok_def bibs_unique_def)
  moreover have "fst ?r = Inr ()" by code_simp
  then have run: "?r = (Inr (), snd ?r)" by (cases ?r) simp
  moreover have "o_id demo_order = 40" by (simp add: demo_order_def)
  ultimately show ?thesis
    using issue_once [OF _ run, of 71 "''20250102''" "[0, 0, 0, 0, 0, 0]"] by auto
qed


definition demo_ticket :: "uuid \<Rightarrow> string option \<Rightarrow> ticket" where
  "demo_ticket i b = \<lparr> t_id = i, t_org = 1, t_event = 2, t_category = 3, t_order = 100 + i,
     t_participant = Some 5, t_number = dec i, t_status = TixValid, t_holder_name = [],
     t_holder_email = [], t_event_title = [], t_category_name = [], t_qr_version = 1,
     t_form_answers = [], t_used_at = None, t_bib = b, t_bib_assigned_at = None,
     t_bib_assigned_by = None, t_bib_method = None \<rparr>"

definition demo_bibs :: db where
  "demo_bibs = demo_tickets\<lparr>tickets := [demo_ticket 1 (Some ''00041''), demo_ticket 2 None, demo_ticket 3 None]\<rparr>"

lemma demo_bibs_ok: "tickets_ok demo_bibs" "max_bib 2 demo_bibs = 41" "5 \<in> u_id ` set (users demo_bibs)"
  by (simp add: tickets_ok_def demo_bibs_def demo_ticket_def bibs_unique_def dec.simps digit_char_def)
    code_simp+


lemma tickets_ok_assign_attempts:
  assumes "\<forall>k s. tickets_ok s \<longrightarrow> tickets_ok (other k s)" and "tickets_ok s"
    and "assign_attempts other ev tid actor now n s = (r, s')"
  shows "tickets_ok s' \<and> (case r of Inl _ \<Rightarrow> True
    | Inr t' \<Rightarrow> t' \<in> set (tickets s') \<and> t_id t' = tid \<and> t_bib t' \<noteq> None)"
  using assms(2,3)
proof (induction n arbitrary: s)
  case 0
  then show ?case by auto
next
  case (Suc n)
  show ?case
  proof (cases "get_next_bib_numeric ev s")
    case (Inl e)
    with Suc.prems show ?thesis by auto
  next
    case (Inr curr)
    obtain r1 s1 where row: "assign_bib_row tid (format_numeric_bib (signed_take_bit 63 (curr + 1)))
        actor BibAuto now (other n s) = (r1, s1)" by fastforce
    from assms(1) Suc.prems(1) have "tickets_ok (other n s)" by blast
    from tickets_ok_assign_bib_row [OF this row] have ok: "tickets_ok s1" .
    show ?thesis
    proof (cases r1)
      case r1: (Inl e)
      show ?thesis
      proof (cases "is_unique_violation e")
        case True
        with Suc.prems(2) Inr row r1 have "assign_attempts other ev tid actor now n s1 = (r, s')" by simp
        from Suc.IH [OF ok this] show ?thesis .
      next
        case False
        with Suc.prems(2) Inr row r1 ok show ?thesis by auto
      qed
    next
      case r1: (Inr t)
      from row [unfolded r1] obtain t0 where "get_ticket_by_id tid (other n s) = Some t0"
        and t: "t = with_bib (format_numeric_bib (signed_take_bit 63 (curr + 1))) actor BibAuto now t0"
        and s1: "s1 = (other n s)\<lparr>tickets := upd (\<lambda>t. t_id t = tid)
           (with_bib (format_numeric_bib (signed_take_bit 63 (curr + 1))) actor BibAuto now) (tickets (other n s))\<rparr>"
        by (rule assign_bib_row_Inr)
      then have t0: "t0 \<in> set (tickets (other n s))" "t_id t0 = tid"
        by (auto simp: get_ticket_by_id_def dest: sel_SomeD)
      have "t \<in> set (tickets s1)" unfolding t using t0 by (simp add: s1 upd_changed)
      moreover have "r = Inr t" "s' = audit ''BIB_ASSIGNED'' tid s1"
        using Suc.prems(2) Inr row r1 by auto
      ultimately show ?thesis using ok t0 by (simp add: t tickets_ok_def)
    qed
  qed
qed

text \<open>The retry loop is safe whatever other transactions commit between its SELECT and its
  UPDATE, as long as they respect the constraints themselves: BIBs stay unique per event, and a
  ticket that is returned is in the table with its number. The witness lets another transaction
  take the number the first attempt had computed, and the second attempt gets the next one.\<close>

theorem assign_next_bib_race_safe:
  assumes "\<forall>k s. tickets_ok s \<longrightarrow> tickets_ok (other k s)" and "tickets_ok s"
  shows "tickets_ok (snd (assign_next_bib other ev tid actor now s)) \<and>
    (\<forall>t'. fst (assign_next_bib other ev tid actor now s) = Inr t' \<longrightarrow>
       t' \<in> set (tickets (snd (assign_next_bib other ev tid actor now s))) \<and> t_id t' = tid \<and>
       t_bib t' \<noteq> None)"
proof (cases "get_event_ticket ev tid s")
  case (Inl e)
  with assms(2) show ?thesis by (simp add: assign_next_bib_def)
next
  case (Inr t)
  obtain r s' where run: "assign_attempts other ev tid actor now max_assign_attempts s = (r, s')"
    by fastforce
  from tickets_ok_assign_attempts [OF assms run] Inr run show ?thesis
    by (auto simp: assign_next_bib_def)
qed

definition snatch :: "nat \<Rightarrow> db \<Rightarrow> db" where
  "snatch k s = (if k = 4 then snd (assign_bib_row 3 ''00042'' 5 BibManual 0 s) else s)"

theorem assign_next_bib_race_safe_witness:
  "map t_bib (tickets (snd (assign_next_bib snatch 2 2 5 0 demo_bibs)))
     = [Some ''00041'', Some ''00043'', Some ''00042''] \<and>
   tickets_ok (snd (assign_next_bib snatch 2 2 5 0 demo_bibs))"
proof -
  have "\<forall>k s. tickets_ok s \<longrightarrow> tickets_ok (snatch k s)"
    using tickets_ok_assign_bib_row [OF _ surjective_pairing] by (simp add: snatch_def)
  from assign_next_bib_race_safe [OF this demo_bibs_ok(1), of 2 2 5 0]
  have "tickets_ok (snd (assign_next_bib snatch 2 2 5 0 demo_bibs))" ..
  moreover have "map t_bib (tickets (snd (assign_next_bib snatch 2 2 5 0 demo_bibs)))
     = [Some ''00041'', Some ''00043'', Some ''00042'']" by code_simp
  ultimately show ?thesis by simp
qed

text \<open>One numeric BIB beyond 63 bits, which \<open>SetBib\<close> accepts (the witness assigns sixteen
  nines and four more), makes the \<open>::bigint\<close> cast fail for every later SELECT on the event: no
  ticket of the event can be given a BIB automatically any more, and bulk assignment fails for
  every ticket.\<close>

theorem numeric_bib_overflow_blocks_event:
  assumes "u \<in> set (tickets s)" and "t_event u = ev" and "t_bib u = Some b" and "dec_val b = Some n"
    and "2 ^ 63 \<le> n"
  shows "\<exists>e. assign_next_bib other ev tid actor now s = (Inl e, s)"
proof -
  have "n \<in> set (numeric_bibs ev s)" using assms by (auto simp: in_numeric_bibs)
  with assms(5) have "get_next_bib_numeric ev s = Inl NumericOutOfRange"
    by (auto simp: get_next_bib_numeric_def intro!: bexI [of _ n])
  then show ?thesis
    by (cases "get_event_ticket ev tid s")
      (simp_all add: assign_next_bib_def max_assign_attempts_def numeral_eq_Suc)
qed

theorem numeric_bib_overflow_blocks_event_witness:
  "\<exists>s e. set_bib 2 1 5 0 ''99999999999999999999'' demo_bibs = (Inr (hd (tickets s)), s) \<and>
     assign_next_bib (\<lambda>_ s. s) 2 2 5 0 s = (Inl e, s)"
proof -
  let ?b = "''99999999999999999999''"
  let ?r = "set_bib 2 1 5 0 ?b demo_bibs"
  let ?s = "snd ?r"
  have "fst ?r = Inr (hd (tickets ?s))" by code_simp
  then have run: "?r = (Inr (hd (tickets ?s)), ?s)" by (cases ?r) simp
  have u: "hd (tickets ?s) \<in> set (tickets ?s)" "t_event (hd (tickets ?s)) = 2"
    "t_bib (hd (tickets ?s)) = Some ?b" by code_simp+
  have "dec_val ?b = Some 99999999999999999999" by (simp add: dec_val_def digit_val_def)
  from numeric_bib_overflow_blocks_event [OF u this, of "\<lambda>_ s. s" 2 5 0] run show ?thesis by auto
qed

lemma bulk_assign_loop_all:
  assumes "tickets_ok s" and "actor \<in> u_id ` set (users s)"
    and "(\<lambda>tid. (tid, ev)) ` set tids \<subseteq> set (map (\<lambda>u. (t_id u, t_event u)) (tickets s))"
    and "max_bib ev s + length tids < 2 ^ 63"
    and "bulk_assign_loop ev actor now tids r s = (r', s')"
  shows "ba_failed r' = ba_failed r \<and> ba_assigned r' = ba_assigned r + length tids \<and> tickets_ok s' \<and>
    list_unassigned_tickets_by_event ev s' =
      filter (\<lambda>t. t_id t \<notin> set tids) (list_unassigned_tickets_by_event ev s)"
  using assms
proof (induction tids arbitrary: r s)
  case Nil
  then show ?case by simp
next
  case (Cons tid tids)
  from Cons.prems(3) obtain t where "t \<in> set (tickets s)" "t_id t = tid" "t_event t = ev" by auto
  then have t: "get_ticket_by_id tid s = Some t" "t_event t = ev"
    using sel_key [of t_id "tickets s" t] Cons.prems(1)
    by (simp_all add: get_ticket_by_id_def tickets_ok_def)
  from assign_next_bib_step [OF Cons.prems(1) t Cons.prems(2), of now] Cons.prems(4)
  obtain t' s1 where run: "assign_next_bib (\<lambda>_ s. s) ev tid actor now s = (Inr t', s1)"
    and s1: "tickets_ok s1" "max_bib ev s1 = max_bib ev s + 1" "users s1 = users s"
      "map (\<lambda>u. (t_id u, t_event u)) (tickets s1) = map (\<lambda>u. (t_id u, t_event u)) (tickets s)"
      "list_unassigned_tickets_by_event ev s1 =
         filter (\<lambda>u. t_id u \<noteq> tid) (list_unassigned_tickets_by_event ev s)"
    by auto
  from Cons.prems(5) run obtain r1 where "bulk_assign_loop ev actor now tids r1 s1 = (r', s')"
    and r1: "ba_failed r1 = ba_failed r" "ba_assigned r1 = ba_assigned r + 1"
    by (auto simp: Let_def split: option.splits)
  from Cons.IH [OF s1(1) _ _ _ this(1)] Cons.prems(2-4) s1 r1 show ?case
    by (auto intro: filter_cong)
qed

text \<open>C33: Bulk assignment leaves no VALID ticket of the event without a BIB, and fails for none,
  as long as the greatest numeric BIB leaves room below 63 bits: every listed ticket is assigned,
  each a number of its own.\<close>

theorem bulk_assign_assigns_all:
  assumes "tickets_ok s" and "actor \<in> u_id ` set (users s)"
    and "max_bib ev s + length (list_unassigned_tickets_by_event ev s) < 2 ^ 63"
    and "bulk_assign_bib ev actor now s = (r, s')"
  shows "ba_failed r = 0 \<and> ba_assigned r = length (list_unassigned_tickets_by_event ev s) \<and>
    list_unassigned_tickets_by_event ev s' = [] \<and> tickets_ok s'"
proof -
  have "(\<lambda>tid. (tid, ev)) ` set (map t_id (list_unassigned_tickets_by_event ev s))
      \<subseteq> set (map (\<lambda>u. (t_id u, t_event u)) (tickets s))"
    by (auto simp: list_unassigned_tickets_by_event_def)
  from bulk_assign_loop_all [OF assms(1,2) this _ assms(4) [unfolded bulk_assign_bib_def]] assms(3)
  show ?thesis by (auto simp: filter_empty_conv)
qed

theorem bulk_assign_assigns_all_witness:
  "ba_assigned (fst (bulk_assign_bib 2 5 0 demo_bibs)) = 2 \<and>
   list_unassigned_tickets_by_event 2 (snd (bulk_assign_bib 2 5 0 demo_bibs)) = [] \<and>
   ba_last_bib (fst (bulk_assign_bib 2 5 0 demo_bibs)) = ''00043''"
proof -
  have two: "length (list_unassigned_tickets_by_event 2 demo_bibs) = 2"
    by (simp add: list_unassigned_tickets_by_event_def demo_bibs_def demo_ticket_def)
  then have "max_bib 2 demo_bibs + length (list_unassigned_tickets_by_event 2 demo_bibs) < 2 ^ 63"
    by (simp add: demo_bibs_ok(2))
  from bulk_assign_assigns_all [OF demo_bibs_ok(1,3) this surjective_pairing] two
  have "ba_assigned (fst (bulk_assign_bib 2 5 0 demo_bibs)) = 2 \<and>
    list_unassigned_tickets_by_event 2 (snd (bulk_assign_bib 2 5 0 demo_bibs)) = []" by simp
  moreover have "ba_last_bib (fst (bulk_assign_bib 2 5 0 demo_bibs)) = ''00043''" by code_simp
  ultimately show ?thesis by simp
qed

text \<open>What \<open>SetBib\<close> accepts: between one and 32 ASCII letters and digits once trimmed, and the
  stored form is the trimmed one, which sanitizes to itself; anything else is refused before the
  database is read.\<close>

lemma sanitize_bib_spec:
  "(sanitize_bib raw = Inr v \<longleftrightarrow>
     v = trim_space raw \<and> 1 \<le> length v \<and> length v \<le> 32 \<and> (\<forall>c \<in> set v. is_alnum c)) \<and>
   (sanitize_bib raw = Inr v \<longrightarrow> sanitize_bib v = Inr v) \<and>
   (\<nexists>v. sanitize_bib raw = Inr v) = (set_bib ev tid actor now raw s = (Inl ErrBibInvalidFormat, s))"
proof -
  have spec: "sanitize_bib raw = Inr v \<longleftrightarrow>
     v = trim_space raw \<and> 1 \<le> length v \<and> length v \<le> 32 \<and> (\<forall>c \<in> set v. is_alnum c)" for raw v
    by (auto simp: sanitize_bib_def Let_def list_all_iff Suc_le_eq)
  have "sanitize_bib raw = Inr v \<longrightarrow> sanitize_bib v = Inr v"
    using trim_space_alnum [of v] by (auto simp: spec)
  moreover have "(\<nexists>v. sanitize_bib raw = Inr v) = (set_bib ev tid actor now raw s = (Inl ErrBibInvalidFormat, s))"
  proof (cases "sanitize_bib raw")
    case (Inl e)
    then have "e = ErrBibInvalidFormat"
      by (auto simp: sanitize_bib_def Let_def split: if_splits)
    with Inl show ?thesis by (simp add: set_bib_def)
  next
    case (Inr bib)
    have "set_bib ev tid actor now raw s \<noteq> (Inl ErrBibInvalidFormat, s)"
      using Inr by (auto simp: set_bib_def and_then_Inl get_event_ticket_def assign_bib_row_eq
          is_unique_violation_def split: option.splits if_splits)
    with Inr show ?thesis by simp
  qed
  ultimately show ?thesis using spec by blast
qed

lemma sanitize_bib_spec_witness:
  "sanitize_bib '' vip007 '' = Inr ''vip007'' \<and> sanitize_bib ''a-1'' = Inl ErrBibInvalidFormat"
  using sanitize_bib_spec [of "'' vip007 ''" "''vip007''"]
  by (simp add: trim_space_def is_space_def is_alnum_def sanitize_bib_def list_all_iff)

end
