(* ===== verification/Orders.thy ===== *)
theory Orders
  imports Inventory Access Registration Lifecycle WarQueue Tickets
begin

text \<open>
  Orders (\<open>services/api/internal/modules/orders\<close>): checkout, guest checkout, cancellation, claim,
  refund and the expiry worker, with the queries of \<open>db/orders.sql.go\<close>. The registration gate, the
  form validator and the checkout hook are interfaces of the service; \<open>production_service\<close> wires
  them as \<open>app/server.go\<close> does. Notifications and metrics are not modelled.
\<close>

section \<open>Queries\<close>

definition get_event_by_id :: "uuid \<Rightarrow> db \<Rightarrow> event option" where
  "get_event_by_id ev s = sel (\<lambda>e. e_id e = ev) (events s)"

definition get_order_by_id :: "uuid \<Rightarrow> db \<Rightarrow> order option" where
  "get_order_by_id oid s = sel (\<lambda>x. o_id x = oid) (orders s)"

definition get_order_by_number :: "string \<Rightarrow> db \<Rightarrow> order option" where
  "get_order_by_number n s = sel (\<lambda>x. o_number x = n) (orders s)"

definition active_order :: "order \<Rightarrow> bool" where
  "active_order x \<longleftrightarrow> o_status x = OrdPendingPayment \<or> o_status x = OrdPaid"

definition count_active_orders_for_user_category :: "uuid \<Rightarrow> uuid \<Rightarrow> db \<Rightarrow> nat" where
  "count_active_orders_for_user_category cat u s =
     cnt (\<lambda>x. o_category x = cat \<and> o_participant x = Some u \<and> active_order x) (orders s)"

definition count_active_orders_for_guest_category :: "uuid \<Rightarrow> string \<Rightarrow> db \<Rightarrow> nat" where
  "count_active_orders_for_guest_category cat email s =
     cnt (\<lambda>x. o_category x = cat \<and> ci_eq (o_guest_email x) email \<and> active_order x) (orders s)"

text \<open>\<open>INSERT INTO orders\<close> with the constraints of migrations 12 and 63.\<close>

definition create_order :: "order \<Rightarrow> db \<Rightarrow> order res \<times> db" where
  "create_order x s =
     (if o_subtotal x < 0 \<or> o_fee x < 0 \<or> o_discount x < 0 \<or> o_total x < 0 then
        (Inl (CheckViolation ''orders_amounts_check''), s)
      else if o_participant x = None \<and> (o_guest_email x = None \<or> o_guest_name x = None) then
        (Inl (CheckViolation ''orders_identity_check''), s)
      else if o_id x \<in> o_id ` set (orders s) then (Inl (UniqueViolation ''orders_pkey''), s)
      else if o_number x \<in> o_number ` set (orders s) then
        (Inl (UniqueViolation ''orders_order_number_key''), s)
      else if o_event x \<notin> e_id ` set (events s) then
        (Inl (ForeignKeyViolation ''orders_event_id_fkey''), s)
      else if o_category x \<notin> c_id ` set (categories s) then
        (Inl (ForeignKeyViolation ''orders_category_id_fkey''), s)
      else if (case o_participant x of None \<Rightarrow> False | Some u \<Rightarrow> u \<notin> u_id ` set (users s)) then
        (Inl (ForeignKeyViolation ''orders_participant_id_fkey''), s)
      else (Inr x, s\<lparr>orders := orders s @ [x]\<rparr>))"

definition update_order_status :: "uuid \<Rightarrow> order_status \<Rightarrow> order_status \<Rightarrow> db \<Rightarrow> order res \<times> db" where
  "update_order_status oid st old s =
     (case upd_one (\<lambda>x. o_id x = oid \<and> o_status x = old) (\<lambda>x. x\<lparr>o_status := st\<rparr>) (orders s) of
        None \<Rightarrow> (Inl NoRows, s)
      | Some (x, xs) \<Rightarrow> (Inr x, s\<lparr>orders := xs\<rparr>))"

definition link_order_to_participant :: "uuid \<Rightarrow> uuid \<Rightarrow> db \<Rightarrow> order res \<times> db" where
  "link_order_to_participant oid u s =
     (case upd_one (\<lambda>x. o_id x = oid \<and> o_participant x = None) (\<lambda>x. x\<lparr>o_participant := Some u\<rparr>)
             (orders s) of
        None \<Rightarrow> (Inl NoRows, s)
      | Some (x, xs) \<Rightarrow>
          if u \<notin> u_id ` set (users s) then
            (Inl (ForeignKeyViolation ''orders_participant_id_fkey''), s)
          else (Inr x, s\<lparr>orders := xs\<rparr>))"

definition record_order_refund ::
  "uuid \<Rightarrow> int \<Rightarrow> string option \<Rightarrow> time \<Rightarrow> db \<Rightarrow> order res \<times> db" where
  "record_order_refund oid amount reason now s =
     (case upd_one (\<lambda>x. o_id x = oid)
             (\<lambda>x. x\<lparr>o_status := OrdRefunded, o_refunded_amount := amount, o_refund_reason := reason,
                   o_refunded_at := Some now\<rparr>) (orders s) of
        None \<Rightarrow> (Inl NoRows, s)
      | Some (x, xs) \<Rightarrow> (Inr x, s\<lparr>orders := xs\<rparr>))"

definition due_order :: "time \<Rightarrow> order \<Rightarrow> bool" where
  "due_order now x \<longleftrightarrow> o_status x = OrdPendingPayment \<and>
     (case o_expired_at x of None \<Rightarrow> False | Some t \<Rightarrow> t < now)"

text \<open>\<open>FOR UPDATE SKIP LOCKED\<close> leaves out the rows other transactions hold locked.\<close>

definition list_expired_pending_orders :: "uuid set \<Rightarrow> nat \<Rightarrow> time \<Rightarrow> db \<Rightarrow> uuid list" where
  "list_expired_pending_orders locked lim now s =
     map o_id (take lim (filter (\<lambda>x. o_id x \<notin> locked)
       (sort_key (\<lambda>x. case o_expired_at x of None \<Rightarrow> 0 | Some t \<Rightarrow> t)
         (filter (due_order now) (orders s)))))"

definition list_orders_by_participant :: "uuid \<Rightarrow> db \<Rightarrow> order list" where
  "list_orders_by_participant u s = rev (filter (\<lambda>x. o_participant x = Some u) (orders s))"

definition list_orders_by_org_event :: "uuid \<Rightarrow> uuid \<Rightarrow> db \<Rightarrow> order list" where
  "list_orders_by_org_event org ev s =
     rev (filter (\<lambda>x. o_org x = org \<and> o_event x = ev) (orders s))"

section \<open>The service\<close>

text \<open>
  The configuration and collaborators of \<open>Service\<close>, \<open>None\<close> for nil: the gate, the form validator
  (on the marshalled answers, \<open>None\<close> for a nil map), the hook, the reservation time and
  \<open>uuid.Parse\<close>. \<open>entropy\<close> is what one call takes from its surroundings: the clock, its date
  as \<open>20060102\<close>, the random bytes of up to five order numbers (a list that ends early is
  a failing \<open>rand.Read\<close>), and the ids the database generates.
\<close>

record orders_service =
  os_ttl :: int
  os_gate :: "uuid \<Rightarrow> uuid \<Rightarrow> uuid \<Rightarrow> string \<Rightarrow> db \<Rightarrow> unit res \<times> db"
  os_validator :: "(uuid \<Rightarrow> uuid \<Rightarrow> string option \<Rightarrow> db \<Rightarrow> unit res) option"
  os_hook :: "(uuid \<Rightarrow> uuid \<Rightarrow> db \<Rightarrow> unit res \<times> db) option"
  os_parse_uuid :: "string \<Rightarrow> uuid option"

record entropy =
  en_now :: time
  en_day :: string
  en_numbers :: "nat list list"
  en_order :: uuid
  en_reservation :: uuid

definition noop_gate :: "uuid \<Rightarrow> uuid \<Rightarrow> uuid \<Rightarrow> string \<Rightarrow> db \<Rightarrow> unit res \<times> db" where
  "noop_gate participant ev cat token s = (Inr (), s)"

definition checkout_eligible :: "event \<Rightarrow> category \<Rightarrow> time \<Rightarrow> unit res" where
  "checkout_eligible e c now =
     (if e_status e \<noteq> ''published'' then Inl ErrEventNotPublished
      else if (case c_opens_at c of None \<Rightarrow> False | Some t \<Rightarrow> now < t) then Inl ErrRegistrationClosed
      else if (case c_closes_at c of None \<Rightarrow> False | Some t \<Rightarrow> t < now) then Inl ErrRegistrationClosed
      else Inr ())"

definition generate_order_number :: "string \<Rightarrow> nat list \<Rightarrow> string" where
  "generate_order_number day rnd = random_number ''ORD-'' day (take 6 rnd)"

fun first_unused_number :: "string \<Rightarrow> nat list list \<Rightarrow> db \<Rightarrow> string res" where
  "first_unused_number day [] s = Inl ErrOrderNumberGen"
| "first_unused_number day (rnd # rnds) s =
     (let n = generate_order_number day rnd
      in if get_order_by_number n s = None then Inr n else first_unused_number day rnds s)"

definition unique_order_number :: "entropy \<Rightarrow> db \<Rightarrow> string res" where
  "unique_order_number en s = first_unused_number (en_day en) (take 5 (en_numbers en)) s"

definition validate_answers :: "orders_service \<Rightarrow> uuid \<Rightarrow> uuid \<Rightarrow> string option \<Rightarrow> db \<Rightarrow> unit res" where
  "validate_answers sv ev cat answers s =
     (case os_validator sv of None \<Rightarrow> Inr () | Some f \<Rightarrow> f ev cat answers s)"

text \<open>
  The beginning of both checkout transactions: the event, the locked category with its stock, and
  whether the category is on sale. \<open>s0\<close>, \<open>s1\<close>, \<open>s2\<close> are the snapshots of the statements that
  read the category, the reservations and the paid orders.
\<close>

definition open_category ::
  "uuid \<Rightarrow> uuid \<Rightarrow> time \<Rightarrow> db \<Rightarrow> db \<Rightarrow> db \<Rightarrow> db \<Rightarrow> category res \<times> db" where
  "open_category ev cat now s0 s1 s2 s =
     and_then (found ErrCategoryNotFound (get_event_by_id ev s0) s) (\<lambda>e s.
     and_then (check_and_lock_at s0 s1 s2 cat, s) (\<lambda>k s.
     and_then (require (c_event (chk_category k) = ev) ErrCategoryNotFound s) (\<lambda>_ s.
     and_then (checkout_eligible e (chk_category k) now, s) (\<lambda>_ s.
     (Inr (chk_category k), s)))))"

definition new_order :: "orders_service \<Rightarrow> entropy \<Rightarrow> category \<Rightarrow> uuid \<Rightarrow> string \<Rightarrow> string option \<Rightarrow> order" where
  "new_order sv en c u number answers =
     \<lparr> o_id = en_order en, o_org = c_org c, o_event = c_event c, o_category = c_id c,
       o_participant = Some u, o_number = number, o_status = OrdPendingPayment,
       o_subtotal = c_price c, o_fee = 0, o_discount = 0, o_total = c_price c,
       o_expired_at = Some (en_now en + os_ttl sv),
       o_guest_email = None, o_guest_name = None, o_guest_phone = None,
       o_terms_accepted_at = None, o_terms_version = None, o_waiver_accepted_at = None,
       o_waiver_version = None,
       o_form_answers = (case answers of None \<Rightarrow> ''{}'' | Some a \<Rightarrow> a),
       o_refunded_amount = 0, o_refund_reason = None, o_refunded_at = None \<rparr>"

definition reserve_for :: "entropy \<Rightarrow> category \<Rightarrow> order \<Rightarrow> uuid \<Rightarrow> db \<Rightarrow> reservation res \<times> db" where
  "reserve_for en c x participant s =
     reserve (en_reservation en) (c_org c) (o_event x) (o_category x) (o_id x) participant
       (the (o_expired_at x)) s"

text \<open>The consumption of an access grant inside the checkout transaction: a token that is no UUID,
  or no grant's id, is ignored.\<close>

definition consume_checkout_grant ::
  "orders_service \<Rightarrow> entropy \<Rightarrow> uuid \<Rightarrow> uuid \<Rightarrow> string \<Rightarrow> uuid \<Rightarrow> db \<Rightarrow> unit res \<times> db" where
  "consume_checkout_grant sv en participant cat token oid s =
     (case (if token = [] then None else os_parse_uuid sv token) of
        None \<Rightarrow> (Inr (), s)
      | Some gid \<Rightarrow>
          (case get_access_grant gid s of
             None \<Rightarrow> (Inr (), s)
           | Some g \<Rightarrow>
               if g_participant g \<noteq> participant \<or> g_category g \<noteq> cat then (Inl ErrGrantNotFound, s)
               else if g_status g = GrantConsumed then (Inl ErrGrantAlreadyConsumed, s)
               else if g_status g \<noteq> GrantActive then (Inl ErrGrantExpired, s)
               else if g_expires_at g < en_now en then (Inl ErrGrantExpired, s)
               else consume_grant gid oid (en_now en) s))"

definition checkout_tx_at ::
  "orders_service \<Rightarrow> entropy \<Rightarrow> uuid \<Rightarrow> uuid \<Rightarrow> uuid \<Rightarrow> string \<Rightarrow> string option \<Rightarrow>
    db \<Rightarrow> db \<Rightarrow> db \<Rightarrow> db \<Rightarrow> order res \<times> db" where
  "checkout_tx_at sv en participant ev cat token answers s0 s1 s2 s =
     and_then (open_category ev cat (en_now en) s0 s1 s2 s) (\<lambda>c s.
     and_then (require (int (count_active_orders_for_user_category cat participant s)
       < c_max_order_per_user c) ErrMaxOrderExceeded s) (\<lambda>_ s.
     and_then (unique_order_number en s, s) (\<lambda>number s.
     and_then (create_order (new_order sv en c participant number answers) s) (\<lambda>x s.
     and_then (reserve_for en c x participant s) (\<lambda>_ s.
     and_then (consume_checkout_grant sv en participant cat token (o_id x) s) (\<lambda>_ s.
     (Inr x, s)))))))"

definition checkout_tx ::
  "orders_service \<Rightarrow> entropy \<Rightarrow> uuid \<Rightarrow> uuid \<Rightarrow> uuid \<Rightarrow> string \<Rightarrow> string option \<Rightarrow> db \<Rightarrow> order res \<times> db" where
  "checkout_tx sv en participant ev cat token answers s =
     checkout_tx_at sv en participant ev cat token answers s s s s"

text \<open>After the commit: the hook, whose error is dropped, and the two audit entries.\<close>

definition after_checkout :: "orders_service \<Rightarrow> uuid \<Rightarrow> order \<Rightarrow> db \<Rightarrow> db" where
  "after_checkout sv participant x s =
     (let s = (case os_hook sv of None \<Rightarrow> s | Some h \<Rightarrow> snd (h participant (o_event x) s))
      in audit ''RESERVATION_CREATED'' (o_id x) (audit ''ORDER_CREATED'' (o_id x) s))"

definition checkout ::
  "orders_service \<Rightarrow> entropy \<Rightarrow> uuid \<Rightarrow> uuid \<Rightarrow> uuid \<Rightarrow> string \<Rightarrow> string option \<Rightarrow> db \<Rightarrow> order res \<times> db" where
  "checkout sv en participant ev cat token answers s =
     and_then (os_gate sv participant ev cat token s) (\<lambda>_ s.
     and_then (validate_answers sv ev cat answers s, s) (\<lambda>_ s.
     and_then (exec_tx (checkout_tx sv en participant ev cat token answers) s) (\<lambda>x s.
     (Inr x, after_checkout sv participant x s))))"

section \<open>Guest checkout\<close>

text \<open>The request's two spellings of the answers are \<open>gr_form_answers\<close> and \<open>gr_answers\<close>, marshalled.\<close>

record guest_request =
  gr_email :: string
  gr_name :: string
  gr_phone :: string
  gr_terms_accepted :: bool
  gr_terms_version :: string
  gr_waiver_accepted :: bool
  gr_waiver_version :: string
  gr_token :: string
  gr_form_answers :: "string option"
  gr_answers :: "string option"

definition guest_answers :: "guest_request \<Rightarrow> string option" where
  "guest_answers r = (case gr_form_answers r of None \<Rightarrow> gr_answers r | Some a \<Rightarrow> Some a)"

definition new_guest_order :: "orders_service \<Rightarrow> entropy \<Rightarrow> category \<Rightarrow> string \<Rightarrow> guest_request \<Rightarrow> order" where
  "new_guest_order sv en c number r =
     \<lparr> o_id = en_order en, o_org = c_org c, o_event = c_event c, o_category = c_id c,
       o_participant = None, o_number = number, o_status = OrdPendingPayment,
       o_subtotal = c_price c, o_fee = 0, o_discount = 0, o_total = c_price c,
       o_expired_at = Some (en_now en + os_ttl sv),
       o_guest_email = Some (gr_email r), o_guest_name = null_text (gr_name r),
       o_guest_phone = null_text (gr_phone r), o_terms_accepted_at = Some (en_now en),
       o_terms_version = null_text (gr_terms_version r),
       o_waiver_accepted_at = (if gr_waiver_accepted r then Some (en_now en) else None),
       o_waiver_version = null_text (gr_waiver_version r),
       o_form_answers = (case guest_answers r of None \<Rightarrow> ''{}'' | Some a \<Rightarrow> a),
       o_refunded_amount = 0, o_refund_reason = None, o_refunded_at = None \<rparr>"

definition guest_checkout_tx ::
  "orders_service \<Rightarrow> entropy \<Rightarrow> guest_request \<Rightarrow> uuid \<Rightarrow> uuid \<Rightarrow> db \<Rightarrow> order res \<times> db" where
  "guest_checkout_tx sv en r ev cat s =
     and_then (open_category ev cat (en_now en) s s s s) (\<lambda>c s.
     and_then (require (int (count_active_orders_for_guest_category cat (gr_email r) s)
       < c_max_order_per_user c) ErrMaxOrderExceeded s) (\<lambda>_ s.
     and_then (unique_order_number en s, s) (\<lambda>number s.
     and_then (create_order (new_guest_order sv en c number r) s) (\<lambda>x s.
     and_then (reserve_for en c x nil_uuid s) (\<lambda>_ s.
     (Inr x, s))))))"

definition guest_checkout ::
  "orders_service \<Rightarrow> entropy \<Rightarrow> guest_request \<Rightarrow> uuid \<Rightarrow> uuid \<Rightarrow> db \<Rightarrow> order res \<times> db" where
  "guest_checkout sv en r ev cat s =
     and_then (require (gr_email r \<noteq> []) ErrGuestEmailRequired s) (\<lambda>_ s.
     and_then (require (gr_terms_accepted r) ErrTermsRequired s) (\<lambda>_ s.
     and_then (os_gate sv nil_uuid ev cat (gr_token r) s) (\<lambda>_ s.
     and_then (validate_answers sv ev cat (guest_answers r) s, s) (\<lambda>_ s.
     and_then (exec_tx (guest_checkout_tx sv en r ev cat) s) (\<lambda>x s.
     (Inr x, audit ''RESERVATION_CREATED'' (o_id x) (audit ''GUEST_ORDER_CREATED'' (o_id x) s)))))))"

section \<open>Cancellation, claim, refund, expiry\<close>

definition owned_order :: "uuid \<Rightarrow> uuid \<Rightarrow> db \<Rightarrow> order res" where
  "owned_order participant oid s =
     (case get_order_by_id oid s of
        None \<Rightarrow> Inl ErrOrderNotFound
      | Some x \<Rightarrow> if o_participant x \<noteq> Some participant then Inl ErrOrderNotFound else Inr x)"

definition cancel_tx :: "uuid \<Rightarrow> uuid \<Rightarrow> db \<Rightarrow> order res \<times> db" where
  "cancel_tx participant oid s =
     and_then (owned_order participant oid s, s) (\<lambda>x s.
     and_then (require (o_status x = OrdPendingPayment) ErrInvalidState s) (\<lambda>_ s.
     and_then (update_order_status oid OrdCancelled OrdPendingPayment s) (\<lambda>y s.
     (Inr y, Inventory.release oid ResReleased s))))"

definition cancel :: "uuid \<Rightarrow> uuid \<Rightarrow> db \<Rightarrow> unit res \<times> db" where
  "cancel participant oid s =
     and_then (exec_tx (cancel_tx participant oid) s) (\<lambda>y s.
     (Inr (), audit ''ORDER_CANCELLED'' (o_id y) s))"

definition get_for_participant :: "uuid \<Rightarrow> uuid \<Rightarrow> db \<Rightarrow> order res" where
  "get_for_participant participant oid s = owned_order participant oid s"

definition claim_order_tx :: "uuid \<Rightarrow> uuid \<Rightarrow> db \<Rightarrow> order res \<times> db" where
  "claim_order_tx u oid s =
     and_then (found ErrOrderNotFound (get_order_by_id oid s) s) (\<lambda>x s.
     and_then (require (o_participant x = None) ErrOrderAlreadyClaimed s) (\<lambda>_ s.
     and_then (link_order_to_participant oid u s) (\<lambda>y s.
     (Inr y, snd (link_ticket_to_participant oid u s)))))"

definition claim_order :: "uuid \<Rightarrow> uuid \<Rightarrow> db \<Rightarrow> order res \<times> db" where
  "claim_order u oid s =
     and_then (exec_tx (claim_order_tx u oid) s) (\<lambda>y s.
     (Inr y, audit ''ORDER_CLAIMED'' (o_id y) s))"

definition refund_order_tx ::
  "uuid \<Rightarrow> uuid \<Rightarrow> uuid \<Rightarrow> int \<Rightarrow> string \<Rightarrow> time \<Rightarrow> db \<Rightarrow> order res \<times> db" where
  "refund_order_tx org ev oid amount reason now s =
     and_then (found ErrOrderNotFound (get_order_by_id oid s) s) (\<lambda>x s.
     and_then (require (o_org x = org \<and> o_event x = ev) ErrOrderNotFound s) (\<lambda>_ s.
     and_then (require (o_status x = OrdPaid) ErrInvalidState s) (\<lambda>_ s.
     record_order_refund oid
       (if amount \<le> 0 \<or> amount > o_total x then o_total x else amount) (null_text reason) now s)))"

definition refund_order ::
  "uuid \<Rightarrow> uuid \<Rightarrow> uuid \<Rightarrow> int \<Rightarrow> string \<Rightarrow> time \<Rightarrow> db \<Rightarrow> order res \<times> db" where
  "refund_order org ev oid amount reason now s =
     and_then (exec_tx (refund_order_tx org ev oid amount reason now) s) (\<lambda>y s.
     (Inr y, audit ''ORDER_REFUNDED'' (o_id y) s))"

text \<open>One round of the expiry loop; the result counts the expired orders. A row that is no longer
  PENDING_PAYMENT is skipped. \<open>inv.Release\<close> has no error the model can produce.\<close>

definition expire_order :: "uuid \<Rightarrow> nat \<times> db \<Rightarrow> nat \<times> db" where
  "expire_order oid r =
     (case update_order_status oid OrdExpired OrdPendingPayment (snd r) of
        (Inl _, s) \<Rightarrow> (fst r, s)
      | (Inr x, s) \<Rightarrow> (Suc (fst r),
          audit ''RESERVATION_EXPIRED'' (o_id x)
            (audit ''ORDER_EXPIRED'' (o_id x) (Inventory.release oid ResExpired s))))"

definition expire_orders :: "uuid set \<Rightarrow> nat \<Rightarrow> time \<Rightarrow> db \<Rightarrow> nat \<times> db" where
  "expire_orders locked batch now s =
     fold expire_order (list_expired_pending_orders locked batch now s) (0, s)"

section \<open>The wiring of \<open>app/server.go\<close>\<close>

text \<open>What the production wiring leaves open: the library functions on UUIDs, the clock and the
  grant id the priority checker's INSERT generates.\<close>

record production_config =
  pc_parse_uuid :: "string \<Rightarrow> uuid option"
  pc_uuid_string :: "uuid \<Rightarrow> string"
  pc_now :: time
  pc_grant_id :: uuid

definition production_deps :: "production_config \<Rightarrow> gate_deps" where
  "production_deps cfg =
     \<lparr> gd_queue = Some (check_admission (pc_uuid_string cfg) (pc_now cfg)),
       gd_lifecycle = Some is_window_open,
       gd_ballot = Some (check_grant (pc_parse_uuid cfg) (pc_now cfg)),
       gd_grant = Some (check_grant (pc_parse_uuid cfg) (pc_now cfg)),
       gd_priority = Some (\<lambda>participant ev cat token s.
         check_priority_admission (pc_parse_uuid cfg) (pc_now cfg) (pc_grant_id cfg)
           (is_window_open cat ModePriorityAccess) participant ev cat token s) \<rparr>"

definition production_service ::
  "production_config \<Rightarrow> int \<Rightarrow> (uuid \<Rightarrow> uuid \<Rightarrow> string option \<Rightarrow> db \<Rightarrow> unit res) \<Rightarrow> orders_service" where
  "production_service cfg ttl validator =
     \<lparr> os_ttl = ttl, os_gate = admit (production_deps cfg), os_validator = Some validator,
       os_hook = Some consume_on_checkout, os_parse_uuid = pc_parse_uuid cfg \<rparr>"

section \<open>What the collaborators may change\<close>

text \<open>The tables of the sale: a collaborator of the checkout leaves them alone.\<close>

definition same_stock :: "db \<Rightarrow> db \<Rightarrow> bool" where
  "same_stock s s' \<longleftrightarrow> users s' = users s \<and> events s' = events s \<and> categories s' = categories s \<and>
     orders s' = orders s \<and> reservations s' = reservations s \<and> tickets s' = tickets s \<and>
     payments s' = payments s \<and> webhooks s' = webhooks s"

lemma same_stock_refl [simp]: "same_stock s s"
  by (simp add: same_stock_def)

lemma same_stock_trans [trans]: "same_stock s t \<Longrightarrow> same_stock t u \<Longrightarrow> same_stock s u"
  by (simp add: same_stock_def)

lemma same_stock_audit [simp]: "same_stock s (audit a i s') \<longleftrightarrow> same_stock s s'"
  by (simp add: same_stock_def)

lemma same_stock_rollback: "webhooks s1 = webhooks s \<Longrightarrow> same_stock s (rollback s s1)"
  by (simp add: same_stock_def)

lemma stock_inv_same:
  "same_stock s s' \<Longrightarrow> stock_inv s' = stock_inv s"
  "same_stock s s' \<Longrightarrow> within_capacity s' = within_capacity s"
  "same_stock s s' \<Longrightarrow> held c s' = held c s" "same_stock s s' \<Longrightarrow> seats c s' = seats c s"
  using stock_inv_cong [of s' s] held_cong [of s' s]
  by (simp_all add: same_stock_def seats_def stock_queries)

lemma reserve_pool_slot_same_stock: "same_stock s (snd (reserve_pool_slot pid s))"
  by (auto simp: reserve_pool_slot_def update_pools_def same_stock_def Let_def split: if_splits option.splits prod.splits)

lemma create_access_grant_same_stock:
  "same_stock s t \<Longrightarrow> same_stock s (snd (create_access_grant g p u e c k x t))"
  by (auto simp: create_access_grant_def same_stock_def Let_def split: if_splits option.splits)

lemma check_priority_admission_same_stock:
  "same_stock s (snd (check_priority_admission parse now gid w p e c tok s))"
  unfolding check_priority_admission_def
  by (auto intro!: and_then_inv [where I = "same_stock s"] create_access_grant_same_stock
      reserve_pool_slot_same_stock)

lemma consume_on_checkout_same_stock: "same_stock s (snd (consume_on_checkout p ev s))"
  unfolding consume_on_checkout_def
  by (cases "get_active_admission ev p s")
    (simp_all add: same_stock_def mark_token_completed_def consume_admission_def
      set_admission_status_def)

section \<open>The interface of the gate and of the hook\<close>

text \<open>What checkout relies on: the gate and the hook do not touch the sale's tables. A tick of the
  gate alone gives the guest checkout its contract, with the hook the checkout its own.\<close>

locale registration_gate =
  fixes gate :: "uuid \<Rightarrow> uuid \<Rightarrow> uuid \<Rightarrow> string \<Rightarrow> db \<Rightarrow> unit res \<times> db"
  assumes gate_same_stock: "same_stock s (snd (gate participant ev cat token s))"
begin

lemma gate_result: "gate participant ev cat token s = (r, s') \<Longrightarrow> same_stock s s'"
  using gate_same_stock [of s participant ev cat token] by simp

end

locale checkout_service = registration_gate "os_gate sv" for sv :: orders_service +
  assumes hook_same_stock: "os_hook sv = Some h \<Longrightarrow> same_stock s (snd (h participant ev s))"
begin

lemma after_checkout_same_stock: "same_stock s (after_checkout sv participant x s)"
  by (auto simp: after_checkout_def Let_def hook_same_stock split: option.split)

end

interpretation noop: registration_gate noop_gate
  by unfold_locales (simp add: noop_gate_def)

interpretation production: checkout_service "production_service cfg ttl validator" for cfg ttl validator
proof unfold_locales
  show "same_stock s (snd (os_gate (production_service cfg ttl validator) participant ev cat token s))"
    for s participant ev cat token
    unfolding production_service_def orders_service.simps
    by (rule admit_frame [where I = same_stock])
      (auto simp: production_deps_def check_priority_admission_same_stock)
  show "same_stock s (snd (h participant ev s))"
    if "os_hook (production_service cfg ttl validator) = Some h" for h s participant ev
    using that by (auto simp: production_service_def consume_on_checkout_same_stock)
qed

section \<open>Lemmas on the checkout transaction\<close>

lemma open_category_Inr:
  "open_category ev cat now s0 s1 s2 s = (Inr c, s') \<Longrightarrow>
     s' = s \<and> c_id c = cat \<and> c_event c = ev \<and> c \<in> set (categories s0) \<and>
     ev \<in> e_id ` set (events s0) \<and>
     int (count_active_reservations_by_category cat s1 + count_paid_by_category cat s2) < c_capacity c"
  unfolding open_category_def and_then_Inr
  by (auto simp: check_and_lock_at_Inr lock_category_for_update_def get_event_by_id_def image_iff
      dest!: sel_SomeD)

lemma create_order_Inr:
  "create_order x s = (Inr y, s') \<Longrightarrow> y = x \<and> o_id x \<notin> o_id ` set (orders s) \<and>
     o_number x \<notin> o_number ` set (orders s) \<and> 0 \<le> o_total x \<and> s' = s\<lparr>orders := orders s @ [x]\<rparr>"
  by (auto simp: create_order_def split: if_splits)

lemma first_unused_number_Inr:
  "first_unused_number day rnds s = Inr n \<Longrightarrow>
     n \<notin> o_number ` set (orders s) \<and> (\<exists>rnd \<in> set rnds. n = generate_order_number day rnd)"
  by (induction rnds) (auto simp: Let_def get_order_by_number_def sel_None_iff split: if_splits)

lemma consume_checkout_grant_same_stock:
  "same_stock s (snd (consume_checkout_grant sv en p cat token oid s))"
  by (auto simp: consume_checkout_grant_def same_stock_def consume_grant_def consume_grant_row_def
      and_then_def on_no_rows_def split: option.splits prod.splits sum.splits if_splits)

text \<open>A new pending order with its active reservation, and nothing else in the sale's tables.\<close>

definition placed :: "category \<Rightarrow> order \<Rightarrow> db \<Rightarrow> db \<Rightarrow> bool" where
  "placed c x s s' \<longleftrightarrow> o_id x \<notin> o_id ` set (orders s) \<and> o_number x \<notin> o_number ` set (orders s) \<and>
     o_status x = OrdPendingPayment \<and> o_category x = c_id c \<and>
     (\<exists>r. r_order r \<notin> r_order ` set (reservations s) \<and> r_order r = o_id x \<and>
        r_category r = o_category x \<and> r_status r = ResActive \<and>
        same_stock (s\<lparr>orders := orders s @ [x], reservations := reservations s @ [r]\<rparr>) s')"

lemma placed_intro:
  assumes "create_order y s = (Inr x, s1)" and "reserve_for en c x u s1 = (Inr r, s2)"
    and "same_stock s2 s'" and "o_status y = OrdPendingPayment" and "o_category y = c_id c"
  shows "placed c x s s' \<and> x = y \<and> u \<in> u_id ` set (users s)"
proof -
  from create_order_Inr [OF assms(1)] have y: "x = y" "o_id x \<notin> o_id ` set (orders s)"
    "o_number x \<notin> o_number ` set (orders s)" "s1 = s\<lparr>orders := orders s @ [x]\<rparr>" by auto
  from create_reservation_Inr [OF assms(2) [unfolded reserve_for_def reserve_def]]
  show ?thesis using y assms(3-5) unfolding placed_def by auto
qed

lemma placed_stock:
  assumes inv: "stock_inv s" and new: "placed c x s s'"
  shows "stock_inv s'" and "seats k s' = (fst (seats k s) + of_bool (k = c_id c), snd (seats k s))"
    and "categories s' = categories s" and "held k s' = held k s + of_bool (k = c_id c)"
proof -
  from new obtain r where fresh: "o_id x \<notin> o_id ` set (orders s)" "r_order r \<notin> r_order ` set (reservations s)"
    and r: "r_order r = o_id x" "r_category r = o_category x" "r_status r = ResActive"
      "o_status x = OrdPendingPayment" and c: "o_category x = c_id c"
    and g: "same_stock (s\<lparr>orders := orders s @ [x], reservations := reservations s @ [r]\<rparr>) s'"
    unfolding placed_def by auto
  from stock_inv_insert [OF inv fresh r, of "s\<lparr>orders := orders s @ [x], reservations := reservations s @ [r]\<rparr>"]
    stock_inv_same [OF g] c
  show "stock_inv s'" and seats: "seats k s' = (fst (seats k s) + of_bool (k = c_id c), snd (seats k s))"
    by auto
  from g show "categories s' = categories s" by (simp add: same_stock_def)
  from seats show "held k s' = held k s + of_bool (k = c_id c)" by (simp add: held_seats)
qed

text \<open>What a committed checkout transaction wrote.\<close>

lemma checkout_tx_at_Inr:
  assumes "checkout_tx_at sv en p ev cat token answers s0 s1 s2 s = (Inr x, s')"
  obtains c number sg where "open_category ev cat (en_now en) s0 s1 s2 s = (Inr c, s)"
    and "int (count_active_orders_for_user_category cat p s) < c_max_order_per_user c"
    and "unique_order_number en s = Inr number"
    and "x = new_order sv en c p number answers"
    and "grants sg = grants s" and "consume_checkout_grant sv en p cat token (o_id x) sg = (Inr (), s')"
    and "placed c x s s'"
proof -
  from assms obtain c sa number sb y sg where
    c: "open_category ev cat (en_now en) s0 s1 s2 s = (Inr c, sa)"
    and n: "int (count_active_orders_for_user_category cat p sa) < c_max_order_per_user c"
    and num: "unique_order_number en sa = Inr number"
    and o: "create_order (new_order sv en c p number answers) sa = (Inr x, sb)"
    and r: "reserve_for en c x p sb = (Inr y, sg)"
    and g: "consume_checkout_grant sv en p cat token (o_id x) sg = (Inr (), s')"
    unfolding checkout_tx_at_def and_then_Inr by auto
  from open_category_Inr [OF c] have sa: "sa = s" by simp
  from create_order_Inr [OF o] create_reservation_Inr [OF r [unfolded reserve_for_def reserve_def]]
  have "grants sg = grants s" by (auto simp: sa)
  moreover have "same_stock sg s'"
    using consume_checkout_grant_same_stock [of sg sv en p cat token "o_id x"] g by simp
  then have "placed c x s s'" and "x = new_order sv en c p number answers"
    using placed_intro [OF o r] by (auto simp: sa new_order_def)
  ultimately show thesis using that c n num g sa by blast
qed

lemma checkout_tx_at_webhooks:
  "webhooks (snd (checkout_tx_at sv en p ev cat token answers s0 s1 s2 s)) = webhooks s"
  unfolding checkout_tx_at_def
  by (rule and_then_inv [where I = "\<lambda>t. webhooks t = webhooks s"]
      | use consume_checkout_grant_same_stock [unfolded same_stock_def] in
        \<open>simp add: open_category_def create_order_def reserve_for_def reserve_def create_reservation_def Let_def\<close>)+

lemma checkout_tx_at_stock:
  assumes "stock_inv s"
    and run: "checkout_tx_at sv en p ev cat token answers s0 s1 s2 s = (Inr x, s')"
  shows "stock_inv s'" and "held c s' = held c s + of_bool (c = cat)" and "categories s' = categories s"
proof -
  from run obtain k where "placed k x s s'" "c_id k = cat"
    by (rule checkout_tx_at_Inr) (use open_category_Inr in blast)
  with placed_stock(1,3,4) [OF assms(1)] show "stock_inv s'" "held c s' = held c s + of_bool (c = cat)"
    "categories s' = categories s" by auto
qed

text \<open>Statements of other transactions between those of a checkout: the locked category row stays,
  no reservation of the category appears, and no place is taken.\<close>

definition settling :: "uuid \<Rightarrow> db \<Rightarrow> db \<Rightarrow> bool" where
  "settling cat s s' \<longleftrightarrow> categories s' = categories s \<and>
     count_active_reservations_by_category cat s' \<le> count_active_reservations_by_category cat s \<and>
     held cat s' \<le> held cat s"

lemma settling_refl [simp]: "settling cat s s"
  by (simp add: settling_def)

lemma settling_trans [trans]: "settling cat s t \<Longrightarrow> settling cat t u \<Longrightarrow> settling cat s u"
  by (auto simp: settling_def)

text \<open>The reservations are read before the paid orders: a payment that lands in between is counted
  on both sides, never on none.\<close>

lemma open_category_capacity:
  assumes open_cat: "open_category ev cat now s0 s1 s2 s = (Inr c, s)"
    and inv: "stock_inv s" and new: "placed c x s s'"
    and env: "settling cat s0 s1" "settling cat s1 s2" "settling cat s2 s"
    and k: "k \<in> set (categories s')" "c_id k = cat"
  shows "int (held cat s') \<le> c_capacity k"
proof -
  from open_category_Inr [OF open_cat] have cap: "c_id c = cat" "c \<in> set (categories s0)"
    "int (count_active_reservations_by_category cat s1 + count_paid_by_category cat s2) < c_capacity c"
    by auto
  have cats: "categories s0 = categories s" using env by (auto simp: settling_def)
  from inv have "distinct (map c_id (categories s))" by (simp add: stock_inv_def)
  with cats k cap(1,2) placed_stock(3) [OF inv new] have "k = c" by (auto intro: distinct_key_unique)
  moreover have "held cat s \<le> count_active_reservations_by_category cat s1 + count_paid_by_category cat s2"
    using env unfolding settling_def held_def by linarith
  moreover have "held cat s' = held cat s + 1"
    using placed_stock(4) [OF inv new, of cat] cap(1) by simp
  ultimately show ?thesis using cap(3) by simp
qed

lemma open_category_seats:
  assumes "stock_inv s" and "open_category ev cat now s s s s = (Inr c, s)" and "placed c x s s'"
    and k: "k \<in> set (categories s)"
  shows "(seat_step (c_capacity k))\<^sup>*\<^sup>* (seats (c_id k) s) (seats (c_id k) s')"
proof (cases "c_id k = cat")
  case True
  from open_category_Inr [OF assms(2)] have c: "c_id c = cat" "c \<in> set (categories s)"
    "int (fst (seats cat s) + snd (seats cat s)) < c_capacity c" by (auto simp: seats_def)
  moreover have "k = c"
    using True c k assms(1) by (auto simp: stock_inv_def intro: distinct_key_unique)
  ultimately show ?thesis using placed_stock(2) [OF assms(1,3), of cat]
      True seat_step.reserved [of "fst (seats cat s)" "snd (seats cat s)" "c_capacity c"]
    by (cases "seats cat s") auto
next
  case False
  with placed_stock(2) [OF assms(1,3)] open_category_Inr [OF assms(2)] show ?thesis by simp
qed

lemma guest_checkout_tx_Inr:
  assumes "guest_checkout_tx sv en r ev cat s = (Inr x, s')"
  obtains c where "open_category ev cat (en_now en) s s s s = (Inr c, s)" and "placed c x s s'"
    and "nil_uuid \<in> u_id ` set (users s)"
proof -
  from assms obtain c sa number sb y where
    c: "open_category ev cat (en_now en) s s s s = (Inr c, sa)"
    and o: "create_order (new_guest_order sv en c number r) sa = (Inr x, sb)"
    and r: "reserve_for en c x nil_uuid sb = (Inr y, s')"
    unfolding guest_checkout_tx_def and_then_Inr by auto
  from open_category_Inr [OF c] have "sa = s" by simp
  moreover have "o_status (new_guest_order sv en c number r) = OrdPendingPayment"
    "o_category (new_guest_order sv en c number r) = c_id c" by (simp_all add: new_guest_order_def)
  ultimately have "placed c x s s'" "nil_uuid \<in> u_id ` set (users s)"
    using placed_intro [OF o r same_stock_refl] by auto
  with c \<open>sa = s\<close> that show thesis by blast
qed

context checkout_service begin

lemma checkout_cases:
  assumes "checkout sv en p ev cat token answers s = (r, s')"
  obtains (refused) e where "r = Inl e" "same_stock s s'"
  | (sold) x s1 s2 where "r = Inr x" "same_stock s s1"
      "checkout_tx sv en p ev cat token answers s1 = (Inr x, s2)" "same_stock s2 s'"
proof (cases "os_gate sv p ev cat token s")
  case (Pair g s1)
  with gate_result have s1: "same_stock s s1" by blast
  let ?tx = "checkout_tx sv en p ev cat token answers"
  let ?v = "validate_answers sv ev cat answers s1"
  consider (gate) e where "g = Inl e" | (form) e where "g = Inr ()" "?v = Inl e"
    | (tx) "g = Inr ()" "?v = Inr ()"
    by (metis old.unit.exhaust sum.exhaust)
  then show thesis
  proof cases
    case gate
    with assms Pair s1 refused [of e] show thesis by (auto simp: checkout_def)
  next
    case form
    with assms Pair s1 refused [of e] show thesis by (auto simp: checkout_def)
  next
    case tx
    with assms Pair have run: "and_then (exec_tx ?tx s1) (\<lambda>x s. (Inr x, after_checkout sv p x s)) = (r, s')"
      by (simp add: checkout_def)
    show thesis
    proof (cases "?tx s1")
      case (Pair t s2)
      show thesis
      proof (cases t)
        case (Inl e)
        with Pair run have "r = Inl e" "s' = rollback s1 s2" by (simp_all add: exec_tx_def)
        moreover have "webhooks s2 = webhooks s1"
          using checkout_tx_at_webhooks [of sv en p ev cat token answers s1 s1 s1 s1] Pair
          by (simp add: checkout_tx_def)
        ultimately show thesis using refused same_stock_trans [OF s1 same_stock_rollback] by simp
      next
        case (Inr x)
        with Pair run have "r = Inr x" "s' = after_checkout sv p x s2" by (simp_all add: exec_tx_def)
        with Pair Inr s1 sold after_checkout_same_stock show thesis by blast
      qed
    qed
  qed
qed

end

section \<open>The life of an order\<close>

text \<open>The transitions of an order's status, and what each operation owes the sale: the tie between
  orders and reservations, categories that stay and whose seats only move as \<open>seat_step\<close> allows, and
  orders that only move along these transitions. \<open>calm\<close> operations take no place in any category.\<close>

inductive moves_to :: "order_status \<Rightarrow> order_status \<Rightarrow> bool" where
  paid: "moves_to OrdPendingPayment OrdPaid"
| expired: "moves_to OrdPendingPayment OrdExpired"
| cancelled: "moves_to OrdPendingPayment OrdCancelled"
| refunded: "moves_to OrdPaid OrdRefunded"

inductive_cases moves_to_cases: "moves_to a b"

inductive_simps moves_to_simps [simp]:
  "moves_to OrdPendingPayment b" "moves_to OrdPaid b" "moves_to OrdExpired b"
  "moves_to OrdCancelled b" "moves_to OrdRefunded b" "moves_to OrdDraft b"

definition orders_evolve :: "db \<Rightarrow> db \<Rightarrow> bool" where
  "orders_evolve s s' \<longleftrightarrow> (\<forall>x \<in> set (orders s). \<exists>x' \<in> set (orders s'). o_id x' = o_id x \<and>
     moves_to\<^sup>*\<^sup>* (o_status x) (o_status x'))"

text \<open>Papers: a PAID order has a ticket, a PAID or REFUNDED one a PAID payment, and a ticket belongs
  to a PAID or REFUNDED order.\<close>

definition ticketed :: "db \<Rightarrow> uuid set" where
  "ticketed s = t_order ` set (tickets s)"

definition paid_for :: "db \<Rightarrow> uuid set" where
  "paid_for s = p_order ` {p \<in> set (payments s). p_status p = PayPaid}"

definition fulfilled :: "db \<Rightarrow> bool" where
  "fulfilled s \<longleftrightarrow>
     (\<forall>x \<in> set (orders s). o_status x = OrdPaid \<longrightarrow> o_id x \<in> ticketed s) \<and>
     (\<forall>x \<in> set (orders s). o_status x = OrdPaid \<or> o_status x = OrdRefunded \<longrightarrow> o_id x \<in> paid_for s) \<and>
     (\<forall>i \<in> ticketed s. \<exists>x \<in> set (orders s). o_id x = i \<and> (o_status x = OrdPaid \<or> o_status x = OrdRefunded))"

definition sound :: "db \<Rightarrow> db \<Rightarrow> bool" where
  "sound s s' \<longleftrightarrow> (stock_inv s \<longrightarrow> stock_inv s' \<and> categories s' = categories s \<and>
       (\<forall>k \<in> set (categories s). (seat_step (c_capacity k))\<^sup>*\<^sup>* (seats (c_id k) s) (seats (c_id k) s')) \<and>
       (fulfilled s \<longrightarrow> fulfilled s')) \<and>
     orders_evolve s s'"

definition calm :: "db \<Rightarrow> db \<Rightarrow> bool" where
  "calm s s' \<longleftrightarrow> sound s s' \<and> (stock_inv s \<longrightarrow> (\<forall>c. settling c s s'))"

lemma final_status: "moves_to\<^sup>*\<^sup>* a b \<Longrightarrow> a \<in> {OrdExpired, OrdCancelled, OrdRefunded} \<Longrightarrow> b = a"
  by (induction rule: rtranclp_induct) auto

lemma paid_stays: "moves_to\<^sup>*\<^sup>* a b \<Longrightarrow> a = OrdPaid \<Longrightarrow> b = OrdPaid \<or> b = OrdRefunded"
  by (induction rule: rtranclp_induct) auto

lemma orders_evolve_same: "orders s' = orders s \<Longrightarrow> orders_evolve s s'"
  by (auto simp: orders_evolve_def)

lemma orders_evolve_trans: "orders_evolve s t \<Longrightarrow> orders_evolve t u \<Longrightarrow> orders_evolve s u"
  unfolding orders_evolve_def by (metis (no_types, lifting) rtranclp_trans)

lemma orders_evolve_upd:
  assumes "orders s' = upd P f (orders s)" and "\<And>x. o_id (f x) = o_id x"
    and "\<And>x. P x \<Longrightarrow> moves_to\<^sup>*\<^sup>* (o_status x) (o_status (f x))"
  shows "orders_evolve s s'"
  unfolding orders_evolve_def
proof
  fix x assume x: "x \<in> set (orders s)"
  show "\<exists>x' \<in> set (orders s'). o_id x' = o_id x \<and> moves_to\<^sup>*\<^sup>* (o_status x) (o_status x')"
  proof (cases "P x")
    case True
    with assms upd_changed [where P = P and f = f, OF x True] show ?thesis by (intro bexI [of _ "f x"]) simp_all
  next
    case False
    with assms upd_keeps [where P = P and f = f, OF x False] show ?thesis by (intro bexI [of _ x]) simp_all
  qed
qed

lemma sound_refl [simp]: "sound s s"
  by (simp add: sound_def orders_evolve_same)

lemma sound_trans [trans]: "sound s t \<Longrightarrow> sound t u \<Longrightarrow> sound s u"
  unfolding sound_def by (auto intro: orders_evolve_trans rtranclp_trans)

lemma sound_same_stock: "same_stock s s' \<Longrightarrow> sound s s'"
  using stock_inv_same [of s s']
  by (auto simp: sound_def same_stock_def fulfilled_def ticketed_def paid_for_def intro: orders_evolve_same)

lemma sound_within:
  assumes "sound s s'" and "stock_inv s" and "within_capacity s" shows "within_capacity s'"
proof -
  have "int (held (c_id k) s') \<le> c_capacity k" if "k \<in> set (categories s)" for k
    using assms that seats_bound [of "c_capacity k" "seats (c_id k) s" "seats (c_id k) s'"]
    by (simp add: sound_def within_capacity_def held_seats)
  with assms(1,2) show ?thesis by (simp add: sound_def within_capacity_def)
qed

lemma calm_sound: "calm s s' \<Longrightarrow> sound s s'"
  by (simp add: calm_def)

lemma calm_trans [trans]:
  assumes "calm s t" and "calm t u" shows "calm s u"
proof -
  have "stock_inv t" if "stock_inv s" using assms(1) that by (simp add: calm_def sound_def)
  with assms show ?thesis by (auto simp: calm_def intro: sound_trans settling_trans)
qed

lemma calm_same_stock: "same_stock s s' \<Longrightarrow> calm s s'"
  using stock_inv_same(3) [of s s']
  by (auto simp: calm_def sound_same_stock settling_def same_stock_def
      count_active_reservations_by_category_def)

lemma calm_refl [simp]: "calm s s"
  by (simp add: calm_same_stock)

lemma calm_fold:
  assumes "\<And>x s. calm (g s) (g (f x s))" shows "calm (g s) (g (fold f xs s))"
proof (induction xs arbitrary: s)
  case (Cons x xs)
  from calm_trans [OF assms [of s x] Cons [of "f x s"]] show ?case by simp
qed simp

text \<open>A pending order that leaves its state takes its reservation with it.\<close>

definition settled :: "uuid \<Rightarrow> order_status \<Rightarrow> reservation_status \<Rightarrow> db \<Rightarrow> db \<Rightarrow> bool" where
  "settled oid ost rst s s' \<longleftrightarrow>
     (\<exists>x \<in> set (orders s). o_id x = oid \<and> o_status x = OrdPendingPayment) \<and>
     orders s' = fst (settle oid ost rst (orders s) (reservations s)) \<and>
     reservations s' = snd (settle oid ost rst (orders s) (reservations s)) \<and>
     categories s' = categories s"

text \<open>Its papers: a ticket and a PAID payment if the new state is PAID, and none otherwise.\<close>

definition papers :: "uuid \<Rightarrow> order_status \<Rightarrow> db \<Rightarrow> db \<Rightarrow> bool" where
  "papers oid ost s s' \<longleftrightarrow> paid_for s \<subseteq> paid_for s' \<and>
     (if ost = OrdPaid then ticketed s' = insert oid (ticketed s) \<and> oid \<in> paid_for s' else ticketed s' = ticketed s)"

lemma papers_same: "same_stock s s' \<Longrightarrow> ost \<noteq> OrdPaid \<Longrightarrow> papers oid ost s s'"
  by (simp add: papers_def same_stock_def ticketed_def paid_for_def)

lemma settled_fulfilled:
  assumes inv: "stock_inv s" and st: "settled oid ost rst s s'" and ost: "moves_to OrdPendingPayment ost"
    and new: "papers oid ost s s'" and old: "fulfilled s"
  shows "fulfilled s'"
proof -
  from st obtain x where x: "x \<in> set (orders s)" "o_id x = oid" "o_status x = OrdPendingPayment"
    and s': "orders s' = upd (\<lambda>x. o_id x = oid \<and> o_status x = OrdPendingPayment) (\<lambda>x. x\<lparr>o_status := ost\<rparr>) (orders s)"
    unfolding settled_def settle_def by auto
  have unique: "z = x" if "z \<in> set (orders s)" "o_id z = oid" for z
    using that x inv by (auto simp: stock_inv_def intro: distinct_key_unique)
  have "o_id y \<in> ticketed s'" if y: "y \<in> set (orders s')" "o_status y = OrdPaid" for y
    using y(1) unfolding s'
    by (cases rule: upd_cases) (use y(2) old new in \<open>auto simp: fulfilled_def papers_def split: if_splits\<close>)
  moreover have "o_id y \<in> paid_for s'" if y: "y \<in> set (orders s')" "o_status y = OrdPaid \<or> o_status y = OrdRefunded" for y
    using y(1) unfolding s'
    by (cases rule: upd_cases) (use y(2) ost old new in \<open>auto simp: fulfilled_def papers_def split: if_splits\<close>)
  moreover have "\<exists>y \<in> set (orders s'). o_id y = i \<and> (o_status y = OrdPaid \<or> o_status y = OrdRefunded)"
    if "i \<in> ticketed s'" for i
  proof (cases "i \<in> ticketed s")
    case True
    with old obtain y where y: "y \<in> set (orders s)" "o_id y = i" "o_status y = OrdPaid \<or> o_status y = OrdRefunded"
      unfolding fulfilled_def by blast
    then show ?thesis unfolding s' by (auto intro!: bexI [of _ y] upd_keeps)
  next
    case False
    with that new have "i = oid \<and> ost = OrdPaid" by (auto simp: papers_def split: if_splits)
    moreover have "x\<lparr>o_status := ost\<rparr> \<in> set (orders s')"
      using x unfolding s' by (intro upd_changed [where f = "\<lambda>x. x\<lparr>o_status := ost\<rparr>"]) simp_all
    ultimately show ?thesis using x(2) by (intro bexI [of _ "x\<lparr>o_status := ost\<rparr>"]) simp_all
  qed
  ultimately show ?thesis unfolding fulfilled_def by blast
qed

lemma settled_calm:
  assumes st: "settled oid ost rst s s'" and rst: "rst \<noteq> ResActive" and ost: "moves_to OrdPendingPayment ost"
    and new: "papers oid ost s s'"
  shows "calm s s'"
proof -
  from st obtain x where x: "x \<in> set (orders s)" "o_id x = oid" "o_status x = OrdPendingPayment"
    and s': "orders s' = fst (settle oid ost rst (orders s) (reservations s))"
      "reservations s' = snd (settle oid ost rst (orders s) (reservations s))"
      "categories s' = categories s"
    unfolding settled_def by auto
  have pending: "ost \<noteq> OrdPendingPayment" using ost by auto
  have evolve: "orders_evolve s s'"
    by (rule orders_evolve_upd [OF s'(1) [unfolded settle_def fst_conv]]) (use ost in auto)
  have active: "count_active_reservations_by_category c s' \<le> count_active_reservations_by_category c s" for c
    unfolding count_active_reservations_by_category_def s'(2) settle_def snd_conv
    by (rule cnt_upd_le) (use rst in auto)
  show ?thesis
  proof (cases "stock_inv s")
    case True
    note held = held_settle_le [OF True rst x s'(1,2)]
    have "stock_inv s'" by (rule stock_inv_settle [OF True pending rst s'])
    moreover have "(seat_step (c_capacity k))\<^sup>*\<^sup>* (seats c s) (seats c s')" for k :: category and c
      by (rule seats_settle [OF True rst x s'(1,2)])
    ultimately show ?thesis using evolve active held s'(3) settled_fulfilled [OF True st ost new]
      by (auto simp: calm_def sound_def settling_def)
  next
    case False
    with evolve show ?thesis by (simp add: calm_def sound_def)
  qed
qed

lemma update_order_status_Inr:
  "update_order_status oid st old s = (Inr y, s') \<Longrightarrow>
     \<exists>x \<in> set (orders s). o_id x = oid \<and> o_status x = old \<and> y = x\<lparr>o_status := st\<rparr> \<and>
       s' = s\<lparr>orders := upd (\<lambda>x. o_id x = oid \<and> o_status x = old) (\<lambda>x. x\<lparr>o_status := st\<rparr>) (orders s)\<rparr>"
  by (auto simp: update_order_status_def upd_one_Some split: option.splits prod.splits dest!: sel_SomeD)

lemma update_order_status_Inl:
  "update_order_status oid st old s = (Inl e, s') \<Longrightarrow>
     s' = s \<and> e = NoRows \<and> (\<forall>x \<in> set (orders s). \<not> (o_id x = oid \<and> o_status x = old))"
  by (auto simp: update_order_status_def upd_one_None split: option.splits prod.splits)

lemma settled_release:
  assumes "update_order_status oid ost OrdPendingPayment s = (Inr y, s1)"
    and "same_stock (Inventory.release oid rst s1) s'"
  shows "settled oid ost rst s s'" and "o_id y = oid" and "tickets s' = tickets s" and "payments s' = payments s"
  using update_order_status_Inr [OF assms(1)] assms(2)
  by (auto simp: settled_def settle_def same_stock_def release_frame reservations_release)

lemma settled_release_calm:
  assumes "update_order_status oid ost OrdPendingPayment s = (Inr y, s1)"
    and "same_stock (Inventory.release oid rst s1) s'"
    and "rst \<noteq> ResActive" and "moves_to OrdPendingPayment ost" and "ost \<noteq> OrdPaid"
  shows "calm s s'"
  using settled_release [OF assms(1,2)] assms(3-5)
  by (auto intro!: settled_calm simp: papers_def ticketed_def paid_for_def)

text \<open>An update of orders that leaves their ids and categories alone and at most refunds.\<close>

lemma upd_fulfilled:
  assumes s': "orders s' = upd P f (orders s)"
    and f: "\<And>x. o_id (f x) = o_id x"
      "\<And>x. P x \<Longrightarrow> x \<in> set (orders s) \<Longrightarrow> o_status (f x) = o_status x \<or> o_status x = OrdPaid \<and> o_status (f x) = OrdRefunded"
    and same: "ticketed s' = ticketed s" "payments s' = payments s"
    and old: "fulfilled s"
  shows "fulfilled s'"
proof -
  have origin: "\<exists>x \<in> set (orders s). o_id x = o_id y \<and> (o_status y = o_status x \<or> o_status x = OrdPaid \<and> o_status y = OrdRefunded)"
    if "y \<in> set (orders s')" for y
    using that unfolding s' by (cases rule: upd_cases) (use f in force)+
  have forth: "\<exists>y \<in> set (orders s'). o_id y = o_id x \<and> (o_status y = o_status x \<or> o_status x = OrdPaid \<and> o_status y = OrdRefunded)"
    if "x \<in> set (orders s)" for x
  proof (cases "P x")
    case True
    with s' f that upd_changed [where P = P and f = f, OF that True] show ?thesis by (intro bexI [of _ "f x"]) auto
  next
    case False
    with s' upd_keeps [where P = P and f = f, OF that False] show ?thesis by (intro bexI [of _ x]) auto
  qed
  have paid: "paid_for s' = paid_for s" by (simp add: paid_for_def same)
  have "o_id y \<in> ticketed s" if y: "y \<in> set (orders s')" "o_status y = OrdPaid" for y
    using origin [OF y(1)] y(2) old unfolding fulfilled_def by auto
  moreover have "o_id y \<in> paid_for s" if y: "y \<in> set (orders s')" "o_status y = OrdPaid \<or> o_status y = OrdRefunded" for y
    using origin [OF y(1)] y(2) old unfolding fulfilled_def by (metis order_status.distinct)
  moreover have "\<exists>y \<in> set (orders s'). o_id y = i \<and> (o_status y = OrdPaid \<or> o_status y = OrdRefunded)"
    if "i \<in> ticketed s" for i
  proof -
    from old that obtain x where "x \<in> set (orders s)" "o_id x = i" "o_status x = OrdPaid \<or> o_status x = OrdRefunded"
      unfolding fulfilled_def by blast
    with forth show ?thesis by metis
  qed
  ultimately show ?thesis unfolding fulfilled_def same(1) paid by blast
qed

lemma order_upd_calm:
  assumes s': "orders s' = upd P f (orders s)" "reservations s' = reservations s"
      "categories s' = categories s"
    and f: "\<And>x. o_id (f x) = o_id x" "\<And>x. o_category (f x) = o_category x"
      "\<And>x. P x \<Longrightarrow> x \<in> set (orders s) \<Longrightarrow> o_status (f x) = o_status x \<or> o_status x = OrdPaid \<and> o_status (f x) = OrdRefunded"
    and same: "ticketed s' = ticketed s" "payments s' = payments s"
  shows "calm s s'"
proof -
  have evolve: "orders_evolve s s'"
    unfolding orders_evolve_def
  proof
    fix x assume x: "x \<in> set (orders s)"
    show "\<exists>x' \<in> set (orders s'). o_id x' = o_id x \<and> moves_to\<^sup>*\<^sup>* (o_status x) (o_status x')"
    proof (cases "P x")
      case True
      with f x have "moves_to\<^sup>*\<^sup>* (o_status x) (o_status (f x))" by fastforce
      with f s' upd_changed [where P = P and f = f, OF x True] show ?thesis by (intro bexI [of _ "f x"]) simp_all
    next
      case False
      with s' upd_keeps [where P = P and f = f, OF x False] show ?thesis by (intro bexI [of _ x]) simp_all
    qed
  qed
  have paid: "count_paid_by_category c s' \<le> count_paid_by_category c s" for c
    unfolding count_paid_by_category_def s'(1) by (rule cnt_upd_le) (use f in fastforce)
  then have held: "held c s' \<le> held c s" for c
    by (simp add: held_def count_active_reservations_by_category_def s'(2))
  show ?thesis
  proof (cases "stock_inv s")
    case inv: True
    have "pending_for (orders s') r" if "r \<in> set (reservations s)" "r_status r = ResActive" for r
    proof -
      from inv that obtain x where x: "x \<in> set (orders s)" "o_id x = r_order r"
        "o_status x = OrdPendingPayment" "o_category x = r_category r"
        unfolding stock_inv_def pending_for_def by blast
      let ?x = "if P x then f x else x"
      have "?x \<in> set (orders s')" using x(1) by (simp add: s'(1) upd_changed upd_keeps)
      moreover have "o_id ?x = r_order r \<and> o_status ?x = OrdPendingPayment \<and> o_category ?x = r_category r"
        using x f(1,2) f(3) [of x] by auto
      ultimately show ?thesis unfolding pending_for_def by blast
    qed
    moreover have "active_for (reservations s) y" if "y \<in> set (orders s')" "o_status y = OrdPendingPayment" for y
    proof -
      note y = that
      from y(1) [unfolded s'(1)] obtain x where x: "x \<in> set (orders s)" "o_id y = o_id x"
        "o_category y = o_category x" "o_status x = OrdPendingPayment"
        by (cases rule: upd_cases) (use y(2) f in fastforce)+
      with inv have "active_for (reservations s) x" by (simp add: stock_inv_def)
      with x show ?thesis by (simp add: active_for_def)
    qed
    moreover have "map o_id (orders s') = map o_id (orders s)" by (simp add: s'(1) map_upd f)
    ultimately have "stock_inv s'" using inv s'(2,3) by (simp add: stock_inv_def)
    moreover have "(seat_step (c_capacity k))\<^sup>*\<^sup>* (seats c s) (seats c s')" for k :: category and c
      using seats_return [OF paid] by (simp add: seats_def count_active_reservations_by_category_def s'(2))
    moreover have "fulfilled s \<Longrightarrow> fulfilled s'"
      by (rule upd_fulfilled [OF s'(1) f(1,3) same])
    ultimately have "sound s s'" using evolve s'(3) by (simp add: sound_def)
    then show ?thesis using held s'(2,3)
      by (simp add: calm_def settling_def count_active_reservations_by_category_def)
  next
    case False
    with evolve show ?thesis by (simp add: calm_def sound_def)
  qed
qed

section \<open>Every operation keeps the sale sound\<close>

lemma placed_sound:
  assumes "open_category ev cat now s s s s = (Inr c, s)" and "placed c x s s'"
  shows "sound s s'"
proof -
  from assms(2) have "set (orders s) \<subseteq> set (orders s')" by (auto simp: placed_def same_stock_def)
  then have "orders_evolve s s'" by (auto simp: orders_evolve_def)
  moreover have "fulfilled s'" if "fulfilled s"
    using that assms(2) by (auto simp: placed_def same_stock_def fulfilled_def ticketed_def paid_for_def)
  ultimately show ?thesis using placed_stock(1,3) [OF _ assms(2)] open_category_seats [OF _ assms]
    by (simp add: sound_def)
qed

lemma exec_tx_sound:
  assumes "webhooks (snd (f s)) = webhooks s" and "\<And>x s'. f s = (Inr x, s') \<Longrightarrow> R s s'"
    and "\<And>s'. same_stock s s' \<Longrightarrow> R s s'"
  shows "R s (snd (exec_tx f s))"
  using assms same_stock_rollback [of "snd (f s)" s]
  by (cases "f s"; cases "fst (f s)") (auto simp: exec_tx_def)

lemma and_then_post:
  assumes "R s (snd m)" and "\<And>x s'. m = (Inr x, s') \<Longrightarrow> R s s' \<Longrightarrow> R s (snd (k x s'))"
  shows "R s (snd (and_then m k))"
  using assms by (cases m; cases "fst m") auto

lemma same_stock_through: "sound s t \<Longrightarrow> same_stock t u \<Longrightarrow> sound s u"
  using sound_trans sound_same_stock by blast

context checkout_service begin

lemma checkout_sound: "sound s (snd (checkout sv en p ev cat token answers s))"
proof (cases "checkout sv en p ev cat token answers s")
  case (Pair r s')
  from Pair show ?thesis
  proof (cases rule: checkout_cases)
    case (refused e)
    with Pair sound_same_stock show ?thesis by simp
  next
    case (sold x s1 s2)
    from sold(3) [unfolded checkout_tx_def] have "sound s1 s2"
      by (rule checkout_tx_at_Inr) (rule placed_sound)
    with sold Pair same_stock_through sound_trans sound_same_stock show ?thesis by (metis snd_conv)
  qed
qed

end

context registration_gate begin

lemma guest_checkout_tx_webhooks: "webhooks (snd (guest_checkout_tx sv en r ev cat s)) = webhooks s"
  unfolding guest_checkout_tx_def
  by (rule and_then_inv [where I = "\<lambda>t. webhooks t = webhooks s"]
      | simp add: open_category_def create_order_def reserve_for_def reserve_def create_reservation_def Let_def)+

lemma guest_checkout_cases:
  assumes "os_gate sv = gate" and "guest_checkout sv en r ev cat s = (res, s')"
  obtains (refused) e where "res = Inl e" "same_stock s s'"
  | (sold) x s1 s2 where "res = Inr x" "same_stock s s1"
      "guest_checkout_tx sv en r ev cat s1 = (Inr x, s2)" "same_stock s2 s'"
proof -
  let ?tx = "guest_checkout_tx sv en r ev cat"
  have rolled: "same_stock s (rollback s1 s2)" if "same_stock s s1" "?tx s1 = (Inl e, s2)" for s1 s2 e
    using that same_stock_trans same_stock_rollback guest_checkout_tx_webhooks [of sv en r ev cat s1] by auto
  have g: "same_stock s t" if "os_gate sv nil_uuid ev cat (gr_token r) s = (q, t)" for q t
    using that gate_result assms(1) by blast
  show thesis
  proof (cases res)
    case (Inl e)
    with assms(2) have "same_stock s s'"
      unfolding guest_checkout_def
      by (auto simp: and_then_Inl and_then_Inr exec_tx_Inl exec_tx_Inr dest: g intro: rolled)
    with Inl refused show thesis by blast
  next
    case (Inr x)
    with assms(2) obtain s1 s2 where "os_gate sv nil_uuid ev cat (gr_token r) s = (Inr (), s1)"
      "?tx s1 = (Inr x, s2)" "same_stock s2 s'"
      unfolding guest_checkout_def by (auto simp: and_then_Inr exec_tx_Inr)
    with Inr g sold show thesis by blast
  qed
qed

lemma guest_checkout_sound:
  assumes "os_gate sv = gate" shows "sound s (snd (guest_checkout sv en r ev cat s))"
proof (cases "guest_checkout sv en r ev cat s")
  case (Pair res s')
  with assms show ?thesis
  proof (cases rule: guest_checkout_cases)
    case (refused e)
    with Pair sound_same_stock show ?thesis by simp
  next
    case (sold x s1 s2)
    from sold(3) have "sound s1 s2" by (rule guest_checkout_tx_Inr) (rule placed_sound)
    with sold Pair same_stock_through sound_trans sound_same_stock show ?thesis by (metis snd_conv)
  qed
qed

lemma guest_checkout_needs_nil:
  assumes "os_gate sv = gate" and "guest_checkout sv en r ev cat s = (Inr x, s')"
  shows "nil_uuid \<in> u_id ` set (users s)"
  using assms
proof (cases rule: guest_checkout_cases)
  case (sold y s1 s2)
  from sold(3) have "nil_uuid \<in> u_id ` set (users s1)" by (rule guest_checkout_tx_Inr)
  with sold(2) show ?thesis by (simp add: same_stock_def)
qed simp

end

lemma cancel_tx_Inr:
  assumes "cancel_tx p oid s = (Inr y, s')"
  obtains x s1 where "get_order_by_id oid s = Some x" "o_participant x = Some p" "o_status x = OrdPendingPayment"
    "update_order_status oid OrdCancelled OrdPendingPayment s = (Inr y, s1)"
    "s' = Inventory.release oid ResReleased s1"
  using assms by (auto simp: cancel_tx_def and_then_Inr owned_order_def split: option.splits if_splits)

lemma cancel_settled:
  assumes "cancel p oid s = (Inr (), s')"
  shows "settled oid OrdCancelled ResReleased s s'"
  using assms
  by (auto simp: cancel_def and_then_Inr exec_tx_Inr elim!: cancel_tx_Inr intro: settled_release)

lemma cancel_tx_frame: "webhooks (snd (cancel_tx p oid s)) = webhooks s"
  unfolding cancel_tx_def
  by (rule and_then_inv [where I = "\<lambda>t. webhooks t = webhooks s"]
      | simp add: update_order_status_def release_frame split: option.split)+

lemma cancel_calm: "calm s (snd (cancel p oid s))"
  unfolding cancel_def
proof (rule and_then_post [where R = calm and s = s])
  show "calm s (snd (exec_tx (cancel_tx p oid) s))"
    by (rule exec_tx_sound [OF cancel_tx_frame])
      (auto elim!: cancel_tx_Inr intro: calm_same_stock
        settled_release_calm [OF _ same_stock_refl])
qed (simp add: calm_trans calm_same_stock)

lemma expire_order_calm: "calm (snd r) (snd (expire_order oid r))"
proof (cases "update_order_status oid OrdExpired OrdPendingPayment (snd r)")
  case (Pair q s1)
  show ?thesis
  proof (cases q)
    case (Inl e)
    with Pair have "s1 = snd r" using update_order_status_Inl by blast
    with Pair Inl show ?thesis by (simp add: expire_order_def)
  next
    case (Inr x)
    let ?s = "snd (expire_order oid r)"
    from Pair Inr have "same_stock (Inventory.release oid ResExpired s1) ?s" by (simp add: expire_order_def)
    with settled_release_calm [OF Pair [unfolded Inr]] show ?thesis by simp
  qed
qed

lemma expire_orders_calm: "calm s (snd (expire_orders locked batch now s))"
  unfolding expire_orders_def
  using calm_fold [where g = snd and f = expire_order and s = "(0, s)"] expire_order_calm by simp

lemma ticketed_tables: "ticketed (s\<lparr>orders := os\<rparr>) = ticketed s"
  by (simp add: ticketed_def)

lemma link_ticket_frame:
  fixes u oid :: uuid and s :: db
  defines "t \<equiv> snd (link_ticket_to_participant oid u s)"
  shows "orders t = orders s" "reservations t = reservations s" "categories t = categories s"
    "payments t = payments s" "ticketed t = ticketed s"
proof -
  have "map t_order (upd P (\<lambda>t. t\<lparr>t_participant := Some u\<rparr>) ts) = map t_order ts" for P and ts :: "ticket list"
    by (simp add: map_upd)
  then have "t_order ` set (upd P (\<lambda>t. t\<lparr>t_participant := Some u\<rparr>) ts) = t_order ` set ts" for P and ts :: "ticket list"
    by (metis list.set_map)
  then show "ticketed t = ticketed s"
    by (simp add: t_def ticketed_def link_ticket_to_participant_def upd_one_def split: option.split)
qed (simp_all add: t_def link_ticket_to_participant_def split: option.split prod.split)

lemma claim_order_tx_calm: "claim_order_tx u oid s = (Inr y, s') \<Longrightarrow> calm s s'"
  unfolding claim_order_tx_def and_then_Inr
  by (auto simp: link_order_to_participant_def upd_one_Some link_ticket_frame ticketed_tables split: option.splits prod.splits if_splits
      intro!: order_upd_calm [where P = "\<lambda>x. o_id x = oid \<and> o_participant x = None"
        and f = "\<lambda>x. x\<lparr>o_participant := Some u\<rparr>"])

lemma claim_order_calm: "calm s (snd (claim_order u oid s))"
  unfolding claim_order_def
proof (rule and_then_post [where R = calm and s = s])
  have "webhooks (snd (claim_order_tx u oid s)) = webhooks s"
    unfolding claim_order_tx_def
    by (rule and_then_inv [where I = "\<lambda>t. webhooks t = webhooks s"]
        | simp add: link_order_to_participant_def link_ticket_to_participant_def split: option.split)+
  then show "calm s (snd (exec_tx (claim_order_tx u oid) s))"
    by (rule exec_tx_sound) (blast intro: claim_order_tx_calm calm_same_stock)+
qed (simp add: calm_trans calm_same_stock)

lemma refund_order_tx_Inr:
  assumes "refund_order_tx org ev oid amount reason now s = (Inr y, s')"
  obtains x where "get_order_by_id oid s = Some x" "o_org x = org" "o_event x = ev" "o_status x = OrdPaid"
    "record_order_refund oid (if amount \<le> 0 \<or> amount > o_total x then o_total x else amount)
       (null_text reason) now s = (Inr y, s')"
  using assms by (auto simp: refund_order_tx_def and_then_Inr)

lemma refund_order_tx_calm:
  assumes "distinct (map o_id (orders s))" and "refund_order_tx org ev oid amount reason now s = (Inr y, s')"
  shows "calm s s'"
proof -
  from assms(2) obtain x where x: "get_order_by_id oid s = Some x" "o_status x = OrdPaid"
    and r: "record_order_refund oid (if amount \<le> 0 \<or> amount > o_total x then o_total x else amount)
       (null_text reason) now s = (Inr y, s')"
    by (rule refund_order_tx_Inr)
  have unique: "z = x" if "z \<in> set (orders s)" "o_id z = oid" for z
    using that x(1) assms(1) by (auto simp: get_order_by_id_def intro: distinct_key_unique dest!: sel_SomeD)
  from r show ?thesis
    by (auto simp: ticketed_def record_order_refund_def upd_one_Some x(2) split: option.splits prod.splits
        intro!: order_upd_calm [where P = "\<lambda>x. o_id x = oid"] dest: unique)
qed

section \<open>The expiry worker\<close>

lemma upd_insert_key:
  assumes "\<And>x. \<not> q (f x)"
  shows "upd (\<lambda>x. k x \<in> ids \<and> q x) f (upd (\<lambda>x. k x = i \<and> q x) f t) = upd (\<lambda>x. k x \<in> insert i ids \<and> q x) f t"
  using assms by (induction t) auto

definition expire_in :: "uuid set \<Rightarrow> db \<Rightarrow> db \<Rightarrow> bool" where
  "expire_in ids s s' \<longleftrightarrow>
     orders s' = upd (\<lambda>x. o_id x \<in> ids \<and> o_status x = OrdPendingPayment)
       (\<lambda>x. x\<lparr>o_status := OrdExpired\<rparr>) (orders s) \<and>
     reservations s' = upd (\<lambda>r. r_order r \<in> ids \<and> r_status r = ResActive)
       (\<lambda>r. r\<lparr>r_status := ResExpired\<rparr>) (reservations s)"

lemma expire_in_insert:
  assumes "expire_in {i} s s1" and "expire_in ids s1 s2" shows "expire_in (insert i ids) s s2"
  using assms unfolding expire_in_def singleton_iff by (simp only: upd_insert_key) (simp add: upd_insert_key)

lemma expire_order_pending:
  assumes "x \<in> set (orders s)" "o_id x = i" "o_status x = OrdPendingPayment"
  shows "fst (expire_order i (n, s)) = Suc n \<and> expire_in {i} s (snd (expire_order i (n, s)))"
proof (cases "update_order_status i OrdExpired OrdPendingPayment s")
  case (Pair q s1)
  with assms have "\<exists>y. q = Inr y" using update_order_status_Inl [of i OrdExpired OrdPendingPayment s] by (cases q) auto
  then obtain y where y: "q = Inr y" by blast
  with Pair update_order_status_Inr [of i OrdExpired OrdPendingPayment s y s1] show ?thesis
    by (auto simp: expire_order_def expire_in_def release_frame reservations_release)
qed

lemma expire_fold:
  assumes "distinct ids" and "\<forall>i \<in> set ids. \<exists>x \<in> set (orders s). o_id x = i \<and> o_status x = OrdPendingPayment"
  shows "fst (fold expire_order ids (n, s)) = n + length ids \<and> expire_in (set ids) s (snd (fold expire_order ids (n, s)))"
  using assms
proof (induction ids arbitrary: n s)
  case Nil
  then show ?case by (simp add: expire_in_def upd_no_match)
next
  case (Cons i ids)
  from Cons.prems(2) obtain x where "x \<in> set (orders s)" "o_id x = i" "o_status x = OrdPendingPayment" by auto
  then have one: "fst (expire_order i (n, s)) = Suc n" "expire_in {i} s (snd (expire_order i (n, s)))"
    using expire_order_pending by blast+
  obtain s1 where s1: "expire_order i (n, s) = (Suc n, s1)" "expire_in {i} s s1"
    using one by (metis prod.collapse)
  have "\<exists>y \<in> set (orders s1). o_id y = j \<and> o_status y = OrdPendingPayment" if "j \<in> set ids" for j
  proof -
    from Cons.prems that obtain y where y: "y \<in> set (orders s)" "o_id y = j" "o_status y = OrdPendingPayment"
      by auto
    from Cons.prems(1) that have "j \<noteq> i" by auto
    with y s1(2) show ?thesis unfolding expire_in_def by (auto intro!: bexI [of _ y] upd_keeps)
  qed
  with Cons s1(1) have "fst (fold expire_order ids (Suc n, s1)) = Suc n + length ids \<and>
      expire_in (set ids) s1 (snd (fold expire_order ids (Suc n, s1)))" by simp
  with s1 expire_in_insert show ?case by auto
qed

lemma list_expired_in:
  "i \<in> set (list_expired_pending_orders locked lim now s) \<Longrightarrow>
     \<exists>x \<in> set (orders s). o_id x = i \<and> due_order now x \<and> i \<notin> locked"
  unfolding list_expired_pending_orders_def by (auto dest!: in_set_takeD)

lemma distinct_list_expired:
  assumes "distinct (map o_id (orders s))"
  shows "distinct (list_expired_pending_orders locked lim now s)"
proof -
  have "distinct (map o_id (sort_key f xs))" if "distinct (map o_id xs)" for f :: "order \<Rightarrow> time" and xs
    using that by (simp add: distinct_map)
  with assms show ?thesis
    unfolding list_expired_pending_orders_def take_map [symmetric]
    by (intro distinct_take distinct_map_filter) (simp add: distinct_map_filter)
qed

text \<open>C8: The expiry worker expires exactly the orders it listed: due PENDING_PAYMENT orders, up to the
  batch size, each with its reservation, and counts them; every other order and reservation row is
  as before, so a paid order never expires. If the batch is large enough and no row is locked by
  another transaction, no due order is left.\<close>

theorem expire_orders_exact:
  assumes "distinct (map o_id (orders s))" and "expire_orders locked batch now s = (n, s')"
  shows "\<exists>ids. n = length ids \<and> n \<le> batch \<and> expire_in (set ids) s s' \<and>
    (\<forall>x \<in> set (orders s). o_id x \<in> set ids \<longrightarrow> due_order now x) \<and>
    (length (filter (due_order now) (orders s)) \<le> batch \<and> locked = {} \<longrightarrow>
       (\<forall>x \<in> set (orders s'). \<not> due_order now x))"
proof -
  let ?ids = "list_expired_pending_orders locked batch now s"
  have pend: "\<exists>x \<in> set (orders s). o_id x = i \<and> o_status x = OrdPendingPayment" if "i \<in> set ?ids" for i
    using list_expired_in [OF that] by (auto simp: due_order_def)
  then have run: "n = length ?ids" "expire_in (set ?ids) s s'"
    using expire_fold [OF distinct_list_expired [OF assms(1), of locked batch now], of s 0] assms(2)
    by (auto simp: expire_orders_def)
  moreover have "n \<le> batch" unfolding run(1) by (simp add: list_expired_pending_orders_def)
  moreover have "\<forall>x \<in> set (orders s). o_id x \<in> set ?ids \<longrightarrow> due_order now x"
    using list_expired_in assms(1) by (metis distinct_key_unique)
  moreover have "\<not> due_order now y"
    if all: "length (filter (due_order now) (orders s)) \<le> batch" "locked = {}" and y: "y \<in> set (orders s')" for y
  proof -
    from y run(2) consider "y \<in> set (orders s)" "\<not> (o_id y \<in> set ?ids \<and> o_status y = OrdPendingPayment)"
      | x where "y = x\<lparr>o_status := OrdExpired\<rparr>" unfolding expire_in_def by (auto elim: upd_cases)
    then show ?thesis
    proof cases
      case 1
      have "set ?ids = o_id ` set (filter (due_order now) (orders s))"
        using all by (simp add: list_expired_pending_orders_def)
      with 1 show ?thesis by (auto simp: due_order_def)
    qed (simp add: due_order_def)
  qed
  ultimately show ?thesis by (intro exI [of _ ?ids]) auto
qed

section \<open>A demonstration sale\<close>

text \<open>One published event with one category of three places at price 10, two per participant; user 5
  holds a pending order with its reservation.\<close>

definition demo_pending :: order where
  "demo_pending = demo_order\<lparr>o_status := OrdPendingPayment, o_expired_at := Some 100\<rparr>"

definition demo_reservation :: reservation where
  "demo_reservation = \<lparr> r_id = 60, r_org = 1, r_event = 2, r_category = 3, r_order = 40,
     r_participant = 5, r_status = ResActive, r_expires_at = 100 \<rparr>"

definition demo_category :: category where
  "demo_category = \<lparr> c_id = 3, c_org = 1, c_event = 2, c_name = ''10K'', c_price = 10, c_capacity = 3,
     c_opens_at = None, c_closes_at = None, c_max_order_per_user = 2 \<rparr>"

definition demo_sale :: db where
  "demo_sale = demo_tickets\<lparr>events := [\<lparr>e_id = 2, e_org = 1, e_name = ''Run'', e_status = ''published''\<rparr>],
     categories := [demo_category], orders := [demo_pending], reservations := [demo_reservation]\<rparr>"

definition demo_config :: production_config where
  "demo_config = \<lparr> pc_parse_uuid = (\<lambda>t. if t = ''g'' then Some 9 else None), pc_uuid_string = (\<lambda>_. []),
     pc_now = 50, pc_grant_id = 0 \<rparr>"

definition demo_service :: orders_service where
  "demo_service = production_service demo_config 15 (\<lambda>_ _ _ _. Inr ())"

definition demo_entropy :: entropy where
  "demo_entropy = \<lparr> en_now = 50, en_day = ''20250101'', en_numbers = [[0, 1, 2, 3, 4, 5]], en_order = 41,
     en_reservation = 61 \<rparr>"

lemma demo_sale_ok: "stock_inv demo_sale" "within_capacity demo_sale"
  by code_simp+

lemma res_run: "fst r = Inr x \<Longrightarrow> r = (Inr x, snd r)"
  by (cases r) simp

lemma res_run_ok: "\<not> isl (fst r) \<Longrightarrow> r = (Inr (projr (fst r)), snd r)"
  by (cases r; cases "fst r") auto

theorem expire_orders_exact_witness:
  "\<exists>ids. length ids = 1 \<and> expire_in (set ids) demo_sale (snd (expire_orders {} 8 200 demo_sale)) \<and>
     (\<forall>x \<in> set (orders (snd (expire_orders {} 8 200 demo_sale))). \<not> due_order 200 x)"
proof -
  have run: "expire_orders {} 8 200 demo_sale = (1, snd (expire_orders {} 8 200 demo_sale))" (is "_ = (1, ?s)")
  proof -
    have "fst (expire_orders {} 8 200 demo_sale) = 1" by code_simp
    then show ?thesis by (metis prod.collapse)
  qed
  have ids: "distinct (map o_id (orders demo_sale))" using demo_sale_ok by (simp add: stock_inv_def)
  have "length (filter (due_order 200) (orders demo_sale)) \<le> 8" by code_simp
  with expire_orders_exact [OF ids run] show ?thesis by metis
qed

section \<open>Properties of the checkout\<close>

text \<open>C3: No oversell under READ COMMITTED. A checkout locks the category row, counts the active
  reservations, counts the paid orders, and writes. Other transactions may commit between these
  statements, as long as they take no place and add no reservation in the locked category (that is
  what payments, expiries, cancellations, refunds and claims do: \<open>settling\<close>). Whatever they do, if the
  checkout commits, the category's capacity still holds and no other category's stock has moved.\<close>

theorem interleaved_checkout_within_capacity:
  assumes "stock_inv s"
    and "checkout_tx_at sv en p ev cat token answers s0 s1 s2 s = (Inr x, s')"
    and "settling cat s0 s1" and "settling cat s1 s2" and "settling cat s2 s"
  shows "stock_inv s' \<and> (\<forall>k \<in> set (categories s'). c_id k = cat \<longrightarrow> int (held cat s') \<le> c_capacity k) \<and>
    (\<forall>k. k \<noteq> cat \<longrightarrow> held k s' = held k s)"
proof -
  from assms(2) obtain c where c: "open_category ev cat (en_now en) s0 s1 s2 s = (Inr c, s)"
    and x: "placed c x s s'" by (rule checkout_tx_at_Inr)
  from open_category_capacity [OF c assms(1) x assms(3-5)] checkout_tx_at_stock [OF assms(1,2)]
  show ?thesis by simp
qed

text \<open>Between the two counts the pending order of user 5 is paid.\<close>

definition demo_sale_paid :: db where
  "demo_sale_paid = demo_sale\<lparr>orders := [demo_pending\<lparr>o_status := OrdPaid\<rparr>],
     reservations := [demo_reservation\<lparr>r_status := ResCompleted\<rparr>]\<rparr>"

theorem interleaved_checkout_within_capacity_witness:
  "\<exists>x s'. checkout_tx_at demo_service demo_entropy 5 2 3 [] None demo_sale demo_sale demo_sale_paid demo_sale_paid
       = (Inr x, s') \<and> stock_inv s' \<and> held 3 s' = 2 \<and>
     (\<forall>k \<in> set (categories s'). c_id k = 3 \<longrightarrow> int (held 3 s') \<le> c_capacity k)"
proof -
  let ?r = "checkout_tx_at demo_service demo_entropy 5 2 3 [] None demo_sale demo_sale demo_sale_paid demo_sale_paid"
  have "\<not> isl (fst ?r)" by code_simp
  then have run: "?r = (Inr (projr (fst ?r)), snd ?r)" by (rule res_run_ok)
  have ok: "stock_inv demo_sale_paid" by code_simp
  have env: "settling 3 demo_sale demo_sale_paid" by code_simp
  have "held 3 (snd ?r) = 2" by code_simp
  with interleaved_checkout_within_capacity [OF ok run settling_refl env settling_refl] run
  show ?thesis by blast
qed



lemma production_gate_reads:
  assumes "token \<noteq> []"
  shows "snd (admit (production_deps cfg) p ev cat token s) = s"
proof (cases "check_window (production_deps cfg) cat (resolve_for_checkout ev cat s) s")
  case (Inl e)
  then show ?thesis by (simp add: admit_def Let_def)
next
  case (Inr u)
  with assms show ?thesis
    by (cases "resolve_for_checkout ev cat s")
      (simp_all add: admit_def Let_def production_deps_def check_priority_admission_def)
qed

lemma grants_consume_on_checkout: "grants (snd (consume_on_checkout p ev s)) = grants s"
  unfolding consume_on_checkout_def
  by (cases "get_active_admission ev p s")
    (simp_all add: mark_token_completed_def consume_admission_def set_admission_status_def)

lemma grants_after_checkout: "grants (after_checkout (production_service cfg ttl validator) p x s) = grants s"
  by (simp add: after_checkout_def Let_def production_service_def grants_consume_on_checkout)

lemma consume_checkout_grant_Inr:
  assumes "consume_checkout_grant sv en p cat token oid s = (Inr (), s')"
    and "token \<noteq> []" and "os_parse_uuid sv token = Some gid" and "get_access_grant gid s = Some g"
  shows "g_participant g = p \<and> g_category g = cat \<and> g_status g = GrantActive \<and> en_now en \<le> g_expires_at g \<and>
    consume_grant gid oid (en_now en) s = (Inr (), s')"
  using assms by (auto simp: consume_checkout_grant_def split: if_splits)

text \<open>C6: A checkout that names an access grant consumes it in the same transaction: it only commits
  if the grant is the participant's own, for that category, ACTIVE and not expired, and
  afterwards that grant is CONSUMED by the new order, so no second checkout can pass with it.\<close>

theorem checkout_consumes_grant:
  assumes "checkout (production_service cfg ttl validator) en p ev cat token answers s = (Inr x, s')"
    and "token \<noteq> []" and "pc_parse_uuid cfg token = Some gid" and "get_access_grant gid s = Some g"
    and "o_id x \<noteq> nil_uuid"
  shows "g_participant g = p \<and> g_category g = cat \<and> g_status g = GrantActive \<and> en_now en \<le> g_expires_at g \<and>
    (\<exists>g' \<in> set (grants s'). g_id g' = gid \<and> g_status g' = GrantConsumed \<and> g_order g' = Some (o_id x)) \<and>
    (\<forall>g' \<in> set (grants s'). g_id g' = gid \<longrightarrow> g_status g' \<noteq> GrantActive)"
proof -
  let ?sv = "production_service cfg ttl validator"
  from assms(1) obtain s2 where tx: "checkout_tx ?sv en p ev cat token answers s = (Inr x, s2)"
    and s': "s' = after_checkout ?sv p x s2"
    using production_gate_reads [OF assms(2), of cfg p ev cat s]
    by (auto simp: checkout_def and_then_Inr exec_tx_Inr production_service_def)
  from tx [unfolded checkout_tx_def] obtain sg where sg: "grants sg = grants s"
    and con: "consume_checkout_grant ?sv en p cat token (o_id x) sg = (Inr (), s2)"
    by (rule checkout_tx_at_Inr)
  have g: "get_access_grant gid sg = Some g" using assms(4) sg by (simp add: get_access_grant_def)
  have parse: "os_parse_uuid ?sv token = Some gid" using assms(3) by (simp add: production_service_def)
  note used = consume_checkout_grant_Inr [OF con assms(2) parse g]
  then obtain g0 where g0: "sel (\<lambda>g. g_id g = gid \<and> g_status g = GrantActive) (grants sg) = Some g0"
    and s2: "s2 = sg\<lparr>grants := upd (\<lambda>g. g_id g = gid \<and> g_status g = GrantActive)
       (\<lambda>g. g\<lparr>g_status := GrantConsumed, g_consumed_at := Some (en_now en), g_order := Some (o_id x)\<rparr>) (grants sg)\<rparr>"
    using consume_grant_Inr [of gid "o_id x" "en_now en" sg "()" s2] assms(5) by auto
  have gs: "grants s' = upd (\<lambda>g. g_id g = gid \<and> g_status g = GrantActive)
       (\<lambda>g. g\<lparr>g_status := GrantConsumed, g_consumed_at := Some (en_now en), g_order := Some (o_id x)\<rparr>) (grants sg)"
    unfolding s' grants_after_checkout s2 by simp
  have "\<exists>g' \<in> set (grants s'). g_id g' = gid \<and> g_status g' = GrantConsumed \<and> g_order g' = Some (o_id x)"
    unfolding gs by (rule bex_changed [OF g0]) (use sel_SomeD [OF g0] in simp)
  moreover have "\<forall>g' \<in> set (grants s'). g_id g' = gid \<longrightarrow> g_status g' \<noteq> GrantActive"
    unfolding gs ball_upd by simp
  ultimately show ?thesis using used by blast
qed

definition demo_invited :: db where
  "demo_invited = demo_sale\<lparr>grants := [demo_grant],
     category_modes := [\<lparr>cs_category = 3, cs_mode = Some ModeInvitationOnly, cs_override = True\<rparr>]\<rparr>"

theorem checkout_consumes_grant_witness:
  "\<exists>x s'. checkout demo_service demo_entropy 5 2 3 ''g'' None demo_invited = (Inr x, s') \<and>
     (\<exists>g' \<in> set (grants s'). g_id g' = 9 \<and> g_status g' = GrantConsumed \<and> g_order g' = Some (o_id x))"
proof -
  let ?r = "checkout demo_service demo_entropy 5 2 3 ''g'' None demo_invited"
  have "\<not> isl (fst ?r)" by code_simp
  then have run: "?r = (Inr (projr (fst ?r)), snd ?r)" by (rule res_run_ok)
  have "o_id (projr (fst ?r)) = 41" by code_simp
  then have id: "o_id (projr (fst ?r)) \<noteq> nil_uuid" by simp
  have parse: "pc_parse_uuid demo_config ''g'' = Some 9" by (simp add: demo_config_def)
  have g: "get_access_grant 9 demo_invited = Some demo_grant"
    by (simp add: get_access_grant_def demo_invited_def demo_grant_def)
  from checkout_consumes_grant [OF run [unfolded demo_service_def] _ parse g] id
  have "\<exists>g' \<in> set (grants (snd ?r)). g_id g' = 9 \<and> g_status g' = GrantConsumed \<and>
      g_order g' = Some (o_id (projr (fst ?r)))" by (simp add: demo_service_def)
  with run show ?thesis by blast
qed

section \<open>Guest orders, claims and refunds\<close>

text \<open>Guest checkout can never succeed: it reserves stock for \<open>uuid.Nil\<close>, and
  \<open>inventory_reservations.participant_id\<close> references the users. Unless the users table has a row with
  the nil id, every guest request ends in an error and leaves the sale as it was.\<close>

theorem guest_checkout_never_succeeds:
  assumes "nil_uuid \<notin> u_id ` set (users s)"
  shows "\<exists>e s'. guest_checkout (production_service cfg ttl validator) en r ev cat s = (Inl e, s') \<and> same_stock s s'"
proof (cases "guest_checkout (production_service cfg ttl validator) en r ev cat s")
  case (Pair res s')
  from refl this show ?thesis
  proof (cases rule: production.guest_checkout_cases)
    case (refused e)
    with Pair show ?thesis by blast
  next
    case (sold x s1 s2)
    with Pair have "guest_checkout (production_service cfg ttl validator) en r ev cat s = (Inr x, s')" by simp
    with assms production.guest_checkout_needs_nil [OF refl this] show ?thesis by simp
  qed
qed

definition demo_guest :: guest_request where
  "demo_guest = \<lparr> gr_email = ''g@x'', gr_name = ''Gus'', gr_phone = [], gr_terms_accepted = True,
     gr_terms_version = [], gr_waiver_accepted = False, gr_waiver_version = [], gr_token = [],
     gr_form_answers = None, gr_answers = None \<rparr>"

theorem guest_checkout_never_succeeds_witness:
  "guest_checkout demo_service demo_entropy demo_guest 2 3 demo_sale =
     (Inl (ForeignKeyViolation ''inventory_reservations_participant_id_fkey''), demo_sale) \<and>
   (\<exists>e s'. guest_checkout demo_service demo_entropy demo_guest 2 3 demo_sale = (Inl e, s') \<and> same_stock demo_sale s')"
proof -
  have "nil_uuid \<notin> u_id ` set (users demo_sale)" by code_simp
  moreover have "guest_checkout demo_service demo_entropy demo_guest 2 3 demo_sale =
     (Inl (ForeignKeyViolation ''inventory_reservations_participant_id_fkey''), demo_sale)" by code_simp
  ultimately show ?thesis using guest_checkout_never_succeeds unfolding demo_service_def by blast
qed

text \<open>Claiming a guest order asks nothing of the claimant but to have an account: whoever knows the
  id of an unclaimed order gets it, whatever guest e-mail it carries, and from then on nobody else
  can claim it.\<close>

theorem claim_order_takes_any_guest_order:
  assumes "get_order_by_id oid s = Some x" and "o_participant x = None" and "u \<in> u_id ` set (users s)"
  shows "\<exists>y s'. claim_order u oid s = (Inr y, s') \<and> y = x\<lparr>o_participant := Some u\<rparr> \<and>
    (\<forall>v. \<exists>s''. claim_order v oid s' = (Inl ErrOrderAlreadyClaimed, s''))"
proof -
  let ?P = "\<lambda>z. o_id z = oid \<and> o_participant z = None"
  let ?f = "\<lambda>z. z\<lparr>o_participant := Some u\<rparr>"
  have sel_upd: "sel (\<lambda>z. o_id z = oid) xs = Some x \<Longrightarrow> o_participant x = None \<Longrightarrow>
      sel ?P xs = Some x \<and> sel (\<lambda>z. o_id z = oid) (upd ?P ?f xs) = Some (?f x)" for xs
    by (induction xs) (auto split: if_splits)
  with assms(1,2) have row: "sel ?P (orders s) = Some x"
    and after: "sel (\<lambda>z. o_id z = oid) (upd ?P ?f (orders s)) = Some (?f x)"
    by (simp_all add: get_order_by_id_def)
  define t where "t = snd (link_ticket_to_participant oid u (s\<lparr>orders := upd ?P ?f (orders s)\<rparr>))"
  have orders_t: "orders t = upd ?P ?f (orders s)"
    by (simp add: t_def link_ticket_to_participant_def split: option.split prod.split)
  have run: "claim_order u oid s = (Inr (?f x), audit ''ORDER_CLAIMED'' (o_id x) t)"
    using assms row by (simp add: claim_order_def claim_order_tx_def exec_tx_def link_order_to_participant_def upd_one_def t_def)
  have "\<exists>s''. claim_order v oid (audit ''ORDER_CLAIMED'' (o_id x) t) = (Inl ErrOrderAlreadyClaimed, s'')" for v
    using after by (simp add: claim_order_def claim_order_tx_def exec_tx_def get_order_by_id_def orders_t)
  with run show ?thesis by blast
qed

definition demo_guest_sale :: db where
  "demo_guest_sale = demo_sale\<lparr>orders := [demo_pending\<lparr>o_participant := None, o_guest_email := Some ''g@x''\<rparr>]\<rparr>"

theorem claim_order_takes_any_guest_order_witness:
  "\<exists>y s'. claim_order 5 40 demo_guest_sale = (Inr y, s') \<and> o_participant y = Some 5 \<and> o_guest_email y = Some ''g@x'' \<and>
     (\<exists>s''. claim_order 6 40 s' = (Inl ErrOrderAlreadyClaimed, s''))"
proof -
  let ?x = "demo_pending\<lparr>o_participant := None, o_guest_email := Some ''g@x''\<rparr>"
  have "get_order_by_id 40 demo_guest_sale = Some ?x"
    by (simp add: get_order_by_id_def demo_guest_sale_def demo_pending_def demo_order_def)
  moreover have "5 \<in> u_id ` set (users demo_guest_sale)" by code_simp
  ultimately show ?thesis using claim_order_takes_any_guest_order [of 40 demo_guest_sale ?x 5] by fastforce
qed


definition demo_refund :: db where
  "demo_refund = demo_sale\<lparr>orders := [demo_order], reservations := [], tickets := [(demo_ticket 70 None)\<lparr>t_order := 40\<rparr>]\<rparr>"


end
