(* ===== verification/Gateways.thy ===== *)
theory Gateways
  imports Schema
begin

text \<open>
  Payment gateways (\<open>services/api/internal/modules/payments/gateway\<close>): the interface, the registry
  and the two adapters, Duitku and Xendit. Parsing of query strings and of JSON and the MD5 digest
  are library code and stay parameters. Both adapters answer \<open>CreateCharge\<close> and \<open>QueryStatus\<close> with
  "not yet implemented".
\<close>

unbundle bit_operations_syntax

datatype gateway_status = GwPending | GwPaid | GwExpired | GwFailed

record callback_result =
  cb_merchant_ref :: string
  cb_gateway_ref :: string
  cb_status :: gateway_status
  cb_amount :: int
  cb_paid_at :: "time option"
  cb_event_type :: string

record charge_input =
  ci_merchant_ref :: string
  ci_amount :: int
  ci_method :: string
  ci_channel :: string
  ci_expires_at :: time

record charge_result =
  cr_gateway_ref :: string
  cr_pay_url :: string
  cr_qr_string :: string
  cr_va_number :: string

text \<open>HTTP headers under their canonical names; \<open>Get\<close> answers the first value or the empty string.\<close>

type_synonym headers = "(string \<times> string list) list"

definition header_get :: "headers \<Rightarrow> string \<Rightarrow> string" where
  "header_get hs k = (case map_of hs k of Some (v # vs) \<Rightarrow> v | _ \<Rightarrow> [])"

record gateway =
  gw_name :: string
  gw_verify :: "headers \<Rightarrow> string \<Rightarrow> bool"
  gw_parse :: "string \<Rightarrow> callback_result res"
  gw_charge :: "charge_input \<Rightarrow> charge_result res"
  gw_query :: "string \<Rightarrow> callback_result res"

type_synonym registry = "(string \<times> gateway) list"

definition register_gateway :: "gateway \<Rightarrow> registry \<Rightarrow> registry" where
  "register_gateway g r = (gw_name g, g) # r"

definition get_gateway :: "registry \<Rightarrow> string \<Rightarrow> gateway option" where
  "get_gateway r name = map_of r name"

text \<open>The zero value that comes with a parse error.\<close>

definition zero_callback :: callback_result where
  "zero_callback = \<lparr> cb_merchant_ref = [], cb_gateway_ref = [], cb_status = GwPending, cb_amount = 0,
     cb_paid_at = None, cb_event_type = [] \<rparr>"

section \<open>Constant-time comparison\<close>

definition byte :: "char \<Rightarrow> 8 word" where
  "byte c = word_of_nat (of_char c)"

definition constant_equal :: "string \<Rightarrow> string \<Rightarrow> bool" where
  "constant_equal a b \<longleftrightarrow> length a = length b \<and>
     fold (\<lambda>(x, y) v. v OR (byte x XOR byte y)) (zip a b) 0 = 0"

section \<open>Decimal numbers\<close>

text \<open>\<open>strconv.ParseInt(s, 10, 64)\<close> with its error dropped: 0 for a syntax error, the nearest bound
  for a number out of range.\<close>

datatype uint_result = UOk nat | USyntax | URange

fun parse_uint :: "nat \<Rightarrow> string \<Rightarrow> uint_result" where
  "parse_uint a [] = UOk a"
| "parse_uint a (c # cs) =
     (case digit_val c of
        None \<Rightarrow> USyntax
      | Some d \<Rightarrow> if 10 * a + d \<ge> 2 ^ 64 then URange else parse_uint (10 * a + d) cs)"

definition parse_int_or_zero :: "string \<Rightarrow> int" where
  "parse_int_or_zero s =
     (let neg = (s \<noteq> [] \<and> hd s = CHR ''-'');
          ds = (if s \<noteq> [] \<and> (hd s = CHR ''-'' \<or> hd s = CHR ''+'') then tl s else s)
      in if ds = [] then 0
         else (case parse_uint 0 ds of
            USyntax \<Rightarrow> 0
          | URange \<Rightarrow> if neg then - (2 ^ 63) else 2 ^ 63 - 1
          | UOk n \<Rightarrow>
              if neg then (if n > 2 ^ 63 then - (2 ^ 63) else - int n)
              else (if n \<ge> 2 ^ 63 then 2 ^ 63 - 1 else int n)))"

section \<open>Duitku\<close>

definition duitku_map_status :: "string \<Rightarrow> gateway_status" where
  "duitku_map_status code =
     (if code = ''00'' then GwPaid else if code = ''01'' then GwPending else GwFailed)"

definition duitku_verify ::
  "(string \<Rightarrow> (string \<Rightarrow> string) option) \<Rightarrow> (string \<Rightarrow> string) \<Rightarrow> string \<Rightarrow> headers \<Rightarrow> string \<Rightarrow> bool" where
  "duitku_verify parse_query md5_hex api_key hs body =
     (case parse_query body of
        None \<Rightarrow> False
      | Some get \<Rightarrow>
          get ''signature'' \<noteq> [] \<and>
          constant_equal (md5_hex (get ''merchantCode'' @ get ''amount'' @ get ''merchantOrderId'' @ api_key))
            (get ''signature''))"

definition duitku_parse :: "(string \<Rightarrow> (string \<Rightarrow> string) option) \<Rightarrow> string \<Rightarrow> callback_result res" where
  "duitku_parse parse_query body =
     (case parse_query body of
        None \<Rightarrow> Inl ErrParseCallback
      | Some get \<Rightarrow> Inr \<lparr> cb_merchant_ref = get ''merchantOrderId'', cb_gateway_ref = get ''reference'',
          cb_status = duitku_map_status (get ''resultCode''), cb_amount = parse_int_or_zero (get ''amount''),
          cb_paid_at = None, cb_event_type = ''duitku.callback'' \<rparr>)"

definition duitku :: "(string \<Rightarrow> (string \<Rightarrow> string) option) \<Rightarrow> (string \<Rightarrow> string) \<Rightarrow> string \<Rightarrow> gateway" where
  "duitku parse_query md5_hex api_key =
     \<lparr> gw_name = ''duitku'', gw_verify = duitku_verify parse_query md5_hex api_key,
       gw_parse = duitku_parse parse_query,
       gw_charge = (\<lambda>_. Inl (PlainErr ''duitku: CreateCharge not yet implemented'')),
       gw_query = (\<lambda>_. Inl (PlainErr ''duitku: QueryStatus not yet implemented'')) \<rparr>"

section \<open>Xendit\<close>

definition xendit_map_status :: "string \<Rightarrow> gateway_status" where
  "xendit_map_status s =
     (if upper s \<in> {''PAID'', ''SETTLED'', ''SUCCEEDED'', ''COMPLETED''} then GwPaid
      else if upper s \<in> {''PENDING'', ''ACTIVE''} then GwPending
      else if upper s = ''EXPIRED'' then GwExpired else GwFailed)"

record xendit_payload =
  xp_external_id :: string
  xp_id :: string
  xp_status :: string
  xp_amount :: int

definition xendit_verify :: "string \<Rightarrow> headers \<Rightarrow> string \<Rightarrow> bool" where
  "xendit_verify callback_token hs body =
     (let got = header_get hs ''X-Callback-Token'' in got \<noteq> [] \<and> constant_equal got callback_token)"

definition xendit_parse :: "(string \<Rightarrow> xendit_payload option) \<Rightarrow> string \<Rightarrow> callback_result res" where
  "xendit_parse parse_json body =
     (case parse_json body of
        None \<Rightarrow> Inl ErrParseCallback
      | Some p \<Rightarrow> Inr \<lparr> cb_merchant_ref = xp_external_id p, cb_gateway_ref = xp_id p,
          cb_status = xendit_map_status (xp_status p), cb_amount = xp_amount p, cb_paid_at = None,
          cb_event_type = ''xendit.callback'' \<rparr>)"

definition xendit :: "(string \<Rightarrow> xendit_payload option) \<Rightarrow> string \<Rightarrow> gateway" where
  "xendit parse_json callback_token =
     \<lparr> gw_name = ''xendit'', gw_verify = xendit_verify callback_token, gw_parse = xendit_parse parse_json,
       gw_charge = (\<lambda>_. Inl (PlainErr ''xendit: CreateCharge not yet implemented'')),
       gw_query = (\<lambda>_. Inl (PlainErr ''xendit: QueryStatus not yet implemented'')) \<rparr>"

section \<open>Lemmas\<close>

lemma of_char_lt_256: "(of_char c :: nat) < 256"
  by (metis of_char_mod_256 mod_less_divisor zero_less_numeral)

lemma byte_inject [simp]: "byte x = byte y \<longleftrightarrow> x = y"
proof
  assume "byte x = byte y"
  then have "unat (byte x) = unat (byte y)" by simp
  then have "(of_char x :: nat) = of_char y"
    by (simp add: byte_def unat_of_nat of_char_mod_256)
  then show "x = y" by simp
qed simp

lemma word_or_zero: "(v :: 8 word) OR w = 0 \<longleftrightarrow> v = 0 \<and> w = 0"
  by (auto simp: bit_eq_iff bit_or_iff)

lemma word_xor_zero: "(v :: 8 word) XOR w = 0 \<longleftrightarrow> v = w"
  by (auto simp: bit_eq_iff bit_xor_iff)

lemma fold_or_zero:
  "fold (\<lambda>(x, y) v. v OR (byte x XOR byte y)) ps acc = 0 \<longleftrightarrow> acc = 0 \<and> (\<forall>(x, y) \<in> set ps. x = y)"
  by (induction ps arbitrary: acc) (auto simp: word_or_zero word_xor_zero)

text \<open>The loop that ORs the differences of all bytes decides equality.\<close>

lemma constant_equal_iff: "constant_equal a b \<longleftrightarrow> a = b"
  by (auto simp: constant_equal_def fold_or_zero list_eq_iff_zip_eq zip_same)

end
