(* ===== verification/Payments.thy ===== *)
theory Payments
  imports Orders Gateways
begin

text \<open>
  Payments (\<open>services/api/internal/modules/payments\<close>): creating a payment, the webhook and reconcile
  paths that share \<open>Processor.apply\<close>, and the payment channels of an event. The gateway, the ticket
  issuer and the fee recorder are interfaces. Row locks are not modelled: a statement returns.
\<close>

section \<open>Queries\<close>

definition get_payment_by_id :: "uuid \<Rightarrow> db \<Rightarrow> payment option" where
  "get_payment_by_id pid s = sel (\<lambda>p. p_id p = pid) (payments s)"

definition get_payment_by_merchant_ref_for_update :: "string \<Rightarrow> db \<Rightarrow> payment option" where
  "get_payment_by_merchant_ref_for_update ref s = sel (\<lambda>p. p_merchant_reference p = ref) (payments s)"

definition active_payment :: "payment \<Rightarrow> bool" where
  "active_payment p \<longleftrightarrow> p_status p = PayPending \<or> p_status p = PayPaid"

definition get_active_payment_by_order :: "uuid \<Rightarrow> db \<Rightarrow> payment option" where
  "get_active_payment_by_order oid s = sel (\<lambda>p. p_order p = oid \<and> active_payment p) (payments s)"

definition get_order_by_id_for_update :: "uuid \<Rightarrow> db \<Rightarrow> order option" where
  "get_order_by_id_for_update oid s = sel (\<lambda>x. o_id x = oid) (orders s)"

definition list_payments_by_order :: "uuid \<Rightarrow> db \<Rightarrow> payment list" where
  "list_payments_by_order oid s = rev (filter (\<lambda>p. p_order p = oid) (payments s))"

definition list_payments_by_org_event :: "uuid \<Rightarrow> uuid \<Rightarrow> db \<Rightarrow> payment list" where
  "list_payments_by_org_event org ev s = rev (filter (\<lambda>p. p_org p = org \<and> p_event p = ev) (payments s))"

text \<open>\<open>INSERT INTO payments\<close> with the constraints of migration 15.\<close>

definition create_payment_row :: "payment \<Rightarrow> db \<Rightarrow> payment res \<times> db" where
  "create_payment_row p s =
     (if p_gateway p \<notin> {''duitku'', ''xendit''} then (Inl (CheckViolation ''payments_gateway_check''), s)
      else if p_method p \<notin> {''qris'', ''va'', ''ewallet''} then (Inl (CheckViolation ''payments_method_check''), s)
      else if p_amount p < 0 then (Inl (CheckViolation ''payments_amount_check''), s)
      else if p_id p \<in> p_id ` set (payments s) then (Inl (UniqueViolation ''payments_pkey''), s)
      else if p_merchant_reference p \<in> p_merchant_reference ` set (payments s) then
        (Inl (UniqueViolation ''payments_merchant_ref_unique''), s)
      else if \<exists>q \<in> set (payments s). p_order q = p_order p \<and> active_payment q \<and> active_payment p then
        (Inl (UniqueViolation ''uq_payments_order_active''), s)
      else if p_event p \<notin> e_id ` set (events s) then (Inl (ForeignKeyViolation ''payments_event_id_fkey''), s)
      else if p_order p \<notin> o_id ` set (orders s) then (Inl (ForeignKeyViolation ''payments_order_id_fkey''), s)
      else if p_participant p \<notin> u_id ` set (users s) then
        (Inl (ForeignKeyViolation ''payments_participant_id_fkey''), s)
      else (Inr p, s\<lparr>payments := payments s @ [p]\<rparr>))"

text \<open>\<open>COALESCE($3, gateway_reference)\<close> keeps the reference when the callback has none.\<close>

definition mark_payment_paid :: "uuid \<Rightarrow> time \<Rightarrow> string option \<Rightarrow> db \<Rightarrow> payment res \<times> db" where
  "mark_payment_paid pid paid_at ref s =
     (case upd_one (\<lambda>p. p_id p = pid \<and> p_status p = PayPending)
             (\<lambda>p. p\<lparr>p_status := PayPaid, p_paid_at := Some paid_at,
                    p_gateway_reference := (case ref of None \<Rightarrow> p_gateway_reference p | Some r \<Rightarrow> Some r)\<rparr>)
             (payments s) of
        None \<Rightarrow> (Inl NoRows, s)
      | Some (p, ps) \<Rightarrow> (Inr p, s\<lparr>payments := ps\<rparr>))"

definition update_payment_status :: "uuid \<Rightarrow> payment_status \<Rightarrow> db \<Rightarrow> payment res \<times> db" where
  "update_payment_status pid st s =
     (case upd_one (\<lambda>p. p_id p = pid \<and> p_status p = PayPending) (\<lambda>p. p\<lparr>p_status := st\<rparr>) (payments s) of
        None \<Rightarrow> (Inl NoRows, s)
      | Some (p, ps) \<Rightarrow> (Inr p, s\<lparr>payments := ps\<rparr>))"

text \<open>The payload column is \<open>jsonb\<close>: Postgres refuses text that is not JSON (\<open>valid_json\<close>).\<close>

definition create_payment_webhook :: "(string \<Rightarrow> bool) \<Rightarrow> webhook \<Rightarrow> db \<Rightarrow> webhook res \<times> db" where
  "create_payment_webhook valid_json w s =
     (if w_gateway w \<notin> {''duitku'', ''xendit''} then
        (Inl (CheckViolation ''payment_webhooks_gateway_check''), s)
      else if \<not> valid_json (w_payload w) then (Inl (PlainErr ''invalid input syntax for type json''), s)
      else if w_id w \<in> w_id ` set (webhooks s) then (Inl (UniqueViolation ''payment_webhooks_pkey''), s)
      else (Inr w, s\<lparr>webhooks := webhooks s @ [w]\<rparr>))"

text \<open>The unique index on \<open>dedupe_key\<close> lets one webhook row hold a key; its violation becomes
  \<open>ErrDuplicateDedupe\<close>.\<close>

definition claim_webhook_dedupe :: "uuid \<Rightarrow> string \<Rightarrow> db \<Rightarrow> unit res \<times> db" where
  "claim_webhook_dedupe wid key s =
     (if wid \<notin> w_id ` set (webhooks s) then (Inl NoRows, s)
      else if \<exists>w \<in> set (webhooks s). w_id w \<noteq> wid \<and> w_dedupe_key w = Some key then
        (Inl ErrDuplicateDedupe, s)
      else (Inr (), s\<lparr>webhooks :=
        upd (\<lambda>w. w_id w = wid) (\<lambda>w. w\<lparr>w_dedupe_key := Some key\<rparr>) (webhooks s)\<rparr>))"

definition mark_webhook_processed ::
  "uuid \<Rightarrow> webhook_status \<Rightarrow> uuid option \<Rightarrow> string option \<Rightarrow> db \<Rightarrow> db" where
  "mark_webhook_processed wid st pid detail s = s\<lparr>webhooks :=
     upd (\<lambda>w. w_id w = wid) (\<lambda>w. w\<lparr>w_status := st, w_payment := pid, w_error := detail\<rparr>) (webhooks s)\<rparr>"

definition complete_reservations_for_order :: "uuid \<Rightarrow> db \<Rightarrow> db" where
  "complete_reservations_for_order oid = update_reservation_status_by_order oid ResCompleted"

definition convert_ballot_winner_for_order :: "uuid \<Rightarrow> uuid \<Rightarrow> uuid \<Rightarrow> db \<Rightarrow> db" where
  "convert_ballot_winner_for_order participant cat oid s = s\<lparr>entries :=
     upd (\<lambda>b. (b_participant b = participant \<and> b_category b = cat \<or>
               (\<exists>g \<in> set (grants s). g_order g = Some oid \<and> b_grant b = Some (g_id g))) \<and>
              (b_status b = BalWinner \<or> b_status b = BalLapsed))
         (\<lambda>b. b\<lparr>b_status := BalConverted\<rparr>) (entries s)\<rparr>"

definition is_payment_channel_enabled :: "uuid \<Rightarrow> string \<Rightarrow> db \<Rightarrow> bool" where
  "is_payment_channel_enabled ev code s =
     (case sel (\<lambda>c. ch_event c = ev \<and> ch_code c = code) (channels s) of None \<Rightarrow> True | Some c \<Rightarrow> ch_enabled c)"

definition upsert_event_payment_channel :: "uuid \<Rightarrow> string \<Rightarrow> bool \<Rightarrow> db \<Rightarrow> db" where
  "upsert_event_payment_channel ev code enabled s = s\<lparr>channels :=
     (if \<exists>c \<in> set (channels s). ch_event c = ev \<and> ch_code c = code
      then upd (\<lambda>c. ch_event c = ev \<and> ch_code c = code) (\<lambda>c. c\<lparr>ch_enabled := enabled\<rparr>) (channels s)
      else channels s @ [\<lparr> ch_event = ev, ch_code = code, ch_enabled = enabled \<rparr>])\<rparr>"

definition list_payment_channels_by_event :: "uuid \<Rightarrow> db \<Rightarrow> payment_channel list" where
  "list_payment_channels_by_event ev s = sort_key ch_code (filter (\<lambda>c. ch_event c = ev) (channels s))"

section \<open>Creating a payment\<close>

definition valid_methods :: "string list" where
  "valid_methods = [''qris'', ''va'', ''ewallet'']"

definition generate_merchant_reference :: "string \<Rightarrow> nat list \<Rightarrow> string" where
  "generate_merchant_reference day rnd = random_number ''PAY-'' day (take 6 rnd)"

record payment_request =
  rq_gateway :: string
  rq_method :: string
  rq_channel :: string

text \<open>The clock, its date, the random bytes (\<open>None\<close> when \<open>rand.Read\<close> fails) and the row's id.\<close>

record payment_entropy =
  pe_now :: time
  pe_day :: string
  pe_random :: "nat list option"
  pe_payment :: uuid

definition payment_expiry :: "int \<Rightarrow> time \<Rightarrow> order \<Rightarrow> time" where
  "payment_expiry expiry now x =
     (case o_expired_at x of
        Some t \<Rightarrow> if t < now + expiry then t else now + expiry
      | None \<Rightarrow> now + expiry)"

definition new_payment :: "payment_request \<Rightarrow> payment_entropy \<Rightarrow> int \<Rightarrow> uuid \<Rightarrow> order \<Rightarrow> string \<Rightarrow> charge_result \<Rightarrow> payment" where
  "new_payment rq en expiry participant x ref ch =
     \<lparr> p_id = pe_payment en, p_org = o_org x, p_event = o_event x, p_order = o_id x,
       p_participant = participant, p_gateway = rq_gateway rq, p_method = rq_method rq,
       p_channel = null_text (rq_channel rq), p_status = PayPending, p_amount = o_total x,
       p_currency = ''IDR'', p_gateway_reference = null_text (cr_gateway_ref ch),
       p_merchant_reference = ref, p_pay_url = null_text (cr_pay_url ch),
       p_qr_string = null_text (cr_qr_string ch), p_va_number = null_text (cr_va_number ch),
       p_expires_at = Some (payment_expiry expiry (pe_now en) x), p_paid_at = None \<rparr>"

definition create_payment ::
  "registry \<Rightarrow> int \<Rightarrow> payment_entropy \<Rightarrow> uuid \<Rightarrow> uuid \<Rightarrow> payment_request \<Rightarrow> db \<Rightarrow> payment res \<times> db" where
  "create_payment reg expiry en participant oid rq s =
     and_then (require (rq_method rq \<in> set valid_methods) ErrUnsupportedMethod s) (\<lambda>_ s.
     and_then (found ErrGatewayNotAvail (get_gateway reg (rq_gateway rq)) s) (\<lambda>g s.
     and_then (found ErrPaymentNotFound (get_order_by_id_for_update oid s) s) (\<lambda>x s.
     and_then (require (o_participant x = Some participant) ErrPaymentNotFound s) (\<lambda>_ s.
     and_then (require (o_status x = OrdPendingPayment) ErrOrderNotPayable s) (\<lambda>_ s.
     and_then (require (get_active_payment_by_order oid s = None) ErrPaymentActive s) (\<lambda>_ s.
     and_then (require (is_payment_channel_enabled (o_event x)
       (if rq_channel rq = [] then rq_method rq else rq_channel rq) s) ErrPaymentChannelDisabled s) (\<lambda>_ s.
     and_then (found ErrMerchantRefGen (pe_random en) s) (\<lambda>rnd s.
     let ref = generate_merchant_reference (pe_day en) rnd in
     and_then (on_error ErrGatewayError (gw_charge g
       \<lparr> ci_merchant_ref = ref, ci_amount = o_total x, ci_method = rq_method rq, ci_channel = rq_channel rq,
         ci_expires_at = payment_expiry expiry (pe_now en) x \<rparr>, s)) (\<lambda>ch s.
     and_then (create_payment_row (new_payment rq en expiry participant x ref ch) s) (\<lambda>p s.
     (Inr p, audit ''PAYMENT_CREATED'' (p_id p) s)))))))))))"

definition get_payment_for_participant :: "uuid \<Rightarrow> uuid \<Rightarrow> db \<Rightarrow> payment res" where
  "get_payment_for_participant participant pid s =
     (case get_payment_by_id pid s of
        None \<Rightarrow> Inl ErrPaymentNotFound
      | Some p \<Rightarrow> if p_participant p \<noteq> participant then Inl ErrPaymentNotFound else Inr p)"

definition list_by_order :: "uuid \<Rightarrow> uuid \<Rightarrow> db \<Rightarrow> payment list" where
  "list_by_order participant oid s = filter (\<lambda>p. p_participant p = participant) (list_payments_by_order oid s)"

section \<open>The processor\<close>

text \<open>The issuer and the fee recorder write in the caller's transaction; \<open>None\<close> is nil.\<close>

record processor =
  pr_issuer :: "(order \<Rightarrow> db \<Rightarrow> unit res \<times> db) option"
  pr_fee_recorder :: "(order \<Rightarrow> db \<Rightarrow> unit res \<times> db) option"
  pr_valid_json :: "string \<Rightarrow> bool"

definition dedupe_key :: "string \<Rightarrow> callback_result \<Rightarrow> string" where
  "dedupe_key gateway_name r =
     gateway_name @ '':'' @
     (if cb_gateway_ref r = [] then cb_merchant_ref r else cb_gateway_ref r) @ '':'' @
     (case cb_status r of GwPending \<Rightarrow> ''PENDING'' | GwPaid \<Rightarrow> ''PAID'' | GwExpired \<Rightarrow> ''EXPIRED'' | GwFailed \<Rightarrow> ''FAILED'')"

definition db_status_from_gateway :: "gateway_status \<Rightarrow> payment_status" where
  "db_status_from_gateway st =
     (case st of GwPaid \<Rightarrow> PayPaid | GwExpired \<Rightarrow> PayExpired | GwFailed \<Rightarrow> PayFailed | GwPending \<Rightarrow> PayPending)"

definition order_status_text :: "order_status \<Rightarrow> string" where
  "order_status_text st =
     (case st of OrdDraft \<Rightarrow> ''DRAFT'' | OrdPendingPayment \<Rightarrow> ''PENDING_PAYMENT'' | OrdPaid \<Rightarrow> ''PAID''
      | OrdExpired \<Rightarrow> ''EXPIRED'' | OrdCancelled \<Rightarrow> ''CANCELLED'' | OrdRefunded \<Rightarrow> ''REFUNDED'')"

text \<open>The mark is skipped on the reconcile path, where the webhook id is \<open>uuid.Nil\<close>.\<close>

definition mark :: "uuid option \<Rightarrow> webhook_status \<Rightarrow> uuid option \<Rightarrow> string option \<Rightarrow> db \<Rightarrow> db" where
  "mark wid st pid detail s =
     (case wid of None \<Rightarrow> s | Some w \<Rightarrow> mark_webhook_processed w st pid detail s)"

definition extra :: "(order \<Rightarrow> db \<Rightarrow> unit res \<times> db) option \<Rightarrow> order \<Rightarrow> db \<Rightarrow> unit res \<times> db" where
  "extra f x s = (case f of None \<Rightarrow> (Inr (), s) | Some g \<Rightarrow> g x s)"

text \<open>The order part of \<open>applyPaid\<close>: the result is the note that is kept with the webhook.\<close>

definition settle_order :: "processor \<Rightarrow> order \<Rightarrow> db \<Rightarrow> string option res \<times> db" where
  "settle_order pr x s =
     (if o_status x = OrdPendingPayment then
        and_then (update_order_status (o_id x) OrdPaid OrdPendingPayment s) (\<lambda>_ s.
        let s = complete_reservations_for_order (o_id x) s;
            s = (case o_participant x of None \<Rightarrow> s
                 | Some u \<Rightarrow> convert_ballot_winner_for_order u (o_category x) (o_id x) s) in
        and_then (extra (pr_issuer pr) x s) (\<lambda>_ s.
        and_then (extra (pr_fee_recorder pr) x s) (\<lambda>_ s.
        (Inr None, s))))
      else (Inr (Some (''ORDER_ALREADY_'' @ order_status_text (o_status x))), s))"

definition apply_paid ::
  "processor \<Rightarrow> time \<Rightarrow> uuid option \<Rightarrow> payment \<Rightarrow> callback_result \<Rightarrow> db \<Rightarrow> unit res \<times> db" where
  "apply_paid pr now wid p r s =
     (case mark_payment_paid (p_id p) (case cb_paid_at r of None \<Rightarrow> now | Some t \<Rightarrow> t)
             (null_text (cb_gateway_ref r)) s of
        (Inl e, s) \<Rightarrow> (if e = NoRows then (Inr (), mark wid WhProcessed None None s) else (Inl e, s))
      | (Inr p', s) \<Rightarrow>
          and_then (found NoRows (get_order_by_id_for_update (p_order p') s) s) (\<lambda>x s.
          and_then (settle_order pr x s) (\<lambda>detail s.
          (Inr (), audit ''PAYMENT_PAID'' (p_id p') (mark wid WhProcessed (Some (p_id p')) detail s)))))"

definition apply_tx ::
  "processor \<Rightarrow> time \<Rightarrow> uuid option \<Rightarrow> callback_result \<Rightarrow> db \<Rightarrow> unit res \<times> db" where
  "apply_tx pr now wid r s =
     (case get_payment_by_merchant_ref_for_update (cb_merchant_ref r) s of
        None \<Rightarrow> (Inl ErrPaymentNotFound, mark wid WhRejected None (Some ''PAYMENT_NOT_FOUND'') s)
      | Some p \<Rightarrow>
          if cb_amount r \<noteq> 0 \<and> cb_amount r \<noteq> p_amount p then
            (Inl ErrAmountMismatch, mark wid WhRejected None (Some ''PAYMENT_AMOUNT_MISMATCH'') s)
          else if p_status p \<noteq> PayPending then (Inr (), mark wid WhProcessed None None s)
          else (case cb_status r of
            GwPaid \<Rightarrow> apply_paid pr now wid p r s
          | GwPending \<Rightarrow> (Inr (), mark wid WhProcessed None None s)
          | st \<Rightarrow>
              and_then (update_payment_status (p_id p) (db_status_from_gateway st) s) (\<lambda>_ s.
              (Inr (), mark wid WhProcessed (Some (p_id p)) None s))))"

text \<open>\<open>Processor.apply\<close>: the dedupe slot is claimed on the pool, before the transaction.\<close>

definition apply_callback ::
  "processor \<Rightarrow> time \<Rightarrow> uuid option \<Rightarrow> string \<Rightarrow> callback_result \<Rightarrow> db \<Rightarrow> unit res \<times> db" where
  "apply_callback pr now wid gateway_name r s =
     (case (case wid of None \<Rightarrow> (Inr (), s) | Some w \<Rightarrow> claim_webhook_dedupe w (dedupe_key gateway_name r) s) of
        (Inl e, s) \<Rightarrow>
          if e = ErrDuplicateDedupe then (Inr (), mark wid WhDuplicate None (Some ''duplicate dedupe key'') s)
          else (Inl e, s)
      | (Inr _, s) \<Rightarrow> exec_tx (apply_tx pr now wid r) s)"

definition extract_signature :: "string \<Rightarrow> headers \<Rightarrow> string" where
  "extract_signature gateway_name hs =
     (if gateway_name = ''xendit'' then header_get hs ''X-Callback-Token'' else [])"

definition received_webhook :: "uuid \<Rightarrow> gateway \<Rightarrow> headers \<Rightarrow> string \<Rightarrow> bool \<Rightarrow> callback_result \<Rightarrow> webhook" where
  "received_webhook wid g hs body valid r =
     \<lparr> w_id = wid, w_gateway = gw_name g, w_event_type = null_text (cb_event_type r),
       w_merchant_reference = null_text (cb_merchant_ref r),
       w_gateway_reference = null_text (cb_gateway_ref r),
       w_signature = null_text (extract_signature (gw_name g) hs), w_signature_valid = valid,
       w_payload = body, w_dedupe_key = None, w_status = WhReceived, w_payment = None, w_error = None \<rparr>"

text \<open>\<open>err.Error()\<close> of an error made with \<open>errors.New\<close>.\<close>

definition error_text :: "app_error \<Rightarrow> string" where
  "error_text e = (case e of PlainErr m \<Rightarrow> m | AppErr _ c \<Rightarrow> c | _ \<Rightarrow> [])"

definition process_raw ::
  "processor \<Rightarrow> time \<Rightarrow> uuid \<Rightarrow> gateway \<Rightarrow> headers \<Rightarrow> string \<Rightarrow> db \<Rightarrow> unit res \<times> db" where
  "process_raw pr now wid g hs body s =
     (let valid = gw_verify g hs body;
          r = (case gw_parse g body of Inl _ \<Rightarrow> zero_callback | Inr r \<Rightarrow> r) in
      and_then (on_error (PlainErr ''store webhook'')
        (create_payment_webhook (pr_valid_json pr) (received_webhook wid g hs body valid r) s)) (\<lambda>w s.
      if \<not> valid then
        (Inl ErrInvalidSignature, audit ''PAYMENT_CALLBACK_REJECTED'' nil_uuid
           (mark_webhook_processed wid WhRejected None (Some ''INVALID_SIGNATURE'') s))
      else (case gw_parse g body of
          Inl e \<Rightarrow> (Inl ErrParseCallback, mark_webhook_processed wid WhFailed None (null_text (error_text e)) s)
        | Inr _ \<Rightarrow> apply_callback pr now (Some wid) (gw_name g) r s)))"

text \<open>\<open>webhookhttp.Server.handle\<close>: the HTTP status of a delivery; only a bad signature is not 200.\<close>

definition webhook_response :: "unit res \<Rightarrow> nat" where
  "webhook_response r = (if r = Inl ErrInvalidSignature then 401 else 200)"

definition handle_webhook ::
  "processor \<Rightarrow> registry \<Rightarrow> time \<Rightarrow> uuid \<Rightarrow> string \<Rightarrow> headers \<Rightarrow> string \<Rightarrow> db \<Rightarrow> nat \<times> db" where
  "handle_webhook pr reg now wid name hs body s =
     (case get_gateway reg name of
        None \<Rightarrow> (404, s)
      | Some g \<Rightarrow> (case process_raw pr now wid g hs body s of (r, s) \<Rightarrow> (webhook_response r, s)))"

section \<open>Reconciliation\<close>

definition reconcile :: "processor \<Rightarrow> registry \<Rightarrow> time \<Rightarrow> uuid \<Rightarrow> db \<Rightarrow> unit res \<times> db" where
  "reconcile pr reg now pid s =
     and_then (found ErrPaymentNotFound (get_payment_by_id pid s) s) (\<lambda>p s.
     and_then (found ErrGatewayNotAvail (get_gateway reg (p_gateway p)) s) (\<lambda>g s.
     and_then (on_error ErrReconcileFailed
       (gw_query g (case p_gateway_reference p of None \<Rightarrow> [] | Some r \<Rightarrow> r), s)) (\<lambda>r s.
     apply_callback pr now None (p_gateway p)
       (r\<lparr>cb_merchant_ref := p_merchant_reference p,
          cb_amount := (if cb_amount r = 0 then p_amount p else cb_amount r)\<rparr>) s)))"

section \<open>Payment channels\<close>

definition own_event :: "uuid \<Rightarrow> uuid \<Rightarrow> db \<Rightarrow> unit res" where
  "own_event org ev s =
     (case get_event_by_id ev s of
        None \<Rightarrow> Inl ErrEventNotFound
      | Some e \<Rightarrow> if e_org e \<noteq> org then Inl ErrEventNotFound else Inr ())"

definition list_event_payment_channels :: "uuid \<Rightarrow> uuid \<Rightarrow> db \<Rightarrow> payment_channel list res" where
  "list_event_payment_channels org ev s =
     (case own_event org ev s of Inl e \<Rightarrow> Inl e | Inr _ \<Rightarrow> Inr (list_payment_channels_by_event ev s))"

definition update_event_payment_channels ::
  "uuid \<Rightarrow> uuid \<Rightarrow> (string \<times> bool) list \<Rightarrow> db \<Rightarrow> unit res \<times> db" where
  "update_event_payment_channels org ev chs s =
     and_then (own_event org ev s, s) (\<lambda>_ s.
     (Inr (), fold (\<lambda>(code, enabled). upsert_event_payment_channel ev code enabled) chs s))"

section \<open>The issuer's interface\<close>

text \<open>The wiring of \<open>cmd/webhook\<close>: the ticket issuer, and no fee recorder.\<close>

definition webhook_processor :: "uuid \<Rightarrow> string \<Rightarrow> nat list \<Rightarrow> (string \<Rightarrow> bool) \<Rightarrow> processor" where
  "webhook_processor tid day rnd valid_json =
     \<lparr> pr_issuer = Some (issue_with tid day rnd), pr_fee_recorder = None, pr_valid_json = valid_json \<rparr>"

text \<open>All tables that matter to a sale, the tickets apart.\<close>

definition same_sale :: "db \<Rightarrow> db \<Rightarrow> bool" where
  "same_sale s s' \<longleftrightarrow> users s' = users s \<and> events s' = events s \<and> categories s' = categories s \<and>
     orders s' = orders s \<and> reservations s' = reservations s \<and> payments s' = payments s \<and>
     webhooks s' = webhooks s \<and> grants s' = grants s \<and> entries s' = entries s"

text \<open>What the processor relies on: an issuer writes nothing but tickets, keeps the tickets there are,
  and after it succeeded the order has a ticket and nobody else got one.\<close>

definition issued_for :: "order \<Rightarrow> db \<Rightarrow> db \<Rightarrow> bool" where
  "issued_for x s s' \<longleftrightarrow> set (tickets s) \<subseteq> set (tickets s') \<and>
     (\<exists>t \<in> set (tickets s'). t_order t = o_id x) \<and>
     (\<forall>t \<in> set (tickets s'). t \<in> set (tickets s) \<or> t_order t = o_id x)"

locale ticket_issuer =
  fixes issue :: "order \<Rightarrow> db \<Rightarrow> unit res \<times> db"
  assumes issue_same_sale: "same_sale s (snd (issue x s))"
    and issue_issued: "issue x s = (Inr (), s') \<Longrightarrow> issued_for x s s'"

locale payment_processor = ticket_issuer issue for issue +
  fixes pr :: processor
  assumes issuer: "pr_issuer pr = Some issue"
    and fee_same_sale: "pr_fee_recorder pr = Some f \<Longrightarrow>
      same_sale s (snd (f x s)) \<and> tickets (snd (f x s)) = tickets s"

interpretation issuing: ticket_issuer "issue_with tid day rnd" for tid day rnd
proof unfold_locales
  show "same_sale s (snd (issue_with tid day rnd x s))" for s x
    unfolding issue_with_def
    by (rule and_then_inv [where I = "same_sale s"]
        | simp add: same_sale_def create_ticket_def found_def split: prod.split sum.split option.split)+
  show "issued_for x s s'" if "issue_with tid day rnd x s = (Inr (), s')" for x s s'
    using that by (cases rule: issue_with_Inr) (auto simp: issued_for_def)
qed

interpretation webhook: payment_processor "issue_with tid day rnd" "webhook_processor tid day rnd valid_json"
  for tid day rnd valid_json
  by unfold_locales (simp_all add: webhook_processor_def)

section \<open>What a callback does to the sale\<close>

lemma same_sale_trans: "same_sale s t \<Longrightarrow> same_sale t u \<Longrightarrow> same_sale s u"
  by (simp add: same_sale_def)

lemma calm_tables:
  assumes "orders s' = orders s" "reservations s' = reservations s" "categories s' = categories s"
    and "tickets s' = tickets s" "paid_for s \<subseteq> paid_for s'"
  shows "calm s s'"
proof -
  have "fulfilled s'" if "fulfilled s" using that assms by (auto simp: fulfilled_def ticketed_def)
  with assms(1-3) stock_inv_cong [of s' s] held_cong [of s' s] orders_evolve_same [of s' s]
  show ?thesis by (simp add: calm_def sound_def settling_def stock_queries seats_def)
qed

lemma paid_for_same: "payments s' = payments s \<Longrightarrow> paid_for s' = paid_for s"
  by (simp add: paid_for_def)

lemma calm_rollback: "calm s (rollback s s')"
  by (intro calm_tables) (simp_all add: paid_for_def)

lemma paid_for_upd:
  assumes "payments s' = upd P f (payments s)" and "\<And>p. P p \<Longrightarrow> p_status p \<noteq> PayPaid"
  shows "paid_for s \<subseteq> paid_for s'"
  unfolding paid_for_def assms(1)
  by (intro image_mono subsetI) (use assms(2) in \<open>auto intro: upd_keeps\<close>)

lemma mark_frame [frame]:
  "orders (mark wid st pid d s) = orders s" "reservations (mark wid st pid d s) = reservations s"
  "categories (mark wid st pid d s) = categories s" "tickets (mark wid st pid d s) = tickets s"
  "payments (mark wid st pid d s) = payments s" "users (mark wid st pid d s) = users s"
  "events (mark wid st pid d s) = events s" "entries (mark wid st pid d s) = entries s"
  "grants (mark wid st pid d s) = grants s" "mark None st pid d s = s"
  by (simp_all add: mark_def mark_webhook_processed_def split: option.split)

text \<open>The order part of a paid callback: the pending order is settled as PAID and gets its ticket; an
  order in any other state is left alone.\<close>

definition paid_effect :: "order \<Rightarrow> db \<Rightarrow> db \<Rightarrow> bool" where
  "paid_effect x s s' \<longleftrightarrow>
     (if o_status x = OrdPendingPayment
      then settled (o_id x) OrdPaid ResCompleted s s' \<and> issued_for x s s'
      else orders s' = orders s \<and> reservations s' = reservations s \<and> categories s' = categories s \<and>
        tickets s' = tickets s)"

lemma paid_effect_calm:
  assumes e: "paid_effect x s s'" and paid: "paid_for s \<subseteq> paid_for s'" "o_id x \<in> paid_for s'"
  shows "calm s s'"
proof (cases "o_status x = OrdPendingPayment")
  case True
  with e have "settled (o_id x) OrdPaid ResCompleted s s'" and "issued_for x s s'"
    by (simp_all add: paid_effect_def)
  moreover from this(2) have "ticketed s' = insert (o_id x) (ticketed s)"
    by (auto simp: issued_for_def ticketed_def intro: rev_image_eqI)
  ultimately show ?thesis using paid settled_calm [of "o_id x" OrdPaid ResCompleted s s'] by (simp add: papers_def)
next
  case False
  with e paid(1) show ?thesis by (auto simp: paid_effect_def intro: calm_tables)
qed

lemma paid_effect_cong:
  "paid_effect x s s' \<Longrightarrow> orders t = orders s \<Longrightarrow> reservations t = reservations s \<Longrightarrow>
     categories t = categories s \<Longrightarrow> tickets t = tickets s \<Longrightarrow>
     orders t' = orders s' \<Longrightarrow> reservations t' = reservations s' \<Longrightarrow>
     categories t' = categories s' \<Longrightarrow> tickets t' = tickets s' \<Longrightarrow> paid_effect x t t'"
  unfolding paid_effect_def settled_def issued_for_def by (cases "o_status x = OrdPendingPayment") simp_all

text \<open>The payment rows after \<open>MarkPaymentPaid\<close>.\<close>

definition paid_rows :: "uuid \<Rightarrow> time \<Rightarrow> string option \<Rightarrow> payment list \<Rightarrow> payment list" where
  "paid_rows pid t ref = upd (\<lambda>p. p_id p = pid \<and> p_status p = PayPending)
     (\<lambda>p. p\<lparr>p_status := PayPaid, p_paid_at := Some t,
            p_gateway_reference := (case ref of None \<Rightarrow> p_gateway_reference p | Some r \<Rightarrow> Some r)\<rparr>)"

lemma mark_payment_paid_Inr:
  "mark_payment_paid pid t ref s = (Inr p', s') \<Longrightarrow>
     \<exists>p \<in> set (payments s). p_id p = pid \<and> p_status p = PayPending \<and> p_id p' = pid \<and> p_order p' = p_order p \<and>
       s' = s\<lparr>payments := paid_rows pid t ref (payments s)\<rparr>"
  by (auto simp: mark_payment_paid_def paid_rows_def upd_one_Some split: option.splits prod.splits dest!: sel_SomeD)

lemma mark_payment_paid_Inl:
  "mark_payment_paid pid t ref s = (Inl e, s') \<Longrightarrow>
     s' = s \<and> e = NoRows \<and> (\<forall>p \<in> set (payments s). \<not> (p_id p = pid \<and> p_status p = PayPending))"
  by (auto simp: mark_payment_paid_def upd_one_None split: option.splits prod.splits)

context payment_processor begin

lemma settle_order_effect:
  assumes "settle_order pr x s = (Inr d, s')"
  shows "paid_effect x s s' \<and> payments s' = payments s"
proof (cases "o_status x = OrdPendingPayment")
  case False
  with assms show ?thesis by (auto simp: settle_order_def paid_effect_def)
next
  case True
  define conv where "conv = (\<lambda>s1. let s = complete_reservations_for_order (o_id x) s1 in
     case o_participant x of None \<Rightarrow> s | Some u \<Rightarrow> convert_ballot_winner_for_order u (o_category x) (o_id x) s)"
  from assms True obtain y s1 s2 where
    u: "update_order_status (o_id x) OrdPaid OrdPendingPayment s = (Inr y, s1)"
    and i: "issue x (conv s1) = (Inr (), s2)" and f: "extra (pr_fee_recorder pr) x s2 = (Inr (), s')"
    by (auto simp: settle_order_def and_then_Inr Let_def conv_def extra_def issuer)
  have conv: "same_stock (Inventory.release (o_id x) ResCompleted s1) (conv s1)" "tickets (conv s1) = tickets s1"
    "payments (conv s1) = payments s1"
    by (auto simp: conv_def same_stock_def complete_reservations_for_order_def convert_ballot_winner_for_order_def
        Inventory.release_def update_reservation_status_by_order_def Let_def split: option.split)
  have fee: "same_sale s2 s' \<and> tickets s' = tickets s2"
  proof (cases "pr_fee_recorder pr")
    case None
    with f show ?thesis by (simp add: extra_def same_sale_def)
  next
    case (Some g)
    with f fee_same_sale [OF Some, of s2 x] show ?thesis by (simp add: extra_def)
  qed
  have iss: "same_sale (conv s1) s2" "issued_for x (conv s1) s2"
    using issue_same_sale [of "conv s1" x] issue_issued [OF i] i by simp_all
  have "settled (o_id x) OrdPaid ResCompleted s (conv s1)" by (rule settled_release [OF u conv(1)])
  with iss(1) fee have "settled (o_id x) OrdPaid ResCompleted s s'"
    by (simp add: settled_def same_sale_def)
  moreover have "tickets s1 = tickets s" "payments s1 = payments s"
    using update_order_status_Inr [OF u] by auto
  ultimately show ?thesis using True iss fee conv
    by (simp add: paid_effect_def issued_for_def same_sale_def)
qed

lemma apply_paid_effect:
  assumes "apply_paid pr now wid p r s = (Inr (), s')" and "p \<in> set (payments s)" and "p_status p = PayPending"
  obtains p0 x where "p0 \<in> set (payments s)" and "p_id p0 = p_id p"
    and "get_order_by_id_for_update (p_order p0) s = Some x" and "paid_effect x s s'"
    and "p_order p0 \<in> paid_for s'"
    and "payments s' = paid_rows (p_id p) (case cb_paid_at r of None \<Rightarrow> now | Some t \<Rightarrow> t)
      (null_text (cb_gateway_ref r)) (payments s)"
proof (cases "mark_payment_paid (p_id p) (case cb_paid_at r of None \<Rightarrow> now | Some t \<Rightarrow> t)
    (null_text (cb_gateway_ref r)) s")
  case (Pair q s1)
  show thesis
  proof (cases q)
    case (Inl e)
    with Pair mark_payment_paid_Inl assms(2,3) have False by blast
    then show thesis ..
  next
    case (Inr p')
    from mark_payment_paid_Inr [OF Pair [unfolded Inr]] obtain p0 where
      p0: "p0 \<in> set (payments s)" "p_id p0 = p_id p" "p_order p' = p_order p0" "p_status p0 = PayPending"
      and s1: "s1 = s\<lparr>payments := paid_rows (p_id p) (case cb_paid_at r of None \<Rightarrow> now | Some t \<Rightarrow> t)
        (null_text (cb_gateway_ref r)) (payments s)\<rparr>" by blast
    from assms(1) Pair Inr obtain x d s2 where x: "get_order_by_id_for_update (p_order p') s1 = Some x"
      and st: "settle_order pr x s1 = (Inr d, s2)"
      and s': "s' = audit ''PAYMENT_PAID'' (p_id p') (mark wid WhProcessed (Some (p_id p')) d s2)"
      by (auto simp: apply_paid_def and_then_Inr)
    note e = settle_order_effect [OF st]
    have before: "orders s = orders s1" "reservations s = reservations s1" "categories s = categories s1"
      "tickets s = tickets s1" unfolding s1 by simp_all
    have after: "orders s' = orders s2" "reservations s' = reservations s2" "categories s' = categories s2"
      "tickets s' = tickets s2" "payments s' = payments s2" unfolding s' by (simp_all add: frame)
    show thesis
    proof (rule that [OF p0(1,2)])
      show "get_order_by_id_for_update (p_order p0) s = Some x"
        using x p0(3) by (simp add: get_order_by_id_for_update_def s1)
      show "paid_effect x s s'"
        using e before after by (auto intro: paid_effect_cong [of x s1 s2 s s'])
      show rows: "payments s' = paid_rows (p_id p) (case cb_paid_at r of None \<Rightarrow> now | Some t \<Rightarrow> t)
          (null_text (cb_gateway_ref r)) (payments s)"
        using e after(5) unfolding s1 by simp
      have "\<exists>q \<in> set (payments s'). p_order q = p_order p0 \<and> p_status q = PayPaid"
        unfolding rows paid_rows_def
        by (rule bexI [rotated], rule upd_changed [OF p0(1)]) (simp_all add: p0)
      then show "p_order p0 \<in> paid_for s'" by (auto simp: paid_for_def intro: rev_image_eqI)
    qed
  qed
qed

text \<open>A committed callback: nothing but the webhook, or a closed payment, or a paid one.\<close>

lemma apply_tx_effect:
  assumes "apply_tx pr now wid r s = (Inr (), s')"
  obtains (unchanged) p where "get_payment_by_merchant_ref_for_update (cb_merchant_ref r) s = Some p"
      "p_status p \<noteq> PayPending \<or> cb_status r = GwPending" "s' = mark wid WhProcessed None None s"
    | (closed) p st where "get_payment_by_merchant_ref_for_update (cb_merchant_ref r) s = Some p"
      "p_status p = PayPending" "st = PayExpired \<or> st = PayFailed" "st = db_status_from_gateway (cb_status r)"
      "s' = mark wid WhProcessed (Some (p_id p)) None (s\<lparr>payments :=
         upd (\<lambda>q. p_id q = p_id p \<and> p_status q = PayPending) (\<lambda>q. q\<lparr>p_status := st\<rparr>) (payments s)\<rparr>)"
    | (paid) p where "get_payment_by_merchant_ref_for_update (cb_merchant_ref r) s = Some p"
      "p \<in> set (payments s)" "p_status p = PayPending" "cb_status r = GwPaid"
      "cb_amount r = 0 \<or> cb_amount r = p_amount p" "apply_paid pr now wid p r s = (Inr (), s')"
proof -
  from assms obtain p where p: "get_payment_by_merchant_ref_for_update (cb_merchant_ref r) s = Some p"
    and amount: "cb_amount r = 0 \<or> cb_amount r = p_amount p"
    by (auto simp: apply_tx_def split: option.splits if_splits)
  then have mem: "p \<in> set (payments s)"
    by (auto simp: get_payment_by_merchant_ref_for_update_def dest: sel_SomeD)
  show thesis
  proof (cases "p_status p = PayPending \<and> cb_status r \<noteq> GwPending")
    case False
    with assms p amount have same: "s' = mark wid WhProcessed None None s"
      by (auto simp: apply_tx_def split: if_splits)
    show thesis by (rule unchanged [OF p _ same]) (use False in blast)
  next
    case True
    show thesis
    proof (cases "cb_status r = GwPaid")
      case paid: True
      with assms p amount True have "apply_paid pr now wid p r s = (Inr (), s')" by (auto simp: apply_tx_def split: if_splits)
      with that(3) [OF p mem] paid amount True show thesis by blast
    next
      case False
      with True have st: "cb_status r = GwExpired \<or> cb_status r = GwFailed" by (cases "cb_status r") auto
      with assms p amount True have "and_then (update_payment_status (p_id p) (db_status_from_gateway (cb_status r)) s)
          (\<lambda>_ s. (Inr (), mark wid WhProcessed (Some (p_id p)) None s)) = (Inr (), s')"
        by (auto simp: apply_tx_def split: if_splits)
      then have "s' = mark wid WhProcessed (Some (p_id p)) None (s\<lparr>payments :=
         upd (\<lambda>q. p_id q = p_id p \<and> p_status q = PayPending)
           (\<lambda>q. q\<lparr>p_status := db_status_from_gateway (cb_status r)\<rparr>) (payments s)\<rparr>)"
        by (auto simp: and_then_Inr update_payment_status_def upd_one_Some split: option.splits prod.splits)
      moreover have "db_status_from_gateway (cb_status r) \<in> {PayExpired, PayFailed}"
        using st by (auto simp: db_status_from_gateway_def)
      ultimately show thesis using closed [OF p] True by blast
    qed
  qed
qed

lemma apply_tx_calm:
  assumes "apply_tx pr now wid r s = (Inr (), s')" shows "calm s s'"
  using assms
proof (cases rule: apply_tx_effect)
  case (paid p)
  from paid(6,2,3) obtain p0 x where p0: "p0 \<in> set (payments s)" "p_id p0 = p_id p"
    "get_order_by_id_for_update (p_order p0) s = Some x" "paid_effect x s s'" "p_order p0 \<in> paid_for s'"
    "payments s' = paid_rows (p_id p) (case cb_paid_at r of None \<Rightarrow> now | Some t \<Rightarrow> t)
      (null_text (cb_gateway_ref r)) (payments s)"
    by (rule apply_paid_effect)
  from p0(3) have "o_id x = p_order p0" by (auto simp: get_order_by_id_for_update_def dest: sel_SomeD)
  moreover have "paid_for s \<subseteq> paid_for s'"
    by (rule paid_for_upd [OF p0(6) [unfolded paid_rows_def]]) simp
  ultimately show ?thesis using p0(4,5) by (simp add: paid_effect_calm)
next
  case (closed p st)
  have "payments s' = upd (\<lambda>q. p_id q = p_id p \<and> p_status q = PayPending) (\<lambda>q. q\<lparr>p_status := st\<rparr>) (payments s)"
    by (simp add: closed(5) frame)
  then have "paid_for s \<subseteq> paid_for s'" by (rule paid_for_upd) simp
  then show ?thesis by (intro calm_tables) (simp_all add: closed(5) frame)
qed (auto intro!: calm_tables simp: frame paid_for_def)

lemma apply_callback_calm: "calm s (snd (apply_callback pr now wid name r s))"
proof -
  have "calm s (snd (exec_tx (apply_tx pr now wid r) s1))"
    if "orders s1 = orders s" "reservations s1 = reservations s" "categories s1 = categories s"
      "tickets s1 = tickets s" "paid_for s \<subseteq> paid_for s1" for s1
  proof (cases "apply_tx pr now wid r s1")
    case (Pair q s2)
    with that apply_tx_calm [of now wid r s1 s2] calm_tables [OF that] show ?thesis
      by (cases q) (auto simp: exec_tx_def intro: calm_trans calm_rollback)
  qed
  then show ?thesis
    by (auto simp: apply_callback_def claim_webhook_dedupe_def frame calm_tables paid_for_def split: option.split)
qed

lemma process_raw_calm: "calm s (snd (process_raw pr now wid g hs body s))"
  unfolding process_raw_def Let_def
proof (rule and_then_post [where R = calm and s = s])
  show "calm s (snd (on_error e (create_payment_webhook v w s)))" for e v w
    by (auto simp: create_payment_webhook_def paid_for_def intro!: calm_tables)
  fix w s1 assume c: "calm s s1"
  have "calm s (mark_webhook_processed wid st pid d s1)" for st pid d
    using c by (rule calm_trans) (auto intro!: calm_tables simp: mark_webhook_processed_def paid_for_def)
  moreover have "calm s (audit a i s2)" if "calm s s2" for a i s2
    using that by (rule calm_trans) (simp add: calm_tables paid_for_def)
  moreover have "calm s (snd (apply_callback pr now wd name r s1))" for wd name r
    using c apply_callback_calm by (rule calm_trans)
  ultimately show "calm s (snd (if \<not> gw_verify g hs body
      then (Inl ErrInvalidSignature, audit ''PAYMENT_CALLBACK_REJECTED'' nil_uuid
        (mark_webhook_processed wid WhRejected None (Some ''INVALID_SIGNATURE'') s1))
      else (case gw_parse g body of
          Inl e \<Rightarrow> (Inl ErrParseCallback, mark_webhook_processed wid WhFailed None (null_text (error_text e)) s1)
        | Inr _ \<Rightarrow> apply_callback pr now (Some wid) (gw_name g)
            (case gw_parse g body of Inl _ \<Rightarrow> zero_callback | Inr r \<Rightarrow> r) s1)))"
    by (simp split: sum.split)
qed

lemma reconcile_calm: "calm s (snd (reconcile pr reg now pid s))"
  unfolding reconcile_def
  by (rule and_then_post [where R = calm and s = s] | simp | use apply_callback_calm in auto)+

end

lemma apply_callback_Inr:
  assumes "apply_callback pr now wid name r s = (Inr (), s')"
    and "wid = None \<or> (\<forall>w \<in> set (webhooks s). Some (w_id w) \<noteq> wid \<longrightarrow> w_dedupe_key w \<noteq> Some (dedupe_key name r))"
  obtains s1 where "apply_tx pr now wid r s1 = (Inr (), s')" and "\<exists>ws. s1 = s\<lparr>webhooks := ws\<rparr>"
proof (cases wid)
  case None
  with assms(1) have "apply_tx pr now wid r s = (Inr (), s')" by (simp add: apply_callback_def exec_tx_Inr)
  with that [of s] show thesis by (metis commerce_db.surjective commerce_db.update_convs(8))
next
  case (Some w)
  with assms have "apply_tx pr now wid r (s\<lparr>webhooks := upd (\<lambda>v. w_id v = w)
      (\<lambda>v. v\<lparr>w_dedupe_key := Some (dedupe_key name r)\<rparr>) (webhooks s)\<rparr>) = (Inr (), s')"
    by (auto simp: apply_callback_def claim_webhook_dedupe_def exec_tx_Inr split: if_splits)
  with that show thesis by blast
qed

lemma payment_final_noop:
  assumes "get_payment_by_merchant_ref_for_update (cb_merchant_ref r) s = Some p" and "p_status p \<noteq> PayPending"
    and "cb_amount r = 0 \<or> cb_amount r = p_amount p"
  shows "apply_callback pr now None name r s = (Inr (), s)"
  using assms by (auto simp: apply_callback_def apply_tx_def exec_tx_def frame)

lemma sel_paid_rows:
  assumes "distinct (map p_id ps)" and "sel (\<lambda>p. p_merchant_reference p = ref) ps = Some p" and "p_status p = PayPending"
  shows "\<exists>q. sel (\<lambda>p. p_merchant_reference p = ref) (paid_rows (p_id p) t gref ps) = Some q \<and>
    p_id q = p_id p \<and> p_status q = PayPaid \<and> p_amount q = p_amount p \<and> p_paid_at q = Some t"
  using assms
proof (induction ps)
  case (Cons y ps)
  have "\<forall>z \<in> set ps. p_id z \<noteq> p_id y" using Cons.prems(1) by (auto simp: image_iff)
  moreover have "p \<in> set ps" if "p \<noteq> y" using that sel_SomeD [OF Cons.prems(2)] by simp
  ultimately show ?case using Cons by (auto simp: paid_rows_def split: if_splits)
qed simp

section \<open>Properties\<close>


definition demo_payment :: payment where
  "demo_payment = \<lparr> p_id = 80, p_org = 1, p_event = 2, p_order = 40, p_participant = 5,
     p_gateway = ''xendit'', p_method = ''va'', p_channel = None, p_status = PayPending, p_amount = 10,
     p_currency = ''IDR'', p_gateway_reference = None, p_merchant_reference = ''PAY-1'', p_pay_url = None,
     p_qr_string = None, p_va_number = None, p_expires_at = None, p_paid_at = None \<rparr>"

definition demo_webhook :: webhook where
  "demo_webhook = \<lparr> w_id = 90, w_gateway = ''xendit'', w_event_type = None, w_merchant_reference = None,
     w_gateway_reference = None, w_signature = None, w_signature_valid = True, w_payload = ''{}'',
     w_dedupe_key = None, w_status = WhReceived, w_payment = None, w_error = None \<rparr>"

definition demo_paying :: db where
  "demo_paying = demo_sale\<lparr>payments := [demo_payment], webhooks := [demo_webhook, demo_webhook\<lparr>w_id := 91\<rparr>]\<rparr>"

definition demo_paid_callback :: callback_result where
  "demo_paid_callback = \<lparr> cb_merchant_ref = ''PAY-1'', cb_gateway_ref = ''X1'', cb_status = GwPaid,
     cb_amount = 10, cb_paid_at = None, cb_event_type = [] \<rparr>"

definition demo_processor :: processor where
  "demo_processor = webhook_processor 70 ''20250101'' [1, 2, 3, 4, 5, 6] (\<lambda>_. True)"


text \<open>Money for an order that is no longer waiting: a PAID callback for a pending payment whose order
  has meanwhile expired, been cancelled or been paid marks the payment PAID and leaves orders,
  reservations and tickets exactly as they were, so the payer has paid and holds nothing for it.\<close>

theorem late_payment_issues_nothing:
  assumes "get_payment_by_merchant_ref_for_update (cb_merchant_ref r) s = Some p" and "p_status p = PayPending"
    and "distinct (map p_id (payments s))"
    and "get_order_by_id_for_update (p_order p) s = Some x" and "o_status x \<noteq> OrdPendingPayment"
    and "cb_status r = GwPaid"
    and "apply_callback (webhook_processor tid day rnd vj) now None name r s = (Inr (), s')"
  shows "orders s' = orders s \<and> reservations s' = reservations s \<and> tickets s' = tickets s \<and>
    (\<exists>q. get_payment_by_merchant_ref_for_update (cb_merchant_ref r) s' = Some q \<and> p_id q = p_id p \<and> p_status q = PayPaid)"
proof -
  let ?pr = "webhook_processor tid day rnd vj"
  have mem: "p \<in> set (payments s)" using assms(1) by (auto simp: get_payment_by_merchant_ref_for_update_def dest: sel_SomeD)
  from assms(7) have "apply_tx ?pr now None r s = (Inr (), s')" by (simp add: apply_callback_def exec_tx_Inr)
  then obtain p0 x' where e: "p0 \<in> set (payments s)" "p_id p0 = p_id p"
    "get_order_by_id_for_update (p_order p0) s = Some x'" "paid_effect x' s s'"
    "payments s' = paid_rows (p_id p) (case cb_paid_at r of None \<Rightarrow> now | Some t \<Rightarrow> t) (null_text (cb_gateway_ref r)) (payments s)"
  proof (cases rule: webhook.apply_tx_effect)
    case (paid q)
    with assms(1) have "q = p" by simp
    from paid(6,2,3) show thesis
      by (rule webhook.apply_paid_effect) (use \<open>q = p\<close> that in auto)
  qed (use assms(1,2,6) in \<open>auto simp: db_status_from_gateway_def\<close>)
  have "p0 = p" using distinct_key_unique [OF assms(3) e(1) mem e(2)] .
  with e(3,4) assms(4,5) have "orders s' = orders s \<and> reservations s' = reservations s \<and> tickets s' = tickets s"
    by (simp add: paid_effect_def)
  moreover have "\<exists>q. get_payment_by_merchant_ref_for_update (cb_merchant_ref r) s' = Some q \<and> p_id q = p_id p \<and> p_status q = PayPaid"
    using sel_paid_rows [OF assms(3) assms(1) [unfolded get_payment_by_merchant_ref_for_update_def] assms(2)] e(5)
    unfolding get_payment_by_merchant_ref_for_update_def by metis
  ultimately show ?thesis by simp
qed

definition demo_late :: db where
  "demo_late = demo_paying\<lparr>orders := [demo_pending\<lparr>o_status := OrdExpired\<rparr>], reservations := []\<rparr>"

theorem late_payment_issues_nothing_witness:
  "\<exists>s'. apply_callback demo_processor 60 None ''xendit'' demo_paid_callback demo_late = (Inr (), s') \<and>
     tickets s' = tickets demo_late \<and> orders s' = orders demo_late \<and>
     (\<exists>q. get_payment_by_merchant_ref_for_update ''PAY-1'' s' = Some q \<and> p_status q = PayPaid)"
proof -
  let ?r = "apply_callback demo_processor 60 None ''xendit'' demo_paid_callback demo_late"
  have "fst ?r = Inr ()" by code_simp
  then have run: "?r = (Inr (), snd ?r)" by (rule res_run)
  have hyps: "get_payment_by_merchant_ref_for_update (cb_merchant_ref demo_paid_callback) demo_late = Some demo_payment"
    "p_status demo_payment = PayPending" "distinct (map p_id (payments demo_late))"
    "get_order_by_id_for_update (p_order demo_payment) demo_late = Some (demo_pending\<lparr>o_status := OrdExpired\<rparr>)"
    "o_status (demo_pending\<lparr>o_status := OrdExpired\<rparr>) \<noteq> OrdPendingPayment" "cb_status demo_paid_callback = GwPaid"
    by code_simp+
  have "cb_merchant_ref demo_paid_callback = ''PAY-1''" by (simp add: demo_paid_callback_def)
  with late_payment_issues_nothing [OF hyps run [unfolded demo_processor_def]] show ?thesis
    using run by (auto simp: demo_processor_def)
qed

text \<open>A dedupe key once claimed by a webhook row survives the transaction, committed or rolled back.\<close>

definition key_held :: "uuid \<Rightarrow> string \<Rightarrow> db \<Rightarrow> bool" where
  "key_held w key s \<longleftrightarrow> (\<exists>v \<in> set (webhooks s). w_id v = w \<and> w_dedupe_key v = Some key)"

lemma key_held_cong: "webhooks s' = webhooks s \<Longrightarrow> key_held w key s' = key_held w key s"
  by (simp add: key_held_def)

lemma key_held_upd:
  assumes "\<exists>v \<in> set ws. w_id v = w \<and> w_dedupe_key v = Some key" and "\<And>v. w_id (f v) = w_id v"
    and "\<And>v. w_dedupe_key (f v) = w_dedupe_key v"
  shows "\<exists>v \<in> set (upd P f ws). w_id v = w \<and> w_dedupe_key v = Some key"
proof -
  from assms(1) obtain v where v: "v \<in> set ws" "w_id v = w" "w_dedupe_key v = Some key" by blast
  have "(if P v then f v else v) \<in> set (upd P f ws)" using v(1) by (simp add: upd_changed upd_keeps)
  with v assms(2,3) show ?thesis by (metis (full_types))
qed

lemma key_held_mark: "key_held w key s \<Longrightarrow> key_held w key (mark wid st pid d s)"
  unfolding key_held_def mark_def mark_webhook_processed_def
  by (cases wid) (simp_all add: key_held_upd)

lemma key_held_claim:
  assumes "w \<in> w_id ` set (webhooks s)" and "claim_webhook_dedupe w key s = (Inr (), s')"
  shows "key_held w key s'"
proof -
  from assms(1) obtain v where v: "v \<in> set (webhooks s)" "w_id v = w" by auto
  have "webhooks s' = upd (\<lambda>v. w_id v = w) (\<lambda>v. v\<lparr>w_dedupe_key := Some key\<rparr>) (webhooks s)"
    using assms(2) by (auto simp: claim_webhook_dedupe_def split: if_splits)
  with upd_changed [where P = "\<lambda>v. w_id v = w" and f = "\<lambda>v. v\<lparr>w_dedupe_key := Some key\<rparr>", OF v] v
  show ?thesis unfolding key_held_def by (intro bexI [of _ "v\<lparr>w_dedupe_key := Some key\<rparr>"]) simp_all
qed

context payment_processor begin

lemma key_held_settle_order: "key_held w key s \<Longrightarrow> key_held w key (snd (settle_order pr x s))"
proof -
  assume k: "key_held w key s"
  have i: "key_held w key (snd (extra (Some issue) x t))" if "key_held w key t" for t
    using that key_held_cong [of "snd (issue x t)" t w key] issue_same_sale [of t x] by (simp add: extra_def same_sale_def)
  have f: "key_held w key (snd (extra (pr_fee_recorder pr) x t))" if "key_held w key t" for t
  proof (cases "pr_fee_recorder pr")
    case (Some g)
    with that key_held_cong [of "snd (g x t)" t w key] fee_same_sale [OF Some, of t x] show ?thesis by (simp add: extra_def same_sale_def)
  qed (use that in \<open>simp add: extra_def\<close>)
  have u: "key_held w key (snd (update_order_status i a b s))" for i a b
    using k by (simp add: update_order_status_def key_held_def split: option.split)
  have c: "key_held w key (case o_participant x of None \<Rightarrow> complete_reservations_for_order i t
      | Some u \<Rightarrow> convert_ballot_winner_for_order u c i (complete_reservations_for_order i t))"
    if "key_held w key t" for i t c
    using that by (simp add: key_held_def complete_reservations_for_order_def convert_ballot_winner_for_order_def
        update_reservation_status_by_order_def split: option.split)
  show ?thesis
    unfolding settle_order_def Let_def issuer
    by (auto intro!: and_then_inv [where I = "key_held w key"] u i f c k)
qed

lemma key_held_apply_tx:
  assumes k: "key_held w key s" shows "key_held w key (snd (apply_tx pr now wid r s))"
proof -
  have paid: "key_held w key (snd (apply_paid pr now wid p r s))" for p
  proof (cases "mark_payment_paid (p_id p) (case cb_paid_at r of None \<Rightarrow> now | Some t \<Rightarrow> t)
      (null_text (cb_gateway_ref r)) s")
    case (Pair q s1)
    then have "key_held w key s1"
      using k by (auto simp: mark_payment_paid_def key_held_def split: option.splits prod.splits)
    then show ?thesis
      unfolding apply_paid_def Pair
      by (cases q) (auto intro!: and_then_inv [where I = "key_held w key"] key_held_mark
          key_held_settle_order simp: key_held_def [of _ _ "audit _ _ _"] key_held_def [symmetric])
  qed
  have closed: "key_held w key (snd (and_then (update_payment_status i st s) (\<lambda>_ s. (Inr (), mark wid a b c s))))" for i st a b c
    using k by (auto intro!: and_then_inv [where I = "key_held w key"] key_held_mark)
      (simp add: update_payment_status_def key_held_def split: option.split)
  show ?thesis
    using k paid closed key_held_mark unfolding apply_tx_def
    by (auto split: option.split gateway_status.split)
qed

end


text \<open>The gateway is charged before the payment row is inserted, so a callback can come first.\<close>

definition demo_early :: db where
  "demo_early = demo_paying\<lparr>payments := []\<rparr>"


text \<open>The payload column is \<open>jsonb\<close>, and \<open>ProcessRaw\<close> stores the raw body first: a callback whose body
  is not JSON, as every form-encoded Duitku callback, is dropped before anything else happens, whatever
  its signature, and the receiver answers 200 all the same.\<close>

theorem form_encoded_callback_is_dropped:
  assumes "\<not> pr_valid_json pr body" and "get_gateway reg name = Some g"
  shows "handle_webhook pr reg now wid name hs body s = (200, s) \<and>
    (\<exists>e. process_raw pr now wid g hs body s = (Inl e, s))"
proof -
  have "on_error x (create_payment_webhook (pr_valid_json pr) (received_webhook wid g hs body v r) s) = (Inl x, s)" for v r x
    using assms(1) by (simp add: create_payment_webhook_def received_webhook_def)
  then have "process_raw pr now wid g hs body s = (Inl (PlainErr ''store webhook''), s)"
    by (simp add: process_raw_def Let_def)
  with assms(2) show ?thesis by (simp add: handle_webhook_def webhook_response_def)
qed

text \<open>A form body with a genuine signature, over a toy digest and query parser.\<close>

definition demo_duitku :: gateway where
  "demo_duitku = duitku (\<lambda>b. if b = ''f'' then Some (\<lambda>k. if k = ''merchantOrderId'' then ''PAY-1''
     else if k = ''amount'' then ''10'' else if k = ''resultCode'' then ''00''
     else if k = ''signature'' then ''10PAY-1'' else []) else None) (\<lambda>s. s) []"

theorem form_encoded_callback_is_dropped_witness:
  "gw_verify demo_duitku [] ''f'' \<and>
   gw_parse demo_duitku ''f'' = Inr (demo_paid_callback\<lparr>cb_gateway_ref := [], cb_event_type := ''duitku.callback''\<rparr>) \<and>
   handle_webhook (demo_processor\<lparr>pr_valid_json := (\<lambda>b. b = ''{}'')\<rparr>) (register_gateway demo_duitku []) 60 95 ''duitku'' []
     ''f'' demo_paying = (200, demo_paying)"
proof -
  have "gw_verify demo_duitku [] ''f''"
    by (simp add: demo_duitku_def duitku_def duitku_verify_def constant_equal_iff)
  moreover have "gw_parse demo_duitku ''f'' = Inr (demo_paid_callback\<lparr>cb_gateway_ref := [], cb_event_type := ''duitku.callback''\<rparr>)"
    by (simp add: demo_duitku_def duitku_def duitku_parse_def duitku_map_status_def parse_int_or_zero_def
        digit_val_def demo_paid_callback_def Let_def)
  moreover have "get_gateway (register_gateway demo_duitku []) ''duitku'' = Some demo_duitku"
    by (simp add: get_gateway_def register_gateway_def demo_duitku_def duitku_def)
  ultimately show ?thesis
    using form_encoded_callback_is_dropped [of "demo_processor\<lparr>pr_valid_json := (\<lambda>b. b = ''{}'')\<rparr>" "''f''"] by simp
qed

text \<open>What a Duitku signature covers: only the concatenation of merchant code, amount and order id.
  A body that carries a genuine signature is accepted with any result code and any reference, so a
  failed callback turns into a paid one, and with the same digits split differently between amount
  and order id.\<close>

theorem duitku_signature_covers_concatenation:
  assumes "parse_query b1 = Some g1" and "parse_query b2 = Some g2"
    and "g2 ''signature'' = g1 ''signature''"
    and "g2 ''merchantCode'' @ g2 ''amount'' @ g2 ''merchantOrderId'' = g1 ''merchantCode'' @ g1 ''amount'' @ g1 ''merchantOrderId''"
    and "gw_verify (duitku parse_query md5_hex key) hs b1"
  shows "gw_verify (duitku parse_query md5_hex key) hs b2 \<and>
    (g2 ''resultCode'' = ''00'' \<longrightarrow> (\<exists>r. gw_parse (duitku parse_query md5_hex key) b2 = Inr r \<and> cb_status r = GwPaid \<and>
       cb_merchant_ref r = g2 ''merchantOrderId''))"
proof -
  have "md5_hex (g2 ''merchantCode'' @ g2 ''amount'' @ g2 ''merchantOrderId'' @ key)
      = md5_hex (g1 ''merchantCode'' @ g1 ''amount'' @ g1 ''merchantOrderId'' @ key)"
    using arg_cong [OF assms(4), of "\<lambda>x. md5_hex (x @ key)"] by simp
  with assms(1-3,5) show ?thesis by (simp add: duitku_def duitku_verify_def duitku_parse_def duitku_map_status_def)
qed

text \<open>The failed callback over 10 for PAY-1 and a paid one over 1 for 0PAY-1.\<close>

definition demo_forms :: "string \<Rightarrow> (string \<Rightarrow> string) option" where
  "demo_forms b =
     (if b = ''a'' then Some (\<lambda>k. if k = ''merchantOrderId'' then ''PAY-1'' else if k = ''amount'' then ''10''
        else if k = ''resultCode'' then ''02'' else if k = ''signature'' then ''10PAY-1k'' else [])
      else if b = ''b'' then Some (\<lambda>k. if k = ''merchantOrderId'' then ''0PAY-1'' else if k = ''amount'' then ''1''
        else if k = ''resultCode'' then ''00'' else if k = ''signature'' then ''10PAY-1k'' else [])
      else None)"

theorem duitku_signature_covers_concatenation_witness:
  "gw_verify (duitku demo_forms (\<lambda>s. s) ''k'') [] ''b'' \<and>
   (\<exists>r. gw_parse (duitku demo_forms (\<lambda>s. s) ''k'') ''a'' = Inr r \<and> cb_status r = GwFailed) \<and>
   (\<exists>r. gw_parse (duitku demo_forms (\<lambda>s. s) ''k'') ''b'' = Inr r \<and> cb_status r = GwPaid)"
proof -
  obtain g1 g2 where g: "demo_forms ''a'' = Some g1" "demo_forms ''b'' = Some g2" "g2 ''signature'' = g1 ''signature''"
    "g2 ''merchantCode'' @ g2 ''amount'' @ g2 ''merchantOrderId'' = g1 ''merchantCode'' @ g1 ''amount'' @ g1 ''merchantOrderId''"
    "g2 ''resultCode'' = ''00''" "g1 ''resultCode'' = ''02''" by (simp add: demo_forms_def)
  have "gw_verify (duitku demo_forms (\<lambda>s. s) ''k'') [] ''a''"
    by (simp add: duitku_def duitku_verify_def demo_forms_def constant_equal_iff)
  from duitku_signature_covers_concatenation [OF g(1-4) this] g show ?thesis
    by (auto simp: duitku_def duitku_parse_def duitku_map_status_def)
qed

end
