(* ===== verification/Billing.thy ===== *)
theory Billing
  imports Payments "HOL-Library.Signed_Division" "HOL-Library.Product_Lexorder"
begin

text \<open>
  Platform billing (\<open>services/api/internal/modules/billing\<close>, \<open>db/billing.sql.go\<close>,
  \<open>db/payouts.sql.go\<close>): subscription packages, the fee ledger that is written when an order is paid,
  platform invoices, and the organizers' balance with their payout requests. Amounts are int64:
  \<open>int64\<close> writes the wrap-around of Go's arithmetic out, \<open>bigint\<close> is Postgres' checked cast.
\<close>

section \<open>Arithmetic\<close>

definition bigint :: "int \<Rightarrow> int res" where
  "bigint x = (if - (2 ^ 63) \<le> x \<and> x < 2 ^ 63 then Inr x else Inl NumericOutOfRange)"

section \<open>Packages and subscriptions\<close>

definition list_subscription_packages :: "db \<Rightarrow> package list" where
  "list_subscription_packages s = sort_key (\<lambda>p. (pk_sort_order p, pk_price p)) (packages s)"

definition list_active_subscription_packages :: "db \<Rightarrow> package list" where
  "list_active_subscription_packages s =
     sort_key (\<lambda>p. (pk_sort_order p, pk_price p)) (filter pk_active (packages s))"

definition get_subscription_package :: "uuid \<Rightarrow> db \<Rightarrow> package option" where
  "get_subscription_package pid s = sel (\<lambda>p. pk_id p = pid) (packages s)"

text \<open>\<open>GetOrgSubscription\<close> joins the package.\<close>

definition get_org_subscription :: "uuid \<Rightarrow> db \<Rightarrow> (subscription \<times> package) option" where
  "get_org_subscription org s =
     (case sel (\<lambda>b. sb_org b = org) (subscriptions s) of
        None \<Rightarrow> None
      | Some b \<Rightarrow>
          (case get_subscription_package (sb_package b) s of None \<Rightarrow> None | Some p \<Rightarrow> Some (b, p)))"

definition count_events_by_org :: "uuid \<Rightarrow> db \<Rightarrow> nat" where
  "count_events_by_org org s = cnt (\<lambda>e. e_org e = org) (events s)"

definition package_checks :: "package \<Rightarrow> unit res" where
  "package_checks p =
     (if \<not> (0 \<le> pk_fee_bps p \<and> pk_fee_bps p \<le> 10000) then Inl (CheckViolation ''subscription_packages_fee_check'')
      else if pk_price p < 0 then Inl (CheckViolation ''subscription_packages_price_check'')
      else Inr ())"

definition create_subscription_package :: "package \<Rightarrow> db \<Rightarrow> package res \<times> db" where
  "create_subscription_package p s =
     (case package_checks p of
        Inl e \<Rightarrow> (Inl e, s)
      | Inr _ \<Rightarrow>
          if pk_id p \<in> pk_id ` set (packages s) then (Inl (UniqueViolation ''subscription_packages_pkey''), s)
          else if pk_slug p \<in> pk_slug ` set (packages s) then
            (Inl (UniqueViolation ''subscription_packages_slug_key''), s)
          else (Inr p, s\<lparr>packages := packages s @ [p]\<rparr>))"

definition update_subscription_package ::
  "uuid \<Rightarrow> string \<Rightarrow> string \<Rightarrow> int \<Rightarrow> int option \<Rightarrow> int \<Rightarrow> string list \<Rightarrow> bool \<Rightarrow> int \<Rightarrow> db \<Rightarrow> package res \<times> db" where
  "update_subscription_package pid name descr price max_events bps features active ord s =
     (case upd_one (\<lambda>p. pk_id p = pid)
             (\<lambda>p. p\<lparr>pk_name := name, pk_description := descr, pk_price := price, pk_max_events := max_events,
                    pk_fee_bps := bps, pk_features := features, pk_active := active, pk_sort_order := ord\<rparr>)
             (packages s) of
        None \<Rightarrow> (Inl NoRows, s)
      | Some (p, ps) \<Rightarrow>
          (case package_checks p of Inl e \<Rightarrow> (Inl e, s) | Inr _ \<Rightarrow> (Inr p, s\<lparr>packages := ps\<rparr>)))"

definition upsert_org_subscription ::
  "uuid \<Rightarrow> time \<Rightarrow> uuid \<Rightarrow> uuid \<Rightarrow> time option \<Rightarrow> db \<Rightarrow> unit res \<times> db" where
  "upsert_org_subscription sid now org pid expires s =
     (if pid \<notin> pk_id ` set (packages s) then
        (Inl (ForeignKeyViolation ''org_subscriptions_package_id_fkey''), s)
      else (Inr (), s\<lparr>subscriptions :=
        (if \<exists>b \<in> set (subscriptions s). sb_org b = org
         then upd (\<lambda>b. sb_org b = org)
           (\<lambda>b. b\<lparr>sb_package := pid, sb_status := SubActive, sb_started_at := now, sb_expires_at := expires\<rparr>)
           (subscriptions s)
         else subscriptions s @ [\<lparr> sb_id = sid, sb_org = org, sb_package = pid, sb_status = SubActive,
           sb_started_at = now, sb_expires_at = expires \<rparr>])\<rparr>))"

record package_request =
  pq_slug :: string
  pq_name :: string
  pq_description :: string
  pq_price :: int
  pq_max_events :: "int option"
  pq_fee_bps :: int
  pq_features :: "string list"
  pq_active :: bool
  pq_sort_order :: int

definition list_packages :: "bool \<Rightarrow> db \<Rightarrow> package list" where
  "list_packages active_only s =
     (if active_only then list_active_subscription_packages s else list_subscription_packages s)"

definition get_package :: "uuid \<Rightarrow> db \<Rightarrow> package res" where
  "get_package pid s =
     (case get_subscription_package pid s of None \<Rightarrow> Inl ErrPackageNotFound | Some p \<Rightarrow> Inr p)"

text \<open>\<open>is_active\<close> of a new package is the column's default.\<close>

definition create_package :: "uuid \<Rightarrow> package_request \<Rightarrow> db \<Rightarrow> package res \<times> db" where
  "create_package pid rq s =
     and_then (require (pq_slug rq \<noteq> [] \<and> pq_name rq \<noteq> []) ErrInvalidPackage s) (\<lambda>_ s.
     and_then (require (\<not> (pq_fee_bps rq < 0 \<or> pq_fee_bps rq > 10000 \<or> pq_price rq < 0)) ErrInvalidPackage s) (\<lambda>_ s.
     and_then (create_subscription_package
       \<lparr> pk_id = pid, pk_slug = pq_slug rq, pk_name = pq_name rq, pk_description = pq_description rq,
         pk_price = pq_price rq, pk_max_events = pq_max_events rq, pk_fee_bps = pq_fee_bps rq,
         pk_features = pq_features rq, pk_active = True, pk_sort_order = pq_sort_order rq \<rparr> s) (\<lambda>p s.
     (Inr p, audit ''billing.package_created'' (pk_id p) s))))"

definition update_package :: "uuid \<Rightarrow> package_request \<Rightarrow> db \<Rightarrow> package res \<times> db" where
  "update_package pid rq s =
     and_then (require (pq_name rq \<noteq> []) ErrInvalidPackage s) (\<lambda>_ s.
     and_then (require (\<not> (pq_fee_bps rq < 0 \<or> pq_fee_bps rq > 10000 \<or> pq_price rq < 0)) ErrInvalidPackage s) (\<lambda>_ s.
     and_then (on_no_rows ErrPackageNotFound (update_subscription_package pid (pq_name rq) (pq_description rq)
       (pq_price rq) (pq_max_events rq) (pq_fee_bps rq) (pq_features rq) (pq_active rq) (pq_sort_order rq) s)) (\<lambda>p s.
     (Inr p, audit ''billing.package_updated'' (pk_id p) s))))"

definition get_subscription :: "uuid \<Rightarrow> db \<Rightarrow> (subscription \<times> package) res" where
  "get_subscription org s =
     (case get_org_subscription org s of None \<Rightarrow> Inl ErrSubscriptionNotFound | Some r \<Rightarrow> Inr r)"

text \<open>\<open>uuid.Parse\<close> and \<open>time.Parse\<close> are arguments; a missing or empty expiry is NULL.\<close>

definition assign_subscription ::
  "(string \<Rightarrow> uuid option) \<Rightarrow> (string \<Rightarrow> time option) \<Rightarrow> uuid \<Rightarrow> time \<Rightarrow> uuid \<Rightarrow> string \<Rightarrow> string option \<Rightarrow> db \<Rightarrow>
    (subscription \<times> package) res \<times> db" where
  "assign_subscription parse_uuid parse_time sid now org package_id expires s =
     and_then (found ErrInvalidPackage (parse_uuid package_id) s) (\<lambda>pid s.
     and_then (found ErrPackageNotFound (get_subscription_package pid s) s) (\<lambda>_ s.
     and_then (case expires of
         None \<Rightarrow> (Inr None, s)
       | Some t \<Rightarrow> if t = [] then (Inr None, s)
                  else (case parse_time t of None \<Rightarrow> (Inl ErrInvalidPackage, s) | Some x \<Rightarrow> (Inr (Some x), s))) (\<lambda>ex s.
     and_then (upsert_org_subscription sid now org pid ex s) (\<lambda>_ s.
     let s = audit ''billing.subscription_assigned'' org s in (get_subscription org s, s)))))"

text \<open>The feature gate allows everything without an ACTIVE subscription.\<close>

definition can_use :: "uuid \<Rightarrow> string \<Rightarrow> db \<Rightarrow> bool" where
  "can_use org feature s =
     (case get_org_subscription org s of
        None \<Rightarrow> True
      | Some (b, p) \<Rightarrow> if sb_status b \<noteq> SubActive then True else feature \<in> set (pk_features p))"

definition check_event_limit :: "uuid \<Rightarrow> db \<Rightarrow> unit res" where
  "check_event_limit org s =
     (case get_org_subscription org s of
        None \<Rightarrow> Inr ()
      | Some (b, p) \<Rightarrow>
          (case pk_max_events p of
             None \<Rightarrow> Inr ()
           | Some m \<Rightarrow> if int (count_events_by_org org s) \<ge> m then Inl ErrEventLimitReached else Inr ()))"

section \<open>The fee ledger\<close>

text \<open>\<open>INSERT .. ON CONFLICT (order_id) DO NOTHING RETURNING\<close> read with \<open>QueryRow\<close>: a second entry
  for an order returns no row, which is \<open>pgx.ErrNoRows\<close>.\<close>

definition insert_platform_fee :: "fee_entry \<Rightarrow> db \<Rightarrow> fee_entry res \<times> db" where
  "insert_platform_fee f s =
     (if fe_total f < 0 \<or> fe_amount f < 0 then (Inl (CheckViolation ''platform_fee_ledger_amounts_check''), s)
      else if fe_order f \<in> fe_order ` set (fees s) then (Inl NoRows, s)
      else if fe_id f \<in> fe_id ` set (fees s) then (Inl (UniqueViolation ''platform_fee_ledger_pkey''), s)
      else if fe_order f \<notin> o_id ` set (orders s) then
        (Inl (ForeignKeyViolation ''platform_fee_ledger_order_id_fkey''), s)
      else (Inr f, s\<lparr>fees := fees s @ [f]\<rparr>))"

definition fee_of :: "int \<Rightarrow> int \<Rightarrow> int" where
  "fee_of tot bps = int64 (tot * bps) sdiv 10000"

definition record_order_fee :: "uuid \<Rightarrow> order \<Rightarrow> db \<Rightarrow> unit res \<times> db" where
  "record_order_fee fid x s =
     (case get_org_subscription (o_org x) s of
        None \<Rightarrow> (Inr (), s)
      | Some (b, p) \<Rightarrow>
          if pk_fee_bps p \<le> 0 then (Inr (), s)
          else and_then (insert_platform_fee
            \<lparr> fe_id = fid, fe_org = o_org x, fe_order = o_id x, fe_total = o_total x, fe_bps = pk_fee_bps p,
              fe_amount = fee_of (o_total x) (pk_fee_bps p) \<rparr> s) (\<lambda>_ s. (Inr (), s)))"

definition org_fees :: "uuid \<Rightarrow> db \<Rightarrow> fee_entry list" where
  "org_fees org s = filter (\<lambda>f. fe_org f = org) (fees s)"

definition list_platform_fees_by_org :: "uuid \<Rightarrow> nat \<Rightarrow> nat \<Rightarrow> db \<Rightarrow> fee_entry list" where
  "list_platform_fees_by_org org lim offset s = take lim (drop offset (rev (org_fees org s)))"

record fee_summary =
  fs_entries :: nat
  fs_gross :: int
  fs_fees :: int

definition platform_fee_summary :: "uuid \<Rightarrow> db \<Rightarrow> fee_summary res" where
  "platform_fee_summary org s =
     (case bigint (sum_list (map fe_total (org_fees org s))) of
        Inl e \<Rightarrow> Inl e
      | Inr gross \<Rightarrow>
          (case bigint (sum_list (map fe_amount (org_fees org s))) of
             Inl e \<Rightarrow> Inl e
           | Inr tot \<Rightarrow>
               Inr \<lparr> fs_entries = length (org_fees org s), fs_gross = gross, fs_fees = tot \<rparr>))"

section \<open>Invoices\<close>

definition create_platform_invoice :: "platform_invoice \<Rightarrow> db \<Rightarrow> platform_invoice res \<times> db" where
  "create_platform_invoice iv s =
     (if iv_subscription iv < 0 \<or> iv_fee iv < 0 \<or> iv_total iv < 0 then
        (Inl (CheckViolation ''platform_invoices_amounts_check''), s)
      else if iv_id iv \<in> iv_id ` set (platform_invoices s) then
        (Inl (UniqueViolation ''platform_invoices_pkey''), s)
      else if iv_number iv \<in> iv_number ` set (platform_invoices s) then
        (Inl (UniqueViolation ''platform_invoices_invoice_number_key''), s)
      else (Inr iv, s\<lparr>platform_invoices := platform_invoices s @ [iv]\<rparr>))"

definition get_platform_invoice :: "uuid \<Rightarrow> db \<Rightarrow> platform_invoice option" where
  "get_platform_invoice iid s = sel (\<lambda>iv. iv_id iv = iid) (platform_invoices s)"

definition mark_platform_invoice_paid :: "uuid \<Rightarrow> time \<Rightarrow> db \<Rightarrow> platform_invoice res \<times> db" where
  "mark_platform_invoice_paid iid now s =
     (case upd_one (\<lambda>iv. iv_id iv = iid \<and> iv_status iv = InvIssued)
             (\<lambda>iv. iv\<lparr>iv_status := InvPaid, iv_paid_at := Some now\<rparr>) (platform_invoices s) of
        None \<Rightarrow> (Inl NoRows, s)
      | Some (iv, ivs) \<Rightarrow> (Inr iv, s\<lparr>platform_invoices := ivs\<rparr>))"

text \<open>The number of a period: a date is its text \<open>2006-01-02\<close>, and \<open>Format("200601")\<close> its year and month.\<close>

definition invoice_number :: "(uuid \<Rightarrow> string) \<Rightarrow> uuid \<Rightarrow> string \<Rightarrow> string" where
  "invoice_number uuid_string org day =
     ''INV-'' @ take 4 day @ take 2 (drop 5 day) @ ''-'' @ take 8 (uuid_string org)"

definition generate_invoice ::
  "(string \<Rightarrow> bool) \<Rightarrow> (uuid \<Rightarrow> string) \<Rightarrow> uuid \<Rightarrow> time \<Rightarrow> uuid \<Rightarrow> string \<Rightarrow> string \<Rightarrow> int \<Rightarrow> int \<Rightarrow> db \<Rightarrow>
    platform_invoice res \<times> db" where
  "generate_invoice is_date uuid_string iid now org day1 day2 sub_amount fee s =
     and_then (require (is_date day1) ErrInvalidPackage s) (\<lambda>_ s.
     and_then (require (is_date day2) ErrInvalidPackage s) (\<lambda>_ s.
     and_then (require (\<not> (sub_amount < 0 \<or> fee < 0)) ErrInvalidPackage s) (\<lambda>_ s.
     and_then (create_platform_invoice
       \<lparr> iv_id = iid, iv_org = org, iv_number = invoice_number uuid_string org day1, iv_start = day1,
         iv_end = day2, iv_subscription = sub_amount, iv_fee = fee, iv_total = int64 (sub_amount + fee),
         iv_status = InvIssued, iv_issued_at = Some now, iv_paid_at = None \<rparr> s) (\<lambda>iv s.
     (Inr iv, audit ''billing.invoice_generated'' (iv_id iv) s)))))"

definition get_invoice :: "uuid \<Rightarrow> db \<Rightarrow> platform_invoice res" where
  "get_invoice iid s =
     (case get_platform_invoice iid s of None \<Rightarrow> Inl ErrInvoiceNotFound | Some iv \<Rightarrow> Inr iv)"

definition list_invoices :: "uuid \<Rightarrow> int \<Rightarrow> int \<Rightarrow> db \<Rightarrow> platform_invoice list res" where
  "list_invoices org lim offset s =
     (let lim = (if lim \<le> 0 \<or> lim > 100 then 50 else lim)
      in if offset < 0 then Inl (PlainErr ''OFFSET must not be negative'')
         else Inr (take (nat lim) (drop (nat offset)
           (rev (filter (\<lambda>iv. iv_org iv = org) (platform_invoices s))))))"

definition mark_invoice_paid :: "uuid \<Rightarrow> time \<Rightarrow> db \<Rightarrow> platform_invoice res \<times> db" where
  "mark_invoice_paid iid now s =
     and_then (on_no_rows ErrInvoiceNotFound (mark_platform_invoice_paid iid now s)) (\<lambda>iv s.
     (Inr iv, audit ''billing.invoice_paid'' (iv_id iv) s))"

section \<open>Payouts\<close>

definition create_payout_account_row :: "payout_account \<Rightarrow> db \<Rightarrow> db" where
  "create_payout_account_row a s = s\<lparr>payout_accounts :=
     (if \<exists>b \<in> set (payout_accounts s). pa_org b = pa_org a \<and> pa_code b = pa_code a \<and> pa_number b = pa_number a
      then upd (\<lambda>b. pa_org b = pa_org a \<and> pa_code b = pa_code a \<and> pa_number b = pa_number a)
        (\<lambda>b. b\<lparr>pa_bank := pa_bank a, pa_name := pa_name a\<rparr>) (payout_accounts s)
      else payout_accounts s @ [a])\<rparr>"

definition create_payout_account ::
  "uuid \<Rightarrow> uuid \<Rightarrow> string \<Rightarrow> string \<Rightarrow> string \<Rightarrow> string \<Rightarrow> db \<Rightarrow> unit res \<times> db" where
  "create_payout_account aid org bank code number name s =
     (if bank = [] \<or> number = [] \<or> name = [] then
        (Inl (PlainErr ''bank name, account number, and account name are required''), s)
      else (Inr (), create_payout_account_row
        \<lparr> pa_id = aid, pa_org = org, pa_bank = bank, pa_code = (if code = [] then bank else code),
          pa_number = number, pa_name = name, pa_verified = True \<rparr> s))"

definition list_payout_accounts_by_org :: "uuid \<Rightarrow> db \<Rightarrow> payout_account list" where
  "list_payout_accounts_by_org org s = rev (filter (\<lambda>a. pa_org a = org) (payout_accounts s))"

text \<open>\<open>payout_requests.payout_account_id\<close> is \<open>ON DELETE SET NULL\<close>.\<close>

definition delete_payout_account :: "uuid \<Rightarrow> uuid \<Rightarrow> db \<Rightarrow> db" where
  "delete_payout_account org aid s =
     (if \<exists>a \<in> set (payout_accounts s). pa_id a = aid \<and> pa_org a = org
      then s\<lparr>payout_accounts := filter (\<lambda>a. \<not> (pa_id a = aid \<and> pa_org a = org)) (payout_accounts s),
             payouts := upd (\<lambda>p. po_account p = Some aid) (\<lambda>p. p\<lparr>po_account := None\<rparr>) (payouts s)\<rparr>
      else s)"

definition list_payout_requests_by_org :: "uuid \<Rightarrow> db \<Rightarrow> payout_request list" where
  "list_payout_requests_by_org org s = rev (filter (\<lambda>p. po_org p = org) (payouts s))"

definition get_org_refund_summary :: "uuid \<Rightarrow> db \<Rightarrow> int res" where
  "get_org_refund_summary org s =
     bigint (sum_list (map o_refunded_amount (filter (\<lambda>x. o_org x = org) (orders s))))"

definition create_payout_request_row :: "payout_request \<Rightarrow> db \<Rightarrow> payout_request res \<times> db" where
  "create_payout_request_row p s =
     (if po_amount p \<le> 0 then (Inl (CheckViolation ''payout_requests_amount_check''), s)
      else if po_id p \<in> po_id ` set (payouts s) then (Inl (UniqueViolation ''payout_requests_pkey''), s)
      else if (case po_event p of None \<Rightarrow> False | Some ev \<Rightarrow> ev \<notin> e_id ` set (events s)) then
        (Inl (ForeignKeyViolation ''payout_requests_event_id_fkey''), s)
      else if (case po_account p of None \<Rightarrow> False | Some a \<Rightarrow> a \<notin> pa_id ` set (payout_accounts s)) then
        (Inl (ForeignKeyViolation ''payout_requests_payout_account_id_fkey''), s)
      else if po_requested_by p \<notin> u_id ` set (users s) then
        (Inl (ForeignKeyViolation ''payout_requests_requested_by_fkey''), s)
      else (Inr p, s\<lparr>payouts := payouts s @ [p]\<rparr>))"

record balance =
  ba_gross :: int
  ba_fees :: int
  ba_refunded :: int
  ba_paid_out :: int
  ba_available :: int

text \<open>The loop over the requests: APPROVED ones are not counted.\<close>

definition counted_payout :: "payout_request \<Rightarrow> bool" where
  "counted_payout p \<longleftrightarrow> po_status p = PoCompleted \<or> po_status p = PoProcessing \<or> po_status p = PoPending"

definition paid_payouts :: "payout_request list \<Rightarrow> int" where
  "paid_payouts ps = fold (\<lambda>p tot. if counted_payout p then int64 (tot + po_amount p) else tot) ps 0"

definition get_balance :: "uuid \<Rightarrow> db \<Rightarrow> balance res" where
  "get_balance org s =
     (case platform_fee_summary org s of
        Inl e \<Rightarrow> Inl e
      | Inr f \<Rightarrow>
          (case get_org_refund_summary org s of
             Inl e \<Rightarrow> Inl e
           | Inr refunds \<Rightarrow>
               let tot = paid_payouts (list_payout_requests_by_org org s);
                   available = int64 (int64 (int64 (fs_gross f - fs_fees f) - refunds) - tot)
               in Inr \<lparr> ba_gross = fs_gross f, ba_fees = fs_fees f, ba_refunded = refunds, ba_paid_out = tot,
                        ba_available = (if available < 0 then 0 else available) \<rparr>))"

text \<open>
  The balance is read and the request inserted by statements of their own, without a transaction:
  \<open>create_payout_request_at\<close> reads in \<open>s0\<close> and writes in \<open>s\<close>. An event or account id that does
  not parse is dropped.
\<close>

record payout_input =
  pi_event :: "string option"
  pi_account :: "string option"
  pi_amount :: int
  pi_notes :: string

definition optional_uuid :: "(string \<Rightarrow> uuid option) \<Rightarrow> string option \<Rightarrow> uuid option" where
  "optional_uuid parse v = (case v of None \<Rightarrow> None | Some t \<Rightarrow> if t = [] then None else parse t)"

definition create_payout_request_at ::
  "(string \<Rightarrow> uuid option) \<Rightarrow> uuid \<Rightarrow> uuid \<Rightarrow> uuid \<Rightarrow> payout_input \<Rightarrow> db \<Rightarrow> db \<Rightarrow> payout_request res \<times> db" where
  "create_payout_request_at parse pid org actor rq s0 s =
     and_then (require (0 < pi_amount rq) (PlainErr ''payout amount must be greater than 0'') s) (\<lambda>_ s.
     and_then (get_balance org s0, s) (\<lambda>b s.
     and_then (require (pi_amount rq \<le> ba_available b)
       (PlainErr ''insufficient available balance for requested payout'') s) (\<lambda>_ s.
     create_payout_request_row
       \<lparr> po_id = pid, po_org = org, po_event = optional_uuid parse (pi_event rq),
         po_account = optional_uuid parse (pi_account rq), po_amount = pi_amount rq, po_currency = ''IDR'',
         po_status = PoPending, po_notes = null_text (pi_notes rq), po_requested_by = actor \<rparr> s)))"

definition create_payout_request ::
  "(string \<Rightarrow> uuid option) \<Rightarrow> uuid \<Rightarrow> uuid \<Rightarrow> uuid \<Rightarrow> payout_input \<Rightarrow> db \<Rightarrow> payout_request res \<times> db" where
  "create_payout_request parse pid org actor rq s = create_payout_request_at parse pid org actor rq s s"

section \<open>The processors of the two programs\<close>

text \<open>\<open>app/server.go\<close> gives its processor the fee recorder; \<open>BuildPaymentRegistry\<close> registers the
  adapters that are configured.\<close>

definition api_processor :: "uuid \<Rightarrow> string \<Rightarrow> nat list \<Rightarrow> uuid \<Rightarrow> (string \<Rightarrow> bool) \<Rightarrow> processor" where
  "api_processor tid day rnd fid valid_json =
     (webhook_processor tid day rnd valid_json)\<lparr>pr_fee_recorder := Some (record_order_fee fid)\<rparr>"

definition build_registry :: "gateway option \<Rightarrow> gateway option \<Rightarrow> registry" where
  "build_registry dk xe =
     (case xe of None \<Rightarrow> id | Some g \<Rightarrow> register_gateway g)
       ((case dk of None \<Rightarrow> id | Some g \<Rightarrow> register_gateway g) [])"

lemma record_order_fee_frame:
  "same_sale s (snd (record_order_fee fid x s)) \<and> tickets (snd (record_order_fee fid x s)) = tickets s"
  by (auto simp: record_order_fee_def insert_platform_fee_def same_sale_def split: option.split)

interpretation api: payment_processor "issue_with tid day rnd" "api_processor tid day rnd fid valid_json"
  for tid day rnd fid valid_json
  by unfold_locales (auto simp: api_processor_def webhook_processor_def record_order_fee_frame)

section \<open>Fees\<close>

lemma sdiv_nonneg_eq: "0 \<le> x \<Longrightarrow> x sdiv 10000 = x div (10000 :: int)"
  by (simp add: signed_divide_int_def sgn_if)

lemma fee_of_exact:
  assumes "0 \<le> amount" "amount \<le> 922337203685477" "0 \<le> bps" "bps \<le> 10000"
  shows "fee_of amount bps = amount * bps div 10000"
proof -
  have "amount * bps \<le> 922337203685477 * 10000" using assms by (intro mult_mono) auto
  then have "int64 (amount * bps) = amount * bps" using assms by (intro int64_id) (auto intro: order_trans [of _ 0])
  with assms show ?thesis by (simp add: fee_of_def sdiv_nonneg_eq)
qed

lemma fee_of_le:
  assumes "0 \<le> amount" "0 \<le> bps" "bps \<le> 10000"
  shows "fee_of amount bps \<le> amount"
proof (cases "0 \<le> int64 (amount * bps)")
  case True
  have "int64 (amount * bps) \<le> amount * bps" using assms by (intro int64_le) simp
  also have "\<dots> \<le> amount * 10000" using assms by (intro mult_left_mono) auto
  finally show ?thesis using True by (simp add: fee_of_def sdiv_nonneg_eq)
next
  case False
  then have "int64 (amount * bps) sdiv 10000 \<le> 0"
    by (simp add: signed_divide_int_def sgn_if pos_imp_zdiv_nonneg_iff)
  with assms(1) show ?thesis by (simp add: fee_of_def)
qed


definition demo_package :: package where
  "demo_package = \<lparr> pk_id = 300, pk_slug = ''starter'', pk_name = ''Starter'', pk_description = [], pk_price = 0,
     pk_max_events = Some 3, pk_fee_bps = 500, pk_features = [''basic_payment''], pk_active = True, pk_sort_order = 1 \<rparr>"

definition demo_billing :: db where
  "demo_billing = demo_sale\<lparr>packages := [demo_package], subscriptions := [\<lparr> sb_id = 310, sb_org = 1,
     sb_package = 300, sb_status = SubCancelled, sb_started_at = 0, sb_expires_at = Some 1 \<rparr>]\<rparr>"


section \<open>Payouts\<close>

definition committed :: "uuid \<Rightarrow> db \<Rightarrow> int" where
  "committed org s = sum_list (map po_amount (filter (\<lambda>p. po_org p = org \<and> counted_payout p) (payouts s)))"

definition earned :: "uuid \<Rightarrow> db \<Rightarrow> int" where
  "earned org s = sum_list (map fe_total (org_fees org s)) - sum_list (map fe_amount (org_fees org s))
     - sum_list (map o_refunded_amount (filter (\<lambda>x. o_org x = org) (orders s)))"

lemma paid_payouts_sum:
  "fold (\<lambda>p a. if counted_payout p then int64 (a + po_amount p) else a) ps (int64 a) =
     int64 (a + sum_list (map po_amount (filter counted_payout ps)))"
  by (induction ps arbitrary: a) (simp_all add: int64_add add.assoc [symmetric])

lemma paid_payouts_committed: "paid_payouts (list_payout_requests_by_org org s) = int64 (committed org s)"
proof -
  have "int64 0 = 0" by (simp add: int64_def)
  then have "paid_payouts ps = int64 (sum_list (map po_amount (filter counted_payout ps)))" for ps
    using paid_payouts_sum [of ps 0] by (simp add: paid_payouts_def)
  then show ?thesis
    by (simp add: list_payout_requests_by_org_def committed_def rev_filter [symmetric] rev_map [symmetric]
        sum_list_rev conj_commute)
qed

text \<open>All the wrap-arounds of the balance are one: it is exact as soon as the difference fits.\<close>

lemma get_balance_Inr:
  assumes "get_balance org s = Inr b" and "- (2 ^ 63) \<le> earned org s - committed org s"
    and "earned org s - committed org s < 2 ^ 63"
  shows "ba_available b = max 0 (earned org s - committed org s)"
proof -
  have "ba_available b = (let a = int64 (earned org s - committed org s) in if a < 0 then 0 else a)"
    using assms(1)
    by (auto simp: get_balance_def platform_fee_summary_def get_org_refund_summary_def bigint_def Let_def
        paid_payouts_committed int64_diff earned_def split: sum.splits if_splits)
  with assms(2,3) show ?thesis by (simp add: int64_id Let_def)
qed

lemma create_payout_request_row_Inr:
  "create_payout_request_row p s = (Inr q, s') \<Longrightarrow> q = p \<and> s' = s\<lparr>payouts := payouts s @ [p]\<rparr>"
  by (auto simp: create_payout_request_row_def split: if_splits)

lemma payout_row:
  assumes "create_payout_request_at parse pid org actor rq s0 s = (Inr p, s')"
  shows "po_org p = org \<and> po_status p = PoPending \<and> 0 < po_amount p \<and> s' = s\<lparr>payouts := payouts s @ [p]\<rparr> \<and>
    (\<exists>b. get_balance org s0 = Inr b \<and> po_amount p \<le> ba_available b)"
  using assms by (auto simp: create_payout_request_at_def and_then_Inr dest!: create_payout_request_row_Inr)

lemma payout_covered:
  assumes "create_payout_request_at parse pid org actor rq s0 s = (Inr p, s')"
    and "- (2 ^ 63) \<le> earned org s0 - committed org s0" and "earned org s0 - committed org s0 < 2 ^ 63"
  shows "committed org s0 + po_amount p \<le> earned org s0 \<and> 0 < po_amount p"
  using payout_row [OF assms(1)] get_balance_Inr [OF _ assms(2,3)] by (auto simp: max_def split: if_splits)

text \<open>C10: Payout requests. A request that succeeds is PENDING with a positive amount; that amount was
  covered by the balance at the moment the balance was read; and if no statement of another request
  runs between the reading and the insert, the requests of the organization that are PENDING,
  PROCESSING or COMPLETED stay covered by what its fee ledger says it earned, after fees and refunds.
  Reading and inserting are not one transaction: the witness has two requests that each take
  the whole balance.\<close>

theorem payout_within_balance:
  assumes "create_payout_request_at parse pid org actor rq s0 s = (Inr p, s')"
    and "- (2 ^ 63) \<le> earned org s0 - committed org s0" and "earned org s0 - committed org s0 < 2 ^ 63"
  shows "po_org p = org \<and> po_status p = PoPending \<and> 0 < po_amount p \<and>
    committed org s0 + po_amount p \<le> earned org s0 \<and>
    committed org s' = committed org s + po_amount p \<and>
    (s = s0 \<longrightarrow> committed org s' \<le> earned org s')"
proof -
  note p = payout_row [OF assms(1)]
  then have "committed org s' = committed org s + po_amount p"
    by (auto simp: committed_def counted_payout_def)
  moreover have "earned org s' = earned org s" using p by (auto simp: earned_def org_fees_def)
  ultimately show ?thesis using p payout_covered [OF assms] by auto
qed

definition demo_earned :: db where
  "demo_earned = demo_sale\<lparr>fees := [\<lparr> fe_id = 320, fe_org = 1, fe_order = 40, fe_total = 10, fe_bps = 1000, fe_amount = 1 \<rparr>]\<rparr>"

definition demo_payout :: payout_input where
  "demo_payout = \<lparr> pi_event = None, pi_account = None, pi_amount = 9, pi_notes = [] \<rparr>"

theorem payout_within_balance_witness:
  "\<exists>p1 s1 p2 s2. create_payout_request (\<lambda>_. None) 400 1 5 demo_payout demo_earned = (Inr p1, s1) \<and>
     create_payout_request_at (\<lambda>_. None) 401 1 5 demo_payout demo_earned s1 = (Inr p2, s2) \<and>
     earned 1 s2 = 9 \<and> committed 1 s1 = 9 \<and> committed 1 s2 = 18"
proof -
  let ?a = "create_payout_request_at (\<lambda>_. None) 400 1 5 demo_payout demo_earned demo_earned"
  let ?b = "create_payout_request_at (\<lambda>_. None) 401 1 5 demo_payout demo_earned (snd ?a)"
  have a: "?a = (Inr (projr (fst ?a)), snd ?a)" by (rule res_run_ok) code_simp
  have b: "?b = (Inr (projr (fst ?b)), snd ?b)" by (rule res_run_ok) code_simp
  have amounts: "po_amount (projr (fst ?a)) = 9" "po_amount (projr (fst ?b)) = 9"
    and e: "earned 1 demo_earned = 9" "committed 1 demo_earned = 0" "earned 1 (snd ?b) = 9" by code_simp+
  from payout_within_balance [OF a] e amounts have one: "committed 1 (snd ?a) = 9" by simp
  from payout_within_balance [OF b] e amounts one have "committed 1 (snd ?b) = 18" by simp
  with a b one e show ?thesis unfolding create_payout_request_def by blast
qed

end
