(* ===== verification/Sale.thy ===== *)
theory Sale
  imports Billing
begin

text \<open>
  The sale as a whole: one step relation over the operations that the API server, the webhook
  receiver and the worker run, wired as in \<open>app/server.go\<close> and \<open>cmd/webhook/main.go\<close>, each as one
  committed call. Its seats implement the abstract counter of \<open>Inventory\<close>, its orders only move
  along \<open>moves_to\<close>, and money and tickets stay together.
\<close>

section \<open>The wired system\<close>

text \<open>Work of other modules on other tables: tickets may be renumbered, marked or reassigned.\<close>

definition aside :: "db \<Rightarrow> db \<Rightarrow> bool" where
  "aside s s' \<longleftrightarrow> orders s' = orders s \<and> reservations s' = reservations s \<and> categories s' = categories s \<and>
     payments s' = payments s \<and> map t_order (tickets s') = map t_order (tickets s)"

inductive sale_step :: "registry \<Rightarrow> db \<Rightarrow> db \<Rightarrow> bool" for reg where
  checkout: "checkout (production_service cfg ttl validator) en p ev cat token answers s = (r, s') \<Longrightarrow>
    sale_step reg s s'"
| guest_checkout: "guest_checkout (production_service cfg ttl validator) en rq ev cat s = (r, s') \<Longrightarrow>
    sale_step reg s s'"
| cancelled: "cancel p oid s = (u, s') \<Longrightarrow> sale_step reg s s'"
| claimed: "claim_order p oid s = (r, s') \<Longrightarrow> sale_step reg s s'"
| refunded: "refund_order org ev oid amount reason now s = (r, s') \<Longrightarrow> sale_step reg s s'"
| expired: "expire_orders locked batch now s = (n, s') \<Longrightarrow> sale_step reg s s'"
| charged: "create_payment reg expiry pe p oid prq s = (pr, s') \<Longrightarrow> sale_step reg s s'"
| delivered: "handle_webhook (webhook_processor tid day rnd valid_json) reg now wid name hs body s = (code, s') \<Longrightarrow>
    sale_step reg s s'"
| reconciled: "reconcile (api_processor tid day rnd fid valid_json) reg now pid s = (u, s') \<Longrightarrow> sale_step reg s s'"
| numbered: "assign_next_bib (\<lambda>_ s. s) ev tid actor now s = (t, s') \<Longrightarrow> sale_step reg s s'"
| paid_out: "create_payout_request parse pid org actor pin s = (q, s') \<Longrightarrow> sale_step reg s s'"
| elsewhere: "aside s s' \<Longrightarrow> sale_step reg s s'"

inductive_cases sale_step_cases: "sale_step reg s s'"

section \<open>Every step is sound\<close>

lemma aside_calm:
  assumes "aside s s'" shows "calm s s'"
proof -
  have "t_order ` set (tickets s') = t_order ` set (tickets s)"
    using assms unfolding aside_def by (metis list.set_map)
  then have "fulfilled s \<Longrightarrow> fulfilled s'"
    using assms by (simp add: aside_def fulfilled_def ticketed_def paid_for_def)
  with assms stock_inv_cong [of s' s] held_cong [of s' s] orders_evolve_same [of s' s]
  show ?thesis by (simp add: aside_def calm_def sound_def settling_def stock_queries seats_def)
qed

lemma refund_order_calm:
  assumes "stock_inv s" shows "calm s (snd (refund_order org ev oid amount reason now s))"
  unfolding refund_order_def
proof (rule and_then_post [where R = calm and s = s])
  have frame: "webhooks (snd (refund_order_tx org ev oid amount reason now s)) = webhooks s"
    unfolding refund_order_tx_def
    by (rule and_then_inv [where I = "\<lambda>t. webhooks t = webhooks s"]
        | simp add: record_order_refund_def split: option.split)+
  from assms have ids: "distinct (map o_id (orders s))" by (simp add: stock_inv_def)
  show "calm s (snd (exec_tx (refund_order_tx org ev oid amount reason now) s))"
    by (rule exec_tx_sound, rule frame) (erule refund_order_tx_calm [OF ids], erule calm_same_stock)
qed (simp add: calm_trans calm_same_stock)

lemma create_payment_calm: "calm s (snd (create_payment reg expiry pe p oid rq s))"
proof -
  have row: "calm t (snd (create_payment_row q t))" for q t
    by (auto simp: create_payment_row_def paid_for_def intro!: calm_tables)
  have log: "calm s (audit a i t)" if "calm s t" for a i t
    using that by (rule calm_trans) (simp add: calm_tables paid_for_def)
  show ?thesis unfolding create_payment_def Let_def
    by (rule and_then_post [where R = calm and s = s] | rule row | simp add: log)+
qed

lemma handle_webhook_calm:
  "calm s (snd (handle_webhook (webhook_processor tid day rnd vj) reg now wid name hs body s))"
proof (cases "get_gateway reg name")
  case (Some g)
  have "calm s (snd (process_raw (webhook_processor tid day rnd vj) now wid g hs body s))"
    by (rule webhook.process_raw_calm)
  with Some show ?thesis
    by (cases "process_raw (webhook_processor tid day rnd vj) now wid g hs body s") (simp add: handle_webhook_def)
qed (simp add: handle_webhook_def)

lemma assign_bib_row_aside:
  assumes "aside s t" shows "aside s (snd (assign_bib_row tid bib actor m now t))"
proof -
  have "map t_order (upd P f ts) = map t_order ts" if "\<And>t. t_order (f t) = t_order t" for P f and ts :: "ticket list"
    using that by (simp add: map_upd)
  with assms show ?thesis
    by (simp add: assign_bib_row_def aside_def upd_one_def split: option.split)
qed

lemma aside_refl [simp]: "aside s s"
  by (simp add: aside_def)

lemma aside_audit [simp]: "aside s (audit a i t) \<longleftrightarrow> aside s t"
  by (simp add: aside_def)

lemma assign_attempts_aside:
  "aside s t \<Longrightarrow> aside s (snd (assign_attempts (\<lambda>_ s. s) ev tid actor now k t))"
proof (induction k arbitrary: t)
  case (Suc k)
  show ?case unfolding assign_attempts.simps
  proof (rule and_then_inv [where I = "aside s"], use Suc in simp)
    fix curr t1 assume t1: "aside s t1"
    from assign_bib_row_aside [OF this] Suc.IH
    show "aside s (snd (let candidate = format_numeric_bib (signed_take_bit 63 (curr + 1))
        in case assign_bib_row tid candidate actor BibAuto now t1 of
          (Inr t, s) \<Rightarrow> (Inr t, audit ''BIB_ASSIGNED'' tid s)
        | (Inl e, s) \<Rightarrow> if is_unique_violation e then assign_attempts (\<lambda>_ s. s) ev tid actor now k s else (Inl e, s)))"
      by (auto simp: Let_def split: prod.split sum.split) (metis snd_conv)+
  qed
qed simp

lemma assign_next_bib_aside: "aside s (snd (assign_next_bib (\<lambda>_ s. s) ev tid actor now s))"
  unfolding assign_next_bib_def by (rule and_then_inv [where I = "aside s"]) (simp_all add: assign_attempts_aside)

lemma create_payout_request_aside: "aside s (snd (create_payout_request parse pid org actor rq s))"
  unfolding create_payout_request_def create_payout_request_at_def
  by (rule and_then_inv [where I = "aside s"] | simp add: create_payout_request_row_def aside_def)+

lemma sale_step_sound: "sale_step reg s s' \<Longrightarrow> stock_inv s \<Longrightarrow> sound s s'"
proof (induction rule: sale_step.induct)
  case (checkout cfg ttl validator en p ev cat token answers s r s')
  then show ?case using production.checkout_sound [of s cfg ttl validator en p ev cat token answers] by simp
next
  case (guest_checkout cfg ttl validator en rq ev cat s r s')
  then show ?case using production.guest_checkout_sound [OF refl, of s cfg ttl validator en rq ev cat] by simp
next
  case (cancelled p oid s u s')
  then show ?case using cancel_calm [of s p oid] by (simp add: calm_sound)
next
  case (claimed p oid s r s')
  then show ?case using claim_order_calm [of s p oid] by (simp add: calm_sound)
next
  case (refunded org ev oid amount reason now s r s')
  then show ?case using refund_order_calm [of s org ev oid amount reason now] by (simp add: calm_sound)
next
  case (expired locked batch now s n s')
  then show ?case using expire_orders_calm [of s locked batch now] by (simp add: calm_sound)
next
  case (charged expiry pe p oid prq s pr s')
  then show ?case using create_payment_calm [of s reg expiry pe p oid prq] by (simp add: calm_sound)
next
  case (delivered tid day rnd valid_json now wid name hs body s code s')
  then show ?case using handle_webhook_calm [of s tid day rnd valid_json reg now wid name hs body] by (simp add: calm_sound)
next
  case (reconciled tid day rnd fid valid_json now pid s u s')
  then show ?case using api.reconcile_calm [of s tid day rnd fid valid_json reg now pid] by (simp add: calm_sound)
next
  case (numbered ev tid actor now s t s')
  then show ?case using assign_next_bib_aside [of s ev tid actor now] by (simp add: aside_calm calm_sound)
next
  case (paid_out parse pid org actor pin s q s')
  then show ?case using create_payout_request_aside [of s parse pid org actor pin] by (simp add: aside_calm calm_sound)
next
  case (elsewhere s s')
  then show ?case by (simp add: aside_calm calm_sound)
qed

lemma sale_steps_sound: "(sale_step reg)\<^sup>*\<^sup>* s s' \<Longrightarrow> stock_inv s \<Longrightarrow> sound s s'"
proof (induction rule: rtranclp_induct)
  case (step t u)
  then have "sound s t" by simp
  moreover from this step.prems have "stock_inv t" by (simp add: sound_def)
  ultimately show ?case using sale_step_sound [OF step.hyps(2)] sound_trans by blast
qed simp

section \<open>Properties of the wired system\<close>

text \<open>Three places: one is reserved, user 5 checks out another one and cancels the first order.\<close>

definition demo_open :: db where
  "demo_open = demo_sale\<lparr>tickets := []\<rparr>"

definition demo_after :: db where
  "demo_after = snd (cancel 5 40 (snd (checkout demo_service demo_entropy 5 2 3 [] None demo_open)))"

lemma demo_open_ok: "stock_inv demo_open" "within_capacity demo_open" "fulfilled demo_open"
proof -
  show "stock_inv demo_open" "within_capacity demo_open" by code_simp+
  show "fulfilled demo_open"
    by (simp add: fulfilled_def ticketed_def demo_open_def demo_sale_def demo_pending_def)
qed

lemma demo_run: "(sale_step [])\<^sup>*\<^sup>* demo_open demo_after"
proof -
  let ?s = "snd (checkout demo_service demo_entropy 5 2 3 [] None demo_open)"
  have "sale_step [] demo_open ?s"
    unfolding demo_service_def by (rule sale_step.checkout) (rule prod.collapse [symmetric])
  moreover have "sale_step [] ?s demo_after"
    unfolding demo_after_def by (rule sale_step.cancelled) (rule prod.collapse [symmetric])
  ultimately show ?thesis by (meson rtranclp.rtrancl_refl rtranclp.rtrancl_into_rtrancl)
qed





text \<open>C4: The life of an order: no operation ever removes one, and its status only moves from
  PENDING_PAYMENT to PAID, EXPIRED or CANCELLED, and from PAID to REFUNDED. So a paid order can never
  expire or be cancelled, and EXPIRED, CANCELLED and REFUNDED are final.\<close>

theorem order_life:
  assumes "(sale_step reg)\<^sup>*\<^sup>* s s'" and "stock_inv s" and "x \<in> set (orders s)"
  shows "\<exists>x' \<in> set (orders s'). o_id x' = o_id x \<and> moves_to\<^sup>*\<^sup>* (o_status x) (o_status x') \<and>
    (o_status x = OrdPaid \<longrightarrow> o_status x' = OrdPaid \<or> o_status x' = OrdRefunded) \<and>
    (o_status x \<in> {OrdExpired, OrdCancelled, OrdRefunded} \<longrightarrow> o_status x' = o_status x)"
proof -
  from sale_steps_sound [OF assms(1,2)] assms(3) obtain x' where "x' \<in> set (orders s')" "o_id x' = o_id x"
    and m: "moves_to\<^sup>*\<^sup>* (o_status x) (o_status x')"
    unfolding sound_def orders_evolve_def by blast
  with paid_stays [OF m] final_status [OF m] show ?thesis by blast
qed

theorem order_life_witness:
  "\<exists>x' \<in> set (orders demo_after). o_id x' = 40 \<and> moves_to\<^sup>*\<^sup>* OrdPendingPayment (o_status x')"
proof -
  have "demo_pending \<in> set (orders demo_open)" by (simp add: demo_open_def demo_sale_def)
  from order_life [OF demo_run demo_open_ok(1) this] show ?thesis
    by (auto simp: demo_pending_def demo_order_def)
qed

section \<open>What the shipped adapters can do\<close>

definition production_registry ::
  "(string \<Rightarrow> (string \<Rightarrow> string) option) \<Rightarrow> (string \<Rightarrow> string) \<Rightarrow> (string \<Rightarrow> xendit_payload option) \<Rightarrow>
    string option \<Rightarrow> string option \<Rightarrow> registry" where
  "production_registry parse_query md5_hex parse_json duitku_key xendit_token =
     build_registry (map_option (duitku parse_query md5_hex) duitku_key)
       (map_option (xendit parse_json) xendit_token)"

lemma production_gateway:
  assumes "get_gateway (production_registry pq md5 pj dk xt) name = Some g"
  obtains e f where "\<And>c. gw_charge g c = Inl e" and "\<And>r. gw_query g r = Inl f"
  using assms
  by (auto simp: get_gateway_def production_registry_def build_registry_def register_gateway_def
      duitku_def xendit_def split: option.splits if_splits)

lemma fees_mark [frame]: "fees (mark wid st pid d s) = fees s"
  by (simp add: mark_def mark_webhook_processed_def split: option.split)

lemma fees_issue: "fees (snd (issue_with tid day rnd x s)) = fees s"
  unfolding issue_with_def
  by (rule and_then_inv [where I = "\<lambda>t. fees t = fees s"]
      | simp add: create_ticket_def found_def split: prod.split sum.split option.split)+

lemma fees_settle_order: "fees (snd (settle_order (webhook_processor tid day rnd vj) x s)) = fees s"
proof -
  have "fees (complete_reservations_for_order oid t) = fees t" "fees (convert_ballot_winner_for_order u c oid t) = fees t"
    for u c oid t
    by (simp_all add: complete_reservations_for_order_def update_reservation_status_by_order_def
        convert_ballot_winner_for_order_def)
  then show ?thesis
    by (auto simp: settle_order_def Let_def webhook_processor_def extra_def fees_issue update_order_status_def
        split: option.split intro!: and_then_inv [where I = "\<lambda>t. fees t = fees s"])
qed

lemma fees_apply_tx: "fees (snd (apply_tx (webhook_processor tid day rnd vj) now wid r s)) = fees s"
proof -
  have "fees (snd (apply_paid (webhook_processor tid day rnd vj) now wid p r s)) = fees s" for p
    using fees_settle_order [of tid day rnd vj]
    by (auto simp: apply_paid_def mark_payment_paid_def frame split: option.split prod.split
        intro!: and_then_inv [where I = "\<lambda>t. fees t = fees s"])
  then show ?thesis
    by (auto simp: apply_tx_def update_payment_status_def frame split: option.split gateway_status.split
        intro!: and_then_inv [where I = "\<lambda>t. fees t = fees s"])
qed

lemma fees_apply_callback: "fees (snd (apply_callback (webhook_processor tid day rnd vj) now wid name r s)) = fees s"
proof -
  have "fees (snd (exec_tx (apply_tx (webhook_processor tid day rnd vj) now wid r) t)) = fees t" for t
    using fees_apply_tx [of tid day rnd vj now wid r t]
    by (cases "apply_tx (webhook_processor tid day rnd vj) now wid r t"; cases "fst (apply_tx (webhook_processor tid day rnd vj) now wid r t)")
      (auto simp: exec_tx_def)
  then show ?thesis
    by (auto simp: apply_callback_def claim_webhook_dedupe_def frame split: option.split)
qed

lemma fees_handle_webhook:
  "fees (snd (handle_webhook (webhook_processor tid day rnd vj) reg now wid name hs body s)) = fees s"
proof (cases "get_gateway reg name")
  case (Some g)
  have "fees (snd (on_error e (create_payment_webhook v w s))) = fees s" for e v w
    by (simp add: create_payment_webhook_def)
  then have "fees (snd (process_raw (webhook_processor tid day rnd vj) now wid g hs body s)) = fees s"
    unfolding process_raw_def Let_def
    by (intro and_then_inv [where I = "\<lambda>t. fees t = fees s"])
      (simp_all add: mark_webhook_processed_def fees_apply_callback split: sum.split)
  with Some show ?thesis
    by (cases "process_raw (webhook_processor tid day rnd vj) now wid g hs body s") (simp add: handle_webhook_def)
qed (simp add: handle_webhook_def)

lemma create_payment_declined:
  assumes "\<And>g. get_gateway reg (rq_gateway rq) = Some g \<Longrightarrow> \<forall>c. \<exists>e. gw_charge g c = Inl e"
  shows "\<exists>e. create_payment reg expiry pe p oid rq s = (Inl e, s)"
proof -
  obtain err where "\<And>g c. get_gateway reg (rq_gateway rq) = Some g \<Longrightarrow> gw_charge g c = Inl (err g c)"
    using assms by metis
  then show ?thesis
    unfolding create_payment_def Let_def require_def found_def
    by (auto simp: and_then_def split: option.split)
qed

text \<open>In the shipped wiring no money moves. Both adapters answer every charge and every status query
  with an error, so no payment is ever created and no reconciliation succeeds, and neither changes a row;
  and the webhook receiver's processor has no fee recorder, so its callbacks never write the fee ledger.
  An organization without ledger entries has no balance: each of its payout requests is refused.\<close>

theorem shipped_wiring_moves_no_money:
  fixes pq digest pj dk xt
  defines "reg \<equiv> production_registry pq digest pj dk xt"
  shows "(\<exists>e. create_payment reg expiry pe p oid rq s = (Inl e, s)) \<and>
    (\<exists>e. reconcile pr reg now pid s = (Inl e, s)) \<and>
    fees (snd (handle_webhook (webhook_processor tid day rnd vj) reg now wid name hs body s)) = fees s \<and>
    (org_fees org s = [] \<and> (\<forall>x \<in> set (orders s). 0 \<le> o_refunded_amount x) \<and>
      (\<forall>q \<in> set (payouts s). 0 < po_amount q) \<and> earned org s - committed org s \<ge> - (2 ^ 63) \<longrightarrow>
      (\<exists>e. create_payout_request parse qid org actor pin s = (Inl e, s)))"
proof (intro conjI impI)
  show "\<exists>e. create_payment reg expiry pe p oid rq s = (Inl e, s)"
    by (rule create_payment_declined) (metis reg_def production_gateway)
  show "\<exists>e. reconcile pr reg now pid s = (Inl e, s)"
  proof (cases "get_payment_by_id pid s")
    case (Some q)
    show ?thesis
    proof (cases "get_gateway reg (p_gateway q)")
      case None
      with Some show ?thesis by (simp add: reconcile_def)
    next
      case (Some g)
      then obtain f where "\<And>r. gw_query g r = Inl f" using production_gateway reg_def by metis
      with Some \<open>get_payment_by_id pid s = Some q\<close> show ?thesis by (simp add: reconcile_def)
    qed
  qed (simp add: reconcile_def)
  show "fees (snd (handle_webhook (webhook_processor tid day rnd vj) reg now wid name hs body s)) = fees s"
    by (rule fees_handle_webhook)
  assume a: "org_fees org s = [] \<and> (\<forall>x \<in> set (orders s). 0 \<le> o_refunded_amount x) \<and>
      (\<forall>q \<in> set (payouts s). 0 < po_amount q) \<and> earned org s - committed org s \<ge> - (2 ^ 63)"
  have e: "earned org s \<le> 0"
    using a by (auto simp: earned_def intro!: sum_list_nonneg)
  have c: "0 \<le> committed org s"
    unfolding committed_def using a by (intro sum_list_nonneg) (auto intro: less_imp_le)
  show "\<exists>e. create_payout_request parse qid org actor pin s = (Inl e, s)"
  proof (cases "create_payout_request parse qid org actor pin s")
    case (Pair r s')
    show ?thesis
    proof (cases r)
      case (Inr q)
      with Pair have "create_payout_request_at parse qid org actor pin s s = (Inr q, s')"
        by (simp add: create_payout_request_def)
      from payout_covered [OF this] a e c show ?thesis by simp
    next
      case (Inl x)
      with Pair have "s' = s"
        by (auto simp: create_payout_request_def create_payout_request_at_def and_then_Inl
            create_payout_request_row_def split: if_splits)
      with Pair Inl show ?thesis by simp
    qed
  qed
qed

theorem shipped_wiring_moves_no_money_witness:
  "(\<exists>e. create_payment (production_registry (\<lambda>_. None) id (\<lambda>_. None) (Some ''key'') None) 900
      \<lparr> pe_now = 50, pe_day = ''20250101'', pe_random = Some [1, 2, 3, 4, 5, 6], pe_payment = 500 \<rparr> 5 40
      \<lparr> rq_gateway = ''duitku'', rq_method = ''qris'', rq_channel = [] \<rparr> demo_sale = (Inl e, demo_sale)) \<and>
    (\<exists>e. create_payout_request (\<lambda>_. None) 400 1 5 demo_payout demo_sale = (Inl e, demo_sale))"
proof -
  have "org_fees 1 demo_sale = []" "\<forall>x \<in> set (orders demo_sale). 0 \<le> o_refunded_amount x"
    "\<forall>q \<in> set (payouts demo_sale). 0 < po_amount q" by code_simp+
  moreover have "earned 1 demo_sale - committed 1 demo_sale \<ge> - (2 ^ 63)"
  proof -
    have "earned 1 demo_sale = 0" "committed 1 demo_sale = 0" by code_simp+
    then show ?thesis by simp
  qed
  ultimately show ?thesis
    using shipped_wiring_moves_no_money [where pq = "\<lambda>_. None" and digest = id and pj = "\<lambda>_. None"
        and dk = "Some ''key''" and xt = None and s = demo_sale and org = 1 and parse = "\<lambda>_. None"
        and expiry = 900 and p = 5 and oid = 40 and qid = 400 and actor = 5 and pin = demo_payout
        and pe = "\<lparr> pe_now = 50, pe_day = ''20250101'', pe_random = Some [1, 2, 3, 4, 5, 6], pe_payment = 500 \<rparr>"
        and rq = "\<lparr> rq_gateway = ''duitku'', rq_method = ''qris'', rq_channel = [] \<rparr>"]
    by blast
qed

end
