(* ===== verification/Waitlist.thy ===== *)
theory Waitlist
  imports Access
begin

text \<open>
  Waitlists (\<open>services/api/internal/modules/waitlist\<close> and the two waitlist handlers of
  \<open>modules/access/handler.go\<close>): joining, the position shown to a participant, withdrawal, and the
  promotion of a batch, which takes a slot of the pool and issues a grant for each promoted entry.
  What promotion needs of the pool manager is the locale \<open>slot_issuer\<close>.
\<close>

section \<open>Queries\<close>

definition get_waitlist :: "uuid \<Rightarrow> db \<Rightarrow> waitlist option" where
  "get_waitlist wid s = sel (\<lambda>w. wl_id w = wid) (waitlists s)"

definition get_waitlist_by_category :: "uuid \<Rightarrow> uuid \<Rightarrow> db \<Rightarrow> waitlist option" where
  "get_waitlist_by_category ev cat s =
     sel (\<lambda>w. wl_event w = ev \<and> wl_category w = cat \<and> wl_state w = WlActive) (waitlists s)"

text \<open>The foreign key on the organizations table is not checked: that table is not modelled.\<close>

definition create_waitlist_row ::
  "uuid \<Rightarrow> uuid \<Rightarrow> uuid \<Rightarrow> uuid \<Rightarrow> waitlist_mode \<Rightarrow> nat \<Rightarrow> int \<Rightarrow> bool \<Rightarrow> db \<Rightarrow> waitlist res \<times> db" where
  "create_waitlist_row wid org ev cat mode batch hours auto s =
     (if wid \<in> wl_id ` set (waitlists s) then (Inl (UniqueViolation ''waitlists_pkey''), s)
      else if ev \<notin> e_id ` set (events s) then
        (Inl (ForeignKeyViolation ''waitlists_event_id_fkey''), s)
      else if cat \<notin> c_id ` set (categories s) then
        (Inl (ForeignKeyViolation ''waitlists_category_id_fkey''), s)
      else
        let w = \<lparr> wl_id = wid, wl_org = org, wl_event = ev, wl_category = cat, wl_pool = None,
                  wl_mode = mode, wl_state = WlActive, wl_max_batch = batch, wl_window_hours = hours,
                  wl_auto_promote = auto, wl_seed = None \<rparr>
        in (Inr w, s\<lparr>waitlists := waitlists s @ [w]\<rparr>))"

definition set_waitlist_pool :: "uuid \<Rightarrow> uuid option \<Rightarrow> db \<Rightarrow> db" where
  "set_waitlist_pool wid pool s =
     s\<lparr>waitlists := upd (\<lambda>w. wl_id w = wid) (\<lambda>w. w\<lparr>wl_pool := pool\<rparr>) (waitlists s)\<rparr>"

definition set_waitlist_seed :: "uuid \<Rightarrow> string option \<Rightarrow> db \<Rightarrow> db" where
  "set_waitlist_seed wid seed s =
     s\<lparr>waitlists := upd (\<lambda>w. wl_id w = wid \<and> wl_seed w = None) (\<lambda>w. w\<lparr>wl_seed := seed\<rparr>) (waitlists s)\<rparr>"

definition update_waitlist_status :: "uuid \<Rightarrow> waitlist_state \<Rightarrow> db \<Rightarrow> db" where
  "update_waitlist_status wid st s =
     s\<lparr>waitlists := upd (\<lambda>w. wl_id w = wid) (\<lambda>w. w\<lparr>wl_state := st\<rparr>) (waitlists s)\<rparr>"

text \<open>\<open>status NOT IN ('WITHDRAWN','EXPIRED')\<close>, the condition of the partial unique index too.\<close>

definition on_list :: "uuid \<Rightarrow> uuid \<Rightarrow> waitlist_entry \<Rightarrow> bool" where
  "on_list wid p e \<longleftrightarrow> we_waitlist e = wid \<and> we_participant e = p \<and>
     we_status e \<noteq> WlWithdrawn \<and> we_status e \<noteq> WlExpired"

definition get_waitlist_entry :: "uuid \<Rightarrow> uuid \<Rightarrow> db \<Rightarrow> waitlist_entry option" where
  "get_waitlist_entry wid p s = sel (on_list wid p) (wl_entries s)"

definition join_waitlist ::
  "uuid \<Rightarrow> uuid \<Rightarrow> uuid \<Rightarrow> uuid \<Rightarrow> uuid \<Rightarrow> waitlist_source \<Rightarrow> uuid option \<Rightarrow> int \<Rightarrow> db \<Rightarrow>
    waitlist_entry res \<times> db" where
  "join_waitlist eid wid p ev cat source ref rank s =
     (if eid \<in> we_id ` set (wl_entries s) then (Inl (UniqueViolation ''waitlist_entries_pkey''), s)
      else if \<exists>e \<in> set (wl_entries s). on_list wid p e then
        (Inl (UniqueViolation ''waitlist_entries_active_idx''), s)
      else if wid \<notin> wl_id ` set (waitlists s) then
        (Inl (ForeignKeyViolation ''waitlist_entries_waitlist_id_fkey''), s)
      else if p \<notin> u_id ` set (users s) then
        (Inl (ForeignKeyViolation ''waitlist_entries_participant_id_fkey''), s)
      else if ev \<notin> e_id ` set (events s) then
        (Inl (ForeignKeyViolation ''waitlist_entries_event_id_fkey''), s)
      else if cat \<notin> c_id ` set (categories s) then
        (Inl (ForeignKeyViolation ''waitlist_entries_category_id_fkey''), s)
      else
        let e = \<lparr> we_id = eid, we_waitlist = wid, we_participant = p, we_event = ev,
                  we_category = cat, we_source = source, we_source_ref = ref, we_rank = rank,
                  we_status = WlWaiting, we_promoted_at = None, we_grant = None \<rparr>
        in (Inr e, s\<lparr>wl_entries := wl_entries s @ [e]\<rparr>))"

text \<open>\<open>ORDER BY rank ASC LIMIT\<close>; entries of equal rank may come in any order, here in the
  order of insertion.\<close>

definition waiting :: "uuid \<Rightarrow> db \<Rightarrow> waitlist_entry list" where
  "waiting wid s = filter (\<lambda>e. we_waitlist e = wid \<and> we_status e = WlWaiting) (wl_entries s)"

definition list_waiting_entries :: "uuid \<Rightarrow> nat \<Rightarrow> db \<Rightarrow> waitlist_entry list" where
  "list_waiting_entries wid lim s = take lim (sort_key we_rank (waiting wid s))"

definition count_waitlist_position :: "uuid \<Rightarrow> int \<Rightarrow> db \<Rightarrow> nat" where
  "count_waitlist_position wid rank s =
     cnt (\<lambda>e. we_waitlist e = wid \<and> we_status e = WlWaiting \<and> we_rank e < rank) (wl_entries s)"

definition update_waitlist_entry_status ::
  "time \<Rightarrow> uuid \<Rightarrow> waitlist_status \<Rightarrow> uuid option \<Rightarrow> db \<Rightarrow> waitlist_entry res \<times> db" where
  "update_waitlist_entry_status now eid st grant s =
     (case upd_one (\<lambda>e. we_id e = eid)
             (\<lambda>e. e\<lparr>we_status := st,
                    we_promoted_at := (if st = WlPromoted then Some now else we_promoted_at e),
                    we_grant := (case grant of None \<Rightarrow> we_grant e | Some g \<Rightarrow> Some g)\<rparr>)
             (wl_entries s) of
        None \<Rightarrow> (Inl NoRows, s)
      | Some (e, es) \<Rightarrow> (Inr e, s\<lparr>wl_entries := es\<rparr>))"

section \<open>Service\<close>

text \<open>\<open>time.Now().UnixMicro()\<close>.\<close>

definition fifo_rank :: "time \<Rightarrow> int" where
  "fifo_rank joined = int64 (joined div 1000)"

text \<open>The first eight bytes of the digest, read big-endian. The digest and the text of an id stay
  parameters.\<close>

definition be_number :: "nat list \<Rightarrow> nat" where
  "be_number bs = fold (\<lambda>b n. 256 * n + b) bs 0"

definition randomized_rank ::
  "(string \<Rightarrow> nat list) \<Rightarrow> (uuid \<Rightarrow> string) \<Rightarrow> string \<Rightarrow> uuid \<Rightarrow> int" where
  "randomized_rank digest uuid_text seed p =
     int64 (int (be_number (take 8 (digest (seed @ ''|'' @ uuid_text p)))))"

definition create_waitlist :: "uuid \<Rightarrow> uuid \<Rightarrow> uuid \<Rightarrow> uuid \<Rightarrow> db \<Rightarrow> uuid res \<times> db" where
  "create_waitlist wid org ev cat s =
     and_then (create_waitlist_row wid org ev cat WlFifo 10 48 True s) (\<lambda>w s. (Inr (wl_id w), s))"

text \<open>Both fill only five fields of \<open>JoinWaitlistParams\<close>: \<open>EventID\<close> and \<open>CategoryID\<close> keep
  their zero value.\<close>

definition join_with_rank ::
  "uuid \<Rightarrow> uuid \<Rightarrow> uuid \<Rightarrow> waitlist_source \<Rightarrow> uuid option \<Rightarrow> int \<Rightarrow> db \<Rightarrow> unit res \<times> db" where
  "join_with_rank eid wid p source ref rank s =
     and_then (join_waitlist eid wid p nil_uuid nil_uuid source ref rank s) (\<lambda>_ s. (Inr (), s))"

definition join_now ::
  "time \<Rightarrow> uuid \<Rightarrow> uuid \<Rightarrow> uuid \<Rightarrow> waitlist_source \<Rightarrow> uuid option \<Rightarrow> db \<Rightarrow> waitlist_entry res \<times> db" where
  "join_now now eid wid p source ref s =
     join_waitlist eid wid p nil_uuid nil_uuid source ref (fifo_rank now) s"

text \<open>
  One round of \<open>PromoteBatch\<close>. \<open>reserve\<close> and \<open>issue\<close> are the \<open>PoolReserver\<close> the service was
  built with, \<open>new_id\<close> draws the grant's id. The flag is \<open>False\<close> for \<open>break\<close>. The clock is read
  once for the batch.
\<close>

definition hours_to_duration :: "int \<Rightarrow> int" where
  "hours_to_duration h = int64 (h * 3600000000000)"

definition promote_entry ::
  "reserver \<Rightarrow> issuer \<Rightarrow> (uuid \<Rightarrow> uuid) \<Rightarrow> time \<Rightarrow> waitlist \<Rightarrow> waitlist_entry \<Rightarrow> db \<Rightarrow> bool \<times> db" where
  "promote_entry reserve issue new_id now w e s =
     (case wl_pool w of
        None \<Rightarrow> (True, snd (update_waitlist_entry_status now (we_id e) WlPromoted None s))
      | Some pool \<Rightarrow>
          (case reserve pool s of
             (Inl _, s) \<Rightarrow> (False, s)
           | (Inr _, s) \<Rightarrow>
               (case issue (new_id (we_id e)) pool (we_participant e) (we_event e) (we_category e)
                       (now + hours_to_duration (wl_window_hours w)) s of
                  (Inl _, s) \<Rightarrow> (True, s)
                | (Inr g, s) \<Rightarrow>
                    (True, snd (update_waitlist_entry_status now (we_id e) WlPromoted (Some g) s)))))"

fun promote_entries ::
  "reserver \<Rightarrow> issuer \<Rightarrow> (uuid \<Rightarrow> uuid) \<Rightarrow> time \<Rightarrow> waitlist \<Rightarrow> waitlist_entry list \<Rightarrow> db \<Rightarrow> db" where
  "promote_entries reserve issue new_id now w [] s = s"
| "promote_entries reserve issue new_id now w (e # es) s =
     (case promote_entry reserve issue new_id now w e s of
        (True, s) \<Rightarrow> promote_entries reserve issue new_id now w es s
      | (False, s) \<Rightarrow> s)"

definition promote_batch ::
  "reserver \<Rightarrow> issuer \<Rightarrow> (uuid \<Rightarrow> uuid) \<Rightarrow> time \<Rightarrow> uuid \<Rightarrow> db \<Rightarrow> unit res \<times> db" where
  "promote_batch reserve issue new_id now wid s =
     and_then (found NoRows (get_waitlist wid s) s) (\<lambda>w s.
     (Inr (), promote_entries reserve issue new_id now w
        (list_waiting_entries wid (wl_max_batch w) s) s))"

definition expire_entry :: "time \<Rightarrow> uuid \<Rightarrow> db \<Rightarrow> unit res \<times> db" where
  "expire_entry now eid s =
     and_then (update_waitlist_entry_status now eid WlExpired None s) (\<lambda>_ s. (Inr (), s))"

definition withdraw_waitlist :: "time \<Rightarrow> uuid \<Rightarrow> uuid \<Rightarrow> db \<Rightarrow> unit res \<times> db" where
  "withdraw_waitlist now wid p s =
     and_then (on_no_rows ErrNotOnWaitlist (found NoRows (get_waitlist_entry wid p s) s)) (\<lambda>e s.
     and_then (update_waitlist_entry_status now (we_id e) WlWithdrawn None s) (\<lambda>_ s. (Inr (), s)))"

section \<open>Handlers\<close>

text \<open>After the request is decoded. \<open>ErrNoWaitlist\<close> answers any error of the first query.\<close>

abbreviation ErrNoWaitlist :: app_error where
  "ErrNoWaitlist \<equiv> AppErr 404 ''WAITLIST_NOT_FOUND''"

definition waitlist_join ::
  "time \<Rightarrow> uuid \<Rightarrow> uuid \<Rightarrow> uuid \<Rightarrow> uuid \<Rightarrow> db \<Rightarrow> (uuid \<times> int) res \<times> db" where
  "waitlist_join now eid usr ev cat s =
     and_then (found ErrNoWaitlist (get_waitlist_by_category ev cat s) s) (\<lambda>w s.
     and_then (join_now now eid (wl_id w) usr SrcQuotaRelease None s) (\<lambda>e s.
     (Inr (we_id e, we_rank e), s)))"

definition waitlist_position ::
  "uuid \<Rightarrow> uuid \<Rightarrow> uuid \<Rightarrow> db \<Rightarrow> (nat \<times> int \<times> waitlist_status) res" where
  "waitlist_position usr ev cat s =
     (case get_waitlist_by_category ev cat s of
        None \<Rightarrow> Inl ErrNoWaitlist
      | Some w \<Rightarrow>
          (case get_waitlist_entry (wl_id w) usr s of
             None \<Rightarrow> Inl ErrNotOnWaitlist
           | Some e \<Rightarrow>
               Inr (count_waitlist_position (wl_id w) (we_rank e) s + 1, we_rank e, we_status e)))"

section \<open>Promotion\<close>

definition promotion_grant :: "(uuid \<Rightarrow> uuid) \<Rightarrow> time \<Rightarrow> waitlist \<Rightarrow> uuid \<Rightarrow> waitlist_entry \<Rightarrow> access_grant" where
  "promotion_grant new_id now w pool e =
     grant_row (new_id (we_id e)) pool (we_participant e) (we_event e) (we_category e)
       (now + hours_to_duration (wl_window_hours w))"

definition promoted_row :: "(uuid \<Rightarrow> uuid) \<Rightarrow> time \<Rightarrow> waitlist_entry \<Rightarrow> waitlist_entry" where
  "promoted_row new_id now e =
     e\<lparr>we_status := WlPromoted, we_promoted_at := Some now, we_grant := Some (new_id (we_id e))\<rparr>"

lemma we_id_promoted_row [simp]: "we_id (promoted_row new_id now e) = we_id e"
  by (simp add: promoted_row_def)

lemma ids_promoted_row:
  "we_id ` set (upd P (promoted_row new_id now) es) = we_id ` set es"
  by (metis list.set_map map_upd we_id_promoted_row)

lemma update_promoted:
  "eid \<in> we_id ` set (wl_entries s) \<Longrightarrow>
    snd (update_waitlist_entry_status now eid WlPromoted (Some (new_id eid)) s) =
      s\<lparr>wl_entries := upd (\<lambda>r. we_id r = eid) (promoted_row new_id now) (wl_entries s)\<rparr>"
  by (auto simp: update_waitlist_entry_status_def upd_one_None upd_one_Some upd_def promoted_row_def
      split: option.split)

lemma upd_promoted_row:
  "upd (\<lambda>r. we_id r \<in> A) (promoted_row new_id now) (upd (\<lambda>r. we_id r = i) (promoted_row new_id now) es) =
    upd (\<lambda>r. we_id r = i \<or> we_id r \<in> A) (promoted_row new_id now) es"
  by (auto simp: upd_def promoted_row_def)

text \<open>The client of \<open>slot_issuer\<close>.\<close>

context slot_issuer
begin

lemma pools_ok_promote_entry:
  "pools_ok s \<Longrightarrow> pools_ok (snd (promote_entry reserve issue new_id now w e s))"
proof -
  assume ok: "pools_ok s"
  have u: "pools_ok (snd (update_waitlist_entry_status now eid st g s)) = pools_ok s" for eid st g s
    by (simp add: update_waitlist_entry_status_def pools_ok_def split: option.split)
  show ?thesis
  proof (cases "wl_pool w")
    case None
    with ok show ?thesis by (simp add: promote_entry_def u)
  next
    case (Some pool)
    obtain r s1 where r: "reserve pool s = (r, s1)" by fastforce
    with reserve_pools [OF ok, of pool] have ok1: "pools_ok s1" by simp
    obtain g s2 where g: "issue (new_id (we_id e)) pool (we_participant e) (we_event e) (we_category e)
        (now + hours_to_duration (wl_window_hours w)) s1 = (g, s2)" by fastforce
    with issue_pools [OF ok1] have "pools_ok s2" by (metis snd_conv)
    with Some r g ok1 show ?thesis by (cases r; cases g) (simp_all add: promote_entry_def u)
  qed
qed

lemma pools_ok_promote_entries:
  "pools_ok s \<Longrightarrow> pools_ok (promote_entries reserve issue new_id now w es s)"
proof (induction es arbitrary: s)
  case (Cons e es)
  obtain b s1 where p: "promote_entry reserve issue new_id now w e s = (b, s1)" by fastforce
  with pools_ok_promote_entry [OF Cons.prems] have "pools_ok s1" by (metis snd_conv)
  with p Cons.IH show ?case by (cases b) simp_all
qed simp

lemma pools_ok_promote_batch:
  "pools_ok s \<Longrightarrow> pools_ok (snd (promote_batch reserve issue new_id now wid s))"
  by (simp add: promote_batch_def found_def pools_ok_promote_entries split: option.split)

text \<open>With a pool, in the order of the list and as far as the free slots reach, every entry is
  promoted with a grant of its own.\<close>

lemma promote_entry_exact:
  assumes "wl_pool w = Some pool" "pools_ok s" "0 < free pool s" "we_id e \<in> we_id ` set (wl_entries s)"
    and "grantable (new_id (we_id e)) (we_participant e) (we_event e) (we_category e) s"
  obtains ps where "promote_entry reserve issue new_id now w e s = (True, s\<lparr>pools := ps,
      grants := grants s @ [promotion_grant new_id now w pool e],
      wl_entries := upd (\<lambda>r. we_id r = we_id e) (promoted_row new_id now) (wl_entries s)\<rparr>)"
    and "pools_ok (s\<lparr>pools := ps\<rparr>)" and "free pool (s\<lparr>pools := ps\<rparr>) = free pool s - 1"
proof -
  from reserve_issue [OF assms(2,3,5), of "now + hours_to_duration (wl_window_hours w)"] that
  show ?thesis using assms(1,4)
    by (auto simp: promote_entry_def update_promoted promotion_grant_def)
qed

lemma promote_entries_exact:
  assumes pool: "wl_pool w = Some pool"
  shows "pools_ok s \<Longrightarrow> distinct (map (\<lambda>e. new_id (we_id e)) es) \<Longrightarrow>
    \<forall>e \<in> set es. we_id e \<in> we_id ` set (wl_entries s) \<and>
      grantable (new_id (we_id e)) (we_participant e) (we_event e) (we_category e) s \<Longrightarrow>
    k = min (length es) (nat (free pool s)) \<Longrightarrow>
    \<exists>ps. promote_entries reserve issue new_id now w es s = s\<lparr>pools := ps,
        grants := grants s @ map (promotion_grant new_id now w pool) (take k es),
        wl_entries := upd (\<lambda>r. we_id r \<in> we_id ` set (take k es)) (promoted_row new_id now) (wl_entries s)\<rparr> \<and>
      pools_ok (s\<lparr>pools := ps\<rparr>) \<and> free pool (s\<lparr>pools := ps\<rparr>) = free pool s - int k"
proof (induction es arbitrary: s k)
  case Nil
  then show ?case by (intro exI [of _ "pools s"]) (simp add: upd_no_match)
next
  case (Cons e es)
  show ?case
  proof (cases "0 < free pool s")
    case False
    with Cons.prems reserve_full [of s pool] obtain x where "reserve pool s = (Inl x, s)" by auto
    with pool False Cons.prems show ?thesis
      by (intro exI [of _ "pools s"]) (simp add: promote_entry_def upd_no_match)
  next
    case True
    let ?t = "\<lambda>ps. s\<lparr>pools := ps, grants := grants s @ [promotion_grant new_id now w pool e],
      wl_entries := upd (\<lambda>r. we_id r = we_id e) (promoted_row new_id now) (wl_entries s)\<rparr>"
    from Cons.prems(3) have "we_id e \<in> we_id ` set (wl_entries s)"
      "grantable (new_id (we_id e)) (we_participant e) (we_event e) (we_category e) s" by simp_all
    from promote_entry_exact [where new_id = new_id and now = now, OF pool Cons.prems(1) True this]
    obtain ps where step: "promote_entry reserve issue new_id now w e s = (True, ?t ps)"
      and ps: "pools_ok (s\<lparr>pools := ps\<rparr>)" "free pool (s\<lparr>pools := ps\<rparr>) = free pool s - 1" by blast
    have free: "free pool (?t qs) = free pool (s\<lparr>pools := qs\<rparr>)" for qs by (simp add: free_pools)
    have k: "k - 1 = min (length es) (nat (free pool (?t ps)))" "k = Suc (k - 1)"
      using Cons.prems(4) True ps(2) free [of ps] by simp_all
    have ok: "pools_ok (?t ps)" using ps(1) by (simp add: pools_ok_def)
    have "\<forall>x \<in> set es. we_id x \<in> we_id ` set (wl_entries (?t ps)) \<and>
        grantable (new_id (we_id x)) (we_participant x) (we_event x) (we_category x) (?t ps)"
    proof
      fix x assume x: "x \<in> set es"
      with Cons.prems(2) have "new_id (we_id x) \<noteq> new_id (we_id e)"
        by (metis (mono_tags, lifting) distinct.simps(2) image_eqI list.set_map list.simps(9))
      with x Cons.prems(3) show "we_id x \<in> we_id ` set (wl_entries (?t ps)) \<and>
          grantable (new_id (we_id x)) (we_participant x) (we_event x) (we_category x) (?t ps)"
        by (simp add: grantable_def promotion_grant_def ids_promoted_row)
    qed
    from Cons.IH [OF ok _ this k(1)] Cons.prems(2) obtain qs
      where q: "promote_entries reserve issue new_id now w es (?t ps) = (?t ps)\<lparr>pools := qs,
        grants := grants (?t ps) @ map (promotion_grant new_id now w pool) (take (k - 1) es),
        wl_entries := upd (\<lambda>r. we_id r \<in> we_id ` set (take (k - 1) es)) (promoted_row new_id now) (wl_entries (?t ps))\<rparr>"
      "pools_ok ((?t ps)\<lparr>pools := qs\<rparr>)" "free pool ((?t ps)\<lparr>pools := qs\<rparr>) = free pool (?t ps) - int (k - 1)"
      by auto
    have "free pool (s\<lparr>pools := qs\<rparr>) = free pool s - int k"
      using q(3) ps(2) k(2) free [of ps] free_pools [of "s\<lparr>pools := qs\<rparr>" "(?t ps)\<lparr>pools := qs\<rparr>" pool]
      by simp
    moreover have "pools_ok (s\<lparr>pools := qs\<rparr>)" using q(2) by (simp add: pools_ok_def)
    moreover have "take k (e # es) = e # take (k - 1) es" using k(2) by (metis take_Suc_Cons)
    ultimately show ?thesis
      using q(1) by (intro exI [of _ qs]) (simp add: step upd_promoted_row)
  qed
qed

end

section \<open>Properties\<close>

lemma join_waitlist_nil:
  assumes "nil_uuid \<notin> e_id ` set (events s)"
  shows "\<exists>x. join_waitlist eid wid p nil_uuid cat source ref rank s = (Inl x, s)"
proof -
  have "fst (join_waitlist eid wid p nil_uuid cat source ref rank s) \<noteq> Inr e" for e
    using assms by (simp add: join_waitlist_def)
  moreover have "snd (join_waitlist eid wid p nil_uuid cat source ref rank s) = s"
    using assms by (simp add: join_waitlist_def)
  ultimately show ?thesis by (metis prod.collapse sum.exhaust)
qed

lemma join_with_rank_fails:
  assumes "nil_uuid \<notin> e_id ` set (events s)"
  shows "\<exists>x. join_with_rank eid wid p source ref rank s = (Inl x, s)"
  using join_waitlist_nil [OF assms, of eid wid p nil_uuid source ref rank]
  by (auto simp: join_with_rank_def)

text \<open>No participant ever gets onto a waitlist. \<open>Join\<close> and \<open>JoinWithRank\<close> leave the event and
  category ids of the row at \<open>uuid.Nil\<close>, which no event has, so the foreign key refuses the row:
  the request of a participant and the transfer of ballot entries both end in an error and leave the
  database as it was, whatever waitlist, participant and rank they name.\<close>

theorem waitlist_join_always_fails:
  assumes "nil_uuid \<notin> e_id ` set (events s)"
  shows "(\<exists>x. waitlist_join now eid usr ev cat s = (Inl x, s)) \<and>
    (\<exists>x. join_with_rank eid wid p source ref rank s = (Inl x, s))"
proof
  show "\<exists>x. waitlist_join now eid usr ev cat s = (Inl x, s)"
  proof (cases "get_waitlist_by_category ev cat s")
    case (Some w)
    then show ?thesis
      using join_waitlist_nil [OF assms, of eid "wl_id w" usr nil_uuid SrcQuotaRelease None "fifo_rank now"]
      by (auto simp: waitlist_join_def join_now_def)
  qed (simp add: waitlist_join_def)
  show "\<exists>x. join_with_rank eid wid p source ref rank s = (Inl x, s)"
    by (rule join_with_rank_fails [OF assms])
qed

definition demo_waitlist :: db where
  "demo_waitlist = empty_db\<lparr>
     users := map (\<lambda>i. \<lparr> u_id = i, u_full_name = [], u_email = [], u_membership = None \<rparr>) [5, 6, 7, 8],
     events := [\<lparr> e_id = 2, e_org = 1, e_name = ''Run'', e_status = ''PUBLISHED'' \<rparr>],
     categories := [\<lparr> c_id = 3, c_org = 1, c_event = 2, c_name = ''10K'', c_price = 100, c_capacity = 10,
       c_opens_at = None, c_closes_at = None, c_max_order_per_user = 1 \<rparr>],
     pools := [\<lparr> pl_id = 9, pl_org = 1, pl_event = 2, pl_category = 3, pl_type = PoolReserved,
       pl_name = [], pl_total = 3, pl_reserved = 0, pl_used = 1, pl_released = 0, pl_visible = False,
       pl_rule = None, pl_valid_until = None \<rparr>],
     waitlists := [\<lparr> wl_id = 4, wl_org = 1, wl_event = 2, wl_category = 3, wl_pool = Some 9,
       wl_mode = WlFifo, wl_state = WlActive, wl_max_batch = 10, wl_window_hours = 48,
       wl_auto_promote = True, wl_seed = None \<rparr>],
     wl_entries := map (\<lambda>(i, r). \<lparr> we_id = i + 10, we_waitlist = 4, we_participant = i, we_event = 2,
       we_category = 3, we_source = SrcManual, we_source_ref = None, we_rank = r, we_status = WlWaiting,
       we_promoted_at = None, we_grant = None \<rparr>) [(5, 40), (6, 20), (7, 30)]\<rparr>"

theorem waitlist_join_always_fails_witness:
  "(\<exists>x. waitlist_join 1000 90 8 2 3 demo_waitlist = (Inl x, demo_waitlist)) \<and>
    (\<exists>x. join_with_rank 90 4 8 SrcBallot None 1 demo_waitlist = (Inl x, demo_waitlist))"
proof (rule waitlist_join_always_fails)
  show "nil_uuid \<notin> e_id ` set (events demo_waitlist)" by (simp add: demo_waitlist_def)
qed

text \<open>C38: \<open>PromoteBatch\<close> on a waitlist with a pool promotes the waiting entries in the order of their
  ranks, as many as the batch size and the free slots of the pool allow, and no others: each promoted
  row is marked with the time and its grant, one ACTIVE grant per promoted entry is issued to the
  entry's participant for the waitlist's window, the pool loses exactly that many free slots, its
  accounting holds, and nothing else changes.\<close>

theorem promote_batch_exact:
  assumes w: "get_waitlist wid s = Some w" "wl_pool w = Some pool" and ok: "pools_ok s"
    and ids: "distinct (map (\<lambda>e. new_id (we_id e)) (wl_entries s))"
    and free_ids: "\<forall>e \<in> set (waiting wid s).
      grantable (new_id (we_id e)) (we_participant e) (we_event e) (we_category e) s"
    and n: "n = min (wl_max_batch w) (nat (free_slots pool s))"
    and batch: "batch = take n (sort_key we_rank (waiting wid s))"
  shows "\<exists>ps. promote_batch reserve_slot create_grant new_id now wid s =
      (Inr (), s\<lparr>pools := ps, grants := grants s @ map (promotion_grant new_id now w pool) batch,
         wl_entries := upd (\<lambda>e. we_id e \<in> we_id ` set batch) (promoted_row new_id now) (wl_entries s)\<rparr>) \<and>
    pools_ok (s\<lparr>pools := ps\<rparr>) \<and> free_slots pool (s\<lparr>pools := ps\<rparr>) = free_slots pool s - int (length batch)"
proof -
  let ?es = "list_waiting_entries wid (wl_max_batch w) s"
  let ?k = "min (length ?es) (nat (free_slots pool s))"
  have sub: "set ?es \<subseteq> set (waiting wid s)"
    unfolding list_waiting_entries_def by (metis set_sort set_take_subset)
  have "distinct (map (\<lambda>e. new_id (we_id e)) (waiting wid s))"
    using ids unfolding waiting_def by (rule distinct_map_filter)
  then have "distinct (map (\<lambda>e. new_id (we_id e)) (sort_key we_rank (waiting wid s)))"
    by (simp add: distinct_map)
  then have d: "distinct (map (\<lambda>e. new_id (we_id e)) ?es)"
    unfolding list_waiting_entries_def take_map [symmetric] by (rule distinct_take)
  have rows: "\<forall>e \<in> set ?es. we_id e \<in> we_id ` set (wl_entries s) \<and>
      grantable (new_id (we_id e)) (we_participant e) (we_event e) (we_category e) s"
    using sub free_ids by (auto simp: waiting_def)
  have "length batch = ?k" "take (length batch) ?es = batch"
    by (auto simp: batch n list_waiting_entries_def min_def)
  with pool_manager.promote_entries_exact [OF w(2) ok d rows, of "length batch" now] show ?thesis
    by (simp add: promote_batch_def w(1))
qed

theorem promote_batch_exact_witness:
  "map we_status (wl_entries (snd (promote_batch reserve_slot create_grant (\<lambda>i. i + 100) 1000 4 demo_waitlist))) =
     [WlWaiting, WlPromoted, WlPromoted] \<and>
   map g_participant (grants (snd (promote_batch reserve_slot create_grant (\<lambda>i. i + 100) 1000 4 demo_waitlist))) = [6, 7]"
proof -
  have w: "get_waitlist 4 demo_waitlist = Some (hd (waitlists demo_waitlist))"
    "wl_pool (hd (waitlists demo_waitlist)) = Some 9" by code_simp+
  have "pools_ok demo_waitlist"
    by (simp add: pools_ok_def pool_ok_def demo_waitlist_def)
  moreover have "distinct (map (\<lambda>e. we_id e + 100) (wl_entries demo_waitlist))" by code_simp
  moreover have "\<forall>e \<in> set (waiting 4 demo_waitlist).
      grantable (we_id e + 100) (we_participant e) (we_event e) (we_category e) demo_waitlist"
    unfolding grantable_def by code_simp
  moreover have "2 = min (wl_max_batch (hd (waitlists demo_waitlist))) (nat (free_slots 9 demo_waitlist))"
    by code_simp
  ultimately obtain ps where "promote_batch reserve_slot create_grant (\<lambda>i. i + 100) 1000 4 demo_waitlist =
    (Inr (), demo_waitlist\<lparr>pools := ps,
      grants := grants demo_waitlist @ map (promotion_grant (\<lambda>i. i + 100) 1000 (hd (waitlists demo_waitlist)) 9)
        (take 2 (sort_key we_rank (waiting 4 demo_waitlist))),
      wl_entries := upd (\<lambda>e. we_id e \<in> we_id ` set (take 2 (sort_key we_rank (waiting 4 demo_waitlist))))
        (promoted_row (\<lambda>i. i + 100) 1000) (wl_entries demo_waitlist)\<rparr>)"
    using promote_batch_exact [OF w, where new_id = "\<lambda>i. i + 100" and n = 2 and now = 1000, OF _ _ _ _ refl]
    by blast
  moreover have "map we_status (upd (\<lambda>e. we_id e \<in> we_id ` set (take 2 (sort_key we_rank (waiting 4 demo_waitlist))))
      (promoted_row (\<lambda>i. i + 100) 1000) (wl_entries demo_waitlist)) = [WlWaiting, WlPromoted, WlPromoted]"
    by code_simp
  moreover have "map g_participant (grants demo_waitlist @ map (promotion_grant (\<lambda>i. i + 100) 1000
      (hd (waitlists demo_waitlist)) 9) (take 2 (sort_key we_rank (waiting 4 demo_waitlist)))) = [6, 7]"
    by code_simp
  ultimately show ?thesis by simp
qed

text \<open>No caller sets the pool of a waitlist: the promotion then marks the batch PROMOTED without a
  slot or a grant.\<close>

lemma promote_entries_no_pool:
  assumes "wl_pool w = None"
  shows "grants (promote_entries reserve issue new_id now w es s) = grants s \<and>
    pools (promote_entries reserve issue new_id now w es s) = pools s"
proof (induction es arbitrary: s)
  case (Cons e es)
  have "grants (snd (update_waitlist_entry_status now i st g s)) = grants s"
    "pools (snd (update_waitlist_entry_status now i st g s)) = pools s" for i st g
    by (simp_all add: update_waitlist_entry_status_def split: option.split)
  with Cons assms show ?case by (simp add: promote_entry_def)
qed simp

theorem promotion_without_pool_grants_nothing:
  assumes "get_waitlist wid s = Some w" "wl_pool w = None"
  shows "grants (snd (promote_batch reserve issue new_id now wid s)) = grants s"
  using assms by (simp add: promote_batch_def promote_entries_no_pool)

text \<open>The position shown to a participant is the place of the entry in the order of promotion.\<close>

lemma filter_below_nth:
  assumes "sorted (map f xs)" "distinct (map f xs)" "k < length xs"
  shows "length (filter (\<lambda>x. f x < f (xs ! k)) xs) = k"
proof -
  have "sorted_wrt (<) (map f xs)" using assms by (simp add: strict_sorted_iff)
  then have lt: "f (xs ! i) < f (xs ! j)" if "i < j" "j < length xs" for i j
    using that sorted_wrt_nth_less by fastforce
  have "filter (\<lambda>x. f x < f (xs ! k)) (take k xs) = take k xs"
    using lt assms(3) by (auto simp: filter_id_conv in_set_conv_nth)
  moreover have "\<not> f x < f (xs ! k)" if x: "x \<in> set (drop k xs)" for x
  proof -
    from x assms(3) obtain i where "i < length xs - k" "x = xs ! (k + i)" by (auto simp: in_set_conv_nth)
    with sorted_nth_mono [OF assms(1), of k "k + i"] show ?thesis
      by (simp add: less_diff_conv add.commute)
  qed
  then have "filter (\<lambda>x. f x < f (xs ! k)) (drop k xs) = []" by (simp add: filter_empty_conv)
  ultimately have "filter (\<lambda>x. f x < f (xs ! k)) xs = take k xs"
    by (metis append_Nil2 append_take_drop_id filter_append)
  with assms(3) show ?thesis by simp
qed

theorem waitlist_position_is_turn:
  assumes w: "get_waitlist_by_category ev cat s = Some w"
    and e: "get_waitlist_entry (wl_id w) usr s = Some e" "we_status e = WlWaiting"
    and ranks: "distinct (map we_rank (waiting (wl_id w) s))"
  shows "\<exists>k. waitlist_position usr ev cat s = Inr (k + 1, we_rank e, WlWaiting) \<and>
    k < length (waiting (wl_id w) s) \<and> sort_key we_rank (waiting (wl_id w) s) ! k = e"
proof -
  let ?ys = "sort_key we_rank (waiting (wl_id w) s)"
  have "e \<in> set ?ys" using e sel_SomeD [OF e(1) [unfolded get_waitlist_entry_def]]
    by (auto simp: waiting_def on_list_def)
  then obtain k where k: "k < length ?ys" "?ys ! k = e" unfolding in_set_conv_nth by blast
  have "count_waitlist_position (wl_id w) (we_rank e) s =
      length (filter (\<lambda>x. we_rank x < we_rank e) (waiting (wl_id w) s))"
    by (simp add: count_waitlist_position_def cnt_def waiting_def conj_ac)
  also have "\<dots> = length (filter (\<lambda>x. we_rank x < we_rank (?ys ! k)) ?ys)"
    unfolding k(2) by (metis mset_filter mset_sort size_mset)
  also have "\<dots> = k"
    using ranks k(1) by (intro filter_below_nth) (auto simp: distinct_map)
  finally show ?thesis using w e k by (auto simp: waitlist_position_def)
qed

end
