(* ===== verification/Format.thy ===== *)
theory Format
  imports Prelude
begin

text \<open>
  Go's text formats that several modules write: signed decimals (\<open>%d\<close>, \<open>strconv.Itoa\<close>) and the
  records of \<open>encoding/csv\<close>.
\<close>

section \<open>Signed decimals\<close>

definition dec_int :: "int \<Rightarrow> string" where
  "dec_int i = (if i < 0 then ''-'' @ dec (nat (- i)) else dec (nat i))"

lemma dec_digits: "c \<in> set (dec n) \<Longrightarrow> digit_val c \<noteq> None"
proof (induction n arbitrary: c rule: dec.induct)
  case (1 n)
  show ?case
  proof (cases "n < 10")
    case True
    with 1 show ?thesis by (simp add: dec.simps [of n])
  next
    case False
    with 1 show ?thesis by (auto simp: dec.simps [of n])
  qed
qed

lemma dec_not: "digit_val c = None \<Longrightarrow> c \<notin> set (dec n)"
  using dec_digits by fastforce

lemma dec_int_inj: "dec_int i = dec_int j \<Longrightarrow> i = j"
proof -
  have minus: "hd (dec n) \<noteq> CHR ''-''" for n
  proof -
    have "CHR ''-'' \<notin> set (dec n)" by (rule dec_not) (simp add: digit_val_def)
    then show ?thesis using hd_in_set [of "dec n"] by force
  qed
  assume eq: "dec_int i = dec_int j"
  consider "i < 0" "j < 0" | "\<not> i < 0" "\<not> j < 0" | "i < 0" "\<not> j < 0" | "\<not> i < 0" "j < 0" by blast
  then show "i = j"
  proof cases
    case 3
    with eq minus [of "nat j"] show ?thesis by (simp add: dec_int_def) (metis list.sel(1))
  next
    case 4
    with eq minus [of "nat i"] show ?thesis by (auto simp: dec_int_def)
  qed (use eq in \<open>auto simp: dec_int_def dest: dec_inj\<close>)
qed

section \<open>CSV records\<close>

text \<open>
  \<open>csv.Writer\<close> with its defaults: a field is quoted when it is \<open>\.\<close>, holds a comma, a quote or a
  line break, or begins with a space; quotes are doubled. A record ends with a line feed.
\<close>

definition needs_quotes :: "string \<Rightarrow> bool" where
  "needs_quotes f \<longleftrightarrow> f \<noteq> [] \<and> (f = [CHR 0x5C, CHR ''.''] \<or> is_space (hd f) \<or>
     (\<exists>c \<in> set f. c = CHR '','' \<or> c = CHR 0x22 \<or> c = CHR 0x0A \<or> c = CHR 0x0D))"

definition csv_field :: "string \<Rightarrow> string" where
  "csv_field f =
     (if needs_quotes f
      then [CHR 0x22] @ concat (map (\<lambda>c. if c = CHR 0x22 then [c, c] else [c]) f) @ [CHR 0x22]
      else f)"

fun csv_fields :: "string list \<Rightarrow> string" where
  "csv_fields [] = []"
| "csv_fields [f] = csv_field f"
| "csv_fields (f # fs) = csv_field f @ [CHR '',''] @ csv_fields fs"

definition csv_record :: "string list \<Rightarrow> string" where
  "csv_record fs = csv_fields fs @ [CHR 0x0A]"

lemma csv_field_plain:
  "\<forall>c \<in> set f. is_alnum c \<or> c = CHR ''-'' \<or> c = CHR ''_'' \<Longrightarrow> csv_field f = f"
proof -
  assume a: "\<forall>c \<in> set f. is_alnum c \<or> c = CHR ''-'' \<or> c = CHR ''_''"
  have "\<not> needs_quotes f"
  proof (cases f)
    case (Cons c cs)
    with a have "is_alnum c \<or> c = CHR ''-'' \<or> c = CHR ''_''" by simp
    then have "\<not> is_space (hd f)" using Cons is_alnum_not_space by (auto simp: is_space_def)
    moreover have "f \<noteq> [CHR 0x5C, CHR ''.'']" using a by (auto simp: is_alnum_def)
    ultimately show ?thesis using a by (auto simp: needs_quotes_def is_alnum_def)
  qed (simp add: needs_quotes_def)
  then show ?thesis by (simp add: csv_field_def)
qed

end
