(* ===== verification/Ballot.thy ===== *)
theory Ballot
  imports Waitlist Format
begin

text \<open>
  Ballots (\<open>services/api/internal/modules/ballot\<close>): applications to a draw, the seeded shuffle and
  the assignment of outcomes, running and announcing a draw, the audit of a published result, and
  the job that lapses winners who did not pay. SHA-256 in hexadecimal (\<open>digest\<close>), the text of an
  id (\<open>uuid_text\<close>) and the numbers that \<open>rand.New(source).Intn\<close> yields for a seed (\<open>intn seed n i\<close>:
  what the call \<open>Intn(i + 1)\<close> of a shuffle of \<open>n\<close> entries answers) are parameters.
\<close>

section \<open>Draw queries\<close>

definition create_ballot_draw ::
  "uuid \<Rightarrow> uuid \<Rightarrow> uuid \<Rightarrow> uuid \<Rightarrow> int \<Rightarrow> int option \<Rightarrow> int \<Rightarrow> time option \<Rightarrow> time option \<Rightarrow> uuid \<Rightarrow> db \<Rightarrow>
    ballot_draw res \<times> db" where
  "create_ballot_draw did org ev cat quota wsize hours opens closes creator s =
     (if did \<in> d_id ` set (draws s) then (Inl (UniqueViolation ''ballot_draws_pkey''), s)
      else if quota \<le> 0 then (Inl (CheckViolation ''ballot_draws_quota_check''), s)
      else if (case (opens, closes) of (Some a, Some b) \<Rightarrow> b \<le> a | _ \<Rightarrow> False) then
        (Inl (CheckViolation ''ballot_draws_dates_check''), s)
      else if ev \<notin> e_id ` set (events s) then
        (Inl (ForeignKeyViolation ''ballot_draws_event_id_fkey''), s)
      else if cat \<notin> c_id ` set (categories s) then
        (Inl (ForeignKeyViolation ''ballot_draws_category_id_fkey''), s)
      else if creator \<notin> u_id ` set (users s) then
        (Inl (ForeignKeyViolation ''ballot_draws_created_by_fkey''), s)
      else
        let d = \<lparr> d_id = did, d_org = org, d_event = ev, d_category = cat, d_status = DrawPending,
                  d_quota = quota, d_waitlist_size = wsize, d_window_hours = hours, d_opens_at = opens,
                  d_closes_at = closes, d_draw_at = None, d_announced_at = None, d_seed = None,
                  d_nonce = None, d_pool = None, d_waitlist = None \<rparr>
        in (Inr d, s\<lparr>draws := draws s @ [d]\<rparr>))"

definition get_ballot_draw :: "uuid \<Rightarrow> db \<Rightarrow> ballot_draw option" where
  "get_ballot_draw did s = sel (\<lambda>d. d_id d = did) (draws s)"

definition get_active_ballot_draw_by_category :: "uuid \<Rightarrow> uuid \<Rightarrow> db \<Rightarrow> ballot_draw option" where
  "get_active_ballot_draw_by_category ev cat s =
     sel (\<lambda>d. d_event d = ev \<and> d_category d = cat \<and> d_status d \<noteq> DrawAnnounced) (rev (draws s))"

definition list_ballot_draws_by_event :: "uuid \<Rightarrow> db \<Rightarrow> ballot_draw list" where
  "list_ballot_draws_by_event ev s = filter (\<lambda>d. d_event d = ev) (rev (draws s))"

definition set_ballot_draw_pools :: "uuid \<Rightarrow> uuid option \<Rightarrow> uuid option \<Rightarrow> db \<Rightarrow> unit res \<times> db" where
  "set_ballot_draw_pools did pool wl s =
     (if \<exists>d \<in> set (draws s). d_id d = did \<and>
           (case pool of None \<Rightarrow> False | Some p \<Rightarrow> p \<notin> pl_id ` set (pools s)) then
        (Inl (ForeignKeyViolation ''ballot_draws_winner_pool_id_fkey''), s)
      else if \<exists>d \<in> set (draws s). d_id d = did \<and>
           (case wl of None \<Rightarrow> False | Some w \<Rightarrow> w \<notin> wl_id ` set (waitlists s)) then
        (Inl (ForeignKeyViolation ''ballot_draws_waitlist_id_fkey''), s)
      else (Inr (), s\<lparr>draws := upd (\<lambda>d. d_id d = did) (\<lambda>d. d\<lparr>d_pool := pool, d_waitlist := wl\<rparr>) (draws s)\<rparr>))"

definition set_ballot_draw_seed :: "uuid \<Rightarrow> string option \<Rightarrow> uuid option \<Rightarrow> db \<Rightarrow> ballot_draw res \<times> db" where
  "set_ballot_draw_seed did seed nonce s =
     (case upd_one (\<lambda>d. d_id d = did \<and> d_seed d = None) (\<lambda>d. d\<lparr>d_seed := seed, d_nonce := nonce\<rparr>) (draws s) of
        None \<Rightarrow> (Inl NoRows, s)
      | Some (d, ds) \<Rightarrow> (Inr d, s\<lparr>draws := ds\<rparr>))"

definition update_ballot_draw_status :: "time \<Rightarrow> uuid \<Rightarrow> draw_status \<Rightarrow> db \<Rightarrow> ballot_draw res \<times> db" where
  "update_ballot_draw_status now did st s =
     (case upd_one (\<lambda>d. d_id d = did)
             (\<lambda>d. d\<lparr>d_status := st,
                    d_draw_at := (if st = DrawDrawn then Some now else d_draw_at d),
                    d_announced_at := (if st = DrawAnnounced then Some now else d_announced_at d)\<rparr>)
             (draws s) of
        None \<Rightarrow> (Inl NoRows, s)
      | Some (d, ds) \<Rightarrow> (Inr d, s\<lparr>draws := ds\<rparr>))"

section \<open>Entry and result queries\<close>

definition create_ballot_entry ::
  "uuid \<Rightarrow> uuid \<Rightarrow> uuid \<Rightarrow> uuid \<Rightarrow> uuid \<Rightarrow> uuid \<Rightarrow> db \<Rightarrow> ballot_entry res \<times> db" where
  "create_ballot_entry bid did org ev cat p s =
     (if bid \<in> b_id ` set (entries s) then (Inl (UniqueViolation ''ballot_entries_pkey''), s)
      else if \<exists>b \<in> set (entries s). b_draw b = did \<and> b_participant b = p then
        (Inl (UniqueViolation ''ballot_entries_draw_id_participant_id_key''), s)
      else if did \<notin> d_id ` set (draws s) then
        (Inl (ForeignKeyViolation ''ballot_entries_draw_id_fkey''), s)
      else if ev \<notin> e_id ` set (events s) then
        (Inl (ForeignKeyViolation ''ballot_entries_event_id_fkey''), s)
      else if cat \<notin> c_id ` set (categories s) then
        (Inl (ForeignKeyViolation ''ballot_entries_category_id_fkey''), s)
      else if p \<notin> u_id ` set (users s) then
        (Inl (ForeignKeyViolation ''ballot_entries_participant_id_fkey''), s)
      else
        let b = \<lparr> b_id = bid, b_draw = did, b_org = org, b_event = ev, b_category = cat,
                  b_participant = p, b_status = BalApplied, b_deadline = None, b_grant = None \<rparr>
        in (Inr b, s\<lparr>entries := entries s @ [b]\<rparr>))"

definition get_ballot_entry :: "uuid \<Rightarrow> uuid \<Rightarrow> db \<Rightarrow> ballot_entry option" where
  "get_ballot_entry did p s = sel (\<lambda>b. b_draw b = did \<and> b_participant b = p) (entries s)"

definition get_ballot_entry_by_id :: "uuid \<Rightarrow> db \<Rightarrow> ballot_entry option" where
  "get_ballot_entry_by_id bid s = sel (\<lambda>b. b_id b = bid) (entries s)"

text \<open>\<open>ORDER BY applied_at DESC\<close>: the latest row first.\<close>

definition get_ballot_entry_by_participant :: "uuid \<Rightarrow> nat \<Rightarrow> nat \<Rightarrow> db \<Rightarrow> ballot_entry list" where
  "get_ballot_entry_by_participant p lim off s =
     take lim (drop off (filter (\<lambda>b. b_participant b = p) (rev (entries s))))"

definition applied :: "uuid \<Rightarrow> ballot_entry \<Rightarrow> bool" where
  "applied did b \<longleftrightarrow> b_draw b = did \<and> b_status b = BalApplied"

definition list_applied_entries_for_draw :: "uuid \<Rightarrow> db \<Rightarrow> ballot_entry list" where
  "list_applied_entries_for_draw did s = sort_key b_id (filter (applied did) (entries s))"

definition list_winner_entries :: "uuid \<Rightarrow> db \<Rightarrow> ballot_entry list" where
  "list_winner_entries did s = filter (\<lambda>b. b_draw b = did \<and> b_status b = BalWinner) (entries s)"

definition bulk_update_ballot_outcome :: "uuid list \<Rightarrow> entry_status \<Rightarrow> db \<Rightarrow> db" where
  "bulk_update_ballot_outcome ids st s =
     s\<lparr>entries := upd (\<lambda>b. b_id b \<in> set ids) (\<lambda>b. b\<lparr>b_status := st\<rparr>) (entries s)\<rparr>"

definition update_ballot_entry_status ::
  "uuid \<Rightarrow> entry_status \<Rightarrow> time option \<Rightarrow> uuid option \<Rightarrow> db \<Rightarrow> ballot_entry res \<times> db" where
  "update_ballot_entry_status bid st deadline grant s =
     (if \<exists>b \<in> set (entries s). b_id b = bid \<and>
           (case grant of None \<Rightarrow> False | Some g \<Rightarrow> g \<notin> g_id ` set (grants s)) then
        (Inl (ForeignKeyViolation ''ballot_entries_access_grant_id_fkey''), s)
      else
        (case upd_one (\<lambda>b. b_id b = bid)
                (\<lambda>b. b\<lparr>b_status := st,
                       b_deadline := (case deadline of None \<Rightarrow> b_deadline b | Some t \<Rightarrow> Some t),
                       b_grant := (case grant of None \<Rightarrow> b_grant b | Some g \<Rightarrow> Some g)\<rparr>)
                (entries s) of
           None \<Rightarrow> (Inl NoRows, s)
         | Some (b, bs) \<Rightarrow> (Inr b, s\<lparr>entries := bs\<rparr>)))"

definition count_ballot_draw_results :: "uuid \<Rightarrow> outcome \<Rightarrow> db \<Rightarrow> nat" where
  "count_ballot_draw_results did out s =
     cnt (\<lambda>r. dr_draw r = did \<and> dr_outcome r = out) (draw_results s)"

definition insert_ballot_draw_result ::
  "uuid \<Rightarrow> uuid \<Rightarrow> outcome \<Rightarrow> int \<Rightarrow> string \<Rightarrow> db \<Rightarrow> unit res \<times> db" where
  "insert_ballot_draw_result did bid out rank hash s =
     (if \<exists>r \<in> set (draw_results s). dr_draw r = did \<and> dr_entry r = bid then (Inr (), s)
      else if did \<notin> d_id ` set (draws s) then
        (Inl (ForeignKeyViolation ''ballot_draw_results_draw_id_fkey''), s)
      else if bid \<notin> b_id ` set (entries s) then
        (Inl (ForeignKeyViolation ''ballot_draw_results_ballot_entry_id_fkey''), s)
      else (Inr (), s\<lparr>draw_results := draw_results s @
        [\<lparr> dr_draw = did, dr_entry = bid, dr_outcome = out, dr_rank = rank, dr_hash = hash \<rparr>]\<rparr>))"

text \<open>\<open>JOIN ballot_entries\<close>: each result with the row of its entry.\<close>

definition list_all_draw_results :: "uuid \<Rightarrow> db \<Rightarrow> (draw_result \<times> ballot_entry) list" where
  "list_all_draw_results did s =
     sort_key (\<lambda>(r, b). dr_rank r)
       (filter (\<lambda>(r, b). dr_draw r = did \<and> b_id b = dr_entry r)
         (List.product (draw_results s) (entries s)))"

definition list_ballot_draw_results :: "uuid \<Rightarrow> nat \<Rightarrow> nat \<Rightarrow> db \<Rightarrow> (draw_result \<times> ballot_entry) list" where
  "list_ballot_draw_results did lim off s = take lim (drop off (list_all_draw_results did s))"

text \<open>An order of the winner that is paid, or may still be.\<close>

definition holding_order :: "time \<Rightarrow> db \<Rightarrow> ballot_entry \<Rightarrow> bool" where
  "holding_order now s b \<longleftrightarrow> (\<exists>x \<in> set (orders s).
     (o_participant x = Some (b_participant b) \<and> o_category x = b_category b \<or>
      b_grant b \<noteq> None \<and> (\<exists>g \<in> set (grants s). b_grant b = Some (g_id g) \<and> g_order g = Some (o_id x))) \<and>
     (o_status x = OrdPaid \<or>
      o_status x = OrdPendingPayment \<and> (case o_expired_at x of None \<Rightarrow> False | Some t \<Rightarrow> now < t)))"

definition expire_ballot_winner :: "time \<Rightarrow> uuid \<Rightarrow> db \<Rightarrow> ballot_entry res \<times> db" where
  "expire_ballot_winner now bid s =
     (case upd_one (\<lambda>b. b_id b = bid \<and> b_status b = BalWinner \<and> \<not> holding_order now s b)
             (\<lambda>b. b\<lparr>b_status := BalLapsed\<rparr>) (entries s) of
        None \<Rightarrow> (Inl NoRows, s)
      | Some (b, bs) \<Rightarrow> (Inr b, s\<lparr>entries := bs\<rparr>))"

definition list_expiring_winners :: "time \<Rightarrow> nat \<Rightarrow> db \<Rightarrow> ballot_entry list" where
  "list_expiring_winners now lim s =
     take lim (filter (\<lambda>b. b_status b = BalWinner \<and>
       (case b_deadline b of None \<Rightarrow> False | Some t \<Rightarrow> t < now) \<and> \<not> holding_order now s b) (entries s))"

section \<open>Shuffle and assignment\<close>

definition swap :: "nat \<Rightarrow> nat \<Rightarrow> 'a list \<Rightarrow> 'a list" where
  "swap i j xs = xs[i := xs ! j, j := xs ! i]"

fun shuffle_loop :: "(nat \<Rightarrow> nat) \<Rightarrow> nat \<Rightarrow> 'a list \<Rightarrow> 'a list" where
  "shuffle_loop draw 0 xs = xs"
| "shuffle_loop draw (Suc i) xs = shuffle_loop draw i (swap (Suc i) (draw (Suc i)) xs)"

definition shuffle :: "(string \<Rightarrow> nat \<Rightarrow> nat \<Rightarrow> nat) \<Rightarrow> string \<Rightarrow> 'a list \<Rightarrow> 'a list" where
  "shuffle intn seed xs = shuffle_loop (intn seed (length xs)) (length xs - 1) xs"

record assigned =
  as_entry :: string
  as_outcome :: outcome
  as_rank :: nat
  as_hash :: string

definition result_hash :: "(string \<Rightarrow> string) \<Rightarrow> string \<Rightarrow> int \<Rightarrow> string \<Rightarrow> string" where
  "result_hash digest seed rank entry = digest (seed @ ''|'' @ dec_int rank @ ''|'' @ entry)"

definition outcome_at :: "int \<Rightarrow> int \<Rightarrow> nat \<Rightarrow> outcome" where
  "outcome_at quota wsize i =
     (if int i < quota then OutWinner
      else if int i < quota + wsize then OutWaitlisted else OutNotSelected)"

definition assign :: "(string \<Rightarrow> string) \<Rightarrow> string \<Rightarrow> string list \<Rightarrow> int \<Rightarrow> int \<Rightarrow> assigned list" where
  "assign digest seed shuffled quota wsize =
     map (\<lambda>(i, e). \<lparr> as_entry = e, as_outcome = outcome_at quota wsize i, as_rank = i,
                     as_hash = result_hash digest seed (int i) e \<rparr>) (enumerate 0 shuffled)"

section \<open>Managing a draw\<close>

record draw_request =
  rq_quota :: int
  rq_waitlist_size :: int
  rq_window_hours :: int
  rq_opens_at :: time
  rq_closes_at :: time

definition create_draw ::
  "uuid \<Rightarrow> uuid \<Rightarrow> uuid \<Rightarrow> uuid \<Rightarrow> uuid \<Rightarrow> draw_request \<Rightarrow> db \<Rightarrow> ballot_draw res \<times> db" where
  "create_draw did org ev cat creator rq =
     create_ballot_draw did org ev cat (rq_quota rq) (Some (rq_waitlist_size rq)) (rq_window_hours rq)
       (Some (rq_opens_at rq)) (Some (rq_closes_at rq)) creator"

text \<open>The handlers pass the organization of the route, \<open>uuid.Nil\<close> where it has none.\<close>

definition assert_draw_org :: "ballot_draw \<Rightarrow> uuid \<Rightarrow> bool" where
  "assert_draw_org d org \<longleftrightarrow> org = nil_uuid \<or> d_org d = org"

definition get_draw :: "uuid \<Rightarrow> uuid \<Rightarrow> db \<Rightarrow> ballot_draw res \<times> db" where
  "get_draw did org s =
     and_then (found ErrDrawNotFound (get_ballot_draw did s) s) (\<lambda>d s.
     and_then (require (assert_draw_org d org) ErrDrawNotFound s) (\<lambda>_ s. (Inr d, s)))"

definition open_draw :: "time \<Rightarrow> uuid \<Rightarrow> uuid \<Rightarrow> db \<Rightarrow> unit res \<times> db" where
  "open_draw now did org s =
     and_then (get_draw did org s) (\<lambda>d s.
     and_then (require (d_status d = DrawPending) ErrBallotClosed s) (\<lambda>_ s.
     and_then (update_ballot_draw_status now did DrawOpen s) (\<lambda>_ s. (Inr (), s))))"

definition close_draw :: "time \<Rightarrow> uuid \<Rightarrow> uuid \<Rightarrow> db \<Rightarrow> unit res \<times> db" where
  "close_draw now did org s =
     and_then (get_draw did org s) (\<lambda>d s.
     and_then (require (d_status d = DrawOpen) ErrBallotClosed s) (\<lambda>_ s.
     and_then (update_ballot_draw_status now did DrawClosed s) (\<lambda>_ s. (Inr (), s))))"

section \<open>Running a draw\<close>

fun status_of_outcome :: "outcome \<Rightarrow> entry_status" where
  "status_of_outcome OutWinner = BalWinner"
| "status_of_outcome OutWaitlisted = BalWaitlisted"
| "status_of_outcome OutNotSelected = BalNotSelected"

text \<open>Result \<open>i\<close> is written for \<open>dbEntries[i]\<close>.\<close>

fun insert_results :: "uuid \<Rightarrow> (assigned \<times> ballot_entry) list \<Rightarrow> db \<Rightarrow> unit res \<times> db" where
  "insert_results did [] s = (Inr (), s)"
| "insert_results did ((r, b) # rbs) s =
     and_then (insert_ballot_draw_result did (b_id b) (as_outcome r) (signed_take_bit 31 (int (as_rank r)))
       (as_hash r) s) (\<lambda>_ s. insert_results did rbs s)"

definition ids_with :: "outcome \<Rightarrow> (assigned \<times> ballot_entry) list \<Rightarrow> uuid list" where
  "ids_with out rbs = map (\<lambda>(r, b). b_id b) (filter (\<lambda>(r, b). as_outcome r = out) rbs)"

definition bulk_outcome :: "outcome \<Rightarrow> (assigned \<times> ballot_entry) list \<Rightarrow> db \<Rightarrow> db" where
  "bulk_outcome out rbs s =
     (if 0 < length (ids_with out rbs)
      then bulk_update_ballot_outcome (ids_with out rbs) (status_of_outcome out) s else s)"

definition pool_name :: "(uuid \<Rightarrow> string) \<Rightarrow> uuid \<Rightarrow> string" where
  "pool_name uuid_text did =
     ''Ballot winners '' @ [CHR 0xE2, CHR 0x80, CHR 0x94] @ '' draw '' @ uuid_text did"

text \<open>What a run draws from outside: the clock, the nonce and the ids of the rows it creates.\<close>

record draw_env =
  de_now :: time
  de_nonce :: uuid
  de_pool :: uuid
  de_waitlist :: uuid

definition draw_seed :: "(string \<Rightarrow> string) \<Rightarrow> (uuid \<Rightarrow> string) \<Rightarrow> ballot_draw \<Rightarrow> uuid \<Rightarrow> string" where
  "draw_seed digest uuid_text d nonce =
     digest (uuid_text (d_event d) @ ''|'' @ uuid_text (d_category d) @ ''|'' @ uuid_text nonce)"

definition waitlist_size :: "ballot_draw \<Rightarrow> int" where
  "waitlist_size d = (case d_waitlist_size d of None \<Rightarrow> 0 | Some n \<Rightarrow> n)"

text \<open>Steps 2 to 4: the applied entries with the results written for them.\<close>

definition draw_pairs ::
  "(string \<Rightarrow> string) \<Rightarrow> (string \<Rightarrow> nat \<Rightarrow> nat \<Rightarrow> nat) \<Rightarrow> (uuid \<Rightarrow> string) \<Rightarrow> string \<Rightarrow> ballot_draw \<Rightarrow>
    ballot_entry list \<Rightarrow> (assigned \<times> ballot_entry) list" where
  "draw_pairs digest intn uuid_text seed d es =
     zip (assign digest seed (shuffle intn seed (map (\<lambda>e. uuid_text (b_id e)) es)) (d_quota d) (waitlist_size d)) es"

definition write_outcomes :: "uuid \<Rightarrow> (assigned \<times> ballot_entry) list \<Rightarrow> db \<Rightarrow> unit res \<times> db" where
  "write_outcomes did rbs s =
     and_then (insert_results did rbs s) (\<lambda>_ s.
     (Inr (), bulk_outcome OutNotSelected rbs (bulk_outcome OutWaitlisted rbs (bulk_outcome OutWinner rbs s))))"

text \<open>Steps 5 to 7.\<close>

definition open_pools :: "(uuid \<Rightarrow> string) \<Rightarrow> draw_env \<Rightarrow> ballot_draw \<Rightarrow> db \<Rightarrow> unit res \<times> db" where
  "open_pools uuid_text de d s =
     and_then (create_pool (de_pool de) (d_org d) (d_event d) (d_category d) PoolReserved
       (pool_name uuid_text (d_id d)) (d_quota d) s) (\<lambda>pool s.
     and_then (if 0 < waitlist_size d
               then and_then (create_waitlist (de_waitlist de) (d_org d) (d_event d) (d_category d) s)
                 (\<lambda>w s. (Inr (Some w), s))
               else (Inr None, s)) (\<lambda>wl s.
     and_then (update_ballot_draw_status (de_now de) (d_id d) DrawDrawn
       (snd (set_ballot_draw_pools (d_id d) (Some pool) wl s))) (\<lambda>_ s. (Inr (), s))))"

definition run_draw ::
  "(string \<Rightarrow> string) \<Rightarrow> (string \<Rightarrow> nat \<Rightarrow> nat \<Rightarrow> nat) \<Rightarrow> (uuid \<Rightarrow> string) \<Rightarrow> draw_env \<Rightarrow> uuid \<Rightarrow> uuid \<Rightarrow> db \<Rightarrow>
    unit res \<times> db" where
  "run_draw digest intn uuid_text de did org s =
     and_then (get_draw did org s) (\<lambda>d s.
     and_then (require (d_status d = DrawClosed) ErrBallotClosed s) (\<lambda>_ s.
     if 0 < count_ballot_draw_results did OutWinner s then (Inr (), s)
     else
       (let seed = draw_seed digest uuid_text d (de_nonce de)
        in case set_ballot_draw_seed did (Some seed) (Some (de_nonce de)) s of
             (Inl e, s) \<Rightarrow> (if e = NoRows then Inr () else Inl e, s)
           | (Inr _, s) \<Rightarrow>
               and_then (write_outcomes did
                 (draw_pairs digest intn uuid_text seed d (list_applied_entries_for_draw did s)) s)
                 (\<lambda>_ s. open_pools uuid_text de d s))))"

section \<open>Announcing a draw\<close>

text \<open>One winner: every failure goes on with the next.\<close>

definition announce_winner ::
  "reserver \<Rightarrow> issuer \<Rightarrow> (uuid \<Rightarrow> uuid) \<Rightarrow> time \<Rightarrow> ballot_draw \<Rightarrow> ballot_entry \<Rightarrow> db \<Rightarrow> db" where
  "announce_winner reserve issue new_id deadline d w s =
     (case d_pool d of
        None \<Rightarrow> s
      | Some pool \<Rightarrow>
          (case reserve pool s of
             (Inl _, s) \<Rightarrow> s
           | (Inr _, s) \<Rightarrow>
               (case issue (new_id (b_id w)) pool (b_participant w) (d_event d) (d_category d) deadline s of
                  (Inl _, s) \<Rightarrow> s
                | (Inr g, s) \<Rightarrow>
                    snd (update_ballot_entry_status (b_id w) BalWinner (Some deadline) (Some g) s))))"

text \<open>The first 32 bits of the id.\<close>

definition ballot_rank :: "uuid \<Rightarrow> int" where
  "ballot_rank bid = int (bid div 2 ^ 96 mod 2 ^ 32)"

text \<open>\<open>new_row\<close> draws the id of a waitlist row. The error of each join is dropped.\<close>

definition transfer_waitlisted :: "(uuid \<Rightarrow> uuid) \<Rightarrow> ballot_draw \<Rightarrow> db \<Rightarrow> db" where
  "transfer_waitlisted new_row d s =
     (case d_waitlist d of
        None \<Rightarrow> s
      | Some wl \<Rightarrow>
          fold (\<lambda>b s. snd (join_with_rank (new_row (b_id b)) wl (b_participant b) SrcBallot (Some (b_id b))
                             (ballot_rank (b_id b)) s))
            (filter (\<lambda>b. b_status b = BalWaitlisted) (list_applied_entries_for_draw (d_id d) s)) s)"

definition announce_draw ::
  "reserver \<Rightarrow> issuer \<Rightarrow> (uuid \<Rightarrow> uuid) \<Rightarrow> (uuid \<Rightarrow> uuid) \<Rightarrow> time \<Rightarrow> uuid \<Rightarrow> uuid \<Rightarrow> db \<Rightarrow> unit res \<times> db" where
  "announce_draw reserve issue new_id new_row now did org s =
     and_then (get_draw did org s) (\<lambda>d s.
     and_then (require (d_status d = DrawDrawn) ErrDrawAlreadyRun s) (\<lambda>_ s.
     let deadline = now + hours_to_duration (d_window_hours d);
         s = fold (announce_winner reserve issue new_id deadline d) (list_winner_entries did s) s;
         s = transfer_waitlisted new_row d s
     in and_then (update_ballot_draw_status now did DrawAnnounced s) (\<lambda>_ s. (Inr (), s))))"

section \<open>Results\<close>

definition check_draw_org :: "uuid \<Rightarrow> uuid \<Rightarrow> db \<Rightarrow> unit res" where
  "check_draw_org did org s =
     (if org = nil_uuid then Inr ()
      else case get_ballot_draw did s of
             None \<Rightarrow> Inl ErrDrawNotFound
           | Some d \<Rightarrow> if assert_draw_org d org then Inr () else Inl ErrDrawNotFound)"

definition list_results :: "uuid \<Rightarrow> nat \<Rightarrow> nat \<Rightarrow> uuid \<Rightarrow> db \<Rightarrow> (draw_result \<times> ballot_entry) list res" where
  "list_results did lim off org s =
     (case check_draw_org did org s of
        Inl e \<Rightarrow> Inl e
      | Inr _ \<Rightarrow> Inr (list_ballot_draw_results did lim off s))"

fun outcome_text :: "outcome \<Rightarrow> string" where
  "outcome_text OutWinner = ''WINNER''"
| "outcome_text OutWaitlisted = ''WAITLISTED''"
| "outcome_text OutNotSelected = ''NOT_SELECTED''"

definition export_results_csv :: "(uuid \<Rightarrow> string) \<Rightarrow> uuid \<Rightarrow> uuid \<Rightarrow> db \<Rightarrow> string res" where
  "export_results_csv uuid_text did org s =
     (case check_draw_org did org s of
        Inl e \<Rightarrow> Inl e
      | Inr _ \<Rightarrow> Inr (concat (map csv_record
          ([''rank'', ''outcome'', ''ballot_entry_id'', ''participant_id'', ''result_hash''] #
           map (\<lambda>(r, b). [dec_int (dr_rank r), outcome_text (dr_outcome r), uuid_text (b_id b),
                          uuid_text (b_participant b), dr_hash r]) (list_all_draw_results did s)))))"

text \<open>\<open>PromoteWaitlist\<close> checks the organization and returns nil.\<close>

definition promote_waitlist :: "uuid \<Rightarrow> uuid \<Rightarrow> db \<Rightarrow> unit res" where
  "promote_waitlist did org s = check_draw_org did org s"

definition verify_result_hash ::
  "(string \<Rightarrow> string) \<Rightarrow> uuid \<Rightarrow> string \<Rightarrow> int \<Rightarrow> string \<Rightarrow> db \<Rightarrow> bool res" where
  "verify_result_hash digest did entry rank claimed s =
     (case get_ballot_draw did s of
        None \<Rightarrow> Inl NoRows
      | Some d \<Rightarrow>
          (case d_seed d of
             None \<Rightarrow> Inl ErrDrawNotAnnounced
           | Some seed \<Rightarrow> Inr (result_hash digest seed rank entry = claimed)))"

section \<open>Participants\<close>

definition apply_ballot :: "time \<Rightarrow> uuid \<Rightarrow> uuid \<Rightarrow> uuid \<Rightarrow> uuid \<Rightarrow> uuid \<Rightarrow> db \<Rightarrow> ballot_entry res \<times> db" where
  "apply_ballot now bid p ev cat did s =
     and_then (found NoRows (get_ballot_draw did s) s) (\<lambda>d s.
     and_then (require (d_status d = DrawOpen) ErrBallotClosed s) (\<lambda>_ s.
     and_then (require (d_category d = cat \<and> d_event d = ev) ErrBallotClosed s) (\<lambda>_ s.
     and_then (require (case d_opens_at d of None \<Rightarrow> True | Some t \<Rightarrow> t \<le> now) ErrBallotClosed s) (\<lambda>_ s.
     and_then (require (case d_closes_at d of None \<Rightarrow> True | Some t \<Rightarrow> now \<le> t) ErrBallotClosed s) (\<lambda>_ s.
     and_then (require (case get_ballot_entry did p s of None \<Rightarrow> True | Some b \<Rightarrow> b_id b = nil_uuid)
       ErrAlreadyApplied s) (\<lambda>_ s.
     create_ballot_entry bid did (d_org d) ev cat p s))))))"

definition get_my_entry :: "uuid \<Rightarrow> uuid \<Rightarrow> db \<Rightarrow> ballot_entry res" where
  "get_my_entry p cat s =
     (case find (\<lambda>b. b_category b = cat) (get_ballot_entry_by_participant p 50 0 s) of
        None \<Rightarrow> Inl ErrNotWinner
      | Some b \<Rightarrow> Inr b)"

definition withdraw_ballot :: "uuid \<Rightarrow> uuid \<Rightarrow> db \<Rightarrow> unit res \<times> db" where
  "withdraw_ballot p cat s =
     and_then (on_error ErrBallotWithdrawNotAllowed (get_my_entry p cat s, s)) (\<lambda>b s.
     and_then (require (b_status b = BalApplied) ErrBallotWithdrawNotAllowed s) (\<lambda>_ s.
     and_then (found NoRows (get_ballot_draw (b_draw b) s) s) (\<lambda>d s.
     and_then (require (d_status d = DrawOpen) ErrBallotWithdrawNotAllowed s) (\<lambda>_ s.
     and_then (update_ballot_entry_status (b_id b) BalWithdrawn None None s) (\<lambda>_ s. (Inr (), s))))))"

text \<open>\<open>CheckBallotAdmission\<close> asks the grant checker, when the service has one.\<close>

definition check_ballot_admission ::
  "(uuid \<Rightarrow> uuid \<Rightarrow> string \<Rightarrow> db \<Rightarrow> unit res) option \<Rightarrow> uuid \<Rightarrow> uuid \<Rightarrow> string \<Rightarrow> db \<Rightarrow> unit res" where
  "check_ballot_admission checker p cat token s =
     (case checker of None \<Rightarrow> Inl ErrNotWinner | Some check \<Rightarrow> check p cat token s)"

section \<open>Lapsing winners\<close>

fun lapse_winners :: "time \<Rightarrow> ballot_entry list \<Rightarrow> db \<Rightarrow> uuid list \<times> db" where
  "lapse_winners now [] s = ([], s)"
| "lapse_winners now (w # ws) s =
     (case expire_ballot_winner now (b_id w) s of
        (Inl _, s) \<Rightarrow> lapse_winners now ws s
      | (Inr _, s) \<Rightarrow> (case lapse_winners now ws s of (ds, s) \<Rightarrow> (List.insert (b_draw w) ds, s)))"

definition promote_for_draw :: "(uuid \<Rightarrow> db \<Rightarrow> unit res \<times> db) \<Rightarrow> uuid \<Rightarrow> db \<Rightarrow> db" where
  "promote_for_draw promote did s =
     (case get_ballot_draw did s of
        None \<Rightarrow> s
      | Some d \<Rightarrow> (case d_waitlist d of None \<Rightarrow> s | Some wl \<Rightarrow> snd (promote wl s)))"

text \<open>\<open>visit\<close> is the order in which the map of affected draws is iterated.\<close>

definition winner_expirer_run ::
  "(uuid \<Rightarrow> db \<Rightarrow> unit res \<times> db) \<Rightarrow> (uuid list \<Rightarrow> uuid list) \<Rightarrow> time \<Rightarrow> db \<Rightarrow> db" where
  "winner_expirer_run promote visit now s =
     (case lapse_winners now (list_expiring_winners now 100 s) s of
        (ds, s) \<Rightarrow> fold (promote_for_draw promote) (visit ds) s)"

section \<open>The shuffle\<close>

lemma length_shuffle_loop [simp]: "length (shuffle_loop draw n xs) = length xs"
  by (induction n arbitrary: xs) (simp_all add: swap_def)

lemma length_shuffle [simp]: "length (shuffle intn seed xs) = length xs"
  by (simp add: shuffle_def)

lemma mset_shuffle_loop:
  assumes "\<forall>i. draw i \<le> i"
  shows "n < length xs \<Longrightarrow> mset (shuffle_loop draw n xs) = mset xs"
proof (induction n arbitrary: xs)
  case (Suc n)
  have "mset (swap (Suc n) (draw (Suc n)) xs) = mset xs"
    unfolding swap_def using Suc.prems assms by (intro mset_swap) (auto intro: le_less_trans)
  moreover have "n < length (swap (Suc n) (draw (Suc n)) xs)" using Suc.prems by (simp add: swap_def)
  ultimately show ?case using Suc.IH by simp
qed simp

theorem shuffle_permutes:
  assumes "\<forall>seed n i. intn seed n i \<le> i"
  shows "mset (shuffle intn seed xs) = mset xs"
proof (cases "xs = []")
  case False
  then have "length xs - 1 < length xs" by simp
  with assms show ?thesis unfolding shuffle_def by (intro mset_shuffle_loop) auto
qed (simp add: shuffle_def)

section \<open>Published results\<close>

lemma assign_nth:
  "i < length xs \<Longrightarrow> assign digest seed xs quota wsize ! i =
    \<lparr> as_entry = xs ! i, as_outcome = outcome_at quota wsize i, as_rank = i,
      as_hash = result_hash digest seed (int i) (xs ! i) \<rparr>"
  by (simp add: assign_def nth_enumerate_eq)

lemma length_assign [simp]: "length (assign digest seed xs quota wsize) = length xs"
  by (simp add: assign_def)

text \<open>What \<open>Assign\<close> computes verifies.\<close>

theorem assigned_hash_verifies:
  assumes "r \<in> set (assign digest seed xs quota wsize)"
    and "get_ballot_draw did s = Some d" "d_seed d = Some seed"
  shows "verify_result_hash digest did (as_entry r) (int (as_rank r)) (as_hash r) s = Inr True"
proof -
  from assms(1) obtain i where "i < length xs" "r = assign digest seed xs quota wsize ! i"
    by (auto simp: in_set_conv_nth)
  with assms(2,3) show ?thesis by (simp add: assign_nth verify_result_hash_def)
qed

lemma length_draw_pairs [simp]: "length (draw_pairs digest intn uuid_text seed d es) = length es"
  by (simp add: draw_pairs_def)

lemma draw_pairs_nth:
  "i < length es \<Longrightarrow> draw_pairs digest intn uuid_text seed d es ! i =
    (\<lparr> as_entry = shuffle intn seed (map (\<lambda>e. uuid_text (b_id e)) es) ! i,
       as_outcome = outcome_at (d_quota d) (waitlist_size d) i, as_rank = i,
       as_hash = result_hash digest seed (int i) (shuffle intn seed (map (\<lambda>e. uuid_text (b_id e)) es) ! i) \<rparr>,
     es ! i)"
  by (simp add: draw_pairs_def assign_nth)

lemma ids_with_draw_pairs:
  "bid \<in> set (ids_with out (draw_pairs digest intn uuid_text seed d es)) \<longleftrightarrow>
    (\<exists>i < length es. b_id (es ! i) = bid \<and> outcome_at (d_quota d) (waitlist_size d) i = out)"
proof -
  let ?ps = "draw_pairs digest intn uuid_text seed d es"
  have "bid \<in> set (ids_with out ?ps) \<longleftrightarrow>
      (\<exists>p \<in> set ?ps. as_outcome (fst p) = out \<and> bid = b_id (snd p))"
    by (simp add: ids_with_def image_iff case_prod_beta' Bex_def conj_ac del: split_paired_Ex)
  also have "\<dots> \<longleftrightarrow> (\<exists>i < length es. as_outcome (fst (?ps ! i)) = out \<and> bid = b_id (snd (?ps ! i)))"
    unfolding Bex_def in_set_conv_nth length_draw_pairs by metis
  also have "\<dots> \<longleftrightarrow> (\<exists>i < length es. b_id (es ! i) = bid \<and> outcome_at (d_quota d) (waitlist_size d) i = out)"
    by (auto simp: draw_pairs_nth)
  finally show ?thesis .
qed

lemma entries_insert_results: "entries (snd (insert_results did rbs s)) = entries s"
proof (induction did rbs s rule: insert_results.induct)
  case (2 did r b rbs s)
  then show ?case by (auto simp: and_then_def insert_ballot_draw_result_def split: prod.split sum.split)
qed simp

lemma entries_bulk_outcome:
  "entries (bulk_outcome out rbs s) =
    upd (\<lambda>b. b_id b \<in> set (ids_with out rbs)) (\<lambda>b. b\<lparr>b_status := status_of_outcome out\<rparr>) (entries s)"
  by (simp add: bulk_outcome_def bulk_update_ballot_outcome_def upd_def)

lemma entries_draw_frame [frame]:
  "entries (snd (create_pool pid org ev cat ptype name slots s)) = entries s"
  "entries (snd (create_waitlist wid org ev cat s)) = entries s"
  "entries (snd (set_ballot_draw_pools did pool wl s)) = entries s"
  "entries (snd (update_ballot_draw_status now did st s)) = entries s"
  by (simp_all add: create_pool_def create_access_pool_def create_waitlist_def create_waitlist_row_def
      set_ballot_draw_pools_def update_ballot_draw_status_def Let_def split: option.split)

lemma entries_open_pools: "entries (snd (open_pools uuid_text de d s)) = entries s"
proof -
  have inner: "entries (snd (if b then and_then m (\<lambda>w s. (Inr (Some w), s)) else (Inr None, s))) = entries s"
    if "entries (snd m) = entries s" for b and m :: "uuid res \<times> db" and s
    using that by (auto simp: and_then_def split: prod.split sum.split)
  show ?thesis unfolding open_pools_def
    by (rule and_then_inv [where I = "\<lambda>x. entries x = entries s"], simp add: frame,
        rule and_then_inv [where I = "\<lambda>x. entries x = entries s"], simp add: frame inner,
        rule and_then_inv [where I = "\<lambda>x. entries x = entries s"]) (simp_all add: frame)
qed

text \<open>The place of an entry in the order of the ids.\<close>

lemma applied_nth:
  assumes "distinct (map b_id (entries s))" "b \<in> set (entries s)" "applied did b"
  shows "\<exists>k < length (list_applied_entries_for_draw did s). list_applied_entries_for_draw did s ! k = b \<and>
    k = cnt (\<lambda>x. applied did x \<and> b_id x < b_id b) (entries s)"
proof -
  let ?es = "list_applied_entries_for_draw did s"
  have "b \<in> set ?es" using assms(2,3) by (simp add: list_applied_entries_for_draw_def)
  then obtain k where k: "k < length ?es" "?es ! k = b" unfolding in_set_conv_nth by blast
  have "distinct (map b_id (filter (applied did) (entries s)))"
    using assms(1) by (rule distinct_map_filter)
  then have "distinct (map b_id ?es)" by (simp add: list_applied_entries_for_draw_def distinct_map)
  then have "k = length (filter (\<lambda>x. b_id x < b_id (?es ! k)) ?es)"
    using k(1) by (simp add: filter_below_nth list_applied_entries_for_draw_def)
  also have "\<dots> = length (filter (\<lambda>x. b_id x < b_id b) (filter (applied did) (entries s)))"
  proof -
    have "mset ?es = mset (filter (applied did) (entries s))" by (simp add: list_applied_entries_for_draw_def)
    then have "mset (filter (\<lambda>x. b_id x < b_id b) ?es) =
        mset (filter (\<lambda>x. b_id x < b_id b) (filter (applied did) (entries s)))" by (simp only: mset_filter)
    then show ?thesis unfolding k(2) by (rule mset_eq_length)
  qed
  also have "\<dots> = cnt (\<lambda>x. applied did x \<and> b_id x < b_id b) (entries s)"
    by (simp add: cnt_def conj_commute)
  finally show ?thesis using k by blast
qed

lemma write_outcomes_entries:
  assumes "write_outcomes did (draw_pairs digest intn uuid_text seed d (list_applied_entries_for_draw did s)) s1
      = (Inr (), s2)"
    and "entries s1 = entries s" and ids: "distinct (map b_id (entries s))"
  shows "entries s2 = map (\<lambda>b. if applied did b
    then b\<lparr>b_status := status_of_outcome (outcome_at (d_quota d) (waitlist_size d)
      (cnt (\<lambda>x. applied did x \<and> b_id x < b_id b) (entries s)))\<rparr> else b) (entries s)"
proof -
  let ?es = "list_applied_entries_for_draw did s"
  let ?ps = "draw_pairs digest intn uuid_text seed d ?es"
  let ?out = "\<lambda>b. outcome_at (d_quota d) (waitlist_size d) (cnt (\<lambda>x. applied did x \<and> b_id x < b_id b) (entries s))"
  from assms(1) obtain s3 where i: "insert_results did ?ps s1 = (Inr (), s3)"
    and s2: "s2 = bulk_outcome OutNotSelected ?ps (bulk_outcome OutWaitlisted ?ps (bulk_outcome OutWinner ?ps s3))"
    by (auto simp: write_outcomes_def and_then_Inr)
  from i entries_insert_results [of did ?ps s1] assms(2) have e: "entries s3 = entries s" by simp
  have member: "b_id b \<in> set (ids_with out ?ps) \<longleftrightarrow> applied did b \<and> ?out b = out"
    if b: "b \<in> set (entries s)" for b out
  proof -
    have "\<exists>k < length ?es. ?es ! k = b \<and> k = cnt (\<lambda>x. applied did x \<and> b_id x < b_id b) (entries s)"
      if "applied did b" using applied_nth [OF ids b that] .
    moreover have "applied did b \<and> ?es ! i = b" if "i < length ?es" "b_id (?es ! i) = b_id b" for i
    proof -
      have "?es ! i \<in> set ?es" using that(1) by simp
      then have "?es ! i \<in> set (entries s)" "applied did (?es ! i)"
        by (auto simp: list_applied_entries_for_draw_def)
      with that(2) ids b show ?thesis by (metis distinct_map inj_onD)
    qed
    moreover have "i = j" if "i < length ?es" "j < length ?es" "?es ! i = ?es ! j" for i j
    proof -
      have "distinct ?es" using ids by (simp add: list_applied_entries_for_draw_def distinct_map)
      with that show ?thesis by (simp add: nth_eq_iff_index_eq)
    qed
    ultimately show ?thesis unfolding ids_with_draw_pairs by metis
  qed
  show ?thesis unfolding s2 entries_bulk_outcome e upd_def map_map
  proof (rule map_cong [OF refl])
    fix b assume b: "b \<in> set (entries s)"
    show "((\<lambda>r. if b_id r \<in> set (ids_with OutNotSelected ?ps) then r\<lparr>b_status := status_of_outcome OutNotSelected\<rparr> else r) \<circ>
        ((\<lambda>r. if b_id r \<in> set (ids_with OutWaitlisted ?ps) then r\<lparr>b_status := status_of_outcome OutWaitlisted\<rparr> else r) \<circ>
         (\<lambda>r. if b_id r \<in> set (ids_with OutWinner ?ps) then r\<lparr>b_status := status_of_outcome OutWinner\<rparr> else r))) b =
      (if applied did b then b\<lparr>b_status := status_of_outcome (?out b)\<rparr> else b)"
      using member [OF b] by (cases "?out b") auto
  qed
qed

section \<open>Properties of the draw\<close>

lemma get_draw_Inr: "get_draw did org s = (Inr d, s') \<longleftrightarrow>
    get_ballot_draw did s = Some d \<and> assert_draw_org d org \<and> s' = s"
  by (auto simp: get_draw_def and_then_Inr)

lemma run_draw_cases:
  assumes run: "run_draw digest intn uuid_text de did org s = (Inr (), s')"
    and d: "get_ballot_draw did s = Some d" "d_seed d = None"
    and new: "count_ballot_draw_results did OutWinner s = 0"
  obtains s1 s2 where "entries s1 = entries s" "draw_results s1 = draw_results s"
    and "write_outcomes did (draw_pairs digest intn uuid_text (draw_seed digest uuid_text d (de_nonce de)) d
      (list_applied_entries_for_draw did s)) s1 = (Inr (), s2)"
    and "open_pools uuid_text de d s2 = (Inr (), s')"
proof -
  have "set_ballot_draw_seed did seed nonce s = (Inr (d\<lparr>d_seed := seed, d_nonce := nonce\<rparr>),
      s\<lparr>draws := upd (\<lambda>d. d_id d = did \<and> d_seed d = None) (\<lambda>d. d\<lparr>d_seed := seed, d_nonce := nonce\<rparr>) (draws s)\<rparr>)"
    for seed nonce
    using sel_strengthen [OF d(1) [unfolded get_ballot_draw_def], of "\<lambda>d. d_seed d = None", OF d(2)]
    by (simp add: set_ballot_draw_seed_def upd_one_def)
  moreover have "list_applied_entries_for_draw did (s\<lparr>draws := ds\<rparr>) = list_applied_entries_for_draw did s" for ds
    by (simp add: list_applied_entries_for_draw_def)
  ultimately obtain ds s2 where "write_outcomes did (draw_pairs digest intn uuid_text
      (draw_seed digest uuid_text d (de_nonce de)) d (list_applied_entries_for_draw did s)) (s\<lparr>draws := ds\<rparr>)
      = (Inr (), s2)"
    and "open_pools uuid_text de d s2 = (Inr (), s')"
    using run d new by (auto simp: run_draw_def and_then_Inr get_draw_Inr Let_def)
  then show ?thesis by (intro that [of "s\<lparr>draws := ds\<rparr>" s2]) simp_all
qed


definition demo_ballot :: db where
  "demo_ballot = demo_waitlist\<lparr>pools := [], waitlists := [], wl_entries := [],
     draws := [\<lparr> d_id = 30, d_org = 1, d_event = 2, d_category = 3, d_status = DrawClosed, d_quota = 1,
       d_waitlist_size = Some 1, d_window_hours = 24, d_opens_at = Some 10, d_closes_at = Some 20,
       d_draw_at = None, d_announced_at = None, d_seed = None, d_nonce = None, d_pool = None,
       d_waitlist = None \<rparr>],
     entries := map (\<lambda>(i, p). \<lparr> b_id = i, b_draw = 30, b_org = 1, b_event = 2, b_category = 3,
       b_participant = p, b_status = BalApplied, b_deadline = None, b_grant = None \<rparr>)
       [(52, 5), (50, 6), (51, 7)]\<rparr>"

definition demo_draw_env :: draw_env where
  "demo_draw_env = \<lparr> de_now = 100, de_nonce = 8, de_pool = 70, de_waitlist = 71 \<rparr>"

abbreviation demo_run :: "(string \<Rightarrow> nat \<Rightarrow> nat \<Rightarrow> nat) \<Rightarrow> db \<Rightarrow> unit res \<times> db" where
  "demo_run intn \<equiv> run_draw id intn (\<lambda>i. dec i) demo_draw_env 30 1"


text \<open>A run that stopped after its seed was committed cannot be finished: every further run answers
  nil and leaves the draw CLOSED.\<close>

theorem run_draw_stuck:
  assumes "get_ballot_draw did s = Some d" "d_status d = DrawClosed" "assert_draw_org d org"
    and "\<forall>x \<in> set (draws s). d_id x = did \<longrightarrow> d_seed x \<noteq> None"
  shows "run_draw digest intn uuid_text de did org s = (Inr (), s)"
proof -
  have "upd_one (\<lambda>d. d_id d = did \<and> d_seed d = None) f (draws s) = None" for f
    using assms(4) by (auto simp: upd_one_None)
  with assms(1-3) show ?thesis
    by (simp add: run_draw_def get_draw_def set_ballot_draw_seed_def Let_def)
qed

section \<open>Announcing\<close>

definition winner_grant :: "(uuid \<Rightarrow> uuid) \<Rightarrow> time \<Rightarrow> ballot_draw \<Rightarrow> uuid \<Rightarrow> ballot_entry \<Rightarrow> access_grant" where
  "winner_grant new_id deadline d pool w =
     grant_row (new_id (b_id w)) pool (b_participant w) (d_event d) (d_category d) deadline"

definition winner_row :: "(uuid \<Rightarrow> uuid) \<Rightarrow> time \<Rightarrow> ballot_entry \<Rightarrow> ballot_entry" where
  "winner_row new_id deadline b =
     b\<lparr>b_status := BalWinner, b_deadline := Some deadline, b_grant := Some (new_id (b_id b))\<rparr>"

lemma b_id_winner_row [simp]: "b_id (winner_row new_id deadline b) = b_id b"
  by (simp add: winner_row_def)

lemma update_winner:
  "new_id bid \<in> g_id ` set (grants s) \<Longrightarrow>
    snd (update_ballot_entry_status bid BalWinner (Some deadline) (Some (new_id bid)) s) =
      s\<lparr>entries := upd (\<lambda>b. b_id b = bid) (winner_row new_id deadline) (entries s)\<rparr>"
proof -
  assume g: "new_id bid \<in> g_id ` set (grants s)"
  have row: "upd (\<lambda>b. b_id b = bid) (\<lambda>b. b\<lparr>b_status := BalWinner, b_deadline := Some deadline,
      b_grant := Some (new_id bid)\<rparr>) bs = upd (\<lambda>b. b_id b = bid) (winner_row new_id deadline) bs" for bs
    by (auto simp: upd_def winner_row_def)
  show ?thesis
  proof (cases "sel (\<lambda>b. b_id b = bid) (entries s)")
    case None
    then have "upd (\<lambda>b. b_id b = bid) (winner_row new_id deadline) (entries s) = entries s"
      by (intro upd_no_match) (simp add: sel_None_iff)
    with g None show ?thesis by (simp add: update_ballot_entry_status_def upd_one_def)
  next
    case (Some b)
    with g show ?thesis by (simp add: update_ballot_entry_status_def upd_one_def row)
  qed
qed

lemma upd_winner_row:
  "upd (\<lambda>b. b_id b \<in> A) (winner_row new_id deadline) (upd (\<lambda>b. b_id b = i) (winner_row new_id deadline) es) =
    upd (\<lambda>b. b_id b = i \<or> b_id b \<in> A) (winner_row new_id deadline) es"
  by (auto simp: upd_def winner_row_def)

context slot_issuer
begin

lemma announce_winner_exact:
  assumes "d_pool d = Some pool" "pools_ok s" "0 < free pool s"
    and "grantable (new_id (b_id w)) (b_participant w) (d_event d) (d_category d) s"
  obtains ps where "announce_winner reserve issue new_id t d w s = s\<lparr>pools := ps,
      grants := grants s @ [winner_grant new_id t d pool w],
      entries := upd (\<lambda>b. b_id b = b_id w) (winner_row new_id t) (entries s)\<rparr>"
    and "pools_ok (s\<lparr>pools := ps\<rparr>)" and "free pool (s\<lparr>pools := ps\<rparr>) = free pool s - 1"
proof -
  from reserve_issue [OF assms(2,3,4), of t] that show ?thesis using assms(1)
    by (auto simp: announce_winner_def update_winner winner_grant_def)
qed

text \<open>With a slot for each, every winner gets a grant.\<close>

lemma announce_winners_exact:
  assumes pool: "d_pool d = Some pool"
  shows "pools_ok s \<Longrightarrow> distinct (map (\<lambda>w. new_id (b_id w)) ws) \<Longrightarrow>
    \<forall>w \<in> set ws. grantable (new_id (b_id w)) (b_participant w) (d_event d) (d_category d) s \<Longrightarrow>
    int (length ws) \<le> free pool s \<Longrightarrow>
    \<exists>ps. fold (announce_winner reserve issue new_id t d) ws s = s\<lparr>pools := ps,
        grants := grants s @ map (winner_grant new_id t d pool) ws,
        entries := upd (\<lambda>b. b_id b \<in> b_id ` set ws) (winner_row new_id t) (entries s)\<rparr> \<and>
      pools_ok (s\<lparr>pools := ps\<rparr>)"
proof (induction ws arbitrary: s)
  case Nil
  then show ?case by (intro exI [of _ "pools s"]) (simp add: upd_no_match)
next
  case (Cons w ws)
  let ?t = "\<lambda>ps. s\<lparr>pools := ps, grants := grants s @ [winner_grant new_id t d pool w],
    entries := upd (\<lambda>b. b_id b = b_id w) (winner_row new_id t) (entries s)\<rparr>"
  from Cons.prems have "0 < free pool s"
    "grantable (new_id (b_id w)) (b_participant w) (d_event d) (d_category d) s" by auto
  from announce_winner_exact [where new_id = new_id and t = t, OF pool Cons.prems(1) this]
  obtain ps where step: "announce_winner reserve issue new_id t d w s = ?t ps"
    and ps: "pools_ok (s\<lparr>pools := ps\<rparr>)" "free pool (s\<lparr>pools := ps\<rparr>) = free pool s - 1" by blast
  have ok: "pools_ok (?t ps)" using ps(1) by (simp add: pools_ok_def)
  have len: "int (length ws) \<le> free pool (?t ps)"
    using Cons.prems(4) ps(2) free_pools [of "?t ps" "s\<lparr>pools := ps\<rparr>" pool] by simp
  have "\<forall>x \<in> set ws. grantable (new_id (b_id x)) (b_participant x) (d_event d) (d_category d) (?t ps)"
  proof
    fix x assume x: "x \<in> set ws"
    with Cons.prems(2) have "new_id (b_id x) \<noteq> new_id (b_id w)"
      by (metis (mono_tags, lifting) distinct.simps(2) image_eqI list.set_map list.simps(9))
    with x Cons.prems(3) show "grantable (new_id (b_id x)) (b_participant x) (d_event d) (d_category d) (?t ps)"
      by (simp add: grantable_def winner_grant_def)
  qed
  from Cons.IH [OF ok _ this len] Cons.prems(2) obtain qs
    where q: "fold (announce_winner reserve issue new_id t d) ws (?t ps) = (?t ps)\<lparr>pools := qs,
      grants := grants (?t ps) @ map (winner_grant new_id t d pool) ws,
      entries := upd (\<lambda>b. b_id b \<in> b_id ` set ws) (winner_row new_id t) (entries (?t ps))\<rparr>"
    "pools_ok ((?t ps)\<lparr>pools := qs\<rparr>)" by auto
  have "pools_ok (s\<lparr>pools := qs\<rparr>)" using q(2) by (simp add: pools_ok_def)
  then show ?case using q(1) by (intro exI [of _ qs]) (simp add: step upd_winner_row)
qed

end

lemma no_applied_is_waitlisted:
  "filter (\<lambda>b. b_status b = BalWaitlisted) (list_applied_entries_for_draw did s) = []"
  by (auto simp: list_applied_entries_for_draw_def filter_empty_conv applied_def)


definition demo_drawn :: db where
  "demo_drawn = demo_waitlist\<lparr>wl_entries := [],
     draws := map (\<lambda>d. d\<lparr>d_status := DrawDrawn, d_pool := Some 9\<rparr>) (draws demo_ballot),
     entries := map2 (\<lambda>b st. b\<lparr>b_status := st\<rparr>) (entries demo_ballot)
       [BalNotSelected, BalWinner, BalWaitlisted]\<rparr>"


section \<open>The published audit data\<close>

lemma insert_results_fresh:
  assumes "insert_results did rbs s = (Inr (), s')"
    and "\<forall>r \<in> set (draw_results s). dr_draw r = did \<longrightarrow> dr_entry r \<notin> (b_id \<circ> snd) ` set rbs"
    and "distinct (map (b_id \<circ> snd) rbs)"
  shows "draw_results s' = draw_results s @ map (\<lambda>(r, b). \<lparr> dr_draw = did, dr_entry = b_id b,
    dr_outcome = as_outcome r, dr_rank = signed_take_bit 31 (int (as_rank r)), dr_hash = as_hash r \<rparr>) rbs"
  using assms
proof (induction did rbs s rule: insert_results.induct)
  case (2 did r b rbs s)
  from 2(2) obtain s1 where s1: "insert_ballot_draw_result did (b_id b) (as_outcome r)
      (signed_take_bit 31 (int (as_rank r))) (as_hash r) s = (Inr (), s1)"
    and rest: "insert_results did rbs s1 = (Inr (), s')" by (auto simp: and_then_Inr)
  from 2(3) have "\<not> (\<exists>x \<in> set (draw_results s). dr_draw x = did \<and> dr_entry x = b_id b)" by auto
  with s1 have e: "draw_results s1 = draw_results s @ [\<lparr> dr_draw = did, dr_entry = b_id b,
      dr_outcome = as_outcome r, dr_rank = signed_take_bit 31 (int (as_rank r)), dr_hash = as_hash r \<rparr>]"
    by (auto simp: insert_ballot_draw_result_def split: if_splits)
  have "draw_results s' = draw_results s1 @ map (\<lambda>(r, b). \<lparr> dr_draw = did, dr_entry = b_id b,
      dr_outcome = as_outcome r, dr_rank = signed_take_bit 31 (int (as_rank r)), dr_hash = as_hash r \<rparr>) rbs"
    using 2(3,4) by (intro 2(1) [OF rest]) (auto simp: e)
  with e show ?case by simp
qed simp

text \<open>The audit fails for every entry the shuffle moved: the published hash of rank \<open>k\<close> was computed
  from the entry that the shuffle puts there, while the row names the entry of the \<open>k\<close>-th smallest
  id, so recomputing it for the named entry agrees only where the shuffle left the entry in place.\<close>

theorem audit_fails_for_moved_entries:
  assumes "get_ballot_draw did s = Some d" "d_seed d = Some seed" "inj digest" "k < length es"
  shows "verify_result_hash digest did (uuid_text (b_id (es ! k))) (int k)
      (as_hash (fst (draw_pairs digest intn uuid_text seed d es ! k))) s =
    Inr (shuffle intn seed (map (\<lambda>e. uuid_text (b_id e)) es) ! k = uuid_text (b_id (es ! k)))"
  using assms by (auto simp: verify_result_hash_def draw_pairs_nth result_hash_def inj_eq)

section \<open>The life of a draw\<close>

inductive next_status :: "draw_status \<Rightarrow> draw_status \<Rightarrow> bool" where
  "next_status DrawPending DrawOpen"
| "next_status DrawOpen DrawClosed"
| "next_status DrawClosed DrawDrawn"
| "next_status DrawDrawn DrawAnnounced"

definition statuses :: "db \<Rightarrow> (uuid \<times> draw_status) list" where
  "statuses s = map (\<lambda>d. (d_id d, d_status d)) (draws s)"

definition with_status :: "uuid \<Rightarrow> draw_status \<Rightarrow> (uuid \<times> draw_status) list \<Rightarrow> (uuid \<times> draw_status) list" where
  "with_status did st xs = map (\<lambda>(i, x). (i, if i = did then st else x)) xs"

definition moved :: "uuid \<Rightarrow> db \<Rightarrow> db \<Rightarrow> bool" where
  "moved did s s' \<longleftrightarrow> statuses s' = statuses s \<or>
     (\<exists>d st. get_ballot_draw did s = Some d \<and> next_status (d_status d) st \<and>
        statuses s' = with_status did st (statuses s))"

lemma with_status_twice [simp]: "with_status did st (with_status did st xs) = with_status did st xs"
  by (auto simp: with_status_def)

lemma statuses_update: "statuses (snd (update_ballot_draw_status now did st s)) = with_status did st (statuses s)"
proof (cases "sel (\<lambda>d. d_id d = did) (draws s)")
  case None
  then have "\<forall>d \<in> set (draws s). d_id d \<noteq> did" by (simp add: sel_None_iff)
  with None show ?thesis
    by (simp add: update_ballot_draw_status_def upd_one_def statuses_def with_status_def)
qed (auto simp: update_ballot_draw_status_def upd_one_def statuses_def with_status_def upd_def)

lemma statuses_frame [frame]:
  "statuses (snd (create_pool pid org ev cat ptype name slots s)) = statuses s"
  "statuses (snd (create_waitlist wid org ev cat s)) = statuses s"
  "statuses (snd (set_ballot_draw_pools did pool wl s)) = statuses s"
  "statuses (snd (set_ballot_draw_seed did seed nonce s)) = statuses s"
  "statuses (bulk_outcome out rbs s) = statuses s"
  by (auto simp: create_pool_def create_access_pool_def create_waitlist_def create_waitlist_row_def
      set_ballot_draw_pools_def set_ballot_draw_seed_def upd_one_def Let_def statuses_def upd_def
      bulk_outcome_def bulk_update_ballot_outcome_def split: option.split)

lemma statuses_insert_results [frame]: "statuses (snd (insert_results did rbs s)) = statuses s"
proof (induction did rbs s rule: insert_results.induct)
  case (2 did r b rbs s)
  then show ?case
    by (auto simp: and_then_def insert_ballot_draw_result_def statuses_def split: prod.split sum.split)
qed (simp add: statuses_def)

lemma statuses_write_outcomes [frame]: "statuses (snd (write_outcomes did rbs s)) = statuses s"
  unfolding write_outcomes_def
  by (rule and_then_inv [where I = "\<lambda>x. statuses x = statuses s"]) (simp_all add: frame)

lemma statuses_open_pools:
  "statuses (snd (open_pools uuid_text de d s)) = statuses s \<or>
   statuses (snd (open_pools uuid_text de d s)) = with_status (d_id d) DrawDrawn (statuses s)" (is "?I (snd ?m)")
proof -
  have inner: "?I (snd (if b then and_then m (\<lambda>w s. (Inr (Some w), s)) else (Inr None, s1)))"
    if "?I (snd m)" "?I s1" for b and m :: "uuid res \<times> db" and s1
    using that by (auto simp: and_then_def split: prod.split sum.split)
  show ?thesis unfolding open_pools_def
    by (rule and_then_inv [where I = ?I], simp add: frame, rule and_then_inv [where I = ?I],
        rule inner, simp add: frame, assumption, rule and_then_inv [where I = ?I])
      (auto simp add: statuses_update frame)
qed

context slot_issuer
begin

lemma draws_announce_winner: "draws (announce_winner reserve issue new_id t d w s) = draws s"
proof (cases "d_pool d")
  case (Some pool)
  obtain r s1 where r: "reserve pool s = (r, s1)" by fastforce
  with reserve_only [of pool s] have s1: "draws s1 = draws s" by auto
  obtain g s2 where g: "issue (new_id (b_id w)) pool (b_participant w) (d_event d) (d_category d) t s1 = (g, s2)"
    by fastforce
  with issue_only [of "new_id (b_id w)" pool "b_participant w" "d_event d" "d_category d" t s1]
  have "draws s2 = draws s1" by auto
  moreover have "draws (snd (update_ballot_entry_status bid st dl gr x)) = draws x" for bid st dl gr x
    by (simp add: update_ballot_entry_status_def split: option.split)
  ultimately show ?thesis using Some r g s1 by (cases r; cases g) (simp_all add: announce_winner_def)
qed (simp add: announce_winner_def)

lemma draws_announce_winners: "draws (fold (announce_winner reserve issue new_id t d) ws s) = draws s"
  by (induction ws arbitrary: s) (simp_all add: draws_announce_winner)

end

text \<open>Each operation leaves the status of every draw as it is or moves the draw it is called for one
  step along PENDING, OPEN, CLOSED, DRAWN, ANNOUNCED.\<close>

lemma moved_refl [simp]: "moved did s s"
  by (simp add: moved_def)

lemma moved_after_get_draw:
  assumes "\<And>d. get_ballot_draw did s = Some d \<Longrightarrow> moved did s (snd (k d s))"
  shows "moved did s (snd (and_then (get_draw did org s) k))"
  using assms by (auto simp: get_draw_def and_then_def require_def found_def split: option.split)

lemma moved_after_require:
  "(b \<Longrightarrow> moved did s (snd (k () s))) \<Longrightarrow> moved did s (snd (and_then (require b e s) k))"
  by (simp add: require_def)

lemma moved_update:
  assumes "get_ballot_draw did s = Some d" "next_status (d_status d) st" "statuses x = statuses s"
  shows "moved did s (snd (and_then (update_ballot_draw_status now did st x) (\<lambda>_ s. (Inr (), s))))"
proof -
  have "snd (and_then (update_ballot_draw_status now did st x) (\<lambda>_ s. (Inr (), s))) =
      snd (update_ballot_draw_status now did st x)"
    by (simp add: and_then_def split: prod.split sum.split)
  with assms show ?thesis unfolding moved_def by (auto simp: statuses_update)
qed

lemma moved_open_pools:
  assumes "get_ballot_draw did s = Some d" "d_status d = DrawClosed" "statuses x = statuses s"
  shows "moved did s (snd (open_pools uuid_text de d x))"
proof -
  have "d_id d = did" using assms(1) by (auto simp: get_ballot_draw_def dest: sel_SomeD)
  with statuses_open_pools [of uuid_text de d x] assms show ?thesis
    unfolding moved_def using next_status.intros(3) by auto
qed

lemma moved_run_draw: "moved did s (snd (run_draw digest intn uuid_text de did org s))"
  unfolding run_draw_def
proof (rule moved_after_get_draw, rule moved_after_require)
  fix d assume d: "get_ballot_draw did s = Some d" "d_status d = DrawClosed"
  let ?seed = "draw_seed digest uuid_text d (de_nonce de)"
  obtain r s1 where r: "set_ballot_draw_seed did (Some ?seed) (Some (de_nonce de)) s = (r, s1)" by fastforce
  have s1: "statuses s1 = statuses s" using statuses_frame(4) [of did "Some ?seed" "Some (de_nonce de)" s] r by simp
  let ?w = "write_outcomes did (draw_pairs digest intn uuid_text ?seed d (list_applied_entries_for_draw did s1)) s1"
  have "moved did s (snd (and_then ?w (\<lambda>_ s. open_pools uuid_text de d s)))"
  proof (cases ?w)
    case (Pair a s2)
    with statuses_write_outcomes [of did _ s1] s1 have s2: "statuses s2 = statuses s" by (metis snd_conv)
    with Pair moved_open_pools [OF d s2] show ?thesis by (cases a) (simp_all add: moved_def)
  qed
  with r s1 show "moved did s (snd (if 0 < count_ballot_draw_results did OutWinner s then (Inr (), s)
      else let seed = ?seed in case set_ballot_draw_seed did (Some seed) (Some (de_nonce de)) s of
        (Inl e, s) \<Rightarrow> (if e = NoRows then Inr () else Inl e, s)
      | (Inr _, s) \<Rightarrow> and_then (write_outcomes did (draw_pairs digest intn uuid_text seed d
            (list_applied_entries_for_draw did s)) s) (\<lambda>_ s. open_pools uuid_text de d s)))"
    by (cases r) (simp_all add: moved_def Let_def)
qed

theorem draw_moves_one_step_forward:
  "moved did s (snd (open_draw now did org s))" "moved did s (snd (close_draw now did org s))"
  "moved did s (snd (run_draw digest intn uuid_text de did org s))"
  "moved did s (snd (announce_draw reserve_slot create_grant new_id new_row now did org s))"
proof -
  show "moved did s (snd (open_draw now did org s))" unfolding open_draw_def
    by (intro moved_after_get_draw moved_after_require moved_update) (auto intro: next_status.intros)
  show "moved did s (snd (close_draw now did org s))" unfolding close_draw_def
    by (intro moved_after_get_draw moved_after_require moved_update) (auto intro: next_status.intros)
  show "moved did s (snd (run_draw digest intn uuid_text de did org s))" by (rule moved_run_draw)
  have t: "transfer_waitlisted new_row d x = x" for d x
    by (simp add: transfer_waitlisted_def no_applied_is_waitlisted split: option.split)
  show "moved did s (snd (announce_draw reserve_slot create_grant new_id new_row now did org s))"
    unfolding announce_draw_def Let_def t
    by (intro moved_after_get_draw moved_after_require moved_update)
      (auto intro: next_status.intros simp: statuses_def pool_manager.draws_announce_winners)
qed

section \<open>Lapsing\<close>

text \<open>A winner with a paid order, or one that can still be paid, never lapses.\<close>

theorem lapse_spares_buyers:
  assumes "expire_ballot_winner now bid s = (r, s')" "b \<in> set (entries s)" "holding_order now s b"
  shows "b \<in> set (entries s')"
  using assms by (auto simp: expire_ballot_winner_def upd_one_Some intro!: upd_keeps split: option.splits)

theorem withdraw_only_open_applications:
  assumes "withdraw_ballot p cat s = (Inr (), s')"
  shows "\<exists>b d. get_my_entry p cat s = Inr b \<and> b_status b = BalApplied \<and>
    get_ballot_draw (b_draw b) s = Some d \<and> d_status d = DrawOpen \<and>
    snd (update_ballot_entry_status (b_id b) BalWithdrawn None None s) = s'"
  using assms by (auto simp: withdraw_ballot_def and_then_Inr)

text \<open>An accepted application is for an open draw of that event and category, in its window, and the
  first of the participant.\<close>

theorem apply_only_in_window:
  assumes "apply_ballot now bid p ev cat did s = (Inr b, s')"
  shows "\<exists>d. get_ballot_draw did s = Some d \<and> d_status d = DrawOpen \<and> d_event d = ev \<and> d_category d = cat \<and>
    (\<forall>t. d_opens_at d = Some t \<longrightarrow> t \<le> now) \<and> (\<forall>t. d_closes_at d = Some t \<longrightarrow> now \<le> t) \<and>
    (\<forall>x \<in> set (entries s). \<not> (b_draw x = did \<and> b_participant x = p)) \<and>
    b_status b = BalApplied \<and> b_participant b = p \<and> entries s' = entries s @ [b]"
  using assms by (auto simp: apply_ballot_def and_then_Inr create_ballot_entry_def Let_def
      split: if_splits option.splits)

end
