(* ===== verification/Scoring.thy ===== *)
theory Scoring
  imports Format
begin

text \<open>
  The rules of the competition engine (\<open>modules/competitions/scoring.go\<close>): badminton matches,
  league tables of football, badminton and point sports, the peloton rule of cycling, and the
  ranking of results. A Go map is iterated in no fixed order: \<open>visit\<close> is the order of one run. Scores
  and their sums stay far below \<open>2^63\<close> and are plain integers; \<open>float64\<close> points are kept in hundredths.
\<close>

section \<open>Data\<close>

datatype ranking_strategy = TimeAsc | TimeDesc | ScoreAsc | ScoreDesc | PointsDesc | WinCount
  | GoalDifference | HeadToHead

datatype comp_status = StRegistered | StCheckedIn | StStarted | StActive | StCompleted | StFinished
  | StDNF | StDNS | StDSQ | StOTL | StWithdrawn | StRetired | StNoShow | StEliminated | StQualified
  | StDisqualified | StForfeit | StWalkover | StPendingReview

definition valid_finisher :: "comp_status \<Rightarrow> bool" where
  "valid_finisher st \<longleftrightarrow> st = StFinished \<or> st = StCompleted \<or> st = StQualified"

datatype entry_type = EntIndividual | EntTeam | EntPair | EntRelay | EntSquad

datatype match_status = MsScheduled | MsLive | MsCompleted | MsSuspended | MsCancelled | MsForfeit
  | MsWalkover | MsBye

record score_detail =
  sd_period :: int
  sd_home :: int
  sd_away :: int

record participant_entry =
  pe_id :: uuid
  pe_org :: uuid
  pe_event :: uuid
  pe_category :: "uuid option"
  pe_ticket :: "uuid option"
  pe_team :: "uuid option"
  pe_type :: entry_type
  pe_name :: string
  pe_code :: "string option"
  pe_seed :: "int option"
  pe_lane :: "int option"
  pe_heat :: "int option"
  pe_status :: comp_status

record match_row =
  m_id :: uuid
  m_org :: uuid
  m_event :: uuid
  m_stage :: uuid
  m_round :: int
  m_number :: int
  m_home_team :: "uuid option"
  m_away_team :: "uuid option"
  m_home :: "uuid option"
  m_away :: "uuid option"
  m_court :: "string option"
  m_home_score :: int
  m_away_score :: int
  m_status :: match_status
  m_winner :: "uuid option"
  m_details :: "score_detail list"

record standings_row =
  sr_rank :: int
  sr_entry :: uuid
  sr_name :: string
  sr_code :: "string option"
  sr_played :: int
  sr_wins :: int
  sr_draws :: int
  sr_losses :: int
  sr_gf :: int
  sr_ga :: int
  sr_gd :: int
  sr_points :: int
  sr_time :: "int option"
  sr_time_text :: string
  sr_status :: comp_status
  sr_metrics :: "(string \<times> int) list"

section \<open>A badminton match\<close>

datatype side = Home | Away

record match_outcome =
  mo_home :: nat
  mo_away :: nat
  mo_winner :: "side option"
  mo_status :: match_status
  mo_details :: "score_detail list"

definition game_won :: "int \<Rightarrow> int \<Rightarrow> bool" where
  "game_won p q \<longleftrightarrow> 21 \<le> p \<and> 2 \<le> p - q \<or> p = 30 \<and> 29 \<le> q"

fun games_won :: "score_detail list \<Rightarrow> nat \<times> nat" where
  "games_won [] = (0, 0)"
| "games_won (g # gs) =
     (case games_won gs of (h, a) \<Rightarrow>
        if game_won (sd_home g) (sd_away g) then (h + 1, a)
        else if game_won (sd_away g) (sd_home g) then (h, a + 1) else (h, a))"

definition evaluate_badminton_match :: "score_detail list \<Rightarrow> match_outcome" where
  "evaluate_badminton_match sets =
     (case games_won sets of (h, a) \<Rightarrow>
        \<lparr> mo_home = h, mo_away = a,
          mo_winner = (if 2 \<le> h then Some Home else if 2 \<le> a then Some Away else None),
          mo_status = (if 2 \<le> h \<or> 2 \<le> a then MsCompleted else MsLive),
          mo_details = sets \<rparr>)"

section \<open>League tables\<close>

definition new_row :: "participant_entry \<Rightarrow> standings_row" where
  "new_row e = \<lparr> sr_rank = 0, sr_entry = pe_id e, sr_name = pe_name e, sr_code = pe_code e,
     sr_played = 0, sr_wins = 0, sr_draws = 0, sr_losses = 0, sr_gf = 0, sr_ga = 0, sr_gd = 0,
     sr_points = 0, sr_time = None, sr_time_text = [], sr_status = pe_status e, sr_metrics = [] \<rparr>"

text \<open>The map from ids to rows: a later entry of the same id replaces the row.\<close>

definition start_rows :: "participant_entry list \<Rightarrow> standings_row list" where
  "start_rows es = fold (\<lambda>e rows. filter (\<lambda>r. sr_entry r \<noteq> pe_id e) rows @ [new_row e]) es []"

text \<open>Head-to-head counts; a missing inner map reads as zeros.\<close>

type_synonym h2h = "uuid \<Rightarrow> uuid \<Rightarrow> int"

definition bump :: "uuid \<Rightarrow> uuid \<Rightarrow> int \<Rightarrow> h2h \<Rightarrow> h2h" where
  "bump a b k t = t(a := (t a)(b := t a b + k))"

definition row_upd :: "uuid \<Rightarrow> (standings_row \<Rightarrow> standings_row) \<Rightarrow> standings_row list \<Rightarrow> standings_row list" where
  "row_upd i = upd (\<lambda>r. sr_entry r = i)"

text \<open>The matches that count: completed, with both sides in the table.\<close>

definition counted :: "standings_row list \<Rightarrow> match_row \<Rightarrow> (uuid \<times> uuid) option" where
  "counted rows m =
     (if m_status m \<noteq> MsCompleted then None
      else case (m_home m, m_away m) of
        (Some h, Some a) \<Rightarrow>
          if h \<in> sr_entry ` set rows \<and> a \<in> sr_entry ` set rows then Some (h, a) else None
      | _ \<Rightarrow> None)"

definition win_row :: "int \<Rightarrow> standings_row \<Rightarrow> standings_row" where
  "win_row k r = r\<lparr>sr_wins := sr_wins r + 1, sr_points := sr_points r + k\<rparr>"

definition draw_row :: "int \<Rightarrow> standings_row \<Rightarrow> standings_row" where
  "draw_row k r = r\<lparr>sr_draws := sr_draws r + 1, sr_points := sr_points r + k\<rparr>"

definition loss_row :: "standings_row \<Rightarrow> standings_row" where
  "loss_row r = r\<lparr>sr_losses := sr_losses r + 1\<rparr>"

definition play_row :: "standings_row \<Rightarrow> standings_row" where
  "play_row r = r\<lparr>sr_played := sr_played r + 1\<rparr>"

definition goals_row :: "int \<Rightarrow> int \<Rightarrow> standings_row \<Rightarrow> standings_row" where
  "goals_row f a r = r\<lparr>sr_gf := sr_gf r + f, sr_ga := sr_ga r + a\<rparr>"

definition football_match :: "match_row \<Rightarrow> standings_row list \<times> h2h \<Rightarrow> standings_row list \<times> h2h" where
  "football_match m st =
     (case st of (rows, t) \<Rightarrow>
        (case counted rows m of
           None \<Rightarrow> (rows, t)
         | Some (h, a) \<Rightarrow>
             let hs = m_home_score m; as = m_away_score m;
                 rows = row_upd a play_row (row_upd h play_row rows);
                 rows = row_upd a (goals_row as hs) (row_upd h (goals_row hs as) rows)
             in if hs > as then (row_upd a loss_row (row_upd h (win_row 3) rows), bump h a 3 t)
                else if as > hs then (row_upd h loss_row (row_upd a (win_row 3) rows), bump a h 3 t)
                else (row_upd a (draw_row 1) (row_upd h (draw_row 1) rows), bump a h 1 (bump h a 1 t))))"

definition name_less :: "standings_row \<Rightarrow> standings_row \<Rightarrow> bool" where
  "name_less x y \<longleftrightarrow> lower (sr_name x) < lower (sr_name y)"

definition football_less :: "h2h \<Rightarrow> standings_row \<Rightarrow> standings_row \<Rightarrow> bool" where
  "football_less t x y =
     (if sr_points x \<noteq> sr_points y then sr_points x > sr_points y
      else if sr_gd x \<noteq> sr_gd y then sr_gd x > sr_gd y
      else if sr_gf x \<noteq> sr_gf y then sr_gf x > sr_gf y
      else if t (sr_entry x) (sr_entry y) \<noteq> t (sr_entry y) (sr_entry x)
        then t (sr_entry x) (sr_entry y) > t (sr_entry y) (sr_entry x)
      else name_less x y)"

definition number_rows :: "standings_row list \<Rightarrow> standings_row list" where
  "number_rows rows = map (\<lambda>(i, r). r\<lparr>sr_rank := int i + 1\<rparr>) (enumerate 0 rows)"

definition football_standings ::
  "(standings_row list \<Rightarrow> standings_row list) \<Rightarrow> match_row list \<Rightarrow> participant_entry list \<Rightarrow>
    standings_row list" where
  "football_standings visit ms es =
     (case fold football_match ms (start_rows es, \<lambda>_ _. 0) of (rows, t) \<Rightarrow>
        number_rows (go_sort (football_less t)
          (map (\<lambda>r. r\<lparr>sr_gd := sr_gf r - sr_ga r\<rparr>) (visit rows))))"

section \<open>Badminton tables\<close>

text \<open>The running maps: games and rally points won and lost, and matches won against each other.\<close>

record bwf_counts =
  bw_rows :: "standings_row list"
  bw_h2h :: h2h
  bw_games_won :: "uuid \<Rightarrow> int"
  bw_games_lost :: "uuid \<Rightarrow> int"
  bw_rally_won :: "uuid \<Rightarrow> int"
  bw_rally_lost :: "uuid \<Rightarrow> int"

definition add_to :: "uuid \<Rightarrow> int \<Rightarrow> (uuid \<Rightarrow> int) \<Rightarrow> uuid \<Rightarrow> int" where
  "add_to i k f = f(i := f i + k)"

definition rally_set :: "uuid \<Rightarrow> uuid \<Rightarrow> score_detail \<Rightarrow> bwf_counts \<Rightarrow> bwf_counts" where
  "rally_set h a g c = c\<lparr>
     bw_rally_won := add_to a (sd_away g) (add_to h (sd_home g) (bw_rally_won c)),
     bw_rally_lost := add_to a (sd_home g) (add_to h (sd_away g) (bw_rally_lost c))\<rparr>"

definition badminton_match :: "match_row \<Rightarrow> bwf_counts \<Rightarrow> bwf_counts" where
  "badminton_match m c =
     (case counted (bw_rows c) m of
        None \<Rightarrow> c
      | Some (h, a) \<Rightarrow>
          let hs = m_home_score m; as = m_away_score m;
              c = c\<lparr>bw_rows := row_upd a play_row (row_upd h play_row (bw_rows c)),
                    bw_games_won := add_to a as (add_to h hs (bw_games_won c)),
                    bw_games_lost := add_to a hs (add_to h as (bw_games_lost c))\<rparr>;
              c = fold (rally_set h a) (m_details m) c
          in if hs > as then
               c\<lparr>bw_rows := row_upd a loss_row (row_upd h (win_row 1) (bw_rows c)),
                 bw_h2h := bump h a 1 (bw_h2h c)\<rparr>
             else if as > hs then
               c\<lparr>bw_rows := row_upd h loss_row (row_upd a (win_row 1) (bw_rows c)),
                 bw_h2h := bump a h 1 (bw_h2h c)\<rparr>
             else c)"

definition game_diff :: "bwf_counts \<Rightarrow> standings_row \<Rightarrow> int" where
  "game_diff c r = bw_games_won c (sr_entry r) - bw_games_lost c (sr_entry r)"

definition rally_diff :: "bwf_counts \<Rightarrow> standings_row \<Rightarrow> int" where
  "rally_diff c r = bw_rally_won c (sr_entry r) - bw_rally_lost c (sr_entry r)"

definition resolve_pair :: "bwf_counts \<Rightarrow> standings_row \<Rightarrow> standings_row \<Rightarrow> standings_row list" where
  "resolve_pair c a b =
     (let wa = bw_h2h c (sr_entry a) (sr_entry b); wb = bw_h2h c (sr_entry b) (sr_entry a)
      in if wa > wb then [a, b] else if wb > wa then [b, a]
         else if game_diff c a > game_diff c b then [a, b]
         else if game_diff c b > game_diff c a then [b, a]
         else if rally_diff c a > rally_diff c b then [a, b]
         else if rally_diff c b > rally_diff c a then [b, a]
         else if lower (sr_name a) \<le> lower (sr_name b) then [a, b] else [b, a])"

text \<open>Buckets of equal keys, the largest key first, each in the order of the list.\<close>

definition buckets :: "('a \<Rightarrow> int) \<Rightarrow> 'a list \<Rightarrow> 'a list list" where
  "buckets key xs = map (\<lambda>k. filter (\<lambda>x. key x = k) xs) (rev (sort (remdups (map key xs))))"

definition resolve_rally_group :: "bwf_counts \<Rightarrow> standings_row list \<Rightarrow> standings_row list" where
  "resolve_rally_group c grp =
     (case grp of [r] \<Rightarrow> [r] | [a, b] \<Rightarrow> resolve_pair c a b | _ \<Rightarrow> go_sort name_less grp)"

definition resolve_game_group :: "bwf_counts \<Rightarrow> standings_row list \<Rightarrow> standings_row list" where
  "resolve_game_group c grp =
     (case grp of [r] \<Rightarrow> [r] | [a, b] \<Rightarrow> resolve_pair c a b
      | _ \<Rightarrow> concat (map (resolve_rally_group c) (buckets (rally_diff c) grp)))"

definition resolve_tied_group :: "bwf_counts \<Rightarrow> standings_row list \<Rightarrow> standings_row list" where
  "resolve_tied_group c grp =
     (if length grp \<le> 1 then grp
      else case grp of [a, b] \<Rightarrow> resolve_pair c a b
      | _ \<Rightarrow> concat (map (resolve_game_group c) (buckets (game_diff c) grp)))"

definition with_metrics :: "bwf_counts \<Rightarrow> standings_row \<Rightarrow> standings_row" where
  "with_metrics c r = r\<lparr>sr_metrics :=
     [(''games_won'', bw_games_won c (sr_entry r)), (''games_lost'', bw_games_lost c (sr_entry r)),
      (''game_difference'', game_diff c r), (''rally_points_won'', bw_rally_won c (sr_entry r)),
      (''rally_points_lost'', bw_rally_lost c (sr_entry r)), (''rally_point_difference'', rally_diff c r)]\<rparr>"

definition badminton_counts :: "match_row list \<Rightarrow> participant_entry list \<Rightarrow> bwf_counts" where
  "badminton_counts ms es = fold badminton_match ms
     \<lparr> bw_rows = start_rows es, bw_h2h = (\<lambda>_ _. 0), bw_games_won = (\<lambda>_. 0), bw_games_lost = (\<lambda>_. 0),
       bw_rally_won = (\<lambda>_. 0), bw_rally_lost = (\<lambda>_. 0) \<rparr>"

definition badminton_standings ::
  "(standings_row list \<Rightarrow> standings_row list) \<Rightarrow> match_row list \<Rightarrow> participant_entry list \<Rightarrow>
    standings_row list" where
  "badminton_standings visit ms es =
     (let c = badminton_counts ms es
      in number_rows (concat (map (resolve_tied_group c)
           (buckets sr_points (visit (map (with_metrics c) (bw_rows c)))))))"

section \<open>Point tables\<close>

definition points_match ::
  "int \<Rightarrow> int \<Rightarrow> match_row \<Rightarrow> standings_row list \<times> h2h \<Rightarrow> standings_row list \<times> h2h" where
  "points_match w d m st =
     (case st of (rows, t) \<Rightarrow>
        (case counted rows m of
           None \<Rightarrow> (rows, t)
         | Some (h, a) \<Rightarrow>
             let hs = m_home_score m; as = m_away_score m;
                 rows = row_upd a play_row (row_upd h play_row rows)
             in if hs > as then (row_upd a loss_row (row_upd h (win_row w) rows), bump h a 1 t)
                else if as > hs then (row_upd h loss_row (row_upd a (win_row w) rows), bump a h 1 t)
                else (row_upd a (draw_row d) (row_upd h (draw_row d) rows), t)))"

definition points_less :: "h2h \<Rightarrow> standings_row \<Rightarrow> standings_row \<Rightarrow> bool" where
  "points_less t x y =
     (if sr_points x \<noteq> sr_points y then sr_points x > sr_points y
      else if sr_wins x \<noteq> sr_wins y then sr_wins x > sr_wins y
      else if t (sr_entry x) (sr_entry y) \<noteq> t (sr_entry y) (sr_entry x)
        then t (sr_entry x) (sr_entry y) > t (sr_entry y) (sr_entry x)
      else name_less x y)"

definition points_standings ::
  "(standings_row list \<Rightarrow> standings_row list) \<Rightarrow> int \<Rightarrow> int \<Rightarrow> match_row list \<Rightarrow> participant_entry list \<Rightarrow>
    standings_row list" where
  "points_standings visit w d ms es =
     (case fold (points_match w d) ms (start_rows es, \<lambda>_ _. 0) of (rows, t) \<Rightarrow>
        number_rows (go_sort (points_less t) (visit rows)))"

section \<open>The peloton rule\<close>

fun bunch :: "int \<Rightarrow> int \<Rightarrow> int \<Rightarrow> int list \<Rightarrow> int list" where
  "bunch gap lead prev [] = []"
| "bunch gap lead prev (t # ts) =
     (if int64 (t - prev) \<le> gap then lead # bunch gap lead t ts else t # bunch gap t t ts)"

definition peloton_grouping :: "int list \<Rightarrow> int \<Rightarrow> int list" where
  "peloton_grouping ts0 gap =
     (case ts0 of [] \<Rightarrow> [] | t # ts \<Rightarrow> t # bunch (if gap \<le> 0 then 1000 else gap) t t ts)"

section \<open>Ranking results\<close>

record result_view =
  rv_entry :: uuid
  rv_name :: string
  rv_status :: comp_status
  rv_primary :: "int option"
  rv_secondary :: "int option"
  rv_points :: int
  rv_rank :: "int option"

definition time_asc_key :: "result_view \<Rightarrow> int" where
  "time_asc_key r = (case rv_primary r of Some t \<Rightarrow> t | None \<Rightarrow>
     (case rv_secondary r of Some t \<Rightarrow> t | None \<Rightarrow> 2 ^ 62 - 1))"

definition time_desc_key :: "result_view \<Rightarrow> int" where
  "time_desc_key r = (case rv_primary r of Some t \<Rightarrow> t | None \<Rightarrow> 0)"

definition rv_name_less :: "result_view \<Rightarrow> result_view \<Rightarrow> bool" where
  "rv_name_less x y \<longleftrightarrow> lower (rv_name x) < lower (rv_name y)"

fun metric_less :: "ranking_strategy \<Rightarrow> result_view \<Rightarrow> result_view \<Rightarrow> bool" where
  "metric_less TimeAsc x y =
     (if time_asc_key x \<noteq> time_asc_key y then time_asc_key x < time_asc_key y else rv_name_less x y)"
| "metric_less PointsDesc x y =
     (if rv_points x \<noteq> rv_points y then rv_points x > rv_points y else rv_name_less x y)"
| "metric_less ScoreDesc x y =
     (if rv_points x \<noteq> rv_points y then rv_points x > rv_points y else rv_name_less x y)"
| "metric_less ScoreAsc x y =
     (if rv_points x \<noteq> rv_points y then rv_points x < rv_points y else rv_name_less x y)"
| "metric_less TimeDesc x y =
     (if time_desc_key x \<noteq> time_desc_key y then time_desc_key x > time_desc_key y else rv_name_less x y)"
| "metric_less _ x y = rv_name_less x y"

definition result_less :: "ranking_strategy \<Rightarrow> result_view \<Rightarrow> result_view \<Rightarrow> bool" where
  "result_less strat x y =
     (if valid_finisher (rv_status x) \<noteq> valid_finisher (rv_status y) then valid_finisher (rv_status x)
      else metric_less strat x y)"

definition any_time :: "result_view \<Rightarrow> int option" where
  "any_time r = (case rv_primary r of Some t \<Rightarrow> Some t | None \<Rightarrow> rv_secondary r)"

definition equal_metric :: "result_view \<Rightarrow> result_view \<Rightarrow> ranking_strategy \<Rightarrow> bool" where
  "equal_metric a b strat =
     (if strat = TimeAsc \<or> strat = TimeDesc then any_time a = any_time b
      else if strat = PointsDesc \<or> strat = ScoreDesc \<or> strat = ScoreAsc then rv_points a = rv_points b
      else False)"

text \<open>The loop over the sorted results: the previous row with its rank, and the running rank.\<close>

fun rank_loop :: "ranking_strategy \<Rightarrow> result_view option \<Rightarrow> int \<Rightarrow> result_view list \<Rightarrow> result_view list" where
  "rank_loop strat prev cur [] = []"
| "rank_loop strat prev cur (r # rs) =
     (if valid_finisher (rv_status r) then
        let r' = r\<lparr>rv_rank := (case prev of
              Some p \<Rightarrow> (if valid_finisher (rv_status p) \<and> rv_rank p \<noteq> None \<and> equal_metric p r strat
                         then rv_rank p else Some cur)
            | None \<Rightarrow> Some cur)\<rparr>
        in r' # rank_loop strat (Some r') (cur + 1) rs
      else let r' = r\<lparr>rv_rank := None\<rparr> in r' # rank_loop strat (Some r') cur rs)"

definition rank_results :: "result_view list \<Rightarrow> ranking_strategy \<Rightarrow> result_view list" where
  "rank_results rs strat = rank_loop strat None 1 (go_sort (result_less strat) rs)"

section \<open>Sorting by keys\<close>

text \<open>Insertion sort orders by the leading keys even when the rest of the comparison is no ordering.\<close>

lemma go_ins_by_key:
  fixes key :: "'a \<Rightarrow> 'b :: linorder"
  assumes "\<And>x y. key x > key y \<Longrightarrow> lt x y" "\<And>x y. lt x y \<Longrightarrow> key x \<ge> key y"
  shows "sorted_wrt (\<lambda>a b. key a \<le> key b) ys \<Longrightarrow> sorted_wrt (\<lambda>a b. key a \<le> key b) (go_ins lt x ys)"
proof (induction ys)
  case (Cons y ys)
  show ?case
  proof (cases "lt x y")
    case True
    with Cons assms(2) show ?thesis by auto
  next
    case False
    with assms(1) have "key x \<le> key y" by (meson not_le)
    with False Cons.prems show ?thesis by (auto intro: order_trans)
  qed
qed simp

lemma go_sort_by_key:
  fixes key :: "'a \<Rightarrow> 'b :: linorder"
  assumes "\<And>x y. key x > key y \<Longrightarrow> lt x y" "\<And>x y. lt x y \<Longrightarrow> key x \<ge> key y"
  shows "sorted_wrt (\<lambda>a b. key a \<ge> key b) (go_sort lt xs)"
proof -
  have "sorted_wrt (\<lambda>a b. key a \<le> key b) acc \<Longrightarrow>
      sorted_wrt (\<lambda>a b. key a \<le> key b) (fold (go_ins lt) xs acc)" for acc
  proof (induction xs arbitrary: acc)
    case (Cons x xs)
    from go_ins_by_key [of key lt, OF assms Cons.prems] Cons.IH show ?case by simp
  qed simp
  then show ?thesis by (simp add: go_sort_def sorted_wrt_rev)
qed

lemma number_rows_nth:
  "i < length rows \<Longrightarrow> number_rows rows ! i = (rows ! i)\<lparr>sr_rank := int i + 1\<rparr>"
  by (simp add: number_rows_def nth_enumerate_eq)

lemma length_number_rows [simp]: "length (number_rows rows) = length rows"
  by (simp add: number_rows_def)

lemma map_number_rows: "(\<And>r k. f (r\<lparr>sr_rank := k\<rparr>) = f r) \<Longrightarrow> map f (number_rows rows) = map f rows"
  by (rule nth_equalityI) (simp_all add: number_rows_nth)

lemma sorted_number_rows:
  assumes "sorted_wrt P rows" "\<And>x y i j. P (x\<lparr>sr_rank := i\<rparr>) (y\<lparr>sr_rank := j\<rparr>) = P x y"
  shows "sorted_wrt P (number_rows rows)"
  using assms by (simp add: sorted_wrt_iff_nth_less number_rows_nth)

section \<open>The football table\<close>

lemma start_rows_from:
  assumes "distinct (map sr_entry acc)"
  shows "distinct (map sr_entry (fold (\<lambda>e rows. filter (\<lambda>r. sr_entry r \<noteq> pe_id e) rows @ [new_row e]) es acc))"
  using assms
proof (induction es arbitrary: acc)
  case (Cons e es)
  have "distinct (map sr_entry (filter (\<lambda>r. sr_entry r \<noteq> pe_id e) acc @ [new_row e]))"
    using Cons.prems by (auto simp: distinct_map_filter new_row_def)
  from Cons.IH [OF this] show ?case by simp
qed simp

lemma distinct_start_rows: "distinct (map sr_entry (start_rows es))"
  unfolding start_rows_def by (rule start_rows_from) simp

lemma all_start_rows:
  assumes "\<And>e. P (new_row e)"
  shows "\<forall>r \<in> set (start_rows es). P r"
proof -
  have "\<forall>r \<in> set acc. P r \<Longrightarrow>
      \<forall>r \<in> set (fold (\<lambda>e rows. filter (\<lambda>r. sr_entry r \<noteq> pe_id e) rows @ [new_row e]) es acc). P r" for acc
  proof (induction es arbitrary: acc)
    case (Cons e es)
    then have "\<forall>r \<in> set (filter (\<lambda>r. sr_entry r \<noteq> pe_id e) acc @ [new_row e]). P r"
      by (simp add: assms)
    from Cons.IH [OF this] show ?case by simp
  qed simp
  from this [of "[]"] show ?thesis by (simp add: start_rows_def)
qed

text \<open>An update of one row of the table.\<close>

definition keeps_id :: "(standings_row \<Rightarrow> standings_row) \<Rightarrow> bool" where
  "keeps_id f \<longleftrightarrow> (\<forall>r. sr_entry (f r) = sr_entry r)"

lemma keeps_id_rows [simp]:
  "keeps_id play_row" "keeps_id (goals_row x y)" "keeps_id (win_row k)" "keeps_id (draw_row k)"
  "keeps_id loss_row"
  by (simp_all add: keeps_id_def play_row_def goals_row_def win_row_def draw_row_def loss_row_def)

lemma ids_row_upd: "keeps_id f \<Longrightarrow> map sr_entry (row_upd i f rows) = map sr_entry rows"
  by (simp add: row_upd_def keeps_id_def map_upd)

lemma sum_row_upd:
  fixes g :: "standings_row \<Rightarrow> int"
  assumes "distinct (map sr_entry rows)" "i \<in> sr_entry ` set rows" "\<And>r. g (f r) = g r + k"
  shows "sum_list (map g (row_upd i f rows)) = sum_list (map g rows) + k"
  using assms(1,2)
proof (induction rows)
  case (Cons r rows)
  show ?case
  proof (cases "sr_entry r = i")
    case True
    with Cons.prems have "\<forall>x \<in> set rows. sr_entry x \<noteq> i"
      by (metis distinct.simps(2) image_eqI list.set_map list.simps(9))
    then have "row_upd i f rows = rows" unfolding row_upd_def by (intro upd_no_match)
    with True assms(3) show ?thesis by (simp add: row_upd_def)
  next
    case False
    with Cons show ?thesis by (simp add: row_upd_def)
  qed
qed simp

text \<open>Each row adds up, and so does the table.\<close>

definition row_adds_up :: "standings_row \<Rightarrow> bool" where
  "row_adds_up r \<longleftrightarrow> sr_points r = 3 * sr_wins r + sr_draws r \<and>
     sr_played r = sr_wins r + sr_draws r + sr_losses r"

definition table_adds_up :: "standings_row list \<Rightarrow> bool" where
  "table_adds_up rows \<longleftrightarrow> sum_list (map sr_wins rows) = sum_list (map sr_losses rows) \<and>
     sum_list (map sr_gf rows) = sum_list (map sr_ga rows)"

lemma row_upd_ids [simp]:
  assumes "keeps_id f"
  shows "map sr_entry (row_upd i f rows) = map sr_entry rows"
    "sr_entry ` set (row_upd i f rows) = sr_entry ` set rows"
  using ids_row_upd [OF assms, of i rows] by (simp, metis list.set_map)

lemma ball_row_upd:
  "(\<forall>r \<in> set (row_upd i f rows). P r) \<longleftrightarrow> (\<forall>r \<in> set rows. P (if sr_entry r = i then f r else r))"
  by (auto simp: row_upd_def ball_upd)

text \<open>What each row operation adds to each column.\<close>

lemma row_fields [simp]:
  "sr_entry (play_row r) = sr_entry r"
  "sr_entry (goals_row x y r) = sr_entry r"
  "sr_entry (win_row k r) = sr_entry r"
  "sr_entry (draw_row k r) = sr_entry r"
  "sr_entry (loss_row r) = sr_entry r"
  "sr_played (play_row r) = sr_played r + 1"
  "sr_wins (play_row r) = sr_wins r"
  "sr_draws (play_row r) = sr_draws r"
  "sr_losses (play_row r) = sr_losses r"
  "sr_gf (play_row r) = sr_gf r"
  "sr_ga (play_row r) = sr_ga r"
  "sr_points (play_row r) = sr_points r"
  "sr_played (goals_row x y r) = sr_played r"
  "sr_wins (goals_row x y r) = sr_wins r"
  "sr_draws (goals_row x y r) = sr_draws r"
  "sr_losses (goals_row x y r) = sr_losses r"
  "sr_gf (goals_row x y r) = sr_gf r + x"
  "sr_ga (goals_row x y r) = sr_ga r + y"
  "sr_points (goals_row x y r) = sr_points r"
  "sr_played (win_row k r) = sr_played r"
  "sr_wins (win_row k r) = sr_wins r + 1"
  "sr_draws (win_row k r) = sr_draws r"
  "sr_losses (win_row k r) = sr_losses r"
  "sr_gf (win_row k r) = sr_gf r"
  "sr_ga (win_row k r) = sr_ga r"
  "sr_points (win_row k r) = sr_points r + k"
  "sr_played (draw_row k r) = sr_played r"
  "sr_wins (draw_row k r) = sr_wins r"
  "sr_draws (draw_row k r) = sr_draws r + 1"
  "sr_losses (draw_row k r) = sr_losses r"
  "sr_gf (draw_row k r) = sr_gf r"
  "sr_ga (draw_row k r) = sr_ga r"
  "sr_points (draw_row k r) = sr_points r + k"
  "sr_played (loss_row r) = sr_played r"
  "sr_wins (loss_row r) = sr_wins r"
  "sr_draws (loss_row r) = sr_draws r"
  "sr_losses (loss_row r) = sr_losses r + 1"
  "sr_gf (loss_row r) = sr_gf r"
  "sr_ga (loss_row r) = sr_ga r"
  "sr_points (loss_row r) = sr_points r"
  by (simp_all add: play_row_def goals_row_def win_row_def draw_row_def loss_row_def)

text \<open>The columns whose totals are compared.\<close>

lemma table_sums:
  assumes "distinct (map sr_entry rows)" "i \<in> sr_entry ` set rows"
  shows
    "sum_list (map sr_wins (row_upd i play_row rows)) = sum_list (map sr_wins rows)"
    "sum_list (map sr_wins (row_upd i (goals_row x y) rows)) = sum_list (map sr_wins rows)"
    "sum_list (map sr_wins (row_upd i (win_row k) rows)) = sum_list (map sr_wins rows) + 1"
    "sum_list (map sr_wins (row_upd i (draw_row k) rows)) = sum_list (map sr_wins rows)"
    "sum_list (map sr_wins (row_upd i loss_row rows)) = sum_list (map sr_wins rows)"
    "sum_list (map sr_losses (row_upd i play_row rows)) = sum_list (map sr_losses rows)"
    "sum_list (map sr_losses (row_upd i (goals_row x y) rows)) = sum_list (map sr_losses rows)"
    "sum_list (map sr_losses (row_upd i (win_row k) rows)) = sum_list (map sr_losses rows)"
    "sum_list (map sr_losses (row_upd i (draw_row k) rows)) = sum_list (map sr_losses rows)"
    "sum_list (map sr_losses (row_upd i loss_row rows)) = sum_list (map sr_losses rows) + 1"
    "sum_list (map sr_gf (row_upd i play_row rows)) = sum_list (map sr_gf rows)"
    "sum_list (map sr_gf (row_upd i (goals_row x y) rows)) = sum_list (map sr_gf rows) + x"
    "sum_list (map sr_gf (row_upd i (win_row k) rows)) = sum_list (map sr_gf rows)"
    "sum_list (map sr_gf (row_upd i (draw_row k) rows)) = sum_list (map sr_gf rows)"
    "sum_list (map sr_gf (row_upd i loss_row rows)) = sum_list (map sr_gf rows)"
    "sum_list (map sr_ga (row_upd i play_row rows)) = sum_list (map sr_ga rows)"
    "sum_list (map sr_ga (row_upd i (goals_row x y) rows)) = sum_list (map sr_ga rows) + y"
    "sum_list (map sr_ga (row_upd i (win_row k) rows)) = sum_list (map sr_ga rows)"
    "sum_list (map sr_ga (row_upd i (draw_row k) rows)) = sum_list (map sr_ga rows)"
    "sum_list (map sr_ga (row_upd i loss_row rows)) = sum_list (map sr_ga rows)"
  by (rule sum_row_upd [OF assms, THEN trans], simp, simp)+

lemma football_match_keeps:
  assumes "football_match m (rows, t) = (rows', t')" "distinct (map sr_entry rows)"
    and "\<forall>r \<in> set rows. row_adds_up r" "table_adds_up rows"
  shows "map sr_entry rows' = map sr_entry rows \<and> (\<forall>r \<in> set rows'. row_adds_up r) \<and> table_adds_up rows'"
proof (cases "counted rows m")
  case None
  with assms show ?thesis by (simp add: football_match_def)
next
  case (Some p)
  obtain h a where p: "p = (h, a)" by fastforce
  from Some p have ids: "h \<in> sr_entry ` set rows" "a \<in> sr_entry ` set rows"
    by (auto simp: counted_def split: if_splits option.splits)
  have table: "table_adds_up rows'"
    using assms(1,2,4) Some p ids
    by (auto simp: football_match_def Let_def table_adds_up_def table_sums split: if_splits)
  let ?hs = "m_home_score m" and ?as = "m_away_score m"
  let ?rows = "row_upd a (goals_row ?as ?hs) (row_upd h (goals_row ?hs ?as) (row_upd a play_row (row_upd h play_row rows)))"
  consider "rows' = row_upd a loss_row (row_upd h (win_row 3) ?rows)"
    | "rows' = row_upd h loss_row (row_upd a (win_row 3) ?rows)"
    | "rows' = row_upd a (draw_row 1) (row_upd h (draw_row 1) ?rows)"
    using assms(1) Some p by (auto simp: football_match_def Let_def split: if_splits)
  then have "\<forall>r \<in> set rows'. row_adds_up r"
    by cases (simp only: ball_row_upd, intro ballI,
      case_tac "sr_entry r = h"; case_tac "sr_entry r = a"; use assms(3) in \<open>simp add: row_adds_up_def\<close>)+
  moreover have "map sr_entry rows' = map sr_entry rows"
    using assms(1) Some p by (auto simp: football_match_def Let_def split: if_splits)
  ultimately show ?thesis using table by simp
qed

lemma football_matches_keep:
  assumes "fold football_match ms (rows, t) = (rows', t')" "distinct (map sr_entry rows)"
    and "\<forall>r \<in> set rows. row_adds_up r" "table_adds_up rows"
  shows "map sr_entry rows' = map sr_entry rows \<and> (\<forall>r \<in> set rows'. row_adds_up r) \<and> table_adds_up rows'"
  using assms
proof (induction ms arbitrary: rows t)
  case (Cons m ms)
  obtain rows1 t1 where m: "football_match m (rows, t) = (rows1, t1)" by fastforce
  note one = football_match_keeps [OF m Cons.prems(2-4)]
  from Cons.prems(1) m have "fold football_match ms (rows1, t1) = (rows', t')" by simp
  from Cons.IH [OF this] one Cons.prems(2) show ?case by simp
qed simp

lemma table_adds_up_perm: "mset rows = mset rows' \<Longrightarrow> table_adds_up rows = table_adds_up rows'"
  unfolding table_adds_up_def by (metis mset_map sum_mset_sum_list)

definition row_key :: "standings_row \<Rightarrow> int list" where
  "row_key r = [sr_points r, sr_gd r, sr_gf r]"

lemma football_less_key:
  "row_key x > row_key y \<Longrightarrow> football_less t x y" "football_less t x y \<Longrightarrow> row_key x \<ge> row_key y"
  by (auto simp: row_key_def football_less_def split: if_splits)

text \<open>The table as it leaves \<open>football_standings\<close>, seen through a column that neither the ranks nor the
  goal differences touch.\<close>

lemma football_column:
  assumes "\<And>xs. mset (visit xs) = mset xs" "\<And>r k. f (r\<lparr>sr_rank := k\<rparr>) = f r"
  shows "mset (map f (number_rows (go_sort lt (map g (visit rows))))) = mset (map (f \<circ> g) rows)"
proof -
  have "mset (map f (number_rows (go_sort lt (map g (visit rows))))) = image_mset f (mset (map g (visit rows)))"
    by (simp add: map_number_rows [OF assms(2)] del: mset_map add: mset_map [of f])
  also have "\<dots> = mset (map (f \<circ> g) rows)" by (simp add: assms(1) multiset.map_comp)
  finally show ?thesis .
qed

theorem football_table_adds_up:
  assumes perm: "\<And>xs. mset (visit xs) = mset xs" and tab: "tab = football_standings visit ms es"
  shows "mset (map sr_entry tab) = mset (map sr_entry (start_rows es)) \<and>
    (\<forall>r \<in> set tab. sr_points r = 3 * sr_wins r + sr_draws r \<and>
       sr_played r = sr_wins r + sr_draws r + sr_losses r \<and> sr_gd r = sr_gf r - sr_ga r) \<and>
    sum_list (map sr_wins tab) = sum_list (map sr_losses tab) \<and> sum_list (map sr_gd tab) = 0 \<and>
    map sr_rank tab = map (\<lambda>i. int i + 1) [0..<length tab] \<and>
    sorted_wrt (\<lambda>x y. row_key x \<ge> row_key y) tab"
proof -
  obtain rows t where f: "fold football_match ms (start_rows es, \<lambda>_ _. 0) = (rows, t)" by fastforce
  have start: "\<forall>r \<in> set (start_rows es). row_adds_up r"
    by (rule all_start_rows) (simp add: row_adds_up_def new_row_def)
  have "\<forall>r \<in> set (start_rows es). sr_wins r = 0 \<and> sr_losses r = 0 \<and> sr_gf r = 0 \<and> sr_ga r = 0"
    by (rule all_start_rows) (simp add: new_row_def)
  then have "table_adds_up (start_rows es)"
    unfolding table_adds_up_def by (metis (mono_tags, lifting) map_eq_conv)
  from football_matches_keep [OF f distinct_start_rows start this]
  have rows: "map sr_entry rows = map sr_entry (start_rows es)" "\<forall>r \<in> set rows. row_adds_up r" "table_adds_up rows"
    by simp_all
  let ?g = "\<lambda>r. r\<lparr>sr_gd := sr_gf r - sr_ga r\<rparr>"
  let ?s = "go_sort (football_less t) (map ?g (visit rows))"
  have tab: "tab = number_rows ?s" by (simp add: tab football_standings_def f)
  note col = football_column [of visit, OF perm, where lt = "football_less t" and g = ?g and rows = rows, folded tab]
  have sums: "sum_list (map h tab) = sum_list (map (h \<circ> ?g) rows)"
    if "\<And>r k. h (r\<lparr>sr_rank := k\<rparr>) = h r" for h :: "standings_row \<Rightarrow> int"
    using col [of h, OF that] by (metis sum_mset_sum_list)
  have "mset (map sr_entry tab) = mset (map sr_entry (start_rows es))"
    using col [of sr_entry] rows(1) by (simp add: comp_def)
  moreover have "sum_list (map sr_wins tab) = sum_list (map sr_losses tab)"
    using sums [of sr_wins] sums [of sr_losses] rows(3) by (simp add: table_adds_up_def comp_def)
  moreover have "sum_list (map sr_gd tab) = 0"
    using sums [of sr_gd] rows(3) by (simp add: table_adds_up_def comp_def sum_list_subtractf)
  moreover have "\<forall>r \<in> set tab. sr_points r = 3 * sr_wins r + sr_draws r \<and>
       sr_played r = sr_wins r + sr_draws r + sr_losses r \<and> sr_gd r = sr_gf r - sr_ga r"
  proof
    fix r assume "r \<in> set tab"
    then obtain i where i: "i < length ?s" "r = (?s ! i)\<lparr>sr_rank := int i + 1\<rparr>"
      unfolding tab by (auto simp: in_set_conv_nth number_rows_nth)
    have "?s ! i \<in> set (map ?g (visit rows))" using nth_mem [OF i(1)] by (simp only: set_go_sort)
    then obtain x where x: "x \<in> set (visit rows)" "?s ! i = ?g x" by auto
    then have "x \<in> set rows" using perm by (metis set_mset_mset)
    then have "row_adds_up x" using rows(2) by blast
    then show "sr_points r = 3 * sr_wins r + sr_draws r \<and>
       sr_played r = sr_wins r + sr_draws r + sr_losses r \<and> sr_gd r = sr_gf r - sr_ga r"
      unfolding i(2) x(2) by (simp add: row_adds_up_def)
  qed
  moreover have "map sr_rank tab = map (\<lambda>i. int i + 1) [0..<length tab]"
    unfolding tab by (rule nth_equalityI) (simp_all add: number_rows_nth)
  moreover have "sorted_wrt (\<lambda>x y. row_key x \<ge> row_key y) tab"
  proof -
    have "sorted_wrt (\<lambda>x y. row_key x \<ge> row_key y) ?s"
      by (rule go_sort_by_key) (fact football_less_key)+
    then show ?thesis unfolding tab by (rule sorted_number_rows) (simp add: row_key_def)
  qed
  ultimately show ?thesis by blast
qed

text \<open>Three teams, level on points, goal difference and goals, each of which beat one of the others:
  the head-to-head step is a cycle, and the table follows the order in which the map was iterated.\<close>

definition demo_entry :: "uuid \<Rightarrow> string \<Rightarrow> participant_entry" where
  "demo_entry i name = \<lparr> pe_id = i, pe_org = 1, pe_event = 2, pe_category = None, pe_ticket = None,
     pe_team = None, pe_type = EntTeam, pe_name = name, pe_code = None, pe_seed = None, pe_lane = None,
     pe_heat = None, pe_status = StActive \<rparr>"

definition demo_match :: "uuid \<Rightarrow> uuid \<Rightarrow> int \<Rightarrow> int \<Rightarrow> match_row" where
  "demo_match h a hs as = \<lparr> m_id = 0, m_org = 1, m_event = 2, m_stage = 4, m_round = 1, m_number = 1,
     m_home_team = None, m_away_team = None, m_home = Some h, m_away = Some a, m_court = None,
     m_home_score = hs, m_away_score = as, m_status = MsCompleted, m_winner = None, m_details = [] \<rparr>"

theorem football_order_depends_on_iteration:
  "\<exists>ms es. map sr_entry (football_standings (\<lambda>rows. rows) ms es) \<noteq> map sr_entry (football_standings rev ms es)"
proof (intro exI)
  let ?ms = "[demo_match 1 2 1 0, demo_match 2 3 1 0, demo_match 3 1 1 0]"
  let ?es = "[demo_entry 1 ''Ayu'', demo_entry 2 ''Budi'', demo_entry 3 ''Cahya'']"
  show "map sr_entry (football_standings (\<lambda>rows. rows) ?ms ?es) \<noteq> map sr_entry (football_standings rev ?ms ?es)"
    by code_simp
qed

section \<open>Badminton\<close>

text \<open>Both sides satisfy the condition only at scores no game can reach, which the code counts for the
  home side: 30 on one side and 30 or more on the other.\<close>

lemma game_won_one_side: "game_won p q \<Longrightarrow> game_won q p \<Longrightarrow> p = 30 \<and> 30 \<le> q \<or> q = 30 \<and> 30 \<le> p"
  by (auto simp: game_won_def)

lemma games_won_counts:
  "games_won gs = (length (filter (\<lambda>g. game_won (sd_home g) (sd_away g)) gs),
     length (filter (\<lambda>g. \<not> game_won (sd_home g) (sd_away g) \<and> game_won (sd_away g) (sd_home g)) gs))"
  by (induction gs) auto

theorem badminton_match_rules:
  "mo_status (evaluate_badminton_match gs) = MsCompleted \<longleftrightarrow>
     2 \<le> length (filter (\<lambda>g. game_won (sd_home g) (sd_away g)) gs) \<or>
     2 \<le> length (filter (\<lambda>g. \<not> game_won (sd_home g) (sd_away g) \<and> game_won (sd_away g) (sd_home g)) gs)"
  by (simp add: evaluate_badminton_match_def games_won_counts)

lemma mset_buckets: "mset (concat (buckets key xs)) = mset xs"
proof -
  have split: "distinct ks \<Longrightarrow> mset (concat (map (\<lambda>k. filter (\<lambda>x. key x = k) xs) ks)) =
      mset (filter (\<lambda>x. key x \<in> set ks) xs)" for ks
  proof (induction ks)
    case (Cons k ks)
    have "mset (filter (\<lambda>x. key x \<in> set (k # ks)) xs) =
        mset (filter (\<lambda>x. key x = k) xs) + mset (filter (\<lambda>x. key x \<in> set ks) xs)"
      using Cons.prems by (induction xs) auto
    with Cons show ?case by simp
  qed simp
  have "filter (\<lambda>x. key x \<in> set (rev (sort (remdups (map key xs))))) xs = xs"
    by (simp add: filter_id_conv)
  with split [of "rev (sort (remdups (map key xs)))"] show ?thesis by (simp add: buckets_def)
qed

lemma mset_concat_map:
  "(\<And>g. mset (f g) = mset g) \<Longrightarrow> mset (concat (map f gs)) = mset (concat gs)"
  by (induction gs) simp_all

lemma mset_resolve_pair: "mset (resolve_pair c a b) = {#a, b#}"
  by (simp add: resolve_pair_def Let_def)

lemma mset_resolve_rally_group: "mset (resolve_rally_group c g) = mset g"
  by (simp add: resolve_rally_group_def mset_resolve_pair split: list.split)

lemma mset_resolve_game_group: "mset (resolve_game_group c g) = mset g"
  by (simp add: resolve_game_group_def mset_resolve_pair mset_concat_map [OF mset_resolve_rally_group]
      mset_buckets split: list.split)

lemma mset_resolve_tied_group: "mset (resolve_tied_group c g) = mset g"
  by (simp add: resolve_tied_group_def mset_resolve_pair mset_concat_map [OF mset_resolve_game_group]
      mset_buckets split: list.split)

text \<open>The resolution only reorders: every entry keeps exactly one row, ordered by matches won.\<close>

lemma sorted_buckets:
  "(\<And>g. set (f g) = set g) \<Longrightarrow> sorted_wrt (\<lambda>x y. key x \<ge> key y) (concat (map f (buckets key xs)))"
proof -
  assume f: "\<And>g. set (f g) = set g"
  have "sorted_wrt (>) ks \<Longrightarrow>
      sorted_wrt (\<lambda>x y. key x \<ge> key y) (concat (map f (map (\<lambda>k. filter (\<lambda>x. key x = k) xs) ks)))" for ks
  proof (induction ks)
    case (Cons k ks)
    have "sorted_wrt (\<lambda>x y. key x \<ge> key y) (f (filter (\<lambda>x. key x = k) xs))"
    proof -
      have "\<forall>x \<in> set (f (filter (\<lambda>x. key x = k) xs)). key x = k" by (simp add: f)
      then show ?thesis unfolding sorted_wrt_iff_nth_less by (metis less_trans nth_mem order_refl)
    qed
    with Cons show ?case by (auto simp: sorted_wrt_append f)
  qed simp
  moreover have "sorted_wrt (>) (rev (sort (remdups (map key xs))))"
    by (simp add: sorted_wrt_rev strict_sorted_iff)
  ultimately show ?thesis unfolding buckets_def by blast
qed

theorem badminton_table_is_ordered:
  assumes "\<And>xs. mset (visit xs) = mset xs" and tab: "tab = badminton_standings visit ms es"
  shows "mset (map sr_entry tab) = mset (map sr_entry (bw_rows (badminton_counts ms es))) \<and>
    sorted_wrt (\<lambda>x y. sr_points x \<ge> sr_points y) tab"
proof -
  let ?c = "badminton_counts ms es"
  let ?rows = "visit (map (with_metrics ?c) (bw_rows ?c))"
  let ?s = "concat (map (resolve_tied_group ?c) (buckets sr_points ?rows))"
  have tab: "tab = number_rows ?s" by (simp add: tab badminton_standings_def Let_def)
  have "mset ?s = mset ?rows" by (simp add: mset_concat_map [OF mset_resolve_tied_group] mset_buckets)
  then have "mset (map sr_entry ?s) = mset (map sr_entry (map (with_metrics ?c) (bw_rows ?c)))"
    using assms(1) by (simp add: multiset.map_comp)
  then have "mset (map sr_entry tab) = mset (map sr_entry (bw_rows ?c))"
    by (simp add: tab map_number_rows multiset.map_comp comp_def with_metrics_def)
  moreover have "sorted_wrt (\<lambda>x y. sr_points x \<ge> sr_points y) tab"
    unfolding tab
    by (rule sorted_number_rows, rule sorted_buckets) (simp_all add: mset_eq_setD [OF mset_resolve_tied_group])
  ultimately show ?thesis by blast
qed

section \<open>The peloton\<close>

text \<open>The rider whose time the rider at \<open>i\<close> is given: the first of the riders that follow one
  another without a gap above the limit.\<close>

fun bunch_leader :: "int \<Rightarrow> int list \<Rightarrow> nat \<Rightarrow> nat" where
  "bunch_leader gap ts 0 = 0"
| "bunch_leader gap ts (Suc i) =
     (if int64 (ts ! Suc i - ts ! i) \<le> gap then bunch_leader gap ts i else Suc i)"

lemma bunch_leader_Cons:
  "Suc i < length ts \<Longrightarrow> bunch_leader gap (t # ts) (Suc i) =
    (if bunch_leader gap (t # ts) 1 = 0 \<and> bunch_leader gap ts i = 0 then 0 else Suc (bunch_leader gap ts i))"
  by (induction i) auto

lemma bunch_nth:
  "i < length ts \<Longrightarrow> bunch gap lead prev ts ! i =
    (let j = bunch_leader gap (prev # ts) (Suc i) in if j = 0 then lead else (prev # ts) ! j)"
proof (induction ts arbitrary: i lead prev)
  case (Cons t ts)
  show ?case
  proof (cases i)
    case 0
    then show ?thesis by simp
  next
    case (Suc k)
    have lead: "bunch_leader gap (prev # t # ts) (Suc (Suc m)) =
        (let j = bunch_leader gap (t # ts) (Suc m) in
         if j = 0 then (if int64 (t - prev) \<le> gap then 0 else 1) else Suc j)" for m
      by (induction m) auto
    from Cons.prems Suc have "k < length ts" by simp
    with Cons.IH [OF this] Suc show ?thesis by (auto simp: lead Let_def simp del: bunch_leader.simps)
  qed
qed simp

theorem peloton_times_of_leaders:
  assumes "i < length ts"
  shows "peloton_grouping ts gap ! i = ts ! bunch_leader (if gap \<le> 0 then 1000 else gap) ts i"
proof (cases ts)
  case (Cons t us)
  show ?thesis
  proof (cases i)
    case (Suc k)
    with assms Cons have "k < length us" by simp
    from bunch_nth [OF this] Cons Suc show ?thesis
      by (auto simp: peloton_grouping_def Let_def simp del: bunch_leader.simps split: if_splits)
  qed (simp add: Cons peloton_grouping_def)
qed (use assms in simp)

lemma length_bunch [simp]: "length (bunch gap lead prev ts) = length ts"
  by (induction ts arbitrary: lead prev) simp_all

lemma length_peloton [simp]: "length (peloton_grouping ts gap) = length ts"
  by (simp add: peloton_grouping_def split: list.split)

section \<open>Competition ranks\<close>

lemma result_less_key:
  "of_bool (valid_finisher (rv_status x)) > (of_bool (valid_finisher (rv_status y)) :: int) \<Longrightarrow> result_less st x y"
  "result_less st x y \<Longrightarrow> of_bool (valid_finisher (rv_status x)) \<ge> (of_bool (valid_finisher (rv_status y)) :: int)"
  by (auto simp: result_less_def split: if_splits)

lemma rank_loop_keeps: "map (\<lambda>r. r\<lparr>rv_rank := None\<rparr>) (rank_loop st prev cur rs) = map (\<lambda>r. r\<lparr>rv_rank := None\<rparr>) rs"
  by (induction st prev cur rs rule: rank_loop.induct) (simp_all add: Let_def)

lemma rank_loop_unranked:
  "r \<in> set (rank_loop st prev cur rs) \<Longrightarrow> \<not> valid_finisher (rv_status r) \<Longrightarrow> rv_rank r = None"
  by (induction st prev cur rs rule: rank_loop.induct) (auto simp: Let_def split: if_splits)

text \<open>Ranks are those of competition ranking: a finisher has the rank of the finisher before it when
  both have the same metric, and otherwise its position.\<close>

lemma rank_loop_nth:
  "Suc i < length rs \<Longrightarrow> \<forall>r \<in> set (take (Suc (Suc i)) rs). valid_finisher (rv_status r) \<Longrightarrow>
    rv_rank (rank_loop st prev cur rs ! Suc i) =
      (if equal_metric (rank_loop st prev cur rs ! i) (rs ! Suc i) st
       then rv_rank (rank_loop st prev cur rs ! i) else Some (cur + int i + 1))"
proof (induction rs arbitrary: i prev cur)
  case (Cons r rs)
  from Cons.prems have r: "valid_finisher (rv_status r)" by simp
  show ?case
  proof (cases i)
    case 0
    with Cons.prems obtain q qs where rs: "rs = q # qs" by (cases rs) auto
    with Cons.prems 0 have "valid_finisher (rv_status q)" by simp
    with r rs 0 show ?thesis by (auto simp: Let_def split: option.split)
  next
    case (Suc k)
    with Cons.prems have "Suc k < length rs" "\<forall>r \<in> set (take (Suc (Suc k)) rs). valid_finisher (rv_status r)"
      by simp_all
    from Cons.IH [OF this] Suc r show ?thesis by (simp add: Let_def algebra_simps)
  qed
qed simp

lemma sorted_wrt_map_ranks:
  "map (\<lambda>r. r\<lparr>rv_rank := None\<rparr>) rs = map (\<lambda>r. r\<lparr>rv_rank := None\<rparr>) qs \<Longrightarrow>
    sorted_wrt (\<lambda>x y. valid_finisher (rv_status y) \<longrightarrow> valid_finisher (rv_status x)) (map (\<lambda>r. r\<lparr>rv_rank := None\<rparr>) qs) \<Longrightarrow>
    sorted_wrt (\<lambda>x y. valid_finisher (rv_status y) \<longrightarrow> valid_finisher (rv_status x)) rs"
  by (drule sym) (simp add: sorted_wrt_map)

theorem rank_results_competition_ranking:
  "mset (map (\<lambda>r. r\<lparr>rv_rank := None\<rparr>) (rank_results rs st)) = mset (map (\<lambda>r. r\<lparr>rv_rank := None\<rparr>) rs) \<and>
   sorted_wrt (\<lambda>x y. valid_finisher (rv_status y) \<longrightarrow> valid_finisher (rv_status x)) (rank_results rs st) \<and>
   (\<forall>r \<in> set (rank_results rs st). \<not> valid_finisher (rv_status r) \<longrightarrow> rv_rank r = None)"
proof -
  let ?s = "go_sort (result_less st) rs"
  let ?v = "\<lambda>r. of_bool (valid_finisher (rv_status r)) :: int"
  have "sorted_wrt (\<lambda>x y. ?v x \<ge> ?v y) ?s" by (rule go_sort_by_key) (fact result_less_key)+
  then have "sorted_wrt (\<lambda>x y. valid_finisher (rv_status y) \<longrightarrow> valid_finisher (rv_status x))
      (map (\<lambda>r. r\<lparr>rv_rank := None\<rparr>) ?s)"
    by (simp add: sorted_wrt_map)
  then have "sorted_wrt (\<lambda>x y. valid_finisher (rv_status y) \<longrightarrow> valid_finisher (rv_status x)) (rank_results rs st)"
    unfolding rank_results_def by (rule sorted_wrt_map_ranks [OF rank_loop_keeps])
  moreover have "mset (map (\<lambda>r. r\<lparr>rv_rank := None\<rparr>) (rank_results rs st)) = mset (map (\<lambda>r. r\<lparr>rv_rank := None\<rparr>) rs)"
    unfolding rank_results_def rank_loop_keeps by simp
  ultimately show ?thesis unfolding rank_results_def using rank_loop_unranked by blast
qed

end
