(* ===== verification/Fixtures.thy ===== *)
theory Fixtures
  imports Scoring "HOL-Library.While_Combinator"
begin

text \<open>
  Fixture generation (\<open>modules/competitions/fixtures.go\<close>): the circle method for round robins, single
  elimination brackets with byes, and the lanes of swimming heats. A nil entry is \<open>None\<close>.
\<close>

section \<open>Fixtures\<close>

record fixture =
  fx_round :: nat
  fx_number :: nat
  fx_home :: "uuid option"
  fx_away :: "uuid option"
  fx_source_home :: nat
  fx_source_away :: nat
  fx_bye :: bool
  fx_winner :: "uuid option"
  fx_status :: match_status

definition scheduled :: "nat \<Rightarrow> nat \<Rightarrow> uuid option \<Rightarrow> uuid option \<Rightarrow> fixture" where
  "scheduled rnd num h a = \<lparr> fx_round = rnd, fx_number = num, fx_home = h, fx_away = a,
     fx_source_home = 0, fx_source_away = 0, fx_bye = False, fx_winner = None, fx_status = MsScheduled \<rparr>"

section \<open>Round robin\<close>

text \<open>One round: the pairs of opposite places, a pair with the dummy left out, and the number of the
  next match.\<close>

fun rr_round :: "nat \<Rightarrow> (uuid option \<times> uuid option) list \<Rightarrow> nat \<Rightarrow> fixture list \<times> nat" where
  "rr_round rnd [] num = ([], num)"
| "rr_round rnd ((h, a) # ps) num =
     (if h = None \<or> a = None then rr_round rnd ps num
      else case rr_round rnd ps (num + 1) of (fs, k) \<Rightarrow>
        ((if rnd mod 2 = 1 then scheduled rnd num h a else scheduled rnd num a h) # fs, k))"

definition opposite :: "'a list \<Rightarrow> ('a \<times> 'a) list" where
  "opposite ts = map (\<lambda>i. (ts ! i, ts ! (length ts - 1 - i))) [0..<length ts div 2]"

text \<open>The first place is fixed, the others move on by one.\<close>

definition rotate_places :: "'a list \<Rightarrow> 'a list" where
  "rotate_places ts = ts ! 0 # ts ! (length ts - 1) # take (length ts - 2) (drop 1 ts)"

fun rr_rounds :: "nat \<Rightarrow> nat \<Rightarrow> uuid option list \<Rightarrow> nat \<Rightarrow> fixture list" where
  "rr_rounds 0 rnd ts num = []"
| "rr_rounds (Suc left) rnd ts num =
     (case rr_round rnd (opposite ts) num of (fs, k) \<Rightarrow>
        fs @ rr_rounds left (rnd + 1) (rotate_places ts) k)"

definition rr_teams :: "uuid list \<Rightarrow> uuid option list" where
  "rr_teams es = map Some es @ (if length es mod 2 \<noteq> 0 then [None] else [])"

definition generate_round_robin :: "uuid list \<Rightarrow> fixture list" where
  "generate_round_robin es =
     (if length es < 2 then [] else rr_rounds (length (rr_teams es) - 1) 1 (rr_teams es) 1)"

section \<open>Single elimination\<close>

fun weave :: "nat \<Rightarrow> nat list \<Rightarrow> nat list" where
  "weave p [] = []"
| "weave p (v # vs) = v # (p + 1 - v) # weave p vs"

function bracket_seed_order :: "nat \<Rightarrow> nat list" where
  "bracket_seed_order p = (if p \<le> 2 then [1, 2] else weave p (bracket_seed_order (p div 2)))"
  by pat_completeness auto
termination
  by (relation "measure id") auto

declare bracket_seed_order.simps [simp del]

text \<open>\<open>for powerOf2 < n { powerOf2 *= 2 }\<close>.\<close>

function power_above :: "nat \<Rightarrow> nat \<Rightarrow> nat" where
  "power_above n p = (if 0 < p \<and> p < n then power_above n (p * 2) else p)"
  by pat_completeness auto
termination
  by (relation "measure (\<lambda>(n, p). n - p)") auto

declare power_above.simps [simp del]

text \<open>\<open>for temp := p; temp > 1; temp /= 2 { totalRounds++ }\<close>.\<close>

function count_rounds :: "nat \<Rightarrow> nat" where
  "count_rounds p = (if 1 < p then count_rounds (p div 2) + 1 else 0)"
  by pat_completeness auto
termination
  by (relation "measure id") auto

declare count_rounds.simps [simp del]

definition seed_at :: "uuid list \<Rightarrow> nat \<Rightarrow> uuid option" where
  "seed_at es k = (if 1 \<le> k \<and> k \<le> length es then Some (es ! (k - 1)) else None)"

definition first_round_match :: "uuid list \<Rightarrow> nat list \<Rightarrow> nat \<Rightarrow> fixture" where
  "first_round_match es ord m =
     (let h = seed_at es (ord ! (2 * (m - 1))); a = seed_at es (ord ! (2 * (m - 1) + 1));
          f = scheduled 1 m h a
      in if a = None \<and> h \<noteq> None then f\<lparr>fx_bye := True, fx_winner := h, fx_status := MsBye\<rparr> else f)"

text \<open>\<open>roundWinners\<close> holds the byes of the first round; the maps of later rounds stay empty.\<close>

definition round_winner :: "fixture list \<Rightarrow> nat \<Rightarrow> nat \<Rightarrow> uuid option" where
  "round_winner first rnd m =
     (if rnd = 1 then
        (case find (\<lambda>f. fx_number f = m \<and> fx_bye f) first of None \<Rightarrow> None | Some f \<Rightarrow> fx_winner f)
      else None)"

definition later_match :: "fixture list \<Rightarrow> nat \<Rightarrow> nat \<Rightarrow> fixture" where
  "later_match first rnd m =
     (scheduled rnd m (round_winner first (rnd - 1) (2 * m - 1)) (round_winner first (rnd - 1) (2 * m)))
       \<lparr>fx_source_home := 2 * m - 1, fx_source_away := 2 * m\<rparr>"

definition generate_single_elimination :: "uuid list \<Rightarrow> fixture list" where
  "generate_single_elimination es =
     (if length es < 2 then []
      else
        let p = power_above (length es) 2;
            first = map (first_round_match es (bracket_seed_order p)) [1..<p div 2 + 1]
        in first @ concat (map (\<lambda>rnd. map (later_match first rnd) [1..<p div 2 ^ rnd + 1])
             [2..<count_rounds p + 1]))"

section \<open>Swimming lanes\<close>

record swimmer_seed =
  sw_entry :: uuid
  sw_time :: int
  sw_heat :: int
  sw_lane :: nat

definition lane_order :: "int \<Rightarrow> nat list" where
  "lane_order lanes =
     (let lanes = (if lanes < 4 then 8 else lanes)
      in if 10 \<le> lanes then [5, 6, 4, 7, 3, 8, 2, 9, 1, 10]
         else if 8 \<le> lanes then [4, 5, 3, 6, 2, 7, 1, 8]
         else if 6 \<le> lanes then [3, 4, 2, 5, 1, 6] else [2, 3, 1, 4])"

definition seat_swimmer :: "nat list \<Rightarrow> nat \<Rightarrow> nat \<times> swimmer_seed \<Rightarrow> swimmer_seed" where
  "seat_swimmer ord heats x =
     (case x of (i, s) \<Rightarrow>
        let heat = int heats - int (i div length ord)
        in s\<lparr>sw_heat := (if heat < 1 then 1 else heat), sw_lane := ord ! (i mod length ord)\<rparr>)"

definition assign_aquatics_lanes :: "swimmer_seed list \<Rightarrow> int \<Rightarrow> swimmer_seed list" where
  "assign_aquatics_lanes seeds lanes =
     (if seeds = [] then []
      else
        let ord = lane_order lanes; sorted = go_sort (\<lambda>x y. sw_time x < sw_time y) seeds;
            heats = (length sorted + length ord - 1) div length ord
        in map (seat_swimmer ord heats) (enumerate 0 sorted))"

section \<open>The circle method\<close>

text \<open>Where the entry at place \<open>p\<close> of round \<open>r\<close> (from 0) stood at the start, for \<open>m + 1\<close> places.\<close>

definition place :: "nat \<Rightarrow> nat \<Rightarrow> nat \<Rightarrow> nat" where
  "place m r p = (if p = 0 then 0 else 1 + (p - 1 + r * (m - 1)) mod m)"

lemma length_rotate_places [simp]: "2 \<le> length ts \<Longrightarrow> length (rotate_places ts) = length ts"
  by (simp add: rotate_places_def)

lemma rotate_places_nth:
  assumes "2 \<le> length ts" "p < length ts"
  shows "rotate_places ts ! p = ts ! (if p = 0 then 0 else if p = 1 then length ts - 1 else p - 1)"
proof (cases p)
  case (Suc k)
  then show ?thesis using assms by (cases k) (simp_all add: rotate_places_def)
qed (simp add: rotate_places_def)

lemma length_rotations [simp]: "2 \<le> length ts \<Longrightarrow> length ((rotate_places ^^ r) ts) = length ts"
  by (induction r) simp_all

lemma rotations_nth:
  assumes "length ts = m + 1" "1 \<le> m" "p \<le> m"
  shows "(rotate_places ^^ r) ts ! p = ts ! place m r p"
  using assms(3)
proof (induction r arbitrary: p)
  case 0
  then show ?case using assms by (cases p) (simp_all add: place_def)
next
  case (Suc r)
  have len: "length ((rotate_places ^^ r) ts) = m + 1" using assms by simp
  have step: "(rotate_places ^^ Suc r) ts ! p =
      (rotate_places ^^ r) ts ! (if p = 0 then 0 else if p = 1 then m else p - 1)"
    using rotate_places_nth [of "(rotate_places ^^ r) ts" p] len assms Suc.prems by simp
  also have "\<dots> = ts ! place m r (if p = 0 then 0 else if p = 1 then m else p - 1)"
    using Suc by (intro Suc.IH) auto
  also have "place m r (if p = 0 then 0 else if p = 1 then m else p - 1) = place m (Suc r) p"
  proof -
    consider "p = 0" | "p = 1" | q where "p = Suc (Suc q)" by (metis One_nat_def not0_implies_Suc)
    then show ?thesis
    proof cases
      case 3
      have "Suc q + Suc r * (m - 1) = q + r * (m - 1) + m" using assms(2) by (cases m) simp_all
      then have "(Suc q + Suc r * (m - 1)) mod m = (q + r * (m - 1)) mod m" by (simp only: mod_add_self2)
      then show ?thesis by (simp add: 3 place_def)
    qed (use assms(2) in \<open>simp_all add: place_def\<close>)
  qed
  finally show ?case .
qed

lemma add_mod_inj:
  fixes a :: nat
  assumes "(a + c) mod m = (b + c) mod m" "a < m" "b < m"
  shows "a = b"
proof -
  have "x = y" if "x \<le> y" "y < m" "(x + c) mod m = (y + c) mod m" for x y :: nat
  proof -
    from that have "m dvd (y + c) - (x + c)" by (metis add_le_cancel_right mod_eq_dvd_iff_nat)
    then have "m dvd y - x" by simp
    with that(1,2) show ?thesis by (metis diff_diff_cancel dvd_imp_le diff_is_0_eq less_le_not_le diff_le_self
          le_trans not_gr_zero minus_nat.diff_0)
  qed
  with assms show ?thesis by (metis le_cases)
qed

lemma place_inj:
  assumes "place m r p = place m r q" "p \<le> m" "q \<le> m"
  shows "p = q"
proof (cases "p = 0 \<or> q = 0")
  case True
  with assms(1) show ?thesis by (auto simp: place_def split: if_splits)
next
  case False
  with assms have "(p - 1 + r * (m - 1)) mod m = (q - 1 + r * (m - 1)) mod m" by (simp add: place_def)
  moreover from False assms(2,3) have "p - 1 < m" "q - 1 < m" by auto
  ultimately have "p - 1 = q - 1" by (rule add_mod_inj)
  with False show ?thesis by auto
qed

lemma place_le: "p \<le> m \<Longrightarrow> place m r p \<le> m"
  by (cases m) (auto simp: place_def less_Suc_eq_le [symmetric])

text \<open>A round is determined by twice its number, modulo an odd number of places.\<close>

lemma round_inj:
  fixes r :: nat
  assumes "odd m" "r < m" "r' < m" "coprime k m" "k * r mod m = k * r' mod m"
  shows "r = r'"
proof -
  have "x = y" if "x \<le> y" "y < m" "k * x mod m = k * y mod m" for x y
  proof -
    from that have "m dvd k * y - k * x" by (metis mod_eq_dvd_iff_nat mult_le_mono2)
    then have "m dvd k * (y - x)" by (simp add: right_diff_distrib')
    with assms(4) have "m dvd y - x" by (metis coprime_commute coprime_dvd_mult_right_iff)
    with that(1,2) show ?thesis using nat_dvd_not_less [of "y - x" m] by force
  qed
  with assms show ?thesis by (metis le_cases)
qed

definition slot :: "nat \<Rightarrow> nat \<Rightarrow> nat \<Rightarrow> nat set" where
  "slot m r i = {place m r i, place m r (m - i)}"

lemma slot_sum:
  assumes "1 \<le> i" "i < m"
  shows "(place m r i + place m r (m - i)) mod m = (2 * (m - 1) * r) mod m"
proof -
  let ?x = "i - 1 + r * (m - 1)" and ?y = "m - i - 1 + r * (m - 1)"
  have "place m r i = 1 + ?x mod m" "place m r (m - i) = 1 + ?y mod m"
    using assms by (simp_all add: place_def)
  then have "(place m r i + place m r (m - i)) mod m = (1 + ?x mod m + (1 + ?y mod m)) mod m" by simp
  also have "\<dots> = (1 + ?x + (1 + ?y)) mod m" by (metis mod_add_eq mod_add_right_eq)
  also have "\<dots> = (2 + ?x + ?y) mod m" by (simp only: ac_simps one_add_one [symmetric])
  also have "2 + ?x + ?y = m + 2 * (m - 1) * r"
  proof -
    from assms obtain j d where "i = Suc j" "m = Suc (Suc j + d)"
      by (metis One_nat_def Suc_le_D less_imp_Suc_add add_Suc)
    then show ?thesis by (simp add: algebra_simps)
  qed
  finally show ?thesis by simp
qed

lemma coprime_two_round: "odd m \<Longrightarrow> coprime (2 * (m - 1)) m" for m :: nat
proof -
  assume m: "odd m"
  then have "coprime 2 m" by simp
  moreover have "coprime (m - 1) m" using m by (intro coprime_diff_one_left_nat) (simp add: odd_pos)
  ultimately show ?thesis by (simp only: coprime_mult_left_iff)
qed

lemma add_mod_cancel:
  fixes a :: nat
  assumes "(c + a) mod m = (c + b) mod m" "0 < m"
  shows "a mod m = b mod m"
proof (rule add_mod_inj)
  show "(a mod m + c) mod m = (b mod m + c) mod m"
    using assms(1) by (simp add: mod_add_left_eq mod_add_right_eq add.commute)
qed (use assms(2) in simp_all)

lemma slot_inj:
  assumes m: "odd m" and r: "r < m" "r' < m" and i: "2 * i < m" "2 * i' < m" and eq: "slot m r i = slot m r' i'"
  shows "r = r' \<and> i = i'"
proof -
  have zero: "0 \<in> slot m r i \<longleftrightarrow> i = 0" "0 \<in> slot m r' i' \<longleftrightarrow> i' = 0"
    using i by (auto simp: slot_def place_def)
  have "r = r'"
  proof (cases "i = 0")
    case True
    with zero eq have "i' = 0" by simp
    with True eq have "place m r m = place m r' m" by (auto simp: slot_def place_def doubleton_eq_iff split: if_splits)
    moreover have "place m q m = 1 + (m - 1 + (m - 1) * q) mod m" for q
      using m by (cases m) (simp_all add: place_def mult.commute)
    ultimately have "(m - 1 + (m - 1) * r) mod m = (m - 1 + (m - 1) * r') mod m" by simp
    then have "((m - 1) * r) mod m = ((m - 1) * r') mod m" by (rule add_mod_cancel [OF _ odd_pos [OF m]])
    moreover have "coprime (m - 1) m" using odd_pos [OF m] by (intro coprime_diff_one_left_nat)
    ultimately show ?thesis by (intro round_inj [OF m r])
  next
    case False
    with zero eq have "i' \<noteq> 0" by simp
    have "place m r i + place m r (m - i) = place m r' i' + place m r' (m - i')"
      using eq by (auto simp: slot_def doubleton_eq_iff)
    with slot_sum [of i m r] slot_sum [of i' m r'] False \<open>i' \<noteq> 0\<close> i
    have "(2 * (m - 1) * r) mod m = (2 * (m - 1) * r') mod m" by simp
    with round_inj [OF m r coprime_two_round [OF m]] show ?thesis .
  qed
  moreover have "i = i'"
  proof -
    from eq \<open>r = r'\<close> have "place m r i = place m r i' \<or> place m r i = place m r (m - i')"
      by (auto simp: slot_def doubleton_eq_iff)
    then have "i = i' \<or> i = m - i'" using place_inj [of m r i] i by auto
    with i show ?thesis by auto
  qed
  ultimately show ?thesis by blast
qed

lemma slot_card:
  assumes "odd m" "2 * i < m"
  shows "slot m r i \<subseteq> {0..m} \<and> card (slot m r i) = 2"
proof -
  have "place m r i \<noteq> place m r (m - i)" using place_inj [of m r i "m - i"] assms(2) by linarith
  moreover have "place m r i \<le> m" "place m r (m - i) \<le> m" using assms(2) by (simp_all add: place_le)
  ultimately show ?thesis by (simp add: slot_def)
qed

text \<open>All rounds together hold every pair of places exactly once.\<close>

definition slots :: "nat \<Rightarrow> nat set list" where
  "slots m = map (\<lambda>(r, i). slot m r i) (List.product [0..<m] [0..<(m + 1) div 2])"

lemma half_odd: "odd m \<Longrightarrow> i < (m + 1) div 2 \<longleftrightarrow> 2 * i < m" for m :: nat
  by presburger

lemma distinct_slots:
  assumes m: "odd m"
  shows "distinct (slots m)"
  unfolding slots_def distinct_map
proof (intro conjI inj_onI)
  show "distinct (List.product [0..<m] [0..<(m + 1) div 2])" by (simp add: distinct_product)
  fix p q assume pq: "p \<in> set (List.product [0..<m] [0..<(m + 1) div 2])"
    "q \<in> set (List.product [0..<m] [0..<(m + 1) div 2])" "(\<lambda>(r, i). slot m r i) p = (\<lambda>(r, i). slot m r i) q"
  obtain r i r' i' where [simp]: "p = (r, i)" "q = (r', i')" by (cases p, cases q)
  have "r < m" "r' < m" "2 * i < m" "2 * i' < m" "slot m r i = slot m r' i'"
    using pq half_odd [OF m] by simp_all
  then show "p = q" using slot_inj [OF m] by simp
qed

lemma set_slots:
  assumes "odd m"
  shows "set (slots m) = {S. S \<subseteq> {0..m} \<and> card S = 2}"
proof (rule card_subset_eq)
  show "finite {S. S \<subseteq> {0..m} \<and> card S = 2}" by simp
  show "set (slots m) \<subseteq> {S. S \<subseteq> {0..m} \<and> card S = 2}"
  proof
    fix S assume "S \<in> set (slots m)"
    then obtain r i where "S = slot m r i" "i < (m + 1) div 2" by (auto simp: slots_def)
    with slot_card [OF assms, of i r] half_odd [OF assms, of i] show "S \<in> {S. S \<subseteq> {0..m} \<and> card S = 2}" by blast
  qed
  have "card (set (slots m)) = length (slots m)" using distinct_slots [OF assms] by (rule distinct_card)
  also have "\<dots> = m * ((m + 1) div 2)" by (simp add: slots_def)
  also have "\<dots> = (m + 1) choose 2" using assms by (auto simp: choose_two elim!: oddE)
  also have "\<dots> = card {S. S \<subseteq> {0..m} \<and> card S = 2}" by (simp add: n_subsets)
  finally show "card (set (slots m)) = card {S. S \<subseteq> {0..m} \<and> card S = 2}" .
qed


section \<open>Every two entries meet once\<close>

lemma rr_round_pairs:
  "map (\<lambda>f. {fx_home f, fx_away f}) (fst (rr_round rnd ps num)) =
   filter (\<lambda>S. None \<notin> S) (map (\<lambda>(h, a). {h, a}) ps)"
  by (induction rnd ps num rule: rr_round.induct) (auto simp: scheduled_def split: prod.splits)

lemma opposite_slots:
  assumes "length ts = m + 1" "odd m"
  shows "map (\<lambda>(h, a). {h, a}) (opposite ((rotate_places ^^ r) ts)) =
    map ((\<lambda>S. (!) ts ` S) \<circ> slot m r) [0..<(m + 1) div 2]"
proof -
  have m: "1 \<le> m" using odd_pos [OF assms(2)] by simp
  have "{(rotate_places ^^ r) ts ! i, (rotate_places ^^ r) ts ! (m - i)} = (!) ts ` slot m r i" if "i \<le> m" for i
    using that by (simp add: slot_def rotations_nth [OF assms(1) m])
  with assms(1) m show ?thesis by (simp add: opposite_def)
qed

lemma rr_rounds_pairs:
  assumes "length ts = m + 1" "odd m"
  shows "map (\<lambda>f. {fx_home f, fx_away f}) (rr_rounds k rnd ((rotate_places ^^ r) ts) num) =
    filter (\<lambda>S. None \<notin> S) (concat (map (\<lambda>q. map ((\<lambda>S. (!) ts ` S) \<circ> slot m q) [0..<(m + 1) div 2]) [r..<r + k]))"
proof (induction k arbitrary: r rnd num)
  case (Suc k)
  obtain fs n where fs: "rr_round rnd (opposite ((rotate_places ^^ r) ts)) num = (fs, n)" by force
  have "rotate_places ((rotate_places ^^ r) ts) = (rotate_places ^^ Suc r) ts" by simp
  with fs have "rr_rounds (Suc k) rnd ((rotate_places ^^ r) ts) num =
      fs @ rr_rounds k (rnd + 1) ((rotate_places ^^ Suc r) ts) n" by simp
  moreover have "map (\<lambda>f. {fx_home f, fx_away f}) fs =
      filter (\<lambda>S. None \<notin> S) (map ((\<lambda>S. (!) ts ` S) \<circ> slot m r) [0..<(m + 1) div 2])"
    using rr_round_pairs [of rnd "opposite ((rotate_places ^^ r) ts)" num] fs
    by (simp only: opposite_slots [OF assms] fst_conv)
  moreover have "[r..<r + Suc k] = r # [Suc r..<Suc r + k]" by (simp add: upt_rec)
  ultimately show ?case
    using Suc.IH [of "rnd + 1" "Suc r" n] by (simp only: map_append concat.simps list.map filter_append)
qed simp

lemma map_product: "map (\<lambda>(x, y). f x y) (List.product xs ys) = concat (map (\<lambda>x. map (f x) ys) xs)"
  by (induction xs) (simp_all add: comp_def)

lemma round_robin_pairs:
  assumes "length ts = m + 1" "odd m"
  shows "map (\<lambda>f. {fx_home f, fx_away f}) (rr_rounds m 1 ts num) =
    filter (\<lambda>S. None \<notin> S) (map (\<lambda>S. (!) ts ` S) (slots m))"
  using rr_rounds_pairs [OF assms, of m 1 0 num] map_product [of "slot m" "[0..<m]" "[0..<(m + 1) div 2]"]
  by (simp add: slots_def map_concat comp_def)

lemma rr_teams_facts:
  assumes "distinct es" "2 \<le> length es"
  shows "distinct (rr_teams es)" "odd (length (rr_teams es) - 1)" "1 \<le> length (rr_teams es)"
    "set es = {e. Some e \<in> set (rr_teams es)}"
proof -
  show "distinct (rr_teams es)" using assms(1) by (auto simp: rr_teams_def distinct_map)
  show "odd (length (rr_teams es) - 1)" "1 \<le> length (rr_teams es)"
    using assms(2) by (auto simp: rr_teams_def)
  show "set es = {e. Some e \<in> set (rr_teams es)}" by (auto simp: rr_teams_def)
qed


text \<open>The image of the pair of places of two entries is the only pair of them.\<close>

lemma image_pair_iff:
  assumes "distinct ts" "S \<subseteq> {0..<length ts}" "i < length ts" "j < length ts"
  shows "(!) ts ` S = {ts ! i, ts ! j} \<longleftrightarrow> S = {i, j}"
proof -
  have "inj_on ((!) ts) {0..<length ts}" using assms(1) by (simp add: inj_on_nth)
  from inj_on_image_eq_iff [OF this assms(2), of "{i, j}"] assms(3,4) show ?thesis by simp
qed

lemma count_one_image:
  assumes "distinct ts" "\<And>S. S \<in> set Ss \<Longrightarrow> S \<subseteq> {0..<length ts}" "distinct Ss"
    "i < length ts" "j < length ts" "{i, j} \<in> set Ss"
  shows "length (filter (\<lambda>T. T = {ts ! i, ts ! j}) (map (\<lambda>S. (!) ts ` S) Ss)) = 1"
proof -
  have "filter (\<lambda>T. T = {ts ! i, ts ! j}) (map (\<lambda>S. (!) ts ` S) Ss) =
      map (\<lambda>S. (!) ts ` S) (filter (\<lambda>S. (!) ts ` S = {ts ! i, ts ! j}) Ss)"
    by (simp add: filter_map comp_def)
  also have "filter (\<lambda>S. (!) ts ` S = {ts ! i, ts ! j}) Ss = filter (\<lambda>S. S = {i, j}) Ss"
    using image_pair_iff [OF assms(1) assms(2) assms(4,5)] by (intro filter_cong) simp_all
  finally have "length (filter (\<lambda>T. T = {ts ! i, ts ! j}) (map (\<lambda>S. (!) ts ` S) Ss)) =
      length (filter (\<lambda>S. S = {i, j}) Ss)" by simp
  also have "\<dots> = card ({S. S = {i, j}} \<inter> set Ss)" by (rule distinct_length_filter [OF assms(3)])
  also have "{S. S = {i, j}} \<inter> set Ss = {{i, j}}" using assms(6) by blast
  also have "card {{i, j}} = 1" by simp
  finally show ?thesis .
qed

text \<open>C19: In a generated round robin any two different entrants meet exactly once, whatever their
  number.\<close>

theorem round_robin_every_pair_meets_once:
  assumes "distinct es" "a \<in> set es" "b \<in> set es" "a \<noteq> b"
  shows "length (filter (\<lambda>f. {fx_home f, fx_away f} = {Some a, Some b}) (generate_round_robin es)) = 1"
proof -
  have "card {a, b} \<le> card (set es)" using assms(2,3) by (intro card_mono) auto
  with assms(1,4) have len: "2 \<le> length es" by (simp add: distinct_card)
  let ?ts = "rr_teams es"
  let ?m = "length ?ts - 1"
  note ts = rr_teams_facts [OF assms(1) len]
  from ts(3) have m: "length ?ts = ?m + 1" by simp
  obtain i j where ij: "i < length ?ts" "j < length ?ts" "?ts ! i = Some a" "?ts ! j = Some b"
    using assms(2,3) ts(4) by (auto simp: in_set_conv_nth)
  with assms(4) have "i \<noteq> j" by auto
  have "length (filter (\<lambda>f. {fx_home f, fx_away f} = {Some a, Some b}) (generate_round_robin es)) =
      length (filter (\<lambda>T. T = {Some a, Some b}) (map (\<lambda>f. {fx_home f, fx_away f}) (rr_rounds ?m 1 ?ts 1)))"
    using len by (simp add: generate_round_robin_def filter_map comp_def)
  also have "\<dots> = length (filter (\<lambda>T. T = {Some a, Some b}) (map (\<lambda>S. (!) ?ts ` S) (slots ?m)))"
    unfolding round_robin_pairs [OF m ts(2)] filter_filter by (intro arg_cong [of _ _ length] filter_cong) auto
  also have "\<dots> = 1"
    using count_one_image [OF ts(1), of "slots ?m" i j] distinct_slots [OF ts(2)] set_slots [OF ts(2)] ij \<open>i \<noteq> j\<close> m
    by (simp add: subset_eq less_Suc_eq_le [symmetric])
  finally show ?thesis .
qed

theorem round_robin_every_pair_meets_once_witness:
  "length (filter (\<lambda>f. {fx_home f, fx_away f} = {Some 11, Some 13}) (generate_round_robin [10, 11, 12, 13, 14])) = 1"
  by (rule round_robin_every_pair_meets_once) simp_all


section \<open>Brackets\<close>

lemma power_above_power:
  "\<exists>j. power_above n (2 ^ k) = 2 ^ (k + j) \<and> n \<le> 2 ^ (k + j) \<and> (0 < j \<longrightarrow> 2 ^ (k + j) < 2 * n)"
proof (induction "n - 2 ^ k" arbitrary: k rule: less_induct)
  case less
  show ?case
  proof (cases "2 ^ k < n")
    case True
    then have "n - 2 ^ Suc k < n - 2 ^ k" by (simp add: diff_less_mono2)
    from less [OF this] obtain j where j: "power_above n (2 ^ Suc k) = 2 ^ (Suc k + j)" "n \<le> 2 ^ (Suc k + j)"
      "0 < j \<longrightarrow> 2 ^ (Suc k + j) < 2 * n" by blast
    have "power_above n (2 ^ k) = power_above n (2 ^ Suc k)"
      using True by (subst power_above.simps) (simp add: mult.commute)
    moreover have "2 ^ (k + Suc j) < 2 * n" using True j(3) by (cases j) simp_all
    ultimately show ?thesis using j by (intro exI [of _ "Suc j"]) simp
  next
    case False
    then show ?thesis by (intro exI [of _ 0]) (simp add: power_above.simps)
  qed
qed

lemma bracket_size:
  obtains k where "power_above n 2 = 2 ^ Suc k" "n \<le> 2 ^ Suc k" "2 \<le> n \<longrightarrow> 2 ^ k < n"
proof -
  obtain j where j: "power_above n (2 ^ 1) = 2 ^ (1 + j)" "n \<le> 2 ^ (1 + j)" "0 < j \<longrightarrow> 2 ^ (1 + j) < 2 * n"
    using power_above_power [of n 1] by blast
  have "2 ^ j < n" if "2 \<le> n" using that j(3) by (cases j) simp_all
  with j show ?thesis by (intro that [of j]) simp_all
qed

lemma length_weave [simp]: "length (weave p vs) = 2 * length vs"
  by (induction vs) simp_all

lemma weave_nth:
  "i < length vs \<Longrightarrow> weave p vs ! (2 * i) = vs ! i"
  "i < length vs \<Longrightarrow> weave p vs ! (2 * i + 1) = p + 1 - vs ! i"
proof (induction vs arbitrary: i)
  case (Cons v vs)
  {
    case 1
    with Cons.IH(1) show ?case by (cases i) simp_all
  next
    case 2
    with Cons.IH(2) show ?case by (cases i) simp_all
  }
qed simp_all

lemma two_powers [simp]: "\<not> 2 * 2 ^ k \<le> Suc 0" "Suc 0 < 2 * 2 ^ k"
  by (induction k) simp_all

lemma bracket_step: "bracket_seed_order (2 ^ Suc (Suc k)) = weave (2 ^ Suc (Suc k)) (bracket_seed_order (2 ^ Suc k))"
  by (subst bracket_seed_order.simps) simp

lemma bracket_base: "bracket_seed_order (2 ^ Suc 0) = [1, 2]"
  by (simp add: bracket_seed_order.simps)

lemma mset_weave: "mset (weave p vs) = mset vs + image_mset (\<lambda>v. p + 1 - v) (mset vs)"
  by (induction vs) simp_all

lemma mset_bracket: "mset (bracket_seed_order (2 ^ Suc k)) = mset [1..<2 ^ Suc k + 1]"
proof (induction k)
  case 0
  then show ?case by (simp add: bracket_seed_order.simps upt_rec)
next
  case (Suc k)
  define q :: nat where "q = 2 ^ Suc k"
  have "image_mset (\<lambda>v. 2 * q + 1 - v) (mset [1..<q + 1]) = mset [q + 1..<2 * q + 1]"
  proof -
    have "map (\<lambda>v. 2 * q + 1 - v) [1..<q + 1] = rev [q + 1..<2 * q + 1]"
      by (rule nth_equalityI) (simp_all add: rev_nth del: upt_Suc)
    then show ?thesis by (metis mset_map mset_rev)
  qed
  moreover have "[1..<2 * q + 1] = [1..<q + 1] @ [q + 1..<2 * q + 1]"
    using upt_add_eq_append [of 1 "q + 1" q] by (simp only: mult_2 add.assoc add.commute [of 1] le_add2)
  moreover have "(2 :: nat) ^ Suc (Suc k) = 2 * q" by (simp add: q_def)
  ultimately show ?case using Suc bracket_step [of k] by (simp add: mset_weave q_def [symmetric] del: power_Suc)
qed

lemma length_bracket [simp]: "length (bracket_seed_order (2 ^ Suc k)) = 2 ^ Suc k"
  using mset_bracket [of k] by (metis diff_add_inverse2 length_upt size_mset)

lemma set_bracket: "set (bracket_seed_order (2 ^ Suc k)) = {1..2 ^ Suc k}"
  using mset_bracket [of k] by (metis atLeastLessThanSuc_atLeastAtMost set_mset_mset set_upt Suc_eq_plus1)


lemma favourites_meet:
  "(\<forall>i < 2 ^ k. bracket_seed_order (2 ^ Suc k) ! (2 * i) + bracket_seed_order (2 ^ Suc k) ! (2 * i + 1) =
      2 ^ Suc k + 1) \<and>
   (\<forall>i < 2 ^ Suc k. min (bracket_seed_order (2 ^ Suc (Suc k)) ! (2 * i))
        (bracket_seed_order (2 ^ Suc (Suc k)) ! (2 * i + 1)) = bracket_seed_order (2 ^ Suc k) ! i)"
proof (intro conjI allI impI)
  fix i :: nat assume i: "i < 2 ^ k"
  show "bracket_seed_order (2 ^ Suc k) ! (2 * i) + bracket_seed_order (2 ^ Suc k) ! (2 * i + 1) = 2 ^ Suc k + 1"
  proof (cases k)
    case 0
    with i show ?thesis by (simp add: bracket_seed_order.simps)
  next
    case (Suc n)
    with i have "i < length (bracket_seed_order (2 ^ Suc n))" by (simp only: length_bracket)
    moreover from this have "bracket_seed_order (2 ^ Suc n) ! i \<in> {1..2 ^ Suc n}"
      by (metis nth_mem set_bracket)
    ultimately show ?thesis unfolding Suc bracket_step by (simp add: weave_nth weave_nth(2) [simplified])
  qed
next
  fix i :: nat assume "i < 2 ^ Suc k"
  then have i: "i < length (bracket_seed_order (2 ^ Suc k))" by (simp only: length_bracket)
  then have "bracket_seed_order (2 ^ Suc k) ! i \<in> {1..2 ^ Suc k}" by (metis nth_mem set_bracket)
  with i show "min (bracket_seed_order (2 ^ Suc (Suc k)) ! (2 * i))
        (bracket_seed_order (2 ^ Suc (Suc k)) ! (2 * i + 1)) = bracket_seed_order (2 ^ Suc k) ! i"
    unfolding bracket_step by (auto simp: min_def weave_nth weave_nth(2) [simplified])
qed

text \<open>The bracket order is a permutation of the seeds in which the seeds of a first-round match
  add up to the size plus one, and if the lower seed always wins, the winners of a bracket stand in the
  order of the bracket of half its size.\<close>

theorem favourites_meet_in_the_bracket_order:
  "mset (bracket_seed_order (2 ^ Suc k)) = mset [1..<2 ^ Suc k + 1] \<and>
   (\<forall>i < 2 ^ k. bracket_seed_order (2 ^ Suc k) ! (2 * i) + bracket_seed_order (2 ^ Suc k) ! (2 * i + 1) =
      2 ^ Suc k + 1) \<and>
   (\<forall>i < 2 ^ Suc k. min (bracket_seed_order (2 ^ Suc (Suc k)) ! (2 * i))
        (bracket_seed_order (2 ^ Suc (Suc k)) ! (2 * i + 1)) = bracket_seed_order (2 ^ Suc k) ! i)"
  using mset_bracket favourites_meet by blast

section \<open>The first round\<close>

definition byes :: "fixture list \<Rightarrow> uuid list" where
  "byes fs = map (\<lambda>f. the (fx_winner f)) (filter fx_bye fs)"

definition present :: "fixture list \<Rightarrow> uuid list" where
  "present fs = concat (map (\<lambda>f. (case fx_home f of None \<Rightarrow> [] | Some h \<Rightarrow> [h]) @
     (case fx_away f of None \<Rightarrow> [] | Some a \<Rightarrow> [a])) fs)"

definition first_round :: "uuid list \<Rightarrow> fixture list" where
  "first_round es = filter (\<lambda>f. fx_round f = 1) (generate_single_elimination es)"

lemma first_round_matches:
  assumes "2 \<le> length es"
  shows "first_round es = map (first_round_match es (bracket_seed_order (power_above (length es) 2)))
    [1..<power_above (length es) 2 div 2 + 1]"
proof -
  have "fx_round (first_round_match es ord m) = 1" for ord m
    by (simp add: first_round_match_def scheduled_def Let_def)
  moreover have "fx_round (later_match fs rnd m) = rnd" for fs rnd m
    by (simp add: later_match_def scheduled_def)
  ultimately show ?thesis using assms
    by (auto simp: first_round_def generate_single_elimination_def Let_def filter_empty_conv simp del: upt_Suc)
qed

lemma power_halves: "1 \<le> r \<Longrightarrow> r \<le> Suc k \<Longrightarrow> (2 :: nat) ^ Suc k div 2 ^ r = 2 ^ (Suc k - r)"
  by (simp add: power_diff)

lemma count_rounds_power: "count_rounds (2 ^ k) = k"
proof (induction k)
  case (Suc k)
  then show ?case by (subst count_rounds.simps) simp
qed (simp add: count_rounds.simps)

lemma later_rounds_sum: "(\<Sum>r\<leftarrow>[2..<k + 2]. (2 :: nat) ^ (Suc k - r)) = 2 ^ k - 1"
proof (induction k)
  case (Suc k)
  have "[2..<Suc k + 2] = 2 # map Suc [2..<k + 2]" 
    by (simp add: upt_conv_Cons map_Suc_upt numeral_3_eq_3 numeral_2_eq_2 del: upt_Suc)
  with Suc show ?case by (simp add: comp_def del: upt_Suc)
qed simp

lemma single_elimination_size:
  assumes "2 \<le> length es" and k: "power_above (length es) 2 = 2 ^ Suc k" "length es \<le> 2 ^ Suc k" "2 ^ k < length es"
  shows "length (generate_single_elimination es) = 2 ^ Suc k - 1"
proof -
  have "sum_list (map (\<lambda>r. 2 ^ Suc k div 2 ^ r) [2..<k + 2]) = sum_list (map (\<lambda>r. (2 :: nat) ^ (Suc k - r)) [2..<k + 2])"
    by (intro arg_cong [of _ _ sum_list] map_cong refl power_halves) auto
  with later_rounds_sum [of k] have "sum_list (map (\<lambda>r. 2 ^ Suc k div 2 ^ r) [2..<k + 2]) = (2 :: nat) ^ k - 1"
    by simp
  moreover have "length (generate_single_elimination es) =
      2 ^ Suc k div 2 + sum_list (map (\<lambda>r. 2 ^ Suc k div 2 ^ r) [2..<k + 2])"
    using assms by (simp add: generate_single_elimination_def k Let_def length_concat comp_def
        count_rounds_power [of "Suc k", simplified] del: upt_Suc)
  moreover have "(2 :: nat) ^ Suc k div 2 = 2 ^ k" "(1 :: nat) \<le> 2 ^ k" by simp_all
  ultimately show ?thesis by simp
qed


text \<open>The seeds at home in the first round are those of the better half.\<close>

lemma home_seeds: "mset (map (\<lambda>i. bracket_seed_order (2 ^ Suc k) ! (2 * i)) [0..<2 ^ k]) = mset [1..<2 ^ k + 1]"
proof (cases k)
  case 0
  then show ?thesis by (simp add: bracket_seed_order.simps)
next
  case (Suc n)
  have "map (\<lambda>i. bracket_seed_order (2 ^ Suc k) ! (2 * i)) [0..<2 ^ k] = bracket_seed_order (2 ^ Suc n)"
    unfolding Suc bracket_step using length_bracket [of n] by (intro nth_equalityI) (simp_all add: weave_nth)
  with mset_bracket [of n] Suc show ?thesis by simp
qed

lemma away_seed:
  "i < 2 ^ k \<Longrightarrow> bracket_seed_order (2 ^ Suc k) ! (2 * i + 1) = 2 ^ Suc k + 1 - bracket_seed_order (2 ^ Suc k) ! (2 * i)"
  using favourites_meet [of k] by (metis add_diff_cancel_left')

definition seeds_at :: "uuid list \<Rightarrow> nat list \<Rightarrow> uuid list" where
  "seeds_at es ks = concat (map (\<lambda>k. case seed_at es k of None \<Rightarrow> [] | Some e \<Rightarrow> [e]) ks)"

lemma seeds_at_upt: "seeds_at es [1..<length es + 1 + d] = es"
proof -
  have "[1..<length es + 1 + d] = [1..<length es + 1] @ [length es + 1..<length es + 1 + d]"
    by (rule upt_add_eq_append) simp
  moreover have "seeds_at es [length es + 1..<length es + 1 + d] = []"
    by (auto simp: seeds_at_def seed_at_def simp del: upt_Suc)
  moreover have "seeds_at es [1..<length es + 1] = map (\<lambda>k. es ! (k - 1)) [1..<length es + 1]"
    unfolding seeds_at_def by (subst concat_map_singleton [symmetric], intro arg_cong [of _ _ concat] map_cong refl)
      (auto simp: seed_at_def)
  moreover have "map (\<lambda>k. es ! (k - 1)) [1..<length es + 1] = es"
    by (rule nth_equalityI) (simp_all del: upt_Suc)
  ultimately show ?thesis by (simp add: seeds_at_def del: upt_Suc)
qed

lemma mset_seeds_at: "mset ks = mset ls \<Longrightarrow> mset (seeds_at es ks) = mset (seeds_at es ls)"
proof -
  assume "mset ks = mset ls"
  have "mset (seeds_at es ks) = \<Sum>\<^sub># (image_mset (\<lambda>k. mset (case seed_at es k of None \<Rightarrow> [] | Some e \<Rightarrow> [e])) (mset ks))"
    for ks by (induction ks) (simp_all add: seeds_at_def)
  with \<open>mset ks = mset ls\<close> show ?thesis by simp
qed

lemma seeds_at_concat: "seeds_at es (concat kss) = concat (map (seeds_at es) kss)"
  by (induction kss) (simp_all add: seeds_at_def)

lemma pairs_of_list:
  "length ks = 2 * q \<Longrightarrow> concat (map (\<lambda>i. [ks ! (2 * i), ks ! (2 * i + 1)]) [0..<q]) = ks"
proof (induction q arbitrary: ks)
  case (Suc q)
  then obtain x y zs where ks: "ks = x # y # zs" "length zs = 2 * q" by (auto simp: length_Suc_conv)
  have "[0..<Suc q] = 0 # map Suc [0..<q]" by (simp add: map_Suc_upt upt_conv_Cons del: upt_Suc)
  with Suc.IH [OF ks(2)] ks show ?case by (simp add: comp_def del: upt_Suc)
qed simp

lemma present_first_round:
  assumes "2 \<le> length es"
  shows "mset (present (first_round es)) = mset es"
proof -
  obtain k where k: "power_above (length es) 2 = 2 ^ Suc k" "length es \<le> 2 ^ Suc k"
    using bracket_size [of "length es"] by metis
  define ks where "ks = bracket_seed_order (2 ^ Suc k)"
  have ks: "length ks = 2 * 2 ^ k" using length_bracket [of k] by (simp add: ks_def)
  have "present (first_round es) =
      concat (map (\<lambda>i. seeds_at es [ks ! (2 * i), ks ! (2 * i + 1)]) [0..<2 ^ k])"
    unfolding present_def first_round_matches [OF assms] k
    by (simp add: ks_def seeds_at_def first_round_match_def scheduled_def Let_def comp_def map_Suc_upt [symmetric] del: upt_Suc)
       (intro arg_cong [of _ _ concat] map_cong refl, auto split: option.splits)
  also have "\<dots> = seeds_at es ks"
    using seeds_at_concat [of es "map (\<lambda>i. [ks ! (2 * i), ks ! (2 * i + 1)]) [0..<2 ^ k]"] pairs_of_list [OF ks]
    by (simp add: comp_def)
  finally have "mset (present (first_round es)) = mset (seeds_at es [1..<2 ^ Suc k + 1])"
    using mset_seeds_at [of ks "[1..<2 ^ Suc k + 1]" es] mset_bracket [of k] by (simp only: ks_def)
  moreover have "2 ^ Suc k + 1 = length es + 1 + (2 ^ Suc k - length es)" using k(2) by simp
  ultimately show ?thesis by (metis seeds_at_upt)
qed


lemma seed_at_Some: "1 \<le> v \<Longrightarrow> v \<le> length es \<Longrightarrow> seed_at es v = Some (es ! (v - 1))"
  by (simp add: seed_at_def)

lemma first_round_entry:
  assumes k: "length es \<le> 2 ^ Suc k" "2 ^ k < length es" and i: "i < 2 ^ k"
  defines "v \<equiv> bracket_seed_order (2 ^ Suc k) ! (2 * i)"
    and "f \<equiv> first_round_match es (bracket_seed_order (2 ^ Suc k)) (Suc i)"
  shows "fx_home f = Some (es ! (v - 1))" "fx_bye f \<longleftrightarrow> v \<le> 2 ^ Suc k - length es"
    "fx_bye f \<Longrightarrow> fx_winner f = Some (es ! (v - 1))"
proof -
  have "v \<in># mset [1..<2 ^ k + 1]" unfolding home_seeds [symmetric] v_def using i by auto
  then have v: "1 \<le> v" "v \<le> 2 ^ k" by auto
  then have "seed_at es v = Some (es ! (v - 1))" using k(2) by (intro seed_at_Some) simp_all
  moreover have "seed_at es (bracket_seed_order (2 ^ Suc k) ! (2 * i + 1)) = None \<longleftrightarrow> v \<le> 2 ^ Suc k - length es"
    using away_seed [OF i] v k unfolding v_def [symmetric] by (auto simp: seed_at_def)
  ultimately show "fx_home f = Some (es ! (v - 1))" "fx_bye f \<longleftrightarrow> v \<le> 2 ^ Suc k - length es"
    "fx_bye f \<Longrightarrow> fx_winner f = Some (es ! (v - 1))"
    by (auto simp: f_def first_round_match_def scheduled_def Let_def v_def)
qed

lemma byes_first_round:
  assumes "2 \<le> length es" "power_above (length es) 2 = 2 ^ Suc k" "length es \<le> 2 ^ Suc k" "2 ^ k < length es"
  shows "mset (byes (first_round es)) = mset (take (2 ^ Suc k - length es) es)"
proof -
  let ?v = "\<lambda>i. bracket_seed_order (2 ^ Suc k) ! (2 * i)" and ?d = "2 ^ Suc k - length es"
  let ?f = "\<lambda>i. first_round_match es (bracket_seed_order (2 ^ Suc k)) (Suc i)"
  have "first_round es = map ?f [0..<2 ^ k]"
    by (simp add: first_round_matches [OF assms(1)] assms(2) map_Suc_upt [symmetric] comp_def del: upt_Suc)
  then have "byes (first_round es) = map (\<lambda>i. the (fx_winner (?f i))) (filter (\<lambda>i. fx_bye (?f i)) [0..<2 ^ k])"
    by (simp add: byes_def filter_map comp_def)
  also have "\<dots> = map (\<lambda>i. es ! (?v i - 1)) (filter (\<lambda>i. ?v i \<le> ?d) [0..<2 ^ k])"
    using first_round_entry [OF assms(3,4)] by (intro map_cong filter_cong) auto
  also have "\<dots> = map (\<lambda>v. es ! (v - 1)) (filter (\<lambda>v. v \<le> ?d) (map ?v [0..<2 ^ k]))"
    by (simp add: filter_map comp_def)
  finally have "mset (byes (first_round es)) =
      image_mset (\<lambda>v. es ! (v - 1)) (filter_mset (\<lambda>v. v \<le> ?d) (mset [1..<2 ^ k + 1]))"
    using home_seeds [of k] by (simp only: mset_map mset_filter)
  also have "\<dots> = mset (map (\<lambda>v. es ! (v - 1)) (filter (\<lambda>v. v \<le> ?d) [1..<2 ^ k + 1]))"
    by (simp only: mset_map mset_filter)
  also have "filter (\<lambda>v. v \<le> ?d) [1..<2 ^ k + 1] = [1..<?d + 1]"
  proof -
    have "[1..<2 ^ k + 1] = [1..<?d + 1] @ [?d + 1..<2 ^ k + 1]"
      using upt_add_eq_append [of 1 "?d + 1" "2 ^ k - ?d"] assms(3,4) by simp
    then show ?thesis by (simp add: filter_empty_conv del: upt_Suc)
  qed
  also have "map (\<lambda>v. es ! (v - 1)) [1..<?d + 1] = take ?d es"
    using assms(3,4) by (intro nth_equalityI) (simp_all del: upt_Suc)
  finally show ?thesis .
qed

text \<open>A generated knockout has one match less than the next power of two; its first round holds
  every entrant exactly once, and the byes go to the highest seeds and to nobody else.\<close>

theorem single_elimination_first_round:
  assumes "2 \<le> length es"
  shows "\<exists>k. 2 ^ k < length es \<and> length es \<le> 2 ^ Suc k \<and>
    length (generate_single_elimination es) = 2 ^ Suc k - 1 \<and>
    mset (present (first_round es)) = mset es \<and>
    mset (byes (first_round es)) = mset (take (2 ^ Suc k - length es) es) \<and>
    (\<forall>f \<in> set (first_round es). fx_home f \<noteq> None \<and> (fx_bye f \<longleftrightarrow> fx_away f = None))"
proof -
  obtain k where k: "power_above (length es) 2 = 2 ^ Suc k" "length es \<le> 2 ^ Suc k" "2 ^ k < length es"
    using bracket_size [of "length es"] assms by metis
  have "fx_home f \<noteq> None \<and> (fx_bye f \<longleftrightarrow> fx_away f = None)" if "f \<in> set (first_round es)" for f
  proof -
    from that obtain i where i: "i < 2 ^ k" "f = first_round_match es (bracket_seed_order (2 ^ Suc k)) (Suc i)"
      by (auto simp: first_round_matches [OF assms] k map_Suc_upt [symmetric] simp del: upt_Suc)
    from first_round_entry(1) [OF k(2,3) i(1)] i(2) have "fx_home f \<noteq> None" by simp
    then show ?thesis by (auto simp: i(2) first_round_match_def scheduled_def Let_def split: if_splits)
  qed
  with single_elimination_size [OF assms k] present_first_round [OF assms] byes_first_round [OF assms k] k
  show ?thesis by blast
qed

theorem single_elimination_first_round_witness:
  "\<exists>k. 2 ^ k < length [1::nat, 2, 3, 4, 5] \<and> length [1::nat, 2, 3, 4, 5] \<le> 2 ^ Suc k \<and>
    length (generate_single_elimination [1, 2, 3, 4, 5]) = 2 ^ Suc k - 1 \<and>
    mset (present (first_round [1, 2, 3, 4, 5])) = mset [1, 2, 3, 4, 5] \<and>
    mset (byes (first_round [1, 2, 3, 4, 5])) = mset (take (2 ^ Suc k - length [1::nat, 2, 3, 4, 5]) [1, 2, 3, 4, 5]) \<and>
    (\<forall>f \<in> set (first_round [1, 2, 3, 4, 5]). fx_home f \<noteq> None \<and> (fx_bye f \<longleftrightarrow> fx_away f = None))"
  by (rule single_elimination_first_round) simp

section \<open>Lanes\<close>

lemma lane_order_distinct: "distinct (lane_order lanes) \<and> 0 < length (lane_order lanes)"
  by (simp add: lane_order_def Let_def)

text \<open>No two swimmers share a lane of a heat, and the slowest swim first.\<close>

theorem no_lane_is_shared:
  "distinct (map (\<lambda>s. (sw_heat s, sw_lane s)) (assign_aquatics_lanes seeds lanes)) \<and>
   mset (map sw_entry (assign_aquatics_lanes seeds lanes)) = mset (map sw_entry seeds) \<and>
   (\<forall>s \<in> set (assign_aquatics_lanes seeds lanes). 1 \<le> sw_heat s \<and> sw_lane s \<in> set (lane_order lanes))"
proof -
  let ?o = "lane_order lanes"
  let ?n = "length ?o"
  define ss where "ss = go_sort (\<lambda>x y. sw_time x < sw_time y) seeds"
  define h where "h = (length ss + ?n - 1) div ?n"
  have n: "0 < ?n" using lane_order_distinct by blast
  have top: "i div ?n < h" if "i < length ss" for i
  proof -
    have "i div ?n + 1 = (i + ?n) div ?n" by (rule div_add_self2 [symmetric]) (use n in simp)
    also have "\<dots> \<le> h" unfolding h_def using that by (intro div_le_mono) simp
    finally show ?thesis by simp
  qed
  have seated: "assign_aquatics_lanes seeds lanes = map (seat_swimmer ?o h) (enumerate 0 ss)"
    by (cases "seeds = []") (simp_all add: assign_aquatics_lanes_def Let_def ss_def h_def go_sort_def)
  have heat: "sw_heat (seat_swimmer ?o h (i, s)) = int h - int (i div ?n)"
    "sw_lane (seat_swimmer ?o h (i, s)) = ?o ! (i mod ?n)" if "i < length ss" for i s
    using top [OF that] by (simp_all add: seat_swimmer_def Let_def)
  have at: "assign_aquatics_lanes seeds lanes ! i = seat_swimmer ?o h (i, ss ! i)" if "i < length ss" for i
    using that by (simp add: seated nth_enumerate_eq)
  have len: "length (assign_aquatics_lanes seeds lanes) = length ss" by (simp add: seated)
  have "i = j" if "i < length ss" "j < length ss"
    "int h - int (i div ?n) = int h - int (j div ?n)" "?o ! (i mod ?n) = ?o ! (j mod ?n)" for i j
  proof -
    from that(4) have "i mod ?n = j mod ?n" using lane_order_distinct n by (simp add: nth_eq_iff_index_eq)
    moreover from that(3) have "i div ?n = j div ?n" by simp
    ultimately show ?thesis by (metis div_mult_mod_eq)
  qed
  then have "distinct (map (\<lambda>s. (sw_heat s, sw_lane s)) (assign_aquatics_lanes seeds lanes))"
    by (auto simp: distinct_conv_nth len at heat)
  moreover have "map sw_entry (assign_aquatics_lanes seeds lanes) = map sw_entry ss"
    by (rule nth_equalityI) (simp_all add: len at, simp add: seat_swimmer_def Let_def)
  then have "mset (map sw_entry (assign_aquatics_lanes seeds lanes)) = mset (map sw_entry seeds)"
    by (simp add: ss_def)
  moreover have "1 \<le> sw_heat s \<and> sw_lane s \<in> set ?o" if s: "s \<in> set (assign_aquatics_lanes seeds lanes)" for s
  proof -
    from s obtain i where i: "i < length ss" "s = assign_aquatics_lanes seeds lanes ! i"
      by (metis in_set_conv_nth len)
    with top [OF i(1)] n show ?thesis by (simp add: at heat)
  qed
  ultimately show ?thesis by blast
qed

section \<open>The loops of the generator\<close>

lemma doubling_loop_ends:
  "0 < p \<Longrightarrow> while_option (\<lambda>p. p < n) (\<lambda>p. p * 2) p = Some (power_above n p)"
proof (induction n p rule: power_above.induct)
  case (1 n p)
  then show ?case by (subst while_option_unfold, subst power_above.simps) auto
qed

lemma halving_loop_ends:
  "while_option (\<lambda>(t, r). 1 < t) (\<lambda>(t, r). (t div 2, r + 1)) (p, r) =
     Some (if p = 0 then 0 else 1, r + count_rounds p)"
proof (induction p arbitrary: r rule: count_rounds.induct)
  case (1 p)
  let ?b = "\<lambda>(t::nat, r). 1 < t" and ?c = "\<lambda>(t::nat, r::nat). (t div 2, r + 1)"
  have unf: "while_option ?b ?c (p, r) = (if ?b (p, r) then while_option ?b ?c (?c (p, r)) else Some (p, r))"
    by (rule while_option_unfold)
  show ?case
  proof (cases "1 < p")
    case True
    then have "p div 2 \<noteq> 0" "p \<noteq> 0" by (auto simp: div_eq_0_iff)
    moreover have "count_rounds p = count_rounds (p div 2) + 1" using True by (subst count_rounds.simps) simp
    ultimately show ?thesis using 1 [OF True, of "r + 1"] True unf by simp
  next
    case False
    then have "count_rounds p = 0" by (subst count_rounds.simps) simp
    then show ?thesis using False unf by (cases p) simp_all
  qed
qed

text \<open>C20: The loops of the bracket generator end: doubling from 2 stops at the first power of two that holds all
  entrants, and halving that number down to 1 counts its exponent, the number of rounds.\<close>

theorem bracket_loops_end:
  "while_option (\<lambda>p. p < n) (\<lambda>p. p * 2) 2 = Some (power_above n 2) \<and>
   while_option (\<lambda>(t, r). 1 < t) (\<lambda>(t, r). (t div 2, r + 1)) (power_above n 2, 0) =
     Some (1, count_rounds (power_above n 2)) \<and>
   2 ^ count_rounds (power_above n 2) = power_above n 2 \<and> n \<le> power_above n 2"
proof -
  obtain k where k: "power_above n 2 = 2 ^ Suc k" "n \<le> 2 ^ Suc k" using bracket_size [of n] by metis
  show ?thesis using doubling_loop_ends [of 2 n] halving_loop_ends [of "power_above n 2" 0] k
    by (simp add: count_rounds_power del: power_Suc)
qed
end
