(* ===== verification/Durations.thy ===== *)
theory Durations
  imports Format
begin

text \<open>
  Elapsed times in text (\<open>modules/results/parse.go\<close>, the formatting in \<open>modules/results/model.go\<close> and
  \<open>parseDurationToMs\<close> of \<open>modules/results/timing/csv.go\<close>), with the parts of \<open>strconv\<close> and
  \<open>strings\<close> they use. Arithmetic on int64 wraps as in Go.
\<close>

section \<open>Numbers in text\<close>

definition parse_digits :: "bool \<Rightarrow> string \<Rightarrow> int option" where
  "parse_digits neg ds =
     (case dec_val ds of
        None \<Rightarrow> None
      | Some n \<Rightarrow> let i = (if neg then - int n else int n) in
          if - (2 ^ 63) \<le> i \<and> i < 2 ^ 63 then Some i else None)"

text \<open>\<open>strconv.ParseInt(s, 10, 64)\<close> and \<open>strconv.Atoi\<close>: an optional sign and digits, in range.\<close>

fun parse_int64 :: "string \<Rightarrow> int option" where
  "parse_int64 [] = None"
| "parse_int64 (c # cs) =
     (if c = CHR ''-'' then parse_digits True cs
      else if c = CHR ''+'' then parse_digits False cs
      else parse_digits False (c # cs))"

text \<open>\<open>strings.Split\<close> with a separator of one byte.\<close>

fun split_on :: "char \<Rightarrow> string \<Rightarrow> string list" where
  "split_on d [] = [[]]"
| "split_on d (c # cs) =
     (if c = d then [] # split_on d cs
      else case split_on d cs of [] \<Rightarrow> [[c]] | p # ps \<Rightarrow> (c # p) # ps)"

text \<open>\<open>for len(s) < 3 { s += "0" }\<close> and \<open>s[:3]\<close>.\<close>

definition three_digits :: "string \<Rightarrow> string" where
  "three_digits s = take 3 (s @ replicate (3 - length s) CHR ''0'')"

section \<open>The importer's parser\<close>

definition clock_ms :: "int \<Rightarrow> int \<Rightarrow> int \<Rightarrow> int \<Rightarrow> int option" where
  "clock_ms h m sec frac =
     (if h < 0 \<or> m < 0 \<or> m > 59 \<or> sec < 0 \<or> sec > 59 then None
      else Some (int64 ((h * 3600 + m * 60 + sec) * 1000 + frac)))"

definition parse_clock :: "string list \<Rightarrow> int \<Rightarrow> int option" where
  "parse_clock parts frac =
     (case parts of
        [ph, pm, ps] \<Rightarrow>
          (case (parse_int64 ph, parse_int64 pm, parse_int64 ps) of
             (Some h, Some m, Some sec) \<Rightarrow> clock_ms h m sec frac | _ \<Rightarrow> None)
      | [pm, ps] \<Rightarrow>
          (case (parse_int64 pm, parse_int64 ps) of
             (Some m, Some sec) \<Rightarrow> clock_ms 0 m sec frac | _ \<Rightarrow> None)
      | _ \<Rightarrow> None)"

definition parse_duration_ms :: "string \<Rightarrow> int option" where
  "parse_duration_ms s =
     (let s = trim_space s in
      if s = [] then None
      else if CHR '':'' \<notin> set s then
        (case parse_int64 s of None \<Rightarrow> None | Some n \<Rightarrow> if n < 0 then None else Some n)
      else if CHR ''.'' \<in> set s then
        let whole = takeWhile (\<lambda>c. c \<noteq> CHR ''.'') s; frac = tl (dropWhile (\<lambda>c. c \<noteq> CHR ''.'') s)
        in (case parse_int64 (three_digits frac) of
              None \<Rightarrow> None | Some f \<Rightarrow> parse_clock (split_on CHR '':'' whole) f)
      else parse_clock (split_on CHR '':'' s) 0)"

section \<open>The CSV adapter's parser\<close>

text \<open>Seconds with an optional fraction; an unreadable fraction counts as 0 and the fields are not
  checked against 59.\<close>

definition parse_seconds :: "string \<Rightarrow> (int \<times> int) option" where
  "parse_seconds s =
     (let parts = split_on CHR ''.'' s in
      case parse_int64 (hd parts) of
        None \<Rightarrow> None
      | Some sec \<Rightarrow> Some (sec, if 1 < length parts
          then (case parse_int64 (three_digits (parts ! 1)) of None \<Rightarrow> 0 | Some f \<Rightarrow> f) else 0))"

definition parse_duration_to_ms :: "string \<Rightarrow> int option" where
  "parse_duration_to_ms s =
     (let s = trim_space s in
      if s = [] then None
      else case parse_int64 s of
        Some ms \<Rightarrow> Some ms
      | None \<Rightarrow>
          (case split_on CHR '':'' s of
             [ph, pm, ps] \<Rightarrow>
               (case (parse_int64 ph, parse_int64 pm, parse_seconds ps) of
                  (Some h, Some m, Some (sec, f)) \<Rightarrow> Some (int64 ((h * 3600 + m * 60 + sec) * 1000 + f))
                | _ \<Rightarrow> None)
           | [pm, ps] \<Rightarrow>
               (case (parse_int64 pm, parse_seconds ps) of
                  (Some m, Some (sec, f)) \<Rightarrow> Some (int64 ((m * 60 + sec) * 1000 + f))
                | _ \<Rightarrow> None)
           | _ \<Rightarrow> None))"

section \<open>Formatting\<close>

definition itoa2 :: "nat \<Rightarrow> bool \<Rightarrow> string" where
  "itoa2 n pad = (if pad \<and> n < 10 then CHR ''0'' # dec n else dec n)"

definition hms :: "nat \<Rightarrow> string" where
  "hms secs = itoa2 (secs div 3600) False @ '':'' @ itoa2 (secs mod 3600 div 60) True @ '':'' @
     itoa2 (secs mod 60) True"

definition format_duration_with_precision :: "int \<Rightarrow> string \<Rightarrow> string" where
  "format_duration_with_precision ms precision =
     (let ms = nat ms in
      if precision = ''ceil_s'' then hms ((ms + 999) div 1000)
      else if precision = ''cs'' then
        let cs = (ms + 9) div 10 in hms (cs div 100) @ ''.'' @ itoa2 (cs mod 100) True
      else if precision = ''ms'' then hms (ms div 1000) @ ''.'' @ zero_pad 3 (dec (ms mod 1000))
      else hms (ms div 1000))"

definition format_duration :: "int \<Rightarrow> string" where
  "format_duration ms = format_duration_with_precision ms ''ceil_s''"

section \<open>Reading back\<close>

lemma digit_char_0: "digit_char 0 = CHR ''0''"
  unfolding digit_char_def by code_simp

lemma dec_val_digits: "dec_val ds = Some n \<Longrightarrow> c \<in> set ds \<Longrightarrow> digit_val c \<noteq> None"
proof -
  have "dec_val_acc a ds = Some n \<Longrightarrow> c \<in> set ds \<Longrightarrow> digit_val c \<noteq> None" for a
    by (induction ds arbitrary: a) (auto split: option.splits)
  then show "dec_val ds = Some n \<Longrightarrow> c \<in> set ds \<Longrightarrow> digit_val c \<noteq> None"
    by (auto simp: dec_val_def split: if_splits)
qed

lemma parse_int64_digits: "dec_val ds = Some n \<Longrightarrow> int n < 2 ^ 63 \<Longrightarrow> parse_int64 ds = Some (int n)"
proof (cases ds)
  case (Cons c cs)
  assume ds: "dec_val ds = Some n" "int n < 2 ^ 63"
  have "digit_val c \<noteq> None" using dec_val_digits [OF ds(1)] Cons by simp
  then have "c \<noteq> CHR ''-''" "c \<noteq> CHR ''+''" by (auto simp: digit_val_def)
  with ds Cons show ?thesis by (simp add: parse_digits_def)
qed (simp add: dec_val_def)

lemma dec_val_leading_zero: "dec_val (CHR ''0'' # dec n) = Some n"
  using dec_val_zero_pad_dec [of "Suc (length (dec n))" n]
  by (simp add: zero_pad_def digit_char_0)

lemma dec_val_itoa2: "dec_val (itoa2 n pad) = Some n"
  by (simp add: itoa2_def dec_val_leading_zero)

lemma split_on_none: "d \<notin> set s \<Longrightarrow> split_on d s = [s]"
  by (induction s) auto

lemma split_on_append: "d \<notin> set s \<Longrightarrow> split_on d (s @ d # t) = s # split_on d t"
  by (induction s) auto

lemma split_on_never_empty [simp]: "split_on d s \<noteq> []"
  by (cases s) (auto split: list.splits)

lemma itoa2_not: "digit_val c = None \<Longrightarrow> c \<notin> set (itoa2 n pad)"
  using dec_val_digits [OF dec_val_itoa2 [of n pad]] by blast

lemma split_hms:
  "split_on CHR '':'' (hms secs) =
     [itoa2 (secs div 3600) False, itoa2 (secs mod 3600 div 60) True, itoa2 (secs mod 60) True]"
proof -
  have "CHR '':'' \<notin> set (itoa2 n pad)" for n pad by (rule itoa2_not) (simp add: digit_val_def)
  then show ?thesis by (simp add: hms_def split_on_append split_on_none)
qed

lemma hms_chars: "c \<in> set (hms secs) \<Longrightarrow> c = CHR '':'' \<or> digit_val c \<noteq> None"
  by (auto simp: hms_def dest: dec_val_digits [OF dec_val_itoa2])

lemma colon_in_hms: "CHR '':'' \<in> set (hms secs)"
  by (simp add: hms_def)

lemma hms_seconds: "secs = (secs div 3600) * 3600 + (secs mod 3600 div 60) * 60 + secs mod 60" for secs :: nat
proof -
  have "secs mod 3600 = (secs mod 3600 div 60) * 60 + secs mod 3600 mod 60" by simp
  moreover have "secs mod 3600 mod 60 = secs mod 60" by (simp add: mod_mod_cancel)
  moreover have "secs = secs div 3600 * 3600 + secs mod 3600" by simp
  ultimately show ?thesis by linarith
qed

lemma parse_clock_hms:
  assumes "int secs < 2 ^ 53" "0 \<le> frac" "frac < 1000"
  shows "parse_clock (split_on CHR '':'' (hms secs)) frac = Some (int secs * 1000 + frac)"
proof -
  have small: "secs div 3600 \<le> secs" "secs mod 3600 div 60 < 60" "secs mod 60 < 60"
    by (auto simp: less_mult_imp_div_less)
  have "int (secs div 3600) * 3600 + int (secs mod 3600 div 60) * 60 + int (secs mod 60) = int secs"
    using hms_seconds [of secs] by linarith
  moreover have "int64 (int secs * 1000 + frac) = int secs * 1000 + frac" using assms by (intro int64_id) simp_all
  ultimately show ?thesis using small assms(1)
    by (simp add: parse_clock_def split_hms parse_int64_digits dec_val_itoa2 clock_ms_def)
qed


lemma trim_hms: "trim_space (hms secs @ t) = hms secs @ t" if "\<forall>c \<in> set t. \<not> is_space c"
proof -
  have "\<not> is_space c" if "c \<in> set (hms secs @ t)" for c
    using that \<open>\<forall>c \<in> set t. \<not> is_space c\<close> hms_chars [of c secs] is_alnum_not_space digit_is_alnum
    by (auto simp: is_space_def)
  then have "dropWhile is_space (hms secs @ t) = hms secs @ t"
    "dropWhile is_space (rev (hms secs @ t)) = rev (hms secs @ t)"
    by (auto intro!: dropWhile_none)
  then show ?thesis by (simp only: trim_space_def rev_rev_ident)
qed

lemma hms_no_dot: "CHR ''.'' \<notin> set (hms secs)"
  using hms_chars [of "CHR ''.''" secs] by (auto simp: digit_val_def)

lemma hms_not_empty [simp]: "hms secs \<noteq> []"
  using colon_in_hms [of secs] by auto

lemma zero_pad_3: "n < 1000 \<Longrightarrow> length (zero_pad 3 (dec n)) = 3"
proof -
  assume "n < 1000"
  then have "length (dec n) \<le> 3" by (simp add: dec.simps [of n] dec.simps [of "n div 10"] dec.simps [of "n div 100"] div_mult2_eq [symmetric])
  then show ?thesis by (simp add: zero_pad_def)
qed

lemma parse_hms: "int secs < 2 ^ 53 \<Longrightarrow> parse_duration_ms (hms secs) = Some (int secs * 1000)"
  using trim_hms [of "[]" secs] parse_clock_hms [of secs 0]
  by (simp add: parse_duration_ms_def colon_in_hms hms_no_dot Let_def)

lemma parse_hms_fraction:
  assumes "int secs < 2 ^ 53" "n < 1000"
  shows "parse_duration_ms (hms secs @ CHR ''.'' # zero_pad 3 (dec n)) = Some (int secs * 1000 + int n)"
proof -
  let ?f = "zero_pad 3 (dec n)"
  have digits: "\<forall>c \<in> set ?f. digit_val c \<noteq> None"
    using dec_val_digits [OF dec_val_zero_pad_dec [of 3 n]] by blast
  then have "\<forall>c \<in> set (CHR ''.'' # ?f). \<not> is_space c"
    using is_alnum_not_space digit_is_alnum by (auto simp: is_space_def)
  then have trim: "trim_space (hms secs @ CHR ''.'' # ?f) = hms secs @ CHR ''.'' # ?f" by (rule trim_hms)
  have "takeWhile (\<lambda>c. c \<noteq> CHR ''.'') (hms secs @ CHR ''.'' # ?f) = hms secs"
    "dropWhile (\<lambda>c. c \<noteq> CHR ''.'') (hms secs @ CHR ''.'' # ?f) = CHR ''.'' # ?f"
    using hms_no_dot [of secs] by (simp_all add: takeWhile_append dropWhile_append)
  moreover have "three_digits ?f = ?f" using zero_pad_3 [OF assms(2)] by (simp add: three_digits_def)
  moreover have "parse_int64 ?f = Some (int n)" using assms(2) by (intro parse_int64_digits) simp_all
  ultimately show ?thesis using parse_clock_hms [OF assms(1), of "int n"] assms(2)
    by (simp add: parse_duration_ms_def trim colon_in_hms Let_def)
qed

text \<open>C26: A duration printed to the millisecond is read back as the same number of
  milliseconds.\<close>

theorem duration_text_roundtrip:
  assumes "0 \<le> ms" "ms < 2 ^ 62"
  shows "parse_duration_ms (format_duration_with_precision ms ''ms'') = Some ms"
proof -
  have "parse_duration_ms (hms (nat ms div 1000) @ CHR ''.'' # zero_pad 3 (dec (nat ms mod 1000))) =
      Some (int (nat ms div 1000) * 1000 + int (nat ms mod 1000))"
    using assms by (intro parse_hms_fraction) (simp_all add: zdiv_int)
  with assms show ?thesis by (simp add: format_duration_with_precision_def Let_def zdiv_int zmod_int)
qed

theorem duration_text_roundtrip_witness:
  "parse_duration_ms (format_duration_with_precision 5025007 ''ms'') = Some 5025007"
  by (rule duration_text_roundtrip) simp_all

text \<open>The time on a certificate is the next whole second, never one the runner beat.\<close>

theorem shown_time_is_the_next_second:
  assumes "0 \<le> ms" "ms < 2 ^ 62"
  shows "\<exists>t. parse_duration_ms (format_duration ms) = Some t \<and> ms \<le> t \<and> t < ms + 1000"
proof -
  have "parse_duration_ms (hms ((nat ms + 999) div 1000)) = Some (int ((nat ms + 999) div 1000) * 1000)"
    using assms by (intro parse_hms) (simp add: zdiv_int)
  moreover have "ms \<le> int ((nat ms + 999) div 1000) * 1000 \<and> int ((nat ms + 999) div 1000) * 1000 < ms + 1000"
    using assms(1) by linarith
  ultimately show ?thesis
    by (simp add: format_duration_def format_duration_with_precision_def Let_def)
qed

theorem shown_time_is_the_next_second_witness:
  "\<exists>t. parse_duration_ms (format_duration 5025007) = Some t \<and> 5025007 \<le> t \<and> t < 5025007 + 1000"
  by (rule shown_time_is_the_next_second) simp_all

section \<open>What the parsers accept\<close>

text \<open>The fraction is read as a signed number, so a clock can come out below zero, but by less
  than a tenth of a second.\<close>

theorem accepted_clock_can_be_negative:
  "parse_duration_ms ''0:00.-5'' = Some (- 50) \<and> parse_duration_ms ''1:30:00'' = Some 5400000 \<and>
   parse_duration_ms ''90:00'' = None \<and> parse_duration_to_ms ''90:00'' = Some 5400000 \<and>
   parse_duration_to_ms ''-7'' = Some (- 7)"
  by code_simp

end
