(* ===== verification/RaceSchema.thy ===== *)
theory RaceSchema
  imports Inventory Durations
begin

text \<open>
  The tables of results and timing (migrations 61 to 63 and 66) and their queries
  (\<open>db/results.sql.go\<close>, \<open>db/timing.sql.go\<close>). Jsonb columns that the code only stores
  (\<open>settings\<close>, \<open>metadata\<close>) are left out; \<open>tickets.wave_id\<close> is a table of its own here, since the
  ticket rows of the sale never read it.
\<close>

section \<open>Rows\<close>

datatype race_status = RaceFinished | RaceDNF | RaceDNS | RaceDSQ | RaceOTL | RacePendingReview

record race_result =
  rr_id :: uuid
  rr_org :: uuid
  rr_event :: uuid
  rr_category :: "uuid option"
  rr_ticket :: "uuid option"
  rr_bib :: string
  rr_name :: string
  rr_gender :: "string option"
  rr_age :: "int option"
  rr_age_group :: "string option"
  rr_status :: race_status
  rr_chip :: "int option"
  rr_gun :: "int option"
  rr_rank_overall :: "int option"
  rr_rank_gender :: "int option"
  rr_rank_category :: "int option"
  rr_rank_age_group :: "int option"
  rr_source :: string
  rr_finished_at :: "time option"

record certificate_template =
  ct_id :: uuid
  ct_org :: uuid
  ct_event :: uuid
  ct_name :: string
  ct_title :: string
  ct_subtitle :: string
  ct_body :: string
  ct_background :: "string option"
  ct_active :: bool

datatype missing_action = ActWarning | ActPendingReview | ActDNF | ActDSQ | ActManual | ActNone | ActOther

record event_policy =
  po_debounce :: int
  po_cutoff :: int
  po_start_mode :: string
  po_allow_missing_start :: bool
  po_mandatory :: "string list"
  po_action :: missing_action

record timing_config =
  tc_id :: uuid
  tc_org :: uuid
  tc_event :: uuid
  tc_provider :: string
  tc_transport :: string
  tc_sync_mode :: string
  tc_policy :: "event_policy option"
  tc_token_hash :: string
  tc_token_prefix :: string
  tc_external_race :: "string option"
  tc_active :: bool

record race_wave =
  rw_id :: uuid
  rw_org :: uuid
  rw_event :: uuid
  rw_category :: "uuid option"
  rw_code :: string
  rw_name :: string
  rw_start_at :: "time option"
  rw_order :: int

datatype checkpoint_type = CkStart | CkSplit | CkFinish

record checkpoint =
  ck_id :: uuid
  ck_org :: uuid
  ck_event :: uuid
  ck_code :: string
  ck_name :: string
  ck_type :: checkpoint_type
  ck_order :: int
  ck_distance :: "int option"
  ck_aliases :: "string list"
  ck_provider_aliases :: "(string \<times> string list) list"

datatype mapping_status = MapActive | MapReplaced | MapRevoked

record bib_mapping =
  bm_id :: uuid
  bm_org :: uuid
  bm_event :: uuid
  bm_bib :: string
  bm_chip :: string
  bm_active :: bool
  bm_status :: mapping_status
  bm_notes :: "string option"

record passing =
  ps_id :: int
  ps_org :: uuid
  ps_event :: uuid
  ps_checkpoint :: string
  ps_provider :: string
  ps_external :: "string option"
  ps_chip :: string
  ps_raw_chip :: "string option"
  ps_bib :: "string option"
  ps_at :: time
  ps_payload :: "string option"
  ps_processed :: bool

record split_time =
  sp_result :: uuid
  sp_checkpoint :: uuid
  sp_passing :: "int option"
  sp_ms :: int
  sp_pace :: "int option"
  sp_at :: time
  sp_order :: int

record race_db =
  rbase :: db
  race_results :: "race_result list"
  templates :: "certificate_template list"
  timing_configs :: "timing_config list"
  waves :: "race_wave list"
  checkpoints :: "checkpoint list"
  mappings :: "bib_mapping list"
  passings :: "passing list"
  splits :: "split_time list"
  ticket_waves :: "(uuid \<times> uuid) list"

definition race_audit :: "string \<Rightarrow> uuid \<Rightarrow> race_db \<Rightarrow> race_db" where
  "race_audit action target s = s\<lparr>rbase := audit action target (rbase s)\<rparr>"

section \<open>Results\<close>

record result_params =
  rp_org :: uuid
  rp_event :: uuid
  rp_category :: "uuid option"
  rp_ticket :: "uuid option"
  rp_bib :: string
  rp_name :: string
  rp_gender :: "string option"
  rp_age :: "int option"
  rp_age_group :: "string option"
  rp_status :: race_status
  rp_chip :: "int option"
  rp_gun :: "int option"
  rp_source :: string
  rp_finished_at :: "time option"

definition race_sources :: "string list" where
  "race_sources = [''CSV'', ''RACE_RESULT'', ''VENDOR_API'', ''NATIVE_RFID'', ''MANUAL'', ''TIMING_API'']"

definition result_checks :: "result_params \<Rightarrow> bool" where
  "result_checks p \<longleftrightarrow>
     (case rp_gender p of None \<Rightarrow> True | Some g \<Rightarrow> g \<in> {''M'', ''F'', ''X''}) \<and>
     (case rp_age p of None \<Rightarrow> True | Some a \<Rightarrow> 0 \<le> a \<and> a \<le> 130) \<and>
     (case rp_chip p of None \<Rightarrow> True | Some t \<Rightarrow> 0 \<le> t) \<and>
     (case rp_gun p of None \<Rightarrow> True | Some t \<Rightarrow> 0 \<le> t) \<and>
     rp_source p \<in> set race_sources"

definition fill_result :: "result_params \<Rightarrow> race_result \<Rightarrow> race_result" where
  "fill_result p r = r\<lparr>rr_category := rp_category p, rr_ticket := rp_ticket p, rr_name := rp_name p,
     rr_gender := rp_gender p, rr_age := rp_age p, rr_age_group := rp_age_group p,
     rr_status := rp_status p, rr_chip := rp_chip p, rr_gun := rp_gun p, rr_source := rp_source p,
     rr_finished_at := rp_finished_at p\<rparr>"

definition new_result :: "uuid \<Rightarrow> result_params \<Rightarrow> race_result" where
  "new_result i p = \<lparr> rr_id = i, rr_org = rp_org p, rr_event = rp_event p, rr_category = rp_category p,
     rr_ticket = rp_ticket p, rr_bib = rp_bib p, rr_name = rp_name p, rr_gender = rp_gender p,
     rr_age = rp_age p, rr_age_group = rp_age_group p, rr_status = rp_status p, rr_chip = rp_chip p,
     rr_gun = rp_gun p, rr_rank_overall = None, rr_rank_gender = None, rr_rank_category = None,
     rr_rank_age_group = None, rr_source = rp_source p, rr_finished_at = rp_finished_at p \<rparr>"

definition same_result :: "uuid \<Rightarrow> string \<Rightarrow> race_result \<Rightarrow> bool" where
  "same_result ev bib r \<longleftrightarrow> rr_event r = ev \<and> rr_bib r = bib"

definition upsert_race_result :: "uuid \<Rightarrow> result_params \<Rightarrow> race_db \<Rightarrow> race_result res \<times> race_db" where
  "upsert_race_result i p s =
     (let b = rbase s in
      if \<not> result_checks p then (Inl (CheckViolation ''race_results''), s)
      else if rp_event p \<notin> e_id ` set (events b) then (Inl (ForeignKeyViolation ''race_results_event_id_fkey''), s)
      else if \<not> references (rp_category p) (c_id ` set (categories b)) then
        (Inl (ForeignKeyViolation ''race_results_category_id_fkey''), s)
      else if \<not> references (rp_ticket p) (t_id ` set (tickets b)) then
        (Inl (ForeignKeyViolation ''race_results_ticket_id_fkey''), s)
      else case upd_one (same_result (rp_event p) (rp_bib p)) (fill_result p) (race_results s) of
        Some (r, rs) \<Rightarrow> (Inr r, s\<lparr>race_results := rs\<rparr>)
      | None \<Rightarrow>
          if i \<in> rr_id ` set (race_results s) then (Inl (UniqueViolation ''race_results_pkey''), s)
          else (Inr (new_result i p), s\<lparr>race_results := race_results s @ [new_result i p]\<rparr>))"

definition get_race_result_by_bib :: "uuid \<Rightarrow> string \<Rightarrow> race_db \<Rightarrow> race_result option" where
  "get_race_result_by_bib ev bib s = sel (same_result ev bib) (race_results s)"

definition get_race_result_by_id :: "uuid \<Rightarrow> race_db \<Rightarrow> race_result option" where
  "get_race_result_by_id i s = sel (\<lambda>r. rr_id r = i) (race_results s)"

definition get_race_result_by_ticket :: "uuid \<Rightarrow> race_db \<Rightarrow> race_result option" where
  "get_race_result_by_ticket t s = sel (\<lambda>r. rr_ticket r = Some t) (race_results s)"

text \<open>The two filters of a page of results; a NULL argument does not filter, and a NULL column
  passes no filter.\<close>

definition listed_result :: "uuid \<Rightarrow> uuid option \<Rightarrow> string option \<Rightarrow> race_result \<Rightarrow> bool" where
  "listed_result ev cat gender r \<longleftrightarrow> rr_event r = ev \<and>
     (cat = None \<or> rr_category r = cat) \<and> (gender = None \<or> rr_gender r = gender)"

text \<open>\<open>NULLS LAST\<close> as a strict order, lexicographically continued.\<close>

definition nulls_last :: "int option \<Rightarrow> int option \<Rightarrow> bool \<Rightarrow> bool" where
  "nulls_last a b continue =
     (case (a, b) of
        (Some x, Some y) \<Rightarrow> x < y \<or> x = y \<and> continue
      | (Some x, None) \<Rightarrow> True
      | (None, Some y) \<Rightarrow> False
      | (None, None) \<Rightarrow> continue)"

definition result_before :: "race_result \<Rightarrow> race_result \<Rightarrow> bool" where
  "result_before a b = nulls_last (rr_rank_overall a) (rr_rank_overall b)
     (nulls_last (rr_chip a) (rr_chip b) (rr_name a < rr_name b))"

definition list_race_results ::
  "uuid \<Rightarrow> nat \<Rightarrow> nat \<Rightarrow> uuid option \<Rightarrow> string option \<Rightarrow> race_db \<Rightarrow> race_result list" where
  "list_race_results ev lim off cat gender s =
     take lim (drop off (go_sort result_before (filter (listed_result ev cat gender) (race_results s))))"

definition count_race_results :: "uuid \<Rightarrow> uuid option \<Rightarrow> string option \<Rightarrow> race_db \<Rightarrow> nat" where
  "count_race_results ev cat gender s = cnt (listed_result ev cat gender) (race_results s)"

definition delete_race_results_by_event :: "uuid \<Rightarrow> race_db \<Rightarrow> race_db" where
  "delete_race_results_by_event ev s =
     (let gone = filter (\<lambda>r. rr_event r = ev) (race_results s) in
      s\<lparr>race_results := filter (\<lambda>r. rr_event r \<noteq> ev) (race_results s),
        splits := filter (\<lambda>x. sp_result x \<notin> rr_id ` set gone) (splits s)\<rparr>)"

section \<open>Ranks\<close>

text \<open>\<open>RANK() OVER (PARTITION BY .. ORDER BY ..)\<close> is one more than the number of rows of the partition
  that come strictly before; rows outside the subquery keep their column.\<close>

definition rank_pass ::
  "(race_result \<Rightarrow> bool) \<Rightarrow> (race_result \<Rightarrow> 'k) \<Rightarrow> (race_result \<Rightarrow> race_result \<Rightarrow> bool) \<Rightarrow>
    (int option \<Rightarrow> race_result \<Rightarrow> race_result) \<Rightarrow> race_result list \<Rightarrow> race_result list" where
  "rank_pass ranked part before put rs =
     map (\<lambda>r. if ranked r
       then put (Some (1 + int (cnt (\<lambda>x. ranked x \<and> part x = part r \<and> before x r) rs))) r else r) rs"

definition gun_key :: "race_result \<Rightarrow> int option" where
  "gun_key r = (case rr_gun r of Some t \<Rightarrow> Some t | None \<Rightarrow> rr_chip r)"

definition chip_key :: "race_result \<Rightarrow> int option" where
  "chip_key r = (case rr_chip r of Some t \<Rightarrow> Some t | None \<Rightarrow> rr_gun r)"

definition by_gun :: "race_result \<Rightarrow> race_result \<Rightarrow> bool" where
  "by_gun a b = nulls_last (gun_key a) (gun_key b) (nulls_last (rr_chip a) (rr_chip b) False)"

definition by_chip :: "race_result \<Rightarrow> race_result \<Rightarrow> bool" where
  "by_chip a b = nulls_last (chip_key a) (chip_key b) (nulls_last (rr_chip a) (rr_chip b) False)"

definition by_chip_then_gun :: "race_result \<Rightarrow> race_result \<Rightarrow> bool" where
  "by_chip_then_gun a b = nulls_last (chip_key a) (chip_key b) (nulls_last (rr_gun a) (rr_gun b) False)"

definition timed_finisher :: "uuid \<Rightarrow> race_result \<Rightarrow> bool" where
  "timed_finisher ev r \<longleftrightarrow> rr_event r = ev \<and> rr_status r = RaceFinished \<and> gun_key r \<noteq> None"

definition rank_overall :: "uuid \<Rightarrow> race_db \<Rightarrow> race_db" where
  "rank_overall ev s = s\<lparr>race_results :=
     rank_pass (timed_finisher ev) (\<lambda>_. ()) by_gun (\<lambda>k r. r\<lparr>rr_rank_overall := k\<rparr>) (race_results s)\<rparr>"

definition rank_gender :: "uuid \<Rightarrow> race_db \<Rightarrow> race_db" where
  "rank_gender ev s = s\<lparr>race_results :=
     rank_pass (\<lambda>r. timed_finisher ev r \<and> rr_gender r \<noteq> None) rr_gender by_gun
       (\<lambda>k r. r\<lparr>rr_rank_gender := k\<rparr>) (race_results s)\<rparr>"

definition rank_category :: "uuid \<Rightarrow> race_db \<Rightarrow> race_db" where
  "rank_category ev s = s\<lparr>race_results :=
     rank_pass (\<lambda>r. timed_finisher ev r \<and> rr_category r \<noteq> None) rr_category by_gun
       (\<lambda>k r. r\<lparr>rr_rank_category := k\<rparr>) (race_results s)\<rparr>"

definition rank_age_group :: "uuid \<Rightarrow> race_db \<Rightarrow> race_db" where
  "rank_age_group ev s = s\<lparr>race_results :=
     rank_pass (\<lambda>r. timed_finisher ev r \<and> rr_age_group r \<noteq> None) rr_age_group by_chip
       (\<lambda>k r. r\<lparr>rr_rank_age_group := k\<rparr>) (race_results s)\<rparr>"

definition rank_overall_by_chip_time :: "uuid \<Rightarrow> race_db \<Rightarrow> race_db" where
  "rank_overall_by_chip_time ev s = s\<lparr>race_results :=
     rank_pass (timed_finisher ev) (\<lambda>_. ()) by_chip_then_gun (\<lambda>k r. r\<lparr>rr_rank_overall := k\<rparr>) (race_results s)\<rparr>"


section \<open>Certificate templates\<close>

record template_params =
  tp_org :: uuid
  tp_event :: uuid
  tp_name :: string
  tp_title :: string
  tp_subtitle :: string
  tp_body :: string
  tp_background :: "string option"
  tp_active :: bool

definition fill_template :: "template_params \<Rightarrow> certificate_template \<Rightarrow> certificate_template" where
  "fill_template p t = t\<lparr>ct_name := tp_name p, ct_title := tp_title p, ct_subtitle := tp_subtitle p,
     ct_body := tp_body p, ct_background := tp_background p, ct_active := tp_active p\<rparr>"

text \<open>The partial unique index: one active template per event.\<close>

definition active_template :: "uuid \<Rightarrow> certificate_template \<Rightarrow> bool" where
  "active_template ev t \<longleftrightarrow> ct_event t = ev \<and> ct_active t"

definition create_certificate_template ::
  "uuid \<Rightarrow> template_params \<Rightarrow> race_db \<Rightarrow> certificate_template res \<times> race_db" where
  "create_certificate_template i p s =
     (if i \<in> ct_id ` set (templates s) then (Inl (UniqueViolation ''certificate_templates_pkey''), s)
      else if tp_active p \<and> (\<exists>t \<in> set (templates s). active_template (tp_event p) t) then
        (Inl (UniqueViolation ''uniq_certificate_templates_active''), s)
      else if tp_event p \<notin> e_id ` set (events (rbase s)) then
        (Inl (ForeignKeyViolation ''certificate_templates_event_id_fkey''), s)
      else
        let t = \<lparr> ct_id = i, ct_org = tp_org p, ct_event = tp_event p, ct_name = tp_name p,
                  ct_title = tp_title p, ct_subtitle = tp_subtitle p, ct_body = tp_body p,
                  ct_background = tp_background p, ct_active = tp_active p \<rparr>
        in (Inr t, s\<lparr>templates := templates s @ [t]\<rparr>))"

definition deactivate_certificate_templates_for_event :: "uuid \<Rightarrow> race_db \<Rightarrow> race_db" where
  "deactivate_certificate_templates_for_event ev s =
     s\<lparr>templates := upd (active_template ev) (\<lambda>t. t\<lparr>ct_active := False\<rparr>) (templates s)\<rparr>"

definition delete_certificate_template :: "uuid \<Rightarrow> uuid \<Rightarrow> race_db \<Rightarrow> race_db" where
  "delete_certificate_template i org s =
     s\<lparr>templates := filter (\<lambda>t. \<not> (ct_id t = i \<and> ct_org t = org)) (templates s)\<rparr>"

definition get_active_certificate_template :: "uuid \<Rightarrow> race_db \<Rightarrow> certificate_template option" where
  "get_active_certificate_template ev s = sel (active_template ev) (templates s)"

definition get_certificate_template_by_id :: "uuid \<Rightarrow> race_db \<Rightarrow> certificate_template option" where
  "get_certificate_template_by_id i s = sel (\<lambda>t. ct_id t = i) (templates s)"

text \<open>\<open>ORDER BY created_at DESC\<close>: rows are kept in the order of insertion.\<close>

definition list_certificate_templates_by_event :: "uuid \<Rightarrow> race_db \<Rightarrow> certificate_template list" where
  "list_certificate_templates_by_event ev s = rev (filter (\<lambda>t. ct_event t = ev) (templates s))"

definition update_certificate_template ::
  "uuid \<Rightarrow> template_params \<Rightarrow> race_db \<Rightarrow> certificate_template res \<times> race_db" where
  "update_certificate_template i p s =
     (let mine = (\<lambda>t. ct_id t = i \<and> ct_org t = tp_org p) in
      case sel mine (templates s) of
        None \<Rightarrow> (Inl NoRows, s)
      | Some t \<Rightarrow>
          if tp_active p \<and> (\<exists>x \<in> set (templates s). \<not> mine x \<and> active_template (ct_event t) x) then
            (Inl (UniqueViolation ''uniq_certificate_templates_active''), s)
          else (Inr (fill_template p t), s\<lparr>templates := upd mine (fill_template p) (templates s)\<rparr>))"

section \<open>Timing configuration\<close>

definition timing_config_checks :: "timing_config \<Rightarrow> bool" where
  "timing_config_checks c \<longleftrightarrow>
     tc_provider c \<in> set [''RACE_RESULT'', ''GENERIC_CSV'', ''VENDOR_API'', ''NATIVE_RFID'', ''MANUAL''] \<and>
     tc_transport c \<in> set [''HTTP_PUSH'', ''HTTP_PULL'', ''CSV_UPLOAD'', ''LOCAL_AGENT'', ''SFTP''] \<and>
     tc_sync_mode c \<in> set [''RAW_PASSINGS'', ''FINAL_RESULTS'']"

text \<open>A conflict keeps the id and the organization of the row.\<close>

definition upsert_timing_config :: "timing_config \<Rightarrow> race_db \<Rightarrow> timing_config res \<times> race_db" where
  "upsert_timing_config c s =
     (if \<not> timing_config_checks c then (Inl (CheckViolation ''timing_configs''), s)
      else if tc_event c \<notin> e_id ` set (events (rbase s)) then
        (Inl (ForeignKeyViolation ''timing_configs_event_id_fkey''), s)
      else case upd_one (\<lambda>x. tc_event x = tc_event c) (\<lambda>x. c\<lparr>tc_id := tc_id x, tc_org := tc_org x\<rparr>)
                  (timing_configs s) of
        Some (r, rs) \<Rightarrow> (Inr r, s\<lparr>timing_configs := rs\<rparr>)
      | None \<Rightarrow>
          if tc_id c \<in> tc_id ` set (timing_configs s) then (Inl (UniqueViolation ''timing_configs_pkey''), s)
          else (Inr c, s\<lparr>timing_configs := timing_configs s @ [c]\<rparr>))"

definition get_timing_config_by_event :: "uuid \<Rightarrow> race_db \<Rightarrow> timing_config option" where
  "get_timing_config_by_event ev s = sel (\<lambda>c. tc_event c = ev) (timing_configs s)"

definition get_timing_config_by_token_hash :: "uuid \<Rightarrow> string \<Rightarrow> race_db \<Rightarrow> timing_config option" where
  "get_timing_config_by_token_hash ev h s =
     sel (\<lambda>c. tc_event c = ev \<and> tc_token_hash c = h \<and> tc_active c) (timing_configs s)"

section \<open>Waves and checkpoints\<close>

definition create_race_wave :: "race_wave \<Rightarrow> race_db \<Rightarrow> race_wave res \<times> race_db" where
  "create_race_wave w s =
     (if rw_id w \<in> rw_id ` set (waves s) then (Inl (UniqueViolation ''race_waves_pkey''), s)
      else if \<exists>x \<in> set (waves s). rw_event x = rw_event w \<and> rw_code x = rw_code w then
        (Inl (UniqueViolation ''race_waves_event_id_code_key''), s)
      else if rw_event w \<notin> e_id ` set (events (rbase s)) then
        (Inl (ForeignKeyViolation ''race_waves_event_id_fkey''), s)
      else if \<not> references (rw_category w) (c_id ` set (categories (rbase s))) then
        (Inl (ForeignKeyViolation ''race_waves_category_id_fkey''), s)
      else (Inr w, s\<lparr>waves := waves s @ [w]\<rparr>))"

definition update_race_wave ::
  "uuid \<Rightarrow> uuid \<Rightarrow> string \<Rightarrow> time option \<Rightarrow> int \<Rightarrow> race_db \<Rightarrow> race_wave res \<times> race_db" where
  "update_race_wave i ev name start ord s =
     (case upd_one (\<lambda>w. rw_id w = i \<and> rw_event w = ev)
             (\<lambda>w. w\<lparr>rw_name := name, rw_start_at := start, rw_order := ord\<rparr>) (waves s) of
        None \<Rightarrow> (Inl NoRows, s)
      | Some (w, ws) \<Rightarrow> (Inr w, s\<lparr>waves := ws\<rparr>))"

definition get_race_wave_by_id :: "uuid \<Rightarrow> race_db \<Rightarrow> race_wave option" where
  "get_race_wave_by_id i s = sel (\<lambda>w. rw_id w = i) (waves s)"

definition list_race_waves_by_event :: "uuid \<Rightarrow> race_db \<Rightarrow> race_wave list" where
  "list_race_waves_by_event ev s = sort_key rw_order (filter (\<lambda>w. rw_event w = ev) (waves s))"

text \<open>\<open>ON DELETE SET NULL\<close> of \<open>tickets.wave_id\<close>.\<close>

definition delete_race_wave :: "uuid \<Rightarrow> uuid \<Rightarrow> race_db \<Rightarrow> race_db" where
  "delete_race_wave i ev s =
     (let gone = (\<lambda>w. rw_id w = i \<and> rw_event w = ev) in
      s\<lparr>waves := filter (\<lambda>w. \<not> gone w) (waves s),
        ticket_waves := filter (\<lambda>(t, w). w \<notin> rw_id ` set (filter gone (waves s))) (ticket_waves s)\<rparr>)"

definition set_ticket_wave :: "uuid \<Rightarrow> uuid option \<Rightarrow> race_db \<Rightarrow> unit res \<times> race_db" where
  "set_ticket_wave t w s =
     (let rest = filter (\<lambda>x. fst x \<noteq> t) (ticket_waves s) in
      if t \<notin> t_id ` set (tickets (rbase s)) then (Inr (), s)
      else case w of
        None \<Rightarrow> (Inr (), s\<lparr>ticket_waves := rest\<rparr>)
      | Some x \<Rightarrow>
          if x \<notin> rw_id ` set (waves s) then (Inl (ForeignKeyViolation ''tickets_wave_id_fkey''), s)
          else (Inr (), s\<lparr>ticket_waves := rest @ [(t, x)]\<rparr>))"

text \<open>\<open>aliases\<close> is \<open>NOT NULL\<close>, and pgx sends a nil slice as NULL: a missing list is \<open>None\<close>. A conflict
  keeps the id and the organization.\<close>

definition upsert_timing_checkpoint ::
  "checkpoint \<Rightarrow> string list option \<Rightarrow> race_db \<Rightarrow> checkpoint res \<times> race_db" where
  "upsert_timing_checkpoint c als s =
     (case als of
        None \<Rightarrow> (Inl (NotNullViolation ''aliases''), s)
      | Some xs \<Rightarrow>
          if ck_event c \<notin> e_id ` set (events (rbase s)) then
            (Inl (ForeignKeyViolation ''timing_checkpoints_event_id_fkey''), s)
          else case upd_one (\<lambda>x. ck_event x = ck_event c \<and> ck_code x = ck_code c)
                      (\<lambda>x. c\<lparr>ck_id := ck_id x, ck_org := ck_org x, ck_aliases := xs\<rparr>) (checkpoints s) of
            Some (r, rs) \<Rightarrow> (Inr r, s\<lparr>checkpoints := rs\<rparr>)
          | None \<Rightarrow>
              if ck_id c \<in> ck_id ` set (checkpoints s) then
                (Inl (UniqueViolation ''timing_checkpoints_pkey''), s)
              else (Inr (c\<lparr>ck_aliases := xs\<rparr>), s\<lparr>checkpoints := checkpoints s @ [c\<lparr>ck_aliases := xs\<rparr>]\<rparr>))"

definition list_timing_checkpoints_by_event :: "uuid \<Rightarrow> race_db \<Rightarrow> checkpoint list" where
  "list_timing_checkpoints_by_event ev s = sort_key ck_order (filter (\<lambda>c. ck_event c = ev) (checkpoints s))"

definition get_timing_checkpoint_by_code :: "uuid \<Rightarrow> string \<Rightarrow> race_db \<Rightarrow> checkpoint option" where
  "get_timing_checkpoint_by_code ev code s = sel (\<lambda>c. ck_event c = ev \<and> ck_code c = code) (checkpoints s)"

definition delete_timing_checkpoint :: "uuid \<Rightarrow> uuid \<Rightarrow> race_db \<Rightarrow> race_db" where
  "delete_timing_checkpoint i ev s =
     (let gone = (\<lambda>c. ck_id c = i \<and> ck_event c = ev) in
      s\<lparr>checkpoints := filter (\<lambda>c. \<not> gone c) (checkpoints s),
        splits := filter (\<lambda>x. sp_checkpoint x \<notin> ck_id ` set (filter gone (checkpoints s))) (splits s)\<rparr>)"

section \<open>Transponders\<close>

definition active_bib :: "uuid \<Rightarrow> string \<Rightarrow> bib_mapping \<Rightarrow> bool" where
  "active_bib ev bib m \<longleftrightarrow> bm_event m = ev \<and> bm_bib m = bib \<and> bm_active m"

definition active_chip :: "uuid \<Rightarrow> string \<Rightarrow> bib_mapping \<Rightarrow> bool" where
  "active_chip ev chip m \<longleftrightarrow> bm_event m = ev \<and> bm_chip m = chip \<and> bm_active m"

definition replaced :: "bib_mapping \<Rightarrow> bib_mapping" where
  "replaced m = m\<lparr>bm_active := False, bm_status := MapReplaced\<rparr>"

definition deactivate_bib_mappings :: "uuid \<Rightarrow> string \<Rightarrow> race_db \<Rightarrow> race_db" where
  "deactivate_bib_mappings ev bib s = s\<lparr>mappings := upd (active_bib ev bib) replaced (mappings s)\<rparr>"

definition deactivate_chip_mappings :: "uuid \<Rightarrow> string \<Rightarrow> race_db \<Rightarrow> race_db" where
  "deactivate_chip_mappings ev chip s = s\<lparr>mappings := upd (active_chip ev chip) replaced (mappings s)\<rparr>"

definition get_active_mapping_by_bib :: "uuid \<Rightarrow> string \<Rightarrow> race_db \<Rightarrow> bib_mapping option" where
  "get_active_mapping_by_bib ev bib s = sel (active_bib ev bib) (mappings s)"

definition get_active_mapping_by_chip :: "uuid \<Rightarrow> string \<Rightarrow> race_db \<Rightarrow> bib_mapping option" where
  "get_active_mapping_by_chip ev chip s = sel (active_chip ev chip) (mappings s)"

definition insert_bib_transponder_mapping :: "bib_mapping \<Rightarrow> race_db \<Rightarrow> bib_mapping res \<times> race_db" where
  "insert_bib_transponder_mapping m s =
     (if bm_id m \<in> bm_id ` set (mappings s) then (Inl (UniqueViolation ''bib_transponder_mappings_pkey''), s)
      else if bm_active m \<and> (\<exists>x \<in> set (mappings s). active_bib (bm_event m) (bm_bib m) x) then
        (Inl (UniqueViolation ''uniq_bib_transponder_active_bib''), s)
      else if bm_active m \<and> (\<exists>x \<in> set (mappings s). active_chip (bm_event m) (bm_chip m) x) then
        (Inl (UniqueViolation ''uniq_bib_transponder_active_chip''), s)
      else if bm_event m \<notin> e_id ` set (events (rbase s)) then
        (Inl (ForeignKeyViolation ''bib_transponder_mappings_event_id_fkey''), s)
      else (Inr m, s\<lparr>mappings := mappings s @ [m]\<rparr>))"

text \<open>\<open>ORDER BY bib_number ASC, created_at DESC\<close>.\<close>

definition list_mappings_by_event :: "uuid \<Rightarrow> race_db \<Rightarrow> bib_mapping list" where
  "list_mappings_by_event ev s =
     go_sort (\<lambda>a b. bm_bib a < bm_bib b) (rev (filter (\<lambda>m. bm_event m = ev) (mappings s)))"

section \<open>Passings and splits\<close>

definition same_external :: "passing \<Rightarrow> passing \<Rightarrow> bool" where
  "same_external p q \<longleftrightarrow> ps_event q = ps_event p \<and> ps_provider q = ps_provider p \<and>
     ps_external q \<noteq> None \<and> ps_external q = ps_external p"

definition same_observation :: "passing \<Rightarrow> passing \<Rightarrow> bool" where
  "same_observation p q \<longleftrightarrow> ps_event q = ps_event p \<and> ps_provider q = ps_provider p \<and>
     ps_chip q = ps_chip p \<and> ps_checkpoint q = ps_checkpoint p \<and> ps_at q = ps_at p \<and>
     ps_external q = None \<and> ps_external p = None"

text \<open>The next value of the bigserial column; a skipped conflict also uses one up, which only leaves
  gaps.\<close>

definition next_passing_id :: "race_db \<Rightarrow> int" where
  "next_passing_id s = 1 + fold (\<lambda>p m. max (ps_id p) m) (passings s) 0"

definition insert_passing :: "(passing \<Rightarrow> passing \<Rightarrow> bool) \<Rightarrow> passing \<Rightarrow> race_db \<Rightarrow> passing res \<times> race_db" where
  "insert_passing same p s =
     (if \<exists>q \<in> set (passings s). same p q then (Inl NoRows, s)
      else if ps_event p \<notin> e_id ` set (events (rbase s)) then
        (Inl (ForeignKeyViolation ''timing_passings_event_id_fkey''), s)
      else
        let q = p\<lparr>ps_id := next_passing_id s, ps_processed := False\<rparr>
        in (Inr q, s\<lparr>passings := passings s @ [q]\<rparr>))"

definition insert_timing_passing :: "passing \<Rightarrow> race_db \<Rightarrow> passing res \<times> race_db" where
  "insert_timing_passing = insert_passing same_external"

definition insert_timing_passing_fallback :: "passing \<Rightarrow> race_db \<Rightarrow> passing res \<times> race_db" where
  "insert_timing_passing_fallback = insert_passing same_observation"

definition list_unprocessed_passings :: "uuid \<Rightarrow> nat \<Rightarrow> race_db \<Rightarrow> passing list" where
  "list_unprocessed_passings ev lim s =
     take lim (sort_key ps_at (filter (\<lambda>p. ps_event p = ev \<and> \<not> ps_processed p) (passings s)))"

definition mark_passings_processed :: "int list \<Rightarrow> race_db \<Rightarrow> race_db" where
  "mark_passings_processed ids s =
     s\<lparr>passings := upd (\<lambda>p. ps_id p \<in> set ids) (\<lambda>p. p\<lparr>ps_processed := True\<rparr>) (passings s)\<rparr>"

definition count_passings_by_event :: "uuid \<Rightarrow> race_db \<Rightarrow> nat \<times> nat" where
  "count_passings_by_event ev s =
     (cnt (\<lambda>p. ps_event p = ev) (passings s), cnt (\<lambda>p. ps_event p = ev \<and> ps_processed p) (passings s))"

definition same_split :: "split_time \<Rightarrow> split_time \<Rightarrow> bool" where
  "same_split x y \<longleftrightarrow> sp_result y = sp_result x \<and> sp_checkpoint y = sp_checkpoint x"

definition upsert_race_split_time :: "split_time \<Rightarrow> race_db \<Rightarrow> unit res \<times> race_db" where
  "upsert_race_split_time x s =
     (if sp_ms x < 0 then (Inl (CheckViolation ''race_split_times_split_time_ms_check''), s)
      else if sp_result x \<notin> rr_id ` set (race_results s) then
        (Inl (ForeignKeyViolation ''race_split_times_race_result_id_fkey''), s)
      else if sp_checkpoint x \<notin> ck_id ` set (checkpoints s) then
        (Inl (ForeignKeyViolation ''race_split_times_checkpoint_id_fkey''), s)
      else if \<not> references (sp_passing x) (ps_id ` set (passings s)) then
        (Inl (ForeignKeyViolation ''race_split_times_passing_id_fkey''), s)
      else if \<exists>y \<in> set (splits s). same_split x y then
        (Inr (), s\<lparr>splits := upd (same_split x) (\<lambda>_. x) (splits s)\<rparr>)
      else (Inr (), s\<lparr>splits := splits s @ [x]\<rparr>))"

definition list_splits_by_result :: "uuid \<Rightarrow> race_db \<Rightarrow> (split_time \<times> checkpoint) list" where
  "list_splits_by_result r s =
     sort_key (\<lambda>(x, c). sp_order x)
       [(x, c). x \<leftarrow> filter (\<lambda>x. sp_result x = r) (splits s), c \<leftarrow> filter (\<lambda>c. ck_id c = sp_checkpoint x) (checkpoints s)]"

definition list_tickets_with_wave :: "uuid \<Rightarrow> uuid \<Rightarrow> race_db \<Rightarrow> (ticket \<times> uuid option) list" where
  "list_tickets_with_wave org ev s =
     map (\<lambda>t. (t, map_of (ticket_waves s) (t_id t)))
       (filter (\<lambda>t. t_org t = org \<and> t_event t = ev) (tickets (rbase s)))"

end
