(* ===== verification/Timing.thy ===== *)
theory Timing
  imports RaceSchema
begin

text \<open>
  The scoring of passings (\<open>modules/results/timing/processor.go\<close>): aliases of checkpoints, the bib of a
  passing, debouncing, start and finish, gun and chip times, splits and the mandatory checkpoints.
  Times are nanoseconds. Groups come out in the order of a Go map, a parameter here.
\<close>

section \<open>Policies and participants\<close>

definition default_policy :: event_policy where
  "default_policy = \<lparr> po_debounce = 15, po_cutoff = 0, po_start_mode = ''CHIP_PREFERRED'',
     po_allow_missing_start = True, po_mandatory = [], po_action = ActNone \<rparr>"

record processor =
  pr_window :: int
  pr_policy :: event_policy

text \<open>\<open>NewProcessor(15 * time.Second)\<close>; \<open>WithPolicy\<close> replaces the whole policy.\<close>

definition new_processor :: processor where
  "new_processor = \<lparr> pr_window = 15000000000, pr_policy = default_policy \<rparr>"

definition with_policy :: "event_policy \<Rightarrow> processor \<Rightarrow> processor" where
  "with_policy po p =
     p\<lparr>pr_policy := po, pr_window := (if po_debounce po > 0 then po_debounce po * 1000000000 else pr_window p)\<rparr>"

record participant_def =
  pd_ticket :: "uuid option"
  pd_category :: "uuid option"
  pd_name :: string
  pd_wave_start :: "time option"

record passing_item =
  pi_id :: int
  pi_checkpoint :: string
  pi_chip :: string
  pi_bib :: string
  pi_at :: time

record calculated_split =
  cs_checkpoint :: uuid
  cs_passing :: int
  cs_ms :: int
  cs_pace :: "int option"
  cs_at :: time
  cs_order :: int

record result_output =
  ro_ticket :: "uuid option"
  ro_category :: "uuid option"
  ro_bib :: string
  ro_name :: string
  ro_status :: race_status
  ro_chip :: "int option"
  ro_gun :: "int option"
  ro_finished_at :: "time option"
  ro_splits :: "calculated_split list"
  ro_processed :: "int list"
  ro_missing :: "string list"

section \<open>Checkpoints\<close>

text \<open>Every alias of a checkpoint, upper-cased; later entries overwrite earlier ones.\<close>

definition alias_keys :: "checkpoint \<Rightarrow> string list" where
  "alias_keys c = upper (ck_code c) #
     filter (\<lambda>a. a \<noteq> []) (map (\<lambda>a. upper (trim_space a)) (ck_aliases c @ concat (map snd (ck_provider_aliases c))))"

definition canonical_by_alias :: "checkpoint list \<Rightarrow> (string \<times> string) list" where
  "canonical_by_alias cps = rev (concat (map (\<lambda>c. map (\<lambda>a. (a, ck_code c)) (alias_keys c)) cps))"

definition canonical :: "checkpoint list \<Rightarrow> string \<Rightarrow> string" where
  "canonical cps code = (case map_of (canonical_by_alias cps) (upper code) of None \<Rightarrow> code | Some c \<Rightarrow> c)"

fun start_checkpoint :: "checkpoint list \<Rightarrow> checkpoint option \<Rightarrow> checkpoint option" where
  "start_checkpoint [] best = best"
| "start_checkpoint (c # cs) best =
     start_checkpoint cs
       (if ck_type c = CkStart \<and> (case best of None \<Rightarrow> True | Some b \<Rightarrow> ck_order c < ck_order b)
        then Some c else best)"

fun finish_checkpoint :: "checkpoint list \<Rightarrow> checkpoint option \<Rightarrow> checkpoint option" where
  "finish_checkpoint [] best = best"
| "finish_checkpoint (c # cs) best =
     finish_checkpoint cs
       (if ck_type c = CkFinish \<and> (case best of None \<Rightarrow> True | Some b \<Rightarrow> ck_order c > ck_order b)
        then Some c else best)"

definition split_checkpoint :: "checkpoint list \<Rightarrow> string \<Rightarrow> checkpoint option" where
  "split_checkpoint cps code = sel (\<lambda>c. ck_type c = CkSplit \<and> ck_code c = code) (rev cps)"

definition is_code :: "checkpoint option \<Rightarrow> string \<Rightarrow> bool" where
  "is_code c code = (case c of None \<Rightarrow> False | Some x \<Rightarrow> code = ck_code x)"

section \<open>Passings of a bib\<close>

text \<open>The bib of a passing is its own, or that of its chip; an empty one drops the passing.\<close>

definition bib_of :: "(string \<times> string) list \<Rightarrow> passing_item \<Rightarrow> string" where
  "bib_of chips p = (if pi_bib p \<noteq> [] then pi_bib p
     else case map_of chips (pi_chip p) of None \<Rightarrow> [] | Some b \<Rightarrow> b)"

definition canonical_item :: "checkpoint list \<Rightarrow> passing_item \<Rightarrow> passing_item" where
  "canonical_item cps p = p\<lparr>pi_checkpoint := canonical cps (pi_checkpoint p)\<rparr>"

definition passings_of :: "checkpoint list \<Rightarrow> (string \<times> string) list \<Rightarrow> passing_item list \<Rightarrow> string \<Rightarrow> passing_item list" where
  "passings_of cps chips ps bib = filter (\<lambda>p. bib_of chips p = bib) (map (canonical_item cps) ps)"

definition bibs_seen :: "(string \<times> string) list \<Rightarrow> passing_item list \<Rightarrow> string list" where
  "bibs_seen chips ps = remdups (filter (\<lambda>b. b \<noteq> []) (map (bib_of chips) ps))"

definition in_time_order :: "passing_item list \<Rightarrow> passing_item list" where
  "in_time_order = go_sort (\<lambda>a b. pi_at a < pi_at b)"

fun debounce :: "int \<Rightarrow> (string \<times> time) list \<Rightarrow> passing_item list \<Rightarrow> passing_item list" where
  "debounce w seen [] = []"
| "debounce w seen (p # ps) =
     (case map_of seen (pi_checkpoint p) of
        Some t \<Rightarrow> if pi_at p - t < w then debounce w seen ps
                   else p # debounce w ((pi_checkpoint p, pi_at p) # seen) ps
      | None \<Rightarrow> p # debounce w ((pi_checkpoint p, pi_at p) # seen) ps)"

text \<open>The first start, the last finish, the last passing of every split.\<close>

definition start_passing :: "checkpoint option \<Rightarrow> passing_item list \<Rightarrow> passing_item option" where
  "start_passing st ps = sel (\<lambda>p. is_code st (pi_checkpoint p)) ps"

definition finish_passing :: "checkpoint option \<Rightarrow> checkpoint option \<Rightarrow> passing_item list \<Rightarrow> passing_item option" where
  "finish_passing st fin ps =
     sel (\<lambda>p. \<not> is_code st (pi_checkpoint p) \<and> is_code fin (pi_checkpoint p)) (rev ps)"

definition split_passing ::
  "checkpoint list \<Rightarrow> checkpoint option \<Rightarrow> checkpoint option \<Rightarrow> passing_item list \<Rightarrow> string \<Rightarrow> passing_item option" where
  "split_passing cps st fin ps code =
     (if is_code st code \<or> is_code fin code \<or> split_checkpoint cps code = None then None
      else sel (\<lambda>p. pi_checkpoint p = code) (rev ps))"

section \<open>Scoring\<close>

definition start_time :: "event_policy \<Rightarrow> participant_def \<Rightarrow> passing_item option \<Rightarrow> time option" where
  "start_time po part st =
     (case st of
        Some p \<Rightarrow> Some (pi_at p)
      | None \<Rightarrow> if po_start_mode po \<noteq> ''CHIP_MANDATORY'' \<and> po_allow_missing_start po then pd_wave_start part else None)"

text \<open>\<open>Duration.Milliseconds\<close> of a positive duration.\<close>

definition elapsed_ms :: "time \<Rightarrow> time \<Rightarrow> int option" where
  "elapsed_ms from to = (if from < to then Some ((to - from) div 1000000) else None)"

definition chip_time :: "time option \<Rightarrow> passing_item option \<Rightarrow> int option" where
  "chip_time st fin = (case (st, fin) of (Some t, Some p) \<Rightarrow> elapsed_ms t (pi_at p) | _ \<Rightarrow> None)"

definition gun_time :: "participant_def \<Rightarrow> passing_item option \<Rightarrow> int option" where
  "gun_time part fin =
     (case (pd_wave_start part, fin) of (Some t, Some p) \<Rightarrow> elapsed_ms t (pi_at p) | _ \<Rightarrow> None)"

definition base_status :: "event_policy \<Rightarrow> time option \<Rightarrow> int option \<Rightarrow> race_status" where
  "base_status po st chip =
     (case chip of
        Some ms \<Rightarrow> if po_cutoff po > 0 \<and> ms > int64 (int64 (po_cutoff po * 60) * 1000) then RaceOTL else RaceFinished
      | None \<Rightarrow> if st = None then RaceDNS else RaceDNF)"

text \<open>\<open>int64(float64(splitMs) / (float64(meters) / 1000.0))\<close>: the float64 quotient is a parameter.\<close>

definition split_of ::
  "(int \<Rightarrow> int \<Rightarrow> int) \<Rightarrow> checkpoint list \<Rightarrow> time \<Rightarrow> passing_item \<Rightarrow> calculated_split list" where
  "split_of pace cps st p =
     (case (split_checkpoint cps (pi_checkpoint p), elapsed_ms st (pi_at p)) of
        (Some c, Some ms) \<Rightarrow>
          [\<lparr> cs_checkpoint = ck_id c, cs_passing = pi_id p, cs_ms = ms,
             cs_pace = (case ck_distance c of None \<Rightarrow> None | Some d \<Rightarrow> if d > 0 then Some (pace ms d) else None),
             cs_at = pi_at p, cs_order = ck_order c \<rparr>]
      | _ \<Rightarrow> [])"

text \<open>The splits come in the order of a Go map in the code; here in the order of the first passings.
  Each is stored under its own checkpoint.\<close>

definition calculated_splits ::
  "(int \<Rightarrow> int \<Rightarrow> int) \<Rightarrow> checkpoint list \<Rightarrow> checkpoint option \<Rightarrow> checkpoint option \<Rightarrow> time option \<Rightarrow>
    passing_item list \<Rightarrow> calculated_split list" where
  "calculated_splits pace cps sc fc st ps =
     (case st of
        None \<Rightarrow> []
      | Some t \<Rightarrow> concat (map (\<lambda>code. case split_passing cps sc fc ps code of None \<Rightarrow> [] | Some p \<Rightarrow> split_of pace cps t p)
          (remdups (map pi_checkpoint ps))))"

definition equal_fold :: "string \<Rightarrow> string \<Rightarrow> bool" where
  "equal_fold a b \<longleftrightarrow> lower a = lower b"

definition mandatory_code :: "checkpoint list \<Rightarrow> string \<Rightarrow> string" where
  "mandatory_code cps m = (let u = upper (trim_space m) in
     case map_of (canonical_by_alias cps) u of None \<Rightarrow> u | Some c \<Rightarrow> c)"

definition observed ::
  "checkpoint list \<Rightarrow> checkpoint option \<Rightarrow> checkpoint option \<Rightarrow> passing_item list \<Rightarrow> string \<Rightarrow> bool" where
  "observed cps sc fc ps m =
     (let code = mandatory_code cps m in
      (case start_passing sc ps of None \<Rightarrow> False | Some p \<Rightarrow> equal_fold (pi_checkpoint p) code) \<or>
      (case finish_passing sc fc ps of None \<Rightarrow> False | Some p \<Rightarrow> equal_fold (pi_checkpoint p) code) \<or>
      split_passing cps sc fc ps code \<noteq> None)"

definition adjudicated :: "missing_action \<Rightarrow> string list \<Rightarrow> race_status \<Rightarrow> race_status" where
  "adjudicated act missing st =
     (if missing \<noteq> [] \<and> st = RaceFinished then
        (case act of ActDSQ \<Rightarrow> RaceDSQ | ActDNF \<Rightarrow> RaceDNF | ActWarning \<Rightarrow> RaceFinished | _ \<Rightarrow> RacePendingReview)
      else st)"

definition unknown_participant :: "string \<Rightarrow> participant_def" where
  "unknown_participant bib =
     \<lparr> pd_ticket = None, pd_category = None, pd_name = ''BIB '' @ bib, pd_wave_start = None \<rparr>"

definition score ::
  "(int \<Rightarrow> int \<Rightarrow> int) \<Rightarrow> processor \<Rightarrow> checkpoint list \<Rightarrow> participant_def \<Rightarrow> string \<Rightarrow> passing_item list \<Rightarrow> result_output" where
  "score pace pr cps part bib ps =
     (let po = pr_policy pr; sc = start_checkpoint cps None; fc = finish_checkpoint cps None;
          sorted = in_time_order ps; kept = debounce (pr_window pr) [] sorted;
          st = start_time po part (start_passing sc kept); fin = finish_passing sc fc kept;
          chip = chip_time st fin; missing = filter (\<lambda>m. \<not> observed cps sc fc kept m) (po_mandatory po)
      in \<lparr> ro_ticket = pd_ticket part, ro_category = pd_category part, ro_bib = bib, ro_name = pd_name part,
           ro_status = adjudicated (po_action po) missing (base_status po st chip), ro_chip = chip,
           ro_gun = gun_time part fin, ro_finished_at = map_option pi_at fin,
           ro_splits = calculated_splits pace cps sc fc st kept, ro_processed = map pi_id sorted,
           ro_missing = missing \<rparr>)"

definition process_event_passings ::
  "(int \<Rightarrow> int \<Rightarrow> int) \<Rightarrow> (string list \<Rightarrow> string list) \<Rightarrow> processor \<Rightarrow> checkpoint list \<Rightarrow>
    (string \<times> participant_def) list \<Rightarrow> (string \<times> string) list \<Rightarrow> passing_item list \<Rightarrow> result_output list" where
  "process_event_passings pace visit pr cps parts chips ps =
     map (\<lambda>bib. score pace pr cps
            (case map_of parts bib of None \<Rightarrow> unknown_participant bib | Some p \<Rightarrow> p) bib
            (passings_of cps chips ps bib))
       (visit (bibs_seen chips ps))"


section \<open>The first start counts\<close>

lemma debounce_subset: "p \<in> set (debounce w seen ps) \<Longrightarrow> p \<in> set ps"
  by (induction w seen ps rule: debounce.induct) (auto split: option.splits if_splits)

text \<open>Debouncing keeps the first passing of every checkpoint.\<close>

lemma sel_debounce:
  "map_of seen code = None \<Longrightarrow>
     sel (\<lambda>p. pi_checkpoint p = code) (debounce w seen ps) = sel (\<lambda>p. pi_checkpoint p = code) ps"
proof (induction w seen ps rule: debounce.induct)
  case (2 w seen p ps)
  then show ?case by (cases "pi_checkpoint p = code") (auto split: option.splits)
qed simp

lemma in_time_order_facts:
  "mset (in_time_order ps) = mset ps" "set (in_time_order ps) = set ps"
  "sorted_wrt (\<lambda>a b. pi_at a \<le> pi_at b) (in_time_order ps)"
proof -
  have "swo_on (set ps) (\<lambda>a b. pi_at a < pi_at b)" by (auto simp: swo_on_def)
  from sorted_go_sort [OF this] show "sorted_wrt (\<lambda>a b. pi_at a \<le> pi_at b) (in_time_order ps)"
    by (simp add: in_time_order_def not_less)
qed (simp_all add: in_time_order_def)

lemma sel_sorted_first:
  "sorted_wrt (\<lambda>a b. key a \<le> key b) xs \<Longrightarrow> sel P xs = Some x \<Longrightarrow> y \<in> set xs \<Longrightarrow> P y \<Longrightarrow> (key x :: int) \<le> key y"
  by (induction xs) (auto split: if_splits)

lemma first_start:
  assumes "start_passing sc (debounce w [] (in_time_order ps)) = Some p"
  shows "p \<in> set ps" "is_code sc (pi_checkpoint p)"
    "q \<in> set ps \<Longrightarrow> is_code sc (pi_checkpoint q) \<Longrightarrow> pi_at p \<le> pi_at q"
proof -
  obtain c where c: "sc = Some c" "sel (\<lambda>p. pi_checkpoint p = ck_code c) (debounce w [] (in_time_order ps)) = Some p"
    using assms by (cases sc) (auto simp: start_passing_def is_code_def sel_None_iff dest: sel_SomeD)
  then have sel: "sel (\<lambda>p. pi_checkpoint p = ck_code c) (in_time_order ps) = Some p"
    by (simp add: sel_debounce)
  then show "p \<in> set ps" "is_code sc (pi_checkpoint p)"
    using in_time_order_facts(2) [of ps] sel_SomeD [OF sel] c by (auto simp: is_code_def)
  show "pi_at p \<le> pi_at q" if "q \<in> set ps" "is_code sc (pi_checkpoint q)"
    using sel_sorted_first [OF in_time_order_facts(3) sel, of q] that in_time_order_facts(2) [of ps] c
    by (simp add: is_code_def)
qed

lemma no_start: "start_passing sc (debounce w [] (in_time_order ps)) = None \<longleftrightarrow>
    (\<forall>p \<in> set ps. \<not> is_code sc (pi_checkpoint p))"
proof (cases sc)
  case (Some c)
  have "sel (\<lambda>p. pi_checkpoint p = ck_code c) (debounce w [] (in_time_order ps)) = None \<longleftrightarrow>
      (\<forall>p \<in> set ps. pi_checkpoint p \<noteq> ck_code c)"
    using in_time_order_facts(2) [of ps] by (simp add: sel_debounce sel_None_iff)
  with Some show ?thesis by (simp add: start_passing_def is_code_def)
qed (simp add: start_passing_def is_code_def sel_None_iff)

lemma finish_facts:
  assumes "finish_passing sc fc (debounce w [] (in_time_order ps)) = Some p"
  shows "p \<in> set ps" "is_code fc (pi_checkpoint p)" "\<not> is_code sc (pi_checkpoint p)"
  using sel_SomeD [OF assms [unfolded finish_passing_def]] debounce_subset [of p w "[]" "in_time_order ps"]
    in_time_order_facts(2) [of ps] by auto


text \<open>Without a start among the passings of this batch the result falls back to DNS, whatever was read
  before.\<close>

theorem batch_without_start_is_dns:
  assumes "pd_wave_start part = None \<or> \<not> po_allow_missing_start (pr_policy pr)"
    "\<forall>p \<in> set ps. \<not> is_code (start_checkpoint cps None) (pi_checkpoint p)"
  shows "ro_status (score pace pr cps part bib ps) = RaceDNS \<and> ro_chip (score pace pr cps part bib ps) = None \<and>
    ro_splits (score pace pr cps part bib ps) = []"
proof -
  let ?kept = "debounce (pr_window pr) [] (in_time_order ps)"
  have "start_passing (start_checkpoint cps None) ?kept = None" using assms(2) no_start by blast
  with assms(1) have "start_time (pr_policy pr) part (start_passing (start_checkpoint cps None) ?kept) = None"
    by (auto simp: start_time_def)
  then show ?thesis
    by (simp add: score_def Let_def chip_time_def base_status_def adjudicated_def calculated_splits_def)
qed


text \<open>The order in which the feed delivered the passings does not matter.\<close>

lemma in_time_order_unique:
  assumes "mset ps = mset qs" "distinct (map pi_at ps)"
  shows "in_time_order ps = in_time_order qs"
proof -
  have "in_time_order xs = sort_key pi_at ps" if "mset xs = mset ps" for xs
  proof -
    have "sorted (map pi_at (in_time_order xs))" using in_time_order_facts(3) by (simp add: sorted_map)
    moreover have "mset ps = mset (in_time_order xs)" using that in_time_order_facts(1) by metis
    moreover have "inj_on pi_at (set ps)" using assms(2) by (simp add: distinct_map)
    ultimately show ?thesis using sort_key_inj_key_eq by metis
  qed
  with assms(1) show ?thesis by metis
qed

text \<open>C25: The scored result of a participant does not depend on the order in which the passings were
  delivered, when no two of them have the same time.\<close>

theorem scoring_ignores_delivery_order:
  assumes "mset ps = mset qs" "distinct (map pi_at ps)"
  shows "score pace pr cps part bib (passings_of cps chips ps bib) =
    score pace pr cps part bib (passings_of cps chips qs bib)"
proof -
  have "mset (passings_of cps chips ps bib) = mset (passings_of cps chips qs bib)"
    using assms(1) by (simp add: passings_of_def)
  moreover have "distinct (map pi_at (passings_of cps chips ps bib))"
    using assms(2) by (simp add: passings_of_def canonical_item_def comp_def filter_map distinct_map_filter)
  ultimately show ?thesis using in_time_order_unique by (simp only: score_def)
qed

section \<open>Examples\<close>

definition demo_point :: "uuid \<Rightarrow> string \<Rightarrow> checkpoint_type \<Rightarrow> int \<Rightarrow> checkpoint" where
  "demo_point i code t k = \<lparr> ck_id = i, ck_org = 1, ck_event = 2, ck_code = code, ck_name = code, ck_type = t,
     ck_order = k, ck_distance = None, ck_aliases = [], ck_provider_aliases = [] \<rparr>"

definition demo_course :: "checkpoint list" where
  "demo_course = [demo_point 31 ''S'' CkStart 0, demo_point 32 ''F'' CkFinish 1]"

definition demo_read :: "int \<Rightarrow> string \<Rightarrow> time \<Rightarrow> passing_item" where
  "demo_read i cp at = \<lparr> pi_id = i, pi_checkpoint = cp, pi_chip = [], pi_bib = ''7'', pi_at = at \<rparr>"

definition demo_part :: participant_def where
  "demo_part = \<lparr> pd_ticket = None, pd_category = None, pd_name = ''Ana'', pd_wave_start = None \<rparr>"


theorem batch_without_start_is_dns_witness:
  "ro_status (score (\<lambda>_ _. 0) new_processor demo_course demo_part ''7'' [demo_read 2 ''F'' 3000005]) = RaceDNS \<and>
   ro_chip (score (\<lambda>_ _. 0) new_processor demo_course demo_part ''7'' [demo_read 2 ''F'' 3000005]) = None \<and>
   ro_splits (score (\<lambda>_ _. 0) new_processor demo_course demo_part ''7'' [demo_read 2 ''F'' 3000005]) = []"
proof (rule batch_without_start_is_dns)
  show "pd_wave_start demo_part = None \<or> \<not> po_allow_missing_start (pr_policy new_processor)"
    by (simp add: demo_part_def)
  show "\<forall>p \<in> set [demo_read 2 ''F'' 3000005]. \<not> is_code (start_checkpoint demo_course None) (pi_checkpoint p)"
    by code_simp
qed

theorem scoring_ignores_delivery_order_witness:
  "score (\<lambda>_ _. 0) new_processor demo_course demo_part ''7''
     (passings_of demo_course [] [demo_read 1 ''S'' 5, demo_read 2 ''F'' 3000005] ''7'') =
   score (\<lambda>_ _. 0) new_processor demo_course demo_part ''7''
     (passings_of demo_course [] [demo_read 2 ''F'' 3000005, demo_read 1 ''S'' 5] ''7'')"
  by (rule scoring_ignores_delivery_order) (simp_all add: demo_read_def)

text \<open>A runner who is still read at the finish mat 15 seconds later gets the later time.\<close>

theorem lingering_at_the_finish_costs_time:
  "ro_chip (score pace new_processor demo_course demo_part ''7''
     [demo_read 1 ''S'' 0, demo_read 2 ''F'' 600000000000, demo_read 3 ''F'' 614000000000]) = Some 600000 \<and>
   ro_chip (score pace new_processor demo_course demo_part ''7''
     [demo_read 1 ''S'' 0, demo_read 2 ''F'' 600000000000, demo_read 3 ''F'' 615000000000]) = Some 615000"
  by code_simp

end
