(* ===== verification/Results.thy ===== *)
theory Results
  imports RaceSchema
begin

text \<open>
  Race results (\<open>modules/results/service.go\<close> and \<open>parse.go\<close>): the CSV import, the ranking passes,
  lists, certificates and their templates. \<open>csv.Reader\<close> and \<open>time.Parse\<close> are parameters: the import
  takes the records that were read, an unreadable one as \<open>None\<close>.
\<close>

section \<open>Errors\<close>

abbreviation ErrEmptyCSV :: app_error where "ErrEmptyCSV \<equiv> PlainErr ''csv has no data rows''"
abbreviation ErrInvalidCSV :: app_error where "ErrInvalidCSV \<equiv> PlainErr ''invalid csv''"
abbreviation ErrMissingBibColumn :: app_error where "ErrMissingBibColumn \<equiv> PlainErr ''csv missing required bib column''"
abbreviation ErrResultNotFound :: app_error where "ErrResultNotFound \<equiv> PlainErr ''result not found''"
abbreviation ErrTemplateNotFound :: app_error where "ErrTemplateNotFound \<equiv> PlainErr ''certificate template not found''"
abbreviation ErrNoActiveTemplate :: app_error where "ErrNoActiveTemplate \<equiv> PlainErr ''no active certificate template for this event''"
abbreviation ErrCertNotEligible :: app_error where "ErrCertNotEligible \<equiv> PlainErr ''no finished result for this ticket''"
abbreviation ErrInvalidPayload :: app_error where "ErrInvalidPayload \<equiv> PlainErr ''invalid payload''"

section \<open>Columns\<close>

definition column_aliases :: "(string \<times> string) list" where
  "column_aliases =
     [(''bib'', ''bib''), (''bib_number'', ''bib''), (''bibnumber'', ''bib''), (''no_bib'', ''bib''),
      (''name'', ''name''), (''nama'', ''name''), (''participant'', ''name''),
      (''gender'', ''gender''), (''sex'', ''gender''), (''jenis_kelamin'', ''gender''),
      (''age'', ''age''), (''usia'', ''age''), (''umur'', ''age''),
      (''age_group'', ''age_group''), (''agegroup'', ''age_group''), (''kategori_usia'', ''age_group''),
      (''status'', ''status''),
      (''chip_time'', ''chip_time''), (''chiptime'', ''chip_time''), (''net_time'', ''chip_time''), (''waktu_chip'', ''chip_time''),
      (''gun_time'', ''gun_time''), (''guntime'', ''gun_time''), (''gross_time'', ''gun_time''), (''waktu_gun'', ''gun_time''),
      (''finished_at'', ''finished_at''), (''finish_time'', ''finished_at'')]"

definition normalize_header :: "string \<Rightarrow> string" where
  "normalize_header s = map (\<lambda>c. if c = CHR '' '' \<or> c = CHR ''-'' then CHR ''_'' else c) (lower (trim_space s))"

text \<open>The first column of a name counts.\<close>

fun index_from :: "nat \<Rightarrow> string list \<Rightarrow> (string \<times> nat) list \<Rightarrow> (string \<times> nat) list" where
  "index_from i [] cols = cols"
| "index_from i (cell # cells) cols =
     index_from (i + 1) cells
       (case map_of column_aliases (normalize_header cell) of
          Some name \<Rightarrow> (if map_of cols name = None then cols @ [(name, i)] else cols)
        | None \<Rightarrow> cols)"

definition index_columns :: "string list \<Rightarrow> (string \<times> nat) list" where
  "index_columns header = index_from 0 header []"

definition normalize_gender :: "string \<Rightarrow> string" where
  "normalize_gender s =
     (let u = upper (trim_space s) in
      if u \<in> set [''M'', ''MALE'', ''L'', ''LAKI'', ''LAKI-LAKI'', ''PRIA''] then ''M''
      else if u \<in> set [''F'', ''FEMALE'', ''P'', ''PEREMPUAN'', ''WANITA''] then ''F''
      else if u \<in> set [''X'', ''OTHER'', ''LAINNYA'', ''NB''] then ''X'' else [])"

text \<open>\<open>None\<close> for an unknown status; the caller never passes blank text, for which the code answers an
  empty status.\<close>

definition normalize_status :: "string \<Rightarrow> race_status option" where
  "normalize_status s =
     (let u = upper (trim_space s) in
      if u \<in> set [''FINISHED'', ''FINISH'', ''SELESAI'', ''OK'', ''DONE'', ''COMPLETED''] then Some RaceFinished
      else if u \<in> set [''DNF'', ''DID NOT FINISH''] then Some RaceDNF
      else if u \<in> set [''DNS'', ''DID NOT START''] then Some RaceDNS
      else if u \<in> set [''DSQ'', ''DISQUALIFIED'', ''DISQUALIFY'', ''DQ''] then Some RaceDSQ
      else if u \<in> set [''OTL'', ''OVER TIME'', ''OVER_CUTOFF'', ''OVER TIME LIMIT''] then Some RaceOTL else None)"

section \<open>One line\<close>

definition cell :: "(string \<times> nat) list \<Rightarrow> string list \<Rightarrow> string \<Rightarrow> string" where
  "cell cols rec name =
     (case map_of cols name of
        Some i \<Rightarrow> if i < length rec then trim_space (rec ! i) else []
      | None \<Rightarrow> [])"

text \<open>An optional time column: absent, readable or an error.\<close>

definition time_cell :: "string \<Rightarrow> string \<Rightarrow> string + int option" where
  "time_cell what s =
     (if s = [] then Inr None
      else case parse_duration_ms s of None \<Rightarrow> Inl (what @ '' tidak valid'') | Some ms \<Rightarrow> Inr (Some ms))"

definition age_cell :: "string \<Rightarrow> int option" where
  "age_cell s = (case parse_int64 s of None \<Rightarrow> None | Some n \<Rightarrow> if 0 \<le> n \<and> n \<le> 130 then Some n else None)"

definition status_cell :: "string \<Rightarrow> string + race_status" where
  "status_cell s =
     (if s = [] then Inr RaceFinished
      else case normalize_status s of None \<Rightarrow> Inl (''status tidak valid: '' @ s) | Some st \<Rightarrow> Inr st)"

text \<open>A finisher without a time counts as DNF.\<close>

definition timed_status :: "race_status \<Rightarrow> int option \<Rightarrow> int option \<Rightarrow> race_status" where
  "timed_status st chip gun = (if st = RaceFinished \<and> chip = None \<and> gun = None then RaceDNF else st)"

definition row_to_params ::
  "(string \<Rightarrow> time option) \<Rightarrow> uuid \<Rightarrow> uuid \<Rightarrow> (string \<times> nat) list \<Rightarrow> string list \<Rightarrow> string + result_params" where
  "row_to_params parse_time org ev cols rec =
     (let get = cell cols rec; bib = get ''bib''; name = get ''name'' in
      if bib = [] then Inl ''bib kosong''
      else case status_cell (get ''status'') of
        Inl e \<Rightarrow> Inl e
      | Inr st \<Rightarrow>
          (case time_cell ''chip_time'' (get ''chip_time'') of
             Inl e \<Rightarrow> Inl e
           | Inr chip \<Rightarrow>
               (case time_cell ''gun_time'' (get ''gun_time'') of
                  Inl e \<Rightarrow> Inl e
                | Inr gun \<Rightarrow>
                    Inr \<lparr> rp_org = org, rp_event = ev, rp_category = None, rp_ticket = None, rp_bib = bib,
                          rp_name = (if name = [] then bib else name),
                          rp_gender = null_text (normalize_gender (get ''gender'')),
                          rp_age = age_cell (get ''age''), rp_age_group = null_text (get ''age_group''),
                          rp_status = timed_status st chip gun, rp_chip = chip, rp_gun = gun,
                          rp_source = ''CSV'',
                          rp_finished_at = (if get ''finished_at'' = [] then None
                                            else parse_time (get ''finished_at'')) \<rparr>)))"

section \<open>Import\<close>

record import_summary =
  im_imported :: nat
  im_skipped :: nat
  im_errors :: "string list"
  im_ranked :: bool

definition recompute_ranks :: "uuid \<Rightarrow> race_db \<Rightarrow> race_db" where
  "recompute_ranks ev s = rank_age_group ev (rank_category ev (rank_gender ev (rank_overall ev s)))"

definition recompute :: "uuid \<Rightarrow> race_db \<Rightarrow> race_db" where
  "recompute ev s = race_audit ''results.recompute'' ev (recompute_ranks ev s)"

definition skip_line :: "nat \<Rightarrow> string \<Rightarrow> import_summary \<Rightarrow> import_summary" where
  "skip_line line why m = m\<lparr>im_skipped := im_skipped m + 1,
     im_errors := im_errors m @ [''baris '' @ dec line @ '': '' @ why]\<rparr>"

fun import_lines ::
  "(string \<Rightarrow> time option) \<Rightarrow> (nat \<Rightarrow> uuid) \<Rightarrow> uuid \<Rightarrow> uuid \<Rightarrow> (string \<times> nat) list \<Rightarrow> nat \<Rightarrow>
    string list option list \<Rightarrow> import_summary \<Rightarrow> race_db \<Rightarrow> import_summary \<times> race_db" where
  "import_lines parse_time new_id org ev cols line [] m s = (m, s)"
| "import_lines parse_time new_id org ev cols line (None # recs) m s =
     import_lines parse_time new_id org ev cols (line + 1) recs (skip_line line ''format tidak valid'' m) s"
| "import_lines parse_time new_id org ev cols line (Some rec # recs) m s =
     (case row_to_params parse_time org ev cols rec of
        Inl e \<Rightarrow> import_lines parse_time new_id org ev cols (line + 1) recs (skip_line line e m) s
      | Inr p \<Rightarrow>
          (case upsert_race_result (new_id line) p s of
             (Inl e, s') \<Rightarrow> import_lines parse_time new_id org ev cols (line + 1) recs (skip_line line ''gagal simpan'' m) s'
           | (Inr r, s') \<Rightarrow> import_lines parse_time new_id org ev cols (line + 1) recs
                              (m\<lparr>im_imported := im_imported m + 1\<rparr>) s'))"

datatype csv_header = HeaderEOF | HeaderError | Header "string list"

definition import_csv ::
  "(string \<Rightarrow> time option) \<Rightarrow> (nat \<Rightarrow> uuid) \<Rightarrow> uuid \<Rightarrow> uuid \<Rightarrow> csv_header \<Rightarrow> string list option list \<Rightarrow> race_db \<Rightarrow>
    import_summary res \<times> race_db" where
  "import_csv parse_time new_id org ev header recs s =
     (case header of
        HeaderEOF \<Rightarrow> (Inl ErrEmptyCSV, s)
      | HeaderError \<Rightarrow> (Inl ErrInvalidCSV, s)
      | Header h \<Rightarrow>
          if map_of (index_columns h) ''bib'' = None then (Inl ErrMissingBibColumn, s)
          else
            (case import_lines parse_time new_id org ev (index_columns h) 2 recs
                    \<lparr> im_imported = 0, im_skipped = 0, im_errors = [], im_ranked = False \<rparr> s of
               (m, s1) \<Rightarrow>
                 let s2 = (if im_imported m > 0 then recompute_ranks ev s1 else s1);
                     m2 = (if im_imported m > 0 then m\<lparr>im_ranked := True\<rparr> else m)
                 in (Inr m2, race_audit ''results.import'' ev s2)))"

section \<open>Reading\<close>

definition list_results ::
  "uuid \<Rightarrow> uuid option \<Rightarrow> string \<Rightarrow> int \<Rightarrow> int \<Rightarrow> race_db \<Rightarrow> race_result list \<times> nat" where
  "list_results ev cat gender lim off s =
     (let lim = (if lim \<le> 0 \<or> lim > 500 then 100 else lim) in
      (list_race_results ev (nat lim) (nat off) cat (null_text gender) s,
       count_race_results ev cat (null_text gender) s))"

definition get_by_bib :: "uuid \<Rightarrow> string \<Rightarrow> race_db \<Rightarrow> race_result res" where
  "get_by_bib ev bib s = (case get_race_result_by_bib ev bib s of None \<Rightarrow> Inl ErrResultNotFound | Some r \<Rightarrow> Inr r)"

definition get_by_ticket :: "uuid \<Rightarrow> race_db \<Rightarrow> race_result res" where
  "get_by_ticket t s = (case get_race_result_by_ticket t s of None \<Rightarrow> Inl ErrResultNotFound | Some r \<Rightarrow> Inr r)"

definition delete_all :: "uuid \<Rightarrow> race_db \<Rightarrow> race_db" where
  "delete_all ev s = race_audit ''results.delete_all'' ev (delete_race_results_by_event ev s)"

section \<open>Certificates\<close>

text \<open>\<open>strings.ReplaceAll\<close> with a non-empty old text.\<close>

function replace_all :: "string \<Rightarrow> string \<Rightarrow> string \<Rightarrow> string" where
  "replace_all old new s =
     (if old = [] \<or> s = [] then s
      else if take (length old) s = old then new @ replace_all old new (drop (length old) s)
      else hd s # replace_all old new (tl s))"
  by pat_completeness auto
termination
  by (relation "measure (\<lambda>(old, new, s). length s)") (auto simp: less_Suc_eq_le length_greater_0_conv [symmetric] simp del: length_greater_0_conv)

declare replace_all.simps [simp del]

fun has_open_braces :: "string \<Rightarrow> bool" where
  "has_open_braces (a # b # cs) = (a = CHR ''{'' \<and> b = CHR ''{'' \<or> has_open_braces (b # cs))"
| "has_open_braces _ = False"

definition apply_placeholders :: "(string \<times> string) list \<Rightarrow> string \<Rightarrow> string" where
  "apply_placeholders subs text =
     (if text = [] \<or> \<not> has_open_braces text then text
      else fold (\<lambda>(key, val). replace_all (''{{'' @ key @ ''}}'') val) subs text)"

definition time_text :: "int option \<Rightarrow> string" where
  "time_text t = (case t of None \<Rightarrow> [] | Some ms \<Rightarrow> format_duration ms)"

definition text_or_empty :: "string option \<Rightarrow> string" where
  "text_or_empty t = (case t of None \<Rightarrow> [] | Some x \<Rightarrow> x)"

record certificate_data =
  cd_participant :: string
  cd_event :: string
  cd_sport :: string
  cd_discipline :: string
  cd_category :: string
  cd_rank :: string
  cd_score :: string
  cd_official :: string
  cd_date :: string
  cd_bib :: string
  cd_team :: string

definition generic_certificate_substitutions :: "certificate_data \<Rightarrow> (string \<times> string) list" where
  "generic_certificate_substitutions d =
     (let res = (if cd_official d = [] then cd_score d else cd_official d) in
      [(''name'', cd_participant d), (''participant_name'', cd_participant d), (''event_name'', cd_event d),
       (''sport'', cd_sport d), (''discipline'', cd_discipline d), (''category'', cd_category d),
       (''rank'', cd_rank d), (''score'', cd_score d), (''official_result'', res), (''time'', res),
       (''competition_date'', cd_date d), (''bib'', cd_bib d), (''team'', cd_team d)])"

definition certificate_substitutions :: "race_result \<Rightarrow> (string \<times> string) list" where
  "certificate_substitutions r =
     (let t = (if time_text (rr_chip r) = [] then time_text (rr_gun r) else time_text (rr_chip r)) in
      generic_certificate_substitutions
        \<lparr> cd_participant = rr_name r, cd_event = [], cd_sport = [], cd_discipline = [],
          cd_category = text_or_empty (rr_age_group r),
          cd_rank = (case rr_rank_overall r of None \<Rightarrow> [] | Some k \<Rightarrow> dec_int k),
          cd_score = t, cd_official = t, cd_date = [], cd_bib = rr_bib r, cd_team = [] \<rparr>)"

record certificate_render =
  re_title :: string
  re_subtitle :: string
  re_body :: string
  re_background :: string

text \<open>\<open>visit\<close> is the order in which Go walks the map of placeholders.\<close>

definition get_certificate ::
  "((string \<times> string) list \<Rightarrow> (string \<times> string) list) \<Rightarrow> uuid \<Rightarrow> uuid \<Rightarrow> race_db \<Rightarrow> certificate_render res" where
  "get_certificate visit ev tid s =
     (case get_race_result_by_ticket tid s of
        None \<Rightarrow> Inl ErrCertNotEligible
      | Some r \<Rightarrow>
          if rr_status r \<noteq> RaceFinished then Inl ErrCertNotEligible
          else case get_active_certificate_template ev s of
            None \<Rightarrow> Inl ErrNoActiveTemplate
          | Some t \<Rightarrow>
              let subs = visit (certificate_substitutions r) in
              Inr \<lparr> re_title = apply_placeholders subs (ct_title t),
                    re_subtitle = apply_placeholders subs (ct_subtitle t),
                    re_body = apply_placeholders subs (ct_body t),
                    re_background = text_or_empty (ct_background t) \<rparr>)"

section \<open>Templates\<close>

record template_request =
  tr_name :: string
  tr_title :: string
  tr_subtitle :: string
  tr_body :: string
  tr_background :: string
  tr_active :: bool

definition template_params_of :: "uuid \<Rightarrow> uuid \<Rightarrow> template_request \<Rightarrow> template_params" where
  "template_params_of org ev rq =
     (let title = trim_space (tr_title rq) in
      \<lparr> tp_org = org, tp_event = ev, tp_name = trim_space (tr_name rq),
        tp_title = (if title = [] then ''Certificate of Completion'' else title),
        tp_subtitle = tr_subtitle rq, tp_body = tr_body rq,
        tp_background = null_text (trim_space (tr_background rq)), tp_active = tr_active rq \<rparr>)"

text \<open>The other templates are deactivated first, and no transaction takes that back.\<close>

definition make_room :: "bool \<Rightarrow> uuid \<Rightarrow> race_db \<Rightarrow> race_db" where
  "make_room active ev s = (if active then deactivate_certificate_templates_for_event ev s else s)"

definition create_template :: "uuid \<Rightarrow> uuid \<Rightarrow> uuid \<Rightarrow> template_request \<Rightarrow> race_db \<Rightarrow> certificate_template res \<times> race_db" where
  "create_template i org ev rq s =
     and_then (require (trim_space (tr_name rq) \<noteq> []) ErrInvalidPayload s) (\<lambda>_ s.
     and_then (create_certificate_template i (template_params_of org ev rq) (make_room (tr_active rq) ev s)) (\<lambda>t s.
     (Inr t, race_audit ''results.template_created'' (ct_id t) s)))"

definition update_template :: "uuid \<Rightarrow> uuid \<Rightarrow> template_request \<Rightarrow> race_db \<Rightarrow> certificate_template res \<times> race_db" where
  "update_template org i rq s =
     and_then (found ErrTemplateNotFound (get_certificate_template_by_id i s) s) (\<lambda>old s.
     and_then (require (ct_org old = org) ErrTemplateNotFound s) (\<lambda>_ s.
     and_then (update_certificate_template i (template_params_of org (ct_event old) rq)
                 (make_room (tr_active rq) (ct_event old) s)) (\<lambda>t s.
     (Inr t, race_audit ''results.template_updated'' (ct_id t) s))))"

definition delete_template :: "uuid \<Rightarrow> uuid \<Rightarrow> race_db \<Rightarrow> race_db" where
  "delete_template org i s = race_audit ''results.template_deleted'' i (delete_certificate_template i org s)"


section \<open>Ranks\<close>

text \<open>A column of ranks is right when every ranked row counts the rows of its partition before it.\<close>

definition column_ranked ::
  "(race_result \<Rightarrow> int option) \<Rightarrow> (race_result \<Rightarrow> bool) \<Rightarrow> (race_result \<Rightarrow> 'k) \<Rightarrow>
    (race_result \<Rightarrow> race_result \<Rightarrow> bool) \<Rightarrow> race_result list \<Rightarrow> bool" where
  "column_ranked get ranked part before rs \<longleftrightarrow>
     (\<forall>r \<in> set rs. ranked r \<longrightarrow>
        get r = Some (1 + int (cnt (\<lambda>x. ranked x \<and> part x = part r \<and> before x r) rs)))"

text \<open>What a ranking pass needs of its column: writing the rank changes neither who is ranked, nor the
  partition, nor the order.\<close>

locale rank_column =
  fixes ranked :: "race_result \<Rightarrow> bool" and part :: "race_result \<Rightarrow> 'k"
    and before :: "race_result \<Rightarrow> race_result \<Rightarrow> bool"
    and put :: "int option \<Rightarrow> race_result \<Rightarrow> race_result" and get :: "race_result \<Rightarrow> int option"
  assumes ranked_put: "ranked (put k r) = ranked r" and part_put: "part (put k r) = part r"
    and before_put: "before (put k x) y = before x y" "before x (put k y) = before x y"
    and get_put: "get (put k r) = k"
begin

lemma rank_pass_ranks: "column_ranked get ranked part before (rank_pass ranked part before put rs)"
proof -
  define f where "f r = (if ranked r
    then put (Some (1 + int (cnt (\<lambda>x. ranked x \<and> part x = part r \<and> before x r) rs))) r else r)" for r
  have f: "ranked (f r) = ranked r" "part (f r) = part r" "before (f x) y = before x y" "before x (f y) = before x y"
    for r x y by (simp_all add: f_def ranked_put part_put before_put)
  have "rank_pass ranked part before put rs = map f rs" by (simp add: rank_pass_def f_def)
  moreover have "cnt P (map f rs) = cnt (\<lambda>x. P (f x)) rs" for P by (induction rs) simp_all
  moreover have "get (f r) = Some (1 + int (cnt (\<lambda>x. ranked x \<and> part x = part r \<and> before x r) rs))"
    if "ranked r" for r using that by (simp add: f_def get_put)
  ultimately show ?thesis by (auto simp: column_ranked_def f)
qed

end

text \<open>A row that is not ranked keeps what the column held.\<close>

lemma rank_pass_leaves: "r \<in> set rs \<Longrightarrow> \<not> ranked r \<Longrightarrow> r \<in> set (rank_pass ranked part before put rs)"
  by (force simp: rank_pass_def)

lemma column_ranked_map:
  assumes "column_ranked get ranked part before rs"
    "\<And>r. ranked (f r) = ranked r" "\<And>r. part (f r) = part r" "\<And>x y. before (f x) (f y) = before x y" "\<And>r. get (f r) = get r"
  shows "column_ranked get ranked part before (map f rs)"
proof -
  have "cnt P (map f rs) = cnt (\<lambda>x. P (f x)) rs" for P by (induction rs) simp_all
  with assms show ?thesis by (simp add: column_ranked_def)
qed

lemma keys_keep:
  "gun_key (r\<lparr>rr_rank_overall := k\<rparr>) = gun_key r" "gun_key (r\<lparr>rr_rank_gender := k\<rparr>) = gun_key r"
  "gun_key (r\<lparr>rr_rank_category := k\<rparr>) = gun_key r" "gun_key (r\<lparr>rr_rank_age_group := k\<rparr>) = gun_key r"
  "chip_key (r\<lparr>rr_rank_overall := k\<rparr>) = chip_key r" "chip_key (r\<lparr>rr_rank_gender := k\<rparr>) = chip_key r"
  "chip_key (r\<lparr>rr_rank_category := k\<rparr>) = chip_key r" "chip_key (r\<lparr>rr_rank_age_group := k\<rparr>) = chip_key r"
  by (simp_all add: gun_key_def chip_key_def split: option.split)

lemmas rank_keys = timed_finisher_def by_gun_def by_chip_def keys_keep

interpretation overall: rank_column "timed_finisher ev" "\<lambda>_. ()" by_gun "\<lambda>k r. r\<lparr>rr_rank_overall := k\<rparr>" rr_rank_overall
  for ev by unfold_locales (simp_all add: rank_keys)

interpretation gender: rank_column "\<lambda>r. timed_finisher ev r \<and> rr_gender r \<noteq> None" rr_gender by_gun
    "\<lambda>k r. r\<lparr>rr_rank_gender := k\<rparr>" rr_rank_gender
  for ev by unfold_locales (simp_all add: rank_keys)

interpretation cat: rank_column "\<lambda>r. timed_finisher ev r \<and> rr_category r \<noteq> None" rr_category by_gun
    "\<lambda>k r. r\<lparr>rr_rank_category := k\<rparr>" rr_rank_category
  for ev by unfold_locales (simp_all add: rank_keys)

interpretation age: rank_column "\<lambda>r. timed_finisher ev r \<and> rr_age_group r \<noteq> None" rr_age_group by_chip
    "\<lambda>k r. r\<lparr>rr_rank_age_group := k\<rparr>" rr_rank_age_group
  for ev by unfold_locales (simp_all add: rank_keys)

lemma column_ranked_pass:
  assumes "column_ranked get ranked part before rs"
    "\<And>k r. ranked (put k r) = ranked r" "\<And>k r. part (put k r) = part r"
    "\<And>k x y. before (put k x) y = before x y" "\<And>k x y. before x (put k y) = before x y" "\<And>k r. get (put k r) = get r"
  shows "column_ranked get ranked part before (rank_pass rk pt bf put rs)"
  unfolding rank_pass_def using assms by (intro column_ranked_map) simp_all

lemma recompute_ranks_columns:
  "column_ranked rr_rank_overall (timed_finisher ev) (\<lambda>_. ()) by_gun (race_results (recompute_ranks ev s)) \<and>
   column_ranked rr_rank_gender (\<lambda>r. timed_finisher ev r \<and> rr_gender r \<noteq> None) rr_gender by_gun
     (race_results (recompute_ranks ev s)) \<and>
   column_ranked rr_rank_category (\<lambda>r. timed_finisher ev r \<and> rr_category r \<noteq> None) rr_category by_gun
     (race_results (recompute_ranks ev s)) \<and>
   column_ranked rr_rank_age_group (\<lambda>r. timed_finisher ev r \<and> rr_age_group r \<noteq> None) rr_age_group by_chip
     (race_results (recompute_ranks ev s))"
proof -
  have rows: "race_results (recompute_ranks ev s) =
      rank_pass (\<lambda>r. timed_finisher ev r \<and> rr_age_group r \<noteq> None) rr_age_group by_chip (\<lambda>k r. r\<lparr>rr_rank_age_group := k\<rparr>)
       (rank_pass (\<lambda>r. timed_finisher ev r \<and> rr_category r \<noteq> None) rr_category by_gun (\<lambda>k r. r\<lparr>rr_rank_category := k\<rparr>)
        (rank_pass (\<lambda>r. timed_finisher ev r \<and> rr_gender r \<noteq> None) rr_gender by_gun (\<lambda>k r. r\<lparr>rr_rank_gender := k\<rparr>)
         (rank_pass (timed_finisher ev) (\<lambda>_. ()) by_gun (\<lambda>k r. r\<lparr>rr_rank_overall := k\<rparr>) (race_results s))))"
    by (simp add: recompute_ranks_def rank_overall_def rank_gender_def rank_category_def rank_age_group_def)
  show ?thesis unfolding rows
    by (intro conjI age.rank_pass_ranks column_ranked_pass cat.rank_pass_ranks gender.rank_pass_ranks
        overall.rank_pass_ranks) (simp_all add: rank_keys)
qed


text \<open>Earlier is better: the ranks of two timed finishers compare as their times do.\<close>

lemma by_gun_trans: "by_gun a b \<Longrightarrow> by_gun b c \<Longrightarrow> by_gun a c"
  unfolding by_gun_def nulls_last_def by (auto split: option.splits)

lemma by_gun_irrefl: "\<not> by_gun a a"
  by (auto simp: by_gun_def nulls_last_def split: option.splits)

theorem better_time_better_rank:
  assumes "s' = recompute_ranks ev s" "a \<in> set (race_results s')" "b \<in> set (race_results s')"
    "timed_finisher ev a" "timed_finisher ev b" "by_gun a b"
  shows "\<exists>i j. rr_rank_overall a = Some i \<and> rr_rank_overall b = Some j \<and> 1 \<le> i \<and> i < j"
proof -
  let ?before = "\<lambda>r x. timed_finisher ev x \<and> () = () \<and> by_gun x r" and ?rs = "race_results s'"
  have ranked: "column_ranked rr_rank_overall (timed_finisher ev) (\<lambda>_. ()) by_gun ?rs"
    using recompute_ranks_columns [of ev s] assms(1) by blast
  have "length (filter (?before a) ?rs) < length (filter (?before b) ?rs)"
  proof -
    have "filter (?before a) ?rs = filter (?before a) (filter (?before b) ?rs)"
      using assms(6) by_gun_trans by (auto intro!: filter_cong)
    moreover have "a \<in> set (filter (?before b) ?rs)" "\<not> ?before a a" using assms by_gun_irrefl by auto
    ultimately show ?thesis by (metis (no_types, lifting) length_filter_less)
  qed
  with ranked assms(2-5) show ?thesis by (simp add: column_ranked_def cnt_def)
qed


section \<open>Storing a line\<close>

lemma upsert_Inr:
  assumes "upsert_race_result i p s = (Inr r, s')"
  shows "\<exists>rs. s' = s\<lparr>race_results := rs\<rparr> \<and> result_checks p \<and>
    ((\<exists>old. sel (same_result (rp_event p) (rp_bib p)) (race_results s) = Some old \<and> r = fill_result p old \<and>
        rs = upd (same_result (rp_event p) (rp_bib p)) (fill_result p) (race_results s)) \<or>
     (sel (same_result (rp_event p) (rp_bib p)) (race_results s) = None \<and> r = new_result i p \<and>
        rs = race_results s @ [r]))"
  using assms by (auto simp: upsert_race_result_def Let_def upd_one_def split: if_splits option.splits)

lemma upsert_Inl: "upsert_race_result i p s = (Inl e, s') \<Longrightarrow> s' = s"
  by (auto simp: upsert_race_result_def Let_def split: if_splits option.splits prod.splits)

text \<open>Storing a result does not reset its ranks and ranking skips who did not finish: the rank stays.\<close>

theorem disqualified_keeps_rank:
  assumes "upsert_race_result i p s = (Inr r, s')" "rp_status p \<noteq> RaceFinished"
    "sel (same_result (rp_event p) (rp_bib p)) (race_results s) = Some old"
  shows "r \<in> set (race_results (recompute_ranks (rp_event p) s')) \<and> rr_status r = rp_status p \<and>
    rr_rank_overall r = rr_rank_overall old"
proof -
  let ?ev = "rp_event p"
  from upsert_Inr [OF assms(1)] assms(3) have r: "r = fill_result p old"
    "race_results s' = upd (same_result ?ev (rp_bib p)) (fill_result p) (race_results s)" by auto
  have "r \<in> set (race_results s')"
    unfolding r using sel_SomeD [OF assms(3)] by (intro upd_changed) auto
  moreover have "\<not> timed_finisher ?ev r" using assms(2) by (simp add: r(1) fill_result_def timed_finisher_def)
  ultimately have "r \<in> set (race_results (recompute_ranks ?ev s'))"
    by (auto simp: recompute_ranks_def rank_overall_def rank_gender_def rank_category_def rank_age_group_def
        intro!: rank_pass_leaves)
  with r(1) show ?thesis by (simp add: fill_result_def)
qed

lemma row_to_params_fields:
  "row_to_params parse_time org ev cols rec = Inr p \<Longrightarrow>
     rp_event p = ev \<and> rp_org p = org \<and> rp_ticket p = None \<and> rp_category p = None \<and> rp_source p = ''CSV'' \<and> rp_bib p \<noteq> []"
  by (auto simp: row_to_params_def Let_def split: if_splits sum.splits)

text \<open>A line of the import unlinks the ticket of its bib, and with it the certificate.\<close>

theorem csv_line_unlinks_ticket:
  assumes "row_to_params parse_time org ev cols rec = Inr p" "upsert_race_result i p s = (Inr r, s')"
    "\<forall>x \<in> set (race_results s). rr_ticket x = Some t \<longrightarrow> same_result ev (rp_bib p) x"
  shows "get_certificate visit ev2 t s' = Inl ErrCertNotEligible"
proof -
  have p: "rp_event p = ev" "rp_ticket p = None" using row_to_params_fields [OF assms(1)] by auto
  have "rr_ticket x \<noteq> Some t" if x: "x \<in> set (race_results s')" for x
  proof -
    from upsert_Inr [OF assms(2)] x consider
      y where "y \<in> set (race_results s)" "x = (if same_result ev (rp_bib p) y then fill_result p y else y)"
      | "x = new_result i p" | "x \<in> set (race_results s)" "sel (same_result ev (rp_bib p)) (race_results s) = None"
      by (auto simp: p set_upd)
    then show ?thesis
    proof cases
      case 1
      with assms(3) p show ?thesis by (auto simp: fill_result_def)
    next
      case 2
      with p show ?thesis by (simp add: new_result_def)
    next
      case 3
      with assms(3) show ?thesis using sel_NoneD by fastforce
    qed
  qed
  then have "get_race_result_by_ticket t s' = None" by (simp add: get_race_result_by_ticket_def sel_None_iff)
  then show ?thesis by (simp add: get_certificate_def)
qed

section \<open>Importing a file again\<close>

text \<open>The lines that the database accepts, in order.\<close>

fun accepted :: "(string \<Rightarrow> time option) \<Rightarrow> uuid \<Rightarrow> uuid \<Rightarrow> (string \<times> nat) list \<Rightarrow> string list option list \<Rightarrow> result_params list" where
  "accepted parse_time org ev cols [] = []"
| "accepted parse_time org ev cols (None # recs) = accepted parse_time org ev cols recs"
| "accepted parse_time org ev cols (Some rec # recs) =
     (case row_to_params parse_time org ev cols rec of
        Inr p \<Rightarrow> if result_checks p then p # accepted parse_time org ev cols recs
                  else accepted parse_time org ev cols recs
      | Inl e \<Rightarrow> accepted parse_time org ev cols recs)"

definition last_for :: "result_params list \<Rightarrow> race_result \<Rightarrow> result_params option" where
  "last_for ps r = sel (\<lambda>p. same_result (rp_event p) (rp_bib p) r) (rev ps)"

text \<open>What a list of accepted lines makes of rows that are all there.\<close>

definition settle :: "result_params list \<Rightarrow> race_result \<Rightarrow> race_result" where
  "settle ps r = (case last_for ps r of None \<Rightarrow> r | Some p \<Rightarrow> fill_result p r)"

lemma fill_fill: "fill_result p (fill_result q r) = fill_result p r"
  by (simp add: fill_result_def)

lemma same_fill [simp]: "same_result ev b (fill_result p r) = same_result ev b r"
  by (simp add: same_result_def fill_result_def)

lemma last_for_fill [simp]: "last_for ps (fill_result p r) = last_for ps r"
  by (simp add: last_for_def)

lemma settle_snoc:
  "settle (ps @ [p]) r = (if same_result (rp_event p) (rp_bib p) r then fill_result p (settle ps r) else settle ps r)"
  by (simp add: settle_def last_for_def fill_fill split: option.split)

lemma settle_Cons:
  "settle (p # ps) r = settle ps (if same_result (rp_event p) (rp_bib p) r then fill_result p r else r)"
  by (auto simp: settle_def last_for_def sel_append fill_fill split: option.split)


text \<open>Importing accepted lines twice: each row is settled, so the second pass changes nothing.\<close>

definition covers :: "result_params list \<Rightarrow> race_result list \<Rightarrow> bool" where
  "covers ps rs \<longleftrightarrow> (\<forall>p \<in> set ps. \<exists>r \<in> set rs. same_result (rp_event p) (rp_bib p) r)"

definition import_ok :: "uuid \<Rightarrow> race_db \<Rightarrow> bool" where
  "import_ok ev s \<longleftrightarrow> ev \<in> e_id ` set (events (rbase s))"

lemma upsert_accepts:
  assumes "import_ok ev s" "rp_event p = ev" "rp_category p = None" "rp_ticket p = None" "result_checks p"
    "\<exists>x \<in> set (race_results s). same_result ev (rp_bib p) x"
  shows "\<exists>r. upsert_race_result i p s =
    (Inr r, s\<lparr>race_results := upd (same_result ev (rp_bib p)) (fill_result p) (race_results s)\<rparr>)"
  using assms by (auto simp: upsert_race_result_def import_ok_def upd_one_def sel_None_iff split: option.split)

lemma accepted_fields:
  "p \<in> set (accepted parse_time org ev cols recs) \<Longrightarrow>
     rp_event p = ev \<and> rp_ticket p = None \<and> rp_category p = None \<and> result_checks p"
  by (induction recs rule: accepted.induct [where ?a0.0 = parse_time and ?a1.0 = org and ?a2.0 = ev and ?a3.0 = cols])
    (auto dest: row_to_params_fields split: sum.splits if_splits)


lemma covers_upd: "covers ps rs \<Longrightarrow> covers ps (upd P (fill_result p) rs)"
proof -
  assume cov: "covers ps rs"
  have "\<exists>x \<in> set (upd P (fill_result p) rs). same_result (rp_event q) (rp_bib q) x" if "q \<in> set ps" for q
  proof -
    from cov that obtain r where r: "r \<in> set rs" "same_result (rp_event q) (rp_bib q) r" by (auto simp: covers_def)
    then have "(if P r then fill_result p r else r) \<in> set (upd P (fill_result p) rs)" by (simp add: set_upd)
    with r(2) show ?thesis by (metis same_fill)
  qed
  then show ?thesis by (simp add: covers_def)
qed

lemma upsert_refuses: "\<not> result_checks p \<Longrightarrow> upsert_race_result i p s = (Inl (CheckViolation ''race_results''), s)"
  by (simp add: upsert_race_result_def)

lemma import_again:
  assumes "import_ok ev s" "covers (accepted parse_time org ev cols recs) (race_results s)"
  shows "\<exists>m'. import_lines parse_time new_id org ev cols line recs m s =
      (m', s\<lparr>race_results := map (settle (accepted parse_time org ev cols recs)) (race_results s)\<rparr>) \<and>
    im_imported m' = im_imported m + length (accepted parse_time org ev cols recs)"
  using assms
proof (induction parse_time new_id org ev cols line recs m s rule: import_lines.induct)
  case (1 parse_time new_id org ev cols line m s)
  then show ?case by (simp add: settle_def last_for_def)
next
  case (2 parse_time new_id org ev cols line recs m s)
  then show ?case by (simp add: skip_line_def)
next
  case (3 parse_time new_id org ev cols line rec recs m s)
  show ?case
  proof (cases "row_to_params parse_time org ev cols rec")
    case (Inl e)
    with 3 show ?thesis by (simp add: skip_line_def)
  next
    case (Inr p)
    note p = row_to_params_fields [OF Inr]
    show ?thesis
    proof (cases "result_checks p")
      case False
      with Inr 3 show ?thesis by (simp add: upsert_refuses skip_line_def)
    next
      case True
      let ?s1 = "s\<lparr>race_results := upd (same_result ev (rp_bib p)) (fill_result p) (race_results s)\<rparr>"
      obtain r where up: "upsert_race_result (new_id line) p s = (Inr r, ?s1)"
        using upsert_accepts [OF 3(4), of p "new_id line"] p True 3(5) Inr by (auto simp: covers_def)
      have "covers (accepted parse_time org ev cols recs) (race_results s)"
        using 3(5) Inr True by (simp add: covers_def)
      then have "covers (accepted parse_time org ev cols recs) (race_results ?s1)" by (simp add: covers_upd)
      moreover have "import_ok ev ?s1" using 3(4) by (simp add: import_ok_def)
      moreover have "map (settle (accepted parse_time org ev cols recs)) (race_results ?s1) =
          map (settle (accepted parse_time org ev cols (Some rec # recs))) (race_results s)"
        using Inr True p by (simp add: upd_def settle_Cons comp_def)
      ultimately show ?thesis using 3(3) [OF Inr up [symmetric] refl] Inr True up by force
    qed
  qed
qed

text \<open>A first import leaves every accepted line settled.\<close>

definition settled :: "result_params list \<Rightarrow> race_result list \<Rightarrow> bool" where
  "settled ps rs \<longleftrightarrow> covers ps rs \<and> (\<forall>r \<in> set rs. settle ps r = r)"

definition fresh_from :: "nat \<Rightarrow> (nat \<Rightarrow> uuid) \<Rightarrow> race_db \<Rightarrow> bool" where
  "fresh_from line new_id s \<longleftrightarrow> inj new_id \<and> (\<forall>k \<ge> line. new_id k \<notin> rr_id ` set (race_results s))"

lemma settle_cases: "settle ps r = r \<or> (\<exists>q. settle ps r = fill_result q r)"
  by (auto simp: settle_def split: option.split)

lemma fill_new: "fill_result p (new_result i p) = new_result i p"
  by (simp add: fill_result_def new_result_def)

lemma same_new: "same_result (rp_event p) (rp_bib p) (new_result i p)"
  by (simp add: same_result_def new_result_def)

lemma settled_snoc:
  assumes "settled ps rs"
    "rs' = upd (same_result (rp_event p) (rp_bib p)) (fill_result p) rs \<and> (\<exists>x \<in> set rs. same_result (rp_event p) (rp_bib p) x) \<or>
     rs' = rs @ [new_result i p] \<and> (\<forall>x \<in> set rs. \<not> same_result (rp_event p) (rp_bib p) x)"
  shows "settled (ps @ [p]) rs'"
proof -
  let ?same = "same_result (rp_event p) (rp_bib p)"
  have fill: "fill_result p (settle ps x) = fill_result p x" for x
    using settle_cases [of ps x] by (auto simp: fill_fill)
  from assms(2) show ?thesis
  proof
    assume u: "rs' = upd ?same (fill_result p) rs \<and> (\<exists>x \<in> set rs. ?same x)"
    then have "covers (ps @ [p]) rs" using assms(1) by (auto simp: settled_def covers_def)
    with u have "covers (ps @ [p]) rs'" using covers_upd by blast
    moreover have "settle (ps @ [p]) r = r" if "r \<in> set rs'" for r
      using that assms(1) u by (auto simp: set_upd settle_snoc fill fill_fill settled_def)
    ultimately show ?thesis by (simp add: settled_def)
  next
    assume u: "rs' = rs @ [new_result i p] \<and> (\<forall>x \<in> set rs. \<not> ?same x)"
    then have "covers (ps @ [p]) rs'" using assms(1) same_new by (auto simp: settled_def covers_def)
    moreover have "settle (ps @ [p]) r = r" if "r \<in> set rs'" for r
      using that assms(1) u by (auto simp: settle_snoc fill fill_new same_new settled_def)
    ultimately show ?thesis by (simp add: settled_def)
  qed
qed


lemma upsert_fresh:
  assumes "import_ok ev s" "rp_event p = ev" "rp_category p = None" "rp_ticket p = None" "result_checks p"
    "fresh_from line new_id s" "settled ps (race_results s)"
  shows "\<exists>r rs. upsert_race_result (new_id line) p s = (Inr r, s\<lparr>race_results := rs\<rparr>) \<and>
    settled (ps @ [p]) rs \<and> fresh_from (Suc line) new_id (s\<lparr>race_results := rs\<rparr>)"
proof (cases "sel (same_result ev (rp_bib p)) (race_results s)")
  case None
  let ?n = "new_result (new_id line) p"
  have "upsert_race_result (new_id line) p s = (Inr ?n, s\<lparr>race_results := race_results s @ [?n]\<rparr>)"
    using assms None by (auto simp: upsert_race_result_def import_ok_def upd_one_def fresh_from_def)
  moreover have "settled (ps @ [p]) (race_results s @ [?n])"
    using assms(2,7) None by (intro settled_snoc [of ps "race_results s"]) (auto simp: sel_None_iff)
  moreover have "fresh_from (Suc line) new_id (s\<lparr>race_results := race_results s @ [?n]\<rparr>)"
    using assms(6) by (auto simp: fresh_from_def new_result_def dest: injD)
  ultimately show ?thesis by blast
next
  case (Some old)
  let ?rs = "upd (same_result ev (rp_bib p)) (fill_result p) (race_results s)"
  have ex: "\<exists>x \<in> set (race_results s). same_result ev (rp_bib p) x" using sel_SomeD [OF Some] by blast
  then have "settled (ps @ [p]) ?rs" using assms(2,7) by (intro settled_snoc [of ps "race_results s"]) auto
  moreover have "fresh_from (Suc line) new_id (s\<lparr>race_results := ?rs\<rparr>)"
  proof -
    have "map rr_id ?rs = map rr_id (race_results s)" by (rule map_upd) (simp add: fill_result_def)
    then have "rr_id ` set ?rs = rr_id ` set (race_results s)" by (metis set_map)
    with assms(6) show ?thesis by (simp add: fresh_from_def)
  qed
  ultimately show ?thesis using upsert_accepts [OF assms(1-5) ex, of "new_id line"] by blast
qed

lemma import_first:
  assumes "import_ok ev s" "fresh_from line new_id s" "settled ps (race_results s)"
  shows "\<exists>m' rs. import_lines parse_time new_id org ev cols line recs m s = (m', s\<lparr>race_results := rs\<rparr>) \<and>
    settled (ps @ accepted parse_time org ev cols recs) rs \<and>
    im_imported m' = im_imported m + length (accepted parse_time org ev cols recs)"
  using assms
proof (induction parse_time new_id org ev cols line recs m s arbitrary: ps rule: import_lines.induct)
  case (1 parse_time new_id org ev cols line m s)
  then show ?case by (intro exI [of _ m] exI [of _ "race_results s"]) simp
next
  case (2 parse_time new_id org ev cols line recs m s)
  have "fresh_from (line + 1) new_id s" using 2(3) by (simp add: fresh_from_def)
  from 2(1) [OF 2(2) this 2(4)] show ?case by (simp add: skip_line_def)
next
  case (3 parse_time new_id org ev cols line rec recs m s)
  have fresh: "fresh_from (line + 1) new_id s" using 3(5) by (simp add: fresh_from_def)
  show ?case
  proof (cases "row_to_params parse_time org ev cols rec")
    case (Inl e)
    from 3(1) [OF Inl 3(4) fresh 3(6)] Inl show ?thesis by (simp add: skip_line_def)
  next
    case (Inr p)
    note p = row_to_params_fields [OF Inr]
    show ?thesis
    proof (cases "result_checks p")
      case False
      from 3(2) [OF Inr upsert_refuses [OF False, symmetric] refl 3(4) fresh 3(6)] Inr False
      show ?thesis by (simp add: upsert_refuses skip_line_def)
    next
      case True
      obtain r rs where up: "upsert_race_result (new_id line) p s = (Inr r, s\<lparr>race_results := rs\<rparr>)"
        "settled (ps @ [p]) rs" "fresh_from (Suc line) new_id (s\<lparr>race_results := rs\<rparr>)"
        using upsert_fresh [OF 3(4), of p line new_id ps] True 3(5,6) p by auto
      have "import_ok ev (s\<lparr>race_results := rs\<rparr>)" using 3(4) by (simp add: import_ok_def)
      moreover have "fresh_from (line + 1) new_id (s\<lparr>race_results := rs\<rparr>)"
        "settled (ps @ [p]) (race_results (s\<lparr>race_results := rs\<rparr>))" using up by simp_all
      ultimately show ?thesis using 3(3) [OF Inr up(1) [symmetric] refl, of "ps @ [p]"] up(1) Inr True by simp
    qed
  qed
qed

text \<open>Ranking settled rows leaves them settled, and ranking ranked rows changes nothing.\<close>

lemma settled_map:
  assumes "settled ps rs" "\<And>ev b r. same_result ev b (f r) = same_result ev b r"
    "\<And>p r. fill_result p r = r \<Longrightarrow> fill_result p (f r) = f r"
  shows "settled ps (map f rs)"
proof -
  have "last_for ps (f r) = last_for ps r" for r by (simp add: last_for_def assms(2))
  with assms show ?thesis by (auto simp: settled_def covers_def settle_def split: option.splits)
qed

lemma settled_pass:
  assumes "settled ps rs" "\<And>k ev b r. same_result ev b (put k r) = same_result ev b r"
    "\<And>k p r. fill_result p (put k r) = put k (fill_result p r)"
  shows "settled ps (rank_pass ranked part before put rs)"
  unfolding rank_pass_def using assms by (intro settled_map) simp_all

lemma fill_put:
  "fill_result p (r\<lparr>rr_rank_overall := k\<rparr>) = (fill_result p r)\<lparr>rr_rank_overall := k\<rparr>"
  "fill_result p (r\<lparr>rr_rank_gender := k\<rparr>) = (fill_result p r)\<lparr>rr_rank_gender := k\<rparr>"
  "fill_result p (r\<lparr>rr_rank_category := k\<rparr>) = (fill_result p r)\<lparr>rr_rank_category := k\<rparr>"
  "fill_result p (r\<lparr>rr_rank_age_group := k\<rparr>) = (fill_result p r)\<lparr>rr_rank_age_group := k\<rparr>"
  by (cases r, simp add: fill_result_def)+

lemma settled_recompute: "settled ps (race_results s) \<Longrightarrow> settled ps (race_results (recompute_ranks ev s))"
  by (simp add: recompute_ranks_def rank_overall_def rank_gender_def rank_category_def rank_age_group_def)
    (intro settled_pass; simp add: same_result_def fill_put)

lemma rank_pass_again:
  assumes "column_ranked get ranked part before rs" "\<And>r. put (get r) r = r"
  shows "rank_pass ranked part before put rs = rs"
  unfolding rank_pass_def
proof (rule map_idI)
  fix r assume "r \<in> set rs"
  with assms(1) have "ranked r \<Longrightarrow> Some (1 + int (cnt (\<lambda>x. ranked x \<and> part x = part r \<and> before x r) rs)) = get r"
    by (simp add: column_ranked_def)
  with assms(2) show "(if ranked r then put (Some (1 + int (cnt (\<lambda>x. ranked x \<and> part x = part r \<and> before x r) rs))) r
      else r) = r" by metis
qed

lemma recompute_again:
  "race_results (recompute_ranks ev (t\<lparr>race_results := race_results (recompute_ranks ev s)\<rparr>)) =
     race_results (recompute_ranks ev s)"
proof -
  note c = recompute_ranks_columns [of ev s]
  have "rank_pass (timed_finisher ev) (\<lambda>_. ()) by_gun (\<lambda>k r. r\<lparr>rr_rank_overall := k\<rparr>)
      (race_results (recompute_ranks ev s)) = race_results (recompute_ranks ev s)"
    using c by (intro rank_pass_again [of rr_rank_overall]) auto
  moreover have "rank_pass (\<lambda>r. timed_finisher ev r \<and> rr_gender r \<noteq> None) rr_gender by_gun (\<lambda>k r. r\<lparr>rr_rank_gender := k\<rparr>)
      (race_results (recompute_ranks ev s)) = race_results (recompute_ranks ev s)"
    using c by (intro rank_pass_again [of rr_rank_gender]) auto
  moreover have "rank_pass (\<lambda>r. timed_finisher ev r \<and> rr_category r \<noteq> None) rr_category by_gun (\<lambda>k r. r\<lparr>rr_rank_category := k\<rparr>)
      (race_results (recompute_ranks ev s)) = race_results (recompute_ranks ev s)"
    using c by (intro rank_pass_again [of rr_rank_category]) auto
  moreover have "rank_pass (\<lambda>r. timed_finisher ev r \<and> rr_age_group r \<noteq> None) rr_age_group by_chip (\<lambda>k r. r\<lparr>rr_rank_age_group := k\<rparr>)
      (race_results (recompute_ranks ev s)) = race_results (recompute_ranks ev s)"
    using c by (intro rank_pass_again [of rr_rank_age_group]) auto
  ultimately show ?thesis
    by (subst (1) recompute_ranks_def) (simp add: rank_overall_def rank_gender_def rank_category_def rank_age_group_def)
qed


text \<open>Importing a result file a second time changes no result row and counts the same lines as
  imported.\<close>

theorem import_is_idempotent:
  assumes "import_csv parse_time new_id org ev (Header h) recs s = (Inr m1, s1)"
    "import_csv parse_time new_id2 org ev (Header h) recs s1 = (Inr m2, s2)"
    "ev \<in> e_id ` set (events (rbase s))" "fresh_from 2 new_id s"
  shows "race_results s2 = race_results s1 \<and> im_imported m2 = im_imported m1"
proof -
  let ?cols = "index_columns h" and ?m0 = "\<lparr> im_imported = 0, im_skipped = 0, im_errors = [], im_ranked = False \<rparr>"
  let ?ps = "accepted parse_time org ev ?cols recs"
  have ok: "import_ok ev s" using assms(3) by (simp add: import_ok_def)
  have "settled [] (race_results s)" by (simp add: settled_def covers_def settle_def last_for_def)
  from import_first [OF ok assms(4) this, of parse_time org ?cols recs ?m0]
  obtain m rs where first: "import_lines parse_time new_id org ev ?cols 2 recs ?m0 s = (m, s\<lparr>race_results := rs\<rparr>)"
    "settled ?ps rs" "im_imported m = length ?ps" by auto
  define rs1 where "rs1 = (if ?ps \<noteq> [] then race_results (recompute_ranks ev (s\<lparr>race_results := rs\<rparr>)) else rs)"
  have s1: "race_results s1 = rs1" "import_ok ev s1" "im_imported m1 = length ?ps"
    using assms(1) ok first(3) by (auto simp: import_csv_def first(1) Let_def rs1_def race_audit_def import_ok_def
        recompute_ranks_def rank_overall_def rank_gender_def rank_category_def rank_age_group_def split: if_splits)
  have rs1: "settled ?ps rs1" using first(2) settled_recompute [of ?ps "s\<lparr>race_results := rs\<rparr>"] unfolding rs1_def by auto
  with s1 import_again [OF s1(2), of parse_time org ?cols recs new_id2 2 ?m0] obtain m' where
    again: "import_lines parse_time new_id2 org ev ?cols 2 recs ?m0 s1 = (m', s1\<lparr>race_results := map (settle ?ps) rs1\<rparr>)"
    "im_imported m' = length ?ps" by (auto simp: settled_def)
  moreover have "map (settle ?ps) rs1 = rs1" using rs1 by (auto simp: settled_def intro: map_idI)
  ultimately have "race_results s2 =
      (if ?ps \<noteq> [] then race_results (recompute_ranks ev (s1\<lparr>race_results := rs1\<rparr>)) else rs1) \<and> im_imported m2 = length ?ps"
    using assms(2) by (auto simp: import_csv_def Let_def race_audit_def split: if_splits)
  with s1 show ?thesis using recompute_again [where ev = ev and t = s1 and s = "s\<lparr>race_results := rs\<rparr>"] by (simp add: rs1_def)
qed


section \<open>Templates\<close>

text \<open>At most one active template per event.\<close>

definition one_active_template :: "race_db \<Rightarrow> bool" where
  "one_active_template s \<longleftrightarrow> (\<forall>ev. cnt (active_template ev) (templates s) \<le> 1)"

lemma templates_audit [simp]: "templates (race_audit a t s) = templates s"
  by (simp add: race_audit_def)

lemma make_room_templates:
  "one_active_template s \<Longrightarrow> one_active_template (make_room b ev s)"
  "b \<Longrightarrow> cnt (active_template ev) (templates (make_room b ev s)) = 0"
proof -
  assume a: "one_active_template s"
  have "cnt (active_template e) (upd (active_template ev) (\<lambda>t. t\<lparr>ct_active := False\<rparr>) ts) \<le> cnt (active_template e) ts" for e ts
    by (intro cnt_upd_le) (simp add: active_template_def)
  with a show "one_active_template (make_room b ev s)"
    by (auto simp: one_active_template_def make_room_def deactivate_certificate_templates_for_event_def intro: order_trans)
next
  show "b \<Longrightarrow> cnt (active_template ev) (templates (make_room b ev s)) = 0"
    by (auto simp: make_room_def deactivate_certificate_templates_for_event_def cnt_0_iff active_template_def ball_upd)
qed


lemma create_template_row:
  assumes "one_active_template s" "create_certificate_template i p s = (Inr t, s')"
  shows "one_active_template s'"
proof -
  have "cnt (active_template e) (templates s') \<le> 1" for e
    using assms by (cases "active_template e t")
      (auto simp: create_certificate_template_def Let_def one_active_template_def active_template_def cnt_0_iff split: if_splits)
  then show ?thesis by (simp add: one_active_template_def)
qed

theorem active_template_stays_unique:
  assumes "one_active_template s"
  shows "one_active_template (snd (create_template i org ev rq s)) \<and> one_active_template (delete_template org i s)"
proof
  have room: "one_active_template (make_room (tr_active rq) ev s)" using assms by (rule make_room_templates)
  show "one_active_template (snd (create_template i org ev rq s))"
  proof (cases "trim_space (tr_name rq) = []")
    case False
    obtain r s1 where c: "create_certificate_template i (template_params_of org ev rq) (make_room (tr_active rq) ev s) = (r, s1)"
      by force
    have "one_active_template s1"
    proof (cases r)
      case (Inl e)
      with c have "s1 = make_room (tr_active rq) ev s"
        by (auto simp: create_certificate_template_def Let_def split: if_splits)
      with room show ?thesis by simp
    next
      case (Inr t)
      with c create_template_row [OF room] show ?thesis by simp
    qed
    with False c show ?thesis by (cases r) (simp_all add: create_template_def one_active_template_def)
  qed (simp add: create_template_def assms)
  have "cnt P (filter Q xs) \<le> cnt P xs" for P Q and xs :: "certificate_template list" by (induction xs) auto
  then have "cnt (active_template e) (templates (delete_template org i s)) \<le> cnt (active_template e) (templates s)" for e
    by (simp add: delete_template_def delete_certificate_template_def)
  with assms show "one_active_template (delete_template org i s)" unfolding one_active_template_def by (meson order_trans)
qed

section \<open>Examples\<close>

definition race_start :: race_db where
  "race_start = \<lparr> rbase = empty_db\<lparr>events := [\<lparr> e_id = 2, e_org = 1, e_name = ''Run'', e_status = ''PUBLISHED'' \<rparr>]\<rparr>,
     race_results = [], templates = [], timing_configs = [], waves = [], checkpoints = [], mappings = [],
     passings = [], splits = [], ticket_waves = [] \<rparr>"

definition demo_csv :: "string list option list" where
  "demo_csv = [Some [''7'', ''Ana'', ''1:00:00''], None, Some [''8'', ''Ben'', ''59:59''], Some [''7'', ''Ana'', ''58:00'']]"

theorem import_is_idempotent_witness:
  "\<exists>m1 s1 m2 s2.
     import_csv (\<lambda>_. None) (\<lambda>k. k) 1 2 (Header [''Bib'', ''Nama'', ''Chip-Time'']) demo_csv race_start = (Inr m1, s1) \<and>
     import_csv (\<lambda>_. None) (\<lambda>k. k) 1 2 (Header [''Bib'', ''Nama'', ''Chip-Time'']) demo_csv s1 = (Inr m2, s2) \<and>
     race_results s2 = race_results s1 \<and> im_imported m2 = im_imported m1"
proof -
  have head: "map_of (index_columns [''Bib'', ''Nama'', ''Chip-Time'']) ''bib'' \<noteq> None" by code_simp
  have run: "\<exists>m t. import_csv (\<lambda>_. None) (\<lambda>k. k) 1 2 (Header [''Bib'', ''Nama'', ''Chip-Time'']) demo_csv u = (Inr m, t)" for u
    using head by (auto simp: import_csv_def Let_def split: prod.split)
  obtain m1 s1 where one: "import_csv (\<lambda>_. None) (\<lambda>k. k) 1 2 (Header [''Bib'', ''Nama'', ''Chip-Time'']) demo_csv race_start = (Inr m1, s1)"
    using run by blast
  obtain m2 s2 where two: "import_csv (\<lambda>_. None) (\<lambda>k. k) 1 2 (Header [''Bib'', ''Nama'', ''Chip-Time'']) demo_csv s1 = (Inr m2, s2)"
    using run by blast
  have "race_results s2 = race_results s1 \<and> im_imported m2 = im_imported m1"
    by (rule import_is_idempotent [OF one two]) (simp_all add: race_start_def fresh_from_def)
  with one two show ?thesis by blast
qed

definition demo_result :: "race_status \<Rightarrow> int option \<Rightarrow> result_params" where
  "demo_result st chip = \<lparr> rp_org = 1, rp_event = 2, rp_category = None, rp_ticket = None, rp_bib = ''7'', rp_name = ''Ana'',
     rp_gender = None, rp_age = None, rp_age_group = None, rp_status = st, rp_chip = chip, rp_gun = None,
     rp_source = ''CSV'', rp_finished_at = None \<rparr>"

definition one_result :: "uuid option \<Rightarrow> race_db" where
  "one_result t = race_start\<lparr>race_results := [(new_result 5 (demo_result RaceFinished (Some 60)))\<lparr>rr_ticket := t, rr_rank_overall := Some 1\<rparr>]\<rparr>"

theorem disqualified_keeps_rank_witness:
  "\<exists>r s' old. upsert_race_result 6 (demo_result RaceDSQ None) (one_result None) = (Inr r, s') \<and>
    r \<in> set (race_results (recompute_ranks 2 s')) \<and> rr_status r = RaceDSQ \<and> rr_rank_overall r = Some 1"
proof -
  obtain r s' where up: "upsert_race_result 6 (demo_result RaceDSQ None) (one_result None) = (Inr r, s')"
    by (simp add: upsert_race_result_def one_result_def race_start_def demo_result_def result_checks_def race_sources_def
        upd_one_def same_result_def new_result_def Let_def)
  have "r \<in> set (race_results (recompute_ranks (rp_event (demo_result RaceDSQ None)) s')) \<and>
      rr_status r = rp_status (demo_result RaceDSQ None) \<and>
      rr_rank_overall r = rr_rank_overall ((new_result 5 (demo_result RaceFinished (Some 60)))\<lparr>rr_rank_overall := Some 1\<rparr>)"
    by (rule disqualified_keeps_rank [OF up])
      (simp_all add: demo_result_def one_result_def same_result_def new_result_def)
  with up show ?thesis by (auto simp: demo_result_def)
qed

theorem csv_line_unlinks_ticket_witness:
  "\<exists>p r s'. row_to_params (\<lambda>_. None) 1 2 [(''bib'', 0), (''chip_time'', 1)] [''7'', ''58:00''] = Inr p \<and>
    upsert_race_result 6 p (one_result (Some 40)) = (Inr r, s') \<and> get_certificate id 2 40 s' = Inl ErrCertNotEligible"
proof -
  obtain p where p: "row_to_params (\<lambda>_. None) 1 2 [(''bib'', 0), (''chip_time'', 1)] [''7'', ''58:00''] = Inr p"
    "rp_bib p = ''7''" "rp_event p = 2" "rp_category p = None" "rp_ticket p = None" "result_checks p"
  proof -
    have "case row_to_params (\<lambda>_. None) 1 2 [(''bib'', 0), (''chip_time'', 1)] [''7'', ''58:00''] of
        Inl _ \<Rightarrow> False | Inr p \<Rightarrow> rp_bib p = ''7'' \<and> rp_event p = 2 \<and> rp_category p = None \<and> rp_ticket p = None \<and> result_checks p"
      by code_simp
    then show ?thesis using that by (auto split: sum.splits)
  qed
  obtain r s' where up: "upsert_race_result 6 p (one_result (Some 40)) = (Inr r, s')"
    using p by (simp add: upsert_race_result_def one_result_def race_start_def upd_one_def same_result_def new_result_def
        demo_result_def Let_def)
  have "get_certificate id 2 40 s' = Inl ErrCertNotEligible"
    by (rule csv_line_unlinks_ticket [OF p(1) up]) (simp add: one_result_def same_result_def new_result_def demo_result_def p)
  with p up show ?thesis by blast
qed

theorem better_time_better_rank_witness:
  "\<exists>a b i j. {a, b} \<subseteq> set (race_results (recompute_ranks 2 (race_start\<lparr>race_results :=
       [new_result 5 (demo_result RaceFinished (Some 60)), new_result 6 (demo_result RaceFinished (Some 50))]\<rparr>))) \<and>
     rr_id a = 6 \<and> rr_id b = 5 \<and> rr_rank_overall a = Some i \<and> rr_rank_overall b = Some j \<and> 1 \<le> i \<and> i < j"
proof -
  let ?s = "race_start\<lparr>race_results := [new_result 5 (demo_result RaceFinished (Some 60)), new_result 6 (demo_result RaceFinished (Some 50))]\<rparr>"
  obtain a b where ab: "race_results (recompute_ranks 2 ?s) = [b, a]" "rr_id a = 6" "rr_id b = 5"
    "timed_finisher 2 a" "timed_finisher 2 b" "by_gun a b"
    by (simp add: recompute_ranks_def rank_overall_def rank_gender_def rank_category_def rank_age_group_def rank_pass_def
        new_result_def demo_result_def timed_finisher_def gun_key_def by_gun_def nulls_last_def)
  have "\<exists>i j. rr_rank_overall a = Some i \<and> rr_rank_overall b = Some j \<and> 1 \<le> i \<and> i < j"
    by (rule better_time_better_rank [OF refl, of _ 2 ?s]) (use ab in simp_all)
  with ab show ?thesis by fastforce
qed

theorem active_template_stays_unique_witness:
  "one_active_template (snd (create_template 9 1 2 \<lparr> tr_name = ''A'', tr_title = [], tr_subtitle = [], tr_body = [],
     tr_background = [], tr_active = True \<rparr> race_start)) \<and> one_active_template (delete_template 1 9 race_start)"
  by (rule active_template_stays_unique) (simp add: one_active_template_def race_start_def)

text \<open>The order of the placeholders shows when a name is itself a placeholder.\<close>

theorem certificate_depends_on_map_order:
  "apply_placeholders [(''name'', ''{{bib}}''), (''bib'', ''7'')] ''{{name}}'' = ''7'' \<and>
   apply_placeholders [(''bib'', ''7''), (''name'', ''{{bib}}'')] ''{{name}}'' = ''{{bib}}''"
  by code_simp

end
