(* ===== verification/TimingFeeds.thy ===== *)
theory TimingFeeds
  imports Durations "HOL-Library.AList"
begin

text \<open>
  The timing adapters (\<open>modules/results/timing\<close>: \<open>csv.go\<close>, \<open>raceresult.go\<close>, \<open>vendor_api.go\<close>,
  \<open>registry.go\<close>). The readers of \<open>encoding/csv\<close> and \<open>encoding/json\<close>, \<open>time.Parse\<close> and the clock are
  parameters: a CSV is its records with an unreadable one as \<open>None\<close>, a JSON payload its decoded items.
\<close>

section \<open>Observations\<close>

record observation =
  ob_external :: string
  ob_checkpoint :: string
  ob_chip :: string
  ob_raw_chip :: string
  ob_bib :: "string option"
  ob_at :: time
  ob_payload :: string

definition plain_observation :: "string \<Rightarrow> string \<Rightarrow> string \<Rightarrow> time \<Rightarrow> string \<Rightarrow> observation" where
  "plain_observation ext cp chip at payload =
     \<lparr> ob_external = ext, ob_checkpoint = cp, ob_chip = chip, ob_raw_chip = [], ob_bib = None, ob_at = at,
       ob_payload = payload \<rparr>"

record clock =
  ck_parse :: "string \<Rightarrow> string \<Rightarrow> time option"
  ck_now :: time
  ck_today :: string

text \<open>The first layout that reads the text, else the clock.\<close>

definition first_layout :: "clock \<Rightarrow> string list \<Rightarrow> string \<Rightarrow> time option" where
  "first_layout c layouts s =
     (case find (\<lambda>l. ck_parse c l s \<noteq> None) layouts of None \<Rightarrow> None | Some l \<Rightarrow> ck_parse c l s)"

definition or_now :: "clock \<Rightarrow> time option \<Rightarrow> time" where
  "or_now c t = (case t of None \<Rightarrow> ck_now c | Some x \<Rightarrow> x)"

definition rfc3339 :: string where "rfc3339 = ''2006-01-02T15:04:05Z07:00''"

section \<open>Generic CSV\<close>

definition count_char :: "char \<Rightarrow> string \<Rightarrow> nat" where
  "count_char c s = length (filter (\<lambda>x. x = c) s)"

definition detect_delimiter :: "string \<Rightarrow> char" where
  "detect_delimiter payload =
     (let line = takeWhile (\<lambda>c. c \<noteq> CHR 0x0A) payload; semis = count_char CHR '';'' line;
          tabs = count_char CHR 0x09 line; commas = count_char CHR '','' line
      in if semis > commas \<and> semis > tabs then CHR '';''
         else if tabs > commas \<and> tabs > semis then CHR 0x09 else CHR '','')"

text \<open>Column names are lower-cased and trimmed; the last of equal names counts.\<close>

definition column_index :: "string list \<Rightarrow> (string \<times> nat) list" where
  "column_index header = rev (zip (map (\<lambda>c. lower (trim_space c)) header) [0..<length header])"

text \<open>The first name whose column the record reaches, even when that cell is blank.\<close>

fun get_cell :: "(string \<times> nat) list \<Rightarrow> string list \<Rightarrow> string list \<Rightarrow> string" where
  "get_cell idx rec [] = []"
| "get_cell idx rec (name # names) =
     (case map_of idx name of
        Some i \<Rightarrow> if i < length rec then trim_space (rec ! i) else get_cell idx rec names
      | None \<Rightarrow> get_cell idx rec names)"

definition join_with :: "string \<Rightarrow> string list \<Rightarrow> string" where
  "join_with sep xs = concat (map (\<lambda>(i, x). if i = 0 then x else sep @ x) (enumerate 0 xs))"

type_synonym csv_reader = "char \<Rightarrow> string \<Rightarrow> string list option list"

datatype feed_error = EmptyFeed | BadHeader | BadPayload

definition csv_observation :: "clock \<Rightarrow> string \<Rightarrow> (string \<times> nat) list \<Rightarrow> string list \<Rightarrow> observation list" where
  "csv_observation c default_cp idx rec =
     (let chip = get_cell idx rec [''chip'', ''transponder'', ''chip_code'', ''bib''];
          cp = get_cell idx rec [''checkpoint'', ''point'', ''mat''];
          t = get_cell idx rec [''time'', ''observed_at'', ''timestamp'']
      in if chip = [] then []
         else [plain_observation (get_cell idx rec [''id'', ''passing_id'', ''external_id''])
                 (upper (if cp = [] then default_cp else cp)) (upper chip)
                 (or_now c (first_layout c [rfc3339, ''2006-01-02 15:04:05.999'', ''2006-01-02 15:04:05''] t))
                 (join_with '','' rec)])"

definition records :: "string list option list \<Rightarrow> string list list" where
  "records rs = concat (map (\<lambda>r. case r of None \<Rightarrow> [] | Some x \<Rightarrow> [x]) rs)"

definition parse_csv_passings :: "csv_reader \<Rightarrow> clock \<Rightarrow> string \<Rightarrow> string \<Rightarrow> feed_error + observation list" where
  "parse_csv_passings read c default_cp payload =
     (case read (detect_delimiter payload) payload of
        [] \<Rightarrow> Inl EmptyFeed
      | None # _ \<Rightarrow> Inl BadHeader
      | Some h # rs \<Rightarrow> Inr (concat (map (csv_observation c default_cp (column_index h)) (records rs))))"

record sync_record =
  sy_bib :: string
  sy_name :: string
  sy_gender :: string
  sy_category :: string
  sy_chip :: string
  sy_birth :: "string option"

definition csv_participant_export :: "sync_record list \<Rightarrow> string" where
  "csv_participant_export ps =
     csv_record [''bib'', ''name'', ''gender'', ''category'', ''chip''] @
     concat (map (\<lambda>p. csv_record [sy_bib p, sy_name p, sy_gender p, sy_category p, sy_chip p]) ps)"

record normalized_result =
  nr_bib :: string
  nr_name :: string
  nr_gender :: string
  nr_status :: string
  nr_gun :: "int option"
  nr_chip :: "int option"

definition csv_final_result :: "(string \<times> nat) list \<Rightarrow> string list \<Rightarrow> normalized_result list" where
  "csv_final_result idx rec =
     (let bib = get_cell idx rec [''bib'', ''bib_number'', ''number''];
          status = upper (get_cell idx rec [''status'']);
          dur = (\<lambda>names. let s = get_cell idx rec names in if s = [] then None else parse_duration_to_ms s)
      in if bib = [] then []
         else [\<lparr> nr_bib = bib, nr_name = get_cell idx rec [''name'', ''participant_name'', ''runner''],
                 nr_gender = upper (get_cell idx rec [''gender'', ''sex'']),
                 nr_status = (if status = [] then ''FINISHED'' else status),
                 nr_gun = dur [''gun_time'', ''guntime'', ''gun''],
                 nr_chip = dur [''chip_time'', ''chiptime'', ''net_time'', ''net''] \<rparr>])"

definition parse_csv_final_results :: "csv_reader \<Rightarrow> string \<Rightarrow> feed_error + normalized_result list" where
  "parse_csv_final_results read payload =
     (case read (detect_delimiter payload) payload of
        Some h # rs \<Rightarrow> Inr (concat (map (csv_final_result (column_index h)) (records rs)))
      | [] \<Rightarrow> Inl EmptyFeed | None # _ \<Rightarrow> Inl BadHeader)"

record chip_mapping =
  cm_bib :: string
  cm_chip :: string
  cm_notes :: string

definition csv_chip_mapping :: "(string \<times> nat) list \<Rightarrow> string list \<Rightarrow> chip_mapping list" where
  "csv_chip_mapping idx rec =
     (let bib = get_cell idx rec [''bib'', ''bib_number'']; chip = get_cell idx rec [''chip'', ''transponder'', ''chip_code'']
      in if bib = [] \<or> chip = [] then []
         else [\<lparr> cm_bib = bib, cm_chip = upper chip, cm_notes = get_cell idx rec [''notes'', ''note''] \<rparr>])"

definition parse_csv_chip_mappings :: "csv_reader \<Rightarrow> string \<Rightarrow> feed_error + chip_mapping list" where
  "parse_csv_chip_mappings read payload =
     (case read (detect_delimiter payload) payload of
        Some h # rs \<Rightarrow> Inr (concat (map (csv_chip_mapping (column_index h)) (records rs)))
      | [] \<Rightarrow> Inl EmptyFeed | None # _ \<Rightarrow> Inl BadHeader)"

section \<open>RACE RESULT\<close>

text \<open>\<open>parseRaceResultTime\<close>: the date-time, else the date (today, or \<open>17.09.2026\<close> turned around) and the
  time.\<close>

definition race_result_date :: "clock \<Rightarrow> string \<Rightarrow> string" where
  "race_result_date c d =
     (if d = [] then ck_today c
      else case split_on CHR ''.'' d of
        [x, y, z] \<Rightarrow> z @ ''-'' @ y @ ''-'' @ x
      | _ \<Rightarrow> d)"

definition race_result_time :: "clock \<Rightarrow> string \<Rightarrow> string \<Rightarrow> string \<Rightarrow> time option" where
  "race_result_time c d t dt =
     (case (if dt = [] then None
            else first_layout c [rfc3339, ''2006-01-02T15:04:05.999999999Z07:00'', ''2006-01-02 15:04:05.999'',
                   ''2006-01-02 15:04:05'', ''2006-01-02T15:04:05''] dt) of
        Some x \<Rightarrow> Some x
      | None \<Rightarrow> first_layout c [''2006-01-02 15:04:05.999'', ''2006-01-02 15:04:05'', ''2006-01-02 15:04'']
                  (race_result_date c d @ '' '' @ t))"

text \<open>\<open>fmt.Sprintf("%v")\<close> of the two untyped fields: \<open>None\<close> is nil.\<close>

record rr_json =
  rj_passing_no :: "string option"
  rj_transponder :: string
  rj_bib :: "string option"
  rj_point :: string
  rj_time :: string
  rj_date :: string
  rj_datetime :: string

definition json_observation :: "clock \<Rightarrow> string \<Rightarrow> string \<Rightarrow> rr_json \<Rightarrow> observation list" where
  "json_observation c default_cp payload p =
     (let cp = (if trim_space (rj_point p) = [] then default_cp else rj_point p);
          no = (case rj_passing_no p of None \<Rightarrow> [] | Some n \<Rightarrow> if n = ''<nil>'' \<or> n = ''0'' then [] else n);
          bib = (case rj_bib p of None \<Rightarrow> None
                 | Some x \<Rightarrow> let b = trim_space x in if b \<noteq> [] \<and> b \<noteq> ''<nil>'' \<and> b \<noteq> ''0'' then Some b else None)
      in if trim_space (rj_transponder p) = [] then []
         else [\<lparr> ob_external = no, ob_checkpoint = upper (trim_space cp),
                 ob_chip = upper (trim_space (rj_transponder p)), ob_raw_chip = [], ob_bib = bib,
                 ob_at = or_now c (race_result_time c (rj_date p) (rj_time p) (rj_datetime p)), ob_payload = payload \<rparr>])"

definition line_parts :: "string \<Rightarrow> string list" where
  "line_parts line =
     map trim_space
       (if CHR '';'' \<in> set line then split_on CHR '';'' line
        else if CHR 0x09 \<in> set line then split_on CHR 0x09 line else split_on CHR '','' line)"

text \<open>The formats \<open>No;Chip;Time;Point\<close>, \<open>No;Chip;Time;Date;Hits;RSSI;Antenna;Point\<close>, \<open>Chip;Time;Point\<close> and
  \<open>Chip;Time\<close>, as (passing number, chip, time, date, point).\<close>

definition line_fields :: "string list \<Rightarrow> string \<times> string \<times> string \<times> string \<times> string" where
  "line_fields ps =
     (if 4 \<le> length ps then
        (if parse_int64 (ps ! 0) \<noteq> None
         then (if 8 \<le> length ps then (ps ! 0, ps ! 1, ps ! 2, ps ! 3, ps ! 7)
               else (ps ! 0, ps ! 1, ps ! 2, [], ps ! 3))
         else ([], ps ! 0, ps ! 1, [], ps ! 2))
      else if length ps = 3 then ([], ps ! 0, ps ! 1, [], ps ! 2)
      else ([], ps ! 0, ps ! 1, [], []))"

definition line_observation :: "clock \<Rightarrow> string \<Rightarrow> string \<Rightarrow> observation list" where
  "line_observation c default_cp raw =
     (let line = trim_space raw; ps = line_parts line in
      if line = [] \<or> hd line = CHR ''#'' \<or> length ps < 2 then []
      else case line_fields ps of
        (no, chip, t, d, cp) \<Rightarrow>
          if chip = [] then []
          else [plain_observation no (upper (trim_space (if cp = [] then default_cp else cp)))
                  (upper (trim_space chip)) (or_now c (race_result_time c d t [])) line])"

definition parse_race_result :: "(string \<Rightarrow> rr_json list option) \<Rightarrow> clock \<Rightarrow> string \<Rightarrow> string \<Rightarrow> feed_error + observation list" where
  "parse_race_result decode c default_cp payload =
     (let s = trim_space payload in
      if s = [] then Inl EmptyFeed
      else if hd s = CHR ''{'' \<or> hd s = CHR ''['' then
        (case decode s of
           None \<Rightarrow> Inl BadPayload
         | Some items \<Rightarrow> Inr (concat (map (json_observation c default_cp s) items)))
      else Inr (concat (map (line_observation c default_cp) (split_on CHR 0x0A s))))"

text \<open>\<open>strings.Fields\<close> and the split of a name at its first word.\<close>

fun fields_acc :: "string \<Rightarrow> string \<Rightarrow> string list" where
  "fields_acc w [] = (if w = [] then [] else [w])"
| "fields_acc w (c # cs) =
     (if is_space c then (if w = [] then fields_acc [] cs else w # fields_acc [] cs) else fields_acc (w @ [c]) cs)"

definition split_name :: "string \<Rightarrow> string \<times> string" where
  "split_name full =
     (case fields_acc [] full of [] \<Rightarrow> ([], []) | [f] \<Rightarrow> (f, []) | f # rest \<Rightarrow> (f, join_with '' '' rest))"

text \<open>\<open>csv.Writer\<close> with another separator quotes fields that hold that separator.\<close>

definition field_with :: "char \<Rightarrow> string \<Rightarrow> string" where
  "field_with d f =
     (if f \<noteq> [] \<and> (f = [CHR 0x5C, CHR ''.''] \<or> is_space (hd f) \<or>
          (\<exists>c \<in> set f. c = d \<or> c = CHR 0x22 \<or> c = CHR 0x0A \<or> c = CHR 0x0D))
      then [CHR 0x22] @ concat (map (\<lambda>c. if c = CHR 0x22 then [c, c] else [c]) f) @ [CHR 0x22] else f)"

definition record_with :: "char \<Rightarrow> string list \<Rightarrow> string" where
  "record_with d fs = join_with [d] (map (field_with d) fs) @ [CHR 0x0A]"

definition race_result_export :: "sync_record list \<Rightarrow> string" where
  "race_result_export ps =
     record_with CHR '';'' [''BIB'', ''FIRSTNAME'', ''LASTNAME'', ''GENDER'', ''DATEOFBIRTH'', ''CONTEST'', ''TRANSPONDER1''] @
     concat (map (\<lambda>p. record_with CHR '';''
       [sy_bib p, fst (split_name (sy_name p)), snd (split_name (sy_name p)), sy_gender p,
        (case sy_birth p of None \<Rightarrow> [] | Some d \<Rightarrow> d), sy_category p, sy_chip p]) ps)"

section \<open>The open vendor API\<close>

record vendor_item =
  vi_id :: string
  vi_external_read :: string
  vi_external :: string
  vi_checkpoint_code :: string
  vi_checkpoint :: string
  vi_chip :: string
  vi_snake_chip :: string
  vi_transponder :: string
  vi_raw_chip :: string
  vi_bib :: "string option"
  vi_snake_bib :: "string option"
  vi_observed :: string
  vi_timestamp :: string
  vi_time :: string

fun first_nonempty :: "string list \<Rightarrow> string" where
  "first_nonempty [] = []"
| "first_nonempty (s # ss) = (if s = [] then first_nonempty ss else s)"

definition vendor_observation :: "clock \<Rightarrow> string \<Rightarrow> vendor_item \<Rightarrow> observation list" where
  "vendor_observation c default_cp v =
     (let chip = first_nonempty (map (\<lambda>s. upper (trim_space s)) [vi_chip v, vi_snake_chip v, vi_transponder v]) in
      if chip = [] then []
      else [\<lparr> ob_external = first_nonempty [vi_external_read v, vi_external v, vi_id v],
              ob_checkpoint = first_nonempty [trim_space (vi_checkpoint_code v), trim_space (vi_checkpoint v), default_cp],
              ob_chip = chip, ob_raw_chip = (if vi_raw_chip v = [] then chip else vi_raw_chip v),
              ob_bib = (case vi_bib v of None \<Rightarrow> vi_snake_bib v | Some b \<Rightarrow> Some b),
              ob_at = or_now c (first_layout c [rfc3339, ''2006-01-02 15:04:05.000'', ''2006-01-02 15:04:05'']
                        (first_nonempty [vi_observed v, vi_timestamp v, vi_time v])),
              ob_payload = [] \<rparr>])"

text \<open>An array, a wrapper with a non-empty list, or one object.\<close>

definition parse_vendor_api ::
  "(string \<Rightarrow> vendor_item list option) \<Rightarrow> (string \<Rightarrow> vendor_item list option) \<Rightarrow> (string \<Rightarrow> vendor_item option) \<Rightarrow>
    clock \<Rightarrow> string \<Rightarrow> string \<Rightarrow> feed_error + observation list" where
  "parse_vendor_api decode_list decode_wrapper decode_one c default_cp payload =
     (let s = trim_space payload in
      if s = [] then Inl EmptyFeed
      else if hd s = CHR ''['' then
        (case decode_list payload of
           None \<Rightarrow> Inl BadPayload
         | Some vs \<Rightarrow> Inr (concat (map (vendor_observation c default_cp) vs)))
      else if hd s = CHR ''{'' then
        (case decode_wrapper payload of
           Some (v # vs) \<Rightarrow> Inr (concat (map (vendor_observation c default_cp) (v # vs)))
         | _ \<Rightarrow> (case decode_one payload of
                   None \<Rightarrow> Inl BadPayload
                 | Some v \<Rightarrow> Inr (vendor_observation c default_cp v)))
      else Inl BadPayload)"

definition vendor_final_result :: "normalized_result \<Rightarrow> normalized_result" where
  "vendor_final_result r =
     (let st = upper (trim_space (nr_status r)) in
      r\<lparr>nr_bib := trim_space (nr_bib r), nr_name := trim_space (nr_name r), nr_gender := upper (trim_space (nr_gender r)),
        nr_status := (if st = [] then ''FINISHED'' else st)\<rparr>)"

definition parse_vendor_final_results ::
  "(string \<Rightarrow> normalized_result list option) \<Rightarrow> string \<Rightarrow> feed_error + normalized_result list" where
  "parse_vendor_final_results decode payload =
     (case decode payload of None \<Rightarrow> Inl BadPayload | Some rs \<Rightarrow> Inr (map vendor_final_result rs))"

section \<open>Registry\<close>

type_synonym passing_parser = "string \<Rightarrow> string \<Rightarrow> feed_error + observation list"

definition register_parser :: "string \<Rightarrow> passing_parser \<Rightarrow> (string \<times> passing_parser) list \<Rightarrow> (string \<times> passing_parser) list" where
  "register_parser name p reg = AList.update name p reg"

definition get_passing_parser :: "(string \<times> passing_parser) list \<Rightarrow> string \<Rightarrow> passing_parser option" where
  "get_passing_parser reg name = map_of reg name"

definition default_registry :: "passing_parser \<Rightarrow> passing_parser \<Rightarrow> passing_parser \<Rightarrow> (string \<times> passing_parser) list" where
  "default_registry rr csv vendor =
     register_parser ''VENDOR_API'' vendor (register_parser ''GENERIC_CSV'' csv (register_parser ''RACE_RESULT'' rr []))"


section \<open>Lines of RACE RESULT\<close>

definition plain :: "char \<Rightarrow> string \<Rightarrow> bool" where
  "plain d s \<longleftrightarrow> (\<forall>c \<in> set s. c \<noteq> d \<and> \<not> is_space c)"

lemma plain_trim: "plain d s \<Longrightarrow> trim_space s = s"
proof -
  assume "plain d s"
  then have "\<forall>c \<in> set s. \<not> is_space c" by (simp add: plain_def)
  then have "dropWhile is_space s = s" "dropWhile is_space (rev s) = rev s" by (simp_all add: dropWhile_none)
  then show ?thesis by (simp add: trim_space_def)
qed

lemma plain_split: "plain d s \<Longrightarrow> split_on d (s @ d # t) = s # split_on d t" "plain d s \<Longrightarrow> split_on d s = [s]"
  by (auto simp: plain_def intro: split_on_append split_on_none)

lemma line_parts_four:
  assumes "plain CHR '';'' a" "plain CHR '';'' b" "plain CHR '';'' c" "plain CHR '';'' d"
  shows "line_parts (a @ '';'' @ b @ '';'' @ c @ '';'' @ d) = [a, b, c, d]"
proof -
  have "split_on CHR '';'' (a @ CHR '';'' # b @ CHR '';'' # c @ CHR '';'' # d) = [a, b, c, d]"
    using assms by (simp add: plain_split)
  with assms show ?thesis by (simp add: line_parts_def plain_trim)
qed

text \<open>A forwarded line \<open>No;Chip;Time;Point\<close> gives the observation its fields name.\<close>

theorem race_result_line:
  assumes "\<forall>f \<in> {no, chip, t, cp}. plain CHR '';'' f" "parse_int64 no \<noteq> None" "chip \<noteq> []" "hd no \<noteq> CHR ''#''"
    "race_result_time c [] t [] = Some at"
  shows "line_observation c default_cp (no @ '';'' @ chip @ '';'' @ t @ '';'' @ cp) =
    [plain_observation no (upper (if cp = [] then trim_space default_cp else cp)) (upper chip) at
       (no @ '';'' @ chip @ '';'' @ t @ '';'' @ cp)]"
proof -
  let ?line = "no @ '';'' @ chip @ '';'' @ t @ '';'' @ cp"
  have semi: "\<not> is_space CHR '';''" and space: "is_space CHR '' ''" by (simp_all add: is_space_def)
  have "\<forall>x \<in> set ?line. \<not> is_space x" using assms(1) by (simp add: plain_def ball_Un semi)
  with space have "plain CHR '' '' ?line" unfolding plain_def by blast
  then have trim: "trim_space ?line = ?line" by (rule plain_trim)
  have "no \<noteq> []" using assms(2) by auto
  then have "hd ?line \<noteq> CHR ''#''" using assms(4) by simp
  moreover have "line_parts ?line = [no, chip, t, cp]" using assms(1) by (intro line_parts_four) simp_all
  ultimately show ?thesis using assms \<open>no \<noteq> []\<close>
    by (simp add: line_observation_def Let_def trim line_fields_def or_now_def plain_trim [of "CHR '';''"] del: append.simps)
qed

section \<open>Names\<close>

lemma fields_acc_word:
  "\<forall>c \<in> set w. \<not> is_space c \<Longrightarrow> fields_acc v (w @ CHR '' '' # s) = (if v @ w = [] then fields_acc [] s else (v @ w) # fields_acc [] s)"
  by (induction w arbitrary: v) (auto simp: is_space_def)

lemma fields_acc_end: "\<forall>c \<in> set w. \<not> is_space c \<Longrightarrow> fields_acc v w = (if v @ w = [] then [] else [v @ w])"
  by (induction w arbitrary: v) auto

lemma fields_acc_words:
  "(\<forall>c \<in> set w. \<not> is_space c) \<Longrightarrow> \<forall>x \<in> set (fields_acc w s). x \<noteq> [] \<and> (\<forall>c \<in> set x. \<not> is_space c)"
proof (induction s arbitrary: w)
  case Nil
  then show ?case by (cases w) simp_all
next
  case (Cons c s)
  show ?case
  proof (cases "is_space c")
    case True
    have "\<forall>x \<in> set (fields_acc [] s). x \<noteq> [] \<and> (\<forall>c \<in> set x. \<not> is_space c)" by (rule Cons.IH) simp
    moreover have "fields_acc w (c # s) = (if w = [] then fields_acc [] s else w # fields_acc [] s)"
      using True by simp
    ultimately show ?thesis using Cons.prems by (cases "w = []") simp_all
  next
    case False
    have "\<forall>x \<in> set (fields_acc (w @ [c]) s). x \<noteq> [] \<and> (\<forall>c \<in> set x. \<not> is_space c)"
      by (rule Cons.IH) (use Cons.prems False in \<open>simp add: ball_Un\<close>)
    with False show ?thesis by simp
  qed
qed

lemma join_with_Cons: "join_with sep (x # y # zs) = x @ sep @ join_with sep (y # zs)"
proof -
  have "map (\<lambda>(i, x). if i = 0 then x else sep @ x) (enumerate (Suc k) xs) = map (\<lambda>x. sep @ x) xs" for k xs
    by (induction xs arbitrary: k) simp_all
  then show ?thesis by (simp add: join_with_def)
qed

lemma join_with_single [simp]: "join_with sep [x] = x" "join_with sep [] = []"
  by (simp_all add: join_with_def)

lemma fields_of_join:
  "\<forall>x \<in> set ws. x \<noteq> [] \<and> (\<forall>c \<in> set x. \<not> is_space c) \<Longrightarrow> fields_acc [] (join_with '' '' ws) = ws"
proof (induction ws rule: induct_list012)
  case (2 x)
  then show ?case by (simp add: fields_acc_end)
next
  case (3 x y zs)
  then show ?case by (simp add: join_with_Cons fields_acc_word)
qed simp

text \<open>The two parts of an exported name hold the words of the name in their order.\<close>

theorem exported_name_keeps_its_words:
  "fields_acc [] (join_with '' '' [fst (split_name full), snd (split_name full)]) = fields_acc [] full"
proof -
  have words: "\<forall>x \<in> set (fields_acc [] full). x \<noteq> [] \<and> (\<forall>c \<in> set x. \<not> is_space c)" by (rule fields_acc_words) simp
  show ?thesis
  proof (cases "fields_acc [] full" rule: remdups_adj.cases)
    case 1
    then show ?thesis by (simp add: split_name_def join_with_Cons is_space_def)
  next
    case (2 x)
    with words show ?thesis
      using fields_acc_word [of x "[]" "[]"] by (simp add: split_name_def join_with_Cons)
  next
    case (3 x y zs)
    with words fields_of_join [of "x # y # zs"] show ?thesis by (simp add: split_name_def join_with_Cons)
  qed
qed

section \<open>What the CSV feed loses\<close>

text \<open>A CSV never carries a bib: the bib column, read when no chip column exists, is taken for a chip.\<close>

theorem csv_feed_has_no_bibs:
  assumes "parse_csv_passings read c default_cp payload = Inr obs"
  shows "\<forall>x \<in> set obs. ob_bib x = None"
proof -
  have "ob_bib x = None" if "x \<in> set (csv_observation c default_cp idx rec)" for x idx rec
    using that by (simp add: csv_observation_def plain_observation_def Let_def split: if_splits)
  then have "\<forall>x \<in> set (concat (map (csv_observation c default_cp idx) rs)). ob_bib x = None" for idx rs by simp
  with assms show ?thesis unfolding parse_csv_passings_def by (simp split: list.splits option.splits) force
qed

definition demo_clock :: clock where
  "demo_clock = \<lparr> ck_parse = (\<lambda>layout s. if s = ''2026-09-17 08:00:00'' then Some 0 else None), ck_now = 99,
     ck_today = ''2026-09-17'' \<rparr>"

theorem csv_feed_has_no_bibs_witness:
  "parse_csv_passings (\<lambda>_ _. [Some [''bib'', ''checkpoint'', ''time''], Some [''7'', ''f'', ''2026-09-17 08:00:00'']])
     demo_clock [] [] = Inr [plain_observation [] ''F'' ''7'' 0 ''7,f,2026-09-17 08:00:00''] \<and>
   ob_bib (plain_observation [] ''F'' ''7'' 0 ''7,f,2026-09-17 08:00:00'') = None"
proof -
  have run: "parse_csv_passings (\<lambda>_ _. [Some [''bib'', ''checkpoint'', ''time''], Some [''7'', ''f'', ''2026-09-17 08:00:00'']])
     demo_clock [] [] = Inr [plain_observation [] ''F'' ''7'' 0 ''7,f,2026-09-17 08:00:00'']" by code_simp
  from csv_feed_has_no_bibs [OF run] run show ?thesis by simp
qed

theorem race_result_line_witness:
  "line_observation demo_clock [] (''12'' @ '';'' @ ''ab7'' @ '';'' @ ''08:00:00'' @ '';'' @ ''f'') =
    [plain_observation ''12'' ''F'' ''AB7'' 0 (''12'' @ '';'' @ ''ab7'' @ '';'' @ ''08:00:00'' @ '';'' @ ''f'')]"
proof -
  have "line_observation demo_clock [] (''12'' @ '';'' @ ''ab7'' @ '';'' @ ''08:00:00'' @ '';'' @ ''f'') =
    [plain_observation ''12'' (upper (if ''f'' = [] then trim_space [] else ''f'')) (upper ''ab7'') 0
       (''12'' @ '';'' @ ''ab7'' @ '';'' @ ''08:00:00'' @ '';'' @ ''f'')]"
  proof (rule race_result_line)
    show "\<forall>f \<in> {''12'', ''ab7'', ''08:00:00'', ''f''}. plain CHR '';'' f" by (auto simp: plain_def is_space_def)
    show "race_result_time demo_clock [] ''08:00:00'' [] = Some 0" by code_simp
    show "parse_int64 ''12'' \<noteq> None" by code_simp
  qed simp_all
  moreover have "upper ''f'' = ''F''" "upper ''ab7'' = ''AB7''" by code_simp+
  ultimately show ?thesis by simp
qed

text \<open>A time that no layout reads becomes the server's time.\<close>

theorem unreadable_time_is_now:
  "race_result_time demo_clock [] ''8h'' [] = None \<and>
   map ob_at (line_observation demo_clock [] ''12;ab7;8h;f'') = [99]"
  by code_simp

end
