(* ===== verification/TimingService.thy ===== *)
theory TimingService
  imports Timing Results TimingFeeds
begin

text \<open>
  The operations of the timing integration (\<open>modules/results/timing_service.go\<close>): configuration and
  tokens, checkpoints, waves, chip mappings, ingestion of passings and the processing of a batch.
  Random bytes, SHA-256, the parsers of the feeds, the float64 pace and the order of Go maps are
  parameters.
\<close>

section \<open>Tokens\<close>

definition hex_digit :: "nat \<Rightarrow> char" where
  "hex_digit d = ''0123456789abcdef'' ! (d mod 16)"

definition hex_bytes :: "nat list \<Rightarrow> string" where
  "hex_bytes bs = concat (map (\<lambda>b. [hex_digit (b div 16), hex_digit (b mod 16)]) bs)"

text \<open>\<open>sha\<close> is the hex text of SHA-256; \<open>bs\<close> are the 24 random bytes. The result is the raw token, its hash
  and its visible prefix.\<close>

definition generate_ingestion_token :: "(string \<Rightarrow> string) \<Rightarrow> nat list \<Rightarrow> string \<times> string \<times> string" where
  "generate_ingestion_token sha bs = (let raw = ''ivytt_'' @ hex_bytes bs in (raw, sha raw, take 12 raw))"

definition or_default :: "string \<Rightarrow> string \<Rightarrow> string" where
  "or_default d s = (let t = upper (trim_space s) in if t = [] then d else t)"

text \<open>What the stored policy decodes to: an empty map is stored as \<open>{}\<close>, which decodes to the zero policy;
  \<open>None\<close> inside is a policy that does not decode.\<close>

definition zero_policy :: event_policy where
  "zero_policy = \<lparr> po_debounce = 0, po_cutoff = 0, po_start_mode = [], po_allow_missing_start = False,
     po_mandatory = [], po_action = ActOther \<rparr>"

definition stored_policy :: "event_policy option option \<Rightarrow> event_policy option" where
  "stored_policy p = (case p of None \<Rightarrow> Some zero_policy | Some x \<Rightarrow> x)"

definition configure_timing ::
  "(string \<Rightarrow> string) \<Rightarrow> nat list \<Rightarrow> uuid \<Rightarrow> uuid \<Rightarrow> uuid \<Rightarrow> string \<Rightarrow> string \<Rightarrow> string \<Rightarrow> event_policy option option \<Rightarrow>
    string \<Rightarrow> race_db \<Rightarrow> (timing_config \<times> string) res \<times> race_db" where
  "configure_timing sha bs i org ev provider transport mode pol race s =
     (case generate_ingestion_token sha bs of
        (raw, h, prefix) \<Rightarrow>
          (case upsert_timing_config
                  \<lparr> tc_id = i, tc_org = org, tc_event = ev, tc_provider = or_default ''RACE_RESULT'' provider,
                    tc_transport = or_default ''HTTP_PUSH'' transport, tc_sync_mode = or_default ''RAW_PASSINGS'' mode,
                    tc_policy = stored_policy pol, tc_token_hash = h, tc_token_prefix = prefix,
                    tc_external_race = null_text race, tc_active = True \<rparr> s of
             (Inl e, s1) \<Rightarrow> (Inl e, s1)
           | (Inr c, s1) \<Rightarrow> (Inr (c, raw), race_audit ''timing.configure'' ev s1)))"

definition get_timing_config :: "uuid \<Rightarrow> race_db \<Rightarrow> timing_config res" where
  "get_timing_config ev s = (case get_timing_config_by_event ev s of None \<Rightarrow> Inl NoRows | Some c \<Rightarrow> Inr c)"

definition validate_ingestion_token :: "(string \<Rightarrow> string) \<Rightarrow> uuid \<Rightarrow> string \<Rightarrow> race_db \<Rightarrow> bool" where
  "validate_ingestion_token sha ev raw s \<longleftrightarrow> get_timing_config_by_token_hash ev (sha raw) s \<noteq> None"

section \<open>Checkpoints and waves\<close>

definition checkpoint_kind :: "string \<Rightarrow> checkpoint_type" where
  "checkpoint_kind t = (let u = upper (trim_space t) in
     if u = ''START'' then CkStart else if u = ''FINISH'' then CkFinish else CkSplit)"

text \<open>A request without \<open>aliases\<close> is \<open>None\<close>.\<close>

definition upsert_checkpoint ::
  "uuid \<Rightarrow> uuid \<Rightarrow> uuid \<Rightarrow> string \<Rightarrow> string \<Rightarrow> string \<Rightarrow> int \<Rightarrow> int option \<Rightarrow> string list option \<Rightarrow>
    (string \<times> string list) list \<Rightarrow> race_db \<Rightarrow> unit res \<times> race_db" where
  "upsert_checkpoint i org ev code name kind ord dist als prov s =
     (let code = upper (trim_space code) in
      if code = [] then (Inl (PlainErr ''checkpoint code required''), s)
      else case upsert_timing_checkpoint
                  \<lparr> ck_id = i, ck_org = org, ck_event = ev, ck_code = code, ck_name = name,
                    ck_type = checkpoint_kind kind, ck_order = ord,
                    ck_distance = (case dist of None \<Rightarrow> None | Some d \<Rightarrow> if d > 0 then Some d else None),
                    ck_aliases = [], ck_provider_aliases = prov \<rparr> als s of
             (Inl e, s1) \<Rightarrow> (Inl e, s1)
           | (Inr c, s1) \<Rightarrow> (Inr (), s1))"

definition list_checkpoints :: "uuid \<Rightarrow> race_db \<Rightarrow> checkpoint list" where
  "list_checkpoints = list_timing_checkpoints_by_event"

definition create_wave ::
  "uuid \<Rightarrow> uuid \<Rightarrow> uuid \<Rightarrow> uuid option \<Rightarrow> string \<Rightarrow> string \<Rightarrow> time option \<Rightarrow> int \<Rightarrow> race_db \<Rightarrow> race_wave res \<times> race_db" where
  "create_wave i org ev cat code name start ord s =
     (let code = upper (trim_space code) in
      if code = [] then (Inl (PlainErr ''wave code required''), s)
      else create_race_wave
             \<lparr> rw_id = i, rw_org = org, rw_event = ev, rw_category = cat, rw_code = code, rw_name = name,
               rw_start_at = start, rw_order = ord \<rparr> s)"

definition list_waves :: "uuid \<Rightarrow> race_db \<Rightarrow> race_wave list" where
  "list_waves = list_race_waves_by_event"

section \<open>Chips\<close>

text \<open>The two deactivations and the insertion are separate statements: a refused insertion leaves the old
  mappings inactive.\<close>

definition assign_mapping ::
  "uuid \<Rightarrow> uuid \<Rightarrow> uuid \<Rightarrow> string \<Rightarrow> string \<Rightarrow> bool \<Rightarrow> string \<Rightarrow> race_db \<Rightarrow> unit res \<times> race_db" where
  "assign_mapping i org ev bib chip replace memo s =
     (let bib = trim_space bib; chip = upper (trim_space chip) in
      if bib = [] \<or> chip = [] then (Inl (PlainErr ''bib and chip code required''), s)
      else
        let s1 = (if replace then deactivate_chip_mappings ev chip (deactivate_bib_mappings ev bib s) else s) in
        case insert_bib_transponder_mapping
               \<lparr> bm_id = i, bm_org = org, bm_event = ev, bm_bib = bib, bm_chip = chip, bm_active = True,
                 bm_status = MapActive, bm_notes = null_text memo \<rparr> s1 of
          (Inl e, s2) \<Rightarrow> (Inl e, s2)
        | (Inr m, s2) \<Rightarrow> (Inr (), s2))"

definition first_or :: "string \<Rightarrow> string list \<Rightarrow> nat \<Rightarrow> string" where
  "first_or v rec k = (if v = [] \<and> k < length rec then trim_space (rec ! k) else v)"

text \<open>The bib, the chip and the notes of a record; the first two columns stand in for missing names.\<close>

definition mapping_record :: "(string \<times> nat) list \<Rightarrow> string list \<Rightarrow> string \<times> string \<times> string" where
  "mapping_record idx rec =
     (first_or (get_cell idx rec [''bib'', ''bib_number'', ''no_dada'']) rec 0,
      first_or (get_cell idx rec [''chip'', ''transponder'', ''chip_code'', ''rfid'']) rec 1,
      get_cell idx rec [''notes'', ''keterangan''])"

fun import_mapping_records ::
  "(nat \<Rightarrow> uuid) \<Rightarrow> uuid \<Rightarrow> uuid \<Rightarrow> (string \<times> nat) list \<Rightarrow> bool \<Rightarrow> nat \<Rightarrow> string list option list \<Rightarrow> nat \<Rightarrow>
    race_db \<Rightarrow> nat \<times> race_db" where
  "import_mapping_records new_id org ev idx replace k [] n s = (n, s)"
| "import_mapping_records new_id org ev idx replace k (r # rs) n s =
     (case r of
        None \<Rightarrow> import_mapping_records new_id org ev idx replace (k + 1) rs n s
      | Some rec \<Rightarrow>
          (case mapping_record idx rec of
             (bib, chip, memo) \<Rightarrow>
               if length rec < 2 \<or> bib = [] \<or> chip = [] then
                 import_mapping_records new_id org ev idx replace (k + 1) rs n s
               else
                 (case assign_mapping (new_id k) org ev bib chip replace memo s of
                    (Inl e, s1) \<Rightarrow> import_mapping_records new_id org ev idx replace (k + 1) rs n s1
                  | (Inr u, s1) \<Rightarrow> import_mapping_records new_id org ev idx replace (k + 1) rs (n + 1) s1)))"

definition import_mappings_csv ::
  "(nat \<Rightarrow> uuid) \<Rightarrow> uuid \<Rightarrow> uuid \<Rightarrow> string list option list \<Rightarrow> bool \<Rightarrow> race_db \<Rightarrow> nat res \<times> race_db" where
  "import_mappings_csv new_id org ev recs replace s =
     (case recs of
        Some h # rs \<Rightarrow>
          (case import_mapping_records new_id org ev (column_index h) replace 0 rs 0 s of (n, s1) \<Rightarrow> (Inr n, s1))
      | _ \<Rightarrow> (Inl (PlainErr ''EOF''), s))"

definition list_mappings :: "uuid \<Rightarrow> race_db \<Rightarrow> bib_mapping list" where
  "list_mappings = list_mappings_by_event"

section \<open>Ingestion\<close>

definition passing_of :: "uuid \<Rightarrow> uuid \<Rightarrow> string \<Rightarrow> observation \<Rightarrow> passing" where
  "passing_of org ev provider ob =
     \<lparr> ps_id = 0, ps_org = org, ps_event = ev, ps_checkpoint = ob_checkpoint ob, ps_provider = provider,
       ps_external = null_text (ob_external ob), ps_chip = ob_chip ob,
       ps_raw_chip = null_text (if ob_raw_chip ob \<noteq> [] then ob_raw_chip ob else ob_chip ob),
       ps_bib = (case ob_bib ob of None \<Rightarrow> None | Some b \<Rightarrow> null_text b), ps_at = ob_at ob,
       ps_payload = null_text (ob_payload ob), ps_processed = False \<rparr>"

definition ingest_one :: "uuid \<Rightarrow> uuid \<Rightarrow> string \<Rightarrow> observation \<Rightarrow> nat \<times> race_db \<Rightarrow> nat \<times> race_db" where
  "ingest_one org ev provider ob st =
     (case st of (n, s) \<Rightarrow>
        (case (if ob_external ob \<noteq> [] then insert_timing_passing (passing_of org ev provider ob) s
               else insert_timing_passing_fallback (passing_of org ev provider ob) s) of
           (Inl e, s1) \<Rightarrow> (n, s1)
         | (Inr p, s1) \<Rightarrow> (if ps_id p > 0 then n + 1 else n, s1)))"

definition ingest_passings ::
  "(string \<times> passing_parser) list \<Rightarrow> uuid \<Rightarrow> uuid \<Rightarrow> string \<Rightarrow> string \<Rightarrow> race_db \<Rightarrow> nat res \<times> race_db" where
  "ingest_passings reg org ev default_cp payload s =
     (case get_timing_config_by_event ev s of
        None \<Rightarrow> (Inl (PlainErr ''timing not configured for event''), s)
      | Some c \<Rightarrow>
          (case get_passing_parser reg (tc_provider c) of
             None \<Rightarrow> (Inl (PlainErr ''unsupported provider for passing stream''), s)
           | Some parser \<Rightarrow>
               (case parser default_cp payload of
                  Inl e \<Rightarrow> (Inl (PlainErr ''failed to parse passings''), s)
                | Inr obs \<Rightarrow>
                    (case fold (ingest_one org ev (tc_provider c)) obs (0, s) of (n, s1) \<Rightarrow> (Inr n, s1)))))"

section \<open>Processing\<close>

definition wave_starts :: "uuid \<Rightarrow> race_db \<Rightarrow> (uuid \<times> time) list" where
  "wave_starts ev s = concat (map (\<lambda>w. case rw_start_at w of None \<Rightarrow> [] | Some t \<Rightarrow> [(rw_id w, t)])
     (list_race_waves_by_event ev s))"

text \<open>The participants by bib; the last ticket of a bib counts.\<close>

definition participant_of :: "(uuid \<times> time) list \<Rightarrow> ticket \<times> uuid option \<Rightarrow> (string \<times> participant_def) list" where
  "participant_of starts tw =
     (case tw of (t, w) \<Rightarrow>
        (case t_bib t of
           None \<Rightarrow> []
         | Some bib \<Rightarrow>
             if bib = [] then []
             else [(bib, \<lparr> pd_ticket = Some (t_id t), pd_category = Some (t_category t), pd_name = t_holder_name t,
                           pd_wave_start = (case w of None \<Rightarrow> None | Some i \<Rightarrow> map_of starts i) \<rparr>)]))"

definition participants :: "uuid \<Rightarrow> uuid \<Rightarrow> race_db \<Rightarrow> (string \<times> participant_def) list" where
  "participants org ev s = rev (concat (map (participant_of (wave_starts ev s)) (list_tickets_with_wave org ev s)))"

definition chip_to_bib :: "uuid \<Rightarrow> race_db \<Rightarrow> (string \<times> string) list" where
  "chip_to_bib ev s = rev (map (\<lambda>m. (bm_chip m, bm_bib m)) (filter bm_active (list_mappings_by_event ev s)))"

definition item_of :: "passing \<Rightarrow> passing_item" where
  "item_of p = \<lparr> pi_id = ps_id p, pi_checkpoint = ps_checkpoint p, pi_chip = ps_chip p,
     pi_bib = text_or_empty (ps_bib p), pi_at = ps_at p \<rparr>"

definition event_processor :: "uuid \<Rightarrow> race_db \<Rightarrow> processor" where
  "event_processor ev s =
     (case get_timing_config_by_event ev s of
        None \<Rightarrow> new_processor
      | Some c \<Rightarrow> (case tc_policy c of None \<Rightarrow> new_processor | Some po \<Rightarrow> with_policy po new_processor))"

definition batch :: "uuid \<Rightarrow> race_db \<Rightarrow> passing list" where
  "batch ev s = list_unprocessed_passings ev 5000 s"

definition batch_outputs ::
  "(int \<Rightarrow> int \<Rightarrow> int) \<Rightarrow> (string list \<Rightarrow> string list) \<Rightarrow> uuid \<Rightarrow> uuid \<Rightarrow> race_db \<Rightarrow> result_output list" where
  "batch_outputs pace visit org ev s =
     process_event_passings pace visit (event_processor ev s) (list_timing_checkpoints_by_event ev s)
       (participants org ev s) (chip_to_bib ev s) (map item_of (batch ev s))"

definition output_params :: "uuid \<Rightarrow> uuid \<Rightarrow> result_output \<Rightarrow> result_params" where
  "output_params org ev out =
     \<lparr> rp_org = org, rp_event = ev, rp_category = ro_category out, rp_ticket = ro_ticket out, rp_bib = ro_bib out,
       rp_name = ro_name out, rp_gender = None, rp_age = None, rp_age_group = None, rp_status = ro_status out,
       rp_chip = ro_chip out, rp_gun = ro_gun out, rp_source = ''TIMING_API'', rp_finished_at = ro_finished_at out \<rparr>"

definition split_row :: "uuid \<Rightarrow> calculated_split \<Rightarrow> split_time" where
  "split_row r sp = \<lparr> sp_result = r, sp_checkpoint = cs_checkpoint sp, sp_passing = Some (cs_passing sp),
     sp_ms = cs_ms sp, sp_pace = cs_pace sp, sp_at = cs_at sp, sp_order = cs_order sp \<rparr>"

definition store_output :: "uuid \<Rightarrow> uuid \<Rightarrow> uuid \<times> result_output \<Rightarrow> nat \<times> race_db \<Rightarrow> nat \<times> race_db" where
  "store_output org ev io st =
     (case (io, st) of ((i, out), (n, s)) \<Rightarrow>
        (case upsert_race_result i (output_params org ev out) s of
           (Inl e, s1) \<Rightarrow> (n, s1)
         | (Inr r, s1) \<Rightarrow> (n + 1, fold (\<lambda>sp x. snd (upsert_race_split_time (split_row (rr_id r) sp) x)) (ro_splits out) s1)))"

record process_summary =
  pm_evaluated :: nat
  pm_updated :: nat
  pm_ranked :: bool

definition process_timing ::
  "(int \<Rightarrow> int \<Rightarrow> int) \<Rightarrow> (string list \<Rightarrow> string list) \<Rightarrow> (nat \<Rightarrow> uuid) \<Rightarrow> uuid \<Rightarrow> uuid \<Rightarrow> race_db \<Rightarrow>
    process_summary \<times> race_db" where
  "process_timing pace visit new_id org ev s =
     (if batch ev s = [] then (\<lparr> pm_evaluated = 0, pm_updated = 0, pm_ranked = True \<rparr>, s)
      else
        let outs = batch_outputs pace visit org ev s; ids = concat (map ro_processed outs) in
        case fold (store_output org ev) (zip (map new_id [0..<length outs]) outs) (0, s) of
          (n, s1) \<Rightarrow>
            let s2 = (if ids \<noteq> [] then mark_passings_processed ids s1 else s1);
                s3 = (if n > 0 then recompute_ranks ev s2 else s2)
            in (\<lparr> pm_evaluated = length ids, pm_updated = n, pm_ranked = True \<rparr>, race_audit ''timing.process'' ev s3))"

definition get_passing_stats :: "uuid \<Rightarrow> race_db \<Rightarrow> nat \<times> nat \<times> nat" where
  "get_passing_stats ev s = (case count_passings_by_event ev s of (n, k) \<Rightarrow> (n, k, n - k))"


section \<open>Tokens are good until the next one\<close>

lemma upd_one_cases:
  "upd_one P f t = Some (r', t') \<Longrightarrow> t' = upd P f t \<and> (\<exists>r \<in> set t. P r \<and> r' = f r)"
  by (auto simp: upd_one_def dest: sel_SomeD split: option.splits)

lemma timing_configs_audit [simp]: "timing_configs (race_audit a t s) = timing_configs s"
  by (simp add: race_audit_def)

lemma upsert_timing_config_row:
  assumes "upsert_timing_config c s = (Inr r, s')"
  shows "\<forall>x \<in> set (timing_configs s'). tc_event x = tc_event c \<longrightarrow>
      tc_token_hash x = tc_token_hash c \<and> tc_active x = tc_active c \<and> tc_policy x = tc_policy c \<and> tc_provider x = tc_provider c"
    "\<exists>x \<in> set (timing_configs s'). tc_event x = tc_event c"
proof -
  let ?f = "\<lambda>x. c\<lparr>tc_id := tc_id x, tc_org := tc_org x\<rparr>" and ?P = "\<lambda>x. tc_event x = tc_event c"
  have "timing_configs s' = upd ?P ?f (timing_configs s) \<and> (\<exists>x \<in> set (timing_configs s). ?P x) \<or>
      timing_configs s' = timing_configs s @ [c] \<and> (\<forall>x \<in> set (timing_configs s). \<not> ?P x)"
  proof (cases "upd_one ?P ?f (timing_configs s)")
    case None
    then have "\<forall>x \<in> set (timing_configs s). \<not> ?P x" by (simp only: upd_one_None)
    moreover have "timing_configs s' = timing_configs s @ [c]"
      using assms None by (auto simp: upsert_timing_config_def split: if_splits)
    ultimately show ?thesis by blast
  next
    case (Some z)
    then obtain y ys where z: "upd_one ?P ?f (timing_configs s) = Some (y, ys)" by (cases z) simp
    then have "timing_configs s' = ys" using assms by (auto simp: upsert_timing_config_def split: if_splits)
    with upd_one_cases [OF z] show ?thesis by blast
  qed
  note cases = this
  then show "\<forall>x \<in> set (timing_configs s'). tc_event x = tc_event c \<longrightarrow>
      tc_token_hash x = tc_token_hash c \<and> tc_active x = tc_active c \<and> tc_policy x = tc_policy c \<and> tc_provider x = tc_provider c"
    by (auto simp: set_upd)
  show "\<exists>x \<in> set (timing_configs s'). tc_event x = tc_event c"
    using cases
  proof (elim disjE conjE bexE)
    fix x assume "timing_configs s' = upd ?P ?f (timing_configs s)" "x \<in> set (timing_configs s)" "?P x"
    then have "?f x \<in> set (timing_configs s')" using upd_changed [of x "timing_configs s" ?P ?f] by simp
    then show ?thesis by (rule bexI [rotated]) simp
  qed simp
qed

text \<open>The token that \<open>ConfigureTiming\<close> returns is accepted afterwards, and no text with another hash is:
  configuring again revokes the earlier token.\<close>

theorem only_the_issued_token_validates:
  assumes "configure_timing sha bs i org ev provider transport mode pol race s = (Inr (c, raw), s')"
  shows "validate_ingestion_token sha ev x s' \<longleftrightarrow> sha x = sha raw"
proof -
  from assms obtain d r s1 where up: "upsert_timing_config d s = (Inr r, s1)" "tc_event d = ev" "tc_token_hash d = sha raw"
    "tc_active d" "s' = race_audit ''timing.configure'' ev s1"
    by (auto simp: configure_timing_def generate_ingestion_token_def Let_def split: prod.splits sum.splits)
  from upsert_timing_config_row [OF up(1)] up(2-5) have row: "\<exists>x \<in> set (timing_configs s'). tc_event x = ev"
    "\<forall>x \<in> set (timing_configs s'). tc_event x = ev \<longrightarrow> tc_token_hash x = sha raw \<and> tc_active x"
    by simp_all
  then show ?thesis
    unfolding validate_ingestion_token_def get_timing_config_by_token_hash_def sel_None_iff by metis
qed

text \<open>Configuring without a policy replaces the default one by zeros: a missing start is then not allowed.\<close>

theorem no_policy_is_the_zero_policy:
  assumes "configure_timing sha bs i org ev provider transport mode None race s = (Inr (c, raw), s')"
  shows "event_processor ev s' = new_processor\<lparr>pr_policy := zero_policy\<rparr>"
proof -
  from assms obtain d r s1 where up: "upsert_timing_config d s = (Inr r, s1)" "tc_event d = ev" "tc_policy d = Some zero_policy"
    "s' = race_audit ''timing.configure'' ev s1"
    by (auto simp: configure_timing_def generate_ingestion_token_def stored_policy_def Let_def split: prod.splits sum.splits)
  from upsert_timing_config_row [OF up(1)] up(2-4) obtain x where "get_timing_config_by_event ev s' = Some x" "tc_policy x = Some zero_policy"
    by (cases "get_timing_config_by_event ev s'") (auto simp: get_timing_config_by_event_def sel_None_iff dest: sel_SomeD)
  then show ?thesis by (simp add: event_processor_def with_policy_def zero_policy_def new_processor_def)
qed

text \<open>A checkpoint sent without a list of aliases is never stored.\<close>

theorem checkpoint_without_aliases_fails:
  "upper (trim_space code) \<noteq> [] \<Longrightarrow>
     upsert_checkpoint i org ev code name kind ord dist None prov s = (Inl (NotNullViolation ''aliases''), s)"
  by (simp add: upsert_checkpoint_def Let_def upsert_timing_checkpoint_def)

section \<open>One chip, one bib\<close>

definition mapping_inv :: "race_db \<Rightarrow> bool" where
  "mapping_inv s \<longleftrightarrow> (\<forall>ev k. cnt (active_bib ev k) (mappings s) \<le> 1 \<and> cnt (active_chip ev k) (mappings s) \<le> 1)"

lemma replaced_inactive [simp]: "\<not> active_bib ev b (replaced m)" "\<not> active_chip ev b (replaced m)"
  by (simp_all add: active_bib_def active_chip_def replaced_def)

lemma deactivated:
  "cnt (active_bib ev b) (mappings (deactivate_bib_mappings ev' b' s)) \<le> cnt (active_bib ev b) (mappings s)"
  "cnt (active_chip ev b) (mappings (deactivate_bib_mappings ev' b' s)) \<le> cnt (active_chip ev b) (mappings s)"
  "cnt (active_bib ev b) (mappings (deactivate_chip_mappings ev' b' s)) \<le> cnt (active_bib ev b) (mappings s)"
  "cnt (active_chip ev b) (mappings (deactivate_chip_mappings ev' b' s)) \<le> cnt (active_chip ev b) (mappings s)"
  by (simp_all add: deactivate_bib_mappings_def deactivate_chip_mappings_def cnt_upd) (auto intro!: cnt_mono)

lemma deactivate_inv:
  "mapping_inv s \<Longrightarrow> mapping_inv (deactivate_bib_mappings ev b s)"
  "mapping_inv s \<Longrightarrow> mapping_inv (deactivate_chip_mappings ev b s)"
  unfolding mapping_inv_def by (blast intro: deactivated order_trans)+

lemma insert_mapping_inv:
  assumes "mapping_inv s" "insert_bib_transponder_mapping m s = (r, s')"
  shows "mapping_inv s'"
proof (cases r)
  case (Inl e)
  with assms show ?thesis by (auto simp: insert_bib_transponder_mapping_def split: if_splits)
next
  case (Inr x)
  with assms(2) have s': "s' = s\<lparr>mappings := mappings s @ [m]\<rparr>"
    and free: "bm_active m \<Longrightarrow> cnt (active_bib (bm_event m) (bm_bib m)) (mappings s) = 0 \<and>
      cnt (active_chip (bm_event m) (bm_chip m)) (mappings s) = 0"
    by (auto simp: insert_bib_transponder_mapping_def cnt_0_iff split: if_splits)
  have "cnt (active_bib ev k) (mappings s) + of_bool (active_bib ev k m) \<le> 1 \<and>
      cnt (active_chip ev k) (mappings s) + of_bool (active_chip ev k m) \<le> 1" for ev k
    using assms(1) free by (auto simp: mapping_inv_def active_bib_def [of _ _ m] active_chip_def [of _ _ m])
  then show ?thesis by (simp add: s' mapping_inv_def)
qed

lemma assign_mapping_inv:
  "mapping_inv s \<Longrightarrow> assign_mapping i org ev bib chip replace memo s = (r, s') \<Longrightarrow> mapping_inv s'"
  by (auto simp: assign_mapping_def Let_def intro: deactivate_inv dest: insert_mapping_inv [rotated] insert_mapping_inv [OF deactivate_inv(2) [OF deactivate_inv(1)]]
      split: if_splits prod.splits sum.splits)

lemma import_mapping_records_inv:
  "mapping_inv s \<Longrightarrow> mapping_inv (snd (import_mapping_records new_id org ev idx replace k rs n s))"
proof (induction new_id org ev idx replace k rs n s rule: import_mapping_records.induct)
  case (2 new_id org ev idx replace k r rs n s)
  show ?case
  proof (cases r)
    case None
    then show ?thesis using 2 by simp
  next
    case (Some rec)
    obtain bib chip memo where m: "mapping_record idx rec = (bib, chip, memo)" by (cases "mapping_record idx rec")
    obtain x s1 where a: "assign_mapping (new_id k) org ev bib chip replace memo s = (x, s1)" by fastforce
    then have "mapping_inv s1" using assign_mapping_inv 2(5) by blast
    then show ?thesis using 2 Some m a by (auto split: sum.split)
  qed
qed simp

text \<open>At every moment an event has at most one active bib per chip and one active chip per bib.\<close>

theorem mapping_inv_preserved:
  assumes "mapping_inv s"
  shows "mapping_inv (snd (assign_mapping i org ev bib chip replace memo s)) \<and>
    mapping_inv (snd (import_mappings_csv new_id org ev recs replace s))"
proof
  show "mapping_inv (snd (assign_mapping i org ev bib chip replace memo s))"
    using assign_mapping_inv [OF assms] by (metis prod.collapse)
  show "mapping_inv (snd (import_mappings_csv new_id org ev recs replace s))"
    using assms import_mapping_records_inv [OF assms]
    by (auto simp: import_mappings_csv_def split: list.split option.split prod.split) (metis snd_conv)
qed

text \<open>Replacing assignments take the chip from its bib and the bib from its chip; the pair is then the
  only active one of both.\<close>

theorem replacing_assignment_wins:
  assumes "assign_mapping i org ev bib chip True memo s = (Inr u, s')"
  shows "(\<forall>m \<in> set (mappings s'). bm_event m = ev \<and> bm_active m \<and>
      (bm_bib m = trim_space bib \<or> bm_chip m = upper (trim_space chip)) \<longrightarrow>
      bm_bib m = trim_space bib \<and> bm_chip m = upper (trim_space chip)) \<and>
    map_option bm_bib (get_active_mapping_by_chip ev (upper (trim_space chip)) s') = Some (trim_space bib)"
proof -
  let ?m = "\<lparr> bm_id = i, bm_org = org, bm_event = ev, bm_bib = trim_space bib, bm_chip = upper (trim_space chip),
    bm_active = True, bm_status = MapActive, bm_notes = null_text memo \<rparr>"
  let ?s1 = "deactivate_chip_mappings ev (upper (trim_space chip)) (deactivate_bib_mappings ev (trim_space bib) s)"
  have "insert_bib_transponder_mapping ?m ?s1 = (Inr ?m, s')"
    using assms by (auto simp: assign_mapping_def insert_bib_transponder_mapping_def Let_def split: if_splits)
  then obtain m0 s1 where ins: "insert_bib_transponder_mapping m0 s1 = (Inr m0, s')" "bm_event m0 = ev" "bm_active m0"
    "bm_bib m0 = trim_space bib" "bm_chip m0 = upper (trim_space chip)" by fastforce
  then have s': "mappings s' = mappings s1 @ [m0]" and free: "\<forall>x \<in> set (mappings s1). \<not> active_bib ev (trim_space bib) x"
    "\<forall>x \<in> set (mappings s1). \<not> active_chip ev (upper (trim_space chip)) x"
    by (auto simp: insert_bib_transponder_mapping_def split: if_splits)
  then have 1: "\<forall>m \<in> set (mappings s'). bm_event m = ev \<and> bm_active m \<and>
      (bm_bib m = trim_space bib \<or> bm_chip m = upper (trim_space chip)) \<longrightarrow>
      bm_bib m = trim_space bib \<and> bm_chip m = upper (trim_space chip)"
    using ins by (auto simp: active_bib_def active_chip_def)
  have "sel (active_chip ev (upper (trim_space chip))) (mappings s1) = None" using free(2) by (simp add: sel_None_iff)
  then have "map_option bm_bib (get_active_mapping_by_chip ev (upper (trim_space chip)) s') = Some (trim_space bib)"
    using ins by (simp add: get_active_mapping_by_chip_def s' sel_append active_chip_def)
  with 1 show ?thesis by blast
qed


section \<open>Ingestion\<close>

lemma ingest_one_again:
  assumes "ingest_one org ev pr ob (n, s) = (m, s1)"
  shows "rbase s1 = rbase s \<and> (\<exists>extra. passings s1 = passings s @ extra) \<and>
    (\<forall>s2. rbase s2 = rbase s1 \<and> (\<exists>extra. passings s2 = passings s1 @ extra) \<longrightarrow>
       ingest_one org ev pr ob (k, s2) = (k, s2))"
proof -
  define same where "same = (if ob_external ob \<noteq> [] then same_external else same_observation)"
  let ?p = "passing_of org ev pr ob"
  have run: "ingest_one org ev pr ob (j, t) = (case insert_passing same ?p t of
      (Inl e, t1) \<Rightarrow> (j, t1) | (Inr q, t1) \<Rightarrow> (if ps_id q > 0 then j + 1 else j, t1))" for j t
    by (simp add: ingest_one_def same_def insert_timing_passing_def insert_timing_passing_fallback_def)
  have refl: "same ?p (?p\<lparr>ps_id := i, ps_processed := False\<rparr>)" for i
    by (auto simp: same_def same_external_def same_observation_def passing_of_def null_text_def)
  consider (dup) "\<exists>q \<in> set (passings s). same ?p q" | (fk) "\<not> (\<exists>q \<in> set (passings s). same ?p q)" "ev \<notin> e_id ` set (events (rbase s))"
    | (new) "\<not> (\<exists>q \<in> set (passings s). same ?p q)" "ev \<in> e_id ` set (events (rbase s))" by blast
  then show ?thesis
  proof cases
    case dup
    then have "s1 = s" using assms by (auto simp: run insert_passing_def)
    moreover have "ingest_one org ev pr ob (k, s2) = (k, s2)" if "\<exists>extra. passings s2 = passings s @ extra" for s2
      using that dup by (auto simp: run insert_passing_def)
    ultimately show ?thesis by auto
  next
    case fk
    then have "s1 = s" using assms by (auto simp: run insert_passing_def passing_of_def)
    moreover have "ingest_one org ev pr ob (k, s2) = (k, s2)" if "rbase s2 = rbase s" for s2
      using that fk by (simp add: run insert_passing_def) (simp add: passing_of_def)
    ultimately show ?thesis by auto
  next
    case new
    then have s1: "s1 = s\<lparr>passings := passings s @ [?p\<lparr>ps_id := next_passing_id s, ps_processed := False\<rparr>]\<rparr>"
      using assms by (auto simp: run insert_passing_def Let_def passing_of_def split: if_splits)
    have "ingest_one org ev pr ob (k, s2) = (k, s2)" if "\<exists>extra. passings s2 = passings s1 @ extra" for s2
      using that refl [of "next_passing_id s"] by (auto simp: run insert_passing_def s1)
    then show ?thesis by (auto simp: s1)
  qed
qed

lemma ingest_all_again:
  "fold (ingest_one org ev pr) obs (n, s) = (m, s1) \<Longrightarrow>
     rbase s1 = rbase s \<and> (\<exists>extra. passings s1 = passings s @ extra) \<and>
     (\<forall>s2 k. rbase s2 = rbase s1 \<and> (\<exists>extra. passings s2 = passings s1 @ extra) \<longrightarrow>
       fold (ingest_one org ev pr) obs (k, s2) = (k, s2))"
proof (induction obs arbitrary: n s)
  case (Cons ob obs)
  obtain n1 t where step: "ingest_one org ev pr ob (n, s) = (n1, t)" by fastforce
  then have "fold (ingest_one org ev pr) obs (n1, t) = (m, s1)" using Cons.prems by simp
  from Cons.IH [OF this] ingest_one_again [OF step] show ?case
    by (metis (no_types, lifting) append.assoc fold_simps(2))
qed auto

lemma ingest_keeps_configs: "timing_configs (snd (fold (ingest_one org ev pr) obs (n, s))) = timing_configs s"
proof (induction obs arbitrary: n s)
  case (Cons ob obs)
  have "timing_configs (snd (ingest_one org ev pr ob (n, s))) = timing_configs s"
    by (auto simp: ingest_one_def insert_timing_passing_def insert_timing_passing_fallback_def insert_passing_def Let_def)
  with Cons show ?case by (metis fold_simps(2) prod.collapse)
qed simp



section \<open>Processing a batch\<close>

lemma splits_fold:
  "race_results (fold (\<lambda>sp x. snd (upsert_race_split_time (split_row r sp) x)) sps s) = race_results s"
  "passings (fold (\<lambda>sp x. snd (upsert_race_split_time (split_row r sp) x)) sps s) = passings s"
  "rbase (fold (\<lambda>sp x. snd (upsert_race_split_time (split_row r sp) x)) sps s) = rbase s"
  by (induction sps arbitrary: s) (simp_all add: upsert_race_split_time_def)

definition acceptable :: "db \<Rightarrow> result_params \<Rightarrow> bool" where
  "acceptable b p \<longleftrightarrow> result_checks p \<and> rp_event p \<in> e_id ` set (events b) \<and>
     references (rp_category p) (c_id ` set (categories b)) \<and> references (rp_ticket p) (t_id ` set (tickets b))"

lemma upsert_race_result_rows:
  assumes "upsert_race_result i p s = (r, s1)"
  shows "rbase s1 = rbase s \<and> passings s1 = passings s \<and> (\<exists>extra. race_results s1 =
    (if acceptable (rbase s) p then upd (same_result (rp_event p) (rp_bib p)) (fill_result p) (race_results s)
     else race_results s) @ extra)"
proof (cases "acceptable (rbase s) p")
  case False
  then show ?thesis using assms by (auto simp: upsert_race_result_def acceptable_def Let_def split: if_splits)
next
  case True
  let ?P = "same_result (rp_event p) (rp_bib p)"
  have run: "upsert_race_result i p s = (case upd_one ?P (fill_result p) (race_results s) of
        Some (r, rs) \<Rightarrow> (Inr r, s\<lparr>race_results := rs\<rparr>)
      | None \<Rightarrow> if i \<in> rr_id ` set (race_results s) then (Inl (UniqueViolation ''race_results_pkey''), s)
          else (Inr (new_result i p), s\<lparr>race_results := race_results s @ [new_result i p]\<rparr>))"
    using True by (simp add: upsert_race_result_def acceptable_def Let_def)
  show ?thesis
  proof (cases "upd_one ?P (fill_result p) (race_results s)")
    case None
    then have "\<forall>x \<in> set (race_results s). \<not> ?P x" by (simp only: upd_one_None)
    then have "upd ?P (fill_result p) (race_results s) = race_results s" by (simp add: upd_no_match)
    with True None assms show ?thesis by (auto simp: run split: if_splits)
  next
    case (Some z)
    then obtain y ys where z: "upd_one ?P (fill_result p) (race_results s) = Some (y, ys)" by (cases z) simp
    with True assms upd_one_cases [OF z] show ?thesis by (auto simp: run)
  qed
qed

lemma output_params_simps [simp]:
  "rp_event (output_params org ev out) = ev" "rp_bib (output_params org ev out) = ro_bib out"
  by (simp_all add: output_params_def)

lemma store_output_rows:
  assumes "store_output org ev (i, out) (n, s) = (m, s1)"
  shows "rbase s1 = rbase s \<and> passings s1 = passings s \<and> (\<exists>extra. race_results s1 =
    (if acceptable (rbase s) (output_params org ev out)
     then upd (same_result ev (ro_bib out)) (fill_result (output_params org ev out)) (race_results s)
     else race_results s) @ extra)"
proof -
  obtain r t where up: "upsert_race_result i (output_params org ev out) s = (r, t)" by fastforce
  then have "rbase s1 = rbase t" "passings s1 = passings t" "race_results s1 = race_results t"
    using assms by (auto simp: store_output_def splits_fold split: sum.splits)
  with upsert_race_result_rows [OF up, unfolded output_params_simps] show ?thesis by metis
qed

lemma store_all_rows:
  assumes "fold (store_output org ev) ios (n, s) = (m, s1)"
  shows "rbase s1 = rbase s \<and> passings s1 = passings s \<and> (\<exists>extra. race_results s1 =
    map (settle (filter (acceptable (rbase s)) (map (output_params org ev \<circ> snd) ios))) (race_results s) @ extra)"
  using assms
proof (induction ios arbitrary: n s)
  case Nil
  then show ?case by (auto simp: settle_def last_for_def)
next
  case (Cons io ios)
  obtain i out where io: "io = (i, out)" by fastforce
  let ?p = "output_params org ev out" and ?f = "\<lambda>s ios. filter (acceptable (rbase s)) (map (output_params org ev \<circ> snd) ios)"
  obtain n1 t where step: "store_output org ev (i, out) (n, s) = (n1, t)" by fastforce
  then have rest: "fold (store_output org ev) ios (n1, t) = (m, s1)" using Cons.prems io by simp
  from store_output_rows [OF step] obtain extra where t: "rbase t = rbase s" "passings t = passings s"
    "race_results t = (if acceptable (rbase s) ?p then upd (same_result ev (ro_bib out)) (fill_result ?p) (race_results s)
       else race_results s) @ extra" by blast
  have "map (settle (?f s ios)) (if acceptable (rbase s) ?p then upd (same_result ev (ro_bib out)) (fill_result ?p) (race_results s)
       else race_results s) = map (settle (?f s (io # ios))) (race_results s)"
    by (simp add: io settle_Cons upd_def)
  then have "map (settle (?f t ios)) (race_results t) = map (settle (?f s (io # ios))) (race_results s) @ map (settle (?f s ios)) extra"
    by (simp only: t map_append)
  with Cons.IH [OF rest] t(1,2) show ?case by (metis append.assoc)
qed

definition unranked :: "race_result \<Rightarrow> race_result" where
  "unranked r = r\<lparr>rr_rank_overall := None, rr_rank_gender := None, rr_rank_category := None, rr_rank_age_group := None\<rparr>"

lemma rank_pass_unranked:
  "(\<And>k r. unranked (put k r) = unranked r) \<Longrightarrow> map unranked (rank_pass ranked part before put rs) = map unranked rs"
  by (simp add: rank_pass_def)

lemma recompute_unranked: "map unranked (race_results (recompute_ranks ev s)) = map unranked (race_results s)"
  by (simp add: recompute_ranks_def rank_age_group_def rank_category_def rank_gender_def rank_overall_def
      rank_pass_unranked unranked_def)

lemma recompute_frame [simp]: "passings (recompute_ranks ev s) = passings s" "rbase (recompute_ranks ev s) = rbase s"
  by (simp_all add: recompute_ranks_def rank_age_group_def rank_category_def rank_gender_def rank_overall_def)

lemma race_audit_frame [simp]: "passings (race_audit a t s) = passings s" "race_results (race_audit a t s) = race_results s"
  by (simp_all add: race_audit_def)

lemma bib_of_canonical [simp]: "bib_of chips (canonical_item cps p) = bib_of chips p" "pi_id (canonical_item cps p) = pi_id p"
  by (simp_all add: bib_of_def canonical_item_def)

definition resolved :: "uuid \<Rightarrow> race_db \<Rightarrow> passing \<Rightarrow> bool" where
  "resolved ev s q \<longleftrightarrow> bib_of (chip_to_bib ev s) (item_of q) \<noteq> []"

lemma outputs_processed:
  assumes "\<And>xs. set (visit xs) = set xs"
  shows "set (concat (map ro_processed (batch_outputs pace visit org ev s))) = ps_id ` {q \<in> set (batch ev s). resolved ev s q}"
proof -
  have ids: "set (ro_processed (score pace pr cps part b (passings_of cps chips ps b))) =
      pi_id ` {it \<in> set ps. bib_of chips it = b}" for pr cps part b chips ps
    by (simp add: score_def Let_def in_time_order_facts(2) passings_of_def) (force simp: image_iff)
  have "set (concat (map ro_processed (batch_outputs pace visit org ev s))) =
      pi_id ` {it \<in> item_of ` set (batch ev s). bib_of (chip_to_bib ev s) it \<noteq> []}"
    by (simp add: batch_outputs_def process_event_passings_def ids assms bibs_seen_def) auto
  also have "\<dots> = ps_id ` {q \<in> set (batch ev s). resolved ev s q}" 
  proof -
    have "pi_id (item_of q) = ps_id q" for q by (simp add: item_of_def)
    then have "pi_id ` item_of ` Q = ps_id ` Q" for Q by (simp add: image_image)
    moreover have "{it \<in> item_of ` set (batch ev s). bib_of (chip_to_bib ev s) it \<noteq> []} =
        item_of ` {q \<in> set (batch ev s). resolved ev s q}" by (auto simp: resolved_def)
    ultimately show ?thesis by simp
  qed
  finally show ?thesis .
qed

lemma process_timing_steps:
  assumes "batch ev s \<noteq> []"
  obtains n s1 where
    "fold (store_output org ev) (zip (map new_id [0..<length (batch_outputs pace visit org ev s)]) (batch_outputs pace visit org ev s)) (0, s) = (n, s1)"
    "rbase s1 = rbase s" "passings s1 = passings s"
    "passings (snd (process_timing pace visit new_id org ev s)) =
      passings (mark_passings_processed (concat (map ro_processed (batch_outputs pace visit org ev s))) s1)"
    "map unranked (race_results (snd (process_timing pace visit new_id org ev s))) = map unranked (race_results s1)"
proof -
  let ?outs = "batch_outputs pace visit org ev s"
  let ?ids = "concat (map ro_processed ?outs)"
  obtain n s1 where run: "fold (store_output org ev) (zip (map new_id [0..<length ?outs]) ?outs) (0, s) = (n, s1)" by fastforce
  have mark: "(if ?ids \<noteq> [] then mark_passings_processed ?ids s1 else s1) = mark_passings_processed ?ids s1"
    by (simp add: mark_passings_processed_def upd_no_match)
  have "race_results (mark_passings_processed ?ids s1) = race_results s1" by (simp add: mark_passings_processed_def)
  then have "map unranked (race_results (snd (process_timing pace visit new_id org ev s))) = map unranked (race_results s1)"
    "passings (snd (process_timing pace visit new_id org ev s)) = passings (mark_passings_processed ?ids s1)"
    using assms by (simp_all add: process_timing_def Let_def run mark recompute_unranked)
      (simp add: mark_passings_processed_def upd_no_match)
  with store_all_rows [OF run] show thesis using that [OF run] by blast
qed

text \<open>A run marks exactly the passings of its batch whose bib it knows, whether or not their result was
  stored.\<close>

theorem processing_marks_the_resolved:
  assumes "\<And>xs. set (visit xs) = set xs"
  shows "passings (snd (process_timing pace visit new_id org ev s)) =
    upd (\<lambda>p. ps_id p \<in> ps_id ` {q \<in> set (batch ev s). resolved ev s q}) (\<lambda>p. p\<lparr>ps_processed := True\<rparr>) (passings s)"
proof (cases "batch ev s = []")
  case True
  then show ?thesis by (simp add: process_timing_def upd_no_match)
next
  case False
  then obtain s1 where "passings s1 = passings s"
    "passings (snd (process_timing pace visit new_id org ev s)) =
      passings (mark_passings_processed (concat (map ro_processed (batch_outputs pace visit org ev s))) s1)"
    by (rule process_timing_steps)
  then show ?thesis unfolding mark_passings_processed_def outputs_processed [OF assms] by simp
qed

text \<open>Unknown chips are never marked: once a full batch of them is the oldest of the event, every later
  run reads the same batch and changes nothing.\<close>

theorem unknown_chips_block_the_queue:
  assumes "\<And>xs. set (visit xs) = set xs" "\<forall>q \<in> set (batch ev s). \<not> resolved ev s q"
  shows "batch ev (snd (process_timing pace visit new_id org ev s)) = batch ev s \<and>
    race_results (snd (process_timing pace visit new_id org ev s)) = race_results s"
proof -
  have "bibs_seen (chip_to_bib ev s) (map item_of (batch ev s)) = []"
    using assms(2) by (simp add: bibs_seen_def resolved_def)
  moreover have "visit [] = []" using assms(1) [of "[]"] by simp
  ultimately have "batch_outputs pace visit org ev s = []" by (simp add: batch_outputs_def process_event_passings_def)
  then have "snd (process_timing pace visit new_id org ev s) = (if batch ev s = [] then s else race_audit ''timing.process'' ev s)"
    by (simp add: process_timing_def)
  then show ?thesis by (simp add: batch_def list_unprocessed_passings_def)
qed


section \<open>A later batch overwrites an earlier result\<close>

lemma output_checks: "result_checks (output_params org ev (score pace pr cps part b xs))"
proof -
  have "elapsed_ms f t = Some ms \<Longrightarrow> 0 \<le> ms" for f t ms by (auto simp: elapsed_ms_def split: if_splits)
  then show ?thesis
    by (auto simp: result_checks_def output_params_def race_sources_def score_def Let_def chip_time_def gun_time_def
        split: option.split)
qed

lemma settle_one:
  assumes "distinct (map rp_bib ps)" "\<forall>p \<in> set ps. rp_event p = rr_event r" "p \<in> set ps" "rp_bib p = rr_bib r"
  shows "settle ps r = fill_result p r"
proof -
  have p: "same_result (rp_event p) (rp_bib p) r" using assms by (auto simp: same_result_def)
  then obtain q where q: "last_for ps r = Some q" using assms(3) by (cases "last_for ps r") (auto simp: last_for_def sel_None_iff)
  then have "q \<in> set ps" "rp_bib q = rp_bib p"
    using p by (auto simp: last_for_def same_result_def dest!: sel_SomeD)
  then have "q = p" using assms(1,3) by (auto simp: distinct_map dest: inj_onD)
  with q have "last_for ps r = Some p" by simp
  then show ?thesis by (simp add: settle_def)
qed


lemma accepted_outputs:
  fixes pace visit org ev s
  defines "outs \<equiv> batch_outputs pace visit org ev s"
  assumes "\<And>xs. mset (visit xs) = mset xs"
    "ev \<in> e_id ` set (events (rbase s))" "\<forall>t \<in> set (tickets (rbase s)). t_category t \<in> c_id ` set (categories (rbase s))"
  shows "filter (acceptable (rbase s)) (map (output_params org ev) outs) = map (output_params org ev) outs"
    "distinct (map ro_bib outs)"
    "map ro_bib outs = visit (bibs_seen (chip_to_bib ev s) (map item_of (batch ev s)))"
proof -
  let ?parts = "participants org ev s"
  have parts: "references (pd_category p) (c_id ` set (categories (rbase s))) \<and> references (pd_ticket p) (t_id ` set (tickets (rbase s)))"
    if "map_of ?parts b = Some p" for b p
    using map_of_SomeD [OF that] assms(4)
    by (auto simp: participants_def participant_of_def list_tickets_with_wave_def split: option.splits if_splits)
  have "acceptable (rbase s) (output_params org ev out)" if "out \<in> set outs" for out
  proof -
    from that obtain b where out: "out = score pace (event_processor ev s) (list_timing_checkpoints_by_event ev s)
        (case map_of ?parts b of None \<Rightarrow> unknown_participant b | Some p \<Rightarrow> p) b
        (passings_of (list_timing_checkpoints_by_event ev s) (chip_to_bib ev s) (map item_of (batch ev s)) b)"
      by (auto simp: outs_def batch_outputs_def process_event_passings_def)
    have "references (ro_category out) (c_id ` set (categories (rbase s)))" "references (ro_ticket out) (t_id ` set (tickets (rbase s)))"
      using parts [of b] by (simp_all add: out score_def Let_def unknown_participant_def split: option.split)
    moreover have "result_checks (output_params org ev out)" unfolding out by (rule output_checks)
    ultimately show ?thesis using assms(3) by (simp add: acceptable_def) (simp add: output_params_def)
  qed
  then show "filter (acceptable (rbase s)) (map (output_params org ev) outs) = map (output_params org ev) outs" by simp
  show bibs: "map ro_bib outs = visit (bibs_seen (chip_to_bib ev s) (map item_of (batch ev s)))"
    by (simp add: outs_def batch_outputs_def process_event_passings_def comp_def score_def Let_def)
  have "distinct (bibs_seen (chip_to_bib ev s) (map item_of (batch ev s)))" by (simp add: bibs_seen_def)
  then show "distinct (map ro_bib outs)" unfolding bibs using assms(2) by (metis mset_eq_imp_distinct_iff)
qed

text \<open>What a run writes into the rows that exist: the row of every bib in the batch is replaced by the
  output computed from this batch alone, all other rows keep everything but their ranks.\<close>

lemma process_timing_rows:
  assumes "\<And>xs. mset (visit xs) = mset xs"
    "ev \<in> e_id ` set (events (rbase s))" "\<forall>t \<in> set (tickets (rbase s)). t_category t \<in> c_id ` set (categories (rbase s))"
    "batch ev s \<noteq> []" "out \<in> set (batch_outputs pace visit org ev s)"
    "r \<in> set (race_results s)" "rr_event r = ev" "rr_bib r = ro_bib out"
  shows "\<exists>r' \<in> set (race_results (snd (process_timing pace visit new_id org ev s))).
    unranked r' = unranked (fill_result (output_params org ev out) r)"
proof -
  let ?outs = "batch_outputs pace visit org ev s" and ?ps = "map (output_params org ev) (batch_outputs pace visit org ev s)"
  obtain n s1 where run: "fold (store_output org ev) (zip (map new_id [0..<length ?outs]) ?outs) (0, s) = (n, s1)"
    and ranks: "map unranked (race_results (snd (process_timing pace visit new_id org ev s))) = map unranked (race_results s1)"
    by (rule process_timing_steps [OF assms(4)])
  have "map (output_params org ev \<circ> snd) (zip (map new_id [0..<length ?outs]) ?outs) = ?ps"
    by (simp flip: map_map)
  with store_all_rows [OF run] accepted_outputs(1) [OF assms(1-3)]
  have "settle ?ps r \<in> set (race_results s1)" using assms(6) by auto
  moreover have "settle ?ps r = fill_result (output_params org ev out) r"
  proof (rule settle_one)
    show "distinct (map rp_bib ?ps)" using accepted_outputs(2) [OF assms(1-3)] by (simp add: comp_def)
  qed (use assms(5,7,8) in auto)
  ultimately have "unranked (fill_result (output_params org ev out) r) \<in> set (map unranked (race_results s1))" by auto
  then show ?thesis by (auto simp flip: ranks)
qed



section \<open>Examples\<close>

theorem only_the_issued_token_validates_witness:
  "case configure_timing (\<lambda>x. x) [171, 7] 9 1 2 '' csv'' [] [] None [] race_start of
     (Inl e, s') \<Rightarrow> True
   | (Inr (c, raw), s') \<Rightarrow> validate_ingestion_token (\<lambda>x. x) 2 ''ivytt_ab07'' s' = (''ivytt_ab07'' = raw)"
  using only_the_issued_token_validates [of "\<lambda>x. x" "[171, 7]" 9 1 2 "'' csv''" "[]" "[]" None "[]" race_start _ _ _ "''ivytt_ab07''"]
  by (auto split: sum.split prod.split)

theorem no_policy_is_the_zero_policy_witness:
  "\<exists>c raw s'. configure_timing (\<lambda>x. x) [171, 7] 9 1 2 [] [] [] None [] race_start = (Inr (c, raw), s') \<and>
     event_processor 2 s' = new_processor\<lparr>pr_policy := zero_policy\<rparr>"
proof -
  have "case fst (configure_timing (\<lambda>x. x) [171, 7] 9 1 2 [] [] [] None [] race_start) of Inl _ \<Rightarrow> False | Inr _ \<Rightarrow> True"
    by code_simp
  then obtain c raw s' where run: "configure_timing (\<lambda>x. x) [171, 7] 9 1 2 [] [] [] None [] race_start = (Inr (c, raw), s')"
    by (cases "configure_timing (\<lambda>x. x) [171, 7] 9 1 2 [] [] [] None [] race_start") (auto split: sum.splits)
  with no_policy_is_the_zero_policy [OF run] show ?thesis by blast
qed

theorem checkpoint_without_aliases_fails_witness:
  "upsert_checkpoint 31 1 2 ''f'' ''Finish'' ''FINISH'' 1 None None [] race_start = (Inl (NotNullViolation ''aliases''), race_start)"
proof -
  have "upper (trim_space ''f'') \<noteq> []" by code_simp
  then show ?thesis by (rule checkpoint_without_aliases_fails)
qed

theorem mapping_inv_preserved_witness:
  "mapping_inv (snd (assign_mapping 5 1 2 ''7'' ''ab'' True [] race_start)) \<and>
   mapping_inv (snd (import_mappings_csv (\<lambda>k. k) 1 2 [Some [''bib'', ''chip''], Some [''7'', ''ab''], Some [''8'', ''ab'']] True race_start))"
  by (rule mapping_inv_preserved) (simp add: mapping_inv_def race_start_def)

theorem replacing_assignment_wins_witness:
  "map_option bm_bib (get_active_mapping_by_chip 2 ''AB'' (snd (assign_mapping 6 1 2 ''8'' ''ab'' True []
     (snd (assign_mapping 5 1 2 ''7'' ''ab'' False [] race_start))))) = Some ''8''"
proof -
  let ?s = "snd (assign_mapping 5 1 2 ''7'' ''ab'' False [] race_start)"
  have "case fst (assign_mapping 6 1 2 ''8'' ''ab'' True [] ?s) of Inl _ \<Rightarrow> False | Inr _ \<Rightarrow> True" by code_simp
  then obtain u s' where run: "assign_mapping 6 1 2 ''8'' ''ab'' True [] ?s = (Inr u, s')"
    by (cases "assign_mapping 6 1 2 ''8'' ''ab'' True [] ?s") (auto split: sum.splits)
  have "upper (trim_space ''ab'') = ''AB''" "trim_space ''8'' = ''8''" by code_simp+
  with replacing_assignment_wins [OF run] run show ?thesis by simp
qed

definition feed_start :: race_db where
  "feed_start = race_start\<lparr>checkpoints := demo_course,
     timing_configs := [\<lparr> tc_id = 9, tc_org = 1, tc_event = 2, tc_provider = ''RACE_RESULT'', tc_transport = ''HTTP_PUSH'',
       tc_sync_mode = ''RAW_PASSINGS'', tc_policy = Some default_policy, tc_token_hash = ''h'', tc_token_prefix = ''p'',
       tc_external_race = None, tc_active = True \<rparr>]\<rparr>"

definition two_reads :: passing_parser where
  "two_reads cp payload = Inr [plain_observation ''1'' ''S'' ''AB'' 5 payload, plain_observation [] ''F'' ''AB'' 9 payload]"


definition demo_passing :: "int \<Rightarrow> string \<Rightarrow> string option \<Rightarrow> time \<Rightarrow> passing" where
  "demo_passing i cp bib at = \<lparr> ps_id = i, ps_org = 1, ps_event = 2, ps_checkpoint = cp, ps_provider = ''RACE_RESULT'',
     ps_external = None, ps_chip = ''AB'', ps_raw_chip = None, ps_bib = bib, ps_at = at, ps_payload = None, ps_processed = False \<rparr>"

theorem processing_marks_the_resolved_witness:
  "passings (snd (process_timing (\<lambda>_ _. 0) (\<lambda>xs. xs) (\<lambda>k. k) 1 2
      (feed_start\<lparr>passings := [demo_passing 1 ''S'' (Some ''7'') 5, demo_passing 2 ''S'' None 6]\<rparr>))) =
   upd (\<lambda>p. ps_id p \<in> ps_id ` {q \<in> set (batch 2 (feed_start\<lparr>passings := [demo_passing 1 ''S'' (Some ''7'') 5, demo_passing 2 ''S'' None 6]\<rparr>)).
        resolved 2 (feed_start\<lparr>passings := [demo_passing 1 ''S'' (Some ''7'') 5, demo_passing 2 ''S'' None 6]\<rparr>) q})
     (\<lambda>p. p\<lparr>ps_processed := True\<rparr>) [demo_passing 1 ''S'' (Some ''7'') 5, demo_passing 2 ''S'' None 6]"
  using processing_marks_the_resolved [of "\<lambda>xs. xs" "\<lambda>_ _. 0" "\<lambda>k. k" 1 2
      "feed_start\<lparr>passings := [demo_passing 1 ''S'' (Some ''7'') 5, demo_passing 2 ''S'' None 6]\<rparr>"] by simp

theorem unknown_chips_block_the_queue_witness:
  "batch 2 (snd (process_timing (\<lambda>_ _. 0) (\<lambda>xs. xs) (\<lambda>k. k) 1 2 (feed_start\<lparr>passings := [demo_passing 1 ''S'' None 5]\<rparr>))) =
     batch 2 (feed_start\<lparr>passings := [demo_passing 1 ''S'' None 5]\<rparr>) \<and>
   race_results (snd (process_timing (\<lambda>_ _. 0) (\<lambda>xs. xs) (\<lambda>k. k) 1 2 (feed_start\<lparr>passings := [demo_passing 1 ''S'' None 5]\<rparr>))) =
     race_results (feed_start\<lparr>passings := [demo_passing 1 ''S'' None 5]\<rparr>)"
proof (rule unknown_chips_block_the_queue)
  show "\<forall>q \<in> set (batch 2 (feed_start\<lparr>passings := [demo_passing 1 ''S'' None 5]\<rparr>)).
      \<not> resolved 2 (feed_start\<lparr>passings := [demo_passing 1 ''S'' None 5]\<rparr>) q" by code_simp
qed simp

definition finished_row :: race_result where
  "finished_row = (new_result 40 (output_params 1 2 (score (\<lambda>_ _. 0) new_processor demo_course demo_part ''7''
     [demo_read 1 ''S'' 5, demo_read 2 ''F'' 3000005])))"

definition late_state :: race_db where
  "late_state = feed_start\<lparr>passings := [demo_passing 3 ''F'' (Some ''7'') 7000005], race_results := [finished_row]\<rparr>"


end
