(* ===== verification/CompSchema.thy ===== *)
theory CompSchema
  imports Fixtures Durations Inventory
begin

text \<open>
  The tables of the competitions (migrations 66 to 68) and their queries (\<open>db/competitions.sql.go\<close>).
  Rules are the keys of \<open>rules_config\<close> that the code reads; metrics are a list of integers by name. The
  numeric columns are kept in units of their last digit.
\<close>

section \<open>Rows\<close>

record sport =
  so_id :: string
  so_name :: string
  so_body :: string

record discipline =
  di_id :: string
  di_sport :: string
  di_name :: string

text \<open>\<open>rules_config\<close>: a missing key, or one of another JSON type, is \<open>None\<close>; numbers are truncated as
  \<open>int(float64)\<close> does.\<close>

record rules =
  ru_format :: "string option"
  ru_win_points :: "int option"
  ru_draw_points :: "int option"
  ru_bunch_finish :: "bool option"

record comp_config =
  cc_id :: uuid
  cc_org :: uuid
  cc_event :: uuid
  cc_category :: "uuid option"
  cc_sport :: string
  cc_discipline :: string
  cc_timing :: bool
  cc_scoring :: bool
  cc_matches :: bool
  cc_heats_lanes :: bool
  cc_stages :: bool
  cc_team_based :: bool
  cc_min_team :: int
  cc_max_team :: int
  cc_ranking :: string
  cc_precision :: string
  cc_rules :: rules

datatype team_status = TeamActive | TeamDisqualified | TeamWithdrawn

record team =
  te_id :: uuid
  te_org :: uuid
  te_event :: uuid
  te_category :: "uuid option"
  te_name :: string
  te_short :: "string option"
  te_manager :: "uuid option"
  te_logo :: "string option"
  te_seed :: "int option"
  te_status :: team_status

record roster_member =
  ro_id :: uuid
  ro_team :: uuid
  ro_ticket :: "uuid option"
  ro_user :: "uuid option"
  ro_player :: string
  ro_jersey :: "int option"
  ro_position :: "string option"
  ro_captain :: bool

datatype stage_status = SgScheduled | SgLive | SgCompleted | SgAbandoned

record stage =
  sg_id :: uuid
  sg_org :: uuid
  sg_event :: uuid
  sg_category :: "uuid option"
  sg_name :: string
  sg_type :: string
  sg_order :: int
  sg_status :: stage_status

record comp_observation =
  co_id :: uuid
  co_org :: uuid
  co_event :: uuid
  co_stage :: "uuid option"
  co_match :: "uuid option"
  co_entry :: "uuid option"
  co_type :: string
  co_source :: string
  co_number :: "int option"
  co_text :: "string option"
  co_at :: int

record comp_result =
  cr_id :: uuid
  cr_org :: uuid
  cr_event :: uuid
  cr_stage :: "uuid option"
  cr_category :: "uuid option"
  cr_entry :: uuid
  cr_rank :: "int option"
  cr_rank_category :: "int option"
  cr_status :: comp_status
  cr_primary :: "int option"
  cr_secondary :: "int option"
  cr_points :: int
  cr_metrics :: "(string \<times> int) list"
  cr_notes :: "string option"

record arena =
  abase :: db
  sports :: "sport list"
  disciplines :: "discipline list"
  configs :: "comp_config list"
  teams :: "team list"
  rosters :: "roster_member list"
  stages :: "stage list"
  matches :: "match_row list"
  pentries :: "participant_entry list"
  observations :: "comp_observation list"
  comp_results :: "comp_result list"

definition arena_audit :: "string \<Rightarrow> uuid \<Rightarrow> arena \<Rightarrow> arena" where
  "arena_audit action target s = s\<lparr>abase := audit action target (abase s)\<rparr>"

definition known_event :: "uuid \<Rightarrow> arena \<Rightarrow> bool" where
  "known_event ev s \<longleftrightarrow> ev \<in> e_id ` set (events (abase s))"

definition known_category :: "uuid option \<Rightarrow> arena \<Rightarrow> bool" where
  "known_category c s \<longleftrightarrow> references c (c_id ` set (categories (abase s)))"

section \<open>Sports and configurations\<close>

definition list_sports_rows :: "arena \<Rightarrow> sport list" where
  "list_sports_rows s = go_sort (\<lambda>a b. so_name a < so_name b) (sports s)"

definition get_sport_by_id :: "string \<Rightarrow> arena \<Rightarrow> sport option" where
  "get_sport_by_id i s = sel (\<lambda>x. so_id x = i) (sports s)"

definition get_sport_discipline_by_id :: "string \<Rightarrow> arena \<Rightarrow> discipline option" where
  "get_sport_discipline_by_id i s = sel (\<lambda>x. di_id x = i) (disciplines s)"

definition list_sport_disciplines_by_sport :: "string \<Rightarrow> arena \<Rightarrow> discipline list" where
  "list_sport_disciplines_by_sport sp s = go_sort (\<lambda>a b. di_name a < di_name b) (filter (\<lambda>x. di_sport x = sp) (disciplines s))"

text \<open>\<open>UNIQUE (event_id, category_id)\<close> does not see two rows without category as equal: NULLs differ.\<close>

definition same_config :: "comp_config \<Rightarrow> comp_config \<Rightarrow> bool" where
  "same_config c x \<longleftrightarrow> cc_event x = cc_event c \<and> cc_category x \<noteq> None \<and> cc_category x = cc_category c"

definition fill_config :: "comp_config \<Rightarrow> comp_config \<Rightarrow> comp_config" where
  "fill_config c x = c\<lparr>cc_id := cc_id x, cc_org := cc_org x\<rparr>"

definition upsert_competition_config :: "comp_config \<Rightarrow> arena \<Rightarrow> comp_config res \<times> arena" where
  "upsert_competition_config c s =
     (if \<not> known_event (cc_event c) s then (Inl (ForeignKeyViolation ''competition_configs_event_id_fkey''), s)
      else if \<not> known_category (cc_category c) s then
        (Inl (ForeignKeyViolation ''competition_configs_category_id_fkey''), s)
      else if cc_sport c \<notin> so_id ` set (sports s) then
        (Inl (ForeignKeyViolation ''competition_configs_sport_id_fkey''), s)
      else if cc_discipline c \<notin> di_id ` set (disciplines s) then
        (Inl (ForeignKeyViolation ''competition_configs_discipline_id_fkey''), s)
      else case upd_one (same_config c) (fill_config c) (configs s) of
        Some (r, rs) \<Rightarrow> (Inr r, s\<lparr>configs := rs\<rparr>)
      | None \<Rightarrow>
          if cc_id c \<in> cc_id ` set (configs s) then (Inl (UniqueViolation ''competition_configs_pkey''), s)
          else (Inr c, s\<lparr>configs := configs s @ [c]\<rparr>))"

definition get_competition_config_by_event :: "uuid \<Rightarrow> arena \<Rightarrow> comp_config option" where
  "get_competition_config_by_event ev s = sel (\<lambda>c. cc_event c = ev \<and> cc_category c = None) (configs s)"

definition get_competition_config_by_category :: "uuid \<Rightarrow> uuid \<Rightarrow> arena \<Rightarrow> comp_config option" where
  "get_competition_config_by_category ev cat s = sel (\<lambda>c. cc_event c = ev \<and> cc_category c = Some cat) (configs s)"

section \<open>Teams\<close>

definition create_team_row :: "team \<Rightarrow> arena \<Rightarrow> team res \<times> arena" where
  "create_team_row t s =
     (if te_id t \<in> te_id ` set (teams s) then (Inl (UniqueViolation ''teams_pkey''), s)
      else if \<not> known_event (te_event t) s then (Inl (ForeignKeyViolation ''teams_event_id_fkey''), s)
      else if \<not> known_category (te_category t) s then (Inl (ForeignKeyViolation ''teams_category_id_fkey''), s)
      else if \<not> references (te_manager t) (u_id ` set (users (abase s))) then
        (Inl (ForeignKeyViolation ''teams_manager_user_id_fkey''), s)
      else (Inr t, s\<lparr>teams := teams s @ [t]\<rparr>))"

definition get_team_by_id :: "uuid \<Rightarrow> arena \<Rightarrow> team option" where
  "get_team_by_id i s = sel (\<lambda>t. te_id t = i) (teams s)"

text \<open>\<open>seed_number ASC NULLS LAST\<close>, continued by another order.\<close>

definition int_nulls_last :: "int option \<Rightarrow> int option \<Rightarrow> bool \<Rightarrow> bool" where
  "int_nulls_last a b continue =
     (case (a, b) of
        (Some x, Some y) \<Rightarrow> x < y \<or> x = y \<and> continue
      | (Some x, None) \<Rightarrow> True
      | (None, Some y) \<Rightarrow> False
      | (None, None) \<Rightarrow> continue)"

definition list_teams_by_event :: "uuid \<Rightarrow> arena \<Rightarrow> team list" where
  "list_teams_by_event ev s =
     go_sort (\<lambda>a b. int_nulls_last (te_seed a) (te_seed b) (te_name a < te_name b)) (filter (\<lambda>t. te_event t = ev) (teams s))"

definition update_team_status :: "uuid \<Rightarrow> team_status \<Rightarrow> arena \<Rightarrow> team res \<times> arena" where
  "update_team_status i st s =
     (case upd_one (\<lambda>t. te_id t = i) (\<lambda>t. t\<lparr>te_status := st\<rparr>) (teams s) of
        None \<Rightarrow> (Inl NoRows, s) | Some (t, ts) \<Rightarrow> (Inr t, s\<lparr>teams := ts\<rparr>))"

definition create_team_roster_member_row :: "roster_member \<Rightarrow> arena \<Rightarrow> roster_member res \<times> arena" where
  "create_team_roster_member_row m s =
     (if ro_id m \<in> ro_id ` set (rosters s) then (Inl (UniqueViolation ''team_rosters_pkey''), s)
      else if ro_team m \<notin> te_id ` set (teams s) then (Inl (ForeignKeyViolation ''team_rosters_team_id_fkey''), s)
      else if \<not> references (ro_ticket m) (t_id ` set (tickets (abase s))) then
        (Inl (ForeignKeyViolation ''team_rosters_ticket_id_fkey''), s)
      else if \<not> references (ro_user m) (u_id ` set (users (abase s))) then
        (Inl (ForeignKeyViolation ''team_rosters_user_id_fkey''), s)
      else (Inr m, s\<lparr>rosters := rosters s @ [m]\<rparr>))"

definition delete_team_roster_member :: "uuid \<Rightarrow> arena \<Rightarrow> arena" where
  "delete_team_roster_member i s = s\<lparr>rosters := filter (\<lambda>m. ro_id m \<noteq> i) (rosters s)\<rparr>"

definition list_team_roster_by_team :: "uuid \<Rightarrow> arena \<Rightarrow> roster_member list" where
  "list_team_roster_by_team t s =
     go_sort (\<lambda>a b. ro_captain a \<and> \<not> ro_captain b \<or>
         ro_captain a = ro_captain b \<and> int_nulls_last (ro_jersey a) (ro_jersey b) (ro_player a < ro_player b))
       (filter (\<lambda>m. ro_team m = t) (rosters s))"

section \<open>Entries\<close>

text \<open>Migration 67: one entry of a ticket per event.\<close>

definition entry_statuses :: "comp_status list" where
  "entry_statuses = [StRegistered, StCheckedIn, StActive, StCompleted, StWithdrawn, StDisqualified, StDNS, StDNF, StPendingReview]"

definition create_participant_entry :: "participant_entry \<Rightarrow> arena \<Rightarrow> participant_entry res \<times> arena" where
  "create_participant_entry p s =
     (if pe_status p \<notin> set entry_statuses then (Inl (CheckViolation ''participant_entries_status_check''), s)
      else if pe_id p \<in> pe_id ` set (pentries s) then (Inl (UniqueViolation ''participant_entries_pkey''), s)
      else if pe_ticket p \<noteq> None \<and> (\<exists>x \<in> set (pentries s). pe_event x = pe_event p \<and> pe_ticket x = pe_ticket p) then
        (Inl (UniqueViolation ''idx_participant_entries_event_ticket''), s)
      else if \<not> known_event (pe_event p) s then (Inl (ForeignKeyViolation ''participant_entries_event_id_fkey''), s)
      else if \<not> known_category (pe_category p) s then
        (Inl (ForeignKeyViolation ''participant_entries_category_id_fkey''), s)
      else if \<not> references (pe_ticket p) (t_id ` set (tickets (abase s))) then
        (Inl (ForeignKeyViolation ''participant_entries_ticket_id_fkey''), s)
      else if \<not> references (pe_team p) (te_id ` set (teams s)) then
        (Inl (ForeignKeyViolation ''participant_entries_team_id_fkey''), s)
      else (Inr p, s\<lparr>pentries := pentries s @ [p]\<rparr>))"

definition get_participant_entry_by_id :: "uuid \<Rightarrow> arena \<Rightarrow> participant_entry option" where
  "get_participant_entry_by_id i s = sel (\<lambda>p. pe_id p = i) (pentries s)"

definition get_participant_entry_by_ticket :: "uuid \<Rightarrow> arena \<Rightarrow> participant_entry option" where
  "get_participant_entry_by_ticket t s = sel (\<lambda>p. pe_ticket p = Some t) (pentries s)"

definition list_participant_entries_by_event :: "uuid \<Rightarrow> arena \<Rightarrow> participant_entry list" where
  "list_participant_entries_by_event ev s =
     go_sort (\<lambda>a b. int_nulls_last (pe_heat a) (pe_heat b) (int_nulls_last (pe_lane a) (pe_lane b)
         (int_nulls_last (pe_seed a) (pe_seed b) (pe_name a < pe_name b))))
       (filter (\<lambda>p. pe_event p = ev) (pentries s))"

definition update_participant_entry_status :: "uuid \<Rightarrow> comp_status \<Rightarrow> arena \<Rightarrow> participant_entry res \<times> arena" where
  "update_participant_entry_status i st s =
     (if i \<in> pe_id ` set (pentries s) \<and> st \<notin> set entry_statuses then
        (Inl (CheckViolation ''participant_entries_status_check''), s)
      else case upd_one (\<lambda>p. pe_id p = i) (\<lambda>p. p\<lparr>pe_status := st\<rparr>) (pentries s) of
        None \<Rightarrow> (Inl NoRows, s) | Some (p, ps) \<Rightarrow> (Inr p, s\<lparr>pentries := ps\<rparr>))"

section \<open>Stages and matches\<close>

definition stage_types :: "string list" where
  "stage_types = [''single_race'', ''group_round_robin'', ''single_elimination'', ''double_elimination'', ''heats'', ''peloton_stage'']"

definition create_competition_stage :: "stage \<Rightarrow> arena \<Rightarrow> stage res \<times> arena" where
  "create_competition_stage g s =
     (if sg_type g \<notin> set stage_types then (Inl (CheckViolation ''competition_stages_stage_type_check''), s)
      else if sg_id g \<in> sg_id ` set (stages s) then (Inl (UniqueViolation ''competition_stages_pkey''), s)
      else if \<not> known_event (sg_event g) s then (Inl (ForeignKeyViolation ''competition_stages_event_id_fkey''), s)
      else if \<not> known_category (sg_category g) s then
        (Inl (ForeignKeyViolation ''competition_stages_category_id_fkey''), s)
      else (Inr g, s\<lparr>stages := stages s @ [g]\<rparr>))"

definition get_competition_stage_by_id :: "uuid \<Rightarrow> arena \<Rightarrow> stage option" where
  "get_competition_stage_by_id i s = sel (\<lambda>g. sg_id g = i) (stages s)"

definition list_competition_stages_by_event :: "uuid \<Rightarrow> arena \<Rightarrow> stage list" where
  "list_competition_stages_by_event ev s =
     go_sort (\<lambda>a b. sg_order a < sg_order b \<or> sg_order a = sg_order b \<and> sg_name a < sg_name b)
       (filter (\<lambda>g. sg_event g = ev) (stages s))"

definition update_competition_stage_status :: "uuid \<Rightarrow> stage_status \<Rightarrow> arena \<Rightarrow> stage res \<times> arena" where
  "update_competition_stage_status i st s =
     (case upd_one (\<lambda>g. sg_id g = i) (\<lambda>g. g\<lparr>sg_status := st\<rparr>) (stages s) of
        None \<Rightarrow> (Inl NoRows, s) | Some (g, gs) \<Rightarrow> (Inr g, s\<lparr>stages := gs\<rparr>))"

definition create_competition_match :: "match_row \<Rightarrow> arena \<Rightarrow> match_row res \<times> arena" where
  "create_competition_match m s =
     (if m_id m \<in> m_id ` set (matches s) then (Inl (UniqueViolation ''competition_matches_pkey''), s)
      else if m_stage m \<notin> sg_id ` set (stages s) then (Inl (ForeignKeyViolation ''competition_matches_stage_id_fkey''), s)
      else if \<not> known_event (m_event m) s then (Inl (ForeignKeyViolation ''competition_matches_event_id_fkey''), s)
      else if \<not> references (m_home_team m) (te_id ` set (teams s)) \<or> \<not> references (m_away_team m) (te_id ` set (teams s)) then
        (Inl (ForeignKeyViolation ''competition_matches_home_team_id_fkey''), s)
      else (Inr m, s\<lparr>matches := matches s @ [m]\<rparr>))"

definition get_competition_match_by_id :: "uuid \<Rightarrow> arena \<Rightarrow> match_row option" where
  "get_competition_match_by_id i s = sel (\<lambda>m. m_id m = i) (matches s)"

definition at_place :: "uuid \<Rightarrow> int \<Rightarrow> int \<Rightarrow> match_row \<Rightarrow> bool" where
  "at_place st rnd num m \<longleftrightarrow> m_stage m = st \<and> m_round m = rnd \<and> m_number m = num"

definition get_competition_match_by_round_and_number :: "uuid \<Rightarrow> int \<Rightarrow> int \<Rightarrow> arena \<Rightarrow> match_row option" where
  "get_competition_match_by_round_and_number st rnd num s = sel (at_place st rnd num) (matches s)"

text \<open>The scope of a match: its stage belongs to the event and the event to the organization.\<close>

definition in_scope :: "uuid \<Rightarrow> uuid \<Rightarrow> uuid \<Rightarrow> arena \<Rightarrow> match_row \<Rightarrow> bool" where
  "in_scope i ev org s m \<longleftrightarrow> m_id m = i \<and>
     (\<exists>g \<in> set (stages s). sg_id g = m_stage m \<and> sg_event g = ev \<and>
        (\<exists>e \<in> set (events (abase s)). e_id e = ev \<and> e_org e = org))"

definition get_competition_match_scoped :: "uuid \<Rightarrow> uuid \<Rightarrow> uuid \<Rightarrow> arena \<Rightarrow> match_row option" where
  "get_competition_match_scoped i ev org s = sel (in_scope i ev org s) (matches s)"

definition list_competition_matches_by_stage :: "uuid \<Rightarrow> arena \<Rightarrow> match_row list" where
  "list_competition_matches_by_stage st s =
     go_sort (\<lambda>a b. m_round a < m_round b \<or> m_round a = m_round b \<and> m_number a < m_number b)
       (filter (\<lambda>m. m_stage m = st) (matches s))"

record score_update =
  su_home :: int
  su_away :: int
  su_status :: match_status
  su_winner :: "uuid option"
  su_details :: "score_detail list"

definition scored :: "score_update \<Rightarrow> match_row \<Rightarrow> match_row" where
  "scored u m = m\<lparr>m_home_score := su_home u, m_away_score := su_away u, m_status := su_status u,
     m_winner := su_winner u, m_details := su_details u\<rparr>"

definition update_competition_match_score :: "uuid \<Rightarrow> score_update \<Rightarrow> arena \<Rightarrow> match_row res \<times> arena" where
  "update_competition_match_score i u s =
     (case upd_one (\<lambda>m. m_id m = i) (scored u) (matches s) of
        None \<Rightarrow> (Inl NoRows, s) | Some (m, ms) \<Rightarrow> (Inr m, s\<lparr>matches := ms\<rparr>))"

definition update_competition_match_score_scoped ::
  "uuid \<Rightarrow> uuid \<Rightarrow> uuid \<Rightarrow> score_update \<Rightarrow> arena \<Rightarrow> match_row res \<times> arena" where
  "update_competition_match_score_scoped i ev org u s =
     (case upd_one (in_scope i ev org s) (scored u) (matches s) of
        None \<Rightarrow> (Inl NoRows, s) | Some (m, ms) \<Rightarrow> (Inr m, s\<lparr>matches := ms\<rparr>))"

definition coalesce :: "'a option \<Rightarrow> 'a option \<Rightarrow> 'a option" where
  "coalesce a b = (case a of None \<Rightarrow> b | Some x \<Rightarrow> Some x)"

definition with_participants :: "uuid option \<Rightarrow> uuid option \<Rightarrow> match_row \<Rightarrow> match_row" where
  "with_participants h a m = m\<lparr>m_home := coalesce h (m_home m), m_away := coalesce a (m_away m)\<rparr>"

definition update_competition_match_participants ::
  "uuid \<Rightarrow> int \<Rightarrow> int \<Rightarrow> uuid option \<Rightarrow> uuid option \<Rightarrow> arena \<Rightarrow> arena" where
  "update_competition_match_participants st rnd num h a s =
     s\<lparr>matches := upd (at_place st rnd num) (with_participants h a) (matches s)\<rparr>"

text \<open>The result is the number of rows that were still scheduled.\<close>

definition update_competition_match_participants_scheduled ::
  "uuid \<Rightarrow> int \<Rightarrow> int \<Rightarrow> uuid option \<Rightarrow> uuid option \<Rightarrow> arena \<Rightarrow> nat \<times> arena" where
  "update_competition_match_participants_scheduled st rnd num h a s =
     (let open_here = (\<lambda>m. at_place st rnd num m \<and> m_status m = MsScheduled) in
      (cnt open_here (matches s), s\<lparr>matches := upd open_here (with_participants h a) (matches s)\<rparr>))"

section \<open>Observations\<close>

text \<open>\<open>numeric(12, 4)\<close> in ten-thousandths.\<close>

definition create_competition_observation :: "comp_observation \<Rightarrow> arena \<Rightarrow> comp_observation res \<times> arena" where
  "create_competition_observation x s =
     (if (case co_number x of None \<Rightarrow> False | Some v \<Rightarrow> \<bar>v\<bar> \<ge> 10 ^ 12) then (Inl NumericOutOfRange, s)
      else if co_id x \<in> co_id ` set (observations s) then (Inl (UniqueViolation ''competition_observations_pkey''), s)
      else if \<not> known_event (co_event x) s then (Inl (ForeignKeyViolation ''competition_observations_event_id_fkey''), s)
      else if \<not> references (co_stage x) (sg_id ` set (stages s)) then
        (Inl (ForeignKeyViolation ''competition_observations_stage_id_fkey''), s)
      else if \<not> references (co_match x) (m_id ` set (matches s)) then
        (Inl (ForeignKeyViolation ''competition_observations_match_id_fkey''), s)
      else if \<not> references (co_entry x) (pe_id ` set (pentries s)) then
        (Inl (ForeignKeyViolation ''competition_observations_entry_id_fkey''), s)
      else (Inr x, s\<lparr>observations := observations s @ [x]\<rparr>))"

definition list_observations_by_stage :: "uuid \<Rightarrow> arena \<Rightarrow> comp_observation list" where
  "list_observations_by_stage st s = sort_key co_at (filter (\<lambda>x. co_stage x = Some st) (observations s))"

definition list_observations_by_match :: "uuid \<Rightarrow> arena \<Rightarrow> comp_observation list" where
  "list_observations_by_match m s = sort_key co_at (filter (\<lambda>x. co_match x = Some m) (observations s))"

definition list_observations_by_entry :: "uuid \<Rightarrow> arena \<Rightarrow> comp_observation list" where
  "list_observations_by_entry e s = sort_key co_at (filter (\<lambda>x. co_entry x = Some e) (observations s))"

section \<open>Stored results\<close>

text \<open>\<open>points_scored\<close> is \<open>NOT NULL\<close>: an invalid \<open>pgtype.Numeric\<close> is NULL, here \<open>None\<close>. A NULL stage never
  conflicts.\<close>

definition fill_comp_result :: "comp_result \<Rightarrow> comp_result \<Rightarrow> comp_result" where
  "fill_comp_result r x = x\<lparr>cr_category := cr_category r, cr_rank := cr_rank r, cr_rank_category := cr_rank_category r, cr_status := cr_status r,
     cr_primary := cr_primary r, cr_secondary := cr_secondary r, cr_points := cr_points r, cr_metrics := cr_metrics r,
     cr_notes := cr_notes r\<rparr>"

definition same_comp_result :: "comp_result \<Rightarrow> comp_result \<Rightarrow> bool" where
  "same_comp_result r x \<longleftrightarrow> cr_stage x \<noteq> None \<and> cr_stage x = cr_stage r \<and> cr_entry x = cr_entry r"

definition upsert_competition_result :: "comp_result \<Rightarrow> int option \<Rightarrow> arena \<Rightarrow> comp_result res \<times> arena" where
  "upsert_competition_result r points s =
     (case points of
        None \<Rightarrow> (Inl (NotNullViolation ''points_scored''), s)
      | Some p \<Rightarrow>
          let r = r\<lparr>cr_points := p\<rparr> in
          if \<bar>p\<bar> \<ge> 10 ^ 10 then (Inl NumericOutOfRange, s)
          else if \<not> known_event (cr_event r) s then (Inl (ForeignKeyViolation ''competition_results_event_id_fkey''), s)
          else if \<not> references (cr_stage r) (sg_id ` set (stages s)) then
            (Inl (ForeignKeyViolation ''competition_results_stage_id_fkey''), s)
          else if \<not> known_category (cr_category r) s then
            (Inl (ForeignKeyViolation ''competition_results_category_id_fkey''), s)
          else if cr_entry r \<notin> pe_id ` set (pentries s) then
            (Inl (ForeignKeyViolation ''competition_results_entry_id_fkey''), s)
          else case upd_one (same_comp_result r) (fill_comp_result r) (comp_results s) of
            Some (x, xs) \<Rightarrow> (Inr x, s\<lparr>comp_results := xs\<rparr>)
          | None \<Rightarrow>
              if cr_id r \<in> cr_id ` set (comp_results s) then (Inl (UniqueViolation ''competition_results_pkey''), s)
              else (Inr r, s\<lparr>comp_results := comp_results s @ [r]\<rparr>))"

definition get_competition_result_by_entry :: "uuid \<Rightarrow> uuid \<Rightarrow> arena \<Rightarrow> comp_result option" where
  "get_competition_result_by_entry st e s = sel (\<lambda>r. cr_stage r = Some st \<and> cr_entry r = e) (comp_results s)"

definition with_entry :: "arena \<Rightarrow> comp_result list \<Rightarrow> (comp_result \<times> participant_entry) list" where
  "with_entry s rs = [(r, p). r \<leftarrow> rs, p \<leftarrow> filter (\<lambda>p. pe_id p = cr_entry r) (pentries s)]"

definition stage_result_before :: "comp_result \<times> participant_entry \<Rightarrow> comp_result \<times> participant_entry \<Rightarrow> bool" where
  "stage_result_before x y =
     (case (x, y) of ((a, p), (b, q)) \<Rightarrow>
        int_nulls_last (cr_rank a) (cr_rank b) (int_nulls_last (cr_primary a) (cr_primary b)
          (cr_points b < cr_points a \<or> cr_points a = cr_points b \<and> pe_name p < pe_name q)))"

definition event_result_before :: "comp_result \<times> participant_entry \<Rightarrow> comp_result \<times> participant_entry \<Rightarrow> bool" where
  "event_result_before x y =
     (case (x, y) of ((a, p), (b, q)) \<Rightarrow>
        int_nulls_last (cr_rank a) (cr_rank b) (cr_points b < cr_points a \<or>
          cr_points a = cr_points b \<and> int_nulls_last (cr_primary a) (cr_primary b) False))"

definition list_competition_results_by_stage :: "uuid \<Rightarrow> arena \<Rightarrow> (comp_result \<times> participant_entry) list" where
  "list_competition_results_by_stage st s =
     go_sort stage_result_before (with_entry s (filter (\<lambda>r. cr_stage r = Some st) (comp_results s)))"

definition list_competition_results_by_event :: "uuid \<Rightarrow> arena \<Rightarrow> (comp_result \<times> participant_entry) list" where
  "list_competition_results_by_event ev s =
     go_sort event_result_before (with_entry s (filter (\<lambda>r. cr_event r = ev) (comp_results s)))"

definition official_time :: "comp_result \<Rightarrow> int option" where
  "official_time r = coalesce (cr_primary r) (cr_secondary r)"

definition time_before :: "comp_result \<Rightarrow> comp_result \<Rightarrow> bool" where
  "time_before a b = int_nulls_last (official_time a) (official_time b) (int_nulls_last (cr_secondary a) (cr_secondary b) False)"

definition timed_in_stage :: "uuid \<Rightarrow> comp_result \<Rightarrow> bool" where
  "timed_in_stage st r \<longleftrightarrow> cr_stage r = Some st \<and> cr_status r = StFinished \<and> official_time r \<noteq> None"

definition stage_rank_pass :: "(comp_result \<Rightarrow> bool) \<Rightarrow> (comp_result \<Rightarrow> comp_result \<Rightarrow> bool) \<Rightarrow> comp_result list \<Rightarrow> comp_result list" where
  "stage_rank_pass ranked before rs =
     map (\<lambda>r. if ranked r then r\<lparr>cr_rank := Some (1 + int (cnt (\<lambda>x. ranked x \<and> before x r) rs))\<rparr> else r) rs"

definition rank_competition_stage_by_time :: "uuid \<Rightarrow> arena \<Rightarrow> arena" where
  "rank_competition_stage_by_time st s =
     s\<lparr>comp_results := stage_rank_pass (timed_in_stage st) time_before (comp_results s)\<rparr>"

text \<open>\<open>DESC NULLS LAST\<close> on the two metrics.\<close>

definition desc_nulls_last :: "int option \<Rightarrow> int option \<Rightarrow> bool \<Rightarrow> bool" where
  "desc_nulls_last a b continue = int_nulls_last (map_option uminus a) (map_option uminus b) continue"

definition points_before :: "comp_result \<Rightarrow> comp_result \<Rightarrow> bool" where
  "points_before a b \<longleftrightarrow> cr_points b < cr_points a \<or> cr_points a = cr_points b \<and>
     desc_nulls_last (map_of (cr_metrics a) ''goal_difference'') (map_of (cr_metrics b) ''goal_difference'')
       (desc_nulls_last (map_of (cr_metrics a) ''goals_for'') (map_of (cr_metrics b) ''goals_for'') False)"

definition rank_competition_stage_by_points :: "uuid \<Rightarrow> arena \<Rightarrow> arena" where
  "rank_competition_stage_by_points st s =
     s\<lparr>comp_results := stage_rank_pass (\<lambda>r. cr_stage r = Some st \<and> cr_status r = StFinished) points_before (comp_results s)\<rparr>"

end
