(* ===== verification/Competitions.thy ===== *)
theory Competitions
  imports CompSchema
begin

text \<open>
  The competition service (\<open>modules/competitions/service.go\<close>). A stage with fixtures, a score with its
  advancement and the results of a cycling stage are transactions. Identifiers come from a supply; the
  orders of Go maps in the standings are a parameter.
\<close>

abbreviation ErrCompEventNotFound :: app_error where "ErrCompEventNotFound \<equiv> PlainErr ''event tidak ditemukan''"
abbreviation ErrEventForbidden :: app_error where "ErrEventForbidden \<equiv> PlainErr ''akses event ditolak''"
abbreviation ErrStageNotFound :: app_error where "ErrStageNotFound \<equiv> PlainErr ''babak kompetisi tidak ditemukan''"
abbreviation ErrMatchNotFound :: app_error where "ErrMatchNotFound \<equiv> PlainErr ''pertandingan tidak ditemukan''"
abbreviation ErrCompEntryNotFound :: app_error where
  "ErrCompEntryNotFound \<equiv> PlainErr ''peserta kompetisi tidak ditemukan''"
abbreviation ErrInvalidStatus :: app_error where "ErrInvalidStatus \<equiv> PlainErr ''status tidak valid''"
abbreviation ErrInvalidScore :: app_error where "ErrInvalidScore \<equiv> PlainErr ''skor tidak valid''"
abbreviation ErrInvalidRosterMember :: app_error where
  "ErrInvalidRosterMember \<equiv> PlainErr ''anggota roster tidak valid''"
abbreviation ErrNotPelotonStage :: app_error where
  "ErrNotPelotonStage \<equiv> PlainErr ''babak bukan merupakan babak balap sepeda / peloton''"
abbreviation ErrNoFinishRecords :: app_error where
  "ErrNoFinishRecords \<equiv> PlainErr ''tidak ada data catatan finis untuk babak ini''"
abbreviation ErrDownstreamMatchLocked :: app_error where
  "ErrDownstreamMatchLocked \<equiv> PlainErr ''pertandingan babak selanjutnya sudah berlangsung atau selesai''"

text \<open>\<open>ExecTx\<close>: an error restores the tables.\<close>

definition arena_tx :: "(arena \<Rightarrow> 'a res \<times> arena) \<Rightarrow> arena \<Rightarrow> 'a res \<times> arena" where
  "arena_tx body s = (case body s of (Inl e, _) \<Rightarrow> (Inl e, s) | (Inr a, s1) \<Rightarrow> (Inr a, s1))"

definition assert_event :: "uuid \<Rightarrow> uuid \<Rightarrow> arena \<Rightarrow> unit res \<times> arena" where
  "assert_event org ev s =
     (case sel (\<lambda>e. e_id e = ev) (events (abase s)) of
        None \<Rightarrow> (Inl ErrCompEventNotFound, s)
      | Some e \<Rightarrow> if e_org e \<noteq> org then (Inl ErrEventForbidden, s) else (Inr (), s))"

section \<open>Configuration\<close>

definition list_sports :: "arena \<Rightarrow> sport list" where
  "list_sports = list_sports_rows"

definition list_disciplines :: "string \<Rightarrow> arena \<Rightarrow> discipline list" where
  "list_disciplines = list_sport_disciplines_by_sport"

definition text_or :: "string \<Rightarrow> string \<Rightarrow> string" where
  "text_or d x = (if x = [] then d else x)"

definition config_of :: "uuid \<Rightarrow> uuid \<Rightarrow> uuid \<Rightarrow> uuid option \<Rightarrow> comp_config \<Rightarrow> comp_config" where
  "config_of i org ev cat c =
     c\<lparr>cc_id := i, cc_org := org, cc_event := ev, cc_category := cat,
       cc_ranking := text_or ''TIME_ASC'' (cc_ranking c), cc_precision := text_or ''s'' (cc_precision c)\<rparr>"

definition configure_competition ::
  "uuid \<Rightarrow> uuid \<Rightarrow> uuid \<Rightarrow> uuid option \<Rightarrow> comp_config \<Rightarrow> arena \<Rightarrow> comp_config res \<times> arena" where
  "configure_competition i org ev cat c s =
     and_then (assert_event org ev s) (\<lambda>_ s.
     upsert_competition_config (config_of i org ev cat c) s)"

definition no_rules :: rules where
  "no_rules = \<lparr> ru_format = None, ru_win_points = None, ru_draw_points = None, ru_bunch_finish = None \<rparr>"

definition default_config :: "uuid \<Rightarrow> comp_config" where
  "default_config ev = \<lparr> cc_id = nil_uuid, cc_org = nil_uuid, cc_event = ev, cc_category = None, cc_sport = ''running'',
     cc_discipline = ''road_running'', cc_timing = True, cc_scoring = False, cc_matches = False, cc_heats_lanes = False,
     cc_stages = False, cc_team_based = False, cc_min_team = 0, cc_max_team = 0, cc_ranking = ''TIME_ASC'',
     cc_precision = ''ceil_s'', cc_rules = no_rules \<rparr>"

definition get_competition_config :: "uuid \<Rightarrow> arena \<Rightarrow> comp_config" where
  "get_competition_config ev s = (case get_competition_config_by_event ev s of None \<Rightarrow> default_config ev | Some c \<Rightarrow> c)"

section \<open>Teams and entries\<close>

definition create_team ::
  "uuid \<Rightarrow> uuid \<Rightarrow> uuid \<Rightarrow> uuid option \<Rightarrow> string \<Rightarrow> string \<Rightarrow> uuid option \<Rightarrow> string \<Rightarrow> int option \<Rightarrow> arena \<Rightarrow>
    team res \<times> arena" where
  "create_team i org ev cat name short manager logo seed s =
     and_then (assert_event org ev s) (\<lambda>_ s.
     create_team_row
       \<lparr> te_id = i, te_org = org, te_event = ev, te_category = cat, te_name = name, te_short = null_text short,
         te_manager = manager, te_logo = null_text logo, te_seed = seed, te_status = TeamActive \<rparr> s)"

definition add_roster_member ::
  "uuid \<Rightarrow> uuid \<Rightarrow> uuid option \<Rightarrow> uuid option \<Rightarrow> string \<Rightarrow> int option \<Rightarrow> string \<Rightarrow> bool \<Rightarrow> arena \<Rightarrow> roster_member res \<times> arena" where
  "add_roster_member i t ticket user player jersey pos captain s =
     and_then (require (player \<noteq> []) ErrInvalidRosterMember s) (\<lambda>_ s.
     create_team_roster_member_row
       \<lparr> ro_id = i, ro_team = t, ro_ticket = ticket, ro_user = user, ro_player = player, ro_jersey = jersey,
         ro_position = null_text pos, ro_captain = captain \<rparr> s)"

definition list_teams :: "uuid \<Rightarrow> arena \<Rightarrow> team list" where
  "list_teams = list_teams_by_event"

text \<open>The public view leaves out the ticket and the user.\<close>

definition list_team_roster :: "uuid \<Rightarrow> arena \<Rightarrow> roster_member list" where
  "list_team_roster t s = map (\<lambda>m. m\<lparr>ro_ticket := None, ro_user := None\<rparr>) (list_team_roster_by_team t s)"

definition register_participant_entry ::
  "uuid \<Rightarrow> uuid \<Rightarrow> uuid \<Rightarrow> uuid \<Rightarrow> uuid option \<Rightarrow> uuid option \<Rightarrow> entry_type \<Rightarrow> string \<Rightarrow> string \<Rightarrow> int option \<Rightarrow>
    int option \<Rightarrow> int option \<Rightarrow> arena \<Rightarrow> participant_entry res \<times> arena" where
  "register_participant_entry i org ev cat ticket t ty name code seed lane heat s =
     create_participant_entry
       \<lparr> pe_id = i, pe_org = org, pe_event = ev, pe_category = (if cat = nil_uuid then None else Some cat),
         pe_ticket = ticket, pe_team = t, pe_type = ty, pe_name = name, pe_code = null_text code, pe_seed = seed,
         pe_lane = lane, pe_heat = heat, pe_status = StRegistered \<rparr> s"

definition list_participant_entries :: "uuid \<Rightarrow> arena \<Rightarrow> participant_entry list" where
  "list_participant_entries = list_participant_entries_by_event"

section \<open>Stages\<close>

definition drafts :: "string \<Rightarrow> uuid list \<Rightarrow> fixture list" where
  "drafts ty es = (if ty = ''group_round_robin'' then generate_round_robin es
     else if ty = ''single_elimination'' then generate_single_elimination es else [])"

definition match_of :: "uuid \<Rightarrow> uuid \<Rightarrow> uuid \<Rightarrow> uuid \<times> fixture \<Rightarrow> match_row" where
  "match_of org ev st x =
     (case x of (i, d) \<Rightarrow>
        \<lparr> m_id = i, m_org = org, m_event = ev, m_stage = st, m_round = int (fx_round d), m_number = int (fx_number d),
          m_home_team = None, m_away_team = None, m_home = fx_home d, m_away = fx_away d, m_court = None,
          m_home_score = 0, m_away_score = 0, m_status = fx_status d, m_winner = fx_winner d, m_details = [] \<rparr>)"

fun create_matches :: "match_row list \<Rightarrow> arena \<Rightarrow> match_row list res \<times> arena" where
  "create_matches [] s = (Inr [], s)"
| "create_matches (m # ms) s =
     and_then (create_competition_match m s) (\<lambda>x s.
     and_then (create_matches ms s) (\<lambda>xs s. (Inr (x # xs), s)))"

definition stage_row :: "uuid \<Rightarrow> uuid \<Rightarrow> uuid \<Rightarrow> uuid option \<Rightarrow> string \<Rightarrow> string \<Rightarrow> int \<Rightarrow> stage" where
  "stage_row i org ev cat name ty ord =
     \<lparr> sg_id = i, sg_org = org, sg_event = ev, sg_category = cat, sg_name = name, sg_type = ty, sg_order = ord,
       sg_status = SgScheduled \<rparr>"

definition stage_fixtures :: "bool \<Rightarrow> string \<Rightarrow> uuid list \<Rightarrow> fixture list" where
  "stage_fixtures auto ty es = (if auto \<and> 2 \<le> length es then drafts ty es else [])"

definition stage_matches :: "(nat \<Rightarrow> uuid) \<Rightarrow> uuid \<Rightarrow> uuid \<Rightarrow> uuid \<Rightarrow> fixture list \<Rightarrow> match_row list" where
  "stage_matches new_id org ev st ds = map (match_of org ev st) (zip (map new_id [0..<length ds]) ds)"

definition stage_tx :: "stage \<Rightarrow> match_row list \<Rightarrow> arena \<Rightarrow> (stage \<times> match_row list) res \<times> arena" where
  "stage_tx g ms s =
     and_then (create_competition_stage g s) (\<lambda>g s.
     and_then (create_matches ms s) (\<lambda>ms s. (Inr (g, ms), s)))"

definition create_stage ::
  "(nat \<Rightarrow> uuid) \<Rightarrow> uuid \<Rightarrow> uuid \<Rightarrow> uuid \<Rightarrow> uuid option \<Rightarrow> string \<Rightarrow> string \<Rightarrow> int \<Rightarrow> bool \<Rightarrow> uuid list \<Rightarrow> arena \<Rightarrow>
    (stage \<times> match_row list) res \<times> arena" where
  "create_stage new_id i org ev cat name ty ord auto es s =
     and_then (assert_event org ev s) (\<lambda>_ s.
     arena_tx (stage_tx (stage_row i org ev cat name ty ord)
       (stage_matches new_id org ev i (stage_fixtures auto ty es))) s)"

definition list_stages :: "uuid \<Rightarrow> arena \<Rightarrow> stage list" where
  "list_stages = list_competition_stages_by_event"

definition event_stage :: "uuid \<Rightarrow> uuid \<Rightarrow> arena \<Rightarrow> stage option" where
  "event_stage ev st s = (case get_competition_stage_by_id st s of None \<Rightarrow> None
     | Some g \<Rightarrow> if sg_event g \<noteq> ev then None else Some g)"

definition list_matches :: "uuid \<Rightarrow> uuid \<Rightarrow> arena \<Rightarrow> match_row list res" where
  "list_matches ev st s = (case event_stage ev st s of None \<Rightarrow> Inl ErrStageNotFound
     | Some _ \<Rightarrow> Inr (list_competition_matches_by_stage st s))"

section \<open>Scores\<close>

definition match_statuses :: "(string \<times> match_status) list" where
  "match_statuses = [(''SCHEDULED'', MsScheduled), (''LIVE'', MsLive), (''COMPLETED'', MsCompleted),
     (''SUSPENDED'', MsSuspended), (''CANCELLED'', MsCancelled), (''FORFEIT'', MsForfeit), (''WALKOVER'', MsWalkover),
     (''BYE'', MsBye)]"

definition decides :: "match_status \<Rightarrow> bool" where
  "decides st \<longleftrightarrow> st = MsCompleted \<or> st = MsForfeit \<or> st = MsWalkover \<or> st = MsBye"

text \<open>The entry that advances: the named winner, the only side, or the side with the higher score.\<close>

definition advancing :: "score_update \<Rightarrow> match_row \<Rightarrow> uuid option" where
  "advancing u m =
     (case su_winner u of
        Some w \<Rightarrow> Some w
      | None \<Rightarrow>
          if m_home m \<noteq> None \<and> m_away m = None then m_home m
          else if su_home u > su_away u \<and> m_home m \<noteq> None then m_home m
          else if su_away u > su_home u \<and> m_away m \<noteq> None then m_away m else None)"

text \<open>\<open>(n + 1) / 2\<close> and \<open>n % 2 == 1\<close> with Go's truncation.\<close>

definition next_number :: "int \<Rightarrow> int" where
  "next_number n = (if n + 1 \<ge> 0 then (n + 1) div 2 else - ((- (n + 1)) div 2))"

definition home_side :: "int \<Rightarrow> bool" where
  "home_side n \<longleftrightarrow> n > 0 \<and> n mod 2 = 1"

definition advance :: "score_update \<Rightarrow> match_row \<Rightarrow> arena \<Rightarrow> unit res \<times> arena" where
  "advance u m s =
     (case get_competition_stage_by_id (m_stage m) s of
        None \<Rightarrow> (Inr (), s)
      | Some g \<Rightarrow>
          if sg_type g \<noteq> ''single_elimination'' then (Inr (), s)
          else
            case get_competition_match_by_round_and_number (m_stage m) (m_round m + 1) (next_number (m_number m)) s of
              None \<Rightarrow> (Inr (), s)
            | Some d \<Rightarrow>
                if m_status d \<noteq> MsScheduled then (Inl ErrDownstreamMatchLocked, s)
                else if \<not> decides (su_status u) \<or> advancing u m = None then (Inr (), s)
                else
                  let w = advancing u m; h = (if home_side (m_number m) then w else None);
                      a = (if home_side (m_number m) then None else w)
                  in case update_competition_match_participants_scheduled (m_stage m) (m_round m + 1)
                            (next_number (m_number m)) h a s of
                       (n, s1) \<Rightarrow> if n = 0 then (Inl ErrDownstreamMatchLocked, s1) else (Inr (), s1))"

definition score_tx :: "uuid \<Rightarrow> uuid \<Rightarrow> uuid \<Rightarrow> score_update \<Rightarrow> arena \<Rightarrow> match_row res \<times> arena" where
  "score_tx mid ev org u s =
     (case update_competition_match_score_scoped mid ev org u s of
        (Inl e, s) \<Rightarrow> (Inl ErrMatchNotFound, s)
      | (Inr m, s) \<Rightarrow> and_then (advance u m s) (\<lambda>_ s. (Inr m, s)))"

definition record_match_score ::
  "uuid \<Rightarrow> uuid \<Rightarrow> uuid \<Rightarrow> int \<Rightarrow> int \<Rightarrow> string \<Rightarrow> uuid option \<Rightarrow> score_detail list \<Rightarrow> arena \<Rightarrow> match_row res \<times> arena" where
  "record_match_score org ev mid home away status winner details s =
     and_then (assert_event org ev s) (\<lambda>_ s.
     and_then (require (0 \<le> home \<and> 0 \<le> away) ErrInvalidScore s) (\<lambda>_ s.
     and_then (found ErrInvalidStatus (map_of match_statuses (trim_space status)) s) (\<lambda>st s.
     and_then (arena_tx (score_tx mid ev org
       \<lparr> su_home = home, su_away = away, su_status = st, su_winner = winner, su_details = details \<rparr>) s) (\<lambda>m s.
     (Inr m, arena_audit ''competitions.match.score_update'' mid s)))))"

section \<open>Observations and adjudication\<close>

definition record_observation ::
  "uuid \<Rightarrow> uuid \<Rightarrow> uuid \<Rightarrow> uuid option \<Rightarrow> uuid option \<Rightarrow> uuid option \<Rightarrow> string \<Rightarrow> string \<Rightarrow> int option \<Rightarrow> string \<Rightarrow>
    int \<Rightarrow> arena \<Rightarrow> comp_observation res \<times> arena" where
  "record_observation i org ev st m e ty source num txt at s =
     create_competition_observation
       \<lparr> co_id = i, co_org = org, co_event = ev, co_stage = st, co_match = m, co_entry = e, co_type = ty,
         co_source = text_or ''MANUAL'' source, co_number = num, co_text = null_text txt, co_at = at \<rparr> s"

definition result_row ::
  "uuid \<Rightarrow> uuid \<Rightarrow> uuid \<Rightarrow> uuid \<Rightarrow> participant_entry \<Rightarrow> comp_status \<Rightarrow> string \<Rightarrow> comp_result" where
  "result_row i org ev st p status txt =
     \<lparr> cr_id = i, cr_org = org, cr_event = ev, cr_stage = Some st, cr_category = pe_category p, cr_entry = pe_id p,
       cr_rank = None, cr_rank_category = None, cr_status = status, cr_primary = None, cr_secondary = None,
       cr_points = 0, cr_metrics = [], cr_notes = null_text txt \<rparr>"

definition adjudication_statuses :: "comp_status list" where
  "adjudication_statuses = [StFinished, StDNF, StDNS, StDSQ, StOTL, StPendingReview, StWithdrawn, StDisqualified]"

definition event_entry :: "uuid \<Rightarrow> uuid \<Rightarrow> arena \<Rightarrow> participant_entry option" where
  "event_entry ev e s = (case get_participant_entry_by_id e s of None \<Rightarrow> None
     | Some p \<Rightarrow> if pe_event p \<noteq> ev then None else Some p)"

text \<open>\<open>PointsScored\<close> is not set, so it is sent as NULL.\<close>

definition adjudicate_entry ::
  "uuid \<Rightarrow> uuid \<Rightarrow> uuid \<Rightarrow> uuid \<Rightarrow> uuid \<Rightarrow> uuid \<Rightarrow> comp_status \<Rightarrow> string \<Rightarrow> int \<Rightarrow> (comp_status \<Rightarrow> string) \<Rightarrow> arena \<Rightarrow>
    unit res \<times> arena" where
  "adjudicate_entry i oi org ev st e status reason now text_of s =
     and_then (assert_event org ev s) (\<lambda>_ s.
     and_then (found ErrStageNotFound (event_stage ev st s) s) (\<lambda>g s.
     and_then (found ErrCompEntryNotFound (event_entry ev e s) s) (\<lambda>p s.
     and_then (require (status \<in> set adjudication_statuses) ErrInvalidStatus s) (\<lambda>_ s.
     and_then (upsert_competition_result (result_row i org ev st p status reason) None s) (\<lambda>_ s.
     (Inr (), arena_audit ''competitions.adjudicate'' e
        (snd (record_observation oi org ev (Some st) None (Some e) ''ADJUDICATION'' ''OFFICIAL_ADJUDICATION'' None
           (text_of status @ '': '' @ reason) now s))))))))"

section \<open>Standings\<close>

definition stored_points :: "int \<Rightarrow> int" where
  "stored_points p = (if p \<ge> 0 then p div 100 else - ((- p) div 100))"

definition result_standing :: "nat \<times> comp_result \<times> participant_entry \<Rightarrow> standings_row" where
  "result_standing x =
     (case x of (k, r, p) \<Rightarrow>
        \<lparr> sr_rank = (case cr_rank r of Some n \<Rightarrow> n | None \<Rightarrow> int k + 1), sr_entry = cr_entry r, sr_name = pe_name p,
          sr_code = pe_code p, sr_played = 0, sr_wins = 0, sr_draws = 0, sr_losses = 0, sr_gf = 0, sr_ga = 0, sr_gd = 0,
          sr_points = stored_points (cr_points r), sr_time = cr_primary r,
          sr_time_text = (case cr_primary r of None \<Rightarrow> [] | Some ms \<Rightarrow> format_duration_with_precision ms ''ceil_s''),
          sr_status = cr_status r, sr_metrics = cr_metrics r \<rparr>)"

definition round_robin_standings ::
  "(standings_row list \<Rightarrow> standings_row list) \<Rightarrow> comp_config \<Rightarrow> match_row list \<Rightarrow> participant_entry list \<Rightarrow> standings_row list" where
  "round_robin_standings visit c ms es =
     (let sp = lower (cc_sport c); ru = cc_rules c in
      if sp = ''badminton'' \<or> ru_format ru = Some ''bwf'' then badminton_standings visit ms es
      else if sp = ''football'' \<or> sp = ''futsal'' \<or> ru_format ru = Some ''fifa'' then football_standings visit ms es
      else points_standings visit (case ru_win_points ru of None \<Rightarrow> 3 | Some w \<Rightarrow> w)
             (case ru_draw_points ru of None \<Rightarrow> 1 | Some d \<Rightarrow> d) ms es)"

definition get_stage_standings ::
  "(standings_row list \<Rightarrow> standings_row list) \<Rightarrow> uuid \<Rightarrow> uuid \<Rightarrow> arena \<Rightarrow> standings_row list res" where
  "get_stage_standings visit ev st s =
     (case event_stage ev st s of
        None \<Rightarrow> Inl ErrStageNotFound
      | Some g \<Rightarrow>
          if sg_type g = ''group_round_robin'' then
            Inr (round_robin_standings visit (get_competition_config ev s) (list_competition_matches_by_stage st s)
                   (list_participant_entries ev s))
          else Inr (map result_standing (enumerate 0 (list_competition_results_by_stage st s))))"

section \<open>Cycling stages\<close>

record finish_record =
  fr_entry :: uuid
  fr_ms :: int
  fr_status :: string

record cycling_item =
  cy_entry :: uuid
  cy_name :: string
  cy_rank :: int
  cy_raw :: int
  cy_bunch :: int
  cy_gap :: int
  cy_group :: int
  cy_status :: comp_status

definition is_cycling :: "uuid \<Rightarrow> stage \<Rightarrow> arena \<Rightarrow> bool" where
  "is_cycling ev g s \<longleftrightarrow>
     (let c = get_competition_config ev s in
      lower (cc_sport c) = ''cycling'' \<or> sg_type g = ''peloton_stage'' \<or> ru_bunch_finish (cc_rules c) = Some True)"

definition observed_finishes :: "uuid \<Rightarrow> arena \<Rightarrow> finish_record list" where
  "observed_finishes st s =
     concat (map (\<lambda>x. case co_entry x of
         Some e \<Rightarrow> if co_type x = ''FINISH'' then [\<lparr> fr_entry = e, fr_ms = co_at x, fr_status = ''FINISHED'' \<rparr>] else []
       | None \<Rightarrow> []) (list_observations_by_stage st s))"

definition rider_status :: "string \<Rightarrow> comp_status option" where
  "rider_status t = map_of [(''FINISHED'', StFinished), (''COMPLETED'', StFinished), (''DNF'', StDNF), (''DNS'', StDNS),
     (''DSQ'', StDSQ), (''OTL'', StOTL)] (trim_space (upper t))"

text \<open>Every record needs an entry of the event and a status; the records with their entries and statuses.\<close>

fun resolve_riders ::
  "participant_entry list \<Rightarrow> finish_record list \<Rightarrow> app_error + (participant_entry \<times> int \<times> comp_status) list" where
  "resolve_riders es [] = Inr []"
| "resolve_riders es (r # rs) =
     (case sel (\<lambda>p. pe_id p = fr_entry r) (rev es) of
        None \<Rightarrow> Inl ErrCompEntryNotFound
      | Some p \<Rightarrow>
          (case rider_status (fr_status r) of
             None \<Rightarrow> Inl ErrInvalidStatus
           | Some st \<Rightarrow> (case resolve_riders es rs of Inl e \<Rightarrow> Inl e | Inr xs \<Rightarrow> Inr ((p, fr_ms r, st) # xs))))"

definition finishers :: "(participant_entry \<times> int \<times> comp_status) list \<Rightarrow> (participant_entry \<times> int) list" where
  "finishers xs = go_sort (\<lambda>a b. snd a < snd b) (map (\<lambda>(p, t, st). (p, t)) (filter (\<lambda>(p, t, st). st = StFinished) xs))"

text \<open>Groups are numbered as their times appear.\<close>

definition group_number :: "int list \<Rightarrow> int \<Rightarrow> int" where
  "group_number ts t = int (length (takeWhile (\<lambda>x. x \<noteq> t) (rev (remdups (rev ts))))) + 1"

definition finisher_row ::
  "uuid \<Rightarrow> uuid \<Rightarrow> uuid \<Rightarrow> int list \<Rightarrow> uuid \<times> nat \<times> participant_entry \<times> int \<Rightarrow> comp_result" where
  "finisher_row org ev st bs x =
     (case x of (i, k, p, raw) \<Rightarrow>
        let b = bs ! k in
        (result_row i org ev st p StFinished ''UCI Peloton bunch finish'')
          \<lparr>cr_rank := Some (int k + 1), cr_rank_category := Some (int k + 1), cr_primary := Some b, cr_secondary := Some raw,
           cr_metrics := [(''raw_finish_ms'', raw), (''bunch_time_ms'', b), (''gap_to_leader_ms'', int64 (b - hd bs)),
             (''peloton_group'', group_number bs b)]\<rparr>)"

definition finisher_item :: "int list \<Rightarrow> nat \<times> participant_entry \<times> int \<Rightarrow> cycling_item" where
  "finisher_item bs x =
     (case x of (k, p, raw) \<Rightarrow>
        \<lparr> cy_entry = pe_id p, cy_name = pe_name p, cy_rank = int k + 1, cy_raw = raw, cy_bunch = bs ! k,
          cy_gap = int64 (bs ! k - hd bs), cy_group = group_number bs (bs ! k), cy_status = StFinished \<rparr>)"

definition status_text :: "comp_status \<Rightarrow> string" where
  "status_text st = (case st of StDNF \<Rightarrow> ''DNF'' | StDNS \<Rightarrow> ''DNS'' | StDSQ \<Rightarrow> ''DSQ'' | StOTL \<Rightarrow> ''OTL'' | _ \<Rightarrow> [])"

definition non_finisher_row ::
  "uuid \<Rightarrow> uuid \<Rightarrow> uuid \<Rightarrow> uuid \<times> participant_entry \<times> comp_status \<Rightarrow> comp_result" where
  "non_finisher_row org ev st x = (case x of (i, p, status) \<Rightarrow> result_row i org ev st p status (status_text status))"

definition non_finisher_item :: "participant_entry \<times> comp_status \<Rightarrow> cycling_item" where
  "non_finisher_item x =
     (case x of (p, status) \<Rightarrow>
        \<lparr> cy_entry = pe_id p, cy_name = pe_name p, cy_rank = 0, cy_raw = 0, cy_bunch = 0, cy_gap = 0, cy_group = 0,
          cy_status = status \<rparr>)"

fun store_results :: "comp_result list \<Rightarrow> arena \<Rightarrow> unit res \<times> arena" where
  "store_results [] s = (Inr (), s)"
| "store_results (r # rs) s = and_then (upsert_competition_result r (Some 0) s) (\<lambda>_ s. store_results rs s)"

definition process_cycling_stage_results ::
  "(nat \<Rightarrow> uuid) \<Rightarrow> uuid \<Rightarrow> uuid \<Rightarrow> uuid \<Rightarrow> int \<Rightarrow> finish_record list \<Rightarrow> arena \<Rightarrow> cycling_item list res \<times> arena" where
  "process_cycling_stage_results new_id org ev st gap recs s =
     and_then (assert_event org ev s) (\<lambda>_ s.
     and_then (found ErrStageNotFound (event_stage ev st s) s) (\<lambda>g s.
     and_then (require (is_cycling ev g s) ErrNotPelotonStage s) (\<lambda>_ s.
     let rs = (if recs = [] then observed_finishes st s else recs) in
     and_then (require (rs \<noteq> []) ErrNoFinishRecords s) (\<lambda>_ s.
     and_then (resolve_riders (list_participant_entries ev s) rs, s) (\<lambda>xs s.
     let fs = finishers xs; ns = map (\<lambda>(p, t, x). (p, x)) (filter (\<lambda>(p, t, x). x \<noteq> StFinished) xs);
         bs = peloton_grouping (map snd fs) (if gap \<le> 0 then 1000 else gap);
         rows = map (finisher_row org ev st bs) (zip (map new_id [0..<length fs]) (enumerate 0 fs)) @
                map (non_finisher_row org ev st) (zip (map (\<lambda>k. new_id (length fs + k)) [0..<length ns]) ns)
     in and_then (arena_tx (store_results rows) s) (\<lambda>_ s.
        (Inr (map (finisher_item bs) (enumerate 0 fs) @ map non_finisher_item ns),
         arena_audit ''competitions.cycling.process_stage'' st s)))))))"

section \<open>Lemmas\<close>

lemma assert_event_state: "assert_event org ev s = (r, s') \<Longrightarrow> s' = s"
  by (auto simp: assert_event_def split: option.splits if_splits)

lemma after_assert: "and_then (assert_event org ev s) k = (Inr b, s') \<Longrightarrow> k () s = (Inr b, s')"
  by (auto simp: assert_event_def split: option.splits if_splits)

lemma arena_tx_Inr [simp]: "arena_tx body s = (Inr a, s') \<longleftrightarrow> body s = (Inr a, s')"
  by (auto simp: arena_tx_def split: prod.splits sum.splits)

lemma arena_tx_Inl: "arena_tx body s = (Inl e, s') \<longleftrightarrow> s' = s \<and> (\<exists>s1. body s = (Inl e, s1))"
  by (auto simp: arena_tx_def split: prod.splits sum.splits)

text \<open>\<open>clean\<close>: an error leaves the state; \<open>stays\<close>: nothing changes it; \<open>fails\<close>: there is no result.\<close>

definition clean :: "'a res \<times> arena \<Rightarrow> arena \<Rightarrow> bool" where
  "clean m s \<longleftrightarrow> (\<forall>e s'. m = (Inl e, s') \<longrightarrow> s' = s)"

definition fails :: "'a res \<times> arena \<Rightarrow> bool" where
  "fails m \<longleftrightarrow> (\<exists>e s'. m = (Inl e, s'))"

lemma stays [simp]: "snd (assert_event org ev s) = s" "snd (found e x s) = s"
  by (simp_all add: assert_event_def found_def split: option.split)

lemma clean_and_then:
  assumes "snd m = s" "\<And>a. m = (Inr a, s) \<Longrightarrow> clean (k a s) s"
  shows "clean (and_then m k) s"
proof (cases m)
  case (Pair r t)
  then show ?thesis using assms by (cases r) (simp_all add: clean_def)
qed

lemma clean_last:
  assumes "clean m s" "\<And>a t. m = (Inr a, t) \<Longrightarrow> \<exists>b u. k a t = (Inr b, u)"
  shows "clean (and_then m k) s"
proof (cases m)
  case (Pair r t)
  show ?thesis
  proof (cases r)
    case (Inl e)
    with Pair assms(1) show ?thesis by (simp add: clean_def)
  next
    case (Inr a)
    with Pair assms(2) obtain b u where "k a t = (Inr b, u)" by blast
    with Pair Inr show ?thesis by (simp add: clean_def)
  qed
qed

lemma clean_arena_tx: "clean (arena_tx b s) s"
  by (simp add: clean_def arena_tx_Inl)

lemma fails_and_then:
  assumes "\<And>a t. m = (Inr a, t) \<Longrightarrow> fails (k a t)"
  shows "fails (and_then m k)"
proof (cases m)
  case (Pair r t)
  then show ?thesis using assms by (cases r) (simp_all add: fails_def)
qed

lemma fails_after: "snd m = s \<Longrightarrow> (\<And>a. fails (k a s)) \<Longrightarrow> fails (and_then m k)"
  by (rule fails_and_then) auto

lemma fails_first: "fails m \<Longrightarrow> fails (and_then m k)" "fails (b s) \<Longrightarrow> fails (arena_tx b s)"
  by (auto simp: fails_def arena_tx_def)

lemma fails_clean: "fails m \<Longrightarrow> clean m s \<Longrightarrow> \<exists>e. m = (Inl e, s)"
  by (auto simp: fails_def clean_def)

lemma arena_audit_frame [simp]:
  "matches (arena_audit a t s) = matches s" "stages (arena_audit a t s) = stages s"
  "comp_results (arena_audit a t s) = comp_results s" "configs (arena_audit a t s) = configs s"
  "pentries (arena_audit a t s) = pentries s" "observations (arena_audit a t s) = observations s"
  by (simp_all add: arena_audit_def)

section \<open>The first configuration stays\<close>

text \<open>Configuring an event again never changes what is read: the unique key does not compare the NULL
  categories, so a second row is added, and the first one answers.\<close>

theorem reconfiguring_changes_nothing:
  assumes "get_competition_config_by_event ev s = Some c"
    "configure_competition i org ev None c' s = (Inr r, s')"
  shows "get_competition_config ev s' = c \<and> length (configs s') = length (configs s) + 1"
proof -
  let ?d = "config_of i org ev None c'"
  have d: "cc_category ?d = None" "upsert_competition_config ?d s = (Inr r, s')"
    using after_assert [OF assms(2) [unfolded configure_competition_def]] by (simp_all add: config_of_def)
  have "upd_one (same_config ?d) (fill_config ?d) (configs s) = None"
    by (simp only: upd_one_None) (auto simp: same_config_def d(1))
  then have "configs s' = configs s @ [?d]"
    using d(2) by (auto simp: upsert_competition_config_def split: if_splits)
  then show ?thesis
    using assms(1) by (simp add: get_competition_config_def get_competition_config_by_event_def sel_append)
qed

section \<open>Adjudication\<close>

text \<open>No adjudication ever succeeds, and none leaves a trace: the upsert sends \<open>points_scored\<close> as NULL.\<close>

lemma adjudication_fails:
  "\<exists>e. adjudicate_entry i oi org ev st en status reason now text_of s = (Inl e, s)"
proof (rule fails_clean)
  have null: "upsert_competition_result x None t = (Inl (NotNullViolation ''points_scored''), t)" for x t
    by (simp add: upsert_competition_result_def)
  have "fails (and_then (upsert_competition_result x None t) k)" for x t k
    by (rule fails_and_then) (simp add: null)
  then show "fails (adjudicate_entry i oi org ev st en status reason now text_of s)"
    unfolding adjudicate_entry_def by (intro fails_and_then) (simp add: null)
  show "clean (adjudicate_entry i oi org ev st en status reason now text_of s) s"
    unfolding adjudicate_entry_def by (intro clean_and_then) (simp_all add: null clean_def)
qed

theorem adjudication_always_fails:
  "\<exists>e. adjudicate_entry i oi org ev st en status reason now text_of s = (Inl e, s)"
  by (rule adjudication_fails)

section \<open>Stages and their fixtures\<close>

lemma create_matches_rows:
  "create_matches ms s = (r, s') \<Longrightarrow>
     (case r of Inl e \<Rightarrow> True | Inr xs \<Rightarrow> xs = ms \<and> s' = s\<lparr>matches := matches s @ ms\<rparr>)"
proof (induction ms arbitrary: s r s')
  case (Cons m ms)
  show ?case
  proof (cases "create_competition_match m s")
    case (Pair x t)
    show ?thesis
    proof (cases x)
      case (Inl e)
      then show ?thesis using Cons.prems Pair by auto
    next
      case (Inr y)
      then have t: "t = s\<lparr>matches := matches s @ [m]\<rparr>" "y = m"
        using Pair by (auto simp: create_competition_match_def split: if_splits)
      obtain q u where q: "create_matches ms t = (q, u)" by fastforce
      from Cons.IH [OF q] Cons.prems Pair Inr q t show ?thesis by (cases q) auto
    qed
  qed
qed simp

text \<open>A stage is stored with exactly the generator's fixtures, in their order, or nothing is stored.\<close>

theorem stage_has_the_generated_fixtures:
  "case create_stage new_id i org ev cat name ty ord auto es s of
     (Inl e, s') \<Rightarrow> s' = s
   | (Inr (g, ms), s') \<Rightarrow>
       g = stage_row i org ev cat name ty ord \<and> ms = stage_matches new_id org ev i (stage_fixtures auto ty es) \<and>
       s' = s\<lparr>stages := stages s @ [g], matches := matches s @ ms\<rparr>"
proof (cases "create_stage new_id i org ev cat name ty ord auto es s")
  case (Pair r s')
  let ?g = "stage_row i org ev cat name ty ord" and ?ms = "stage_matches new_id org ev i (stage_fixtures auto ty es)"
  show ?thesis
  proof (cases r)
    case (Inl e)
    then have "create_stage new_id i org ev cat name ty ord auto es s = (Inl e, s')" using Pair by simp
    moreover have "clean (create_stage new_id i org ev cat name ty ord auto es s) s"
      unfolding create_stage_def by (intro clean_and_then clean_arena_tx) simp
    ultimately have "s' = s" by (simp add: clean_def)
    then show ?thesis using Pair Inl by simp
  next
    case (Inr x)
    with Pair have "create_stage new_id i org ev cat name ty ord auto es s = (Inr x, s')" by simp
    from after_assert [OF this [unfolded create_stage_def]] have "stage_tx ?g ?ms s = (Inr x, s')" by simp
    then obtain g ms s1 where st: "create_competition_stage ?g s = (Inr g, s1)" "create_matches ?ms s1 = (Inr ms, s')" "x = (g, ms)"
      unfolding stage_tx_def and_then_Inr by auto
    then have "g = ?g" "s1 = s\<lparr>stages := stages s @ [?g]\<rparr>"
      by (auto simp: create_competition_stage_def split: if_splits)
    with create_matches_rows [OF st(2)] st(3) show ?thesis using Pair Inr by simp
  qed
qed

section \<open>Scores\<close>

lemma update_score_row:
  "update_competition_match_score_scoped i ev org u s = (Inr m, s1) \<longleftrightarrow>
     (\<exists>m0. sel (in_scope i ev org s) (matches s) = Some m0 \<and> m = scored u m0 \<and>
        s1 = s\<lparr>matches := upd (in_scope i ev org s) (scored u) (matches s)\<rparr>)"
  by (auto simp: update_competition_match_score_scoped_def upd_one_def split: option.splits)

lemma advance_frame:
  "advance u m s = (r, s') \<Longrightarrow> stages s' = stages s \<and> abase s' = abase s"
  by (auto simp: advance_def update_competition_match_participants_scheduled_def Let_def split: option.splits if_splits)

text \<open>A scoring that fails changes nothing.\<close>

text \<open>A scoring that fails changes nothing, whichever check or write fails.\<close>

lemma scoring_clean: "clean (record_match_score org ev mid home away status winner details s) s"
  unfolding record_match_score_def by (intro clean_and_then clean_last clean_arena_tx) simp_all


text \<open>What a successful scoring does, in the terms of the tables.\<close>

lemma scoring_Inr:
  assumes "record_match_score org ev mid home away status winner details s = (Inr m, s')"
  obtains u m0 s1 where "map_of match_statuses (trim_space status) = Some (su_status u)" "su_home u = home" "su_away u = away"
    "su_winner u = winner" "sel (in_scope mid ev org s) (matches s) = Some m0" "m = scored u m0"
    "advance u m (s\<lparr>matches := upd (in_scope mid ev org s) (scored u) (matches s)\<rparr>) = (Inr (), s1)"
    "matches s' = matches s1" "stages s' = stages s"
proof -
  from after_assert [OF assms [unfolded record_match_score_def]]
  obtain st s1 where st: "map_of match_statuses (trim_space status) = Some st"
    and tx: "score_tx mid ev org \<lparr> su_home = home, su_away = away, su_status = st, su_winner = winner, su_details = details \<rparr> s
      = (Inr m, s1)" and s': "s' = arena_audit ''competitions.match.score_update'' mid s1"
    by (auto simp: and_then_Inr)
  let ?u = "\<lparr> su_home = home, su_away = away, su_status = st, su_winner = winner, su_details = details \<rparr>"
  let ?t = "s\<lparr>matches := upd (in_scope mid ev org s) (scored ?u) (matches s)\<rparr>"
  obtain q t where up: "update_competition_match_score_scoped mid ev org ?u s = (q, t)" by fastforce
  with tx obtain m1 where "q = Inr m1" "advance ?u m1 t = (Inr (), s1)" "m1 = m"
    by (cases q) (auto simp: score_tx_def and_then_Inr)
  with up obtain m0 where "sel (in_scope mid ev org s) (matches s) = Some m0" "m = scored ?u m0"
    "advance ?u m ?t = (Inr (), s1)"
    by (auto simp: update_score_row)
  then show thesis using that [of ?u m0 s1] st s' advance_frame [of ?u m ?t "Inr ()" s1] by simp
qed

definition feeds :: "match_row \<Rightarrow> match_row \<Rightarrow> bool" where
  "feeds m d \<longleftrightarrow> at_place (m_stage m) (m_round m + 1) (next_number (m_number m)) d"

definition seat :: "int \<Rightarrow> uuid \<Rightarrow> match_row \<Rightarrow> match_row" where
  "seat n w = with_participants (if home_side n then Some w else None) (if home_side n then None else Some w)"

lemma advance_Inr:
  assumes "advance u m s = (Inr (), s')"
  shows "s' = s \<or> (decides (su_status u) \<and> (\<exists>w. advancing u m = Some w \<and>
    s' = s\<lparr>matches := upd (\<lambda>d. feeds m d \<and> m_status d = MsScheduled) (seat (m_number m) w) (matches s)\<rparr>))"
  using assms
  by (auto simp: advance_def update_competition_match_participants_scheduled_def Let_def feeds_def seat_def
      split: option.splits if_splits)

lemma advance_knockout:
  assumes "advance u m s = (Inr (), s')" "get_competition_stage_by_id (m_stage m) s = Some g"
    "sg_type g = ''single_elimination''" "d \<in> set (matches s)" "feeds m d" "decides (su_status u)" "advancing u m = Some w"
  shows "s' = s\<lparr>matches := upd (\<lambda>d. feeds m d \<and> m_status d = MsScheduled) (seat (m_number m) w) (matches s)\<rparr>"
proof -
  have "sel (at_place (m_stage m) (m_round m + 1) (next_number (m_number m))) (matches s) \<noteq> None"
    using assms(4,5) by (auto simp: sel_None_iff feeds_def)
  then obtain x where x: "get_competition_match_by_round_and_number (m_stage m) (m_round m + 1) (next_number (m_number m)) s = Some x"
    by (auto simp: get_competition_match_by_round_and_number_def)
  show ?thesis using assms(1) unfolding advance_def assms(2) option.case x
    by (simp add: assms(3,6,7) update_competition_match_participants_scheduled_def Let_def feeds_def seat_def split: if_splits)
qed

lemma scored_simps [simp]:
  "m_id (scored u m) = m_id m" "m_stage (scored u m) = m_stage m" "m_round (scored u m) = m_round m"
  "m_number (scored u m) = m_number m" "m_status (scored u m) = su_status u" "m_home (scored u m) = m_home m"
  "m_away (scored u m) = m_away m"
  by (simp_all add: scored_def)

lemma feeds_scored [simp]: "feeds (scored u m) d = feeds m d" "feeds m (scored u d) = feeds m d" "\<not> feeds m m"
  by (simp_all add: feeds_def at_place_def)

lemma advancing_scored [simp]: "advancing v (scored u m) = advancing v m"
  by (simp only: advancing_def scored_simps)


lemma seat_status [simp]: "m_status (seat n w x) = m_status x" "m_id (seat n w x) = m_id x" "m_stage (seat n w x) = m_stage x"
  by (simp_all add: seat_def with_participants_def)

text \<open>Whatever is scored, the sides of a match that is under way or over never change.\<close>

theorem started_match_keeps_its_sides:
  "list_all2 (\<lambda>x y. m_id y = m_id x \<and> m_stage y = m_stage x \<and>
      (m_status x \<noteq> MsScheduled \<longrightarrow> m_home y = m_home x \<and> m_away y = m_away x))
    (matches s) (matches (snd (record_match_score org ev mid home away status winner details s)))"
proof (cases "record_match_score org ev mid home away status winner details s")
  case (Pair r s')
  show ?thesis
  proof (cases r)
    case (Inl e)
    then have "s' = s" using scoring_clean [of org ev mid home away status winner details s] Pair by (simp add: clean_def)
    then show ?thesis using Pair by (simp add: list.rel_refl)
  next
    case (Inr m)
    from Pair [unfolded Inr] obtain u m0 s1 where run: "m = scored u m0"
      "advance u m (s\<lparr>matches := upd (in_scope mid ev org s) (scored u) (matches s)\<rparr>) = (Inr (), s1)"
      "matches s' = matches s1" by (rule scoring_Inr)
    have "\<not> decides MsScheduled" by (simp add: decides_def)
    with advance_Inr [OF run(2)] show ?thesis
      by (auto simp: Pair run(3) upd_def list_all2_map2 intro!: list_all2_all_nthI)
  qed
qed

text \<open>Once the next match has left \<open>SCHEDULED\<close>, the score of a knockout match can no longer be corrected.\<close>

theorem feeding_match_is_frozen:
  assumes "sel (in_scope mid ev org s) (matches s) = Some m" "get_competition_stage_by_id (m_stage m) s = Some g"
    "sg_type g = ''single_elimination''" "sel (feeds m) (matches s) = Some d" "m_status d \<noteq> MsScheduled"
    "distinct (map m_id (matches s))"
  shows "\<exists>e. record_match_score org ev mid home away status winner details s = (Inl e, s)"
proof (rule fails_clean [OF _ scoring_clean])
  let ?t = "\<lambda>u. s\<lparr>matches := upd (in_scope mid ev org s) (scored u) (matches s)\<rparr>"
  have m: "m \<in> set (matches s)" "in_scope mid ev org s m" using sel_SomeD [OF assms(1)] by auto
  have "fails (advance u (scored u m) (?t u))" for u
  proof -
    have scope: "in_scope mid ev org s x \<Longrightarrow> x \<in> set (matches s) \<Longrightarrow> \<not> feeds m x" for x
    proof -
      assume x: "in_scope mid ev org s x" "x \<in> set (matches s)"
      then have "m_id x = m_id m" using m(2) by (simp add: in_scope_def)
      then have "x = m" using distinct_key_unique [OF assms(6)] x(2) m(1) by blast
      then show "\<not> feeds m x" by simp
    qed
    have "sel (feeds m) (upd (in_scope mid ev org s) (scored u) xs) = Some d"
      if "sel (feeds m) xs = Some d" "set xs \<subseteq> set (matches s)" for xs
      using that scope by (induction xs) (auto split: if_splits)
    with assms(4) have "sel (feeds m) (matches (?t u)) = Some d" by simp
    then show ?thesis using assms(2,3,5)
      by (simp add: fails_def advance_def get_competition_match_by_round_and_number_def feeds_def [abs_def]
          get_competition_stage_by_id_def)
  qed
  moreover have "score_tx mid ev org u s = and_then (advance u (scored u m) (?t u)) (\<lambda>_ t. (Inr (scored u m), t))" for u
  proof -
    have "update_competition_match_score_scoped mid ev org u s = (Inr (scored u m), ?t u)"
      using assms(1) by (simp add: update_score_row)
    then show ?thesis by (simp add: score_tx_def)
  qed
  ultimately have "fails (score_tx mid ev org u s)" for u by (simp only: fails_first(1))
  then show "fails (record_match_score org ev mid home away status winner details s)"
    unfolding record_match_score_def by (intro fails_after fails_first) simp_all
qed


section \<open>Cycling\<close>

lemma resolve_riders_entries:
  "resolve_riders es rs = Inr xs \<Longrightarrow> map (\<lambda>(p, t, st). pe_id p) xs = map fr_entry rs"
proof (induction rs arbitrary: xs)
  case (Cons r rs)
  then show ?case by (auto split: option.splits sum.splits dest!: sel_SomeD)
qed simp

lemma finishers_facts:
  "mset (finishers xs) = mset (map (\<lambda>(p, t, st). (p, t)) (filter (\<lambda>(p, t, st). st = StFinished) xs))"
  "sorted (map snd (finishers xs))"
proof -
  have swo: "swo_on A (\<lambda>a b. snd a < snd b)" for A :: "(participant_entry \<times> int) set" by (auto simp: swo_on_def)
  show "sorted (map snd (finishers xs))"
    using sorted_go_sort [OF swo] by (simp add: finishers_def sorted_map not_less)
qed (simp add: finishers_def)

lemma items_of_finishers:
  "map cy_rank (map (finisher_item bs) (enumerate k fs)) = map int [k + 1..<k + length fs + 1]"
  "map cy_raw (map (finisher_item bs) (enumerate k fs)) = map snd fs"
  "map cy_entry (map (finisher_item bs) (enumerate k fs)) = map (pe_id \<circ> fst) fs"
  "length bs = k + length fs \<Longrightarrow> map cy_bunch (map (finisher_item bs) (enumerate k fs)) = drop k bs"
proof (induction fs arbitrary: k)
  case (Cons f fs)
  {
    case 1
    show ?case using Cons.IH(1) [of "Suc k"] by (cases f) (simp add: finisher_item_def Let_def upt_conv_Cons del: upt_Suc)
  next
    case 2
    show ?case using Cons.IH(2) [of "Suc k"] by (cases f) (simp add: finisher_item_def Let_def)
  next
    case 3
    show ?case using Cons.IH(3) [of "Suc k"] by (cases f) (simp add: finisher_item_def Let_def)
  next
    case 4
    then show ?case using Cons.IH(4) [of "Suc k"] by (cases f) (simp add: finisher_item_def Let_def Cons_nth_drop_Suc)
  }
qed simp_all

lemma finisher_item_status [simp]: "cy_status (finisher_item bs x) = StFinished"
  by (simp add: finisher_item_def Let_def split: prod.split)

definition riders_given :: "uuid \<Rightarrow> finish_record list \<Rightarrow> arena \<Rightarrow> finish_record list" where
  "riders_given st recs s = (if recs = [] then observed_finishes st s else recs)"

lemma cycling_Inr:
  assumes "process_cycling_stage_results new_id org ev st gap recs s = (Inr its, s')"
  obtains xs fs ns bs s1 where
    "resolve_riders (list_participant_entries ev s) (riders_given st recs s) = Inr xs" "fs = finishers xs"
    "ns = map (\<lambda>(p, t, x). (p, x)) (filter (\<lambda>(p, t, x). x \<noteq> StFinished) xs)"
    "bs = peloton_grouping (map snd fs) (if gap \<le> 0 then 1000 else gap)"
    "its = map (finisher_item bs) (enumerate 0 fs) @ map non_finisher_item ns"
    "store_results (map (finisher_row org ev st bs) (zip (map new_id [0..<length fs]) (enumerate 0 fs)) @
       map (non_finisher_row org ev st) (zip (map (\<lambda>k. new_id (length fs + k)) [0..<length ns]) ns)) s = (Inr (), s1)"
    "comp_results s' = comp_results s1"
proof -
  from after_assert [OF assms [unfolded process_cycling_stage_results_def]]
  obtain xs where xs: "resolve_riders (list_participant_entries ev s) (riders_given st recs s) = Inr xs"
    and rest: "(let fs = finishers xs; ns = map (\<lambda>(p, t, x). (p, x)) (filter (\<lambda>(p, t, x). x \<noteq> StFinished) xs);
         bs = peloton_grouping (map snd fs) (if gap \<le> 0 then 1000 else gap);
         rows = map (finisher_row org ev st bs) (zip (map new_id [0..<length fs]) (enumerate 0 fs)) @
                map (non_finisher_row org ev st) (zip (map (\<lambda>k. new_id (length fs + k)) [0..<length ns]) ns)
     in and_then (arena_tx (store_results rows) s) (\<lambda>_ s.
        (Inr (map (finisher_item bs) (enumerate 0 fs) @ map non_finisher_item ns),
         arena_audit ''competitions.cycling.process_stage'' st s))) = (Inr its, s')"
    unfolding riders_given_def and_then_Inr [of "found _ _ _"] and_then_Inr [of "require _ _ _"] Let_def [of "if recs = [] then _ else _"]
      and_then_Inr [of "(resolve_riders _ _, _)"] by auto
  from rest show thesis unfolding Let_def and_then_Inr arena_tx_Inr by (auto intro: that [OF xs refl refl refl])
qed

lemma filter_non_finishers: "\<forall>x \<in> set ns. snd x \<noteq> StFinished \<Longrightarrow> filter (\<lambda>x. cy_status x = StFinished) (map non_finisher_item ns) = []"
  by (auto simp: filter_empty_conv non_finisher_item_def)



section \<open>The tables stay well formed\<close>

text \<open>What the constraints of migrations 66 to 68 promise of the tables.\<close>

definition arena_ok :: "arena \<Rightarrow> bool" where
  "arena_ok s \<longleftrightarrow>
     distinct (map sg_id (stages s)) \<and> distinct (map m_id (matches s)) \<and> distinct (map pe_id (pentries s)) \<and>
     (\<forall>g \<in> set (stages s). sg_type g \<in> set stage_types) \<and>
     (\<forall>m \<in> set (matches s). m_stage m \<in> sg_id ` set (stages s)) \<and>
     (\<forall>p \<in> set (pentries s). pe_status p \<in> set entry_statuses) \<and>
     (\<forall>ev t. cnt (\<lambda>p. pe_event p = ev \<and> pe_ticket p = Some t) (pentries s) \<le> 1) \<and>
     (\<forall>st e. cnt (\<lambda>r. cr_stage r = Some st \<and> cr_entry r = e) (comp_results s) \<le> 1)"

lemma arena_ok_cong:
  "stages s' = stages s \<Longrightarrow> matches s' = matches s \<Longrightarrow> pentries s' = pentries s \<Longrightarrow> comp_results s' = comp_results s \<Longrightarrow>
     arena_ok s' = arena_ok s"
  by (simp add: arena_ok_def)

lemma arena_ok_audit [simp]: "arena_ok (arena_audit a t s) = arena_ok s"
  by (rule arena_ok_cong) simp_all

lemma ok_and_then:
  "arena_ok (snd m) \<Longrightarrow> (\<And>a t. m = (Inr a, t) \<Longrightarrow> arena_ok t \<Longrightarrow> arena_ok (snd (k a t))) \<Longrightarrow> arena_ok (snd (and_then m k))"
  by (rule and_then_inv)

lemma ok_upsert_config: "arena_ok s \<Longrightarrow> arena_ok (snd (upsert_competition_config c s))"
  by (auto simp: upsert_competition_config_def arena_ok_def split: option.split)

lemma ok_create_team_row: "arena_ok s \<Longrightarrow> arena_ok (snd (create_team_row t s))"
  by (auto simp: create_team_row_def arena_ok_def)

lemma ok_create_roster: "arena_ok s \<Longrightarrow> arena_ok (snd (create_team_roster_member_row m s))"
  by (auto simp: create_team_roster_member_row_def arena_ok_def)

lemma ok_create_observation: "arena_ok s \<Longrightarrow> arena_ok (snd (create_competition_observation x s))"
  by (auto simp: create_competition_observation_def arena_ok_def split: option.split)

lemma ok_create_entry:
  assumes "arena_ok s"
  shows "arena_ok (snd (create_participant_entry p s))"
proof (cases "create_participant_entry p s")
  case (Pair r t)
  show ?thesis
  proof (cases "t = s")
    case False
    then have t: "t = s\<lparr>pentries := pentries s @ [p]\<rparr>" and new: "pe_id p \<notin> pe_id ` set (pentries s)"
      "pe_status p \<in> set entry_statuses" "pe_ticket p \<noteq> None \<Longrightarrow>
        \<forall>x \<in> set (pentries s). \<not> (pe_event x = pe_event p \<and> pe_ticket x = pe_ticket p)"
      using Pair by (auto simp: create_participant_entry_def split: if_splits)
    have "cnt (\<lambda>x. pe_event x = ev \<and> pe_ticket x = Some tk) (pentries s @ [p]) \<le> 1" for ev tk
    proof (cases "pe_event p = ev \<and> pe_ticket p = Some tk")
      case True
      then have "cnt (\<lambda>x. pe_event x = ev \<and> pe_ticket x = Some tk) (pentries s) = 0" using new(3) by (auto simp: cnt_0_iff)
      then show ?thesis by simp
    next
      case False
      then show ?thesis using assms by (auto simp: arena_ok_def)
    qed
    then show ?thesis using assms Pair t new by (simp add: arena_ok_def)
  qed (use assms Pair in simp)
qed

lemma ok_create_stage:
  assumes "arena_ok s"
  shows "arena_ok (snd (create_competition_stage g s))"
  using assms by (auto simp: create_competition_stage_def arena_ok_def)

lemma ok_create_match: "arena_ok s \<Longrightarrow> arena_ok (snd (create_competition_match m s))"
  by (auto simp: create_competition_match_def arena_ok_def)

lemma ok_create_matches: "arena_ok s \<Longrightarrow> arena_ok (snd (create_matches ms s))"
proof (induction ms arbitrary: s)
  case (Cons m ms)
  show ?case unfolding create_matches.simps
  proof (rule ok_and_then)
    show "arena_ok (snd (create_competition_match m s))" using Cons.prems by (rule ok_create_match)
    fix x t assume "arena_ok t"
    then have "arena_ok (snd (create_matches ms t))" by (rule Cons.IH)
    then show "arena_ok (snd (and_then (create_matches ms t) (\<lambda>xs s. (Inr (x # xs), s))))"
      by (rule ok_and_then) (simp only: snd_conv)
  qed
qed simp

lemma ok_upd_matches:
  assumes "arena_ok s" "\<And>m. m_id (f m) = m_id m" "\<And>m. m_stage (f m) = m_stage m"
  shows "arena_ok (s\<lparr>matches := upd P f (matches s)\<rparr>)"
proof -
  have ids: "map m_id (upd P f (matches s)) = map m_id (matches s)" by (simp add: upd_def assms(2))
  have "map m_stage (upd P f (matches s)) = map m_stage (matches s)" by (simp add: upd_def assms(3))
  then have "set (map m_stage (upd P f (matches s))) = set (map m_stage (matches s))" by (rule arg_cong)
  then have sts: "m_stage ` set (upd P f (matches s)) = m_stage ` set (matches s)" by simp
  have all: "(\<forall>m \<in> set l. m_stage m \<in> X) \<longleftrightarrow> m_stage ` set l \<subseteq> X" for l X by auto
  show ?thesis using assms(1) by (simp add: arena_ok_def all ids sts)
qed

lemma ok_score_tx:
  assumes "arena_ok s"
  shows "arena_ok (snd (score_tx mid ev org u s))"
proof (cases "update_competition_match_score_scoped mid ev org u s")
  case (Pair r t)
  have t: "arena_ok t"
    using Pair assms by (auto simp: update_competition_match_score_scoped_def upd_one_def intro: ok_upd_matches split: option.splits)
  have "arena_ok (snd (advance u m t))" for m
    using t by (auto simp: advance_def update_competition_match_participants_scheduled_def Let_def with_participants_def
        intro!: ok_upd_matches split: option.split)
  then have "arena_ok (snd (and_then (advance u m t) (\<lambda>_ x. (Inr m, x))))" for m by (intro ok_and_then) simp_all
  then show ?thesis using t Pair by (cases r) (simp_all add: score_tx_def)
qed

lemma ok_upsert_result:
  assumes "arena_ok s"
  shows "arena_ok (snd (upsert_competition_result r pts s))"
proof (cases "upsert_competition_result r pts s")
  case (Pair q t)
  show ?thesis
  proof (cases "t = s")
    case False
    then obtain r' where t: "t = s\<lparr>comp_results := upd (same_comp_result r') (fill_comp_result r') (comp_results s)\<rparr> \<or>
        t = s\<lparr>comp_results := comp_results s @ [r']\<rparr> \<and> (\<forall>x \<in> set (comp_results s). \<not> same_comp_result r' x)"
      using Pair
      by (auto simp: upsert_competition_result_def Let_def upd_one_def sel_None_iff split: option.splits if_splits)
    have keep: "cr_stage (fill_comp_result r' x) = cr_stage x" "cr_entry (fill_comp_result r' x) = cr_entry x" for x
      by (simp_all add: fill_comp_result_def)
    have "cnt (\<lambda>x. cr_stage x = Some st \<and> cr_entry x = e) (comp_results t) \<le> 1" for st e
    proof -
      have old: "cnt (\<lambda>x. cr_stage x = Some st \<and> cr_entry x = e) (comp_results s) \<le> 1" using assms by (simp add: arena_ok_def)
      from t show ?thesis
      proof
        assume "t = s\<lparr>comp_results := upd (same_comp_result r') (fill_comp_result r') (comp_results s)\<rparr>"
        then show ?thesis using old by (simp add: cnt_upd keep)
      next
        assume new: "t = s\<lparr>comp_results := comp_results s @ [r']\<rparr> \<and> (\<forall>x \<in> set (comp_results s). \<not> same_comp_result r' x)"
        show ?thesis
        proof (cases "cr_stage r' = Some st \<and> cr_entry r' = e")
          case True
          then have "cnt (\<lambda>x. cr_stage x = Some st \<and> cr_entry x = e) (comp_results s) = 0"
            using new by (auto simp: cnt_0_iff same_comp_result_def)
          then show ?thesis using new by simp
        qed (use old new in auto)
      qed
    qed
    moreover have "stages t = stages s" "matches t = matches s" "pentries t = pentries s" using t by auto
    ultimately show ?thesis using assms Pair by (simp add: arena_ok_def)
  qed (use assms Pair in simp)
qed

lemma ok_store_results: "arena_ok s \<Longrightarrow> arena_ok (snd (store_results rs s))"
proof (induction rs arbitrary: s)
  case (Cons r rs)
  then have "arena_ok (snd (upsert_competition_result r (Some 0) s))" by (intro ok_upsert_result)
  then show ?case using Cons.IH by (cases "upsert_competition_result r (Some 0) s") (auto simp: and_then_def split: sum.split)
qed simp

lemma ok_tx: "arena_ok s \<Longrightarrow> (arena_ok s \<Longrightarrow> arena_ok (snd (b s))) \<Longrightarrow> arena_ok (snd (arena_tx b s))"
  by (cases "b s") (auto simp: arena_tx_def split: sum.split)

inductive arena_step :: "arena \<Rightarrow> arena \<Rightarrow> bool" where
  "arena_step s (snd (configure_competition i org ev cat c s))"
| "arena_step s (snd (create_team i org ev cat name short manager logo seed s))"
| "arena_step s (snd (add_roster_member i t ticket user player jersey pos captain s))"
| "arena_step s (snd (register_participant_entry i org ev cat' ticket t' ty name code seed lane heat s))"
| "arena_step s (snd (create_stage new_id i org ev cat name ty' ord auto es s))"
| "arena_step s (snd (record_match_score org ev mid home away status winner details s))"
| "arena_step s (snd (record_observation i org ev st m e ty' source num txt at s))"
| "arena_step s (snd (adjudicate_entry i oi org ev st' e' cst reason now text_of s))"
| "arena_step s (snd (process_cycling_stage_results new_id org ev st' gap recs s))"

lemma arena_step_ok: "arena_step s s' \<Longrightarrow> arena_ok s \<Longrightarrow> arena_ok s'"
proof (induction rule: arena_step.induct)
  case 1
  then show ?case unfolding configure_competition_def by (intro ok_and_then ok_upsert_config) simp_all
next
  case 2
  then show ?case unfolding create_team_def by (intro ok_and_then ok_create_team_row) simp_all
next
  case 3
  then show ?case unfolding add_roster_member_def by (intro ok_and_then ok_create_roster) simp_all
next
  case 4
  then show ?case unfolding register_participant_entry_def by (rule ok_create_entry)
next
  case 5
  then show ?case unfolding create_stage_def stage_tx_def
    by (intro ok_and_then ok_tx ok_create_stage ok_create_matches) (simp_all add: ok_create_stage ok_create_matches)
next
  case 6
  then show ?case unfolding record_match_score_def by (intro ok_and_then ok_tx ok_score_tx) simp_all
next
  case 7
  then show ?case unfolding record_observation_def by (rule ok_create_observation)
next
  case (8 s)
  then show ?case using adjudication_fails by (metis snd_conv)
next
  case 9
  then show ?case unfolding process_cycling_stage_results_def Let_def
    by (intro ok_and_then ok_tx ok_store_results) simp_all
qed


section \<open>Examples\<close>

definition demo_entry :: "uuid \<Rightarrow> participant_entry" where
  "demo_entry i = \<lparr> pe_id = i, pe_org = 1, pe_event = 2, pe_category = None, pe_ticket = None, pe_team = None,
     pe_type = EntIndividual, pe_name = ''E'', pe_code = None, pe_seed = None, pe_lane = None, pe_heat = None,
     pe_status = StRegistered \<rparr>"

definition arena_start :: arena where
  "arena_start = \<lparr> abase = empty_db\<lparr>events := [\<lparr> e_id = 2, e_org = 1, e_name = ''Cup'', e_status = ''PUBLISHED'' \<rparr>]\<rparr>,
     sports = [\<lparr> so_id = ''badminton'', so_name = ''Badminton'', so_body = ''BWF'' \<rparr>, \<lparr> so_id = ''cycling'', so_name = ''Cycling'', so_body = ''UCI'' \<rparr>],
     disciplines = [\<lparr> di_id = ''singles'', di_sport = ''badminton'', di_name = ''Singles'' \<rparr>],
     configs = [], teams = [], rosters = [], stages = [], matches = [], pentries = map demo_entry [11, 12, 13, 14],
     observations = [], comp_results = [] \<rparr>"

definition cup :: arena where
  "cup = snd (create_stage (\<lambda>k. 100 + k) 50 1 2 None ''KO'' ''single_elimination'' 1 True [11, 12, 13, 14] arena_start)"


definition named_config :: comp_config where
  "named_config = (default_config 2)\<lparr>cc_sport := ''badminton'', cc_discipline := ''singles''\<rparr>"

definition configured :: arena where
  "configured = snd (configure_competition 60 1 2 None named_config arena_start)"

theorem reconfiguring_changes_nothing_witness:
  "cc_ranking (get_competition_config 2 (snd (configure_competition 61 1 2 None (named_config\<lparr>cc_ranking := ''WIN_COUNT''\<rparr>) configured))) =
     ''TIME_ASC''"
proof -
  have one: "map_option cc_ranking (get_competition_config_by_event 2 configured) = Some ''TIME_ASC''" by code_simp
  then obtain c where c: "get_competition_config_by_event 2 configured = Some c" "cc_ranking c = ''TIME_ASC''" by auto
  have "case fst (configure_competition 61 1 2 None (named_config\<lparr>cc_ranking := ''WIN_COUNT''\<rparr>) configured) of Inl _ \<Rightarrow> False | Inr _ \<Rightarrow> True"
    by code_simp
  then obtain r s' where run: "configure_competition 61 1 2 None (named_config\<lparr>cc_ranking := ''WIN_COUNT''\<rparr>) configured = (Inr r, s')"
    by (cases "configure_competition 61 1 2 None (named_config\<lparr>cc_ranking := ''WIN_COUNT''\<rparr>) configured") (auto split: sum.splits)
  from reconfiguring_changes_nothing [OF c(1) run] c(2) run show ?thesis by simp
qed


definition final_running :: arena where
  "final_running = snd (record_match_score 1 2 102 0 0 ''LIVE'' None [] cup)"

theorem feeding_match_is_frozen_witness:
  "\<exists>e. record_match_score 1 2 100 3 1 ''COMPLETED'' (Some 11) [] final_running = (Inl e, final_running)"
proof (rule feeding_match_is_frozen)
  show "sel (in_scope 100 2 1 final_running) (matches final_running) = Some (matches final_running ! 0)" by code_simp
  show "get_competition_stage_by_id (m_stage (matches final_running ! 0)) final_running = Some (stages final_running ! 0)" by code_simp
  show "sg_type (stages final_running ! 0) = ''single_elimination''" by code_simp
  show "sel (feeds (matches final_running ! 0)) (matches final_running) = Some (matches final_running ! 2)" by code_simp
  show "m_status (matches final_running ! 2) \<noteq> MsScheduled" by code_simp
  show "distinct (map m_id (matches final_running))" by code_simp
qed

text \<open>The named winner is not compared with the two sides: entry 99, who is in neither, reaches the final.\<close>

theorem stranger_can_win:
  "m_home (matches (snd (record_match_score 1 2 100 3 1 ''COMPLETED'' (Some 99) [] cup)) ! 2) = Some 99 \<and>
   99 \<notin> pe_id ` set (pentries cup)"
  by code_simp

text \<open>Cancelling a decided match leaves its earlier winner in the next one.\<close>

theorem cancelled_match_keeps_its_winner_advanced:
  "m_home (matches (snd (record_match_score 1 2 100 0 0 ''CANCELLED'' None []
     (snd (record_match_score 1 2 100 3 1 ''COMPLETED'' (Some 11) [] cup)))) ! 2) = Some 11"
  by code_simp

definition tour :: arena where
  "tour = snd (create_stage (\<lambda>k. 100 + k) 50 1 2 None ''S1'' ''peloton_stage'' 1 False [] arena_start)"

definition tour_finish :: "finish_record list" where
  "tour_finish = [\<lparr> fr_entry = 12, fr_ms = 2500, fr_status = ''finished'' \<rparr>, \<lparr> fr_entry = 13, fr_ms = 0, fr_status = ''DNF'' \<rparr>,
     \<lparr> fr_entry = 11, fr_ms = 1000, fr_status = ''FINISHED'' \<rparr>, \<lparr> fr_entry = 14, fr_ms = 2000, fr_status = ''COMPLETED'' \<rparr>]"


end
