(* ===== verification/RacepackSchema.thy ===== *)
theory RacepackSchema
  imports Orders Tickets
begin

text \<open>
  The tables of the race packs (migrations 50 and 52) and their queries (\<open>db/racepack.sql.go\<close>): counters,
  pickup slots, pickups, proxies, problem cases and idempotency keys. The organizations are not modelled,
  so their foreign keys are left out.
\<close>

section \<open>Tables\<close>

record counter =
  ct_id :: uuid
  ct_org :: uuid
  ct_event :: uuid
  ct_name :: string
  ct_location :: "string option"
  ct_active :: bool

record pickup_slot =
  sl_id :: uuid
  sl_org :: uuid
  sl_event :: uuid
  sl_name :: string
  sl_date :: int
  sl_start :: time
  sl_end :: time
  sl_capacity :: int
  sl_reserved :: int
  sl_active :: bool

datatype pickup_status = PickedUp | PickupCancelled

record pickup =
  pk_id :: uuid
  pk_org :: uuid
  pk_event :: uuid
  pk_ticket :: uuid
  pk_participant :: uuid
  pk_bib :: string
  pk_counter :: uuid
  pk_slot :: "uuid option"
  pk_staff :: uuid
  pk_method :: string
  pk_at :: time
  pk_notes :: "string option"
  pk_status :: pickup_status

record proxy_authorization =
  px_id :: uuid
  px_org :: uuid
  px_event :: uuid
  px_ticket :: uuid
  px_pickup :: "uuid option"
  px_name :: string
  px_phone :: "string option"
  px_identity :: string
  px_document :: "string option"
  px_created_by :: uuid

record problem_case =
  pc_id :: uuid
  pc_org :: uuid
  pc_event :: uuid
  pc_ticket :: "uuid option"
  pc_participant :: "uuid option"
  pc_status :: string
  pc_reason :: string
  pc_resolution :: "string option"
  pc_created_by :: uuid
  pc_resolved_by :: "uuid option"
  pc_resolved_at :: "time option"

record idempotency_key =
  ik_key :: string
  ik_scope :: string
  ik_hash :: string
  ik_status :: int
  ik_body :: string

record desk =
  pbase :: db
  counters :: "counter list"
  slots :: "pickup_slot list"
  pickups :: "pickup list"
  proxies :: "proxy_authorization list"
  problems :: "problem_case list"
  idem_keys :: "idempotency_key list"

definition desk_audit :: "string \<Rightarrow> uuid \<Rightarrow> desk \<Rightarrow> desk" where
  "desk_audit action target s = s\<lparr>pbase := audit action target (pbase s)\<rparr>"

definition event_known :: "uuid \<Rightarrow> desk \<Rightarrow> bool" where
  "event_known ev s \<longleftrightarrow> ev \<in> e_id ` set (events (pbase s))"

definition user_known :: "uuid \<Rightarrow> desk \<Rightarrow> bool" where
  "user_known u s \<longleftrightarrow> u \<in> u_id ` set (users (pbase s))"

definition ticket_known :: "uuid \<Rightarrow> desk \<Rightarrow> bool" where
  "ticket_known t s \<longleftrightarrow> t \<in> t_id ` set (tickets (pbase s))"

section \<open>Counters and slots\<close>

definition create_racepack_counter :: "counter \<Rightarrow> desk \<Rightarrow> counter res \<times> desk" where
  "create_racepack_counter c s =
     (if ct_id c \<in> ct_id ` set (counters s) then (Inl (UniqueViolation ''racepack_counters_pkey''), s)
      else if \<exists>x \<in> set (counters s). ct_event x = ct_event c \<and> ct_name x = ct_name c then
        (Inl (UniqueViolation ''racepack_counters_name_per_event''), s)
      else if \<not> event_known (ct_event c) s then (Inl (ForeignKeyViolation ''racepack_counters_event_id_fkey''), s)
      else (Inr c, s\<lparr>counters := counters s @ [c]\<rparr>))"

definition list_racepack_counters_by_event :: "uuid \<Rightarrow> desk \<Rightarrow> counter list" where
  "list_racepack_counters_by_event ev s = sort_key ct_name (filter (\<lambda>c. ct_event c = ev) (counters s))"

definition get_racepack_counter_by_id :: "uuid \<Rightarrow> desk \<Rightarrow> counter option" where
  "get_racepack_counter_by_id i s = sel (\<lambda>c. ct_id c = i) (counters s)"

definition update_racepack_counter :: "uuid \<Rightarrow> string \<Rightarrow> string option \<Rightarrow> bool \<Rightarrow> desk \<Rightarrow> counter res \<times> desk" where
  "update_racepack_counter i name loc act s =
     (case get_racepack_counter_by_id i s of
        None \<Rightarrow> (Inl NoRows, s)
      | Some c \<Rightarrow>
          let f = (\<lambda>c. c\<lparr>ct_name := name, ct_location := loc, ct_active := act\<rparr>)
          in if \<exists>x \<in> set (counters s). ct_id x \<noteq> i \<and> ct_event x = ct_event c \<and> ct_name x = name then
               (Inl (UniqueViolation ''racepack_counters_name_per_event''), s)
             else (Inr (f c), s\<lparr>counters := upd (\<lambda>c. ct_id c = i) f (counters s)\<rparr>))"

definition set_racepack_counter_active :: "uuid \<Rightarrow> bool \<Rightarrow> desk \<Rightarrow> counter res \<times> desk" where
  "set_racepack_counter_active i act s =
     (case upd_one (\<lambda>c. ct_id c = i) (\<lambda>c. c\<lparr>ct_active := act\<rparr>) (counters s) of
        None \<Rightarrow> (Inl NoRows, s)
      | Some (c, cs) \<Rightarrow> (Inr c, s\<lparr>counters := cs\<rparr>))"

text \<open>The CHECK constraints of a slot: a positive capacity, a window that ends after its start, and a count
  between zero and the capacity.\<close>

definition slot_check :: "pickup_slot \<Rightarrow> string option" where
  "slot_check sl =
     (if \<not> 0 < sl_capacity sl then Some ''racepack_pickup_slots_capacity_check''
      else if \<not> 0 \<le> sl_reserved sl then Some ''racepack_pickup_slots_reserved_count_check''
      else if \<not> sl_start sl < sl_end sl then Some ''racepack_pickup_slots_window''
      else if \<not> sl_reserved sl \<le> sl_capacity sl then Some ''racepack_pickup_slots_capacity''
      else None)"

definition create_racepack_pickup_slot :: "pickup_slot \<Rightarrow> desk \<Rightarrow> pickup_slot res \<times> desk" where
  "create_racepack_pickup_slot sl s =
     (case slot_check sl of
        Some k \<Rightarrow> (Inl (CheckViolation k), s)
      | None \<Rightarrow>
          if sl_id sl \<in> sl_id ` set (slots s) then (Inl (UniqueViolation ''racepack_pickup_slots_pkey''), s)
          else if \<not> event_known (sl_event sl) s then
            (Inl (ForeignKeyViolation ''racepack_pickup_slots_event_id_fkey''), s)
          else (Inr sl, s\<lparr>slots := slots s @ [sl]\<rparr>))"

definition by_slot_time :: "pickup_slot list \<Rightarrow> pickup_slot list" where
  "by_slot_time sls = sort_key sl_date (sort_key sl_start sls)"

definition list_racepack_pickup_slots_by_event :: "uuid \<Rightarrow> desk \<Rightarrow> pickup_slot list" where
  "list_racepack_pickup_slots_by_event ev s = by_slot_time (filter (\<lambda>x. sl_event x = ev) (slots s))"

definition list_racepack_pickup_slots_active_by_event :: "uuid \<Rightarrow> desk \<Rightarrow> pickup_slot list" where
  "list_racepack_pickup_slots_active_by_event ev s =
     by_slot_time (filter (\<lambda>x. sl_event x = ev \<and> sl_active x) (slots s))"

definition get_racepack_pickup_slot_by_id :: "uuid \<Rightarrow> desk \<Rightarrow> pickup_slot option" where
  "get_racepack_pickup_slot_by_id i s = sel (\<lambda>x. sl_id x = i) (slots s)"

definition update_racepack_pickup_slot ::
  "uuid \<Rightarrow> string \<Rightarrow> int \<Rightarrow> time \<Rightarrow> time \<Rightarrow> int \<Rightarrow> bool \<Rightarrow> desk \<Rightarrow> pickup_slot res \<times> desk" where
  "update_racepack_pickup_slot i name date st en cap act s =
     (case get_racepack_pickup_slot_by_id i s of
        None \<Rightarrow> (Inl NoRows, s)
      | Some x \<Rightarrow>
          let f = (\<lambda>x. x\<lparr>sl_name := name, sl_date := date, sl_start := st, sl_end := en, sl_capacity := cap, sl_active := act\<rparr>)
          in case slot_check (f x) of
               Some k \<Rightarrow> (Inl (CheckViolation k), s)
             | None \<Rightarrow> (Inr (f x), s\<lparr>slots := upd (\<lambda>x. sl_id x = i) f (slots s)\<rparr>))"

definition increment_racepack_pickup_slot_reserved :: "uuid \<Rightarrow> desk \<Rightarrow> pickup_slot res \<times> desk" where
  "increment_racepack_pickup_slot_reserved i s =
     (case upd_one (\<lambda>x. sl_id x = i \<and> sl_reserved x < sl_capacity x) (\<lambda>x. x\<lparr>sl_reserved := sl_reserved x + 1\<rparr>) (slots s) of
        None \<Rightarrow> (Inl NoRows, s)
      | Some (x, xs) \<Rightarrow> (Inr x, s\<lparr>slots := xs\<rparr>))"

definition decrement_racepack_pickup_slot_reserved :: "uuid \<Rightarrow> desk \<Rightarrow> desk" where
  "decrement_racepack_pickup_slot_reserved i s =
     s\<lparr>slots := upd (\<lambda>x. sl_id x = i \<and> sl_reserved x > 0) (\<lambda>x. x\<lparr>sl_reserved := sl_reserved x - 1\<rparr>) (slots s)\<rparr>"

section \<open>Pickups, proxies and cases\<close>

definition pickup_methods :: "string list" where
  "pickup_methods = [''SELF'', ''PROXY'', ''MANUAL_OVERRIDE'']"

definition active_for :: "uuid \<Rightarrow> pickup \<Rightarrow> bool" where
  "active_for t p \<longleftrightarrow> pk_ticket p = t \<and> pk_status p = PickedUp"

definition create_racepack_pickup_record :: "pickup \<Rightarrow> desk \<Rightarrow> pickup res \<times> desk" where
  "create_racepack_pickup_record p s =
     (if pk_method p \<notin> set pickup_methods then
        (Inl (CheckViolation ''racepack_pickup_records_pickup_method_check''), s)
      else if pk_id p \<in> pk_id ` set (pickups s) then (Inl (UniqueViolation ''racepack_pickup_records_pkey''), s)
      else if pk_status p = PickedUp \<and> (\<exists>x \<in> set (pickups s). active_for (pk_ticket p) x) then
        (Inl (UniqueViolation ''uniq_racepack_pickup_records_ticket_active''), s)
      else if \<not> event_known (pk_event p) s then
        (Inl (ForeignKeyViolation ''racepack_pickup_records_event_id_fkey''), s)
      else if \<not> ticket_known (pk_ticket p) s then
        (Inl (ForeignKeyViolation ''racepack_pickup_records_ticket_id_fkey''), s)
      else if \<not> user_known (pk_participant p) s then
        (Inl (ForeignKeyViolation ''racepack_pickup_records_participant_id_fkey''), s)
      else if pk_counter p \<notin> ct_id ` set (counters s) then
        (Inl (ForeignKeyViolation ''racepack_pickup_records_counter_id_fkey''), s)
      else if \<not> user_known (pk_staff p) s then
        (Inl (ForeignKeyViolation ''racepack_pickup_records_staff_id_fkey''), s)
      else if \<not> references (pk_slot p) (sl_id ` set (slots s)) then
        (Inl (ForeignKeyViolation ''racepack_pickup_records_slot_id_fkey''), s)
      else (Inr p, s\<lparr>pickups := pickups s @ [p]\<rparr>))"

definition get_racepack_pickup_record_by_ticket :: "uuid \<Rightarrow> desk \<Rightarrow> pickup option" where
  "get_racepack_pickup_record_by_ticket t s = sel (active_for t) (pickups s)"

definition get_racepack_pickup_record_by_id :: "uuid \<Rightarrow> desk \<Rightarrow> pickup option" where
  "get_racepack_pickup_record_by_id i s = sel (\<lambda>p. pk_id p = i) (pickups s)"

text \<open>\<open>LIMIT l OFFSET off\<close>: a negative number fails the statement.\<close>

definition page :: "int \<Rightarrow> int \<Rightarrow> 'a list \<Rightarrow> 'a list res" where
  "page l off xs =
     (if l < 0 then Inl (PlainErr ''LIMIT must not be negative'')
      else if off < 0 then Inl (PlainErr ''OFFSET must not be negative'')
      else Inr (take (nat l) (drop (nat off) xs)))"

definition list_racepack_pickup_records_by_event :: "uuid \<Rightarrow> int \<Rightarrow> int \<Rightarrow> desk \<Rightarrow> pickup list res" where
  "list_racepack_pickup_records_by_event ev l off s =
     page l off (sort_key (\<lambda>p. - pk_at p) (filter (\<lambda>p. pk_event p = ev \<and> pk_status p = PickedUp) (pickups s)))"

definition picked_at :: "uuid \<Rightarrow> time \<Rightarrow> time \<Rightarrow> pickup \<Rightarrow> bool" where
  "picked_at ev t1 t2 p \<longleftrightarrow> pk_event p = ev \<and> pk_status p = PickedUp \<and> t1 \<le> pk_at p \<and> pk_at p < t2"

definition count_racepack_pickup_records_by_counter :: "uuid \<Rightarrow> time \<Rightarrow> time \<Rightarrow> desk \<Rightarrow> (uuid \<times> nat) list" where
  "count_racepack_pickup_records_by_counter ev t1 t2 s =
     (let ps = filter (picked_at ev t1 t2) (pickups s)
      in map (\<lambda>c. (c, cnt (\<lambda>p. pk_counter p = c) ps)) (remdups (map pk_counter ps)))"

definition count_racepack_pickup_records_by_event :: "uuid \<Rightarrow> desk \<Rightarrow> nat" where
  "count_racepack_pickup_records_by_event ev s = cnt (\<lambda>p. pk_event p = ev \<and> pk_status p = PickedUp) (pickups s)"

definition create_racepack_proxy_authorization ::
  "proxy_authorization \<Rightarrow> desk \<Rightarrow> proxy_authorization res \<times> desk" where
  "create_racepack_proxy_authorization x s =
     (if px_id x \<in> px_id ` set (proxies s) then (Inl (UniqueViolation ''racepack_proxy_authorizations_pkey''), s)
      else if \<not> event_known (px_event x) s then
        (Inl (ForeignKeyViolation ''racepack_proxy_authorizations_event_id_fkey''), s)
      else if \<not> ticket_known (px_ticket x) s then
        (Inl (ForeignKeyViolation ''racepack_proxy_authorizations_ticket_id_fkey''), s)
      else if \<not> references (px_pickup x) (pk_id ` set (pickups s)) then
        (Inl (ForeignKeyViolation ''racepack_proxy_authorizations_pickup_record_id_fkey''), s)
      else if \<not> user_known (px_created_by x) s then
        (Inl (ForeignKeyViolation ''racepack_proxy_authorizations_created_by_fkey''), s)
      else (Inr x, s\<lparr>proxies := proxies s @ [x]\<rparr>))"

definition list_racepack_proxy_authorizations_by_ticket :: "uuid \<Rightarrow> desk \<Rightarrow> proxy_authorization list" where
  "list_racepack_proxy_authorizations_by_ticket t s = rev (filter (\<lambda>x. px_ticket x = t) (proxies s))"

definition get_racepack_proxy_authorization_by_id :: "uuid \<Rightarrow> desk \<Rightarrow> proxy_authorization option" where
  "get_racepack_proxy_authorization_by_id i s = sel (\<lambda>x. px_id x = i) (proxies s)"

definition create_racepack_problem_case :: "problem_case \<Rightarrow> desk \<Rightarrow> problem_case res \<times> desk" where
  "create_racepack_problem_case x s =
     (if pc_id x \<in> pc_id ` set (problems s) then (Inl (UniqueViolation ''racepack_problem_cases_pkey''), s)
      else if \<not> event_known (pc_event x) s then
        (Inl (ForeignKeyViolation ''racepack_problem_cases_event_id_fkey''), s)
      else if \<not> references (pc_ticket x) (t_id ` set (tickets (pbase s))) then
        (Inl (ForeignKeyViolation ''racepack_problem_cases_ticket_id_fkey''), s)
      else if \<not> references (pc_participant x) (u_id ` set (users (pbase s))) then
        (Inl (ForeignKeyViolation ''racepack_problem_cases_participant_id_fkey''), s)
      else if \<not> user_known (pc_created_by x) s then
        (Inl (ForeignKeyViolation ''racepack_problem_cases_created_by_fkey''), s)
      else (Inr (x\<lparr>pc_status := ''OPEN''\<rparr>), s\<lparr>problems := problems s @ [x\<lparr>pc_status := ''OPEN''\<rparr>]\<rparr>))"

definition get_racepack_problem_case_by_id :: "uuid \<Rightarrow> desk \<Rightarrow> problem_case option" where
  "get_racepack_problem_case_by_id i s = sel (\<lambda>x. pc_id x = i) (problems s)"

definition list_racepack_problem_cases_by_event :: "uuid \<Rightarrow> int \<Rightarrow> int \<Rightarrow> desk \<Rightarrow> problem_case list res" where
  "list_racepack_problem_cases_by_event ev l off s = page l off (rev (filter (\<lambda>x. pc_event x = ev) (problems s)))"

definition count_racepack_problem_cases_by_event_and_status :: "uuid \<Rightarrow> string \<Rightarrow> desk \<Rightarrow> nat" where
  "count_racepack_problem_cases_by_event_and_status ev st s = cnt (\<lambda>x. pc_event x = ev \<and> pc_status x = st) (problems s)"

definition case_statuses :: "string list" where
  "case_statuses = [''OPEN'', ''UNDER_REVIEW'', ''RESOLVED'', ''ESCALATED'']"

definition closes_case :: "string \<Rightarrow> bool" where
  "closes_case st \<longleftrightarrow> st = ''RESOLVED'' \<or> st = ''ESCALATED''"

definition moved_case :: "string \<Rightarrow> string option \<Rightarrow> uuid \<Rightarrow> time \<Rightarrow> problem_case \<Rightarrow> problem_case" where
  "moved_case st res u now x =
     x\<lparr>pc_status := st, pc_resolution := (if closes_case st then res else pc_resolution x),
       pc_resolved_by := (if closes_case st then Some u else pc_resolved_by x),
       pc_resolved_at := (if closes_case st then Some now else pc_resolved_at x)\<rparr>"

definition update_racepack_problem_case_status ::
  "uuid \<Rightarrow> string \<Rightarrow> string option \<Rightarrow> uuid \<Rightarrow> time \<Rightarrow> desk \<Rightarrow> problem_case res \<times> desk" where
  "update_racepack_problem_case_status i st res u now s =
     (case upd_one (\<lambda>x. pc_id x = i) (moved_case st res u now) (problems s) of
        None \<Rightarrow> (Inl NoRows, s)
      | Some (x, xs) \<Rightarrow>
          if st \<notin> set case_statuses then (Inl (CheckViolation ''racepack_problem_cases_status_check''), s)
          else if closes_case st \<and> \<not> user_known u s then
            (Inl (ForeignKeyViolation ''racepack_problem_cases_resolved_by_fkey''), s)
          else (Inr x, s\<lparr>problems := xs\<rparr>))"

section \<open>Other queries\<close>

definition get_event_organization_id :: "uuid \<Rightarrow> desk \<Rightarrow> uuid option" where
  "get_event_organization_id ev s = map_option e_org (sel (\<lambda>e. e_id e = ev) (events (pbase s)))"

definition lock_ticket_for_update :: "uuid \<Rightarrow> desk \<Rightarrow> ticket option" where
  "lock_ticket_for_update t s = sel (\<lambda>x. t_id x = t) (tickets (pbase s))"

definition get_user_ticket_by_id :: "uuid \<Rightarrow> desk \<Rightarrow> (ticket \<times> order_status) option" where
  "get_user_ticket_by_id t s =
     (case sel (\<lambda>x. t_id x = t) (tickets (pbase s)) of
        None \<Rightarrow> None
      | Some x \<Rightarrow> map_option (\<lambda>y. (x, o_status y)) (get_order_by_id (t_order x) (pbase s)))"

definition get_idempotency_key :: "string \<Rightarrow> string \<Rightarrow> desk \<Rightarrow> idempotency_key option" where
  "get_idempotency_key k sc s = sel (\<lambda>x. ik_key x = k \<and> ik_scope x = sc) (idem_keys s)"

text \<open>A conflict returns no row. The body is a jsonb column: \<open>jsonb\<close> is the text read back.\<close>

definition insert_idempotency_key ::
  "(string \<Rightarrow> string) \<Rightarrow> idempotency_key \<Rightarrow> desk \<Rightarrow> idempotency_key res \<times> desk" where
  "insert_idempotency_key jsonb x s =
     (if get_idempotency_key (ik_key x) (ik_scope x) s \<noteq> None then (Inl NoRows, s)
      else let x = x\<lparr>ik_body := jsonb (ik_body x)\<rparr> in (Inr x, s\<lparr>idem_keys := idem_keys s @ [x]\<rparr>))"

end
