(* ===== verification/Racepack.thy ===== *)
theory Racepack
  imports RacepackSchema Durations
begin

text \<open>
  Race packs (\<open>modules/racepack/service.go\<close>, \<open>eligibility.go\<close>, the pickup endpoint and the request bodies of
  \<open>handler.go\<close> and \<open>dto.go\<close>). \<open>ExecutePickup\<close> is a transaction; the clock and the new identifiers are
  arguments. SHA-256 and the reading and writing of JSON are parameters.
\<close>

abbreviation ErrOrderNotPaid :: app_error where "ErrOrderNotPaid \<equiv> PlainErr ''order not paid''"
abbreviation ErrBibMissing :: app_error where "ErrBibMissing \<equiv> PlainErr ''bib not assigned''"
abbreviation ErrAlreadyPickedUp :: app_error where "ErrAlreadyPickedUp \<equiv> PlainErr ''ticket already picked up''"
abbreviation ErrSlotInactive :: app_error where "ErrSlotInactive \<equiv> PlainErr ''slot inactive''"
abbreviation ErrOutsideWindow :: app_error where "ErrOutsideWindow \<equiv> PlainErr ''outside pickup window''"
abbreviation ErrTicketCancelled :: app_error where "ErrTicketCancelled \<equiv> PlainErr ''ticket cancelled''"
abbreviation ErrCounterInactive :: app_error where "ErrCounterInactive \<equiv> PlainErr ''counter inactive''"
abbreviation ErrCounterNotFound :: app_error where "ErrCounterNotFound \<equiv> PlainErr ''counter not found''"
abbreviation ErrSlotNotFound :: app_error where "ErrSlotNotFound \<equiv> PlainErr ''slot not found''"
abbreviation ErrSlotFull :: app_error where "ErrSlotFull \<equiv> PlainErr ''slot full''"
abbreviation ErrPackTicketNotFound :: app_error where "ErrPackTicketNotFound \<equiv> PlainErr ''ticket not found''"
abbreviation ErrInvalidStateChange :: app_error where "ErrInvalidStateChange \<equiv> PlainErr ''invalid status transition''"
abbreviation ErrInvalidMethod :: app_error where "ErrInvalidMethod \<equiv> PlainErr ''invalid pickup method''"
abbreviation ErrTicketEventMismatch :: app_error where
  "ErrTicketEventMismatch \<equiv> PlainErr ''ticket does not belong to this event''"
abbreviation ErrCounterEventMismatch :: app_error where
  "ErrCounterEventMismatch \<equiv> PlainErr ''counter does not belong to this event''"
abbreviation ErrNoProblemTarget :: app_error where
  "ErrNoProblemTarget \<equiv> PlainErr ''at least one of ticket_id or participant_id required''"
abbreviation ErrIdempotencyConflict :: app_error where
  "ErrIdempotencyConflict \<equiv> PlainErr ''idempotency key reused with different payload''"

section \<open>Ownership\<close>

definition assert_event_in_org :: "uuid \<Rightarrow> uuid \<Rightarrow> desk \<Rightarrow> unit res" where
  "assert_event_in_org ev org s =
     (case get_event_organization_id ev s of
        None \<Rightarrow> Inl ErrPackTicketNotFound
      | Some x \<Rightarrow> if x \<noteq> org then Inl ErrPackTicketNotFound else Inr ())"

text \<open>Status, event, participant and BIB of a ticket; a missing participant is the nil id.\<close>

definition get_ticket_status :: "uuid \<Rightarrow> desk \<Rightarrow> (ticket_status \<times> uuid \<times> uuid \<times> string) option" where
  "get_ticket_status t s = map_option (\<lambda>x. (t_status x, t_event x,
       (case t_participant x of None \<Rightarrow> nil_uuid | Some u \<Rightarrow> u), (case t_bib x of None \<Rightarrow> '''' | Some b \<Rightarrow> b)))
     (get_ticket_by_id t (pbase s))"

definition assert_ticket_in_event :: "uuid \<Rightarrow> uuid \<Rightarrow> desk \<Rightarrow> unit res \<times> desk" where
  "assert_ticket_in_event t ev s =
     (case get_ticket_status t s of
        None \<Rightarrow> (Inl ErrPackTicketNotFound, s)
      | Some (_, e, _, _) \<Rightarrow> require (e = ev) ErrTicketEventMismatch s)"

definition assert_counter_in_event :: "uuid \<Rightarrow> uuid \<Rightarrow> desk \<Rightarrow> counter res \<times> desk" where
  "assert_counter_in_event i ev s =
     (case get_racepack_counter_by_id i s of
        None \<Rightarrow> (Inl ErrCounterNotFound, s)
      | Some c \<Rightarrow> if ct_event c \<noteq> ev then (Inl ErrCounterEventMismatch, s)
                  else if \<not> ct_active c then (Inl ErrCounterInactive, s) else (Inr c, s))"

section \<open>Counters and slots\<close>

definition create_counter :: "uuid \<Rightarrow> uuid \<Rightarrow> uuid \<Rightarrow> string \<Rightarrow> string \<Rightarrow> bool \<Rightarrow> desk \<Rightarrow> counter res \<times> desk" where
  "create_counter i org ev name loc act s = create_racepack_counter
     \<lparr> ct_id = i, ct_org = org, ct_event = ev, ct_name = name, ct_location = Some loc, ct_active = act \<rparr> s"

definition update_counter :: "uuid \<Rightarrow> string \<Rightarrow> string \<Rightarrow> bool \<Rightarrow> desk \<Rightarrow> counter res \<times> desk" where
  "update_counter i name loc act s = update_racepack_counter i name (Some loc) act s"

definition create_slot ::
  "uuid \<Rightarrow> uuid \<Rightarrow> uuid \<Rightarrow> string \<Rightarrow> int \<Rightarrow> time \<Rightarrow> time \<Rightarrow> int \<Rightarrow> desk \<Rightarrow> pickup_slot res \<times> desk" where
  "create_slot i org ev name date st en cap s = create_racepack_pickup_slot
     \<lparr> sl_id = i, sl_org = org, sl_event = ev, sl_name = name, sl_date = date, sl_start = st, sl_end = en,
       sl_capacity = cap, sl_reserved = 0, sl_active = True \<rparr> s"

definition reserve_slot :: "uuid \<Rightarrow> desk \<Rightarrow> pickup_slot res \<times> desk" where
  "reserve_slot i s = on_no_rows ErrSlotFull (increment_racepack_pickup_slot_reserved i s)"

definition release_slot :: "uuid \<Rightarrow> desk \<Rightarrow> desk" where
  "release_slot i s = decrement_racepack_pickup_slot_reserved i s"

text \<open>The participant endpoint compares the event after the slot was taken.\<close>

definition reserve_slot_for_participant :: "uuid \<Rightarrow> uuid \<Rightarrow> desk \<Rightarrow> pickup_slot res \<times> desk" where
  "reserve_slot_for_participant ev i s =
     and_then (reserve_slot i s) (\<lambda>x s. if sl_event x \<noteq> ev then (Inl ErrSlotNotFound, s) else (Inr x, s))"

section \<open>Eligibility\<close>

definition order_status_for_ticket :: "uuid \<Rightarrow> desk \<Rightarrow> order_status res" where
  "order_status_for_ticket t s =
     (case get_ticket_by_id t (pbase s) of
        None \<Rightarrow> Inl ErrPackTicketNotFound
      | Some x \<Rightarrow> (case get_order_by_id (t_order x) (pbase s) of None \<Rightarrow> Inl NoRows | Some y \<Rightarrow> Inr (o_status y)))"

definition has_active_pickup :: "uuid \<Rightarrow> desk \<Rightarrow> bool" where
  "has_active_pickup t s \<longleftrightarrow> get_racepack_pickup_record_by_ticket t s \<noteq> None"

record eligibility =
  el_ticket :: uuid
  el_event :: uuid
  el_participant :: uuid
  el_bib :: string

definition can_pickup :: "uuid \<Rightarrow> uuid \<Rightarrow> time \<Rightarrow> desk \<Rightarrow> eligibility res" where
  "can_pickup t slot now s =
     (case get_ticket_status t s of
        None \<Rightarrow> Inl ErrPackTicketNotFound
      | Some (st, ev, u, bib) \<Rightarrow>
          if st = TixCancelled then Inl ErrTicketCancelled
          else if bib = '''' then Inl ErrBibMissing
          else if has_active_pickup t s then Inl ErrAlreadyPickedUp
          else (case order_status_for_ticket t s of
                  Inl e \<Rightarrow> Inl e
                | Inr os \<Rightarrow> if os \<noteq> OrdPaid then Inl ErrOrderNotPaid
                    else Inr \<lparr> el_ticket = t, el_event = ev, el_participant = u, el_bib = bib \<rparr>))"

section \<open>Pickups\<close>

record pickup_input =
  in_org :: uuid
  in_event :: uuid
  in_ticket :: uuid
  in_counter :: uuid
  in_slot :: "uuid option"
  in_staff :: uuid
  in_method :: string
  in_notes :: string

definition validate_pickup_method :: "string \<Rightarrow> desk \<Rightarrow> unit res \<times> desk" where
  "validate_pickup_method m s = require (upper (trim_space m) \<in> set pickup_methods) ErrInvalidMethod s"

text \<open>Step 2, on the locked row.\<close>

definition recheck :: "uuid \<Rightarrow> ticket \<Rightarrow> desk \<Rightarrow> unit res \<times> desk" where
  "recheck ev x s =
     and_then (require (t_status x \<noteq> TixCancelled) ErrTicketCancelled s) (\<lambda>_ s.
     and_then (require (t_bib x \<noteq> None \<and> t_bib x \<noteq> Some '''') ErrBibMissing s) (\<lambda>_ s.
     and_then (require (t_event x = ev) ErrTicketEventMismatch s) (\<lambda>_ s.
     and_then (require (\<not> has_active_pickup (t_id x) s) ErrAlreadyPickedUp s) (\<lambda>_ s.
     and_then (order_status_for_ticket (t_id x) s, s) (\<lambda>os s.
     require (os = OrdPaid) ErrOrderNotPaid s)))))"

text \<open>Step 4.\<close>

definition take_slot :: "uuid \<Rightarrow> uuid option \<Rightarrow> time \<Rightarrow> desk \<Rightarrow> unit res \<times> desk" where
  "take_slot ev slot now s =
     (case slot of
        None \<Rightarrow> (Inr (), s)
      | Some i \<Rightarrow>
          and_then (found ErrSlotNotFound (get_racepack_pickup_slot_by_id i s) s) (\<lambda>x s.
          and_then (require (sl_event x = ev) ErrSlotNotFound s) (\<lambda>_ s.
          and_then (require (sl_active x) ErrSlotInactive s) (\<lambda>_ s.
          and_then (require (\<not> now < sl_start x \<and> \<not> now > sl_end x) ErrOutsideWindow s) (\<lambda>_ s.
          and_then (on_no_rows ErrSlotFull (increment_racepack_pickup_slot_reserved (sl_id x) s)) (\<lambda>_ s.
          (Inr (), s)))))))"

definition pickup_row :: "uuid \<Rightarrow> time \<Rightarrow> pickup_input \<Rightarrow> ticket \<Rightarrow> pickup" where
  "pickup_row i now inp x =
     \<lparr> pk_id = i, pk_org = in_org inp, pk_event = in_event inp, pk_ticket = in_ticket inp,
       pk_participant = (case t_participant x of None \<Rightarrow> nil_uuid | Some u \<Rightarrow> u),
       pk_bib = (case t_bib x of None \<Rightarrow> '''' | Some b \<Rightarrow> b), pk_counter = in_counter inp, pk_slot = in_slot inp,
       pk_staff = in_staff inp, pk_method = in_method inp, pk_at = now, pk_notes = Some (in_notes inp),
       pk_status = PickedUp \<rparr>"

definition already_if_unique :: "pickup res \<times> desk \<Rightarrow> pickup res \<times> desk" where
  "already_if_unique m = (case m of
       (Inl (UniqueViolation k), s) \<Rightarrow> (Inl ErrAlreadyPickedUp, s)
     | (r, s) \<Rightarrow> (r, s))"

definition pickup_tx :: "uuid \<Rightarrow> time \<Rightarrow> pickup_input \<Rightarrow> desk \<Rightarrow> pickup res \<times> desk" where
  "pickup_tx i now inp s =
     and_then (found ErrPackTicketNotFound (lock_ticket_for_update (in_ticket inp) s) s) (\<lambda>x s.
     and_then (recheck (in_event inp) x s) (\<lambda>_ s.
     and_then (assert_counter_in_event (in_counter inp) (in_event inp) s) (\<lambda>_ s.
     and_then (take_slot (in_event inp) (in_slot inp) now s) (\<lambda>_ s.
     already_if_unique (create_racepack_pickup_record (pickup_row i now inp x) s)))))"

definition desk_tx :: "(desk \<Rightarrow> 'a res \<times> desk) \<Rightarrow> desk \<Rightarrow> 'a res \<times> desk" where
  "desk_tx body s = (case body s of (Inl e, _) \<Rightarrow> (Inl e, s) | (Inr a, s1) \<Rightarrow> (Inr a, s1))"

definition pickup_audit :: "pickup_input \<Rightarrow> pickup \<Rightarrow> desk \<Rightarrow> desk" where
  "pickup_audit inp r s =
     (let s = desk_audit ''RACEPACK_PICKUP_COMPLETED'' (pk_id r) s
      in case in_slot inp of None \<Rightarrow> s | Some i \<Rightarrow> desk_audit ''RACEPACK_SLOT_RESERVED'' i s)"

definition execute_pickup :: "uuid \<Rightarrow> time \<Rightarrow> pickup_input \<Rightarrow> desk \<Rightarrow> pickup res \<times> desk" where
  "execute_pickup i now inp s =
     and_then (validate_pickup_method (in_method inp) s) (\<lambda>_ s.
     and_then (desk_tx (pickup_tx i now inp) s) (\<lambda>r s.
     (Inr r, pickup_audit inp r s)))"

definition get_pickup_status_by_ticket :: "uuid \<Rightarrow> desk \<Rightarrow> pickup res" where
  "get_pickup_status_by_ticket t s =
     (case get_racepack_pickup_record_by_ticket t s of None \<Rightarrow> Inl ErrPackTicketNotFound | Some p \<Rightarrow> Inr p)"

definition get_pickup_record_by_id :: "uuid \<Rightarrow> desk \<Rightarrow> pickup res" where
  "get_pickup_record_by_id i s =
     (case get_racepack_pickup_record_by_id i s of None \<Rightarrow> Inl ErrPackTicketNotFound | Some p \<Rightarrow> Inr p)"

section \<open>Proxies and problem cases\<close>

definition create_proxy_authorization ::
  "uuid \<Rightarrow> uuid \<Rightarrow> uuid \<Rightarrow> uuid \<Rightarrow> uuid \<Rightarrow> uuid option \<Rightarrow> string \<Rightarrow> string \<Rightarrow> string \<Rightarrow> string \<Rightarrow> desk \<Rightarrow>
     proxy_authorization res \<times> desk" where
  "create_proxy_authorization i org ev t by pk name phone ident doc s =
     and_then (assert_ticket_in_event t ev s) (\<lambda>_ s.
     and_then (create_racepack_proxy_authorization
       \<lparr> px_id = i, px_org = org, px_event = ev, px_ticket = t, px_pickup = pk, px_name = name, px_phone = Some phone,
         px_identity = ident, px_document = Some doc, px_created_by = by \<rparr> s) (\<lambda>r s.
     (Inr r, desk_audit ''RACEPACK_PROXY_AUTHORIZED'' (px_id r) s)))"

definition create_problem_case ::
  "uuid \<Rightarrow> uuid \<Rightarrow> uuid \<Rightarrow> uuid \<Rightarrow> uuid option \<Rightarrow> uuid option \<Rightarrow> string \<Rightarrow> desk \<Rightarrow> problem_case res \<times> desk" where
  "create_problem_case i org ev by t u reason s =
     and_then (require (t \<noteq> None \<or> u \<noteq> None) ErrNoProblemTarget s) (\<lambda>_ s.
     and_then (case t of None \<Rightarrow> (Inr (), s) | Some t \<Rightarrow> assert_ticket_in_event t ev s) (\<lambda>_ s.
     and_then (create_racepack_problem_case
       \<lparr> pc_id = i, pc_org = org, pc_event = ev, pc_ticket = t, pc_participant = u, pc_status = ''OPEN'',
         pc_reason = reason, pc_resolution = None, pc_created_by = by, pc_resolved_by = None, pc_resolved_at = None \<rparr> s)
       (\<lambda>r s. (Inr r, desk_audit ''RACEPACK_PROBLEM_OPENED'' (pc_id r) s))))"

definition validate_state_transition :: "string \<Rightarrow> string \<Rightarrow> unit res" where
  "validate_state_transition from to =
     (if from = to then Inl ErrInvalidStateChange
      else if from = ''OPEN'' then
        (if to \<noteq> ''UNDER_REVIEW'' \<and> to \<noteq> ''RESOLVED'' \<and> to \<noteq> ''ESCALATED'' then Inl ErrInvalidStateChange else Inr ())
      else if from = ''UNDER_REVIEW'' then
        (if to \<noteq> ''RESOLVED'' \<and> to \<noteq> ''ESCALATED'' then Inl ErrInvalidStateChange else Inr ())
      else if from = ''RESOLVED'' \<or> from = ''ESCALATED'' then Inl ErrInvalidStateChange
      else Inl (PlainErr ''unknown source status''))"

definition update_problem_case_status ::
  "uuid \<Rightarrow> uuid \<Rightarrow> string \<Rightarrow> string \<Rightarrow> time \<Rightarrow> desk \<Rightarrow> problem_case res \<times> desk" where
  "update_problem_case_status i actor to resolution now s =
     and_then (found NoRows (get_racepack_problem_case_by_id i s) s) (\<lambda>x s.
     and_then (validate_state_transition (pc_status x) to, s) (\<lambda>_ s.
     and_then (update_racepack_problem_case_status i to (Some resolution) actor now s) (\<lambda>r s.
     (Inr r, desk_audit ''RACEPACK_PROBLEM_STATUS'' (pc_id r) s))))"

section \<open>Dashboard\<close>

record counter_count =
  cn_counter :: uuid
  cn_name :: string
  cn_pickups :: nat
  cn_active :: bool

record dashboard =
  da_total :: nat
  da_by_counter :: "counter_count list"
  da_open_cases :: nat
  da_counters :: nat
  da_active :: nat

abbreviation day_ns :: int where "day_ns \<equiv> 86400000000000"

definition dashboard_summary :: "uuid \<Rightarrow> time \<Rightarrow> desk \<Rightarrow> dashboard" where
  "dashboard_summary ev now s =
     (let cs = list_racepack_counters_by_event ev s;
          start = now - now mod day_ns;
          rows = count_racepack_pickup_records_by_counter ev start (start + day_ns) s
      in \<lparr> da_total = count_racepack_pickup_records_by_event ev s,
           da_by_counter = map (\<lambda>c. \<lparr> cn_counter = ct_id c, cn_name = ct_name c,
             cn_pickups = (case map_of rows (ct_id c) of None \<Rightarrow> 0 | Some n \<Rightarrow> n), cn_active = ct_active c \<rparr>) cs,
           da_open_cases = count_racepack_problem_cases_by_event_and_status ev ''OPEN'' s,
           da_counters = length cs, da_active = cnt ct_active cs \<rparr>)"

section \<open>The pickup endpoint\<close>

text \<open>A request body after decoding: both spellings of each key, absent ids as nil.\<close>

record pickup_body =
  pb_ticket :: "uuid \<times> uuid"
  pb_counter :: "uuid \<times> uuid"
  pb_slot :: "uuid option \<times> uuid option"
  pb_method :: string
  pb_notes :: string

definition first_id :: "uuid \<times> uuid \<Rightarrow> uuid" where
  "first_id p = (if fst p = nil_uuid then snd p else fst p)"

definition first_ref :: "uuid option \<times> uuid option \<Rightarrow> uuid option" where
  "first_ref p = (if fst p = None then snd p else fst p)"

definition pickup_request :: "uuid \<Rightarrow> uuid \<Rightarrow> uuid \<Rightarrow> pickup_body \<Rightarrow> pickup_input" where
  "pickup_request org ev staff b =
     \<lparr> in_org = org, in_event = ev, in_ticket = first_id (pb_ticket b), in_counter = first_id (pb_counter b),
       in_slot = first_ref (pb_slot b), in_staff = staff, in_method = upper (trim_space (pb_method b)),
       in_notes = pb_notes b \<rparr>"

definition hash_request :: "(string \<Rightarrow> string) \<Rightarrow> string \<Rightarrow> string \<Rightarrow> string \<Rightarrow> string" where
  "hash_request sha meth path body = sha (meth @ char_of (0::nat) # path @ char_of (0::nat) # body)"

definition lookup_idempotency :: "string \<Rightarrow> string \<Rightarrow> desk \<Rightarrow> idempotency_key option" where
  "lookup_idempotency k sc s = (if k = '''' then None else get_idempotency_key k sc s)"

definition store_idempotency ::
  "(string \<Rightarrow> string) \<Rightarrow> string \<Rightarrow> string \<Rightarrow> string \<Rightarrow> int \<Rightarrow> string \<Rightarrow> desk \<Rightarrow> desk" where
  "store_idempotency jsonb k sc h st body s =
     (if k = '''' then s
      else snd (insert_idempotency_key jsonb
        \<lparr> ik_key = k, ik_scope = sc, ik_hash = h, ik_status = st, ik_body = body \<rparr> s))"

abbreviation pickup_scope :: string where "pickup_scope \<equiv> ''racepack.execute_pickup''"

text \<open>What the environment of the endpoint supplies: the digest, the decoder of bodies, the text of a
  response and the normal form of jsonb.\<close>

record wire =
  wi_sha :: "string \<Rightarrow> string"
  wi_decode :: "string \<Rightarrow> pickup_body option"
  wi_json :: "pickup \<Rightarrow> string"
  wi_jsonb :: "string \<Rightarrow> string"

definition create_pickup ::
  "wire \<Rightarrow> uuid \<Rightarrow> time \<Rightarrow> uuid \<Rightarrow> uuid \<Rightarrow> uuid \<Rightarrow> string \<Rightarrow> string \<Rightarrow> string \<Rightarrow> desk \<Rightarrow> (int \<times> string) res \<times> desk" where
  "create_pickup w i now org ev staff path body k s =
     (case wi_decode w body of
        None \<Rightarrow> (Inl (AppErr 400 ''BAD_REQUEST''), s)
      | Some b \<Rightarrow>
          let h = hash_request (wi_sha w) ''POST'' path body
          in case lookup_idempotency k pickup_scope s of
               Some hit \<Rightarrow> if ik_hash hit \<noteq> h then (Inl ErrIdempotencyConflict, s)
                           else (Inr (ik_status hit, ik_body hit), s)
             | None \<Rightarrow>
                 and_then (execute_pickup i now (pickup_request org ev staff b) s) (\<lambda>r s.
                 (Inr (201, wi_json w r), store_idempotency (wi_jsonb w) k pickup_scope h 201 (wi_json w r) s)))"

text \<open>\<open>paginationFromQuery\<close>: the offset is converted to 32 bits.\<close>

definition int32 :: "int \<Rightarrow> int" where
  "int32 n = sint (word_of_int n :: 32 word)"

definition pagination_from_query :: "string \<Rightarrow> string \<Rightarrow> int \<times> int" where
  "pagination_from_query limit offset =
     ((case parse_int64 limit of Some n \<Rightarrow> if n > 0 \<and> n \<le> 200 then int32 n else 50 | None \<Rightarrow> 50),
      (case parse_int64 offset of Some n \<Rightarrow> if n \<ge> 0 then int32 n else 0 | None \<Rightarrow> 0))"

section \<open>The tables stay well formed\<close>

definition desk_ok :: "desk \<Rightarrow> bool" where
  "desk_ok s \<longleftrightarrow>
     distinct (map ct_id (counters s)) \<and> distinct (map sl_id (slots s)) \<and> distinct (map pk_id (pickups s)) \<and>
     distinct (map pc_id (problems s)) \<and> distinct (map (\<lambda>x. (ik_key x, ik_scope x)) (idem_keys s)) \<and>
     (\<forall>x \<in> set (slots s). slot_check x = None) \<and>
     (\<forall>p \<in> set (pickups s). pk_method p \<in> set pickup_methods) \<and>
     (\<forall>t. cnt (active_for t) (pickups s) \<le> 1) \<and>
     (\<forall>x \<in> set (problems s). pc_status x \<in> set case_statuses)"

lemma desk_ok_cong:
  "counters s' = counters s \<Longrightarrow> slots s' = slots s \<Longrightarrow> pickups s' = pickups s \<Longrightarrow> problems s' = problems s \<Longrightarrow>
     idem_keys s' = idem_keys s \<Longrightarrow> desk_ok s' = desk_ok s"
  by (simp add: desk_ok_def)

lemma desk_audit_frame [simp]:
  "counters (desk_audit a t s) = counters s" "slots (desk_audit a t s) = slots s" "pickups (desk_audit a t s) = pickups s"
  "problems (desk_audit a t s) = problems s" "idem_keys (desk_audit a t s) = idem_keys s"
  "tickets (pbase (desk_audit a t s)) = tickets (pbase s)" "orders (pbase (desk_audit a t s)) = orders (pbase s)"
  by (simp_all add: desk_audit_def)

lemma pickup_audit_frame [simp]:
  "counters (pickup_audit inp r s) = counters s" "slots (pickup_audit inp r s) = slots s"
  "pickups (pickup_audit inp r s) = pickups s" "problems (pickup_audit inp r s) = problems s"
  "idem_keys (pickup_audit inp r s) = idem_keys s"
  by (simp_all add: pickup_audit_def Let_def split: option.split)

lemma ok_audits [simp]: "desk_ok (desk_audit a t s) = desk_ok s" "desk_ok (pickup_audit inp r s) = desk_ok s"
  by (rule desk_ok_cong; simp)+

lemma ok_chain:
  "desk_ok (snd m) \<Longrightarrow> (\<And>a t. m = (Inr a, t) \<Longrightarrow> desk_ok t \<Longrightarrow> desk_ok (snd (k a t))) \<Longrightarrow> desk_ok (snd (and_then m k))"
  by (rule and_then_inv)

lemma ok_create_counter: "desk_ok s \<Longrightarrow> desk_ok (snd (create_racepack_counter c s))"
  by (auto simp: create_racepack_counter_def desk_ok_def)

lemma ok_upd_counters:
  assumes "desk_ok s" "\<And>c. ct_id (f c) = ct_id c"
  shows "desk_ok (s\<lparr>counters := upd P f (counters s)\<rparr>)"
  using assms by (simp add: desk_ok_def map_upd)

lemma ok_update_counter: "desk_ok s \<Longrightarrow> desk_ok (snd (update_racepack_counter i name loc act s))"
  by (auto simp: update_racepack_counter_def Let_def intro: ok_upd_counters split: option.split)

lemma ok_counter_active: "desk_ok s \<Longrightarrow> desk_ok (snd (set_racepack_counter_active i act s))"
  by (auto simp: set_racepack_counter_active_def upd_one_def intro: ok_upd_counters split: option.split)

lemma ok_create_slot: "desk_ok s \<Longrightarrow> desk_ok (snd (create_racepack_pickup_slot x s))"
  by (auto simp: create_racepack_pickup_slot_def desk_ok_def split: option.split)

lemma ok_upd_slots:
  assumes "desk_ok s" "\<And>x. sl_id (f x) = sl_id x" "\<And>x. x \<in> set (slots s) \<Longrightarrow> P x \<Longrightarrow> slot_check (f x) = None"
  shows "desk_ok (s\<lparr>slots := upd P f (slots s)\<rparr>)"
  using assms by (auto simp: desk_ok_def map_upd ball_upd)

lemma ok_update_slot:
  assumes "desk_ok s"
  shows "desk_ok (snd (update_racepack_pickup_slot i name date st en cap act s))"
proof (cases "get_racepack_pickup_slot_by_id i s")
  case (Some x)
  let ?f = "\<lambda>x. x\<lparr>sl_name := name, sl_date := date, sl_start := st, sl_end := en, sl_capacity := cap, sl_active := act\<rparr>"
  show ?thesis
  proof (cases "slot_check (?f x)")
    case None
    have "y = x" if "y \<in> set (slots s)" "sl_id y = i" for y
      using that Some assms by (auto simp: get_racepack_pickup_slot_by_id_def desk_ok_def distinct_map dest!: sel_SomeD intro: inj_onD)
    then have "desk_ok (s\<lparr>slots := upd (\<lambda>x. sl_id x = i) ?f (slots s)\<rparr>)" using assms None by (intro ok_upd_slots) auto
    then show ?thesis using Some None by (simp add: update_racepack_pickup_slot_def Let_def)
  qed (use Some assms in \<open>simp add: update_racepack_pickup_slot_def Let_def\<close>)
qed (use assms in \<open>simp add: update_racepack_pickup_slot_def\<close>)

lemma slot_check_None:
  "slot_check x = None \<longleftrightarrow> 0 < sl_capacity x \<and> 0 \<le> sl_reserved x \<and> sl_start x < sl_end x \<and> sl_reserved x \<le> sl_capacity x"
  by (simp add: slot_check_def)

lemma ok_increment:
  assumes "desk_ok s"
  shows "desk_ok (snd (increment_racepack_pickup_slot_reserved i s))"
proof -
  have "desk_ok (s\<lparr>slots := upd (\<lambda>x. sl_id x = i \<and> sl_reserved x < sl_capacity x) (\<lambda>x. x\<lparr>sl_reserved := sl_reserved x + 1\<rparr>) (slots s)\<rparr>)"
    using assms by (intro ok_upd_slots) (auto simp: desk_ok_def slot_check_None)
  then show ?thesis using assms by (auto simp: increment_racepack_pickup_slot_reserved_def upd_one_def split: option.split)
qed

lemma ok_decrement:
  assumes "desk_ok s"
  shows "desk_ok (decrement_racepack_pickup_slot_reserved i s)"
  unfolding decrement_racepack_pickup_slot_reserved_def
  using assms by (intro ok_upd_slots) (auto simp: desk_ok_def slot_check_None)

lemma ok_create_pickup_record:
  assumes "desk_ok s"
  shows "desk_ok (snd (create_racepack_pickup_record p s))"
proof (cases "create_racepack_pickup_record p s")
  case (Pair r t)
  show ?thesis
  proof (cases "t = s")
    case False
    then have t: "t = s\<lparr>pickups := pickups s @ [p]\<rparr>" and new: "pk_id p \<notin> pk_id ` set (pickups s)"
      "pk_method p \<in> set pickup_methods" "pk_status p = PickedUp \<Longrightarrow> \<forall>x \<in> set (pickups s). \<not> active_for (pk_ticket p) x"
      using Pair by (auto simp: create_racepack_pickup_record_def split: if_splits)
    have "cnt (active_for u) (pickups s @ [p]) \<le> 1" for u
    proof (cases "active_for u p")
      case True
      then have "cnt (active_for u) (pickups s) = 0" using new(3) by (auto simp: cnt_0_iff active_for_def)
      then show ?thesis by simp
    next
      case False
      then show ?thesis using assms by (auto simp: desk_ok_def)
    qed
    then show ?thesis using assms Pair t new by (simp add: desk_ok_def)
  qed (use assms Pair in simp)
qed

lemma ok_create_proxy: "desk_ok s \<Longrightarrow> desk_ok (snd (create_racepack_proxy_authorization x s))"
  by (auto simp: create_racepack_proxy_authorization_def desk_ok_def)

lemma ok_create_case: "desk_ok s \<Longrightarrow> desk_ok (snd (create_racepack_problem_case x s))"
  by (auto simp: create_racepack_problem_case_def desk_ok_def case_statuses_def)

lemma ok_update_case:
  assumes "desk_ok s"
  shows "desk_ok (snd (update_racepack_problem_case_status i st res u now s))"
proof -
  have "desk_ok (s\<lparr>problems := upd (\<lambda>x. pc_id x = i) (moved_case st res u now) (problems s)\<rparr>)" if "st \<in> set case_statuses"
  proof -
    have "map pc_id (upd (\<lambda>x. pc_id x = i) (moved_case st res u now) (problems s)) = map pc_id (problems s)"
      by (rule map_upd) (simp add: moved_case_def)
    then show ?thesis using assms that by (auto simp: desk_ok_def ball_upd moved_case_def)
  qed
  then show ?thesis using assms by (auto simp: update_racepack_problem_case_status_def upd_one_def split: option.split)
qed

lemma ok_insert_key: "desk_ok s \<Longrightarrow> desk_ok (snd (insert_idempotency_key jsonb x s))"
  by (auto simp: insert_idempotency_key_def get_idempotency_key_def desk_ok_def Let_def sel_None_iff)

lemma ok_desk_tx: "desk_ok s \<Longrightarrow> (desk_ok s \<Longrightarrow> desk_ok (snd (b s))) \<Longrightarrow> desk_ok (snd (desk_tx b s))"
  by (cases "b s") (auto simp: desk_tx_def split: sum.split)

lemma stays_desk [simp]:
  "snd (assert_counter_in_event i ev s) = s" "snd (assert_ticket_in_event t ev s) = s" "snd (validate_pickup_method m s) = s"
  by (simp_all add: assert_counter_in_event_def assert_ticket_in_event_def validate_pickup_method_def split: option.split prod.split)

lemma snd_recheck [simp]: "snd (recheck ev x s) = s"
  by (simp add: recheck_def and_then_def require_def split: sum.split)

lemma snd_already_if_unique [simp]: "snd (already_if_unique m) = snd m"
  by (simp add: already_if_unique_def split: prod.split sum.split app_error.split)

lemma ok_take_slot: "desk_ok s \<Longrightarrow> desk_ok (snd (take_slot ev slot now s))"
  unfolding take_slot_def
  by (cases slot) (auto intro!: ok_chain ok_increment)

lemma ok_pickup_tx: "desk_ok s \<Longrightarrow> desk_ok (snd (pickup_tx i now inp s))"
  unfolding pickup_tx_def by (intro ok_chain) (auto intro!: ok_chain ok_take_slot ok_create_pickup_record)

lemma ok_execute_pickup: "desk_ok s \<Longrightarrow> desk_ok (snd (execute_pickup i now inp s))"
  unfolding execute_pickup_def by (intro ok_chain ok_desk_tx ok_pickup_tx) simp_all

text \<open>The operations that the endpoints call, and anything that other modules do to their tables.
  \<open>ReleaseSlot\<close> has no caller.\<close>

inductive desk_step :: "desk \<Rightarrow> desk \<Rightarrow> bool" where
  "desk_step s (snd (create_counter i org ev name loc act s))"
| "desk_step s (snd (update_counter i name loc act s))"
| "desk_step s (snd (set_racepack_counter_active i act s))"
| "desk_step s (snd (create_slot i org ev name date st en cap s))"
| "desk_step s (snd (update_racepack_pickup_slot i name date st en cap act s))"
| "desk_step s (snd (reserve_slot_for_participant ev i s))"
| "desk_step s (snd (execute_pickup i now inp s))"
| "desk_step s (snd (create_pickup w i now org ev staff path body k s))"
| "desk_step s (snd (create_proxy_authorization i org ev t by' pk name phone ident doc s))"
| "desk_step s (snd (create_problem_case i org ev by' t' u reason s))"
| "desk_step s (snd (update_problem_case_status i actor to resolution now s))"
| "desk_step s (s\<lparr>pbase := b\<rparr>)"

lemma desk_step_ok: "desk_step s s' \<Longrightarrow> desk_ok s \<Longrightarrow> desk_ok s'"
proof (induction rule: desk_step.induct)
  case 1
  then show ?case unfolding create_counter_def by (rule ok_create_counter)
next
  case 2
  then show ?case unfolding update_counter_def by (rule ok_update_counter)
next
  case 3
  then show ?case by (rule ok_counter_active)
next
  case 4
  then show ?case unfolding create_slot_def by (rule ok_create_slot)
next
  case 5
  then show ?case by (rule ok_update_slot)
next
  case 6
  then show ?case unfolding reserve_slot_for_participant_def reserve_slot_def by (intro ok_chain) (simp_all add: ok_increment)
next
  case 7
  then show ?case by (rule ok_execute_pickup)
next
  case 8
  then show ?case unfolding create_pickup_def store_idempotency_def Let_def
    by (auto intro!: ok_chain ok_execute_pickup ok_insert_key split: option.split)
next
  case 9
  then show ?case unfolding create_proxy_authorization_def by (intro ok_chain ok_create_proxy) simp_all
next
  case 10
  then show ?case unfolding create_problem_case_def by (intro ok_chain ok_create_case) (simp_all split: option.split)
next
  case 11
  then show ?case unfolding update_problem_case_status_def by (intro ok_chain ok_update_case) simp_all
next
  case 12
  then show ?case by (simp add: desk_ok_def)
qed

theorem reachable_desk_ok:
  assumes "desk_step\<^sup>*\<^sup>* s s'" "desk_ok s"
  shows "desk_ok s'"
  using assms by (induction rule: rtranclp_induct) (auto intro: desk_step_ok)

section \<open>What a pickup does\<close>

lemma desk_tx_Inr [simp]: "desk_tx b s = (Inr a, s') \<longleftrightarrow> b s = (Inr a, s')"
  by (auto simp: desk_tx_def split: prod.splits sum.splits)

lemma recheck_Inr: "recheck ev x s = (Inr u, s') \<longleftrightarrow> s' = s \<and> t_status x \<noteq> TixCancelled \<and> t_bib x \<noteq> None \<and>
    t_bib x \<noteq> Some '''' \<and> t_event x = ev \<and> \<not> has_active_pickup (t_id x) s \<and> order_status_for_ticket (t_id x) s = Inr OrdPaid"
  by (auto simp: recheck_def and_then_Inr)

definition slot_taken :: "uuid option \<Rightarrow> pickup_slot list \<Rightarrow> pickup_slot list" where
  "slot_taken slot xs = (case slot of None \<Rightarrow> xs
     | Some i \<Rightarrow> upd (\<lambda>x. sl_id x = i \<and> sl_reserved x < sl_capacity x) (\<lambda>x. x\<lparr>sl_reserved := sl_reserved x + 1\<rparr>) xs)"

definition slot_open :: "uuid \<Rightarrow> uuid option \<Rightarrow> time \<Rightarrow> desk \<Rightarrow> bool" where
  "slot_open ev slot now s \<longleftrightarrow> (case slot of None \<Rightarrow> True
     | Some i \<Rightarrow> (\<exists>x. get_racepack_pickup_slot_by_id i s = Some x \<and> sl_event x = ev \<and> sl_active x \<and>
          sl_start x \<le> now \<and> now \<le> sl_end x) \<and> (\<exists>x \<in> set (slots s). sl_id x = i \<and> sl_reserved x < sl_capacity x))"

lemma increment_Inr: "increment_racepack_pickup_slot_reserved i s = (Inr y, s') \<longleftrightarrow>
    (\<exists>x. sel (\<lambda>x. sl_id x = i \<and> sl_reserved x < sl_capacity x) (slots s) = Some x \<and> y = x\<lparr>sl_reserved := sl_reserved x + 1\<rparr>) \<and>
    s' = s\<lparr>slots := slot_taken (Some i) (slots s)\<rparr>"
  by (auto simp: increment_racepack_pickup_slot_reserved_def slot_taken_def upd_one_def split: option.splits)

lemma sel_ex: "(\<exists>x. sel P t = Some x) \<longleftrightarrow> (\<exists>x \<in> set t. P x)"
  using sel_None_iff [of P t] by (cases "sel P t") (auto dest: sel_SomeD)

lemma take_slot_Inr: "take_slot ev slot now s = (Inr u, s') \<longleftrightarrow>
    slot_open ev slot now s \<and> s' = s\<lparr>slots := slot_taken slot (slots s)\<rparr>"
proof (cases slot)
  case (Some i)
  show ?thesis
  proof (cases "get_racepack_pickup_slot_by_id i s")
    case None
    then show ?thesis using Some by (simp add: take_slot_def slot_open_def)
  next
    case got: (Some x)
    have id: "sl_id x = i" using got by (auto simp: get_racepack_pickup_slot_by_id_def dest: sel_SomeD)
    have "take_slot ev slot now s = (Inr u, s') \<longleftrightarrow> sl_event x = ev \<and> sl_active x \<and> sl_start x \<le> now \<and> now \<le> sl_end x \<and>
        (\<exists>z. sel (\<lambda>x. sl_id x = i \<and> sl_reserved x < sl_capacity x) (slots s) = Some z) \<and>
        s' = s\<lparr>slots := slot_taken slot (slots s)\<rparr>"
      using Some got id unfolding take_slot_def by (auto simp: and_then_Inr increment_Inr not_less)
    then show ?thesis using Some got by (simp only: sel_ex) (auto simp: slot_open_def)
  qed
qed (auto simp: take_slot_def slot_open_def slot_taken_def)

lemma already_if_unique_Inr [simp]: "already_if_unique m = (Inr a, s') \<longleftrightarrow> m = (Inr a, s')"
  by (auto simp: already_if_unique_def split: prod.splits sum.splits app_error.splits)

lemma assert_counter_Inr: "assert_counter_in_event i ev s = (Inr c, s') \<longleftrightarrow>
    s' = s \<and> get_racepack_counter_by_id i s = Some c \<and> ct_event c = ev \<and> ct_active c"
  by (auto simp: assert_counter_in_event_def split: option.split)

lemma create_record_Inr: "create_racepack_pickup_record p s = (Inr r, s') \<Longrightarrow>
    r = p \<and> s' = s\<lparr>pickups := pickups s @ [p]\<rparr> \<and> pk_method p \<in> set pickup_methods \<and> user_known (pk_participant p) s \<and>
    user_known (pk_staff p) s \<and> references (pk_slot p) (sl_id ` set (slots s))"
  by (auto simp: create_racepack_pickup_record_def split: if_splits)

lemma pickup_effect:
  assumes "execute_pickup i now inp s = (Inr r, s')"
  shows "\<exists>x. lock_ticket_for_update (in_ticket inp) s = Some x \<and> t_event x = in_event inp \<and> t_status x \<noteq> TixCancelled \<and>
    t_bib x \<noteq> None \<and> t_bib x \<noteq> Some '''' \<and> \<not> has_active_pickup (in_ticket inp) s \<and>
    order_status_for_ticket (in_ticket inp) s = Inr OrdPaid \<and>
    (\<exists>c. get_racepack_counter_by_id (in_counter inp) s = Some c \<and> ct_event c = in_event inp \<and> ct_active c) \<and>
    slot_open (in_event inp) (in_slot inp) now s \<and> r = pickup_row i now inp x \<and> user_known (pk_participant r) s \<and>
    s' = pickup_audit inp r (s\<lparr>slots := slot_taken (in_slot inp) (slots s), pickups := pickups s @ [r]\<rparr>)"
proof -
  from assms have tx: "pickup_tx i now inp s = (Inr r, snd (pickup_tx i now inp s))"
    and s': "s' = pickup_audit inp r (snd (pickup_tx i now inp s))"
    by (auto simp: execute_pickup_def and_then_Inr validate_pickup_method_def)
  from tx obtain x c where x: "lock_ticket_for_update (in_ticket inp) s = Some x"
    and chk: "recheck (in_event inp) x s = (Inr (), s)"
    and c: "assert_counter_in_event (in_counter inp) (in_event inp) s = (Inr c, s)"
    and tk: "slot_open (in_event inp) (in_slot inp) now s"
    and cr: "create_racepack_pickup_record (pickup_row i now inp x) (s\<lparr>slots := slot_taken (in_slot inp) (slots s)\<rparr>) =
      (Inr r, snd (pickup_tx i now inp s))"
    unfolding pickup_tx_def by (clarsimp simp: and_then_Inr recheck_Inr assert_counter_Inr take_slot_Inr)
  have "t_id x = in_ticket inp" using x by (auto simp: lock_ticket_for_update_def dest: sel_SomeD)
  then show ?thesis using x chk c tk s' create_record_Inr [OF cr]
    by (auto simp: recheck_Inr assert_counter_Inr user_known_def)
qed

text \<open>A pickup hands out the pack of a ticket of this event that is not cancelled, has a BIB, was not picked up
  and whose order is paid, at an active counter of the event and inside the window of an open slot if one is
  named. It writes one record, counts one place of the slot, and changes no other table of the desk.\<close>

theorem pickup_exact:
  assumes "execute_pickup i now inp s = (Inr r, s')"
  shows "\<exists>x. lock_ticket_for_update (in_ticket inp) s = Some x \<and> t_event x = in_event inp \<and> t_status x \<noteq> TixCancelled \<and>
    t_bib x \<noteq> None \<and> t_bib x \<noteq> Some '''' \<and> \<not> has_active_pickup (in_ticket inp) s \<and>
    order_status_for_ticket (in_ticket inp) s = Inr OrdPaid \<and>
    (\<exists>c. get_racepack_counter_by_id (in_counter inp) s = Some c \<and> ct_event c = in_event inp \<and> ct_active c) \<and>
    slot_open (in_event inp) (in_slot inp) now s \<and> r = pickup_row i now inp x \<and> user_known (pk_participant r) s \<and>
    s' = pickup_audit inp r (s\<lparr>slots := slot_taken (in_slot inp) (slots s), pickups := pickups s @ [r]\<rparr>)"
  using pickup_effect [OF assms] .

lemma refused_pickup_changes_nothing:
  assumes "execute_pickup i now inp s = (Inl e, s')"
  shows "s' = s"
  using assms by (auto simp: execute_pickup_def and_then_Inl validate_pickup_method_def desk_tx_def split: sum.splits prod.splits)

section \<open>A pack is handed out once\<close>

lemma pickups_of_audit [simp]: "has_active_pickup t (desk_audit a x s) = has_active_pickup t s"
  by (simp add: has_active_pickup_def get_racepack_pickup_record_by_ticket_def)

lemma active_pickup_iff: "has_active_pickup t s \<longleftrightarrow> (\<exists>p \<in> set (pickups s). active_for t p)"
  by (simp add: has_active_pickup_def get_racepack_pickup_record_by_ticket_def sel_ex [symmetric])

definition grows :: "'a list \<Rightarrow> 'a list \<Rightarrow> bool" where
  "grows xs ys \<longleftrightarrow> (\<exists>zs. ys = xs @ zs)"

lemma grows_refl [simp]: "grows xs xs" "grows xs (xs @ zs)"
  by (simp_all add: grows_def)

lemma grows_trans: "grows xs ys \<Longrightarrow> grows ys zs \<Longrightarrow> grows xs zs"
  by (auto simp: grows_def)

lemma grows_chain:
  "grows (f s) (f (snd m)) \<Longrightarrow> (\<And>a t. m = (Inr a, t) \<Longrightarrow> grows (f s) (f t) \<Longrightarrow> grows (f s) (f (snd (k a t)))) \<Longrightarrow>
     grows (f s) (f (snd (and_then m k)))"
  by (rule and_then_inv [where I = "\<lambda>x. grows (f s) (f x)"])

lemma keeps_pickups [simp]:
  "pickups (snd (create_racepack_counter c s)) = pickups s"
  "pickups (snd (update_racepack_counter i name loc act s)) = pickups s"
  "pickups (snd (set_racepack_counter_active i act s)) = pickups s"
  "pickups (snd (create_racepack_pickup_slot x s)) = pickups s"
  "pickups (snd (update_racepack_pickup_slot i name date st en cap act s)) = pickups s"
  "pickups (snd (increment_racepack_pickup_slot_reserved i s)) = pickups s"
  "pickups (snd (create_racepack_proxy_authorization y s)) = pickups s"
  "pickups (snd (create_racepack_problem_case z s)) = pickups s"
  "pickups (snd (update_racepack_problem_case_status i sta res u now s)) = pickups s"
  "pickups (snd (insert_idempotency_key jsonb k s)) = pickups s"
  by (simp_all add: create_racepack_counter_def update_racepack_counter_def set_racepack_counter_active_def Let_def
      create_racepack_pickup_slot_def update_racepack_pickup_slot_def increment_racepack_pickup_slot_reserved_def
      create_racepack_proxy_authorization_def create_racepack_problem_case_def update_racepack_problem_case_status_def
      insert_idempotency_key_def split: option.split)

lemma keeps_keys [simp]:
  "idem_keys (snd (create_racepack_counter c s)) = idem_keys s"
  "idem_keys (snd (update_racepack_counter i name loc act s)) = idem_keys s"
  "idem_keys (snd (set_racepack_counter_active i act s)) = idem_keys s"
  "idem_keys (snd (create_racepack_pickup_slot x s)) = idem_keys s"
  "idem_keys (snd (update_racepack_pickup_slot i name date st en cap act s)) = idem_keys s"
  "idem_keys (snd (increment_racepack_pickup_slot_reserved i s)) = idem_keys s"
  "idem_keys (snd (create_racepack_proxy_authorization y s)) = idem_keys s"
  "idem_keys (snd (create_racepack_problem_case z s)) = idem_keys s"
  "idem_keys (snd (update_racepack_problem_case_status i sta res u now s)) = idem_keys s"
  by (simp_all add: create_racepack_counter_def update_racepack_counter_def set_racepack_counter_active_def Let_def
      create_racepack_pickup_slot_def update_racepack_pickup_slot_def increment_racepack_pickup_slot_reserved_def
      create_racepack_proxy_authorization_def create_racepack_problem_case_def update_racepack_problem_case_status_def
      split: option.split)

lemma execute_pickup_tables:
  "pickups (snd (execute_pickup i now inp s)) = pickups s @
     (case fst (execute_pickup i now inp s) of Inl e \<Rightarrow> [] | Inr r \<Rightarrow> [r])"
  "idem_keys (snd (execute_pickup i now inp s)) = idem_keys s"
proof -
  have "pickups (snd (execute_pickup i now inp s)) = pickups s @
       (case fst (execute_pickup i now inp s) of Inl e \<Rightarrow> [] | Inr r \<Rightarrow> [r]) \<and>
     idem_keys (snd (execute_pickup i now inp s)) = idem_keys s"
  proof (cases "execute_pickup i now inp s")
    case (Pair a t)
    show ?thesis
    proof (cases a)
      case (Inl e)
      with Pair refused_pickup_changes_nothing [of i now inp s e t] show ?thesis by simp
    next
      case (Inr r)
      with Pair pickup_effect [of i now inp s r t] show ?thesis by auto
    qed
  qed
  then show "pickups (snd (execute_pickup i now inp s)) = pickups s @
     (case fst (execute_pickup i now inp s) of Inl e \<Rightarrow> [] | Inr r \<Rightarrow> [r])"
    "idem_keys (snd (execute_pickup i now inp s)) = idem_keys s" by auto
qed

lemma store_grows: "grows (idem_keys s) (idem_keys (store_idempotency jsonb k sc h st b s))"
  "pickups (store_idempotency jsonb k sc h st b s) = pickups s"
  by (simp_all add: store_idempotency_def insert_idempotency_key_def Let_def)

lemma step_grows: "desk_step s s' \<Longrightarrow> grows (pickups s) (pickups s') \<and> grows (idem_keys s) (idem_keys s')"
proof (induction rule: desk_step.induct)
  case (6 s ev i)
  then show ?case unfolding reserve_slot_for_participant_def reserve_slot_def
    by (intro conjI grows_chain) simp_all
next
  case (7 s i now inp)
  then show ?case by (simp add: execute_pickup_tables)
next
  case (8 s w i now org ev staff path body k)
  show ?case unfolding create_pickup_def Let_def
    by (intro conjI) (auto intro!: grows_chain grows_trans [OF _ store_grows(1)] simp: execute_pickup_tables store_grows(2)
        split: option.split)
next
  case 9
  then show ?case unfolding create_proxy_authorization_def by (intro conjI grows_chain) simp_all
next
  case 10
  then show ?case unfolding create_problem_case_def by (intro conjI grows_chain) (simp_all split: option.split)
next
  case 11
  then show ?case unfolding update_problem_case_status_def by (intro conjI grows_chain) simp_all
qed (simp_all add: create_counter_def update_counter_def create_slot_def)

lemma reachable_grows: "desk_step\<^sup>*\<^sup>* s s' \<Longrightarrow> grows (pickups s) (pickups s') \<and> grows (idem_keys s) (idem_keys s')"
  by (induction rule: rtranclp_induct) (auto dest: step_grows intro: grows_trans)

text \<open>C16: Once a pack was handed out, no later request hands out a pack for the same ticket, whatever happens in
  between.\<close>

theorem pack_handed_out_once:
  assumes "execute_pickup i now inp s = (Inr r, s1)" "desk_step\<^sup>*\<^sup>* s1 s2" "in_ticket inp2 = in_ticket inp"
  shows "\<exists>e. execute_pickup i2 now2 inp2 s2 = (Inl e, s2)"
proof -
  from pickup_effect [OF assms(1)] have "r \<in> set (pickups s1)" "active_for (in_ticket inp) r"
    by (auto simp: active_for_def pickup_row_def)
  with reachable_grows [OF assms(2)] have act: "has_active_pickup (in_ticket inp) s2"
    by (auto simp: active_pickup_iff grows_def)
  show ?thesis
  proof (cases "execute_pickup i2 now2 inp2 s2")
    case (Pair a t)
    then show ?thesis using pickup_effect [of i2 now2 inp2 s2 _ t] refused_pickup_changes_nothing [of i2 now2 inp2 s2 _ t] act assms(3)
      by (cases a) auto
  qed
qed

section \<open>Slots\<close>

definition packs_of :: "uuid \<Rightarrow> desk \<Rightarrow> nat" where
  "packs_of i s = cnt (\<lambda>p. pk_slot p = Some i) (pickups s)"

definition slots_cover :: "desk \<Rightarrow> bool" where
  "slots_cover s \<longleftrightarrow> (\<forall>p \<in> set (pickups s). references (pk_slot p) (sl_id ` set (slots s))) \<and>
     (\<forall>x \<in> set (slots s). int (packs_of (sl_id x) s) \<le> sl_reserved x)"

lemma slots_cover_cong: "slots s' = slots s \<Longrightarrow> pickups s' = pickups s \<Longrightarrow> slots_cover s' = slots_cover s"
  by (simp add: slots_cover_def packs_of_def)

lemma cover_upd_slots:
  assumes "slots_cover s" "\<And>x. sl_id (f x) = sl_id x" "\<And>x. sl_reserved x \<le> sl_reserved (f x)"
  shows "slots_cover (s\<lparr>slots := upd P f (slots s)\<rparr>)"
proof -
  have "sl_id ` set (upd P f (slots s)) = sl_id ` set (slots s)" 
    using map_upd [of sl_id f P "slots s"] assms(2) by (metis set_map)
  moreover have "int (packs_of (sl_id (f x)) s) \<le> sl_reserved (f x)" if "x \<in> set (slots s)" for x
    using that assms(1,3) by (auto simp: slots_cover_def assms(2) intro: order_trans)
  ultimately show ?thesis using assms(1) by (auto simp: slots_cover_def packs_of_def ball_upd)
qed

lemma cover_increment: "slots_cover s \<Longrightarrow> slots_cover (snd (increment_racepack_pickup_slot_reserved i s))"
  by (auto simp: increment_racepack_pickup_slot_reserved_def upd_one_def intro: cover_upd_slots split: option.split)

lemma cover_update_slot: "slots_cover s \<Longrightarrow> slots_cover (snd (update_racepack_pickup_slot i name date st en cap act s))"
  by (auto simp: update_racepack_pickup_slot_def Let_def intro: cover_upd_slots split: option.split)

lemma cover_create_slot:
  assumes "slots_cover s" "0 \<le> sl_reserved x"
  shows "slots_cover (snd (create_racepack_pickup_slot x s))"
proof -
  have "packs_of (sl_id x) s = 0" if "sl_id x \<notin> sl_id ` set (slots s)"
    using that assms(1) by (auto simp: packs_of_def cnt_0_iff slots_cover_def references_def)
  then show ?thesis using assms
    by (auto simp: create_racepack_pickup_slot_def slots_cover_def packs_of_def references_def split: option.split)
qed

lemma cover_execute:
  assumes "slots_cover s" "desk_ok s"
  shows "slots_cover (snd (execute_pickup i now inp s))"
proof (cases "execute_pickup i now inp s")
  case (Pair a t)
  show ?thesis
  proof (cases a)
    case (Inl e)
    then show ?thesis using Pair refused_pickup_changes_nothing [of i now inp s e t] assms(1) by simp
  next
    case (Inr r)
    from pickup_effect [of i now inp s r t] Pair Inr obtain x where x: "slot_open (in_event inp) (in_slot inp) now s"
      "r = pickup_row i now inp x" "t = pickup_audit inp r (s\<lparr>slots := slot_taken (in_slot inp) (slots s), pickups := pickups s @ [r]\<rparr>)"
      by auto
    have slot: "pk_slot r = in_slot inp" by (simp add: x(2) pickup_row_def)
    have ids: "sl_id ` set (slot_taken sl xs) = sl_id ` set xs" for sl xs
    proof (cases sl)
      case (Some k)
      have "map sl_id (slot_taken (Some k) xs) = map sl_id xs" unfolding slot_taken_def by (simp add: map_upd)
      with Some show ?thesis by (metis set_map)
    qed (simp add: slot_taken_def)
    have known: "references (in_slot inp) (sl_id ` set (slots s))" using x(1) by (auto simp: slot_open_def split: option.splits)
    have "int (packs_of (sl_id y) (s\<lparr>pickups := pickups s @ [r]\<rparr>)) \<le> sl_reserved y" if "y \<in> set (slot_taken (in_slot inp) (slots s))" for y
    proof (cases "in_slot inp")
      case None
      then show ?thesis using that assms(1) slot by (simp add: slot_taken_def slots_cover_def packs_of_def)
    next
      case (Some k)
      from x(1) Some obtain z where z: "z \<in> set (slots s)" "sl_id z = k" "sl_reserved z < sl_capacity z" by (auto simp: slot_open_def)
      have one: "v = z" if "v \<in> set (slots s)" "sl_id v = k" for v
        using that z assms(2) by (auto simp: desk_ok_def distinct_map intro: inj_onD)
      have cov: "int (packs_of (sl_id v) s) \<le> sl_reserved v" if "v \<in> set (slots s)" for v using that assms(1) by (simp add: slots_cover_def)
      from that Some obtain v where v: "v \<in> set (slots s)"
        "y = (if sl_id v = k \<and> sl_reserved v < sl_capacity v then v\<lparr>sl_reserved := sl_reserved v + 1\<rparr> else v)"
        by (auto simp: slot_taken_def set_upd)
      have new: "packs_of j (s\<lparr>pickups := pickups s @ [r]\<rparr>) = packs_of j s + of_bool (j = k)" for j
        using slot Some by (auto simp: packs_of_def)
      show ?thesis
      proof (cases "sl_id v = k")
        case True
        with one [OF v(1)] z(3) v(2) have "sl_id y = k" "sl_reserved y = sl_reserved v + 1" by simp_all
        with cov [OF v(1)] True show ?thesis by (simp only: new) simp
      next
        case False
        with v(2) have "y = v" by simp
        with cov [OF v(1)] False show ?thesis by (simp only: new) simp
      qed
    qed
    then have "slots_cover (s\<lparr>slots := slot_taken (in_slot inp) (slots s), pickups := pickups s @ [r]\<rparr>)"
      using assms(1) known slot by (simp add: slots_cover_def packs_of_def ids)
    then show ?thesis using Pair Inr x(3) by (simp add: slots_cover_cong [of "pickup_audit inp r _"] slots_cover_def packs_of_def)
  qed
qed

lemma cover_chain:
  "slots_cover (snd m) \<Longrightarrow> (\<And>a t. m = (Inr a, t) \<Longrightarrow> slots_cover t \<Longrightarrow> slots_cover (snd (k a t))) \<Longrightarrow> slots_cover (snd (and_then m k))"
  by (rule and_then_inv)

lemma keeps_slots [simp]:
  "slots (snd (create_racepack_counter c s)) = slots s"
  "slots (snd (update_racepack_counter i name loc act s)) = slots s"
  "slots (snd (set_racepack_counter_active i act s)) = slots s"
  "slots (snd (create_racepack_proxy_authorization y s)) = slots s"
  "slots (snd (create_racepack_problem_case z s)) = slots s"
  "slots (snd (update_racepack_problem_case_status i sta res u now s)) = slots s"
  "slots (store_idempotency jsonb ke sc h stat b s) = slots s"
  by (simp_all add: create_racepack_counter_def update_racepack_counter_def set_racepack_counter_active_def Let_def
      create_racepack_proxy_authorization_def create_racepack_problem_case_def update_racepack_problem_case_status_def
      store_idempotency_def insert_idempotency_key_def split: option.split)

lemma cover_audit [simp]: "slots_cover (desk_audit a t s) = slots_cover s" "slots_cover (pickup_audit inp r s) = slots_cover s"
  by (rule slots_cover_cong; simp)+

lemma step_cover: "desk_step s s' \<Longrightarrow> desk_ok s \<Longrightarrow> slots_cover s \<Longrightarrow> slots_cover s'"
proof (induction rule: desk_step.induct)
  case 4
  then show ?case unfolding create_slot_def by (intro cover_create_slot) simp_all
next
  case 5
  then show ?case by (intro cover_update_slot)
next
  case 6
  then show ?case unfolding reserve_slot_for_participant_def reserve_slot_def
    by (intro cover_chain) (simp_all add: cover_increment)
next
  case 7
  then show ?case by (intro cover_execute)
next
  case (8 s w i now org ev staff path body k)
  have "slots_cover (store_idempotency jsonb k sc h st b t)" if "slots_cover t" for jsonb sc h st b t
    using that by (subst slots_cover_cong [of _ t]) (simp_all add: store_grows(2))
  then show ?case using 8 unfolding create_pickup_def Let_def
    by (auto intro!: cover_chain cover_execute split: option.split)
next
  case 9
  then show ?case unfolding create_proxy_authorization_def
    by (intro cover_chain) (simp_all add: slots_cover_cong [of "snd (create_racepack_proxy_authorization _ _)"])
next
  case 10
  then show ?case unfolding create_problem_case_def
    by (intro cover_chain) (simp_all add: slots_cover_cong [of "snd (create_racepack_problem_case _ _)"] split: option.split)
next
  case 11
  then show ?case unfolding update_problem_case_status_def
    by (intro cover_chain) (simp_all add: slots_cover_cong [of "snd (update_racepack_problem_case_status _ _ _ _ _ _)"])
qed (simp_all add: create_counter_def update_counter_def slots_cover_def packs_of_def)

text \<open>C17: A pickup slot never hands out more packs than its capacity.\<close>

theorem no_slot_overfilled:
  assumes "desk_step\<^sup>*\<^sup>* s s'" "desk_ok s" "slots_cover s" "x \<in> set (slots s')"
  shows "int (packs_of (sl_id x) s') \<le> sl_capacity x"
proof -
  have "desk_ok s' \<and> slots_cover s'" using assms(1)
    by (induction rule: rtranclp_induct) (auto intro: assms(2,3) desk_step_ok step_cover)
  with assms(4) show ?thesis by (force simp: desk_ok_def slots_cover_def slot_check_None)
qed

section \<open>Problem cases\<close>

lemma transition_ok: "validate_state_transition from to = Inr u \<Longrightarrow>
    \<not> closes_case from \<and> to \<in> set case_statuses \<and> to \<noteq> ''OPEN''"
  by (auto simp: validate_state_transition_def closes_case_def case_statuses_def split: if_splits)

lemma keeps_problems [simp]:
  "problems (snd (create_racepack_counter c s)) = problems s"
  "problems (snd (update_racepack_counter i name loc act s)) = problems s"
  "problems (snd (set_racepack_counter_active i act s)) = problems s"
  "problems (snd (create_racepack_pickup_slot x s)) = problems s"
  "problems (snd (update_racepack_pickup_slot i name date st en cap act s)) = problems s"
  "problems (snd (increment_racepack_pickup_slot_reserved i s)) = problems s"
  "problems (snd (create_racepack_proxy_authorization y s)) = problems s"
  "problems (store_idempotency jsonb ke sc h stat b s) = problems s"
  "problems (snd (reserve_slot_for_participant ev i s)) = problems s"
  by (simp_all add: create_racepack_counter_def update_racepack_counter_def set_racepack_counter_active_def Let_def
      create_racepack_pickup_slot_def update_racepack_pickup_slot_def increment_racepack_pickup_slot_reserved_def
      create_racepack_proxy_authorization_def reserve_slot_for_participant_def reserve_slot_def and_then_def upd_one_def
      store_idempotency_def insert_idempotency_key_def split: option.split prod.split sum.split)

lemma execute_keeps_problems [simp]: "problems (snd (execute_pickup i now inp s)) = problems s"
proof (cases "execute_pickup i now inp s")
  case (Pair a t)
  then show ?thesis using pickup_effect [of i now inp s _ t] refused_pickup_changes_nothing [of i now inp s _ t]
    by (cases a) auto
qed

lemma closed_case_stays:
  "desk_step s s' \<Longrightarrow> desk_ok s \<Longrightarrow> x \<in> set (problems s) \<Longrightarrow> closes_case (pc_status x) \<Longrightarrow> x \<in> set (problems s')"
proof (induction rule: desk_step.induct)
  case (8 s w i now org ev staff path body k)
  then show ?case by (simp add: create_pickup_def Let_def and_then_def split: option.split prod.split sum.split)
    (metis execute_keeps_problems snd_conv)
next
  case (9 s i org ev t by' pk name phone ident doc)
  have "problems (snd (create_proxy_authorization i org ev t by' pk name phone ident doc s)) = problems s"
    unfolding create_proxy_authorization_def
    by (rule and_then_inv [where I = "\<lambda>z. problems z = problems s"], simp, rule and_then_inv [where I = "\<lambda>z. problems z = problems s"]) simp_all
  with 9 show ?case by simp
next
  case (10 s i org ev by' t' u reason)
  have "grows (problems s) (problems (snd (create_problem_case i org ev by' t' u reason s)))"
    unfolding create_problem_case_def
    by (intro grows_chain) (auto simp: create_racepack_problem_case_def grows_def split: option.split)
  with 10 show ?case by (auto simp: grows_def)
next
  case (11 s i actor to resolution now)
  show ?case
  proof (cases "fst (update_problem_case_status i actor to resolution now s)")
    case (Inl e)
    then have "problems (snd (update_problem_case_status i actor to resolution now s)) = problems s"
      unfolding update_problem_case_status_def
      by (auto simp: and_then_def update_racepack_problem_case_status_def upd_one_def found_def split: option.splits sum.splits prod.splits if_splits)
    with 11 show ?thesis by simp
  next
    case (Inr r)
    then obtain c where c: "get_racepack_problem_case_by_id i s = Some c" "validate_state_transition (pc_status c) to = Inr ()"
      and new: "problems (snd (update_problem_case_status i actor to resolution now s)) =
        upd (\<lambda>x. pc_id x = i) (moved_case to (Some resolution) actor now) (problems s)"
      unfolding update_problem_case_status_def
      by (auto simp: and_then_def update_racepack_problem_case_status_def upd_one_def found_def split: option.splits sum.splits prod.splits if_splits)
    have "c \<in> set (problems s)" "pc_id c = i" using c(1) by (auto simp: get_racepack_problem_case_by_id_def dest: sel_SomeD)
    then have "pc_id x \<noteq> i" using 11 transition_ok [OF c(2)] by (auto simp: desk_ok_def distinct_map dest: inj_onD)
    then show ?thesis using 11(2) new by (auto intro: upd_keeps)
  qed
qed (simp_all add: create_counter_def update_counter_def create_slot_def)

text \<open>A problem case that is resolved or escalated is never changed again.\<close>

theorem closed_case_is_final:
  assumes "desk_step\<^sup>*\<^sup>* s s'" "desk_ok s" "x \<in> set (problems s)" "closes_case (pc_status x)"
  shows "x \<in> set (problems s')"
proof -
  have "desk_ok s' \<and> x \<in> set (problems s')" using assms(1)
    by (induction rule: rtranclp_induct) (auto intro: assms(2,3) desk_step_ok closed_case_stays [OF _ _ _ assms(4)])
  then show ?thesis by simp
qed

section \<open>Retries\<close>

lemma execute_keeps_keys [simp]: "idem_keys (snd (execute_pickup i now inp s)) = idem_keys s"
  by (rule execute_pickup_tables(2))

lemma lookup_after_growth:
  "grows (idem_keys s) (idem_keys s') \<Longrightarrow> get_idempotency_key k sc s = Some x \<Longrightarrow> get_idempotency_key k sc s' = Some x"
  by (auto simp: get_idempotency_key_def grows_def sel_append)

text \<open>What is stored for a key after a request that succeeded.\<close>

lemma stored_answer:
  assumes "create_pickup w i now org ev staff path body k s = (Inr a, s1)" "k \<noteq> ''''"
  shows "\<exists>x. get_idempotency_key k pickup_scope s1 = Some x \<and> ik_hash x = hash_request (wi_sha w) ''POST'' path body \<and>
    wi_decode w body \<noteq> None \<and> ik_status x = fst a"
proof -
  from assms(1) obtain b where b: "wi_decode w body = Some b" by (auto simp: create_pickup_def split: option.splits)
  let ?h = "hash_request (wi_sha w) ''POST'' path body"
  show ?thesis
  proof (cases "get_idempotency_key k pickup_scope s")
    case (Some x)
    then show ?thesis using assms b by (auto simp: create_pickup_def Let_def lookup_idempotency_def split: if_splits)
  next
    case None
    then obtain r t where r: "execute_pickup i now (pickup_request org ev staff b) s = (Inr r, t)"
      "a = (201, wi_json w r)" "s1 = store_idempotency (wi_jsonb w) k pickup_scope ?h 201 (wi_json w r) t"
      using assms b by (auto simp: create_pickup_def Let_def lookup_idempotency_def and_then_Inr)
    have "idem_keys t = idem_keys s" using execute_keeps_keys [of i now "pickup_request org ev staff b" s] r(1) by simp
    with None have no: "sel (\<lambda>x. ik_key x = k \<and> ik_scope x = pickup_scope) (idem_keys t) = None" by (simp add: get_idempotency_key_def)
    then show ?thesis using r assms(2) b
      by (simp add: store_idempotency_def insert_idempotency_key_def get_idempotency_key_def Let_def sel_append)
  qed
qed

text \<open>A request that is sent again with its idempotency key is answered from the stored response with the
  status of the first answer and changes nothing; the same key with another payload is refused.\<close>

theorem retry_is_answered_from_store:
  assumes "create_pickup w i now org ev staff path body k s = (Inr a, s1)" "k \<noteq> ''''" "desk_step\<^sup>*\<^sup>* s1 s2"
  shows "(\<exists>txt. create_pickup w i2 now2 org2 ev2 staff2 path body k s2 = (Inr (fst a, txt), s2)) \<and>
    (hash_request (wi_sha w) ''POST'' path2 body2 \<noteq> hash_request (wi_sha w) ''POST'' path body \<longrightarrow> wi_decode w body2 \<noteq> None \<longrightarrow>
       create_pickup w i2 now2 org2 ev2 staff2 path2 body2 k s2 = (Inl ErrIdempotencyConflict, s2))"
proof -
  from stored_answer [OF assms(1,2)] obtain x where x: "get_idempotency_key k pickup_scope s1 = Some x"
    "ik_hash x = hash_request (wi_sha w) ''POST'' path body" "wi_decode w body \<noteq> None" "ik_status x = fst a" by auto
  then have "get_idempotency_key k pickup_scope s2 = Some x" using lookup_after_growth reachable_grows [OF assms(3)] by blast
  with x assms(2) show ?thesis by (auto simp: create_pickup_def lookup_idempotency_def Let_def)
qed

section \<open>Eligibility\<close>

text \<open>For a ticket of the event, the eligibility check and the re-check on the locked row decide alike, and give
  the same error.\<close>

theorem eligibility_agrees_with_recheck:
  assumes "lock_ticket_for_update t s = Some x" "t_event x = ev"
  shows "fst (recheck ev x s) = (case can_pickup t slot now s of Inl e \<Rightarrow> Inl e | Inr _ \<Rightarrow> Inr ())"
proof -
  have id: "t_id x = t" and get: "get_ticket_by_id t (pbase s) = Some x"
    using assms(1) by (auto simp: lock_ticket_for_update_def get_ticket_by_id_def dest: sel_SomeD)
  show ?thesis using assms(2)
    by (auto simp: can_pickup_def recheck_def get_ticket_status_def get id require_def and_then_def split: option.split sum.split)
qed

text \<open>A ticket without a participant is never picked up: the record needs a user.\<close>

theorem guest_ticket_is_never_picked_up:
  assumes "lock_ticket_for_update (in_ticket inp) s = Some x" "t_participant x = None" "\<not> user_known nil_uuid s"
  shows "\<exists>e. execute_pickup i now inp s = (Inl e, s)"
proof (cases "execute_pickup i now inp s")
  case (Pair a t)
  then show ?thesis using pickup_effect [of i now inp s _ t] refused_pickup_changes_nothing [of i now inp s _ t] assms
    by (cases a) (auto simp: pickup_row_def)
qed

text \<open>A reservation through the wrong event is refused and still takes the place.\<close>

theorem refused_reservation_takes_place:
  assumes "increment_racepack_pickup_slot_reserved i s = (Inr x, s')" "sl_event x \<noteq> ev"
  shows "reserve_slot_for_participant ev i s = (Inl ErrSlotNotFound, s')"
  using assms by (simp add: reserve_slot_for_participant_def reserve_slot_def)

section \<open>Examples\<close>

definition runner :: "uuid \<Rightarrow> uuid option \<Rightarrow> ticket" where
  "runner i u = \<lparr> t_id = i, t_org = 1, t_event = 2, t_category = 3, t_order = 40 + i, t_participant = u, t_number = [char_of (65 + i)],
     t_status = TixValid, t_holder_name = ''R'', t_holder_email = ''r'', t_event_title = ''E'', t_category_name = ''C'',
     t_qr_version = 1, t_form_answers = '''', t_used_at = None, t_bib = Some [char_of (97 + i)], t_bib_assigned_at = None,
     t_bib_assigned_by = None, t_bib_method = Some BibAuto \<rparr>"

definition pack_order :: "uuid \<Rightarrow> order" where
  "pack_order i = \<lparr> o_id = i, o_org = 1, o_event = 2, o_category = 3, o_participant = Some 7, o_number = [char_of i],
     o_status = OrdPaid, o_subtotal = 10, o_fee = 0, o_discount = 0, o_total = 10, o_expired_at = None,
     o_guest_email = None, o_guest_name = None, o_guest_phone = None, o_terms_accepted_at = None,
     o_terms_version = None, o_waiver_accepted_at = None, o_waiver_version = None, o_form_answers = '''',
     o_refunded_amount = 0, o_refund_reason = None, o_refunded_at = None \<rparr>"

definition desk_user :: "uuid \<Rightarrow> user" where
  "desk_user i = \<lparr> u_id = i, u_full_name = ''U'', u_email = [char_of i], u_membership = None \<rparr>"

text \<open>Event 2 of organization 1, two runners with their paid orders, a counter, and a slot with one place.\<close>

definition desk_start :: desk where
  "desk_start = \<lparr>
     pbase = empty_db\<lparr>events := [\<lparr> e_id = 2, e_org = 1, e_name = ''Run'', e_status = ''PUBLISHED'' \<rparr>],
       users := map desk_user [7, 8, 50], orders := map pack_order [41, 42, 43],
       tickets := [runner 1 (Some 7), runner 2 (Some 8), runner 3 None]\<rparr>,
     counters = [\<lparr> ct_id = 20, ct_org = 1, ct_event = 2, ct_name = ''A'', ct_location = None, ct_active = True \<rparr>],
     slots = [\<lparr> sl_id = 30, sl_org = 1, sl_event = 2, sl_name = ''AM'', sl_date = 0, sl_start = 100, sl_end = 200,
       sl_capacity = 1, sl_reserved = 0, sl_active = True \<rparr>],
     pickups = [], proxies = [],
     problems = [\<lparr> pc_id = 60, pc_org = 1, pc_event = 2, pc_ticket = Some 1, pc_participant = None, pc_status = ''RESOLVED'',
       pc_reason = ''lost'', pc_resolution = Some ''found'', pc_created_by = 50, pc_resolved_by = Some 50, pc_resolved_at = Some 1 \<rparr>],
     idem_keys = [] \<rparr>"

definition at_desk :: "uuid \<Rightarrow> uuid option \<Rightarrow> pickup_input" where
  "at_desk t slot = \<lparr> in_org = 1, in_event = 2, in_ticket = t, in_counter = 20, in_slot = slot, in_staff = 50,
     in_method = ''SELF'', in_notes = '''' \<rparr>"

lemma desk_start_ok: "desk_ok desk_start" "slots_cover desk_start"
  by (simp_all add: desk_ok_def slots_cover_def desk_start_def slot_check_def packs_of_def case_statuses_def)

definition served :: desk where
  "served = snd (execute_pickup 70 150 (at_desk 1 (Some 30)) desk_start)"

lemma served_run: "\<exists>r. execute_pickup 70 150 (at_desk 1 (Some 30)) desk_start = (Inr r, served)"
proof -
  have "case fst (execute_pickup 70 150 (at_desk 1 (Some 30)) desk_start) of Inl _ \<Rightarrow> False | Inr _ \<Rightarrow> True" by code_simp
  then show ?thesis unfolding served_def
    by (cases "execute_pickup 70 150 (at_desk 1 (Some 30)) desk_start") (auto split: sum.splits)
qed

theorem pickup_exact_witness:
  "\<exists>r x. r = pickup_row 70 150 (at_desk 1 (Some 30)) x \<and> t_event x = 2 \<and> pickups served = [r]"
proof -
  obtain r where r: "execute_pickup 70 150 (at_desk 1 (Some 30)) desk_start = (Inr r, served)" using served_run by blast
  have "\<exists>x. t_event x = in_event (at_desk 1 (Some 30)) \<and> r = pickup_row 70 150 (at_desk 1 (Some 30)) x \<and>
      pickups served = pickups desk_start @ [r]"
    using pickup_exact [OF r] by (elim exE conjE) (drule arg_cong [of served _ pickups], intro exI conjI, assumption, assumption, simp)
  then obtain x where x: "t_event x = in_event (at_desk 1 (Some 30))"
    "r = pickup_row 70 150 (at_desk 1 (Some 30)) x" "pickups served = pickups desk_start @ [r]" by blast
  moreover have "in_event (at_desk 1 (Some 30)) = 2" "pickups desk_start = []" by (simp_all add: at_desk_def desk_start_def)
  ultimately have "t_event x = 2" "pickups served = [r]" by simp_all
  with x(2) show ?thesis by blast
qed

theorem pack_handed_out_once_witness:
  "\<exists>e. execute_pickup 71 160 (at_desk 1 None) (snd (reserve_slot_for_participant 2 30 served)) =
     (Inl e, snd (reserve_slot_for_participant 2 30 served))"
proof -
  obtain r where r: "execute_pickup 70 150 (at_desk 1 (Some 30)) desk_start = (Inr r, served)" using served_run by blast
  have "desk_step served (snd (reserve_slot_for_participant 2 30 served))" by (rule desk_step.intros)
  then have "desk_step\<^sup>*\<^sup>* served (snd (reserve_slot_for_participant 2 30 served))" by simp
  then show ?thesis by (rule pack_handed_out_once [OF r]) (simp add: at_desk_def)
qed

theorem reachable_desk_ok_witness: "desk_ok served"
proof (rule reachable_desk_ok)
  have "desk_step desk_start served" unfolding served_def by (rule desk_step.intros)
  then show "desk_step\<^sup>*\<^sup>* desk_start served" by simp
qed (rule desk_start_ok)

theorem no_slot_overfilled_witness: "int (packs_of 30 served) \<le> 1"
proof -
  have "desk_step desk_start served" unfolding served_def by (rule desk_step.intros)
  then have r: "desk_step\<^sup>*\<^sup>* desk_start served" by simp
  have "length (slots served) = 1 \<and> sl_id (slots served ! 0) = 30 \<and> sl_capacity (slots served ! 0) = 1" by code_simp
  then have "slots served ! 0 \<in> set (slots served)" "sl_id (slots served ! 0) = 30" "sl_capacity (slots served ! 0) = 1" by simp_all
  then show ?thesis using no_slot_overfilled [OF r desk_start_ok, of "slots served ! 0"] by simp
qed

theorem closed_case_is_final_witness:
  "problems desk_start ! 0 \<in> set (problems (snd (update_problem_case_status 60 50 ''ESCALATED'' ''x'' 9 desk_start)))"
proof (rule closed_case_is_final [OF _ desk_start_ok(1)])
  have "desk_step desk_start (snd (update_problem_case_status 60 50 ''ESCALATED'' ''x'' 9 desk_start))" by (rule desk_step.intros)
  then show "desk_step\<^sup>*\<^sup>* desk_start (snd (update_problem_case_status 60 50 ''ESCALATED'' ''x'' 9 desk_start))" by simp
qed (simp_all add: desk_start_def closes_case_def)

definition demo_wire :: wire where
  "demo_wire = \<lparr> wi_sha = (\<lambda>x. x), wi_decode = (\<lambda>x. if x = ''bad'' then None else
       Some \<lparr> pb_ticket = (0, 1), pb_counter = (20, 0), pb_slot = (None, None), pb_method = '' self '', pb_notes = '''' \<rparr>),
     wi_json = (\<lambda>p. pk_bib p), wi_jsonb = (\<lambda>x. x) \<rparr>"

definition posted :: desk where
  "posted = snd (create_pickup demo_wire 70 150 1 2 50 ''/pickups'' ''ok'' ''K'' desk_start)"

theorem retry_is_answered_from_store_witness:
  "(\<exists>txt. create_pickup demo_wire 71 160 1 2 50 ''/pickups'' ''ok'' ''K'' posted = (Inr (201, txt), posted)) \<and>
   create_pickup demo_wire 71 160 1 2 50 ''/pickups'' ''other'' ''K'' posted = (Inl ErrIdempotencyConflict, posted)"
proof -
  have "case fst (create_pickup demo_wire 70 150 1 2 50 ''/pickups'' ''ok'' ''K'' desk_start) of Inl _ \<Rightarrow> False | Inr a \<Rightarrow> fst a = 201"
    by code_simp
  then obtain a where a: "create_pickup demo_wire 70 150 1 2 50 ''/pickups'' ''ok'' ''K'' desk_start = (Inr a, posted)" "fst a = 201"
    unfolding posted_def
    by (cases "create_pickup demo_wire 70 150 1 2 50 ''/pickups'' ''ok'' ''K'' desk_start") (auto split: sum.splits)
  have "hash_request (wi_sha demo_wire) ''POST'' ''/pickups'' ''other'' \<noteq> hash_request (wi_sha demo_wire) ''POST'' ''/pickups'' ''ok''"
    "wi_decode demo_wire ''other'' \<noteq> None" by code_simp+
  with retry_is_answered_from_store [OF a(1) _ rtranclp.rtrancl_refl, of 71 160 1 2 50 "''/pickups''" "''other''"] a(2)
  show ?thesis by simp
qed

theorem eligibility_agrees_with_recheck_witness:
  "fst (recheck 2 (runner 1 (Some 7)) served) = (case can_pickup 1 30 150 served of Inl e \<Rightarrow> Inl e | Inr _ \<Rightarrow> Inr ())"
proof (rule eligibility_agrees_with_recheck)
  show "lock_ticket_for_update 1 served = Some (runner 1 (Some 7))" by code_simp
  show "t_event (runner 1 (Some 7)) = 2" by (simp add: runner_def)
qed

theorem guest_ticket_is_never_picked_up_witness:
  "\<exists>e. execute_pickup 70 150 (at_desk 3 None) desk_start = (Inl e, desk_start)"
proof (rule guest_ticket_is_never_picked_up)
  show "lock_ticket_for_update (in_ticket (at_desk 3 None)) desk_start = Some (runner 3 None)" by code_simp
  show "t_participant (runner 3 None) = None" by (simp add: runner_def)
  show "\<not> user_known nil_uuid desk_start" by code_simp
qed

text \<open>A participant who reserves the last place of a slot cannot pick up in it: the pickup counts a second
  place.\<close>

theorem reservation_blocks_its_own_pickup:
  "(case fst (reserve_slot_for_participant 2 30 desk_start) of Inl _ \<Rightarrow> False | Inr _ \<Rightarrow> True) \<and>
   fst (execute_pickup 70 150 (at_desk 1 (Some 30)) (snd (reserve_slot_for_participant 2 30 desk_start))) = Inl ErrSlotFull"
  by code_simp

text \<open>Neither the event nor the counter is compared with the organization of the request: organization 9 opens a
  counter in the event of organization 1 and hands out its packs.\<close>

theorem foreign_organization_hands_out_packs:
  "(let s = snd (create_counter 21 9 2 ''B'' '''' True desk_start)
    in case execute_pickup 70 150 ((at_desk 1 None)\<lparr>in_org := 9, in_counter := 21\<rparr>) s of
         (Inl _, _) \<Rightarrow> False
       | (Inr r, s2) \<Rightarrow> pk_org r = 9 \<and> assert_event_in_org 2 9 s2 = Inl ErrPackTicketNotFound)"
  by code_simp

text \<open>An offset above the 32-bit range becomes negative and fails the statement.\<close>

theorem large_offset_fails:
  "pagination_from_query [] (dec 2147483648) = (50, - 2147483648) \<and>
   list_racepack_pickup_records_by_event ev 50 (- 2147483648) s = Inl (PlainErr ''OFFSET must not be negative'')"
proof -
  have "parse_int64 (dec 2147483648) = Some 2147483648" using parse_int64_digits [of "dec 2147483648" 2147483648] by (simp add: dec_val_dec)
  moreover have "int32 2147483648 = - 2147483648" by (simp add: int32_def)
  ultimately show ?thesis by (simp add: pagination_from_query_def list_racepack_pickup_records_by_event_def page_def)
qed

end
