(* ===== verification/OrgSchema.thy ===== *)
theory OrgSchema
  imports Racepack
begin

text \<open>
  Organizations, their members and the roles and permissions of members (migrations 2 to 4) with their
  queries (\<open>db/organizations.sql.go\<close>, \<open>members.sql.go\<close>, \<open>roles.sql.go\<close>, \<open>users.sql.go\<close>, \<open>scanner.sql.go\<close>). Deleting a
  row cascades over its link rows, as the foreign keys say.
\<close>

record organization =
  or_id :: uuid
  or_name :: string
  or_slug :: string

record org_member =
  mb_id :: uuid
  mb_org :: uuid
  mb_user :: uuid

record role =
  rl_id :: uuid
  rl_org :: "uuid option"
  rl_name :: string
  rl_slug :: string
  rl_system :: bool

record permission =
  pm_id :: uuid
  pm_key :: string
  pm_description :: string

text \<open>The link tables are lists of pairs: role and permission, member and role.\<close>

record tenancy =
  tdesk :: desk
  orgs :: "organization list"
  org_members :: "org_member list"
  roles :: "role list"
  permissions :: "permission list"
  role_permissions :: "(uuid \<times> uuid) list"
  member_roles :: "(uuid \<times> uuid) list"

abbreviation tdb :: "tenancy \<Rightarrow> db" where "tdb s \<equiv> pbase (tdesk s)"

definition with_db :: "db \<Rightarrow> tenancy \<Rightarrow> tenancy" where
  "with_db b s = s\<lparr>tdesk := (tdesk s)\<lparr>pbase := b\<rparr>\<rparr>"

section \<open>Users and organizations\<close>

text \<open>The e-mail column is \<open>citext\<close>.\<close>

definition get_user_by_email :: "string \<Rightarrow> tenancy \<Rightarrow> user option" where
  "get_user_by_email em s = sel (\<lambda>u. lower (u_email u) = lower em) (users (tdb s))"

definition get_user_by_id :: "uuid \<Rightarrow> tenancy \<Rightarrow> user option" where
  "get_user_by_id i s = sel (\<lambda>u. u_id u = i) (users (tdb s))"

definition create_user :: "user \<Rightarrow> tenancy \<Rightarrow> user res \<times> tenancy" where
  "create_user u s =
     (if u_id u \<in> u_id ` set (users (tdb s)) then (Inl (UniqueViolation ''users_pkey''), s)
      else if get_user_by_email (u_email u) s \<noteq> None then (Inl (UniqueViolation ''users_email_key''), s)
      else (Inr u, with_db ((tdb s)\<lparr>users := users (tdb s) @ [u]\<rparr>) s))"

definition create_organization :: "organization \<Rightarrow> tenancy \<Rightarrow> organization res \<times> tenancy" where
  "create_organization x s =
     (if or_id x \<in> or_id ` set (orgs s) then (Inl (UniqueViolation ''organizations_pkey''), s)
      else if or_slug x \<in> or_slug ` set (orgs s) then (Inl (UniqueViolation ''organizations_slug_key''), s)
      else (Inr x, s\<lparr>orgs := orgs s @ [x]\<rparr>))"

definition get_organization_by_id :: "uuid \<Rightarrow> tenancy \<Rightarrow> organization option" where
  "get_organization_by_id i s = sel (\<lambda>x. or_id x = i) (orgs s)"

definition get_organization_by_slug :: "string \<Rightarrow> tenancy \<Rightarrow> organization option" where
  "get_organization_by_slug sl s = sel (\<lambda>x. or_slug x = sl) (orgs s)"

definition list_organizations_for_user :: "uuid \<Rightarrow> tenancy \<Rightarrow> organization list" where
  "list_organizations_for_user u s =
     concat (map (\<lambda>x. map (\<lambda>_. x) (filter (\<lambda>m. mb_org m = or_id x \<and> mb_user m = u) (org_members s))) (orgs s))"

text \<open>Rows are created in the order of the lists, so the earliest member is the first.\<close>

record org_stats =
  os_org :: organization
  os_events :: nat
  os_members :: nat
  os_lead :: "(string \<times> string) option"

definition list_all_organizations_with_stats :: "tenancy \<Rightarrow> org_stats list" where
  "list_all_organizations_with_stats s =
     map (\<lambda>x. \<lparr> os_org = x, os_events = cnt (\<lambda>e. e_org e = or_id x) (events (tdb s)),
       os_members = cnt (\<lambda>m. mb_org m = or_id x) (org_members s),
       os_lead = (case List.map_filter (\<lambda>m. if mb_org m = or_id x then get_user_by_id (mb_user m) s else None) (org_members s) of
           [] \<Rightarrow> None | u # _ \<Rightarrow> Some (u_email u, u_full_name u)) \<rparr>) (rev (orgs s))"

section \<open>Members\<close>

definition create_member :: "org_member \<Rightarrow> tenancy \<Rightarrow> org_member res \<times> tenancy" where
  "create_member m s =
     (if mb_id m \<in> mb_id ` set (org_members s) then (Inl (UniqueViolation ''organization_members_pkey''), s)
      else if \<exists>x \<in> set (org_members s). mb_org x = mb_org m \<and> mb_user x = mb_user m then
        (Inl (UniqueViolation ''organization_members_organization_id_user_id_key''), s)
      else if mb_org m \<notin> or_id ` set (orgs s) then
        (Inl (ForeignKeyViolation ''organization_members_organization_id_fkey''), s)
      else if mb_user m \<notin> u_id ` set (users (tdb s)) then
        (Inl (ForeignKeyViolation ''organization_members_user_id_fkey''), s)
      else (Inr m, s\<lparr>org_members := org_members s @ [m]\<rparr>))"

definition get_member_by_id :: "uuid \<Rightarrow> tenancy \<Rightarrow> org_member option" where
  "get_member_by_id i s = sel (\<lambda>m. mb_id m = i) (org_members s)"

definition get_member_by_org_and_user :: "uuid \<Rightarrow> uuid \<Rightarrow> tenancy \<Rightarrow> org_member option" where
  "get_member_by_org_and_user org u s = sel (\<lambda>m. mb_org m = org \<and> mb_user m = u) (org_members s)"

definition list_members_by_org :: "uuid \<Rightarrow> tenancy \<Rightarrow> (org_member \<times> user) list" where
  "list_members_by_org org s = List.map_filter
     (\<lambda>m. if mb_org m = org then map_option (\<lambda>u. (m, u)) (get_user_by_id (mb_user m) s) else None) (org_members s)"

definition delete_member :: "uuid \<Rightarrow> uuid \<Rightarrow> tenancy \<Rightarrow> tenancy" where
  "delete_member i org s =
     (let gone = mb_id ` set (filter (\<lambda>m. mb_id m = i \<and> mb_org m = org) (org_members s))
      in s\<lparr>org_members := filter (\<lambda>m. \<not> (mb_id m = i \<and> mb_org m = org)) (org_members s),
           member_roles := filter (\<lambda>(m, r). m \<notin> gone) (member_roles s)\<rparr>)"

definition add_member_role :: "uuid \<Rightarrow> uuid \<Rightarrow> tenancy \<Rightarrow> unit res \<times> tenancy" where
  "add_member_role m r s =
     (if (m, r) \<in> set (member_roles s) then (Inr (), s)
      else if m \<notin> mb_id ` set (org_members s) then
        (Inl (ForeignKeyViolation ''member_roles_organization_member_id_fkey''), s)
      else if r \<notin> rl_id ` set (roles s) then (Inl (ForeignKeyViolation ''member_roles_role_id_fkey''), s)
      else (Inr (), s\<lparr>member_roles := member_roles s @ [(m, r)]\<rparr>))"

definition clear_member_roles :: "uuid \<Rightarrow> tenancy \<Rightarrow> tenancy" where
  "clear_member_roles m s = s\<lparr>member_roles := filter (\<lambda>(x, r). x \<noteq> m) (member_roles s)\<rparr>"

text \<open>The roles that the link rows of a member name.\<close>

definition roles_of :: "uuid \<Rightarrow> tenancy \<Rightarrow> role list" where
  "roles_of m s = filter (\<lambda>r. (m, rl_id r) \<in> set (member_roles s)) (roles s)"

definition list_roles_for_member :: "uuid \<Rightarrow> tenancy \<Rightarrow> role list" where
  "list_roles_for_member m s = sort_key rl_name (roles_of m s)"

definition member_has_role_slug :: "uuid \<Rightarrow> string \<Rightarrow> tenancy \<Rightarrow> bool" where
  "member_has_role_slug m sl s \<longleftrightarrow> (\<exists>r \<in> set (roles_of m s). rl_slug r = sl)"

definition owner_links :: "uuid \<Rightarrow> tenancy \<Rightarrow> (uuid \<times> uuid) list" where
  "owner_links org s = filter (\<lambda>(m, r). \<exists>x \<in> set (roles s). rl_id x = r \<and> rl_org x = Some org \<and> rl_slug x = ''owner'') (member_roles s)"

definition count_owners_in_org :: "uuid \<Rightarrow> tenancy \<Rightarrow> nat" where
  "count_owners_in_org org s = length (remdups (map fst (owner_links org s)))"

definition list_permissions_for_member :: "uuid \<Rightarrow> tenancy \<Rightarrow> string list" where
  "list_permissions_for_member m s =
     remdups (map pm_key (filter (\<lambda>p. \<exists>(x, r) \<in> set (member_roles s). x = m \<and> (r, pm_id p) \<in> set (role_permissions s)) (permissions s)))"

section \<open>Roles\<close>

definition create_role :: "role \<Rightarrow> tenancy \<Rightarrow> role res \<times> tenancy" where
  "create_role r s =
     (if rl_id r \<in> rl_id ` set (roles s) then (Inl (UniqueViolation ''roles_pkey''), s)
      else if \<exists>x \<in> set (roles s). rl_org x = rl_org r \<and> rl_slug x = rl_slug r then
        (Inl (UniqueViolation ''roles_organization_id_slug_key''), s)
      else if \<not> references (rl_org r) (or_id ` set (orgs s)) then
        (Inl (ForeignKeyViolation ''roles_organization_id_fkey''), s)
      else (Inr r, s\<lparr>roles := roles s @ [r]\<rparr>))"

definition get_role_by_id :: "uuid \<Rightarrow> tenancy \<Rightarrow> role option" where
  "get_role_by_id i s = sel (\<lambda>r. rl_id r = i) (roles s)"

definition get_role_by_org_and_slug :: "uuid \<Rightarrow> string \<Rightarrow> tenancy \<Rightarrow> role option" where
  "get_role_by_org_and_slug org sl s = sel (\<lambda>r. rl_org r = Some org \<and> rl_slug r = sl) (roles s)"

definition list_roles_by_org :: "uuid \<Rightarrow> tenancy \<Rightarrow> role list" where
  "list_roles_by_org org s = sort_key rl_name (filter (\<lambda>r. rl_org r = Some org) (roles s))"

definition list_template_roles :: "tenancy \<Rightarrow> role list" where
  "list_template_roles s = sort_key rl_name (filter (\<lambda>r. rl_org r = None) (roles s))"

definition update_role_name :: "uuid \<Rightarrow> string \<Rightarrow> uuid \<Rightarrow> tenancy \<Rightarrow> role res \<times> tenancy" where
  "update_role_name i name org s =
     (case upd_one (\<lambda>r. rl_id r = i \<and> rl_org r = Some org) (\<lambda>r. r\<lparr>rl_name := name\<rparr>) (roles s) of
        None \<Rightarrow> (Inl NoRows, s)
      | Some (r, rs) \<Rightarrow> (Inr r, s\<lparr>roles := rs\<rparr>))"

definition delete_role :: "uuid \<Rightarrow> uuid \<Rightarrow> tenancy \<Rightarrow> tenancy" where
  "delete_role i org s =
     (let dead = (\<lambda>r. rl_id r = i \<and> rl_org r = Some org \<and> \<not> rl_system r);
          gone = rl_id ` set (filter dead (roles s))
      in s\<lparr>roles := filter (\<lambda>r. \<not> dead r) (roles s),
           role_permissions := filter (\<lambda>(r, p). r \<notin> gone) (role_permissions s),
           member_roles := filter (\<lambda>(m, r). r \<notin> gone) (member_roles s)\<rparr>)"

definition count_members_with_role :: "uuid \<Rightarrow> tenancy \<Rightarrow> nat" where
  "count_members_with_role i s = cnt (\<lambda>(m, r). r = i) (member_roles s)"

definition add_role_permission :: "uuid \<Rightarrow> uuid \<Rightarrow> tenancy \<Rightarrow> unit res \<times> tenancy" where
  "add_role_permission r p s =
     (if (r, p) \<in> set (role_permissions s) then (Inr (), s)
      else if r \<notin> rl_id ` set (roles s) then (Inl (ForeignKeyViolation ''role_permissions_role_id_fkey''), s)
      else if p \<notin> pm_id ` set (permissions s) then (Inl (ForeignKeyViolation ''role_permissions_permission_id_fkey''), s)
      else (Inr (), s\<lparr>role_permissions := role_permissions s @ [(r, p)]\<rparr>))"

definition clear_role_permissions :: "uuid \<Rightarrow> tenancy \<Rightarrow> tenancy" where
  "clear_role_permissions r s = s\<lparr>role_permissions := filter (\<lambda>(x, p). x \<noteq> r) (role_permissions s)\<rparr>"

definition list_permissions :: "tenancy \<Rightarrow> permission list" where
  "list_permissions s = sort_key pm_key (permissions s)"

definition get_permission_by_key :: "string \<Rightarrow> tenancy \<Rightarrow> permission option" where
  "get_permission_by_key k s = sel (\<lambda>p. pm_key p = k) (permissions s)"

definition list_permissions_for_role :: "uuid \<Rightarrow> tenancy \<Rightarrow> permission list" where
  "list_permissions_for_role r s = sort_key pm_key (filter (\<lambda>p. (r, pm_id p) \<in> set (role_permissions s)) (permissions s))"

section \<open>Events a user may scan\<close>

definition scan_keys :: "string list" where
  "scan_keys = [''racepack.execute'', ''checkin.execute'']"

definition scans_in :: "uuid \<Rightarrow> uuid \<Rightarrow> tenancy \<Rightarrow> bool" where
  "scans_in org u s \<longleftrightarrow> (\<exists>m \<in> set (org_members s). mb_org m = org \<and> mb_user m = u \<and>
     (\<exists>k \<in> set (list_permissions_for_member (mb_id m) s). k \<in> set scan_keys))"

definition user_can_scan_event :: "uuid \<Rightarrow> uuid \<Rightarrow> tenancy \<Rightarrow> bool" where
  "user_can_scan_event ev u s \<longleftrightarrow> (\<exists>e \<in> set (events (tdb s)). e_id e = ev \<and> scans_in (e_org e) u s)"

definition list_scannable_events_for_user :: "uuid \<Rightarrow> tenancy \<Rightarrow> event list" where
  "list_scannable_events_for_user u s = sort_key e_name (filter (\<lambda>e. scans_in (e_org e) u s) (events (tdb s)))"

end
