(* ===== verification/Organizations.thy ===== *)
theory Organizations
  imports OrgSchema
begin

text \<open>
  Organizations, members, roles and the permission check of the routes (\<open>modules/organizations/service.go\<close>,
  \<open>modules/members/service.go\<close>, \<open>modules/roles/service.go\<close>, \<open>platform/rbac/loader.go\<close>,
  \<open>platform/middleware/authz.go\<close>). New identifiers are arguments; \<open>uuid.Parse\<close> and the password hash are
  parameters, and the slug column of the events is a function of their ids.
\<close>

abbreviation ErrOrgNotFound :: app_error where "ErrOrgNotFound \<equiv> AppErr 404 ''ORG_NOT_FOUND''"
abbreviation ErrForbidden :: app_error where "ErrForbidden \<equiv> AppErr 403 ''FORBIDDEN''"
abbreviation ErrUserNotFound :: app_error where "ErrUserNotFound \<equiv> AppErr 404 ''USER_NOT_FOUND''"
abbreviation ErrAlreadyMember :: app_error where "ErrAlreadyMember \<equiv> AppErr 409 ''ALREADY_MEMBER''"
abbreviation ErrMemberNotFound :: app_error where "ErrMemberNotFound \<equiv> AppErr 404 ''MEMBER_NOT_FOUND''"
abbreviation ErrRoleNotInOrg :: app_error where "ErrRoleNotInOrg \<equiv> AppErr 400 ''ROLE_NOT_IN_ORG''"
abbreviation ErrLastOwner :: app_error where "ErrLastOwner \<equiv> AppErr 409 ''LAST_OWNER''"
abbreviation ErrRoleNotFound :: app_error where "ErrRoleNotFound \<equiv> AppErr 404 ''ROLE_NOT_FOUND''"
abbreviation ErrSystemRole :: app_error where "ErrSystemRole \<equiv> AppErr 403 ''ROLE_IS_SYSTEM''"
abbreviation ErrRoleInUse :: app_error where "ErrRoleInUse \<equiv> AppErr 409 ''ROLE_IN_USE''"
abbreviation ErrUnknownPerm :: app_error where "ErrUnknownPerm \<equiv> AppErr 400 ''UNKNOWN_PERMISSION''"
abbreviation ErrSlugConflict :: app_error where "ErrSlugConflict \<equiv> AppErr 409 ''ROLE_SLUG_TAKEN''"
abbreviation ErrUnauthenticated :: app_error where "ErrUnauthenticated \<equiv> AppErr 401 ''UNAUTHENTICATED''"

definition tenancy_tx :: "(tenancy \<Rightarrow> 'a res \<times> tenancy) \<Rightarrow> tenancy \<Rightarrow> 'a res \<times> tenancy" where
  "tenancy_tx body s = (case body s of (Inl e, _) \<Rightarrow> (Inl e, s) | (Inr a, s1) \<Rightarrow> (Inr a, s1))"

definition tenancy_audit :: "string \<Rightarrow> uuid \<Rightarrow> tenancy \<Rightarrow> tenancy" where
  "tenancy_audit action target s = s\<lparr>tdesk := desk_audit action target (tdesk s)\<rparr>"

section \<open>Slugs\<close>

definition slug_char :: "char \<Rightarrow> bool" where
  "slug_char c \<longleftrightarrow> (let n = of_char c :: nat in 97 \<le> n \<and> n \<le> 122 \<or> 48 \<le> n \<and> n \<le> 57)"

text \<open>A maximal run of other characters becomes one hyphen.\<close>

fun hyphen_runs :: "bool \<Rightarrow> string \<Rightarrow> string" where
  "hyphen_runs inside [] = []"
| "hyphen_runs inside (c # cs) =
     (if slug_char c then c # hyphen_runs False cs
      else if inside then hyphen_runs True cs else CHR ''-'' # hyphen_runs True cs)"

definition trim_hyphens :: "string \<Rightarrow> string" where
  "trim_hyphens s = rev (dropWhile (\<lambda>c. c = CHR ''-'') (rev (dropWhile (\<lambda>c. c = CHR ''-'') s)))"

definition slugify :: "string \<Rightarrow> string" where
  "slugify name = trim_hyphens (hyphen_runs False (lower (trim_space name)))"

section \<open>Creating organizations\<close>

fun add_role_permissions :: "uuid \<Rightarrow> uuid list \<Rightarrow> tenancy \<Rightarrow> unit res \<times> tenancy" where
  "add_role_permissions r [] s = (Inr (), s)"
| "add_role_permissions r (p # ps) s = and_then (add_role_permission r p s) (\<lambda>_ s. add_role_permissions r ps s)"

text \<open>The copies of the template roles; the result is the id of the owner role, nil without one.\<close>

fun copy_roles :: "(uuid \<Rightarrow> uuid) \<Rightarrow> uuid \<Rightarrow> role list \<Rightarrow> uuid \<Rightarrow> tenancy \<Rightarrow> uuid res \<times> tenancy" where
  "copy_roles rid org [] owner s = (Inr owner, s)"
| "copy_roles rid org (t # ts) owner s =
     (let perms = list_permissions_for_role (rl_id t) s
      in and_then (create_role \<lparr> rl_id = rid (rl_id t), rl_org = Some org, rl_name = rl_name t, rl_slug = rl_slug t,
           rl_system = False \<rparr> s) (\<lambda>c s.
         and_then (add_role_permissions (rl_id c) (map pm_id perms) s) (\<lambda>_ s.
         copy_roles rid org ts (if rl_slug c = ''owner'' then rl_id c else owner) s)))"

definition create_tx :: "uuid \<Rightarrow> uuid \<Rightarrow> (uuid \<Rightarrow> uuid) \<Rightarrow> uuid \<Rightarrow> string \<Rightarrow> tenancy \<Rightarrow> organization res \<times> tenancy" where
  "create_tx oid mid rid creator name s =
     and_then (create_organization \<lparr> or_id = oid, or_name = name, or_slug = slugify name \<rparr> s) (\<lambda>x s.
     and_then (create_member \<lparr> mb_id = mid, mb_org = or_id x, mb_user = creator \<rparr> s) (\<lambda>m s.
     and_then (copy_roles rid (or_id x) (list_template_roles s) nil_uuid s) (\<lambda>owner s.
     and_then (add_member_role (mb_id m) owner s) (\<lambda>_ s. (Inr x, s)))))"

definition create_org :: "uuid \<Rightarrow> uuid \<Rightarrow> (uuid \<Rightarrow> uuid) \<Rightarrow> uuid \<Rightarrow> string \<Rightarrow> tenancy \<Rightarrow> organization res \<times> tenancy" where
  "create_org oid mid rid creator name s = tenancy_tx (create_tx oid mid rid creator name) s"

record organizer_request =
  oq_name :: string
  oq_slug :: string
  oq_email :: string
  oq_password :: string
  oq_full_name :: string

definition lead_user :: "uuid \<Rightarrow> organizer_request \<Rightarrow> tenancy \<Rightarrow> user res \<times> tenancy" where
  "lead_user uid q s =
     (case get_user_by_email (oq_email q) s of
        Some u \<Rightarrow> (Inr u, s)
      | None \<Rightarrow> create_user \<lparr> u_id = uid,
          u_full_name = (if oq_full_name q = '''' then oq_name q @ '' Admin'' else oq_full_name q),
          u_email = oq_email q, u_membership = None \<rparr> s)"

definition organizer_tx ::
  "uuid \<Rightarrow> uuid \<Rightarrow> uuid \<Rightarrow> (uuid \<Rightarrow> uuid) \<Rightarrow> organizer_request \<Rightarrow> tenancy \<Rightarrow> organization res \<times> tenancy" where
  "organizer_tx uid oid mid rid q s =
     and_then (lead_user uid q s) (\<lambda>u s.
     and_then (create_organization \<lparr> or_id = oid, or_name = oq_name q,
       or_slug = (if oq_slug q = '''' then slugify (oq_name q) else oq_slug q) \<rparr> s) (\<lambda>x s.
     and_then (create_member \<lparr> mb_id = mid, mb_org = or_id x, mb_user = u_id u \<rparr> s) (\<lambda>m s.
     and_then (copy_roles rid (or_id x) (list_template_roles s) nil_uuid s) (\<lambda>owner s.
     and_then (if owner \<noteq> nil_uuid then add_member_role (mb_id m) owner s else (Inr (), s)) (\<lambda>_ s. (Inr x, s))))))"

definition admin_create_organizer ::
  "(string \<Rightarrow> string option) \<Rightarrow> uuid \<Rightarrow> uuid \<Rightarrow> uuid \<Rightarrow> (uuid \<Rightarrow> uuid) \<Rightarrow> organizer_request \<Rightarrow> tenancy \<Rightarrow> organization res \<times> tenancy" where
  "admin_create_organizer hash uid oid mid rid q s =
     and_then (require (oq_name q \<noteq> '''') (PlainErr ''organization name is required'') s) (\<lambda>_ s.
     and_then (require (oq_email q \<noteq> '''') (PlainErr ''lead email is required'') s) (\<lambda>_ s.
     and_then (require (hash (if oq_password q = '''' then ''Organizer123!'' else oq_password q) \<noteq> None)
       (PlainErr ''bcrypt'') s) (\<lambda>_ s.
     tenancy_tx (organizer_tx uid oid mid rid q) s)))"

definition get_by_identifier :: "(string \<Rightarrow> uuid option) \<Rightarrow> string \<Rightarrow> uuid \<Rightarrow> bool \<Rightarrow> tenancy \<Rightarrow> organization res" where
  "get_by_identifier parse ident u admin s =
     (case (case parse ident of Some i \<Rightarrow> get_organization_by_id i s | None \<Rightarrow> get_organization_by_slug ident s) of
        None \<Rightarrow> Inl ErrOrgNotFound
      | Some x \<Rightarrow> if \<not> admin \<and> get_member_by_org_and_user (or_id x) u s = None then Inl ErrForbidden else Inr x)"

section \<open>Members\<close>

fun assert_roles_in_org :: "uuid \<Rightarrow> uuid list \<Rightarrow> tenancy \<Rightarrow> unit res" where
  "assert_roles_in_org org [] s = Inr ()"
| "assert_roles_in_org org (r # rs) s =
     (case get_role_by_id r s of
        None \<Rightarrow> Inl ErrRoleNotInOrg
      | Some x \<Rightarrow> if rl_org x \<noteq> Some org then Inl ErrRoleNotInOrg else assert_roles_in_org org rs s)"

fun add_member_roles :: "uuid \<Rightarrow> uuid list \<Rightarrow> tenancy \<Rightarrow> unit res \<times> tenancy" where
  "add_member_roles m [] s = (Inr (), s)"
| "add_member_roles m (r # rs) s = and_then (add_member_role m r s) (\<lambda>_ s. add_member_roles m rs s)"

definition load_org_member :: "uuid \<Rightarrow> uuid \<Rightarrow> tenancy \<Rightarrow> org_member res" where
  "load_org_member org i s =
     (case get_member_by_id i s of
        None \<Rightarrow> Inl ErrMemberNotFound
      | Some m \<Rightarrow> if mb_org m \<noteq> org then Inl ErrMemberNotFound else Inr m)"

definition guard_last_owner :: "uuid \<Rightarrow> uuid \<Rightarrow> tenancy \<Rightarrow> unit res" where
  "guard_last_owner org m s =
     (if \<not> member_has_role_slug m ''owner'' s then Inr ()
      else if count_owners_in_org org s \<le> 1 then Inl ErrLastOwner else Inr ())"

definition add_tx :: "uuid \<Rightarrow> uuid \<Rightarrow> uuid \<Rightarrow> uuid list \<Rightarrow> tenancy \<Rightarrow> org_member res \<times> tenancy" where
  "add_tx mid org u rs s =
     and_then (create_member \<lparr> mb_id = mid, mb_org = org, mb_user = u \<rparr> s) (\<lambda>m s.
     and_then (add_member_roles (mb_id m) rs s) (\<lambda>_ s. (Inr m, s)))"

definition add_org_member :: "uuid \<Rightarrow> uuid \<Rightarrow> string \<Rightarrow> uuid list \<Rightarrow> tenancy \<Rightarrow> org_member res \<times> tenancy" where
  "add_org_member mid org email rs s =
     and_then (found ErrUserNotFound (get_user_by_email email s) s) (\<lambda>u s.
     and_then (require (get_member_by_org_and_user org (u_id u) s = None) ErrAlreadyMember s) (\<lambda>_ s.
     and_then (assert_roles_in_org org rs s, s) (\<lambda>_ s.
     and_then (tenancy_tx (add_tx mid org (u_id u) rs) s) (\<lambda>m s.
     (Inr m, tenancy_audit ''member.add'' (mb_id m) s)))))"

text \<open>The guards read \<open>s0\<close>; the deletion runs in \<open>s\<close>.\<close>

definition remove_member_at :: "uuid \<Rightarrow> uuid \<Rightarrow> tenancy \<Rightarrow> tenancy \<Rightarrow> unit res \<times> tenancy" where
  "remove_member_at org i s0 s =
     and_then (load_org_member org i s0, s) (\<lambda>m s.
     and_then (guard_last_owner org (mb_id m) s0, s) (\<lambda>_ s.
     (Inr (), tenancy_audit ''member.remove'' i (delete_member i org s))))"

definition remove_member :: "uuid \<Rightarrow> uuid \<Rightarrow> tenancy \<Rightarrow> unit res \<times> tenancy" where
  "remove_member org i s = remove_member_at org i s s"

text \<open>Whether one of the roles is the owner role; an unknown role is an error.\<close>

fun names_owner :: "uuid list \<Rightarrow> tenancy \<Rightarrow> bool res" where
  "names_owner [] s = Inr False"
| "names_owner (r # rs) s =
     (case get_role_by_id r s of
        None \<Rightarrow> Inl NoRows
      | Some x \<Rightarrow> if rl_slug x = ''owner'' then Inr True else names_owner rs s)"

definition set_roles_tx :: "uuid \<Rightarrow> uuid list \<Rightarrow> tenancy \<Rightarrow> unit res \<times> tenancy" where
  "set_roles_tx m rs s = add_member_roles m rs (clear_member_roles m s)"

definition update_member_roles :: "uuid \<Rightarrow> uuid \<Rightarrow> uuid list \<Rightarrow> tenancy \<Rightarrow> org_member res \<times> tenancy" where
  "update_member_roles org i rs s =
     and_then (load_org_member org i s, s) (\<lambda>m s.
     and_then (assert_roles_in_org org rs s, s) (\<lambda>_ s.
     and_then (names_owner rs s, s) (\<lambda>keeps s.
     and_then (if keeps then (Inr (), s) else (guard_last_owner org (mb_id m) s, s)) (\<lambda>_ s.
     and_then (tenancy_tx (set_roles_tx (mb_id m) rs) s) (\<lambda>_ s.
     (Inr m, tenancy_audit ''member.roles.update'' i s))))))"

definition list_org_members :: "uuid \<Rightarrow> tenancy \<Rightarrow> (org_member \<times> user \<times> uuid list) list" where
  "list_org_members org s =
     map (\<lambda>(m, u). (m, u, map rl_id (list_roles_for_member (mb_id m) s))) (list_members_by_org org s)"

section \<open>Roles\<close>

fun resolve_permissions :: "string list \<Rightarrow> tenancy \<Rightarrow> uuid list res" where
  "resolve_permissions [] s = Inr []"
| "resolve_permissions (k # ks) s =
     (case get_permission_by_key k s of
        None \<Rightarrow> Inl ErrUnknownPerm
      | Some p \<Rightarrow> (case resolve_permissions ks s of Inl e \<Rightarrow> Inl e | Inr ps \<Rightarrow> Inr (pm_id p # ps)))"

definition perm_keys_for_role :: "uuid \<Rightarrow> tenancy \<Rightarrow> string list" where
  "perm_keys_for_role r s = map pm_key (list_permissions_for_role r s)"

definition load_org_role :: "uuid \<Rightarrow> uuid \<Rightarrow> tenancy \<Rightarrow> role res" where
  "load_org_role org i s =
     (case get_role_by_id i s of
        None \<Rightarrow> Inl ErrRoleNotFound
      | Some r \<Rightarrow> if rl_org r \<noteq> Some org then Inl ErrRoleNotFound else Inr r)"

definition role_tx :: "uuid \<Rightarrow> uuid \<Rightarrow> string \<Rightarrow> uuid list \<Rightarrow> tenancy \<Rightarrow> role res \<times> tenancy" where
  "role_tx i org name ps s =
     and_then (create_role \<lparr> rl_id = i, rl_org = Some org, rl_name = name, rl_slug = slugify name, rl_system = False \<rparr> s) (\<lambda>r s.
     and_then (add_role_permissions (rl_id r) ps s) (\<lambda>_ s. (Inr r, s)))"

definition create_org_role :: "uuid \<Rightarrow> uuid \<Rightarrow> string \<Rightarrow> string list \<Rightarrow> tenancy \<Rightarrow> role res \<times> tenancy" where
  "create_org_role i org name ks s =
     and_then (resolve_permissions ks s, s) (\<lambda>ps s.
     and_then (require (get_role_by_org_and_slug org (slugify name) s = None) ErrSlugConflict s) (\<lambda>_ s.
     tenancy_tx (role_tx i org name ps) s))"

definition change_role_tx :: "uuid \<Rightarrow> uuid \<Rightarrow> string option \<Rightarrow> uuid list option \<Rightarrow> tenancy \<Rightarrow> unit res \<times> tenancy" where
  "change_role_tx i org name ps s =
     and_then (case name of None \<Rightarrow> (Inr (), s) | Some n \<Rightarrow> and_then (update_role_name i n org s) (\<lambda>_ s. (Inr (), s))) (\<lambda>_ s.
     case ps of None \<Rightarrow> (Inr (), s) | Some ps \<Rightarrow> add_role_permissions i ps (clear_role_permissions i s))"

definition update_org_role ::
  "uuid \<Rightarrow> uuid \<Rightarrow> string option \<Rightarrow> string list option \<Rightarrow> tenancy \<Rightarrow> (role \<times> string list) res \<times> tenancy" where
  "update_org_role org i name ks s =
     and_then (load_org_role org i s, s) (\<lambda>r s.
     and_then (require (\<not> rl_system r) ErrSystemRole s) (\<lambda>_ s.
     and_then (case ks of None \<Rightarrow> (Inr None, s) | Some ks \<Rightarrow> and_then (resolve_permissions ks s, s) (\<lambda>ps s. (Inr (Some ps), s))) (\<lambda>ps s.
     and_then (tenancy_tx (change_role_tx i org name ps) s) (\<lambda>_ s.
     and_then (load_org_role org i s, s) (\<lambda>r s.
     (Inr (r, perm_keys_for_role i s), s))))))"

definition delete_org_role :: "uuid \<Rightarrow> uuid \<Rightarrow> tenancy \<Rightarrow> unit res \<times> tenancy" where
  "delete_org_role org i s =
     and_then (load_org_role org i s, s) (\<lambda>r s.
     and_then (require (\<not> rl_system r) ErrSystemRole s) (\<lambda>_ s.
     and_then (require (count_members_with_role i s = 0) ErrRoleInUse s) (\<lambda>_ s.
     (Inr (), delete_role i org s))))"

definition list_org_roles :: "uuid \<Rightarrow> tenancy \<Rightarrow> (role \<times> string list) list" where
  "list_org_roles org s = map (\<lambda>r. (r, perm_keys_for_role (rl_id r) s)) (list_roles_by_org org s)"

section \<open>The permission check of a route\<close>

text \<open>The permissions of a user in an organization, \<open>None\<close> without a membership.\<close>

definition load_permissions :: "uuid \<Rightarrow> uuid \<Rightarrow> tenancy \<Rightarrow> string list option" where
  "load_permissions org u s = map_option (\<lambda>m. list_permissions_for_member (mb_id m) s) (get_member_by_org_and_user org u s)"

definition resolve_org_slug :: "(string \<Rightarrow> uuid option) \<Rightarrow> string \<Rightarrow> tenancy \<Rightarrow> uuid option" where
  "resolve_org_slug parse ident s =
     (case parse ident of Some i \<Rightarrow> Some i | None \<Rightarrow> map_option or_id (get_organization_by_slug ident s))"

text \<open>The event and its organization; an unknown id is passed on with the organization of the route.\<close>

definition resolve_event_slug ::
  "(string \<Rightarrow> uuid option) \<Rightarrow> (uuid \<Rightarrow> string) \<Rightarrow> uuid \<Rightarrow> string \<Rightarrow> tenancy \<Rightarrow> (uuid \<times> uuid) option" where
  "resolve_event_slug parse slug_of org ident s =
     (let evs = events (tdb s); found = map_option (\<lambda>e. (e_id e, e_org e))
      in case parse ident of
           Some i \<Rightarrow> Some (case sel (\<lambda>e. e_id e = i) evs of None \<Rightarrow> (i, org) | Some e \<Rightarrow> (e_id e, e_org e))
         | None \<Rightarrow>
             (case (if org \<noteq> nil_uuid then sel (\<lambda>e. e_org e = org \<and> slug_of (e_id e) = ident) evs else None) of
                Some e \<Rightarrow> Some (e_id e, e_org e)
              | None \<Rightarrow> found (sel (\<lambda>e. slug_of (e_id e) = ident) evs)))"

record caller =
  ca_user :: uuid
  ca_admin :: bool

text \<open>What the handler behind \<open>RequireAnyPermission\<close> sees: the organization and event of the route, in canonical
  form. \<open>RequirePermission\<close> is the check with one key.\<close>

definition route_params ::
  "(string \<Rightarrow> uuid option) \<Rightarrow> (uuid \<Rightarrow> string) \<Rightarrow> string \<Rightarrow> string \<Rightarrow> bool \<Rightarrow> tenancy \<Rightarrow> (uuid \<times> uuid option) res" where
  "route_params parse slug_of raw_org raw_event admin s =
     (case resolve_org_slug parse raw_org s of
        None \<Rightarrow> Inl (AppErr 400 ''INVALID_ORG_ID'')
      | Some org \<Rightarrow>
          if raw_event = '''' then Inr (org, None)
          else (case resolve_event_slug parse slug_of org raw_event s of
                  None \<Rightarrow> Inl (AppErr 400 ''INVALID_EVENT_ID'')
                | Some (ev, home) \<Rightarrow>
                    Inr (if admin \<and> home \<noteq> nil_uuid \<and> home \<noteq> org then home else org, Some ev)))"

definition require_any_permission ::
  "(string \<Rightarrow> uuid option) \<Rightarrow> (uuid \<Rightarrow> string) \<Rightarrow> string list \<Rightarrow> caller option \<Rightarrow> string \<Rightarrow> string \<Rightarrow> tenancy \<Rightarrow>
     (uuid \<times> uuid option) res" where
  "require_any_permission parse slug_of keys who raw_org raw_event s =
     (case who of
        None \<Rightarrow> Inl ErrUnauthenticated
      | Some c \<Rightarrow>
          (case route_params parse slug_of raw_org raw_event (ca_admin c) s of
             Inl e \<Rightarrow> Inl e
           | Inr (org, ev) \<Rightarrow>
               if ca_admin c then Inr (org, ev)
               else (case load_permissions org (ca_user c) s of
                       None \<Rightarrow> Inl ErrForbidden
                     | Some ks \<Rightarrow> if \<exists>k \<in> set keys. k \<in> set ks then Inr (org, ev) else Inl ErrForbidden)))"

definition require_permission ::
  "(string \<Rightarrow> uuid option) \<Rightarrow> (uuid \<Rightarrow> string) \<Rightarrow> string \<Rightarrow> caller option \<Rightarrow> string \<Rightarrow> string \<Rightarrow> tenancy \<Rightarrow>
     (uuid \<times> uuid option) res" where
  "require_permission parse slug_of key who raw_org raw_event s =
     require_any_permission parse slug_of [key] who raw_org raw_event s"

section \<open>Slugs are clean\<close>

abbreviation hyphen :: char where "hyphen \<equiv> CHR ''-''"

lemma set_hyphen_runs: "set (hyphen_runs b s) \<subseteq> {c. slug_char c} \<union> {hyphen}"
  by (induction b s rule: hyphen_runs.induct) auto

text \<open>Of two neighbours at most one is a hyphen.\<close>

definition apart :: "char \<Rightarrow> char \<Rightarrow> bool" where
  "apart a b \<longleftrightarrow> a \<noteq> hyphen \<or> b \<noteq> hyphen"

abbreviation single_hyphens :: "string \<Rightarrow> bool" where
  "single_hyphens \<equiv> successively apart"

lemma hyphen_not_slug [simp]: "\<not> slug_char hyphen"
  by (simp add: slug_char_def)

lemma hyphen_runs_single:
  "single_hyphens (hyphen_runs b s) \<and> (b \<longrightarrow> hyphen_runs b s = [] \<or> hd (hyphen_runs b s) \<noteq> hyphen)"
  by (induction b s rule: hyphen_runs.induct) (auto simp: successively_Cons apart_def)

lemma single_hyphens_drop: "single_hyphens s \<Longrightarrow> single_hyphens (dropWhile P s)"
  by (induction s) (auto simp: successively_Cons)

lemma single_hyphens_rev: "single_hyphens (rev s) = single_hyphens s"
proof -
  have "(\<lambda>x y. apart y x) = apart" by (auto simp: apart_def fun_eq_iff)
  then show ?thesis unfolding successively_rev by (rule arg_cong [of _ _ "\<lambda>P. successively P s"])
qed

lemma hyphen_runs_id:
  "set s \<subseteq> {c. slug_char c} \<union> {hyphen} \<Longrightarrow> single_hyphens s \<Longrightarrow> (b \<Longrightarrow> s = [] \<or> hd s \<noteq> hyphen) \<Longrightarrow> hyphen_runs b s = s"
  by (induction b s rule: hyphen_runs.induct) (auto simp: successively_Cons apart_def)

definition clean_slug :: "string \<Rightarrow> bool" where
  "clean_slug s \<longleftrightarrow> set s \<subseteq> {c. slug_char c} \<union> {hyphen} \<and> single_hyphens s \<and>
     (s \<noteq> [] \<longrightarrow> hd s \<noteq> hyphen \<and> last s \<noteq> hyphen)"

lemma hd_trimmed: "dropWhile P s \<noteq> [] \<Longrightarrow> \<not> P (hd (dropWhile P s))"
  by (rule hd_dropWhile)

lemma trim_hyphens_clean:
  assumes "set s \<subseteq> {c. slug_char c} \<union> {hyphen}" "single_hyphens s"
  shows "clean_slug (trim_hyphens s)"
proof -
  let ?f = "dropWhile (\<lambda>c. c = hyphen) s"
  let ?t = "trim_hyphens s"
  have t: "rev ?t = dropWhile (\<lambda>c. c = hyphen) (rev ?f)" by (simp add: trim_hyphens_def)
  have "set ?t \<subseteq> set s" by (auto simp: trim_hyphens_def dest!: set_dropWhileD)
  moreover have "single_hyphens ?t" unfolding trim_hyphens_def single_hyphens_rev
    by (intro single_hyphens_drop) (simp only: single_hyphens_rev single_hyphens_drop assms(2))
  moreover have "last ?t \<noteq> hyphen" if "?t \<noteq> []"
    using that hd_trimmed [of "\<lambda>c. c = hyphen" "rev ?f"] by (simp add: t [symmetric] hd_rev)
  moreover have "hd ?t \<noteq> hyphen" if "?t \<noteq> []"
  proof -
    have "rev (rev ?f) = rev (takeWhile (\<lambda>c. c = hyphen) (rev ?f) @ rev ?t)" by (simp only: t takeWhile_dropWhile_id)
    then have "?f = ?t @ rev (takeWhile (\<lambda>c. c = hyphen) (rev ?f))" by (simp only: rev_append rev_rev_ident)
    then obtain us where us: "?f = ?t @ us" by blast
    with that have "hd ?f = hd ?t" "?f \<noteq> []" by (simp_all only: hd_append) simp_all
    with hd_trimmed [of "\<lambda>c. c = hyphen" s] show ?thesis by metis
  qed
  ultimately show ?thesis using assms(1) by (auto simp: clean_slug_def)
qed

lemma slugify_clean: "clean_slug (slugify name)"
  unfolding slugify_def using set_hyphen_runs hyphen_runs_single by (intro trim_hyphens_clean) blast+

lemma trim_hyphens_id:
  assumes "clean_slug s"
  shows "trim_hyphens s = s"
proof (cases "s = []")
  case False
  then have "hd s \<noteq> hyphen" "hd (rev s) \<noteq> hyphen" using assms by (simp_all add: clean_slug_def hd_rev)
  then have "dropWhile (\<lambda>c. c = hyphen) s = s" "dropWhile (\<lambda>c. c = hyphen) (rev s) = rev s"
    using False by (simp_all add: dropWhile_eq_self_iff)
  then show ?thesis by (simp add: trim_hyphens_def)
qed (simp add: trim_hyphens_def)

lemma slug_char_facts: "slug_char c \<or> c = hyphen \<Longrightarrow> lower_char c = c \<and> \<not> is_space c"
  by (auto simp: slug_char_def lower_char_def is_space_def Let_def)

lemma trim_space_id: "\<forall>c \<in> set s. \<not> is_space c \<Longrightarrow> trim_space s = s"
proof (cases "s = []")
  case False
  assume "\<forall>c \<in> set s. \<not> is_space c"
  with False have "\<not> is_space (hd s)" "\<not> is_space (hd (rev s))" by (simp_all add: hd_rev)
  then have "dropWhile is_space s = s" "dropWhile is_space (rev s) = rev s" using False by (simp_all add: dropWhile_eq_self_iff)
  then show ?thesis by (simp add: trim_space_def)
qed (simp add: trim_space_def)

text \<open>A slug has only lower-case letters, digits and single hyphens between them, and is its own slug.\<close>

theorem slugs_are_stable: "clean_slug (slugify name) \<and> slugify (slugify name) = slugify name"
proof -
  let ?s = "slugify name"
  have c: "clean_slug ?s" by (rule slugify_clean)
  then have chars: "slug_char x \<or> x = hyphen" if "x \<in> set ?s" for x using that by (auto simp: clean_slug_def)
  have "trim_space ?s = ?s" using chars slug_char_facts by (intro trim_space_id) blast
  moreover have "lower ?s = ?s" using chars slug_char_facts by (intro map_idI) blast
  moreover have "hyphen_runs False ?s = ?s" using c by (intro hyphen_runs_id) (auto simp: clean_slug_def)
  ultimately have "slugify ?s = trim_hyphens ?s" unfolding slugify_def [of ?s] by simp
  with trim_hyphens_id [OF c] c show ?thesis by simp
qed

section \<open>Tenants stay apart\<close>

definition link_ok :: "tenancy \<Rightarrow> uuid \<times> uuid \<Rightarrow> bool" where
  "link_ok s l \<longleftrightarrow> (\<exists>m \<in> set (org_members s). \<exists>r \<in> set (roles s). l = (mb_id m, rl_id r) \<and> rl_org r = Some (mb_org m))"

definition tenancy_ok :: "tenancy \<Rightarrow> bool" where
  "tenancy_ok s \<longleftrightarrow>
     distinct (map or_id (orgs s)) \<and> distinct (map mb_id (org_members s)) \<and> distinct (map rl_id (roles s)) \<and>
     (\<forall>m \<in> set (org_members s). mb_org m \<in> or_id ` set (orgs s)) \<and>
     (\<forall>r \<in> set (roles s). references (rl_org r) (or_id ` set (orgs s))) \<and>
     (\<forall>l \<in> set (member_roles s). link_ok s l) \<and>
     (\<forall>l \<in> set (role_permissions s). fst l \<in> rl_id ` set (roles s) \<and> snd l \<in> pm_id ` set (permissions s)) \<and>
     (\<exists>t \<in> set (roles s). rl_org t = None \<and> rl_slug t = ''owner'')"

definition owner_of :: "uuid \<Rightarrow> uuid \<Rightarrow> tenancy \<Rightarrow> bool" where
  "owner_of org m s \<longleftrightarrow> (\<exists>r \<in> set (roles s). (m, rl_id r) \<in> set (member_roles s) \<and> rl_org r = Some org \<and> rl_slug r = ''owner'')"

definition owned :: "uuid \<Rightarrow> tenancy \<Rightarrow> bool" where
  "owned org s \<longleftrightarrow> (\<exists>m \<in> set (org_members s). mb_org m = org \<and> owner_of org (mb_id m) s)"

definition all_owned :: "tenancy \<Rightarrow> bool" where
  "all_owned s \<longleftrightarrow> (\<forall>x \<in> set (orgs s). owned (or_id x) s)"

text \<open>What rows an operation adds without taking any away.\<close>

definition extends :: "tenancy \<Rightarrow> tenancy \<Rightarrow> bool" where
  "extends s t \<longleftrightarrow> set (orgs s) \<subseteq> set (orgs t) \<and> set (org_members s) \<subseteq> set (org_members t) \<and>
     set (roles s) \<subseteq> set (roles t) \<and> set (member_roles s) \<subseteq> set (member_roles t)"

lemma extends_refl [simp]: "extends s s"
  by (simp add: extends_def)

lemma extends_trans: "extends s t \<Longrightarrow> extends t u \<Longrightarrow> extends s u"
  by (auto simp: extends_def)

lemma owned_mono: "extends s t \<Longrightarrow> owned org s \<Longrightarrow> owned org t"
  unfolding owned_def owner_of_def extends_def by blast

lemma link_ok_mono: "set (org_members s) \<subseteq> set (org_members t) \<Longrightarrow> set (roles s) \<subseteq> set (roles t) \<Longrightarrow> link_ok s l \<Longrightarrow> link_ok t l"
  by (auto simp: link_ok_def)

lemma tenancy_frame [simp]:
  "orgs (tenancy_audit a i s) = orgs s" "org_members (tenancy_audit a i s) = org_members s" "roles (tenancy_audit a i s) = roles s"
  "permissions (tenancy_audit a i s) = permissions s" "role_permissions (tenancy_audit a i s) = role_permissions s"
  "member_roles (tenancy_audit a i s) = member_roles s"
  "orgs (with_db b s) = orgs s" "org_members (with_db b s) = org_members s" "roles (with_db b s) = roles s"
  "permissions (with_db b s) = permissions s" "role_permissions (with_db b s) = role_permissions s"
  "member_roles (with_db b s) = member_roles s"
  by (simp_all add: tenancy_audit_def with_db_def)

text \<open>Only the six tables of the tenancy matter.\<close>

lemma tables_cong:
  assumes "orgs t = orgs s" "org_members t = org_members s" "roles t = roles s" "permissions t = permissions s"
    "role_permissions t = role_permissions s" "member_roles t = member_roles s"
  shows "tenancy_ok t = tenancy_ok s" "all_owned t = all_owned s" "extends s t"
  using assms by (simp_all add: tenancy_ok_def all_owned_def owned_def owner_of_def link_ok_def extends_def)

text \<open>\<open>builds s t\<close>: the tables of \<open>t\<close> are well formed and hold those of \<open>s\<close>.\<close>

definition builds :: "tenancy \<Rightarrow> tenancy \<Rightarrow> bool" where
  "builds s t \<longleftrightarrow> tenancy_ok t \<and> extends s t"

lemma builds_chain:
  "builds s (snd m) \<Longrightarrow> (\<And>a t. m = (Inr a, t) \<Longrightarrow> builds s t \<Longrightarrow> builds s (snd (k a t))) \<Longrightarrow> builds s (snd (and_then m k))"
  by (rule and_then_inv)

lemma builds_frame: "tenancy_ok t' = tenancy_ok t \<Longrightarrow> extends t t' \<Longrightarrow> builds s t \<Longrightarrow> builds s t'"
  by (auto simp: builds_def intro: extends_trans)

lemma builds_orgs: "builds s t \<Longrightarrow> or_id x \<notin> or_id ` set (orgs t) \<Longrightarrow> builds s (t\<lparr>orgs := orgs t @ [x]\<rparr>)"
proof -
  have l: "link_ok (t\<lparr>orgs := orgs t @ [x]\<rparr>) l = link_ok t l" for l by (simp add: link_ok_def)
  show "builds s t \<Longrightarrow> or_id x \<notin> or_id ` set (orgs t) \<Longrightarrow> builds s (t\<lparr>orgs := orgs t @ [x]\<rparr>)"
    by (auto simp: builds_def tenancy_ok_def extends_def l references_def split: option.splits)
qed

lemma builds_members:
  assumes "builds s t" "mb_id m \<notin> mb_id ` set (org_members t)" "mb_org m \<in> or_id ` set (orgs t)"
  shows "builds s (t\<lparr>org_members := org_members t @ [m]\<rparr>)"
proof -
  have "link_ok t l \<Longrightarrow> link_ok (t\<lparr>org_members := org_members t @ [m]\<rparr>) l" for l by (rule link_ok_mono [rotated 2]) auto
  with assms show ?thesis by (auto simp: builds_def tenancy_ok_def extends_def)
qed

lemma builds_roles:
  assumes "builds s t" "rl_id r \<notin> rl_id ` set (roles t)" "references (rl_org r) (or_id ` set (orgs t))"
  shows "builds s (t\<lparr>roles := roles t @ [r]\<rparr>)"
proof -
  have "link_ok t l \<Longrightarrow> link_ok (t\<lparr>roles := roles t @ [r]\<rparr>) l" for l by (rule link_ok_mono [rotated 2]) auto
  with assms show ?thesis by (auto simp: builds_def tenancy_ok_def extends_def)
qed

lemma builds_perms:
  assumes "builds s t" "r \<in> rl_id ` set (roles t)" "p \<in> pm_id ` set (permissions t)"
  shows "builds s (t\<lparr>role_permissions := role_permissions t @ [(r, p)]\<rparr>)"
proof -
  have "link_ok (t\<lparr>role_permissions := role_permissions t @ [(r, p)]\<rparr>) l = link_ok t l" for l by (simp add: link_ok_def)
  with assms show ?thesis by (auto simp: builds_def tenancy_ok_def extends_def)
qed

lemma builds_links:
  assumes "builds s t" "link_ok t (m, r)"
  shows "builds s (t\<lparr>member_roles := member_roles t @ [(m, r)]\<rparr>)"
proof -
  have "link_ok (t\<lparr>member_roles := member_roles t @ [(m, r)]\<rparr>) l = link_ok t l" for l by (simp add: link_ok_def)
  with assms show ?thesis by (auto simp: builds_def tenancy_ok_def extends_def)
qed

lemma builds_create_organization: "builds s t \<Longrightarrow> builds s (snd (create_organization x t))"
  by (auto simp: create_organization_def intro: builds_orgs)

lemma builds_create_member: "builds s t \<Longrightarrow> builds s (snd (create_member m t))"
  by (auto simp: create_member_def intro: builds_members)

lemma builds_create_role: "builds s t \<Longrightarrow> builds s (snd (create_role r t))"
  by (auto simp: create_role_def intro: builds_roles)

lemma builds_add_role_permission: "builds s t \<Longrightarrow> builds s (snd (add_role_permission r p t))"
  by (auto simp: add_role_permission_def intro: builds_perms)

lemma builds_create_user: "builds s t \<Longrightarrow> builds s (snd (create_user u t))"
proof -
  have "tenancy_ok (with_db b t) = tenancy_ok t" "extends t (with_db b t)" for b
    using tables_cong(1,3) [of "with_db b t" t] by simp_all
  then show "builds s t \<Longrightarrow> builds s (snd (create_user u t))" by (auto simp: create_user_def intro: builds_frame)
qed

lemma builds_audit: "builds s t \<Longrightarrow> builds s (tenancy_audit a i t)"
  using tables_cong(1,3) [of "tenancy_audit a i t" t] by (auto intro: builds_frame)

lemma builds_add_member_role:
  assumes "builds s t" "m \<in> mb_id ` set (org_members t) \<Longrightarrow> r \<in> rl_id ` set (roles t) \<Longrightarrow> link_ok t (m, r)"
  shows "builds s (snd (add_member_role m r t))"
  using assms by (auto simp: add_member_role_def intro: builds_links)

lemma builds_add_role_permissions: "builds s t \<Longrightarrow> builds s (snd (add_role_permissions r ps t))"
proof (induction ps arbitrary: t)
  case (Cons p ps)
  show ?case unfolding add_role_permissions.simps
    by (rule builds_chain [OF builds_add_role_permission [OF Cons.prems] Cons.IH])
qed simp

lemma roles_add_role_permissions: "roles (snd (add_role_permissions r ps t)) = roles t"
proof (induction ps arbitrary: t)
  case (Cons p ps)
  show ?case unfolding add_role_permissions.simps
    by (rule and_then_inv [where I = "\<lambda>x. roles x = roles t"]) (simp_all add: add_role_permission_def Cons.IH)
qed simp

text \<open>The copied owner role belongs to the new organization.\<close>

lemma copy_roles_builds:
  "builds s t \<Longrightarrow> builds s (snd (copy_roles rid org ts owner t))"
proof (induction ts arbitrary: t owner)
  case (Cons x ts)
  show ?case unfolding copy_roles.simps Let_def
    by (intro builds_chain builds_create_role Cons builds_add_role_permissions) assumption+
qed simp

definition owner_role :: "uuid \<Rightarrow> uuid \<Rightarrow> tenancy \<Rightarrow> bool" where
  "owner_role org i s \<longleftrightarrow> (\<exists>r \<in> set (roles s). rl_id r = i \<and> rl_org r = Some org \<and> rl_slug r = ''owner'')"

lemma copy_roles_owner:
  assumes "copy_roles rid org ts owner t = (Inr i, t')" "owner_role org owner t \<or> (\<exists>x \<in> set ts. rl_slug x = ''owner'')"
  shows "owner_role org i t' \<and> ((\<exists>x \<in> set ts. rl_slug x = ''owner'') \<or> owner \<in> range rid \<longrightarrow> i \<in> range rid)"
  using assms
proof (induction ts arbitrary: t owner)
  case (Cons x ts)
  let ?r = "\<lparr> rl_id = rid (rl_id x), rl_org = Some org, rl_name = rl_name x, rl_slug = rl_slug x, rl_system = False \<rparr>"
  from Cons.prems(1) obtain c t1 t2 where c: "create_role ?r t = (Inr c, t1)"
    and p: "add_role_permissions (rl_id c) (map pm_id (list_permissions_for_role (rl_id x) t)) t1 = (Inr (), t2)"
    and rest: "copy_roles rid org ts (if rl_slug c = ''owner'' then rl_id c else owner) t2 = (Inr i, t')"
    by (auto simp: Let_def and_then_Inr)
  from c have c': "c = ?r" "roles t1 = roles t @ [?r]" by (auto simp: create_role_def split: if_splits)
  from roles_add_role_permissions [of "rl_id c" _ t1] p have "roles t2 = roles t1" by (metis snd_conv)
  with c' Cons.prems(2) have "owner_role org (if rl_slug c = ''owner'' then rl_id c else owner) t2 \<or> (\<exists>x \<in> set ts. rl_slug x = ''owner'')"
    by (auto simp: owner_role_def)
  from Cons.IH [OF rest this] c' show ?case by (auto split: if_splits)
qed (auto simp: owner_role_def)

section \<open>Every organization keeps an owner\<close>

lemma copy_roles_frame:
  "orgs (snd (copy_roles rid org ts owner t)) = orgs t \<and> org_members (snd (copy_roles rid org ts owner t)) = org_members t"
proof (induction ts arbitrary: t owner)
  case (Cons x ts)
  have p: "orgs (snd (add_role_permissions r ps u)) = orgs u \<and> org_members (snd (add_role_permissions r ps u)) = org_members u" for r ps u
  proof (induction ps arbitrary: u)
    case (Cons p ps)
    show ?case unfolding add_role_permissions.simps
      by (rule and_then_inv [where I = "\<lambda>x. orgs x = orgs u \<and> org_members x = org_members u"])
        (simp_all add: add_role_permission_def Cons.IH)
  qed simp
  show ?case unfolding copy_roles.simps Let_def
    by (rule and_then_inv [where I = "\<lambda>x. orgs x = orgs t \<and> org_members x = org_members t"], simp add: create_role_def,
        rule and_then_inv [where I = "\<lambda>x. orgs x = orgs t \<and> org_members x = org_members t"]) (simp_all add: p Cons.IH)
qed simp

lemma founding:
  assumes "create_organization x0 s = (Inr x, s1)" "create_member m0 s1 = (Inr m, s2)" "mb_org m0 = or_id x"
    "copy_roles rid (or_id x) (list_template_roles s2) nil_uuid s2 = (Inr owner, s3)" "tenancy_ok s"
  shows "builds s s3 \<and> orgs s3 = orgs s @ [x] \<and> owner_role (or_id x) owner s3 \<and> m \<in> set (org_members s3) \<and>
    mb_org m = or_id x \<and> owner \<in> range rid"
proof -
  have x: "x = x0" "s1 = s\<lparr>orgs := orgs s @ [x]\<rparr>" using assms(1) by (auto simp: create_organization_def split: if_splits)
  have m: "m = m0" "s2 = s1\<lparr>org_members := org_members s1 @ [m]\<rparr>" using assms(2) by (auto simp: create_member_def split: if_splits)
  have "builds s s" using assms(5) by (simp add: builds_def)
  then have b: "builds s (snd (create_member m0 (snd (create_organization x0 s))))"
    by (intro builds_create_member builds_create_organization)
  then have b2: "builds s s2" using assms(1,2) by simp
  then have b3: "builds s s3" using copy_roles_builds [of s s2 rid "or_id x"] assms(4) by (metis snd_conv)
  have f: "orgs s3 = orgs s2" "org_members s3 = org_members s2" using copy_roles_frame [of rid "or_id x" _ nil_uuid s2] assms(4) by (metis snd_conv)+
  from b2 obtain t where "t \<in> set (roles s2)" "rl_org t = None" "rl_slug t = ''owner''" by (auto simp: builds_def tenancy_ok_def)
  then have "\<exists>t \<in> set (list_template_roles s2). rl_slug t = ''owner''" by (auto simp: list_template_roles_def)
  with copy_roles_owner [OF assms(4)] have "owner_role (or_id x) owner s3" "owner \<in> range rid" by auto
  with b3 f x m assms(3) show ?thesis by simp
qed

lemma owner_installed:
  assumes "add_member_role (mb_id m) owner s3 = (Inr u, s4)" "builds s s3" "owner_role (mb_org m) owner s3" "m \<in> set (org_members s3)"
  shows "builds s s4 \<and> orgs s4 = orgs s3 \<and> owned (mb_org m) s4"
proof -
  from assms(3) obtain r where r: "r \<in> set (roles s3)" "rl_id r = owner" "rl_org r = Some (mb_org m)" "rl_slug r = ''owner''"
    by (auto simp: owner_role_def)
  then have "link_ok s3 (mb_id m, owner)" using assms(4) by (auto simp: link_ok_def)
  then have "builds s s4" using builds_add_member_role [OF assms(2), of "mb_id m" owner] assms(1) by simp
  moreover have "(mb_id m, owner) \<in> set (member_roles s4)" "roles s4 = roles s3" "org_members s4 = org_members s3" "orgs s4 = orgs s3"
    using assms(1) by (auto simp: add_member_role_def split: if_splits)
  ultimately show ?thesis using r assms(4) by (auto simp: owned_def owner_of_def)
qed

definition kept :: "tenancy \<Rightarrow> bool" where
  "kept s \<longleftrightarrow> tenancy_ok s \<and> all_owned s"

lemma kept_builds: "builds s t \<Longrightarrow> orgs t = orgs s \<Longrightarrow> kept s \<Longrightarrow> kept t"
  by (auto simp: kept_def builds_def all_owned_def intro: owned_mono)

lemma kept_founding: "builds s t \<Longrightarrow> orgs t = orgs s @ [x] \<Longrightarrow> owned (or_id x) t \<Longrightarrow> kept s \<Longrightarrow> kept t"
  by (auto simp: kept_def builds_def all_owned_def intro: owned_mono)

lemma kept_tx: "kept s \<Longrightarrow> (\<And>a t. b s = (Inr a, t) \<Longrightarrow> kept t) \<Longrightarrow> kept (snd (tenancy_tx b s))"
  by (auto simp: tenancy_tx_def split: prod.split sum.split)

lemma kept_create:
  assumes "kept s"
  shows "kept (snd (create_org oid mid rid creator name s))"
  unfolding create_org_def
proof (rule kept_tx [OF assms])
  fix x s4
  assume "create_tx oid mid rid creator name s = (Inr x, s4)"
  then obtain s1 m s2 owner s3 where
    c: "create_organization \<lparr> or_id = oid, or_name = name, or_slug = slugify name \<rparr> s = (Inr x, s1)"
      "create_member \<lparr> mb_id = mid, mb_org = or_id x, mb_user = creator \<rparr> s1 = (Inr m, s2)"
      "copy_roles rid (or_id x) (list_template_roles s2) nil_uuid s2 = (Inr owner, s3)"
      "add_member_role (mb_id m) owner s3 = (Inr (), s4)"
    by (auto simp: create_tx_def and_then_Inr)
  have ok: "tenancy_ok s" using assms by (simp add: kept_def)
  from founding [OF c(1,2) _ c(3) ok] have f: "builds s s3" "orgs s3 = orgs s @ [x]" "owner_role (or_id x) owner s3"
    "m \<in> set (org_members s3)" "mb_org m = or_id x" by simp_all
  with owner_installed [OF c(4)] have "builds s s4 \<and> orgs s4 = orgs s3 \<and> owned (or_id x) s4" by simp
  with f(2) show "kept s4" using kept_founding assms by metis
qed

lemma kept_organizer:
  assumes "kept s" "nil_uuid \<notin> range rid"
  shows "kept (snd (admin_create_organizer hash uid oid mid rid q s))"
proof -
  have "kept (snd (tenancy_tx (organizer_tx uid oid mid rid q) s))"
  proof (rule kept_tx [OF assms(1)])
    fix x s4
    assume run: "organizer_tx uid oid mid rid q s = (Inr x, s4)"
    let ?x = "\<lparr> or_id = oid, or_name = oq_name q, or_slug = (if oq_slug q = '''' then slugify (oq_name q) else oq_slug q) \<rparr>"
    from run obtain u s0 s1 m s2 owner s3 where
      c: "lead_user uid q s = (Inr u, s0)" "create_organization ?x s0 = (Inr x, s1)"
        "create_member \<lparr> mb_id = mid, mb_org = or_id x, mb_user = u_id u \<rparr> s1 = (Inr m, s2)"
        "copy_roles rid (or_id x) (list_template_roles s2) nil_uuid s2 = (Inr owner, s3)"
        "(if owner \<noteq> nil_uuid then add_member_role (mb_id m) owner s3 else (Inr (), s3)) = (Inr (), s4)"
      by (auto simp: organizer_tx_def and_then_Inr simp del: if_split)
    have "builds s s" using assms(1) by (simp add: builds_def kept_def)
    then have b: "builds s (snd (lead_user uid q s))" by (simp add: lead_user_def builds_create_user split: option.split)
    moreover have "orgs (snd (lead_user uid q s)) = orgs s" by (simp add: lead_user_def create_user_def split: option.split)
    ultimately have s0: "builds s s0" "orgs s0 = orgs s" "tenancy_ok s0" using c(1) by (simp_all add: builds_def)
    then have k0: "kept s0" using assms(1) kept_builds by blast
    from founding [OF c(2,3) _ c(4) s0(3)] have f: "builds s0 s3" "orgs s3 = orgs s0 @ [x]" "owner_role (or_id x) owner s3"
      "m \<in> set (org_members s3)" "mb_org m = or_id x" "owner \<in> range rid" by simp_all
    then have "owner \<noteq> nil_uuid" using assms(2) by metis
    with c(5) have c5: "add_member_role (mb_id m) owner s3 = (Inr (), s4)" by simp
    from owner_installed [OF c5 f(1)] f(3-5) have "builds s0 s4 \<and> orgs s4 = orgs s3 \<and> owned (or_id x) s4" by simp
    with f(2) show "kept s4" using kept_founding k0 by metis
  qed
  then show ?thesis using assms(1) unfolding admin_create_organizer_def
    by (intro and_then_inv [where I = kept]) (simp_all add: require_def)
qed


lemma add_member_roles_frame:
  "orgs (snd (add_member_roles m rs t)) = orgs t \<and> org_members (snd (add_member_roles m rs t)) = org_members t \<and>
   roles (snd (add_member_roles m rs t)) = roles t"
proof (induction rs arbitrary: t)
  case (Cons r rs)
  show ?case unfolding add_member_roles.simps
    by (rule and_then_inv [where I = "\<lambda>x. orgs x = orgs t \<and> org_members x = org_members t \<and> roles x = roles t"])
      (simp_all add: add_member_role_def Cons.IH)
qed simp

definition roles_in :: "uuid \<Rightarrow> uuid list \<Rightarrow> role list \<Rightarrow> bool" where
  "roles_in org rs tab \<longleftrightarrow> (\<forall>r \<in> set rs. \<forall>y \<in> set tab. rl_id y = r \<longrightarrow> rl_org y = Some org)"

lemma add_member_roles_builds:
  "builds s t \<Longrightarrow> m \<in> set (org_members t) \<Longrightarrow> roles_in (mb_org m) rs (roles t) \<Longrightarrow> builds s (snd (add_member_roles (mb_id m) rs t))"
proof (induction rs arbitrary: t)
  case (Cons r rs)
  have "link_ok t (mb_id m, r)" if "r \<in> rl_id ` set (roles t)" using Cons.prems(2,3) that by (auto simp: link_ok_def roles_in_def)
  then have b: "builds s (snd (add_member_role (mb_id m) r t))" using Cons.prems(1) by (intro builds_add_member_role)
  show ?case unfolding add_member_roles.simps
  proof (rule builds_chain [OF b])
    fix a u
    assume u: "add_member_role (mb_id m) r t = (Inr a, u)" "builds s u"
    then have "org_members u = org_members t" "roles u = roles t" by (auto simp: add_member_role_def split: if_splits)
    with u Cons show "builds s (snd (add_member_roles (mb_id m) rs u))" by (auto simp: roles_in_def)
  qed
qed simp

lemma add_member_roles_links: "add_member_roles m rs t = (Inr u, t') \<Longrightarrow> r \<in> set rs \<Longrightarrow> (m, r) \<in> set (member_roles t')"
proof (induction rs arbitrary: t)
  case (Cons x rs)
  then obtain t1 where t1: "add_member_role m x t = (Inr (), t1)" "add_member_roles m rs t1 = (Inr u, t')" by (auto simp: and_then_Inr)
  have keep: "set (member_roles w) \<subseteq> set (member_roles (snd (add_member_roles m qs w)))" for qs w
  proof (induction qs arbitrary: w)
    case (Cons q qs)
    show ?case unfolding add_member_roles.simps
      by (rule and_then_inv [where I = "\<lambda>z. set (member_roles w) \<subseteq> set (member_roles z)"])
        (auto simp: add_member_role_def dest: Cons.IH [THEN subsetD])
  qed simp
  from t1(1) have "(m, x) \<in> set (member_roles t1)" by (auto simp: add_member_role_def split: if_splits)
  with keep [of t1 rs] t1(2) Cons show ?case by auto
qed simp

lemma assert_roles_Inr:
  "assert_roles_in_org org rs s = Inr u \<Longrightarrow> distinct (map rl_id (roles s)) \<Longrightarrow> roles_in org rs (roles s)"
proof (induction rs)
  case (Cons r rs)
  then obtain x where x: "get_role_by_id r s = Some x" "rl_org x = Some org" "assert_roles_in_org org rs s = Inr u"
    by (auto split: option.splits if_splits)
  have "x \<in> set (roles s)" "rl_id x = r" using x(1) by (auto simp: get_role_by_id_def dest: sel_SomeD)
  then have "y = x" if "y \<in> set (roles s)" "rl_id y = r" for y using that Cons.prems(2) by (auto simp: distinct_map intro: inj_onD)
  with x Cons show ?case by (auto simp: roles_in_def)
qed (simp add: roles_in_def)

lemma kept_add:
  assumes "kept s"
  shows "kept (snd (add_org_member mid org email rs s))"
proof -
  have "kept (snd (tenancy_tx (add_tx mid org u rs) s))" if "assert_roles_in_org org rs s = Inr ()" for u
  proof (rule kept_tx [OF assms])
    fix m t
    assume "add_tx mid org u rs s = (Inr m, t)"
    then obtain s1 where c: "create_member \<lparr> mb_id = mid, mb_org = org, mb_user = u \<rparr> s = (Inr m, s1)"
      "add_member_roles (mb_id m) rs s1 = (Inr (), t)" by (auto simp: add_tx_def and_then_Inr)
    have m: "m = \<lparr> mb_id = mid, mb_org = org, mb_user = u \<rparr>" "s1 = s\<lparr>org_members := org_members s @ [m]\<rparr>"
      using c(1) by (auto simp: create_member_def split: if_splits)
    have ok: "tenancy_ok s" using assms by (simp add: kept_def)
    then have "builds s s" by (simp add: builds_def)
    from builds_create_member [OF this, of "\<lparr> mb_id = mid, mb_org = org, mb_user = u \<rparr>"] c(1) have b: "builds s s1" by simp
    have "roles_in org rs (roles s)" using assert_roles_Inr [OF that] ok by (simp add: tenancy_ok_def)
    then have "builds s (snd (add_member_roles (mb_id m) rs s1))" using b m by (intro add_member_roles_builds) simp_all
    moreover have "orgs (snd (add_member_roles (mb_id m) rs s1)) = orgs s" using add_member_roles_frame m by simp
    ultimately show "kept t" using c(2) kept_builds assms by simp
  qed
  moreover have "kept (tenancy_audit a i t)" if "kept t" for a i t
    using that kept_builds [of t "tenancy_audit a i t"] builds_audit [of t t] by (simp add: kept_def builds_def)
  ultimately show ?thesis using assms unfolding add_org_member_def
    by (auto simp: and_then_def found_def require_def split: option.split sum.split prod.split) (metis snd_conv)+
qed

lemma unique_member: "tenancy_ok s \<Longrightarrow> x \<in> set (org_members s) \<Longrightarrow> y \<in> set (org_members s) \<Longrightarrow> mb_id x = mb_id y \<Longrightarrow> x = y"
  by (auto simp: tenancy_ok_def distinct_map dest: inj_onD)

lemma unique_role: "tenancy_ok s \<Longrightarrow> x \<in> set (roles s) \<Longrightarrow> y \<in> set (roles s) \<Longrightarrow> rl_id x = rl_id y \<Longrightarrow> x = y"
  by (auto simp: tenancy_ok_def distinct_map dest: inj_onD)

text \<open>A member that passes the guard is not the only owner.\<close>

lemma other_owner:
  assumes "kept s" "m \<in> set (org_members s)" "guard_last_owner (mb_org m) (mb_id m) s = Inr ()"
  shows "\<exists>x \<in> set (org_members s). mb_org x = mb_org m \<and> mb_id x \<noteq> mb_id m \<and> owner_of (mb_org m) (mb_id x) s"
proof -
  have ok: "tenancy_ok s" using assms(1) by (simp add: kept_def)
  then have "mb_org m \<in> or_id ` set (orgs s)" using assms(2) by (auto simp: tenancy_ok_def)
  then have "owned (mb_org m) s" using assms(1) by (auto simp: kept_def all_owned_def)
  then obtain x where x: "x \<in> set (org_members s)" "mb_org x = mb_org m" "owner_of (mb_org m) (mb_id x) s" by (auto simp: owned_def)
  show ?thesis
  proof (cases "mb_id x = mb_id m")
    case True
    then have "x = m" using unique_member [OF ok x(1) assms(2)] by simp
    with x(3) have "member_has_role_slug (mb_id m) ''owner'' s" by (auto simp: member_has_role_slug_def owner_of_def roles_of_def)
    then have two: "1 < length (remdups (map fst (owner_links (mb_org m) s)))" (is "1 < length ?ids")
      using assms(3) by (auto simp: guard_last_owner_def count_owners_in_org_def split: if_splits)
    then have pos: "0 < length ?ids" by linarith
    then have "?ids ! 0 = ?ids ! 1 \<longleftrightarrow> (0::nat) = 1" using two by (intro nth_eq_iff_index_eq distinct_remdups)
    then have "?ids ! 0 \<noteq> ?ids ! 1" by simp
    moreover have "?ids ! 0 \<in> set ?ids" "?ids ! 1 \<in> set ?ids" using nth_mem [OF pos] nth_mem [OF two] .
    ultimately obtain a where a: "a \<in> set ?ids" "a \<noteq> mb_id m" by metis
    then obtain r y where y: "(a, r) \<in> set (member_roles s)" "y \<in> set (roles s)" "rl_id y = r" "rl_org y = Some (mb_org m)" "rl_slug y = ''owner''"
      by (auto simp: owner_links_def)
    then have "link_ok s (a, r)" using ok by (auto simp: tenancy_ok_def)
    then obtain z w where z: "z \<in> set (org_members s)" "mb_id z = a" "w \<in> set (roles s)" "rl_id w = r" "rl_org w = Some (mb_org z)"
      by (auto simp: link_ok_def)
    then have "w = y" using unique_role [OF ok] y(2,3) by metis
    with z y a(2) show ?thesis by (auto simp: owner_of_def)
  qed (use x in blast)
qed

text \<open>Taking rows of one member away keeps the other owners.\<close>

lemma owned_without:
  assumes "owned org s" "\<And>x. x \<in> set (org_members s) \<Longrightarrow> mb_id x \<noteq> i \<Longrightarrow> x \<in> set (org_members t)" "set (roles s) \<subseteq> set (roles t)"
    "\<And>l. l \<in> set (member_roles s) \<Longrightarrow> fst l \<noteq> i \<Longrightarrow> l \<in> set (member_roles t)"
    "\<And>x. x \<in> set (org_members s) \<Longrightarrow> mb_org x = org \<Longrightarrow> mb_id x \<noteq> i \<or>
       (\<exists>z \<in> set (org_members s). mb_org z = org \<and> mb_id z \<noteq> i \<and> owner_of org (mb_id z) s)"
  shows "owned org t"
proof -
  obtain x where x: "x \<in> set (org_members s)" "mb_org x = org" "owner_of org (mb_id x) s" using assms(1) by (auto simp: owned_def)
  with assms(5) [OF x(1,2)] obtain z where z: "z \<in> set (org_members s)" "mb_org z = org" "mb_id z \<noteq> i" "owner_of org (mb_id z) s" by auto
  from z(4) obtain r where r: "r \<in> set (roles s)" "(mb_id z, rl_id r) \<in> set (member_roles s)" "rl_org r = Some org" "rl_slug r = ''owner''"
    by (auto simp: owner_of_def)
  then show ?thesis using z(1-3) assms(2) [OF z(1,3)] assms(3) assms(4) [OF r(2)] by (auto simp: owned_def owner_of_def)
qed

lemma load_member_Inr: "load_org_member org i s = Inr m \<Longrightarrow> m \<in> set (org_members s) \<and> mb_id m = i \<and> mb_org m = org"
  by (auto simp: load_org_member_def get_member_by_id_def split: option.splits if_splits dest: sel_SomeD)

lemma kept_audit: "kept s \<Longrightarrow> kept (tenancy_audit a i s)"
  using kept_builds [of s "tenancy_audit a i s"] builds_audit [of s s] by (simp add: kept_def builds_def)

lemma remaining_owner:
  assumes "kept s" "m \<in> set (org_members s)" "guard_last_owner (mb_org m) (mb_id m) s = Inr ()"
    "x \<in> set (org_members s)" "mb_org x = org"
  shows "mb_id x \<noteq> mb_id m \<or> (\<exists>z \<in> set (org_members s). mb_org z = org \<and> mb_id z \<noteq> mb_id m \<and> owner_of org (mb_id z) s)"
proof (cases "mb_id x = mb_id m")
  case True
  then have "x = m" using unique_member assms(1,2,4) by (auto simp: kept_def)
  then show ?thesis using other_owner [OF assms(1-3)] assms(5) by auto
qed simp

lemma kept_remove:
  assumes "kept s"
  shows "kept (snd (remove_member org i s))"
proof -
  have "kept (delete_member i org s)" if m: "load_org_member org i s = Inr m" and g: "guard_last_owner org (mb_id m) s = Inr ()" for m
  proof -
    have mem: "m \<in> set (org_members s)" "mb_id m = i" "mb_org m = org" using load_member_Inr [OF m] by simp_all
    let ?t = "delete_member i org s"
    have ok: "tenancy_ok s" using assms by (simp add: kept_def)
    have gone: "mb_id ` set (filter (\<lambda>m. mb_id m = i \<and> mb_org m = org) (org_members s)) = {i}" using mem by auto
    then have t: "orgs ?t = orgs s" "roles ?t = roles s" "role_permissions ?t = role_permissions s" "permissions ?t = permissions s"
      "org_members ?t = filter (\<lambda>m. \<not> (mb_id m = i \<and> mb_org m = org)) (org_members s)"
      "member_roles ?t = filter (\<lambda>(m, r). m \<noteq> i) (member_roles s)"
      by (simp_all add: delete_member_def Let_def)
    have keep: "x \<in> set (org_members ?t)" if "x \<in> set (org_members s)" "mb_id x \<noteq> i" for x using that by (simp add: t)
    have links: "link_ok ?t l" if "l \<in> set (member_roles ?t)" for l
    proof -
      have "link_ok s l" "fst l \<noteq> i" using that ok by (auto simp: t(6) tenancy_ok_def)
      then show ?thesis using keep by (fastforce simp: link_ok_def t(2))
    qed
    have "tenancy_ok ?t" using ok links by (simp add: tenancy_ok_def t distinct_map_filter)
    moreover have "owned o' ?t" if "owned o' s" for o'
    proof (rule owned_without [OF that, of i])
      fix x
      assume "x \<in> set (org_members s)" "mb_org x = o'"
      then show "mb_id x \<noteq> i \<or> (\<exists>z \<in> set (org_members s). mb_org z = o' \<and> mb_id z \<noteq> i \<and> owner_of o' (mb_id z) s)"
        using remaining_owner [OF assms mem(1)] g mem by simp
    qed (auto simp: t keep)
    ultimately show ?thesis using assms by (simp add: kept_def all_owned_def t)
  qed
  then show ?thesis using assms unfolding remove_member_def remove_member_at_def
    by (auto simp: and_then_def kept_audit split: sum.split)
qed

lemma names_owner_True: "names_owner rs s = Inr True \<Longrightarrow> \<exists>x \<in> set (roles s). rl_id x \<in> set rs \<and> rl_slug x = ''owner''"
  by (induction rs) (auto simp: get_role_by_id_def split: option.splits if_splits dest!: sel_SomeD)

lemma kept_set_roles:
  assumes "kept s" "m \<in> set (org_members s)" "roles_in (mb_org m) rs (roles s)"
    "names_owner rs s = Inr True \<or> guard_last_owner (mb_org m) (mb_id m) s = Inr ()"
    "set_roles_tx (mb_id m) rs s = (Inr u, t)"
  shows "kept t"
proof -
  let ?c = "clear_member_roles (mb_id m) s"
  have ok: "tenancy_ok s" using assms(1) by (simp add: kept_def)
  have c: "orgs ?c = orgs s" "org_members ?c = org_members s" "roles ?c = roles s" "permissions ?c = permissions s"
    "role_permissions ?c = role_permissions s" "member_roles ?c = filter (\<lambda>(x, r). x \<noteq> mb_id m) (member_roles s)"
    by (simp_all add: clear_member_roles_def)
  have "link_ok ?c l = link_ok s l" for l by (simp add: link_ok_def c)
  then have "tenancy_ok ?c" using ok by (auto simp: tenancy_ok_def c)
  then have "builds ?c ?c" by (simp add: builds_def)
  then have b: "builds ?c t" and f: "orgs t = orgs s" "org_members t = org_members s" "roles t = roles s"
    using add_member_roles_builds [of ?c ?c m rs] add_member_roles_frame [of "mb_id m" rs ?c] assms(2,3,5) c
    by (auto simp: set_roles_tx_def)
  have sub: "l \<in> set (member_roles t)" if "l \<in> set (member_roles s)" "fst l \<noteq> mb_id m" for l
    using that b by (auto simp: builds_def extends_def c)
  have "owned o' t" if own: "owned o' s" for o'
  proof (cases "names_owner rs s = Inr True \<and> o' = mb_org m")
    case True
    then obtain x where x: "x \<in> set (roles s)" "rl_id x \<in> set rs" "rl_slug x = ''owner''" using names_owner_True by blast
    then have "rl_org x = Some (mb_org m)" using assms(3) by (auto simp: roles_in_def)
    moreover have "(mb_id m, rl_id x) \<in> set (member_roles t)" using add_member_roles_links assms(5) x(2) by (auto simp: set_roles_tx_def)
    ultimately show ?thesis using x True assms(2) f by (auto simp: owned_def owner_of_def)
  next
    case False
    show ?thesis
    proof (rule owned_without [OF own, of "mb_id m"])
      fix x
      assume x: "x \<in> set (org_members s)" "mb_org x = o'"
      show "mb_id x \<noteq> mb_id m \<or> (\<exists>z \<in> set (org_members s). mb_org z = o' \<and> mb_id z \<noteq> mb_id m \<and> owner_of o' (mb_id z) s)"
      proof (cases "guard_last_owner (mb_org m) (mb_id m) s = Inr ()")
        case True
        then show ?thesis using remaining_owner [OF assms(1,2) True x] by simp
      next
        case no: False
        with False assms(4) have "o' \<noteq> mb_org m" by simp
        then show ?thesis using unique_member [OF ok x(1) assms(2)] x(2) by auto
      qed
    qed (auto simp: f sub)
  qed
  then show ?thesis using b assms(1) by (simp add: kept_def builds_def all_owned_def f)
qed

lemma kept_update_roles:
  assumes "kept s"
  shows "kept (snd (update_member_roles org i rs s))"
proof (cases "load_org_member org i s")
  case (Inr m)
  have mem: "m \<in> set (org_members s)" "mb_org m = org" using load_member_Inr [OF Inr] by simp_all
  show ?thesis
  proof (cases "assert_roles_in_org org rs s")
    case roles: (Inr u)
    have ri: "roles_in (mb_org m) rs (roles s)" using assert_roles_Inr [of org rs s u] roles assms mem(2) by (simp add: kept_def tenancy_ok_def)
    show ?thesis
    proof (cases "names_owner rs s")
      case keeps: (Inr b)
      have tx: "kept (snd (tenancy_tx (set_roles_tx (mb_id m) rs) s))" if "b \<or> guard_last_owner org (mb_id m) s = Inr ()"
        using kept_set_roles [OF assms mem(1) ri] that keeps mem(2) by (intro kept_tx [OF assms]) auto
      then show ?thesis using Inr roles keeps assms unfolding update_member_roles_def
        by (cases "tenancy_tx (set_roles_tx (mb_id m) rs) s"; cases b; cases "guard_last_owner org (mb_id m) s")
          (auto simp: and_then_def kept_audit split: sum.split)
    qed (use Inr roles assms in \<open>simp add: update_member_roles_def\<close>)
  qed (use Inr assms in \<open>simp add: update_member_roles_def\<close>)
qed (use assms in \<open>simp add: update_member_roles_def\<close>)

lemma kept_create_role:
  assumes "kept s"
  shows "kept (snd (create_org_role i org name ks s))"
proof -
  have "kept (snd (tenancy_tx (role_tx i org name ps) s))" for ps
  proof (rule kept_tx [OF assms])
    fix r t
    assume run: "role_tx i org name ps s = (Inr r, t)"
    have "builds s s" using assms by (simp add: kept_def builds_def)
    then have "builds s (snd (role_tx i org name ps s))" unfolding role_tx_def
      by (intro builds_chain builds_create_role builds_add_role_permissions) simp_all
    moreover have "orgs (snd (role_tx i org name ps s)) = orgs s" unfolding role_tx_def
    proof (rule and_then_inv [where I = "\<lambda>x. orgs x = orgs s"])
      fix a :: role and t1 :: tenancy
      assume "orgs t1 = orgs s"
      moreover have "orgs (snd (add_role_permissions r' ps' u)) = orgs u" for r' ps' u
      proof (induction ps' arbitrary: u)
        case (Cons p ps')
        show ?case unfolding add_role_permissions.simps
          by (rule and_then_inv [where I = "\<lambda>x. orgs x = orgs u"]) (simp_all add: add_role_permission_def Cons.IH)
      qed simp
      ultimately show "orgs (snd (and_then (add_role_permissions (rl_id a) ps t1) (\<lambda>_ s. (Inr a, s)))) = orgs s"
        by (intro and_then_inv [where I = "\<lambda>x. orgs x = orgs s"]) simp_all
    qed (simp add: create_role_def)
    ultimately show "kept t" using run kept_builds assms by simp
  qed
  then show ?thesis using assms unfolding create_org_role_def by (auto simp: and_then_def require_def split: sum.split)
qed

text \<open>Renaming a role and replacing its permissions leaves what the links name.\<close>

definition role_key :: "role \<Rightarrow> uuid \<times> uuid option \<times> string" where
  "role_key r = (rl_id r, rl_org r, rl_slug r)"

lemma ex_role: "(\<exists>r \<in> set rs. P (rl_id r) (rl_org r) (rl_slug r)) \<longleftrightarrow> (\<exists>(i, org, sl) \<in> role_key ` set rs. P i org sl)"
  by (auto simp: role_key_def)

lemma kept_similar:
  assumes "kept s" "orgs t = orgs s" "org_members t = org_members s" "member_roles t = member_roles s"
    "permissions t = permissions s" "map role_key (roles t) = map role_key (roles s)"
    "set (role_permissions t) \<subseteq> rl_id ` set (roles t) \<times> pm_id ` set (permissions t)"
  shows "kept t"
proof -
  have keys: "role_key ` set (roles t) = role_key ` set (roles s)" using assms(6) by (metis image_set)
  have same: "(\<exists>r \<in> set (roles t). P (rl_id r) (rl_org r) (rl_slug r)) \<longleftrightarrow> (\<exists>r \<in> set (roles s). P (rl_id r) (rl_org r) (rl_slug r))" for P
    unfolding ex_role keys ..
  have "map rl_id (roles t) = map rl_id (roles s)"
    using arg_cong [OF assms(6), of "map fst"] by (simp add: role_key_def comp_def)
  then have d: "distinct (map rl_id (roles t)) = distinct (map rl_id (roles s))" by simp
  have refs: "(\<forall>r \<in> set (roles t). references (rl_org r) os) = (\<forall>r \<in> set (roles s). references (rl_org r) os)" for os
    using same [of "\<lambda>i org sl. \<not> references org os"] by blast
  have links: "link_ok t l = link_ok s l" for l
  proof -
    have e: "(\<exists>r \<in> set (roles t). l = (mb_id m, rl_id r) \<and> rl_org r = Some (mb_org m)) =
      (\<exists>r \<in> set (roles s). l = (mb_id m, rl_id r) \<and> rl_org r = Some (mb_org m))" for m
      using same [of "\<lambda>i org sl. l = (mb_id m, i) \<and> org = Some (mb_org m)"] .
    show ?thesis unfolding link_ok_def assms(3) by (rule bex_cong [OF refl]) (rule e)
  qed
  have tmpl: "(\<exists>x \<in> set (roles t). rl_org x = None \<and> rl_slug x = ''owner'') = (\<exists>x \<in> set (roles s). rl_org x = None \<and> rl_slug x = ''owner'')"
    using same [of "\<lambda>i org sl. org = None \<and> sl = ''owner''"] .
  have own: "owner_of org m t = owner_of org m s" for org m
    using same [of "\<lambda>i x sl. (m, i) \<in> set (member_roles s) \<and> x = Some org \<and> sl = ''owner''"] by (simp add: owner_of_def assms(4))
  have "tenancy_ok t" using assms(1,7) by (auto simp: kept_def tenancy_ok_def assms(2-5) d refs links tmpl)
  moreover have "all_owned t" using assms(1) by (simp add: kept_def all_owned_def owned_def own assms(2,3))
  ultimately show ?thesis by (simp add: kept_def)
qed

lemma add_role_permissions_frame:
  "orgs (snd (add_role_permissions r ps u)) = orgs u \<and> org_members (snd (add_role_permissions r ps u)) = org_members u \<and>
   member_roles (snd (add_role_permissions r ps u)) = member_roles u \<and> permissions (snd (add_role_permissions r ps u)) = permissions u"
proof (induction ps arbitrary: u)
  case (Cons p ps)
  show ?case unfolding add_role_permissions.simps
    by (rule and_then_inv [where I = "\<lambda>x. orgs x = orgs u \<and> org_members x = org_members u \<and> member_roles x = member_roles u \<and> permissions x = permissions u"])
      (simp_all add: add_role_permission_def Cons.IH)
qed simp

lemma kept_permissions:
  assumes "kept s"
  shows "kept (snd (add_role_permissions r ps (clear_role_permissions r s)))"
proof -
  let ?c = "clear_role_permissions r s"
  let ?t = "snd (add_role_permissions r ps ?c)"
  have "tenancy_ok s" using assms by (simp add: kept_def)
  then have "tenancy_ok ?c" by (auto simp: tenancy_ok_def clear_role_permissions_def link_ok_def)
  then have "builds ?c ?t" by (intro builds_add_role_permissions) (simp add: builds_def)
  then have "set (role_permissions ?t) \<subseteq> rl_id ` set (roles ?t) \<times> pm_id ` set (permissions ?t)"
    by (force simp: builds_def tenancy_ok_def)
  then show ?thesis using kept_similar [OF assms, of ?t] add_role_permissions_frame [of r ps ?c] roles_add_role_permissions [of r ps ?c]
    by (simp add: clear_role_permissions_def)
qed

lemma kept_rename:
  assumes "kept s"
  shows "kept (snd (update_role_name i n org s))"
proof -
  have "kept (s\<lparr>roles := upd P (\<lambda>r. r\<lparr>rl_name := n\<rparr>) (roles s)\<rparr>)" for P
  proof (rule kept_similar [OF assms])
    have k: "map role_key (upd P (\<lambda>r. r\<lparr>rl_name := n\<rparr>) (roles s)) = map role_key (roles s)"
      by (rule map_upd) (simp add: role_key_def)
    then show "map role_key (roles (s\<lparr>roles := upd P (\<lambda>r. r\<lparr>rl_name := n\<rparr>) (roles s)\<rparr>)) = map role_key (roles s)" by simp
    have ids: "map rl_id (upd P (\<lambda>r. r\<lparr>rl_name := n\<rparr>) (roles s)) = map rl_id (roles s)" by (rule map_upd) simp
    have "rl_id ` set (upd P (\<lambda>r. r\<lparr>rl_name := n\<rparr>) (roles s)) = rl_id ` set (roles s)"
      using ids by (metis image_set)
    then show "set (role_permissions (s\<lparr>roles := upd P (\<lambda>r. r\<lparr>rl_name := n\<rparr>) (roles s)\<rparr>))
       \<subseteq> rl_id ` set (roles (s\<lparr>roles := upd P (\<lambda>r. r\<lparr>rl_name := n\<rparr>) (roles s)\<rparr>)) \<times>
         pm_id ` set (permissions (s\<lparr>roles := upd P (\<lambda>r. r\<lparr>rl_name := n\<rparr>) (roles s)\<rparr>))"
      using assms by (force simp: kept_def tenancy_ok_def)
  qed simp_all
  then show ?thesis using assms by (auto simp: update_role_name_def upd_one_def split: option.split)
qed

lemma kept_change_role:
  assumes "kept s"
  shows "kept (snd (tenancy_tx (change_role_tx i org name ps) s))"
proof -
  have perms: "kept (snd (case ps of None \<Rightarrow> (Inr (), t) | Some ps \<Rightarrow> add_role_permissions i ps (clear_role_permissions i t)))"
    if "kept t" for ps t using that kept_permissions by (simp split: option.split)
  have "kept (snd (change_role_tx i org name ps s))" for ps unfolding change_role_tx_def
  proof (rule and_then_inv [where I = kept])
    show "kept (snd (case name of None \<Rightarrow> (Inr (), s) | Some n \<Rightarrow> and_then (update_role_name i n org s) (\<lambda>_ s. (Inr (), s))))"
      using assms kept_rename [OF assms] by (auto intro: and_then_inv [where I = kept] split: option.split)
  qed (rule perms)
  then show ?thesis using assms by (intro kept_tx) (metis snd_conv)+
qed

lemma kept_update_role: "kept s \<Longrightarrow> kept (snd (update_org_role org i name ks s))"
  unfolding update_org_role_def
  by (intro and_then_inv [where I = kept])
    (auto simp: require_def and_then_def kept_change_role split: option.split sum.split)

text \<open>A role that no member has can be dropped.\<close>

lemma kept_delete_role:
  assumes "kept s"
  shows "kept (snd (delete_org_role org i s))"
proof -
  have "kept (delete_role i org s)" if free: "count_members_with_role i s = 0"
  proof -
    let ?t = "delete_role i org s"
    let ?dead = "\<lambda>r. rl_id r = i \<and> rl_org r = Some org \<and> \<not> rl_system r"
    have ok: "tenancy_ok s" using assms by (simp add: kept_def)
    have none: "r \<noteq> i" if "(m, r) \<in> set (member_roles s)" for m r using free that by (auto simp: count_members_with_role_def cnt_def filter_empty_conv)
    have t: "orgs ?t = orgs s" "org_members ?t = org_members s" "permissions ?t = permissions s"
      "roles ?t = filter (\<lambda>r. \<not> ?dead r) (roles s)" "set (role_permissions ?t) \<subseteq> set (role_permissions s)"
      by (auto simp: delete_role_def Let_def)
    have "filter (\<lambda>(m, r). r \<notin> rl_id ` set (filter ?dead (roles s))) (member_roles s) = member_roles s"
      using none by (force intro!: filter_True)
    then have links: "member_roles ?t = member_roles s" by (simp add: delete_role_def Let_def)
    have kept_links: "link_ok ?t l" if "l \<in> set (member_roles s)" for l
    proof -
      from that ok have "link_ok s l" by (simp add: tenancy_ok_def)
      then obtain m r where m: "m \<in> set (org_members s)" "r \<in> set (roles s)" "l = (mb_id m, rl_id r)" "rl_org r = Some (mb_org m)"
        by (auto simp: link_ok_def)
      with none that have "rl_id r \<noteq> i" by blast
      with m have "r \<in> set (roles ?t)" by (simp add: t(4))
      with m show ?thesis unfolding link_ok_def t(2) by blast
    qed
    have gone: "(r, p) \<in> set (role_permissions ?t) \<Longrightarrow> (r, p) \<in> set (role_permissions s) \<and> r \<notin> rl_id ` set (filter ?dead (roles s))" for r p
      by (auto simp: delete_role_def Let_def)
    have perms: "fst l \<in> rl_id ` set (roles ?t) \<and> snd l \<in> pm_id ` set (permissions s)" if "l \<in> set (role_permissions ?t)" for l
    proof -
      obtain r p where l: "l = (r, p)" by (cases l)
      then have "(r, p) \<in> set (role_permissions s)" "r \<notin> rl_id ` set (filter ?dead (roles s))" using gone that by blast+
      then have "r \<in> rl_id ` set (roles s)" "p \<in> pm_id ` set (permissions s)" using ok by (auto simp: tenancy_ok_def)
      then show ?thesis using \<open>r \<notin> _\<close> l by (auto simp: t(4) image_iff)
    qed
    have "tenancy_ok ?t" using ok kept_links perms by (auto simp: tenancy_ok_def t(1-4) links distinct_map_filter)
    moreover have "owned o' ?t" if "owned o' s" for o'
    proof -
      from that obtain m r where m: "m \<in> set (org_members s)" "mb_org m = o'" "r \<in> set (roles s)" "(mb_id m, rl_id r) \<in> set (member_roles s)"
        "rl_org r = Some o'" "rl_slug r = ''owner''" by (auto simp: owned_def owner_of_def)
      then have "r \<in> set (roles ?t)" using none by (auto simp: t(4))
      with m links t(2) show ?thesis by (auto simp: owned_def owner_of_def)
    qed
    ultimately show ?thesis using assms by (simp add: kept_def all_owned_def t(1))
  qed
  then show ?thesis using assms unfolding delete_org_role_def
    by (auto simp: and_then_def require_def split: sum.split)
qed

section \<open>All operations together\<close>

inductive tenancy_step :: "tenancy \<Rightarrow> tenancy \<Rightarrow> bool" where
  "tenancy_step s (snd (create_org oid mid rid creator name s))"
| "nil_uuid \<notin> range rid \<Longrightarrow> tenancy_step s (snd (admin_create_organizer hash uid oid mid rid q s))"
| "tenancy_step s (snd (add_org_member mid org email rs s))"
| "tenancy_step s (snd (remove_member org i s))"
| "tenancy_step s (snd (update_member_roles org i rs s))"
| "tenancy_step s (snd (create_org_role i org name ks s))"
| "tenancy_step s (snd (update_org_role org i rename ks' s))"
| "tenancy_step s (snd (delete_org_role org i s))"
| "tenancy_step s (s\<lparr>tdesk := d\<rparr>)"

lemma step_kept: "tenancy_step s t \<Longrightarrow> kept s \<Longrightarrow> kept t"
proof (induction rule: tenancy_step.induct)
  case (9 s d)
  then show ?case using tables_cong(1,2) [of "s\<lparr>tdesk := d\<rparr>" s] by (simp add: kept_def)
qed (simp_all add: kept_create kept_organizer kept_add kept_remove kept_update_roles kept_create_role kept_update_role kept_delete_role)

lemma steps_kept: "tenancy_step\<^sup>*\<^sup>* s t \<Longrightarrow> kept s \<Longrightarrow> kept t"
  by (induction rule: rtranclp_induct) (auto intro: step_kept)

text \<open>C14: From a well-formed tenancy in which every organization has an owner, no sequence of the operations on
  organizations, members and roles, none running inside another, leaves an organization without a member who
  holds its owner role; the owner count that guards removals is never 0.\<close>

theorem every_org_keeps_an_owner:
  assumes "tenancy_step\<^sup>*\<^sup>* s t" "tenancy_ok s" "\<forall>x \<in> set (orgs s). owned (or_id x) s" "x \<in> set (orgs t)"
  shows "(\<exists>m \<in> set (org_members t). mb_org m = or_id x \<and> member_has_role_slug (mb_id m) ''owner'' t) \<and>
    0 < count_owners_in_org (or_id x) t"
proof -
  have "kept t" using steps_kept [OF assms(1)] assms(2,3) by (simp add: kept_def all_owned_def)
  then have "owned (or_id x) t" using assms(4) by (simp add: kept_def all_owned_def)
  then obtain m r where m: "m \<in> set (org_members t)" "mb_org m = or_id x" "r \<in> set (roles t)" "(mb_id m, rl_id r) \<in> set (member_roles t)"
    "rl_org r = Some (or_id x)" "rl_slug r = ''owner''" by (auto simp: owned_def owner_of_def)
  then have "(mb_id m, rl_id r) \<in> set (owner_links (or_id x) t)" by (auto simp: owner_links_def)
  then have "mb_id m \<in> set (remdups (map fst (owner_links (or_id x) t)))" by force
  then have "0 < count_owners_in_org (or_id x) t" unfolding count_owners_in_org_def by (rule length_pos_if_in_set)
  with m show ?thesis by (auto simp: member_has_role_slug_def roles_of_def)
qed

text \<open>C15: A caller who is not a platform admin passes the permission check of a route only as a member of the
  organization of the route, through a role of that same organization that carries one of the required
  permissions. Roles of other organizations never count.\<close>

theorem access_needs_a_role_of_the_org:
  assumes "tenancy_step\<^sup>*\<^sup>* s t" "kept s" "\<not> ca_admin c"
    "require_any_permission parse slug_of keys (Some c) raw_org raw_event t = Inr (org, ev)"
  shows "\<exists>m \<in> set (org_members t). \<exists>r \<in> set (roles t). \<exists>p \<in> set (permissions t).
    mb_org m = org \<and> mb_user m = ca_user c \<and> rl_org r = Some org \<and> (mb_id m, rl_id r) \<in> set (member_roles t) \<and>
    (rl_id r, pm_id p) \<in> set (role_permissions t) \<and> pm_key p \<in> set keys"
proof -
  have ok: "tenancy_ok t" using steps_kept [OF assms(1,2)] by (simp add: kept_def)
  obtain ks k where "load_permissions org (ca_user c) t = Some ks" "k \<in> set keys" "k \<in> set ks"
    using assms(3,4) by (auto simp: require_any_permission_def split: sum.splits prod.splits option.splits if_splits)
  then obtain m where m: "get_member_by_org_and_user org (ca_user c) t = Some m" "k \<in> set (list_permissions_for_member (mb_id m) t)"
    by (auto simp: load_permissions_def)
  then have mem: "m \<in> set (org_members t)" "mb_org m = org" "mb_user m = ca_user c"
    by (auto simp: get_member_by_org_and_user_def dest: sel_SomeD)
  from m(2) obtain p i where p: "p \<in> set (permissions t)" "pm_key p = k" "(mb_id m, i) \<in> set (member_roles t)" "(i, pm_id p) \<in> set (role_permissions t)"
    by (auto simp: list_permissions_for_member_def)
  then have "link_ok t (mb_id m, i)" using ok by (auto simp: tenancy_ok_def)
  then obtain z r where z: "z \<in> set (org_members t)" "mb_id z = mb_id m" "r \<in> set (roles t)" "rl_id r = i" "rl_org r = Some (mb_org z)"
    by (auto simp: link_ok_def)
  then have "z = m" using unique_member [OF ok] mem(1) by blast
  with z mem p \<open>k \<in> set keys\<close> show ?thesis by blast
qed

text \<open>The route check compares the event of the route with nothing: a member with the permission passes with
  any event id, an event of another organization included.\<close>

theorem event_owner_is_not_checked:
  assumes "parse raw_org = Some org" "parse raw_event = Some ev" "raw_event \<noteq> ''''" "\<not> ca_admin c"
    "load_permissions org (ca_user c) s = Some ks" "key \<in> set ks"
    "\<forall>e \<in> set (events (tdb s)). e_id e = ev \<longrightarrow> e_org e \<noteq> org"
  shows "require_permission parse slug_of key (Some c) raw_org raw_event s = Inr (org, Some ev)"
  using assms
  by (auto simp: require_permission_def require_any_permission_def route_params_def resolve_org_slug_def resolve_event_slug_def
      split: option.split dest: sel_SomeD)

text \<open>Only the templates are system roles.\<close>

definition system_free :: "tenancy \<Rightarrow> bool" where
  "system_free s \<longleftrightarrow> (\<forall>r \<in> set (roles s). rl_system r \<longrightarrow> rl_org r = None)"

text \<open>While only the templates are system roles, no organization can be told that a role is a system role: the
  guard of role changes never fires, since the owner role of an organization is a plain copy.\<close>

theorem system_role_guard_is_idle:
  assumes "system_free s"
  shows "fst (update_org_role org i name ks s) \<noteq> Inl ErrSystemRole \<and> fst (delete_org_role org i s) \<noteq> Inl ErrSystemRole"
proof -
  have plain: "\<not> rl_system r" if "load_org_role org i s = Inr r" for r
    using that assms by (fastforce simp: load_org_role_def get_role_by_id_def system_free_def split: option.splits if_splits dest: sel_SomeD)
  have load: "load_org_role org i t \<noteq> Inl ErrSystemRole" for t by (simp add: load_org_role_def split: option.split)
  have perms: "resolve_permissions ks t \<noteq> Inl ErrSystemRole" for ks t
    by (induction ks) (auto split: option.split sum.split)
  have adds: "fst (add_role_permissions i ps t) \<noteq> Inl ErrSystemRole" for ps t
    by (induction ps arbitrary: t) (auto simp: and_then_def add_role_permission_def split: sum.split prod.split)
  have tx: "fst (tenancy_tx (change_role_tx i org name ps) t) \<noteq> Inl ErrSystemRole" for ps t
    using adds by (auto simp: tenancy_tx_def change_role_tx_def and_then_def update_role_name_def
        split: option.splits sum.splits prod.splits dest: arg_cong [where f = fst])
  show ?thesis using plain load perms tx unfolding update_org_role_def delete_org_role_def
    by (auto simp: and_then_def require_def split: sum.split prod.split option.split dest: arg_cong [where f = fst])
qed

section \<open>Examples\<close>

definition tenancy_start :: tenancy where
  "tenancy_start = \<lparr> tdesk = desk_start, orgs = [], org_members = [],
     roles = [\<lparr> rl_id = 40, rl_org = None, rl_name = ''Owner'', rl_slug = ''owner'', rl_system = True \<rparr>],
     permissions = [\<lparr> pm_id = 60, pm_key = ''racepack.execute'', pm_description = '''' \<rparr>],
     role_permissions = [(40, 60)], member_roles = [] \<rparr>"

definition club :: tenancy where
  "club = snd (create_org 5 10 (\<lambda>i. i + 100) 7 ''Run Club!'' tenancy_start)"

lemma tenancy_start_kept: "kept tenancy_start"
  by (simp add: kept_def tenancy_ok_def all_owned_def tenancy_start_def references_def)

lemma club_reached: "tenancy_step\<^sup>*\<^sup>* tenancy_start club"
  unfolding club_def by (intro r_into_rtranclp tenancy_step.intros)

theorem every_org_keeps_an_owner_witness:
  "(\<exists>m \<in> set (org_members club). mb_org m = 5 \<and> member_has_role_slug (mb_id m) ''owner'' club) \<and> 0 < count_owners_in_org 5 club"
proof -
  have "orgs club = [\<lparr> or_id = 5, or_name = ''Run Club!'', or_slug = ''run-club'' \<rparr>]" by code_simp
  with every_org_keeps_an_owner [OF club_reached, of "\<lparr> or_id = 5, or_name = ''Run Club!'', or_slug = ''run-club'' \<rparr>"] tenancy_start_kept
  show ?thesis by (simp add: kept_def all_owned_def)
qed

definition parse_demo :: "string \<Rightarrow> uuid option" where
  "parse_demo x = (if x = ''five'' then Some 5 else if x = ''two'' then Some 2 else None)"

theorem access_needs_a_role_of_the_org_witness:
  "\<exists>m \<in> set (org_members club). \<exists>r \<in> set (roles club). \<exists>p \<in> set (permissions club).
    mb_org m = 5 \<and> mb_user m = 7 \<and> rl_org r = Some 5 \<and> (mb_id m, rl_id r) \<in> set (member_roles club) \<and>
    (rl_id r, pm_id p) \<in> set (role_permissions club) \<and> pm_key p \<in> set [''racepack.execute'']"
proof -
  have "require_any_permission parse_demo (\<lambda>_. '''') [''racepack.execute''] (Some \<lparr> ca_user = 7, ca_admin = False \<rparr>) ''five'' '''' club =
    Inr (5, None)" by code_simp
  from access_needs_a_role_of_the_org [OF club_reached tenancy_start_kept _ this] show ?thesis by simp
qed

theorem event_owner_is_not_checked_witness:
  "require_permission parse_demo (\<lambda>_. '''') ''racepack.execute'' (Some \<lparr> ca_user = 7, ca_admin = False \<rparr>) ''five'' ''two'' club = Inr (5, Some 2)"
proof (rule event_owner_is_not_checked)
  show "load_permissions 5 (ca_user \<lparr> ca_user = 7, ca_admin = False \<rparr>) club = Some [''racepack.execute'']" by code_simp
  show "\<forall>e \<in> set (events (tdb club)). e_id e = 2 \<longrightarrow> e_org e \<noteq> 5" by code_simp
qed (simp_all add: parse_demo_def)

theorem system_role_guard_is_idle_witness:
  "fst (update_org_role 5 140 (Some ''Boss'') (Some []) club) \<noteq> Inl ErrSystemRole \<and> fst (delete_org_role 5 140 club) \<noteq> Inl ErrSystemRole"
  by (rule system_role_guard_is_idle) code_simp

text \<open>Two owners who remove each other at the same time both pass the guard: no owner is left.\<close>

definition two_owners :: tenancy where
  "two_owners = club\<lparr>org_members := org_members club @ [\<lparr> mb_id = 11, mb_org = 5, mb_user = 8 \<rparr>],
     member_roles := member_roles club @ [(11, 140)]\<rparr>"

theorem racing_removals_leave_no_owner:
  "(let first = remove_member_at 5 10 two_owners two_owners; second = remove_member_at 5 11 two_owners (snd first)
    in fst first = Inr () \<and> fst second = Inr () \<and> count_owners_in_org 5 (snd second) = 0)"
  by code_simp

end
