(* ===== verification/QR.thy ===== *)
theory QR
  imports Prelude
begin

text \<open>
  Ticket QR tokens (\<open>services/api/internal/modules/tickets/qr/qr.go\<close>): base64url without
  padding, the JSON body, signing and the two ways to read a token. HMAC-SHA256, the JSON
  decoder and the text form of a UUID are parameters; bytes are numbers below 256.
\<close>

section \<open>\<open>base64.RawURLEncoding\<close>\<close>

definition b64_alphabet :: string where
  "b64_alphabet = ''ABCDEFGHIJKLMNOPQRSTUVWXYZabcdefghijklmnopqrstuvwxyz0123456789-_''"

definition b64_char :: "nat \<Rightarrow> char" where
  "b64_char n = b64_alphabet ! n"

definition b64_val :: "char \<Rightarrow> nat option" where
  "b64_val c = (let n = of_char c in
     if 65 \<le> n \<and> n \<le> 90 then Some (n - 65)
     else if 97 \<le> n \<and> n \<le> 122 then Some (n - 71)
     else if 48 \<le> n \<and> n \<le> 57 then Some (n + 4)
     else if n = 45 then Some 62
     else if n = 95 then Some 63 else None)"

fun b64_encode :: "nat list \<Rightarrow> string" where
  "b64_encode [] = []"
| "b64_encode [a] = [b64_char (a div 4), b64_char (a mod 4 * 16)]"
| "b64_encode [a, b] =
     [b64_char (a div 4), b64_char (a mod 4 * 16 + b div 16), b64_char (b mod 16 * 4)]"
| "b64_encode (a # b # c # bs) =
     b64_char (a div 4) # b64_char (a mod 4 * 16 + b div 16) #
     b64_char (b mod 16 * 4 + c div 64) # b64_char (c mod 64) # b64_encode bs"

text \<open>The decoder reads the values four at a time. It is not strict: surplus low bits of the last
  letter are dropped, and a single left-over letter is an error.\<close>

fun b64_bytes :: "nat list \<Rightarrow> nat list option" where
  "b64_bytes [] = Some []"
| "b64_bytes [a] = None"
| "b64_bytes [a, b] = Some [a * 4 + b div 16]"
| "b64_bytes [a, b, c] = Some [a * 4 + b div 16, b mod 16 * 16 + c div 4]"
| "b64_bytes (a # b # c # d # vs) =
     map_option (\<lambda>bs. (a * 4 + b div 16) # (b mod 16 * 16 + c div 4) # (c mod 4 * 64 + d) # bs)
       (b64_bytes vs)"

definition b64_decode :: "string \<Rightarrow> nat list option" where
  "b64_decode s = (let cs = filter (\<lambda>c. (of_char c :: nat) \<noteq> 10 \<and> (of_char c :: nat) \<noteq> 13) s in
     if list_all (\<lambda>c. b64_val c \<noteq> None) cs then b64_bytes (map (\<lambda>c. the (b64_val c)) cs) else None)"

section \<open>Tokens\<close>

text \<open>\<open>strings.Split(s, ".")\<close>\<close>

fun split_dot :: "string \<Rightarrow> string list" where
  "split_dot [] = [[]]"
| "split_dot (c # cs) =
     (case split_dot cs of
        [] \<Rightarrow> [[c]]
      | w # ws \<Rightarrow> if c = CHR ''.'' then [] # w # ws else (c # w) # ws)"

text \<open>\<open>strconv.Atoi\<close>: an optional sign, decimal digits, the range of int64.\<close>

definition atoi :: "string \<Rightarrow> int option" where
  "atoi s = (case (case s of
       [] \<Rightarrow> None
     | c # cs \<Rightarrow>
         if c = CHR ''-'' then map_option (\<lambda>n. - int n) (dec_val cs)
         else if c = CHR ''+'' then map_option int (dec_val cs)
         else map_option int (dec_val s)) of
     None \<Rightarrow> None
   | Some n \<Rightarrow> if - (2 ^ 63) \<le> n \<and> n < 2 ^ 63 then Some n else None)"

datatype qr_error = MalformedToken | UnsupportedVersion | InvalidSignature

record ticket_ref =
  ref_ticket :: uuid
  ref_event :: uuid
  ref_version :: int

record qr_payload =
  qp_tid :: string
  qp_eid :: string
  qp_v :: int

definition current_version :: int where
  "current_version = 1"

text \<open>\<open>json.Marshal(payload{..})\<close>, in the order of the fields; a UUID has nothing to escape.\<close>

definition marshal_payload :: "qr_payload \<Rightarrow> string" where
  "marshal_payload p = ''{'' @ [CHR 0x22] @ ''tid'' @ [CHR 0x22] @ '':'' @ [CHR 0x22] @ qp_tid p @ [CHR 0x22] @ '','' @
     [CHR 0x22] @ ''eid'' @ [CHR 0x22] @ '':'' @ [CHR 0x22] @ qp_eid p @ [CHR 0x22] @ '','' @
     [CHR 0x22] @ ''v'' @ [CHR 0x22] @ '':'' @ dec (nat (qp_v p)) @ ''}''"

definition to_bytes :: "string \<Rightarrow> nat list" where
  "to_bytes s = map of_char s"

definition of_bytes :: "nat list \<Rightarrow> string" where
  "of_bytes bs = map char_of bs"

definition mac_segment :: "(string \<Rightarrow> nat list) \<Rightarrow> string \<Rightarrow> string" where
  "mac_segment hmac input = b64_encode (hmac input)"

definition sign :: "(string \<Rightarrow> nat list) \<Rightarrow> (uuid \<Rightarrow> string) \<Rightarrow> uuid \<Rightarrow> uuid \<Rightarrow> string" where
  "sign hmac uuid_string tid eid =
     (let body = marshal_payload \<lparr> qp_tid = uuid_string tid, qp_eid = uuid_string eid,
                                  qp_v = current_version \<rparr>;
          ver_seg = dec (nat current_version);
          payload_seg = b64_encode (to_bytes body);
          input = ver_seg @ ''.'' @ payload_seg
      in input @ ''.'' @ mac_segment hmac input)"

definition split_token :: "string \<Rightarrow> qr_error + (string \<times> string \<times> string)" where
  "split_token token =
     (case split_dot token of [v, p, g] \<Rightarrow> Inr (v, p, g) | _ \<Rightarrow> Inl MalformedToken)"

definition decode_payload ::
  "(string \<Rightarrow> qr_payload option) \<Rightarrow> (string \<Rightarrow> uuid option) \<Rightarrow> string \<Rightarrow> string \<Rightarrow> qr_error + ticket_ref" where
  "decode_payload unmarshal parse_uuid ver_seg payload_seg =
     (if atoi ver_seg \<noteq> Some current_version then Inl UnsupportedVersion
      else case b64_decode payload_seg of
        None \<Rightarrow> Inl MalformedToken
      | Some raw \<Rightarrow>
          (case unmarshal (of_bytes raw) of
             None \<Rightarrow> Inl MalformedToken
           | Some p \<Rightarrow>
               (case parse_uuid (qp_tid p) of
                  None \<Rightarrow> Inl MalformedToken
                | Some tid \<Rightarrow>
                    (case parse_uuid (qp_eid p) of
                       None \<Rightarrow> Inl MalformedToken
                     | Some eid \<Rightarrow> Inr \<lparr> ref_ticket = tid, ref_event = eid, ref_version = qp_v p \<rparr>))))"

definition verify ::
  "(string \<Rightarrow> nat list) \<Rightarrow> (string \<Rightarrow> qr_payload option) \<Rightarrow> (string \<Rightarrow> uuid option) \<Rightarrow> string \<Rightarrow>
    qr_error + ticket_ref" where
  "verify hmac unmarshal parse_uuid token =
     (case split_token token of
        Inl e \<Rightarrow> Inl e
      | Inr (ver_seg, payload_seg, sig_seg) \<Rightarrow>
          if atoi ver_seg \<noteq> Some current_version then Inl UnsupportedVersion
          else if mac_segment hmac (ver_seg @ ''.'' @ payload_seg) \<noteq> sig_seg then Inl InvalidSignature
          else decode_payload unmarshal parse_uuid ver_seg payload_seg)"

definition decode_structure ::
  "(string \<Rightarrow> qr_payload option) \<Rightarrow> (string \<Rightarrow> uuid option) \<Rightarrow> string \<Rightarrow> qr_error + ticket_ref" where
  "decode_structure unmarshal parse_uuid token =
     (case split_token token of
        Inl e \<Rightarrow> Inl e
      | Inr (ver_seg, payload_seg, _) \<Rightarrow> decode_payload unmarshal parse_uuid ver_seg payload_seg)"

section \<open>Base64 round trip\<close>

lemma b64_alphabet_vals: "map b64_val b64_alphabet = map Some [0..<64]"
  by (simp add: b64_alphabet_def b64_val_def upt_conv_Cons)

lemma length_b64_alphabet [simp]: "length b64_alphabet = 64"
  by (simp add: b64_alphabet_def)

lemma b64_val_char [simp]: "n < 64 \<Longrightarrow> b64_val (b64_char n) = Some n"
  using arg_cong [OF b64_alphabet_vals, of "\<lambda>xs. xs ! n"] by (simp add: b64_char_def)

lemma b64_alphabet_plain:
  "\<forall>c \<in> set b64_alphabet. c \<noteq> CHR ''.'' \<and> (of_char c :: nat) \<noteq> 10 \<and> (of_char c :: nat) \<noteq> 13"
  by (simp add: b64_alphabet_def)

lemma b64_char_plain: "n < 64 \<Longrightarrow> b64_char n \<noteq> CHR ''.'' \<and> (of_char (b64_char n) :: nat) \<noteq> 10 \<and>
    (of_char (b64_char n) :: nat) \<noteq> 13"
  using b64_alphabet_plain nth_mem [of n b64_alphabet] by (simp add: b64_char_def)

text \<open>The letters \<open>b64_encode\<close> writes are those of values below 64.\<close>

fun b64_vals :: "nat list \<Rightarrow> nat list" where
  "b64_vals [] = []"
| "b64_vals [a] = [a div 4, a mod 4 * 16]"
| "b64_vals [a, b] = [a div 4, a mod 4 * 16 + b div 16, b mod 16 * 4]"
| "b64_vals (a # b # c # bs) =
     a div 4 # (a mod 4 * 16 + b div 16) # (b mod 16 * 4 + c div 64) # c mod 64 # b64_vals bs"

lemma b64_encode_vals: "b64_encode bs = map b64_char (b64_vals bs)"
  by (induction bs rule: b64_vals.induct) simp_all

lemma small_sum: "x < 4 \<Longrightarrow> y < 256 \<Longrightarrow> x * 16 + y div 16 < (64::nat)"
  "x < 16 \<Longrightarrow> y < 256 \<Longrightarrow> x * 4 + y div 64 < (64::nat)"
  by linarith+

lemma b64_vals_small: "\<forall>b \<in> set bs. b < 256 \<Longrightarrow> v \<in> set (b64_vals bs) \<Longrightarrow> v < 64"
  by (induction bs rule: b64_vals.induct) (auto intro: small_sum simp: div_less_iff_less_mult)

lemma byte_parts:
  assumes "b < (256::nat)"
  shows "(x * 16 + b div 16) div 16 = x" "(x * 16 + b div 16) mod 16 = b div 16"
    "(x * 4 + b div 64) div 4 = x" "(x * 4 + b div 64) mod 4 = b div 64"
proof -
  have "b div 16 < 16" "b div 64 < 4" using assms by auto
  then show "(x * 16 + b div 16) div 16 = x" "(x * 16 + b div 16) mod 16 = b div 16"
    "(x * 4 + b div 64) div 4 = x" "(x * 4 + b div 64) mod 4 = b div 64" by simp_all
qed

lemma b64_bytes_vals: "\<forall>b \<in> set bs. b < 256 \<Longrightarrow> b64_bytes (b64_vals bs) = Some bs"
proof (induction bs rule: b64_vals.induct)
  case (2 a)
  then show ?case using byte_parts(1) [of 0] by simp
next
  case (3 a b)
  then have "a < 256" "b < 256" by auto
  then show ?case using byte_parts(3) [of 0] by (simp add: byte_parts)
next
  case (4 a b c bs)
  then have "a < 256" "b < 256" "c < 256" by auto
  with 4 show ?case by (simp add: byte_parts)
qed simp

lemma b64_encode_plain:
  "\<forall>b \<in> set bs. b < 256 \<Longrightarrow> c \<in> set (b64_encode bs) \<Longrightarrow> c \<noteq> CHR ''.'' \<and>
     (of_char c :: nat) \<noteq> 10 \<and> (of_char c :: nat) \<noteq> 13 \<and> b64_val c \<noteq> None"
  using b64_vals_small b64_char_plain by (auto simp: b64_encode_vals)

lemma b64_decode_encode: "\<forall>b \<in> set bs. b < 256 \<Longrightarrow> b64_decode (b64_encode bs) = Some bs"
proof -
  assume bs: "\<forall>b \<in> set bs. b < 256"
  have "filter (\<lambda>c. (of_char c :: nat) \<noteq> 10 \<and> (of_char c :: nat) \<noteq> 13) (b64_encode bs) = b64_encode bs"
    using b64_encode_plain [OF bs] by (auto intro: filter_True)
  moreover have "list_all (\<lambda>c. b64_val c \<noteq> None) (b64_encode bs)"
    using b64_encode_plain [OF bs] by (auto simp: list_all_iff)
  moreover have "map (\<lambda>c. the (b64_val c)) (b64_encode bs) = b64_vals bs"
    using b64_vals_small [OF bs] by (auto simp: b64_encode_vals intro: map_idI)
  ultimately show ?thesis using b64_bytes_vals [OF bs] by (simp add: b64_decode_def)
qed

section \<open>Segments\<close>

lemma split_dot_plain: "CHR ''.'' \<notin> set s \<Longrightarrow> split_dot s = [s]"
  by (induction s) auto

lemma split_dot_append: "CHR ''.'' \<notin> set s \<Longrightarrow> split_dot (s @ CHR ''.'' # r) = s # split_dot r"
proof (induction s)
  case Nil
  have "split_dot r \<noteq> []" for r by (induction r) (auto split: list.split)
  then show ?case by (auto split: list.split)
qed auto

lemma split_token_join:
  assumes "CHR ''.'' \<notin> set v" "CHR ''.'' \<notin> set p" "CHR ''.'' \<notin> set g"
  shows "split_token ((v @ ''.'' @ p) @ ''.'' @ g) = Inr (v, p, g)"
  using assms by (simp add: split_token_def split_dot_append split_dot_plain)

lemma b64_no_dot: "\<forall>b \<in> set bs. b < 256 \<Longrightarrow> CHR ''.'' \<notin> set (b64_encode bs)"
  using b64_encode_plain by blast

lemma to_bytes_small: "\<forall>b \<in> set (to_bytes s). b < 256"
  by (auto simp: to_bytes_def)

lemma of_bytes_to_bytes [simp]: "of_bytes (to_bytes s) = s"
  by (simp add: of_bytes_def to_bytes_def)

section \<open>Properties\<close>

text \<open>C34: A token that \<open>Sign\<close> made is accepted by \<open>Verify\<close> with the same secret and gives back the
  ticket, the event and version 1. The JSON decoder and the UUID parser are asked to read back the
  two texts the token was made from.\<close>

theorem verify_sign:
  assumes "\<forall>m. \<forall>b \<in> set (hmac m). b < 256"
    and "unmarshal (marshal_payload \<lparr> qp_tid = uuid_string tid, qp_eid = uuid_string eid, qp_v = 1 \<rparr>)
      = Some \<lparr> qp_tid = uuid_string tid, qp_eid = uuid_string eid, qp_v = 1 \<rparr>"
    and "parse_uuid (uuid_string tid) = Some tid" "parse_uuid (uuid_string eid) = Some eid"
  shows "verify hmac unmarshal parse_uuid (sign hmac uuid_string tid eid)
    = Inr \<lparr> ref_ticket = tid, ref_event = eid, ref_version = 1 \<rparr>"
proof -
  have ver: "dec (nat current_version) = ''1''" "atoi ''1'' = Some current_version"
    by code_simp+
  let ?body = "marshal_payload \<lparr> qp_tid = uuid_string tid, qp_eid = uuid_string eid, qp_v = current_version \<rparr>"
  let ?p = "b64_encode (to_bytes ?body)"
  have "split_token (sign hmac uuid_string tid eid)
      = Inr (''1'', ?p, mac_segment hmac (''1'' @ ''.'' @ ?p))"
    unfolding sign_def Let_def ver
    by (rule split_token_join) (use assms(1) b64_no_dot to_bytes_small in \<open>auto simp: mac_segment_def\<close>)
  moreover have "decode_payload unmarshal parse_uuid ''1'' ?p
      = Inr \<lparr> ref_ticket = tid, ref_event = eid, ref_version = 1 \<rparr>"
    using assms(2-4) b64_decode_encode [OF to_bytes_small, of ?body]
    by (simp add: decode_payload_def ver current_version_def)
  ultimately show ?thesis by (simp add: verify_def ver)
qed

theorem verify_sign_witness:
  "verify (\<lambda>m. [length m mod 256]) (\<lambda>_. Some \<lparr> qp_tid = dec 12, qp_eid = dec 34, qp_v = 1 \<rparr>) dec_val
     (sign (\<lambda>m. [length m mod 256]) dec 12 34)
   = Inr \<lparr> ref_ticket = 12, ref_event = 34, ref_version = 1 \<rparr>"
  by (rule verify_sign) simp_all

text \<open>C35: \<open>Verify\<close> is exactly the structural check of \<open>DecodeStructure\<close> plus the signature: it accepts
  a token with a reference if and only if \<open>DecodeStructure\<close> accepts it with that reference and the
  third segment is the MAC of the first two. What the offline client accepts can differ from what
  the server accepts only by the signature.\<close>

theorem verify_iff_structure_and_signature:
  "verify hmac unmarshal parse_uuid token = Inr r \<longleftrightarrow>
     decode_structure unmarshal parse_uuid token = Inr r \<and>
     (\<exists>v p g. split_dot token = [v, p, g] \<and> g = b64_encode (hmac (v @ ''.'' @ p)))"
proof (cases "split_token token")
  case (Inl e)
  then show ?thesis by (simp add: verify_def decode_structure_def)
next
  case (Inr seg)
  obtain v p g where seg: "seg = (v, p, g)" by (cases seg) auto
  with Inr have "split_dot token = [v, p, g]"
    by (auto simp: split_token_def split: list.splits)
  with Inr seg show ?thesis
    by (auto simp: verify_def decode_structure_def decode_payload_def mac_segment_def)
qed

text \<open>Raw base64url decoding inverts encoding for every byte string, whatever its length modulo
  three, and the encoding contains neither a dot, which separates the segments of a token, nor a
  line break, which the decoder skips.\<close>

lemma base64_round_trip:
  assumes "\<forall>b \<in> set bs. b < 256"
  shows "b64_decode (b64_encode bs) = Some bs \<and> CHR ''.'' \<notin> set (b64_encode bs) \<and>
    split_dot (b64_encode bs) = [b64_encode bs]"
  using b64_decode_encode [OF assms] b64_no_dot [OF assms] split_dot_plain by simp

lemma base64_round_trip_witness:
  "b64_decode (b64_encode [255, 254, 0, 7, 128]) = Some [255, 254, 0, 7, 128]"
  using base64_round_trip [of "[255, 254, 0, 7, 128]"] by simp

end
