(* ===== verification/Scanner.thy ===== *)
theory Scanner
  imports Organizations QR
begin

text \<open>
  Gate scans (\<open>modules/scanner/service.go\<close>, \<open>ticket_reader.go\<close>, \<open>handler.go\<close>): reading a QR token, checking a ticket
  in, and the check-in endpoint with its idempotency key. The scanner puts the tokens of \<open>QR\<close>, the tickets of
  \<open>Tickets\<close>, the pickups of \<open>Racepack\<close> and the permissions of \<open>Organizations\<close> together. The MAC, the readers and writers
  of JSON and \<open>uuid.Parse\<close> are parameters, the clock is an argument.
\<close>

abbreviation ErrSignatureInvalid :: app_error where "ErrSignatureInvalid \<equiv> PlainErr ''scanner: qr signature invalid''"
abbreviation ErrMalformedToken :: app_error where "ErrMalformedToken \<equiv> PlainErr ''scanner: qr token malformed''"
abbreviation ErrUnsupportedVersion :: app_error where
  "ErrUnsupportedVersion \<equiv> PlainErr ''scanner: qr token version unsupported''"
abbreviation ErrEventMismatch :: app_error where "ErrEventMismatch \<equiv> PlainErr ''scanner: ticket does not belong to this event''"
abbreviation ErrScanTicketNotFound :: app_error where "ErrScanTicketNotFound \<equiv> PlainErr ''scanner: ticket not found''"
abbreviation ErrScanCancelled :: app_error where "ErrScanCancelled \<equiv> PlainErr ''scanner: ticket cancelled''"
abbreviation ErrAlreadyCheckedIn :: app_error where "ErrAlreadyCheckedIn \<equiv> PlainErr ''scanner: ticket already checked in''"
abbreviation ErrUnauthorizedEvent :: app_error where
  "ErrUnauthorizedEvent \<equiv> PlainErr ''scanner: not authorized for this event''"
abbreviation ErrScanConflict :: app_error where
  "ErrScanConflict \<equiv> PlainErr ''scanner: idempotency key reused with different payload''"

definition scan_error :: "app_error \<Rightarrow> app_error" where
  "scan_error e =
     (if e = ErrSignatureInvalid then AppErr 422 ''QR_SIGNATURE_INVALID''
      else if e = ErrMalformedToken then AppErr 400 ''QR_MALFORMED''
      else if e = ErrUnsupportedVersion then AppErr 422 ''QR_UNSUPPORTED_VERSION''
      else if e = ErrEventMismatch then AppErr 404 ''EVENT_MISMATCH''
      else if e = ErrScanTicketNotFound then AppErr 404 ''TICKET_NOT_FOUND''
      else if e = ErrScanCancelled then AppErr 409 ''TICKET_CANCELLED''
      else if e = ErrAlreadyCheckedIn then AppErr 409 ''ALREADY_CHECKED_IN''
      else if e = ErrUnauthorizedEvent then AppErr 403 ''FORBIDDEN_EVENT''
      else if e = ErrScanConflict then AppErr 409 ''IDEMPOTENCY_CONFLICT''
      else if e = NoRows then AppErr 404 ''NOT_FOUND''
      else e)"

definition map_qr_error :: "qr_error \<Rightarrow> app_error" where
  "map_qr_error e = (case e of InvalidSignature \<Rightarrow> ErrSignatureInvalid | UnsupportedVersion \<Rightarrow> ErrUnsupportedVersion
     | MalformedToken \<Rightarrow> ErrMalformedToken)"

section \<open>Permitted events\<close>

record permitted_event =
  pe_event :: uuid
  pe_org :: uuid
  pe_name :: string
  pe_status :: string

definition list_permitted_events :: "uuid \<Rightarrow> tenancy \<Rightarrow> permitted_event list" where
  "list_permitted_events staff s =
     map (\<lambda>e. \<lparr> pe_event = e_id e, pe_org = e_org e, pe_name = e_name e, pe_status = e_status e \<rparr>)
       (list_scannable_events_for_user staff s)"

definition assert_scan_event_in_org :: "uuid \<Rightarrow> uuid \<Rightarrow> tenancy \<Rightarrow> unit res" where
  "assert_scan_event_in_org ev org s =
     (case get_event_organization_id ev (tdesk s) of
        None \<Rightarrow> Inl ErrEventMismatch
      | Some x \<Rightarrow> if x \<noteq> org then Inl ErrEventMismatch else Inr ())"

definition assert_event_permitted :: "uuid \<Rightarrow> uuid \<Rightarrow> tenancy \<Rightarrow> unit res" where
  "assert_event_permitted staff ev s = (if user_can_scan_event ev staff s then Inr () else Inl ErrUnauthorizedEvent)"

section \<open>Reading a token\<close>

text \<open>Only these four columns leave the query of the ticket display.\<close>

definition get_ticket_display_info :: "uuid \<Rightarrow> db \<Rightarrow> (string \<times> string option \<times> string \<times> ticket_status) option" where
  "get_ticket_display_info t s =
     map_option (\<lambda>x. (t_holder_name x, t_bib x, t_category_name x, t_status x)) (sel (\<lambda>x. t_id x = t) (tickets s))"

record display_info =
  di_name :: string
  di_bib :: string
  di_category :: string
  di_status :: ticket_status

definition get_display_info :: "uuid \<Rightarrow> db \<Rightarrow> display_info res" where
  "get_display_info t s =
     (case get_ticket_display_info t s of
        None \<Rightarrow> Inl ErrScanTicketNotFound
      | Some (n, b, c, st) \<Rightarrow>
          Inr \<lparr> di_name = n, di_bib = (case b of None \<Rightarrow> '''' | Some b \<Rightarrow> b), di_category = c, di_status = st \<rparr>)"

record verify_input =
  vi_token :: string
  vi_event :: uuid
  vi_org :: uuid
  vi_staff :: uuid

record verify_result =
  vr_ticket :: uuid
  vr_event :: uuid
  vr_display :: display_info
  vr_picked_up :: bool
  vr_picked_up_at :: "time option"
  vr_checked_in :: bool
  vr_checked_in_at :: "time option"

text \<open>\<open>reader\<close> is \<open>Signer.Verify\<close>. A rejected token is written to the audit log.\<close>

definition verify_scan :: "(string \<Rightarrow> qr_error + ticket_ref) \<Rightarrow> verify_input \<Rightarrow> tenancy \<Rightarrow> verify_result res \<times> tenancy" where
  "verify_scan reader inp s =
     and_then (assert_event_permitted (vi_staff inp) (vi_event inp) s, s) (\<lambda>_ s.
     case reader (vi_token inp) of
       Inl e \<Rightarrow> (Inl (map_qr_error e), tenancy_audit ''SCANNER_QR_REJECTED'' nil_uuid s)
     | Inr ref \<Rightarrow>
         and_then (require (ref_event ref = vi_event inp) ErrEventMismatch s) (\<lambda>_ s.
         and_then (get_display_info (ref_ticket ref) (tdb s), s) (\<lambda>d s.
         and_then (found ErrScanTicketNotFound (get_ticket_by_id (ref_ticket ref) (tdb s)) s) (\<lambda>t s.
         let used = (t_status t = TixUsed); rec = get_pickup_status_by_ticket (ref_ticket ref) (tdesk s)
         in and_then (case rec of Inl e \<Rightarrow> if e = ErrPackTicketNotFound \<or> e = NoRows then (Inr None, s) else (Inl e, s)
                      | Inr p \<Rightarrow> (Inr (Some p), s)) (\<lambda>p s.
            (Inr \<lparr> vr_ticket = ref_ticket ref, vr_event = ref_event ref, vr_display = d, vr_picked_up = (p \<noteq> None),
                vr_picked_up_at = map_option pk_at p, vr_checked_in = used,
                vr_checked_in_at = (if used then t_used_at t else None) \<rparr>, s))))))"

section \<open>Checking in\<close>

record check_in_input =
  ci_org :: uuid
  ci_event :: uuid
  ci_ticket :: uuid
  ci_staff :: uuid
  ci_scanned :: "time option"

text \<open>The time is \<open>None\<close> for Go's zero time, of a used ticket without a time.\<close>

record check_in_result =
  cr_ticket :: uuid
  cr_at :: "time option"
  cr_duplicate :: bool

definition check_in_tx :: "check_in_input \<Rightarrow> time \<Rightarrow> tenancy \<Rightarrow> (time option \<times> bool) res \<times> tenancy" where
  "check_in_tx inp now s =
     and_then (found ErrScanTicketNotFound (lock_ticket_for_update (ci_ticket inp) (tdesk s)) s) (\<lambda>t s.
     and_then (require (t_status t \<noteq> TixCancelled) ErrScanCancelled s) (\<lambda>_ s.
     and_then (require (t_event t = ci_event inp) ErrEventMismatch s) (\<lambda>_ s.
     if t_status t = TixUsed then (Inr (t_used_at t, True), s)
     else (case mark_ticket_used (ci_ticket inp) (case ci_scanned inp of None \<Rightarrow> now | Some x \<Rightarrow> x) (tdb s) of
             (Inl e, _) \<Rightarrow> (Inl (if e = NoRows then ErrAlreadyCheckedIn else e), s)
           | (Inr u, b) \<Rightarrow> (Inr (t_used_at u, False), with_db b s)))))"

definition check_in :: "check_in_input \<Rightarrow> time \<Rightarrow> tenancy \<Rightarrow> check_in_result res \<times> tenancy" where
  "check_in inp now s =
     and_then (assert_event_permitted (ci_staff inp) (ci_event inp) s, s) (\<lambda>_ s.
     and_then (tenancy_tx (check_in_tx inp now) s) (\<lambda>(at, dup) s.
     (Inr \<lparr> cr_ticket = ci_ticket inp, cr_at = at, cr_duplicate = dup \<rparr>,
      tenancy_audit ''SCANNER_CHECKIN_COMPLETED'' (ci_ticket inp) s)))"

section \<open>The endpoints\<close>

definition with_scan_error :: "'a res \<times> tenancy \<Rightarrow> 'a res \<times> tenancy" where
  "with_scan_error m = (case m of (Inl e, s) \<Rightarrow> (Inl (scan_error e), s) | (Inr a, s) \<Rightarrow> (Inr a, s))"

definition verify_endpoint ::
  "(string \<Rightarrow> qr_error + ticket_ref) \<Rightarrow> (string \<Rightarrow> string option) \<Rightarrow> uuid \<Rightarrow> uuid \<Rightarrow> uuid \<Rightarrow> string \<Rightarrow> tenancy \<Rightarrow>
     verify_result res \<times> tenancy" where
  "verify_endpoint reader decode org ev staff body s =
     (case decode body of
        None \<Rightarrow> (Inl (AppErr 400 ''BAD_REQUEST''), s)
      | Some tok \<Rightarrow> with_scan_error (verify_scan reader \<lparr> vi_token = tok, vi_event = ev, vi_org = org, vi_staff = staff \<rparr> s))"

abbreviation checkin_scope :: string where "checkin_scope \<equiv> ''scanner.checkin''"

record scan_wire =
  sw_sha :: "string \<Rightarrow> string"
  sw_decode :: "string \<Rightarrow> (string \<times> time option) option"
  sw_parse :: "string \<Rightarrow> uuid option"
  sw_json :: "check_in_result \<Rightarrow> string"
  sw_jsonb :: "string \<Rightarrow> string"

definition check_in_endpoint ::
  "scan_wire \<Rightarrow> time \<Rightarrow> uuid \<Rightarrow> uuid \<Rightarrow> uuid \<Rightarrow> string \<Rightarrow> string \<Rightarrow> string \<Rightarrow> tenancy \<Rightarrow> (int \<times> string) res \<times> tenancy" where
  "check_in_endpoint w now org ev staff path body k s =
     (case sw_decode w body of
        None \<Rightarrow> (Inl (AppErr 400 ''BAD_REQUEST''), s)
      | Some (tid, at) \<Rightarrow>
          (case sw_parse w tid of
             None \<Rightarrow> (Inl (AppErr 400 ''INVALID_TICKET_ID''), s)
           | Some t \<Rightarrow>
               let h = hash_request (sw_sha w) ''POST'' path body
               in case lookup_idempotency k checkin_scope (tdesk s) of
                    Some hit \<Rightarrow> if ik_hash hit \<noteq> h then (Inl (scan_error ErrScanConflict), s)
                                else (Inr (ik_status hit, ik_body hit), s)
                  | None \<Rightarrow>
                      and_then (with_scan_error (check_in \<lparr> ci_org = org, ci_event = ev, ci_ticket = t, ci_staff = staff,
                          ci_scanned = at \<rparr> now s)) (\<lambda>r s.
                      (Inr (200, sw_json w r),
                       s\<lparr>tdesk := store_idempotency (sw_jsonb w) k checkin_scope h 200 (sw_json w r) (tdesk s)\<rparr>))))"

section \<open>What a check-in does\<close>

definition used_at :: "time \<Rightarrow> ticket \<Rightarrow> ticket" where
  "used_at x t = t\<lparr>t_status := TixUsed, t_used_at := Some x\<rparr>"

abbreviation open_row :: "uuid \<Rightarrow> ticket \<Rightarrow> bool" where "open_row i \<equiv> (\<lambda>t. t_id t = i \<and> t_status t = TixValid)"

definition scan_time :: "check_in_input \<Rightarrow> time \<Rightarrow> time" where
  "scan_time inp now = (case ci_scanned inp of None \<Rightarrow> now | Some x \<Rightarrow> x)"

lemma mark_used_valid:
  assumes "sel (\<lambda>t. t_id t = i) (tickets b) = Some t" "t_status t = TixValid"
  shows "mark_ticket_used i at b = (Inr (used_at at t), b\<lparr>tickets := upd (open_row i) (used_at at) (tickets b)\<rparr>)"
proof -
  have "sel (open_row i) (tickets b) = Some t" using assms by (intro sel_strengthen)
  then show ?thesis by (simp add: mark_ticket_used_def upd_one_def used_at_def [abs_def])
qed

lemma with_db_frame [simp]:
  "tdb (with_db b s) = b" "idem_keys (tdesk (with_db b s)) = idem_keys (tdesk s)" "pickups (tdesk (with_db b s)) = pickups (tdesk s)"
  by (simp_all add: with_db_def)

lemma audit_keeps_tickets [simp]:
  "tickets (tdb (tenancy_audit a i s)) = tickets (tdb s)" "idem_keys (tdesk (tenancy_audit a i s)) = idem_keys (tdesk s)"
  "pickups (tdesk (tenancy_audit a i s)) = pickups (tdesk s)" "events (tdb (tenancy_audit a i s)) = events (tdb s)"
  by (simp_all add: tenancy_audit_def desk_audit_def audit_def)

text \<open>Everything a check-in does, refusals included.\<close>

lemma check_in_cases:
  "check_in inp now s =
    (if \<not> user_can_scan_event (ci_event inp) (ci_staff inp) s then (Inl ErrUnauthorizedEvent, s)
     else case lock_ticket_for_update (ci_ticket inp) (tdesk s) of
       None \<Rightarrow> (Inl ErrScanTicketNotFound, s)
     | Some t \<Rightarrow>
         if t_status t = TixCancelled then (Inl ErrScanCancelled, s)
         else if t_event t \<noteq> ci_event inp then (Inl ErrEventMismatch, s)
         else (Inr \<lparr> cr_ticket = ci_ticket inp,
                     cr_at = (if t_status t = TixUsed then t_used_at t else Some (scan_time inp now)),
                     cr_duplicate = (t_status t = TixUsed) \<rparr>,
               tenancy_audit ''SCANNER_CHECKIN_COMPLETED'' (ci_ticket inp)
                 (if t_status t = TixUsed then s
                  else with_db ((tdb s)\<lparr>tickets := upd (open_row (ci_ticket inp)) (used_at (scan_time inp now)) (tickets (tdb s))\<rparr>) s)))"
proof (cases "lock_ticket_for_update (ci_ticket inp) (tdesk s)")
  case (Some t)
  then have t: "sel (\<lambda>t. t_id t = ci_ticket inp) (tickets (tdb s)) = Some t" by (simp add: lock_ticket_for_update_def)
  show ?thesis
  proof (cases "t_status t")
    case TixValid
    with Some mark_used_valid [OF t, of "scan_time inp now"] show ?thesis
      by (simp add: check_in_def check_in_tx_def tenancy_tx_def assert_event_permitted_def and_then_def found_def require_def
          scan_time_def used_at_def)
  qed (use Some in \<open>simp_all add: check_in_def check_in_tx_def tenancy_tx_def assert_event_permitted_def and_then_def found_def require_def\<close>)
qed (simp add: check_in_def check_in_tx_def tenancy_tx_def assert_event_permitted_def and_then_def found_def)

text \<open>C13: A check-in succeeds only for staff of the event's organization with a scanning permission, for a ticket of
  that event which is not cancelled. It is a duplicate exactly when the ticket was used before, and then returns the
  stored time and changes no ticket; otherwise only the row of this ticket becomes used, at the time of the scan.
  A refusal changes nothing.\<close>

theorem check_in_exact:
  "(case check_in inp now s of
      (Inl e, s1) \<Rightarrow> s1 = s
    | (Inr r, s1) \<Rightarrow>
        (\<exists>e \<in> set (events (tdb s)). e_id e = ci_event inp \<and> scans_in (e_org e) (ci_staff inp) s) \<and>
        (\<exists>t. lock_ticket_for_update (ci_ticket inp) (tdesk s) = Some t \<and> t_event t = ci_event inp \<and> t_status t \<noteq> TixCancelled \<and>
          cr_duplicate r = (t_status t = TixUsed) \<and>
          cr_at r = (if cr_duplicate r then t_used_at t else Some (scan_time inp now)) \<and>
          tickets (tdb s1) = (if cr_duplicate r then tickets (tdb s)
            else map (\<lambda>x. if t_id x = ci_ticket inp \<and> t_status x = TixValid
                          then x\<lparr>t_status := TixUsed, t_used_at := Some (scan_time inp now)\<rparr> else x) (tickets (tdb s)))))"
proof (cases "check_in inp now s")
  case (Pair a s1)
  show ?thesis
  proof (cases a)
    case (Inl e)
    with Pair show ?thesis by (auto simp: check_in_cases split: if_splits option.splits)
  next
    case (Inr r)
    with Pair have ok: "user_can_scan_event (ci_event inp) (ci_staff inp) s"
      by (auto simp: check_in_cases split: if_splits)
    from Inr Pair obtain t where t: "lock_ticket_for_update (ci_ticket inp) (tdesk s) = Some t"
      by (auto simp: check_in_cases split: if_splits option.splits)
    with Inr Pair ok show ?thesis
      by (auto simp: check_in_cases user_can_scan_event_def upd_def used_at_def split: if_splits)
  qed
qed

section \<open>The first scan counts\<close>

text \<open>What a scan reads of a ticket.\<close>

definition scan_key :: "ticket \<Rightarrow> uuid \<times> uuid \<times> ticket_status \<times> time option" where
  "scan_key t = (t_id t, t_event t, t_status t, t_used_at t)"

definition scan_of :: "uuid \<Rightarrow> ticket list \<Rightarrow> (uuid \<times> ticket_status \<times> time option) option" where
  "scan_of i ts = map_of (map scan_key ts) i"

lemma scan_of_sel: "scan_of i ts = map_option (\<lambda>t. (t_event t, t_status t, t_used_at t)) (sel (\<lambda>t. t_id t = i) ts)"
  by (induction ts) (simp_all add: scan_of_def scan_key_def)

lemma scan_of_used: "scan_of i ts = Some (ev, TixUsed, a) \<Longrightarrow> scan_of i (upd (open_row j) (used_at x) ts) = Some (ev, TixUsed, a)"
  by (induction ts) (auto simp: scan_of_def scan_key_def used_at_def split: if_splits)

lemma scan_of_marked:
  "scan_of i ts = Some (ev, TixValid, a) \<Longrightarrow> scan_of i (upd (open_row i) (used_at x) ts) = Some (ev, TixUsed, Some x)"
  by (induction ts) (auto simp: scan_of_def scan_key_def used_at_def split: if_splits)

lemma scan_of_grows: "grows (map scan_key ts) (map scan_key us) \<Longrightarrow> scan_of i ts = Some k \<Longrightarrow> scan_of i us = Some k"
  by (auto simp: grows_def scan_of_def map_add_Some_iff)

text \<open>The operations of the other modules on tickets add rows at most, and leave what a scan reads.\<close>

lemma ticket_operations_keep_scans:
  "grows (map scan_key (tickets b)) (map scan_key (tickets (snd (create_ticket t b))))"
  "grows (map scan_key (tickets b)) (map scan_key (tickets (snd (assign_bib_row i bib actor meth now b))))"
  "grows (map scan_key (tickets b)) (map scan_key (tickets (snd (clear_bib_row i b))))"
  "grows (map scan_key (tickets b)) (map scan_key (tickets (snd (link_ticket_to_participant i u b))))"
  "grows (map scan_key (tickets b)) (map scan_key (tickets (snd (update_ticket_participant i name email org ev answers b))))"
  by (auto simp: create_ticket_def assign_bib_row_def clear_bib_row_def link_ticket_to_participant_def
      update_ticket_participant_def Let_def upd_one_def map_upd scan_key_def split: option.split)

text \<open>Scans at every gate, and whatever the rest of the program does that leaves the scans and the stored answers.\<close>

inductive scan_step :: "tenancy \<Rightarrow> tenancy \<Rightarrow> bool" where
  "scan_step s (snd (check_in inp now s))"
| "scan_step s (snd (check_in_endpoint w now org ev staff path body k s))"
| "scan_step s (snd (verify_endpoint reader decode org ev staff body s))"
| "grows (map scan_key (tickets (tdb s))) (map scan_key (tickets (tdb s'))) \<Longrightarrow>
   grows (idem_keys (tdesk s)) (idem_keys (tdesk s')) \<Longrightarrow> scan_step s s'"

definition scanned :: "uuid \<Rightarrow> uuid \<Rightarrow> time option \<Rightarrow> tenancy \<Rightarrow> bool" where
  "scanned i ev a s \<longleftrightarrow> scan_of i (tickets (tdb s)) = Some (ev, TixUsed, a)"

lemma scanned_check_in: "scanned i ev a s \<Longrightarrow> scanned i ev a (snd (check_in inp now s))"
  by (auto simp: check_in_cases scanned_def scan_of_used split: option.split)

lemma keys_check_in: "idem_keys (tdesk (snd (check_in inp now s))) = idem_keys (tdesk s)"
  by (auto simp: check_in_cases split: option.split)

lemma tables_verify:
  "tickets (tdb (snd (verify_scan reader inp s))) = tickets (tdb s) \<and> idem_keys (tdesk (snd (verify_scan reader inp s))) = idem_keys (tdesk s)"
  by (auto simp: verify_scan_def and_then_def found_def require_def Let_def split: sum.split option.split)

lemma with_scan_error_state [simp]: "snd (with_scan_error m) = snd m"
  by (auto simp: with_scan_error_def split: prod.split sum.split)

lemma store_keeps_base [simp]: "pbase (store_idempotency jsonb k sc h st b d) = pbase d"
  by (simp add: store_idempotency_def insert_idempotency_key_def Let_def)

lemma check_in_endpoint_inv:
  assumes "I s" "\<And>inp. I (snd (check_in inp now s))"
    "\<And>h st b t. I t \<Longrightarrow> I (t\<lparr>tdesk := store_idempotency (sw_jsonb w) k checkin_scope h st b (tdesk t)\<rparr>)"
  shows "I (snd (check_in_endpoint w now org ev staff path body k s))"
proof -
  have "I (snd (and_then (with_scan_error (check_in inp now s)) (\<lambda>r s. (Inr (c r), s\<lparr>tdesk := store_idempotency (sw_jsonb w) k
      checkin_scope (h r) (st r) (b r) (tdesk s)\<rparr>))))" for inp h st b and c :: "check_in_result \<Rightarrow> int \<times> string"
    by (rule and_then_inv [where I = I]) (simp_all add: assms)
  then show ?thesis using assms(1) unfolding check_in_endpoint_def Let_def
    by (simp split: option.split prod.split)
qed

lemma step_scanned: "scan_step s t \<Longrightarrow> scanned i ev a s \<Longrightarrow> scanned i ev a t"
proof (induction rule: scan_step.induct)
  case (2 s w now org ev' staff path body k)
  then show ?case by (intro check_in_endpoint_inv [where I = "scanned i ev a"] scanned_check_in) (simp_all add: scanned_def)
next
  case (3 s reader decode org ev' staff body)
  then show ?case using tables_verify by (auto simp: verify_endpoint_def scanned_def split: option.split)
qed (auto simp: scanned_def intro: scan_of_grows scanned_check_in [unfolded scanned_def])

lemma step_keys: "scan_step s t \<Longrightarrow> grows (idem_keys (tdesk s)) (idem_keys (tdesk t))"
proof (induction rule: scan_step.induct)
  case (2 s w now org ev' staff path body k)
  show ?case
    by (rule check_in_endpoint_inv [where I = "\<lambda>t. grows (idem_keys (tdesk s)) (idem_keys (tdesk t))"])
      (auto simp: keys_check_in intro: grows_trans store_grows(1))
next
  case (3 s reader decode org ev' staff body)
  then show ?case using tables_verify by (auto simp: verify_endpoint_def split: option.split)
qed (simp_all add: keys_check_in)

lemma steps_scanned: "scan_step\<^sup>*\<^sup>* s t \<Longrightarrow> scanned i ev a s \<Longrightarrow> scanned i ev a t"
  by (induction rule: rtranclp_induct) (auto intro: step_scanned)

lemma steps_keys: "scan_step\<^sup>*\<^sup>* s t \<Longrightarrow> grows (idem_keys (tdesk s)) (idem_keys (tdesk t))"
  by (induction rule: rtranclp_induct) (auto intro: step_keys grows_trans)

lemma check_in_scanned:
  assumes "check_in inp now s = (Inr r, s1)"
  shows "scanned (ci_ticket inp) (ci_event inp) (cr_at r) s1"
proof (cases "lock_ticket_for_update (ci_ticket inp) (tdesk s)")
  case (Some t)
  then have "scan_of (ci_ticket inp) (tickets (tdb s)) = Some (t_event t, t_status t, t_used_at t)"
    by (simp add: scan_of_sel lock_ticket_for_update_def)
  with Some assms show ?thesis
    by (cases "t_status t") (auto simp: check_in_cases scanned_def scan_of_marked split: if_splits)
qed (use assms in \<open>simp add: check_in_cases split: if_splits\<close>)

lemma scanned_ticket:
  "scanned i ev a s \<Longrightarrow> \<exists>t. lock_ticket_for_update i (tdesk s) = Some t \<and> get_ticket_by_id i (tdb s) = Some t \<and>
     t_event t = ev \<and> t_status t = TixUsed \<and> t_used_at t = a"
  by (auto simp: scanned_def scan_of_sel lock_ticket_for_update_def get_ticket_by_id_def)

text \<open>C12: After a ticket was checked in, every later check-in of it that succeeds is a duplicate and returns the time of
  the first one, whatever happens in between at the gates and in the rest of the program.\<close>

theorem first_scan_counts:
  assumes "check_in inp now s = (Inr r, s1)" "scan_step\<^sup>*\<^sup>* s1 s2" "ci_ticket inp2 = ci_ticket inp"
    "check_in inp2 now2 s2 = (Inr r2, s3)"
  shows "cr_duplicate r2 \<and> cr_at r2 = cr_at r \<and> tickets (tdb s3) = tickets (tdb s2)"
proof -
  have "scanned (ci_ticket inp) (ci_event inp) (cr_at r) s2" using steps_scanned assms(2) check_in_scanned [OF assms(1)] by blast
  then obtain t where "lock_ticket_for_update (ci_ticket inp) (tdesk s2) = Some t" "t_status t = TixUsed" "t_used_at t = cr_at r"
    using scanned_ticket by blast
  with assms(3,4) show ?thesis by (auto simp: check_in_cases split: if_splits)
qed

text \<open>From then on every accepted token of the ticket, read by staff with a permission for the event, shows it as
  checked in at that time; the pickup flag of the answer says whether there is a live pickup record.\<close>

theorem reader_reports_check_in:
  assumes "check_in inp now s = (Inr r, s1)" "scan_step\<^sup>*\<^sup>* s1 s2"
    "verify hmac unmarshal parse token = Inr ref" "ref_ticket ref = ci_ticket inp" "ref_event ref = ci_event inp"
    "user_can_scan_event (ci_event inp) staff s2"
  shows "\<exists>v. verify_scan (verify hmac unmarshal parse) \<lparr> vi_token = token, vi_event = ci_event inp, vi_org = org, vi_staff = staff \<rparr> s2 =
      (Inr v, s2) \<and> vr_checked_in v \<and> vr_checked_in_at v = cr_at r \<and> di_status (vr_display v) = TixUsed \<and>
      vr_picked_up v = has_active_pickup (ci_ticket inp) (tdesk s2)"
proof -
  have "scanned (ci_ticket inp) (ci_event inp) (cr_at r) s2" using steps_scanned assms(2) check_in_scanned [OF assms(1)] by blast
  then obtain t where t: "get_ticket_by_id (ci_ticket inp) (tdb s2) = Some t" "t_status t = TixUsed" "t_used_at t = cr_at r"
    using scanned_ticket by blast
  then have "get_ticket_display_info (ci_ticket inp) (tdb s2) = Some (t_holder_name t, t_bib t, t_category_name t, TixUsed)"
    by (simp add: get_ticket_display_info_def get_ticket_by_id_def)
  with t assms(3-6) show ?thesis
    by (cases "get_racepack_pickup_record_by_ticket (ci_ticket inp) (tdesk s2)")
      (simp_all add: verify_scan_def assert_event_permitted_def and_then_def require_def found_def get_display_info_def Let_def
        get_pickup_status_by_ticket_def has_active_pickup_def)
qed

text \<open>A token that the reader refuses is refused by the scan with the scanner's error for it and changes nothing but
  the audit log, for staff with a permission; staff without one learn nothing about the token.\<close>

theorem refused_token_is_audited:
  assumes "verify hmac unmarshal parse (vi_token inp) = Inl e"
  shows "verify_scan (verify hmac unmarshal parse) inp s =
    (if user_can_scan_event (vi_event inp) (vi_staff inp) s
     then (Inl (map_qr_error e), tenancy_audit ''SCANNER_QR_REJECTED'' nil_uuid s) else (Inl ErrUnauthorizedEvent, s))"
  using assms by (simp add: verify_scan_def assert_event_permitted_def and_then_def)

text \<open>A check-in request that is sent again with its idempotency key is answered from the store, with status 200
  and the stored text in its jsonb form, and changes nothing; the same key with another payload gets the conflict
  error.\<close>

theorem check_in_replay:
  assumes "check_in_endpoint w now org ev staff path body k s = (Inr a, s1)" "k \<noteq> ''''"
    "get_idempotency_key k checkin_scope (tdesk s) = None" "scan_step\<^sup>*\<^sup>* s1 s2"
  shows "check_in_endpoint w now2 org2 ev2 staff2 path body k s2 = (Inr (200, sw_jsonb w (snd a)), s2) \<and>
    (hash_request (sw_sha w) ''POST'' path2 body2 \<noteq> hash_request (sw_sha w) ''POST'' path body \<longrightarrow>
       sw_decode w body2 = sw_decode w body \<longrightarrow>
       check_in_endpoint w now2 org2 ev2 staff2 path2 body2 k s2 = (Inl (AppErr 409 ''IDEMPOTENCY_CONFLICT''), s2))"
proof -
  let ?h = "hash_request (sw_sha w) ''POST'' path body"
  from assms(1) obtain tid at t where d: "sw_decode w body = Some (tid, at)" "sw_parse w tid = Some t"
    by (auto simp: check_in_endpoint_def split: option.splits)
  let ?run = "check_in \<lparr> ci_org = org, ci_event = ev, ci_ticket = t, ci_staff = staff, ci_scanned = at \<rparr> now s"
  from assms(1,3) d obtain r where r: "fst ?run = Inr r" "a = (200, sw_json w r)"
    "s1 = (snd ?run)\<lparr>tdesk := store_idempotency (sw_jsonb w) k checkin_scope ?h 200 (sw_json w r) (tdesk (snd ?run))\<rparr>"
    by (cases ?run; cases "fst ?run")
      (auto simp: check_in_endpoint_def lookup_idempotency_def assms(2) and_then_def with_scan_error_def Let_def)
  have "get_idempotency_key k checkin_scope (tdesk (snd ?run)) = None" using assms(3) by (simp add: get_idempotency_key_def keys_check_in)
  then have "get_idempotency_key k checkin_scope (tdesk s1) =
    Some \<lparr> ik_key = k, ik_scope = checkin_scope, ik_hash = ?h, ik_status = 200, ik_body = sw_jsonb w (sw_json w r) \<rparr>"
    using assms(2) by (simp add: r(3) store_idempotency_def insert_idempotency_key_def get_idempotency_key_def Let_def sel_append)
  then have "get_idempotency_key k checkin_scope (tdesk s2) =
    Some \<lparr> ik_key = k, ik_scope = checkin_scope, ik_hash = ?h, ik_status = 200, ik_body = sw_jsonb w (sw_json w r) \<rparr>"
    using lookup_after_growth steps_keys [OF assms(4)] by blast
  then show ?thesis using d r(2) assms(2)
    by (simp add: check_in_endpoint_def lookup_idempotency_def Let_def scan_error_def)
qed

text \<open>A refund has no effect at the gate: the ticket of a refunded order is checked in as before.\<close>

theorem refund_does_not_stop_check_in:
  assumes "refund_order org ev oid amount reason now (tdb s) = (Inr y, b)"
  shows "fst (check_in inp now2 (with_db b s)) = fst (check_in inp now2 s)"
proof -
  have "tickets b = tickets (tdb s) \<and> events b = events (tdb s)"
    using assms by (auto simp: refund_order_def and_then_Inr refund_order_tx_def record_order_refund_def exec_tx_def audit_def
        split: option.splits sum.splits prod.splits)
  moreover have "scans_in x u (with_db b s) = scans_in x u s" for x u
    by (simp add: scans_in_def list_permissions_for_member_def)
  ultimately show ?thesis
    by (simp add: check_in_cases user_can_scan_event_def lock_ticket_for_update_def with_db_def split: option.split)
qed

section \<open>Examples\<close>

text \<open>Organization 1 with owner 50 owns the event; the club of user 7 is organization 5.\<close>

definition gate :: tenancy where
  "gate = club\<lparr>orgs := orgs club @ [\<lparr> or_id = 1, or_name = ''Race'', or_slug = ''race'' \<rparr>],
     org_members := org_members club @ [\<lparr> mb_id = 20, mb_org = 1, mb_user = 50 \<rparr>, \<lparr> mb_id = 21, mb_org = 1, mb_user = 7 \<rparr>],
     permissions := permissions club @ [\<lparr> pm_id = 61, pm_key = ''checkin.execute'', pm_description = '''' \<rparr>],
     roles := roles club @ [\<lparr> rl_id = 30, rl_org = Some 1, rl_name = ''Owner'', rl_slug = ''owner'', rl_system = False \<rparr>,
       \<lparr> rl_id = 31, rl_org = Some 1, rl_name = ''Packs'', rl_slug = ''packs'', rl_system = False \<rparr>],
     role_permissions := role_permissions club @ [(140, 61), (30, 60), (30, 61), (31, 60)],
     member_roles := member_roles club @ [(20, 30), (21, 31)]\<rparr>"

definition at_gate :: "uuid \<Rightarrow> check_in_input" where
  "at_gate staff = \<lparr> ci_org = 1, ci_event = 2, ci_ticket = 1, ci_staff = staff, ci_scanned = Some 90 \<rparr>"

definition passed :: tenancy where
  "passed = snd (check_in (at_gate 50) 100 gate)"

definition entry :: "bool \<Rightarrow> check_in_result" where
  "entry dup = \<lparr> cr_ticket = 1, cr_at = Some 90, cr_duplicate = dup \<rparr>"

lemma passed_run: "check_in (at_gate 50) 100 gate = (Inr (entry False), passed)"
proof -
  have "fst (check_in (at_gate 50) 100 gate) = Inr (entry False)" by code_simp
  then show ?thesis unfolding passed_def by (metis prod.collapse)
qed

theorem first_scan_counts_witness:
  "(case check_in (at_gate 7) 300 passed of (Inl _, _) \<Rightarrow> False | (Inr r2, s3) \<Rightarrow>
     cr_duplicate r2 \<and> cr_at r2 = Some 90 \<and> tickets (tdb s3) = tickets (tdb passed))"
proof -
  have "fst (check_in (at_gate 7) 300 passed) = Inr (entry True)" by code_simp
  then obtain s3 where c: "check_in (at_gate 7) 300 passed = (Inr (entry True), s3)" by (metis prod.collapse)
  have "cr_duplicate (entry True) \<and> cr_at (entry True) = cr_at (entry False) \<and> tickets (tdb s3) = tickets (tdb passed)"
    by (rule first_scan_counts [OF passed_run rtranclp.rtrancl_refl _ c]) (simp add: at_gate_def)
  then show ?thesis unfolding c by (simp add: entry_def)
qed

definition gate_hmac :: "string \<Rightarrow> nat list" where
  "gate_hmac m = [length m mod 256]"

definition gate_json :: "string \<Rightarrow> qr_payload option" where
  "gate_json x = Some \<lparr> qp_tid = dec 1, qp_eid = dec 2, qp_v = 1 \<rparr>"

theorem reader_reports_check_in_witness:
  "\<exists>v. verify_scan (verify gate_hmac gate_json dec_val)
     \<lparr> vi_token = sign gate_hmac dec 1 2, vi_event = 2, vi_org = 1, vi_staff = 50 \<rparr> passed = (Inr v, passed) \<and>
     vr_checked_in v \<and> vr_checked_in_at v = Some 90"
proof -
  have tok: "verify gate_hmac gate_json dec_val (sign gate_hmac dec 1 2) = Inr \<lparr> ref_ticket = 1, ref_event = 2, ref_version = 1 \<rparr>"
    and can: "user_can_scan_event (ci_event (at_gate 50)) 50 passed" by code_simp+
  from reader_reports_check_in [OF passed_run rtranclp.rtrancl_refl tok _ _ can, of 1] show ?thesis
    by (auto simp: at_gate_def entry_def)
qed

theorem refused_token_is_audited_witness:
  "verify_scan (verify gate_hmac gate_json dec_val) \<lparr> vi_token = ''1.x.y'', vi_event = 2, vi_org = 1, vi_staff = 50 \<rparr> gate =
    (Inl ErrSignatureInvalid, tenancy_audit ''SCANNER_QR_REJECTED'' nil_uuid gate)"
proof -
  have e: "verify gate_hmac gate_json dec_val (vi_token \<lparr> vi_token = ''1.x.y'', vi_event = 2, vi_org = 1, vi_staff = 50 \<rparr>) = Inl InvalidSignature"
    and can: "user_can_scan_event 2 50 gate" by code_simp+
  from refused_token_is_audited [OF e, of gate] can show ?thesis by (simp add: map_qr_error_def)
qed

definition gate_wire :: scan_wire where
  "gate_wire = \<lparr> sw_sha = (\<lambda>x. x), sw_decode = (\<lambda>x. Some (''1'', Some 90)), sw_parse = dec_val,
     sw_json = (\<lambda>r. ''{a:1}''), sw_jsonb = (\<lambda>x. ''{a: 1}'') \<rparr>"

theorem check_in_replay_witness:
  "\<exists>s1. check_in_endpoint gate_wire 100 1 2 50 ''/check-in'' ''x'' ''K'' gate = (Inr (200, ''{a:1}''), s1) \<and>
     check_in_endpoint gate_wire 300 1 2 50 ''/check-in'' ''x'' ''K'' s1 = (Inr (200, ''{a: 1}''), s1) \<and>
     check_in_endpoint gate_wire 300 1 2 50 ''/check-in'' ''y'' ''K'' s1 = (Inl (AppErr 409 ''IDEMPOTENCY_CONFLICT''), s1)"
proof -
  let ?s1 = "snd (check_in_endpoint gate_wire 100 1 2 50 ''/check-in'' ''x'' ''K'' gate)"
  have "fst (check_in_endpoint gate_wire 100 1 2 50 ''/check-in'' ''x'' ''K'' gate) = Inr (200, ''{a:1}'')" by code_simp
  then have run: "check_in_endpoint gate_wire 100 1 2 50 ''/check-in'' ''x'' ''K'' gate = (Inr (200, ''{a:1}''), ?s1)" by (metis prod.collapse)
  have free: "get_idempotency_key ''K'' checkin_scope (tdesk gate) = None" by code_simp
  have hash: "hash_request (sw_sha gate_wire) ''POST'' ''/check-in'' ''y'' \<noteq> hash_request (sw_sha gate_wire) ''POST'' ''/check-in'' ''x''"
    by code_simp
  from check_in_replay [OF run _ free rtranclp.rtrancl_refl, of 300 1 2 50 "''/check-in''" "''y''"] hash run show ?thesis
    by (auto simp: gate_wire_def)
qed

theorem refund_does_not_stop_check_in_witness:
  "\<exists>y b. refund_order 1 2 41 0 '''' 95 (tdb gate) = (Inr y, b) \<and>
     fst (check_in (at_gate 50) 100 (with_db b gate)) = Inr (entry False)"
proof -
  have "case fst (refund_order 1 2 41 0 '''' 95 (tdb gate)) of Inl _ \<Rightarrow> False | Inr y \<Rightarrow> True" by code_simp
  then obtain y b where run: "refund_order 1 2 41 0 '''' 95 (tdb gate) = (Inr y, b)"
    by (cases "refund_order 1 2 41 0 '''' 95 (tdb gate)") (auto split: sum.splits)
  from refund_does_not_stop_check_in [OF run, of "at_gate 50" 100] passed_run run show ?thesis by simp
qed

text \<open>User 7 may only hand out packs in organization 1. The check-in route of their own organization 5 admits them with
  its permission and the event of organization 1, and the service accepts the pack permission there: they check
  tickets in without holding \<open>checkin.execute\<close> in organization 1.\<close>

theorem pack_staff_checks_in_through_another_organization:
  "require_permission parse_demo (\<lambda>_. '''') ''checkin.execute'' (Some \<lparr> ca_user = 7, ca_admin = False \<rparr>) ''five'' ''two'' gate = Inr (5, Some 2) \<and>
   (case load_permissions 1 7 gate of None \<Rightarrow> False | Some ks \<Rightarrow> ''checkin.execute'' \<notin> set ks) \<and>
   assert_scan_event_in_org 2 5 gate = Inl ErrEventMismatch \<and>
   fst (check_in ((at_gate 7)\<lparr>ci_org := 5\<rparr>) 100 gate) = Inr (entry False)"
  by code_simp

end
